(* ===== verification/Py_Prelude.thy ===== *)
theory Py_Prelude
  imports Main "HOL-Library.Word"
begin

text \<open>
  Shared vocabulary of the development: Python's exceptions, truthiness, and the string,
  integer and byte conversions of the standard library that the backend uses.
\<close>

section \<open>Exceptions\<close>

text \<open>
  The exceptions the modelled code raises or distinguishes. \<open>OtherError\<close> is an exception of
  a library call. \<open>NoReturn\<close> is not an exception: it is the outcome of a loop that does not
  return, and no handler catches it.
\<close>

datatype exn =
    ValueError string
  | RuntimeError string
  | TypeError string
  | KeyError string
  | HTTPException nat string
  | OtherError string
  | NoReturn

fun exn_str :: "exn \<Rightarrow> string" where
  "exn_str (ValueError m) = m"
| "exn_str (RuntimeError m) = m"
| "exn_str (TypeError m) = m"
| "exn_str (KeyError m) = m"
| "exn_str (HTTPException c m) = m"
| "exn_str (OtherError m) = m"
| "exn_str NoReturn = []"

section \<open>Truthiness and strings\<close>

text \<open>\<open>bool(x)\<close> of an optional string: \<open>None\<close> and the empty string are false.\<close>

definition truthy :: "string option \<Rightarrow> bool" where
  "truthy x = (case x of None \<Rightarrow> False | Some s \<Rightarrow> s \<noteq> [])"

text \<open>\<open>a or b\<close>.\<close>

definition py_or :: "string option \<Rightarrow> string option \<Rightarrow> string option" where
  "py_or a b = (if truthy a then a else b)"

lemma truthy_simps [simp]:
  "\<not> truthy None"
  "truthy (Some s) \<longleftrightarrow> s \<noteq> []"
  by (simp_all add: truthy_def)

lemma truthyE [elim]:
  assumes "truthy x" obtains s where "x = Some s" "s \<noteq> []"
  using assms by (cases x) auto

lemma py_or_truthy: "truthy (py_or a b) \<longleftrightarrow> truthy a \<or> truthy b"
  by (simp add: py_or_def)

lemma py_or_simps [simp]:
  "truthy a \<Longrightarrow> py_or a b = a"
  "\<not> truthy a \<Longrightarrow> py_or a b = b"
  by (simp_all add: py_or_def)

text \<open>\<open>s.startswith(p)\<close>, \<open>s.lower()\<close> on ASCII letters.\<close>

fun starts_with :: "string \<Rightarrow> string \<Rightarrow> bool" where
  "starts_with s [] = True"
| "starts_with [] (p # ps) = False"
| "starts_with (c # cs) (p # ps) = (c = p \<and> starts_with cs ps)"

lemma starts_with_append [simp]: "starts_with (p @ s) p"
  by (induction p) auto

lemma starts_with_iff: "starts_with s p \<longleftrightarrow> (\<exists>r. s = p @ r)"
  by (induction s p rule: starts_with.induct) auto

definition lower_char :: "char \<Rightarrow> char" where
  "lower_char c = (let n = (of_char c :: nat) in if 65 \<le> n \<and> n \<le> 90 then char_of (n + 32) else c)"

definition lower :: "string \<Rightarrow> string" where
  "lower s = map lower_char s"

lemma lower_char_idem [simp]: "lower_char (lower_char c) = lower_char c"
  by (simp add: lower_char_def Let_def)

lemma lower_idem [simp]: "lower (lower s) = lower s"
  by (simp add: lower_def)

lemma length_lower [simp]: "length (lower s) = length s"
  by (simp add: lower_def)

text \<open>Membership of a value in a set literal.\<close>

fun elem :: "'a \<Rightarrow> 'a list \<Rightarrow> bool" where
  "elem x [] = False"
| "elem x (y # ys) = (x = y \<or> elem x ys)"

lemma elem_iff [simp]: "elem x ys \<longleftrightarrow> x \<in> set ys"
  by (induction ys) auto

section \<open>Integers and their decimal strings\<close>

definition digit_val :: "char \<Rightarrow> nat option" where
  "digit_val c = (let n = (of_char c :: nat) in if 48 \<le> n \<and> n \<le> 57 then Some (n - 48) else None)"

definition digit_char :: "nat \<Rightarrow> char" where
  "digit_char d = char_of (d + 48)"

lemma digit_val_char [simp]: "d < 10 \<Longrightarrow> digit_val (digit_char d) = Some d"
  by (simp add: digit_val_def digit_char_def Let_def)

text \<open>\<open>str(n)\<close>.\<close>

fun nat_str :: "nat \<Rightarrow> string" where
  "nat_str n = (if n < 10 then [digit_char n] else nat_str (n div 10) @ [digit_char (n mod 10)])"

declare nat_str.simps [simp del]

definition int_str :: "int \<Rightarrow> string" where
  "int_str i = (if i < 0 then CHR ''-'' # nat_str (nat (- i)) else nat_str (nat i))"

text \<open>
  \<open>int(s)\<close>: surrounding ASCII white space, an optional sign, then digits with single
  underscores between them. \<open>None\<close> is the \<open>ValueError\<close>.
\<close>

definition is_space :: "char \<Rightarrow> bool" where
  "is_space c = (let n = (of_char c :: nat) in n = 32 \<or> (9 \<le> n \<and> n \<le> 13))"

definition strip :: "string \<Rightarrow> string" where
  "strip s = rev (dropWhile is_space (rev (dropWhile is_space s)))"

fun py_digits :: "nat \<Rightarrow> string \<Rightarrow> nat option" where
  "py_digits acc [] = Some acc"
| "py_digits acc (c # cs) =
     (if c = CHR ''_'' then
        (case cs of
           [] \<Rightarrow> None
         | d # ds \<Rightarrow> (case digit_val d of None \<Rightarrow> None | Some v \<Rightarrow> py_digits (10 * acc + v) ds))
      else (case digit_val c of None \<Rightarrow> None | Some v \<Rightarrow> py_digits (10 * acc + v) cs))"

definition py_nat :: "string \<Rightarrow> nat option" where
  "py_nat s = (case s of [] \<Rightarrow> None | c # cs \<Rightarrow> if c = CHR ''_'' then None else py_digits 0 s)"

definition py_int :: "string \<Rightarrow> int option" where
  "py_int s = (case strip s of
       [] \<Rightarrow> None
     | c # cs \<Rightarrow>
         if c = CHR ''-'' then map_option (\<lambda>n. - int n) (py_nat cs)
         else if c = CHR ''+'' then map_option int (py_nat cs)
         else map_option int (py_nat (c # cs)))"

lemma digit_char_props:
  assumes "d < 10"
  shows "digit_char d \<noteq> CHR ''_''" "digit_char d \<noteq> CHR ''-''" "digit_char d \<noteq> CHR ''+''"
    "\<not> is_space (digit_char d)"
proof -
  have "d \<in> {0,1,2,3,4,5,6,7,8,9}" using assms by auto
  then show "digit_char d \<noteq> CHR ''_''" "digit_char d \<noteq> CHR ''-''" "digit_char d \<noteq> CHR ''+''"
    "\<not> is_space (digit_char d)"
    by (auto simp: digit_char_def is_space_def Let_def char_of_def)
qed

lemma nat_str_digits: "set (nat_str n) \<subseteq> digit_char ` {..<10}"
proof (induction n rule: nat_str.induct)
  case (1 n)
  show ?case
    by (subst nat_str.simps) (use 1 in \<open>auto simp: image_iff\<close>)
qed

lemma nat_str_not_Nil [simp]: "nat_str n \<noteq> []"
  by (subst nat_str.simps) simp

lemma py_digits_snoc:
  assumes "py_digits acc xs = Some m" "CHR ''_'' \<notin> set xs" "d < 10"
  shows "py_digits acc (xs @ [digit_char d]) = Some (10 * m + d)"
  using assms
proof (induction xs arbitrary: acc)
  case Nil
  then show ?case by (simp add: digit_char_props)
next
  case (Cons x xs)
  then show ?case by (auto split: option.splits)
qed

lemma nat_str_no_underscore: "CHR ''_'' \<notin> set (nat_str n)"
  using nat_str_digits [of n] digit_char_props(1) by fastforce

lemma py_digits_nat_str: "py_digits 0 (nat_str n) = Some n"
proof (induction n rule: nat_str.induct)
  case (1 n)
  show ?case
  proof (cases "n < 10")
    case True
    then show ?thesis by (subst nat_str.simps) (simp add: digit_char_props)
  next
    case False
    then have "py_digits 0 (nat_str (n div 10) @ [digit_char (n mod 10)]) =
        Some (10 * (n div 10) + n mod 10)"
      using 1 by (intro py_digits_snoc) (simp_all add: nat_str_no_underscore)
    with False show ?thesis by (subst nat_str.simps) simp
  qed
qed

lemma strip_nat_str: "strip (nat_str n) = nat_str n"
proof -
  have sp: "\<not> is_space c" if "c \<in> set (nat_str n)" for c
    using that nat_str_digits [of n] digit_char_props(4) by fastforce
  have dw: "dropWhile is_space xs = xs" if "\<And>c. c \<in> set xs \<Longrightarrow> \<not> is_space c" for xs
    using that by (cases xs) auto
  show ?thesis using dw [of "nat_str n"] dw [of "rev (nat_str n)"] sp by (simp add: strip_def)
qed

lemma nat_str_Cons:
  obtains c cs where "nat_str n = c # cs" "c \<noteq> CHR ''_''" "c \<noteq> CHR ''-''" "c \<noteq> CHR ''+''"
proof -
  obtain c cs where c: "nat_str n = c # cs" by (cases "nat_str n") auto
  then have "c \<in> digit_char ` {..<10}" using nat_str_digits [of n] by auto
  then show thesis using that c digit_char_props by fastforce
qed

lemma py_int_nat_str [simp]: "py_int (nat_str n) = Some (int n)"
proof -
  obtain c cs where "nat_str n = c # cs" "c \<noteq> CHR ''_''" "c \<noteq> CHR ''-''" "c \<noteq> CHR ''+''"
    by (rule nat_str_Cons)
  then show ?thesis
    using py_digits_nat_str [of n] strip_nat_str [of n] by (simp add: py_int_def py_nat_def)
qed

lemma strip_minus_nat_str: "strip (CHR ''-'' # nat_str n) = CHR ''-'' # nat_str n"
proof -
  have sp: "\<not> is_space c" if "c \<in> set (nat_str n)" for c
    using that nat_str_digits [of n] digit_char_props(4) by fastforce
  have m: "\<not> is_space CHR ''-''" by (simp add: is_space_def Let_def)
  obtain c cs where c: "rev (nat_str n) = c # cs" by (cases "rev (nat_str n)") auto
  then have "c \<in> set (nat_str n)" by (metis list.set_intros(1) set_rev)
  then have "\<not> is_space c" by (rule sp)
  then have "dropWhile is_space (rev (nat_str n) @ [CHR ''-'']) = rev (nat_str n) @ [CHR ''-'']"
    by (simp add: c)
  with m show ?thesis by (simp add: strip_def)
qed

text \<open>Parsing inverts printing.\<close>

lemma py_int_int_str [simp]: "py_int (int_str i) = Some i"
proof (cases "i < 0")
  case True
  have "py_nat (nat_str n) = Some n" for n
    using py_digits_nat_str [of n] by (cases rule: nat_str_Cons [of n]) (simp add: py_nat_def)
  with True show ?thesis by (simp add: int_str_def py_int_def strip_minus_nat_str)
next
  case False
  then show ?thesis by (simp add: int_str_def)
qed

section \<open>Bytes\<close>

type_synonym byte = "8 word"

definition hex_val :: "char \<Rightarrow> nat option" where
  "hex_val c = (let n = (of_char c :: nat) in
     if 48 \<le> n \<and> n \<le> 57 then Some (n - 48)
     else if 65 \<le> n \<and> n \<le> 70 then Some (n - 55)
     else if 97 \<le> n \<and> n \<le> 102 then Some (n - 87)
     else None)"

text \<open>
  \<open>bytes.fromhex(s)\<close>: pairs of hexadecimal digits, ASCII white space allowed between the
  bytes. \<open>None\<close> is the \<open>ValueError\<close>.
\<close>

fun fromhex :: "string \<Rightarrow> byte list option" where
  "fromhex [] = Some []"
| "fromhex [c] = (if is_space c then Some [] else None)"
| "fromhex (c # d # cs) =
     (if is_space c then fromhex (d # cs)
      else (case (hex_val c, hex_val d) of
              (Some a, Some b) \<Rightarrow> map_option ((#) (of_nat (16 * a + b))) (fromhex cs)
            | _ \<Rightarrow> None))"

text \<open>\<open>int.from_bytes(b, "big")\<close>, \<open>n.to_bytes(k, "big")\<close> and \<open>n.to_bytes(k, "little")\<close>.\<close>

definition from_bytes_be :: "byte list \<Rightarrow> nat" where
  "from_bytes_be bs = foldl (\<lambda>a b. 256 * a + unat b) 0 bs"

fun to_bytes_le :: "nat \<Rightarrow> nat \<Rightarrow> byte list" where
  "to_bytes_le 0 n = []"
| "to_bytes_le (Suc k) n = of_nat n # to_bytes_le k (n div 256)"

fun from_bytes_le :: "byte list \<Rightarrow> nat" where
  "from_bytes_le [] = 0"
| "from_bytes_le (b # bs) = unat b + 256 * from_bytes_le bs"

lemma length_to_bytes_le [simp]: "length (to_bytes_le k n) = k"
  by (induction k arbitrary: n) auto

lemma from_to_bytes_le: "n < 256 ^ k \<Longrightarrow> from_bytes_le (to_bytes_le k n) = n"
proof (induction k arbitrary: n)
  case 0
  then show ?case by simp
next
  case (Suc k)
  then have "n div 256 < 256 ^ k" by (auto simp: less_mult_imp_div_less mult.commute)
  with Suc.IH show ?case by (simp add: unat_of_nat)
qed

lemma from_bytes_be_rev: "from_bytes_be bs = from_bytes_le (rev bs)"
proof -
  have "from_bytes_le (xs @ [b]) = from_bytes_le xs + unat b * 256 ^ length xs" for xs b
    by (induction xs) auto
  then have "foldl (\<lambda>a b. 256 * a + unat b) a bs = a * 256 ^ length bs + from_bytes_le (rev bs)" for a
    by (induction bs arbitrary: a) (auto simp: algebra_simps)
  then show ?thesis by (simp add: from_bytes_be_def)
qed

lemma from_bytes_le_bound: "from_bytes_le bs < 256 ^ length bs"
proof (induction bs)
  case Nil
  then show ?case by simp
next
  case (Cons b bs)
  have "unat b < 256" using unsigned_less [of b] by simp
  moreover have "256 * from_bytes_le bs + 256 \<le> 256 * 256 ^ length bs"
    using Cons by (metis Suc_leI add.commute mult_Suc_right mult_le_mono2)
  ultimately show ?case by simp
qed

lemma from_bytes_be_bound: "from_bytes_be bs < 256 ^ length bs"
  using from_bytes_le_bound [of "rev bs"] by (simp add: from_bytes_be_rev)

end
