(* ===== verification/Py_Monad.thy ===== *)
theory Py_Monad
  imports Py_Prelude
begin

text \<open>
  The effectful code is written in a state monad with exceptions: a program takes the world
  and returns an exception or a value, and the new world. Three tools reason about programs:
  the weakest precondition \<open>wp\<close>, computed by the equations in the collection \<open>wps\<close>; the
  locale \<open>world_order\<close>, which lifts a reflexive and transitive relation on worlds from single
  operations to whole programs; and the locale \<open>keyed_table\<close>, the interface of a database
  table (a list of rows) whose rows are addressed by a key.
\<close>

named_theorems wps "weakest precondition equations"

section \<open>The monad\<close>

type_synonym ('w, 'a) py = "'w \<Rightarrow> (exn + 'a) \<times> 'w"

definition ret :: "'a \<Rightarrow> ('w, 'a) py" where
  "ret x = (\<lambda>w. (Inr x, w))"

definition raise :: "exn \<Rightarrow> ('w, 'a) py" where
  "raise e = (\<lambda>w. (Inl e, w))"

definition bindE :: "('w, 'a) py \<Rightarrow> ('a \<Rightarrow> ('w, 'b) py) \<Rightarrow> ('w, 'b) py" where
  "bindE m f = (\<lambda>w. case m w of (Inl e, w') \<Rightarrow> (Inl e, w') | (Inr x, w') \<Rightarrow> f x w')"

definition thenE :: "('w, 'a) py \<Rightarrow> ('w, 'b) py \<Rightarrow> ('w, 'b) py" where
  "thenE m n = bindE m (\<lambda>_. n)"

text \<open>\<open>try: m except Exception as e: h e\<close>. Not returning is not caught.\<close>

definition catchE :: "('w, 'a) py \<Rightarrow> (exn \<Rightarrow> ('w, 'a) py) \<Rightarrow> ('w, 'a) py" where
  "catchE m h = (\<lambda>w. case m w of
       (Inl e, w') \<Rightarrow> (if e = NoReturn then (Inl e, w') else h e w')
     | (Inr x, w') \<Rightarrow> (Inr x, w'))"

definition getsE :: "('w \<Rightarrow> 'a) \<Rightarrow> ('w, 'a) py" where
  "getsE f = (\<lambda>w. (Inr (f w), w))"

definition modifyE :: "('w \<Rightarrow> 'w) \<Rightarrow> ('w, unit) py" where
  "modifyE f = (\<lambda>w. (Inr (), f w))"

text \<open>The outcome of \<open>m\<close> as a value, for handlers that go on after the \<open>try\<close>.\<close>

definition tryE :: "('w, 'a) py \<Rightarrow> ('w, exn + 'a) py" where
  "tryE m = catchE (bindE m (\<lambda>x. ret (Inr x))) (\<lambda>e. ret (Inl e))"

text \<open>\<open>raise e\<close> when there is an error, the value otherwise.\<close>

definition liftE :: "exn + 'a \<Rightarrow> ('w, 'a) py" where
  "liftE r = (case r of Inl e \<Rightarrow> raise e | Inr x \<Rightarrow> ret x)"

definition whenE :: "bool \<Rightarrow> ('w, unit) py \<Rightarrow> ('w, unit) py" where
  "whenE b m = (if b then m else ret ())"

text \<open>A loop over a list that carries local variables, and one that carries none.\<close>

fun foldE :: "('s \<Rightarrow> 'a \<Rightarrow> ('w, 's) py) \<Rightarrow> 's \<Rightarrow> 'a list \<Rightarrow> ('w, 's) py" where
  "foldE f s [] = ret s"
| "foldE f s (x # xs) = bindE (f s x) (\<lambda>s'. foldE f s' xs)"

definition for_each :: "('a \<Rightarrow> ('w, unit) py) \<Rightarrow> 'a list \<Rightarrow> ('w, unit) py" where
  "for_each f xs = foldE (\<lambda>_. f) () xs"

lemma for_each_Nil [simp]: "for_each f [] = ret ()"
  by (simp add: for_each_def)

lemma for_each_Cons [simp]: "for_each f (x # xs) = thenE (f x) (for_each f xs)"
  by (simp add: for_each_def thenE_def)

lemmas run_defs = ret_def raise_def bindE_def thenE_def catchE_def getsE_def modifyE_def
  liftE_def whenE_def

lemma run_ret: "ret x w = (Inr x, w)"
  by (simp add: run_defs)

lemma run_raise: "raise e w = (Inl e, w)"
  by (simp add: run_defs)

lemma run_gets: "getsE f w = (Inr (f w), w)"
  by (simp add: run_defs)

lemma run_modify: "modifyE f w = (Inr (), f w)"
  by (simp add: run_defs)

lemmas run_basic = run_ret run_raise run_gets run_modify

lemma liftE_simps [simp]: "liftE (Inl e) = raise e" "liftE (Inr x) = ret x"
  by (simp_all add: liftE_def)

section \<open>Weakest preconditions\<close>

definition wp :: "('w, 'a) py \<Rightarrow> ('a \<Rightarrow> 'w \<Rightarrow> bool) \<Rightarrow> (exn \<Rightarrow> 'w \<Rightarrow> bool) \<Rightarrow> 'w \<Rightarrow> bool" where
  "wp m Q E w = (case m w of (Inl e, w') \<Rightarrow> E e w' | (Inr x, w') \<Rightarrow> Q x w')"

lemma wp_ret [wps]: "wp (ret x) Q E w = Q x w"
  by (simp add: wp_def run_basic)

lemma wp_ret_fun [wps]: "wp (ret x) Q E = Q x"
  by (rule ext) (rule wp_ret)

lemma wp_raise [wps]: "wp (raise e) Q E w = E e w"
  by (simp add: wp_def run_basic)

lemma wp_gets [wps]: "wp (getsE f) Q E w = Q (f w) w"
  by (simp add: wp_def run_basic)

lemma wp_modify [wps]: "wp (modifyE f) Q E w = Q () (f w)"
  by (simp add: wp_def run_basic)

lemma wp_bind [wps]: "wp (bindE m f) Q E w = wp m (\<lambda>x. wp (f x) Q E) E w"
  by (simp add: wp_def bindE_def split: prod.split sum.split)

lemma wp_then [wps]: "wp (thenE m n) Q E w = wp m (\<lambda>_. wp n Q E) E w"
  by (simp add: thenE_def wp_bind)

lemma wp_catch [wps]:
  "wp (catchE m h) Q E w =
   wp m Q (\<lambda>e w'. if e = NoReturn then E e w' else wp (h e) Q E w') w"
  by (simp add: wp_def catchE_def split: prod.split sum.split)

lemma wp_try [wps]:
  "wp (tryE m) Q E w =
   wp m (\<lambda>x. Q (Inr x)) (\<lambda>e w'. if e = NoReturn then E e w' else Q (Inl e) w') w"
  by (auto simp: wp_def tryE_def run_defs split: prod.split sum.split)

lemma wp_if [wps]: "wp (if b then m else n) Q E w = (if b then wp m Q E w else wp n Q E w)"
  by simp

lemma wp_lift [wps]: "wp (liftE r) Q E w = (case r of Inl e \<Rightarrow> E e w | Inr x \<Rightarrow> Q x w)"
  by (simp add: liftE_def wps split: sum.split)

lemma wp_when [wps]: "wp (whenE b m) Q E w = (if b then wp m Q E w else Q () w)"
  by (simp add: whenE_def wps)

lemma wp_option [wps]:
  "wp (case x of None \<Rightarrow> m | Some y \<Rightarrow> f y) Q E w =
   (case x of None \<Rightarrow> wp m Q E w | Some y \<Rightarrow> wp (f y) Q E w)"
  by (simp split: option.split)

lemma wp_sum [wps]:
  "wp (case x of Inl y \<Rightarrow> g y | Inr y \<Rightarrow> f y) Q E w =
   (case x of Inl y \<Rightarrow> wp (g y) Q E w | Inr y \<Rightarrow> wp (f y) Q E w)"
  by (simp split: sum.split)

lemma wp_prod [wps]: "wp (case p of (x, y) \<Rightarrow> f x y) Q E w = wp (f (fst p) (snd p)) Q E w"
  by (simp split: prod.split)

lemma wp_let [wps]: "wp (let x = t in f x) Q E w = (let x = t in wp (f x) Q E w)"
  by (simp add: Let_def)

text \<open>The same for programs inside a continuation, where the world is not yet given.\<close>

lemma wp_fun [wps]:
  "wp (raise e) Q E = E e"
  "wp (bindE m f) Q E = wp m (\<lambda>x. wp (f x) Q E) E"
  "wp (thenE m n) Q E = wp m (\<lambda>_. wp n Q E) E"
  by (rule ext, simp add: wp_raise wp_bind wp_then)+

lemma wp_mono:
  assumes "wp m Q E w" and "\<And>x w. Q x w \<Longrightarrow> Q' x w" and "\<And>e w. E e w \<Longrightarrow> E' e w"
  shows "wp m Q' E' w"
  using assms by (auto simp: wp_def split: prod.splits sum.splits)

lemma wp_conj: "wp m Q E w \<Longrightarrow> wp m Q' E' w \<Longrightarrow> wp m (\<lambda>x w. Q x w \<and> Q' x w) (\<lambda>e w. E e w \<and> E' e w) w"
  by (simp add: wp_def split: prod.splits sum.splits)

text \<open>The rule for loops: an invariant that every iteration keeps.\<close>

lemma wp_foldE:
  assumes "I s w"
    and "\<And>s x w. I s w \<Longrightarrow> x \<in> set xs \<Longrightarrow> wp (f s x) I E w"
  shows "wp (foldE f s xs) I E w"
  using assms
proof (induction xs arbitrary: s w)
  case Nil
  then show ?case by (simp add: wps)
next
  case (Cons x xs)
  have "wp (f s x) I E w" using Cons.prems by simp
  then show ?case
    by (simp only: foldE.simps wp_bind) (erule wp_mono, auto intro!: Cons.IH intro: Cons.prems(2))
qed

lemma wp_for_each:
  assumes "I w" and "\<And>x w. I w \<Longrightarrow> x \<in> set xs \<Longrightarrow> wp (f x) (\<lambda>_. I) E w"
  shows "wp (for_each f xs) (\<lambda>_. I) E w"
  unfolding for_each_def
  by (rule wp_foldE [where I = "\<lambda>_. I"]) (use assms in auto)

section \<open>Values of programs\<close>

text \<open>\<open>yields V m\<close>: a value that \<open>m\<close> returns satisfies \<open>V\<close>, in whatever world it runs.\<close>

definition yields :: "('a \<Rightarrow> bool) \<Rightarrow> ('w, 'a) py \<Rightarrow> bool" where
  "yields V m \<longleftrightarrow> (\<forall>w x w'. m w = (Inr x, w') \<longrightarrow> V x)"

named_theorems yields_rules "values of programs"

lemma yields_wp: "(\<And>w. wp m (\<lambda>x _. V x) (\<lambda>_ _. True) w) \<Longrightarrow> yields V m"
  by (fastforce simp: yields_def wp_def split: prod.splits sum.splits)

lemma wp_yields: "yields V m \<Longrightarrow> wp m (\<lambda>x _. V x) (\<lambda>_ _. True) w"
  by (auto simp: yields_def wp_def split: prod.split sum.split)

lemma yields_ret [yields_rules]: "V x \<Longrightarrow> yields V (ret x)"
  by (simp add: yields_def run_basic)

lemma yields_raise [yields_rules]: "yields V (raise e)"
  by (simp add: yields_def run_basic)

lemma yields_lift [yields_rules]: "(\<And>x. r = Inr x \<Longrightarrow> V x) \<Longrightarrow> yields V (liftE r)"
  by (cases r) (simp_all add: yields_ret yields_raise)

lemma yields_bind: "yields U m \<Longrightarrow> (\<And>x. U x \<Longrightarrow> yields V (f x)) \<Longrightarrow> yields V (bindE m f)"
  unfolding yields_def bindE_def by (auto split: prod.splits sum.splits) blast

lemma yields_bind_any: "(\<And>x. yields V (f x)) \<Longrightarrow> yields V (bindE m f)"
  by (rule yields_bind [where U = "\<lambda>_. True"]) (simp_all add: yields_def)

lemma yields_bind_lift: "(\<And>x. r = Inr x \<Longrightarrow> yields V (f x)) \<Longrightarrow> yields V (bindE (liftE r) f)"
  by (rule yields_bind [where U = "\<lambda>x. r = Inr x"]) (simp_all add: yields_lift)

lemma yields_then [yields_rules]: "yields V n \<Longrightarrow> yields V (thenE m n)"
  by (simp add: thenE_def yields_bind_any)

lemma yields_if [yields_rules]: "(b \<Longrightarrow> yields V m) \<Longrightarrow> (\<not> b \<Longrightarrow> yields V n) \<Longrightarrow> yields V (if b then m else n)"
  by simp

lemma yields_option [yields_rules]:
  "(x = None \<Longrightarrow> yields V m) \<Longrightarrow> (\<And>y. x = Some y \<Longrightarrow> yields V (f y)) \<Longrightarrow> yields V (case x of None \<Rightarrow> m | Some y \<Rightarrow> f y)"
  by (cases x) auto

lemma yields_sum [yields_rules]:
  "(\<And>y. x = Inl y \<Longrightarrow> yields V (g y)) \<Longrightarrow> (\<And>y. x = Inr y \<Longrightarrow> yields V (f y)) \<Longrightarrow>
   yields V (case x of Inl y \<Rightarrow> g y | Inr y \<Rightarrow> f y)"
  by (cases x) auto

lemma yields_prod [yields_rules]: "(\<And>x y. p = (x, y) \<Longrightarrow> yields V (f x y)) \<Longrightarrow> yields V (case p of (x, y) \<Rightarrow> f x y)"
  by (cases p) auto

lemma yields_let [yields_rules]: "(\<And>x. x = t \<Longrightarrow> yields V (f x)) \<Longrightarrow> yields V (let x = t in f x)"
  by (simp add: Let_def)

lemma yields_catch [yields_rules]: "yields V m \<Longrightarrow> (\<And>e. yields V (h e)) \<Longrightarrow> yields V (catchE m h)"
  by (fastforce simp: yields_def catchE_def split: prod.splits sum.splits if_splits)

text \<open>A loop: the invariant sees the elements already processed.\<close>

lemma yields_fold:
  assumes "I [] s" and "\<And>seen x rest s. xs = seen @ x # rest \<Longrightarrow> I seen s \<Longrightarrow> yields (I (seen @ [x])) (f s x)"
  shows "yields (I xs) (foldE f s xs)"
proof -
  have "yields (I xs) (foldE f s rest)" if "xs = seen @ rest" "I seen s" for seen rest s
    using that
  proof (induction rest arbitrary: seen s)
    case (Cons x rest)
    from assms(2) [OF Cons.prems] show ?case
      unfolding foldE.simps by (rule yields_bind) (use Cons in \<open>simp add: Cons.IH [of "seen @ [x]"]\<close>)
  qed (simp add: yields_ret)
  from this [of "[]"] assms(1) show ?thesis by simp
qed

section \<open>Orders on worlds\<close>

text \<open>\<open>grows le m\<close>: however \<open>m\<close> ends, the new world is above the old one.\<close>

definition grows :: "('w \<Rightarrow> 'w \<Rightarrow> bool) \<Rightarrow> ('w, 'a) py \<Rightarrow> bool" where
  "grows le m = (\<forall>w. le w (snd (m w)))"

lemma growsD: "grows le m \<Longrightarrow> m w = (r, w') \<Longrightarrow> le w w'"
  by (metis grows_def snd_conv)

lemma grows_option:
  "grows le m \<Longrightarrow> (\<And>y. x = Some y \<Longrightarrow> grows le (f y)) \<Longrightarrow>
   grows le (case x of None \<Rightarrow> m | Some y \<Rightarrow> f y)"
  by (cases x) auto

lemma grows_sum:
  "(\<And>y. x = Inl y \<Longrightarrow> grows le (g y)) \<Longrightarrow> (\<And>y. x = Inr y \<Longrightarrow> grows le (f y)) \<Longrightarrow>
   grows le (case x of Inl y \<Rightarrow> g y | Inr y \<Rightarrow> f y)"
  by (cases x) auto

lemma grows_list:
  "grows le m \<Longrightarrow> (\<And>y ys. x = y # ys \<Longrightarrow> grows le (f y ys)) \<Longrightarrow>
   grows le (case x of [] \<Rightarrow> m | y # ys \<Rightarrow> f y ys)"
  by (cases x) auto

lemma grows_if: "(b \<Longrightarrow> grows le m) \<Longrightarrow> (\<not> b \<Longrightarrow> grows le n) \<Longrightarrow> grows le (if b then m else n)"
  by simp

lemma grows_prod: "(\<And>x y. p = (x, y) \<Longrightarrow> grows le (f x y)) \<Longrightarrow> grows le (case p of (x, y) \<Rightarrow> f x y)"
  by (cases p) auto

lemma grows_let: "(\<And>x. x = t \<Longrightarrow> grows le (f x)) \<Longrightarrow> grows le (let x = t in f x)"
  by (simp add: Let_def)

locale world_order =
  fixes le :: "'w \<Rightarrow> 'w \<Rightarrow> bool"
  assumes le_refl: "le w w"
    and le_trans: "le u v \<Longrightarrow> le v w \<Longrightarrow> le u w"
begin

lemma grows_ret: "grows le (ret x)"
  by (simp add: grows_def le_refl run_basic)

lemma grows_raise: "grows le (raise e)"
  by (simp add: grows_def le_refl run_basic)

lemma grows_gets: "grows le (getsE f)"
  by (simp add: grows_def le_refl run_basic)

lemma grows_lift: "grows le (liftE r)"
  by (cases r) (simp_all add: grows_ret grows_raise)

lemma grows_modify: "(\<And>w. le w (f w)) \<Longrightarrow> grows le (modifyE f)"
  by (simp add: grows_def run_basic)

lemma grows_bind:
  assumes "grows le m" and "\<And>x. grows le (f x)"
  shows "grows le (bindE m f)"
proof -
  have "le w (snd (bindE m f w))" for w
  proof (cases "m w")
    case (Pair r w')
    with assms(1) have "le w w'" by (rule growsD)
    with Pair assms(2) show ?thesis
      by (cases r) (auto simp: bindE_def grows_def intro: le_trans)
  qed
  then show ?thesis by (simp add: grows_def)
qed

lemma grows_then: "grows le m \<Longrightarrow> grows le n \<Longrightarrow> grows le (thenE m n)"
  by (simp add: thenE_def grows_bind)

lemma grows_when: "(b \<Longrightarrow> grows le m) \<Longrightarrow> grows le (whenE b m)"
  by (simp add: whenE_def grows_ret)

lemma grows_catch:
  assumes "grows le m" and "\<And>e. grows le (h e)"
  shows "grows le (catchE m h)"
proof -
  have "le w (snd (catchE m h w))" for w
  proof (cases "m w")
    case (Pair r w')
    with assms(1) have "le w w'" by (rule growsD)
    with Pair assms(2) show ?thesis
      by (cases r) (auto simp: catchE_def grows_def intro: le_trans)
  qed
  then show ?thesis by (simp add: grows_def)
qed

lemma grows_try: "grows le m \<Longrightarrow> grows le (tryE m)"
  by (simp add: tryE_def grows_catch grows_bind grows_ret)

lemma grows_fold: "(\<And>s x. x \<in> set xs \<Longrightarrow> grows le (f s x)) \<Longrightarrow> grows le (foldE f s xs)"
proof (induction xs arbitrary: s)
  case Nil
  show ?case by (simp add: grows_ret)
next
  case (Cons x xs)
  then show ?case by (simp add: grows_bind)
qed

lemma grows_for_each: "(\<And>x. x \<in> set xs \<Longrightarrow> grows le (f x)) \<Longrightarrow> grows le (for_each f xs)"
  by (simp add: for_each_def grows_fold)

lemmas rules = grows_ret grows_raise grows_gets grows_lift grows_bind grows_then grows_when
  grows_catch grows_try grows_for_each grows_fold grows_option grows_sum grows_list grows_if grows_prod grows_let

lemma wp_le: "grows le m \<Longrightarrow> le u w \<Longrightarrow> wp m (\<lambda>_. le u) (\<lambda>_. le u) w"
  by (auto simp: wp_def grows_def split: prod.splits sum.splits intro: le_trans
      elim!: allE [of _ w])

end

section \<open>Programs that never raise\<close>

definition returns :: "('w, 'a) py \<Rightarrow> bool" where
  "returns m \<longleftrightarrow> (\<forall>w. \<exists>x w'. m w = (Inr x, w'))"

named_theorems returns_rules "programs that never raise"

lemma returns_ret [returns_rules]: "returns (ret x)"
  by (simp add: returns_def run_basic)

lemma returns_gets [returns_rules]: "returns (getsE f)"
  by (simp add: returns_def run_basic)

lemma returns_modify [returns_rules]: "returns (modifyE f)"
  by (simp add: returns_def run_basic)

lemma returns_bind [returns_rules]: "returns m \<Longrightarrow> (\<And>x. returns (f x)) \<Longrightarrow> returns (bindE m f)"
proof -
  assume m: "returns m" and f: "\<And>x. returns (f x)"
  have "\<exists>y v. bindE m f w = (Inr y, v)" for w
  proof -
    obtain x u where "m w = (Inr x, u)" using m unfolding returns_def by blast
    then show ?thesis using f [of x] by (simp add: returns_def bindE_def)
  qed
  then show ?thesis by (simp add: returns_def)
qed

lemma returns_then [returns_rules]: "returns m \<Longrightarrow> returns n \<Longrightarrow> returns (thenE m n)"
  by (simp add: thenE_def returns_bind)

lemma returns_when [returns_rules]: "(b \<Longrightarrow> returns m) \<Longrightarrow> returns (whenE b m)"
  by (simp add: whenE_def returns_ret)

lemma returns_if [returns_rules]: "(b \<Longrightarrow> returns m) \<Longrightarrow> (\<not> b \<Longrightarrow> returns n) \<Longrightarrow> returns (if b then m else n)"
  by simp

lemma returns_option [returns_rules]:
  "returns m \<Longrightarrow> (\<And>y. x = Some y \<Longrightarrow> returns (f y)) \<Longrightarrow> returns (case x of None \<Rightarrow> m | Some y \<Rightarrow> f y)"
  by (cases x) auto

lemma returns_prod [returns_rules]: "(\<And>x y. p = (x, y) \<Longrightarrow> returns (f x y)) \<Longrightarrow> returns (case p of (x, y) \<Rightarrow> f x y)"
  by (cases p) auto

lemma returns_catch [returns_rules]: "returns m \<Longrightarrow> returns (catchE m h)"
proof -
  assume m: "returns m"
  have "\<exists>y v. catchE m h w = (Inr y, v)" for w
  proof -
    obtain x u where "m w = (Inr x, u)" using m unfolding returns_def by blast
    then show ?thesis by (simp add: catchE_def)
  qed
  then show ?thesis by (simp add: returns_def)
qed

lemma returns_fold [returns_rules]: "(\<And>s x. x \<in> set xs \<Longrightarrow> returns (f s x)) \<Longrightarrow> returns (foldE f s xs)"
  by (induction xs arbitrary: s) (auto intro: returns_ret returns_bind)

lemma returns_for_each [returns_rules]: "(\<And>x. x \<in> set xs \<Longrightarrow> returns (f x)) \<Longrightarrow> returns (for_each f xs)"
  by (simp add: for_each_def returns_fold)

lemma wp_returns: "returns m \<Longrightarrow> wp m Q (\<lambda>_ _. True) w \<Longrightarrow> wp m Q E w"
proof -
  assume "returns m" "wp m Q (\<lambda>_ _. True) w"
  moreover from this(1) obtain x u where "m w = (Inr x, u)" unfolding returns_def by blast
  ultimately show ?thesis by (simp add: wp_def)
qed

lemma growsI: "(\<And>w. wp m (\<lambda>_. le w) (\<lambda>_. le w) w) \<Longrightarrow> grows le m"
proof -
  assume h: "\<And>w. wp m (\<lambda>_. le w) (\<lambda>_. le w) w"
  have "le w (snd (m w))" for w
    using h [of w] by (cases "m w"; cases "fst (m w)") (auto simp: wp_def)
  then show ?thesis by (simp add: grows_def)
qed

section \<open>Calls to the outside\<close>

text \<open>
  Databases, chains and HTTP services are outside the model. A world keeps the history of the
  calls made to them, latest first, and every call may raise: the environment decides this from
  the history up to and including the call, so that it may change its mind between two
  identical calls.
\<close>

record 'c hist =
  calls :: "'c list"

definition perform :: "('c list \<Rightarrow> exn option) \<Rightarrow> 'c \<Rightarrow> (('c, 'z) hist_scheme, unit) py" where
  "perform fails c = (\<lambda>w. let h = c # calls w in
     ((case fails h of Some e \<Rightarrow> Inl e | None \<Rightarrow> Inr ()), w\<lparr>calls := h\<rparr>))"

lemma wp_perform [wps]:
  "wp (perform fails c) Q E w =
   (case fails (c # calls w) of
      Some e \<Rightarrow> E e (w\<lparr>calls := c # calls w\<rparr>)
    | None \<Rightarrow> Q () (w\<lparr>calls := c # calls w\<rparr>))"
  by (simp add: wp_def perform_def Let_def split: option.split)

lemma grows_perform: "(\<And>w. le w (w\<lparr>calls := c # calls w\<rparr>)) \<Longrightarrow> grows le (perform fails c)"
  by (simp add: grows_def perform_def Let_def)

lemma returns_perform: "(\<And>h. fails h = None) \<Longrightarrow> returns (perform fails c)"
  by (simp add: returns_def perform_def Let_def)

text \<open>The history only grows; \<open>new_calls w w'\<close> are the calls made between two worlds.\<close>

definition hist_le :: "('c, 'z) hist_scheme \<Rightarrow> ('c, 'z) hist_scheme \<Rightarrow> bool" where
  "hist_le w w' \<longleftrightarrow> (\<exists>cs. calls w' = cs @ calls w)"

definition new_calls :: "('c, 'z) hist_scheme \<Rightarrow> ('c, 'z) hist_scheme \<Rightarrow> 'c list" where
  "new_calls w w' = take (length (calls w') - length (calls w)) (calls w')"

interpretation hist: world_order hist_le
  by unfold_locales (auto simp: hist_le_def)

lemma grows_hist_perform: "grows hist_le (perform fails c)"
  by (rule grows_perform) (simp add: hist_le_def)

lemma new_calls_simps [simp]:
  "new_calls w w = []"
  "calls w' = cs @ calls w \<Longrightarrow> new_calls w w' = cs"
  by (simp_all add: new_calls_def)

text \<open>
  Counting: \<open>quiet_le P\<close> relates worlds between which no call satisfying \<open>P\<close> was made, and
  \<open>spends P k m\<close> says that \<open>m\<close> makes at most \<open>k\<close> such calls, however it ends.
\<close>

definition quiet_le :: "('c \<Rightarrow> bool) \<Rightarrow> ('c, 'z) hist_scheme \<Rightarrow> ('c, 'z) hist_scheme \<Rightarrow> bool" where
  "quiet_le P w w' \<longleftrightarrow> (\<exists>cs. calls w' = cs @ calls w \<and> filter P cs = [])"

interpretation quiet: world_order "quiet_le P" for P
proof unfold_locales
  fix u v w :: "('a, 'b) hist_scheme"
  assume "quiet_le P u v" "quiet_le P v w"
  then obtain cs ds where "calls v = cs @ calls u" "calls w = ds @ calls v"
    "filter P cs = []" "filter P ds = []" by (auto simp: quiet_le_def)
  then show "quiet_le P u w" by (auto simp: quiet_le_def intro!: exI [of _ "ds @ cs"])
qed (simp add: quiet_le_def)

lemma quiet_perform: "\<not> P c \<Longrightarrow> grows (quiet_le P) (perform fails c)"
  by (rule grows_perform) (simp add: quiet_le_def)

definition spends :: "('c \<Rightarrow> bool) \<Rightarrow> nat \<Rightarrow> (('c, 'z) hist_scheme, 'a) py \<Rightarrow> bool" where
  "spends P k m \<longleftrightarrow> (\<forall>w. \<exists>cs. calls (snd (m w)) = cs @ calls w \<and> length (filter P cs) \<le> k)"

lemma spendsD:
  assumes "spends P k m" "m w = (r, w')"
  obtains cs where "calls w' = cs @ calls w" "length (filter P cs) \<le> k"
  using assms by (auto simp: spends_def dest!: spec [of _ w])

lemma spendsI:
  assumes "\<And>w r w'. m w = (r, w') \<Longrightarrow> \<exists>cs. calls w' = cs @ calls w \<and> length (filter P cs) \<le> k"
  shows "spends P k m"
  using assms by (auto simp: spends_def) (metis prod.collapse)

lemma spends_quiet: "grows (quiet_le P) m \<Longrightarrow> spends P k m"
  by (rule spendsI) (fastforce dest: growsD simp: quiet_le_def)

lemma spends_le: "spends P k m \<Longrightarrow> k \<le> l \<Longrightarrow> spends P l m"
  by (fastforce simp: spends_def)

lemma spends_perform: "spends P 1 (perform fails c)"
  by (simp add: spends_def perform_def Let_def)

lemma spends_bind:
  assumes "spends P k m" and "\<And>x. spends P l (f x)"
  shows "spends P (k + l) (bindE m f)"
proof (rule spendsI)
  fix w r w' assume r: "bindE m f w = (r, w')"
  obtain r1 w1 where m: "m w = (r1, w1)" by fastforce
  obtain cs where cs: "calls w1 = cs @ calls w" "length (filter P cs) \<le> k"
    using spendsD [OF assms(1) m] .
  show "\<exists>cs. calls w' = cs @ calls w \<and> length (filter P cs) \<le> k + l"
  proof (cases r1)
    case (Inl e)
    with r m cs show ?thesis by (auto simp: bindE_def intro!: exI [of _ cs])
  next
    case (Inr x)
    with r m have "f x w1 = (r, w')" by (simp add: bindE_def)
    with assms(2) [of x] obtain ds where "calls w' = ds @ calls w1" "length (filter P ds) \<le> l"
      by (rule spendsD)
    with cs show ?thesis by (auto intro!: exI [of _ "ds @ cs"])
  qed
qed

lemma spends_then: "spends P k m \<Longrightarrow> spends P l n \<Longrightarrow> spends P (k + l) (thenE m n)"
  by (simp add: thenE_def spends_bind)

lemma spends_catch:
  assumes "spends P k m" and "\<And>e. spends P l (h e)"
  shows "spends P (k + l) (catchE m h)"
proof (rule spendsI)
  fix w r w' assume r: "catchE m h w = (r, w')"
  obtain r1 w1 where m: "m w = (r1, w1)" by fastforce
  obtain cs where cs: "calls w1 = cs @ calls w" "length (filter P cs) \<le> k"
    using spendsD [OF assms(1) m] .
  show "\<exists>cs. calls w' = cs @ calls w \<and> length (filter P cs) \<le> k + l"
  proof (cases "(r, w') = (r1, w1)")
    case True
    with cs show ?thesis by (auto intro!: exI [of _ cs])
  next
    case False
    then obtain e where "h e w1 = (r, w')"
      using r m by (auto simp: catchE_def split: sum.splits if_splits)
    with assms(2) [of e] obtain ds where "calls w' = ds @ calls w1" "length (filter P ds) \<le> l"
      by (rule spendsD)
    with cs show ?thesis by (auto intro!: exI [of _ "ds @ cs"])
  qed
qed

lemma spends_try: "spends P k m \<Longrightarrow> spends P k (tryE m)"
  using spends_catch [OF spends_bind [where l = 0], of P k m "\<lambda>x. ret (Inr x)" 0 "\<lambda>e. ret (Inl e)"]
  by (simp add: tryE_def spends_quiet quiet.grows_ret)

lemma spends_quiet_bind: "grows (quiet_le P) m \<Longrightarrow> (\<And>x. spends P k (f x)) \<Longrightarrow> spends P k (bindE m f)"
  using spends_bind [of P 0 m k f] by (simp add: spends_quiet)

lemma spends_quiet_then: "grows (quiet_le P) m \<Longrightarrow> spends P k n \<Longrightarrow> spends P k (thenE m n)"
  by (simp add: thenE_def spends_quiet_bind)

lemma spends_bind_quiet: "spends P k m \<Longrightarrow> (\<And>x. grows (quiet_le P) (f x)) \<Longrightarrow> spends P k (bindE m f)"
  using spends_bind [of P k m 0 f] by (simp add: spends_quiet)

lemma spends_then_quiet: "spends P k m \<Longrightarrow> grows (quiet_le P) n \<Longrightarrow> spends P k (thenE m n)"
  by (simp add: thenE_def spends_bind_quiet)

lemma spends_catch_quiet: "spends P k m \<Longrightarrow> (\<And>e. grows (quiet_le P) (h e)) \<Longrightarrow> spends P k (catchE m h)"
  using spends_catch [of P k m 0 h] by (simp add: spends_quiet)

lemma spends_if: "(b \<Longrightarrow> spends P k m) \<Longrightarrow> (\<not> b \<Longrightarrow> spends P k n) \<Longrightarrow> spends P k (if b then m else n)"
  by simp

lemma spends_prod: "(\<And>x y. p = (x, y) \<Longrightarrow> spends P k (f x y)) \<Longrightarrow> spends P k (case p of (x, y) \<Rightarrow> f x y)"
  by (cases p) auto

lemma spends_sum:
  "(\<And>y. x = Inl y \<Longrightarrow> spends P k (g y)) \<Longrightarrow> (\<And>y. x = Inr y \<Longrightarrow> spends P k (f y)) \<Longrightarrow>
   spends P k (case x of Inl y \<Rightarrow> g y | Inr y \<Rightarrow> f y)"
  by (cases x) auto

lemma spends_new_calls:
  "spends P k m \<Longrightarrow> length (filter P (new_calls w (snd (m w)))) \<le> k"
  by (auto simp: spends_def dest!: spec [of _ w])

text \<open>
  Amortised counting: \<open>leaves P k pot m\<close> says that \<open>m\<close> makes at most \<open>k\<close> calls of the kind, and of
  these at most \<open>k - pot x\<close> when it returns \<open>x\<close>; \<open>pot\<close> is the budget left to what follows.
\<close>

definition leaves :: "('c \<Rightarrow> bool) \<Rightarrow> nat \<Rightarrow> ('a \<Rightarrow> nat) \<Rightarrow> (('c, 'z) hist_scheme, 'a) py \<Rightarrow> bool" where
  "leaves P k pot m \<longleftrightarrow> (\<forall>w. \<exists>cs. calls (snd (m w)) = cs @ calls w \<and>
     length (filter P cs) + (case fst (m w) of Inl _ \<Rightarrow> 0 | Inr x \<Rightarrow> pot x) \<le> k)"

lemma leaves_spends_0: "leaves P k (\<lambda>_. 0) m = spends P k m"
proof -
  have "(case r of Inl _ \<Rightarrow> 0 | Inr x \<Rightarrow> 0) = (0 :: nat)" for r :: "exn + 'a" by (cases r) simp_all
  then show ?thesis by (simp add: leaves_def spends_def)
qed

lemma leaves_ret: "pot x \<le> k \<Longrightarrow> leaves P k pot (ret x)"
  by (simp add: leaves_def run_basic)

lemma leaves_spends: "spends P c m \<Longrightarrow> c \<le> k \<Longrightarrow> (\<And>x. c + pot x \<le> k) \<Longrightarrow> leaves P k pot m"
  unfolding leaves_def spends_def
proof
  fix w assume s: "\<forall>w. \<exists>cs. calls (snd (m w)) = cs @ calls w \<and> length (filter P cs) \<le> c" and k: "c \<le> k" "\<And>x. c + pot x \<le> k"
  obtain cs where cs: "calls (snd (m w)) = cs @ calls w" "length (filter P cs) \<le> c" using s by blast
  have "length (filter P cs) + (case fst (m w) of Inl _ \<Rightarrow> 0 | Inr x \<Rightarrow> pot x) \<le> k"
  proof (cases "fst (m w)")
    case (Inr x)
    with cs(2) k(2) [of x] show ?thesis by simp
  qed (use cs(2) k(1) in simp)
  with cs(1) show "\<exists>cs. calls (snd (m w)) = cs @ calls w \<and> length (filter P cs) + (case fst (m w) of Inl _ \<Rightarrow> 0 | Inr x \<Rightarrow> pot x) \<le> k"
    by blast
qed

lemma leaves_bind:
  assumes m: "leaves P k pot m" and f: "\<And>x. leaves P (pot x) pot' (f x)"
  shows "leaves P k pot' (bindE m f)"
  unfolding leaves_def
proof
  fix w
  obtain r v where mw: "m w = (r, v)" by fastforce
  obtain cs where cs: "calls v = cs @ calls w" "length (filter P cs) + (case r of Inl _ \<Rightarrow> 0 | Inr x \<Rightarrow> pot x) \<le> k"
    using m mw unfolding leaves_def by (metis fst_conv snd_conv)
  show "\<exists>cs. calls (snd (bindE m f w)) = cs @ calls w \<and>
      length (filter P cs) + (case fst (bindE m f w) of Inl _ \<Rightarrow> 0 | Inr x \<Rightarrow> pot' x) \<le> k"
  proof (cases r)
    case (Inl e)
    with mw cs show ?thesis by (auto simp: bindE_def)
  next
    case (Inr x)
    obtain ds where ds: "calls (snd (f x v)) = ds @ calls v"
      "length (filter P ds) + (case fst (f x v) of Inl _ \<Rightarrow> 0 | Inr y \<Rightarrow> pot' y) \<le> pot x"
      using f [of x] unfolding leaves_def by blast
    with Inr mw cs show ?thesis by (auto simp: bindE_def intro!: exI [of _ "ds @ cs"])
  qed
qed

lemma leaves_quiet_then: "grows (quiet_le P) m \<Longrightarrow> leaves P k pot n \<Longrightarrow> leaves P k pot (thenE m n)"
  unfolding thenE_def by (rule leaves_bind [where pot = "\<lambda>_. k"]) (auto intro: leaves_spends [OF spends_quiet [where k = 0]])

lemma leaves_fold:
  assumes "\<And>s x rest. leaves P (pot s (x # rest)) (\<lambda>s'. pot s' rest) (f s x)"
  shows "leaves P (pot s xs) (\<lambda>s'. pot s' []) (foldE f s xs)"
proof (induction xs arbitrary: s)
  case (Cons x xs)
  show ?case unfolding foldE.simps by (rule leaves_bind [OF assms Cons.IH])
qed (simp add: leaves_ret)

section \<open>Values and history\<close>

text \<open>\<open>tracks P m\<close>: when \<open>m\<close> returns, \<open>P\<close> holds of its value and the history, which has grown.\<close>

definition tracks :: "('a \<Rightarrow> 'c list \<Rightarrow> bool) \<Rightarrow> (('c, 'z) hist_scheme, 'a) py \<Rightarrow> bool" where
  "tracks P m \<longleftrightarrow> (\<forall>w. wp m (\<lambda>x v. P x (calls v) \<and> hist_le w v) (\<lambda>_ _. True) w)"

lemma tracksI:
  assumes "\<And>w. wp m (\<lambda>x v. P x (calls v)) (\<lambda>_ _. True) w" "grows hist_le m"
  shows "tracks P m"
  unfolding tracks_def
proof
  fix w
  show "wp m (\<lambda>x v. P x (calls v) \<and> hist_le w v) (\<lambda>_ _. True) w"
    by (rule wp_mono [OF wp_conj [OF assms(1) hist.wp_le [OF assms(2) hist.le_refl]]]) auto
qed

lemma tracks_bind:
  assumes "tracks P m" "\<And>x. tracks (R x) (f x)"
    and "\<And>x h cs. P x h \<Longrightarrow> P x (cs @ h)" "\<And>x y h. P x h \<Longrightarrow> R x y h \<Longrightarrow> Q y h"
  shows "tracks Q (bindE m f)"
  unfolding tracks_def wp_bind
proof
  fix w
  show "wp m (\<lambda>x. wp (f x) (\<lambda>y v. Q y (calls v) \<and> hist_le w v) (\<lambda>_ _. True)) (\<lambda>_ _. True) w"
  proof (rule wp_mono [OF assms(1) [unfolded tracks_def, rule_format]], goal_cases)
    case (1 x u)
    show ?case
    proof (rule wp_mono [OF assms(2) [unfolded tracks_def, rule_format]], goal_cases)
      case (1 y v)
      moreover from this \<open>P x (calls u) \<and> hist_le w u\<close> have "P x (calls v)" by (auto simp: hist_le_def intro: assms(3))
      ultimately show ?case using \<open>P x (calls u) \<and> hist_le w u\<close> by (auto intro: assms(4) hist.le_trans)
    qed simp
  qed simp
qed

lemma tracks_then: "tracks (\<lambda>_. P) m \<Longrightarrow> tracks R n \<Longrightarrow> (\<And>h cs. P h \<Longrightarrow> P (cs @ h)) \<Longrightarrow> (\<And>y h. P h \<Longrightarrow> R y h \<Longrightarrow> Q y h) \<Longrightarrow> tracks Q (thenE m n)"
  unfolding thenE_def by (rule tracks_bind [where P = "\<lambda>_. P" and R = "\<lambda>_. R"]) blast+

lemma tracks_lift: "(\<And>x. r = Inr x \<Longrightarrow> tracks Q (f x)) \<Longrightarrow> tracks Q (bindE (liftE r) f)"
  by (cases r) (simp_all add: tracks_def wps)

lemma tracks_any: "grows hist_le m \<Longrightarrow> tracks (\<lambda>_ _. True) m"
  by (rule tracksI) (simp_all add: wp_def split: prod.split sum.split)

lemma tracks_ret: "(\<And>h. Q x h) \<Longrightarrow> tracks Q (ret x)"
  by (simp add: tracks_def wps hist.le_refl)

lemma tracks_weaken: "tracks P m \<Longrightarrow> (\<And>x h. P x h \<Longrightarrow> Q x h) \<Longrightarrow> tracks Q m"
  unfolding tracks_def by (blast intro: wp_mono)

lemma tracks_try:
  assumes "tracks (\<lambda>_. P) m" "grows hist_le m"
  shows "tracks (\<lambda>r h. case r of Inl _ \<Rightarrow> True | Inr _ \<Rightarrow> P h) (tryE m)"
proof (rule tracksI [OF _ hist.grows_try [OF assms(2)]])
  show "wp (tryE m) (\<lambda>r v. case r of Inl _ \<Rightarrow> True | Inr _ \<Rightarrow> P (calls v)) (\<lambda>_ _. True) w" for w
    unfolding wp_try by (rule wp_mono [OF assms(1) [unfolded tracks_def, rule_format]]) auto
qed

section \<open>Tables\<close>

text \<open>
  A table is the list of its rows. \<open>select().eq(...)\<close> filters, \<open>update(f).eq(...)\<close> changes
  the matching rows in place (its \<open>data\<close> are the changed rows), \<open>insert\<close> appends.
\<close>

definition tbl_update :: "('r \<Rightarrow> bool) \<Rightarrow> ('r \<Rightarrow> 'r) \<Rightarrow> 'r list \<Rightarrow> 'r list" where
  "tbl_update p f rows = map (\<lambda>r. if p r then f r else r) rows"

lemma tbl_update_simps [simp]:
  "tbl_update p f [] = []"
  "tbl_update p f (r # rows) = (if p r then f r else r) # tbl_update p f rows"
  by (simp_all add: tbl_update_def)

lemma length_tbl_update [simp]: "length (tbl_update p f rows) = length rows"
  by (simp add: tbl_update_def)

lemma set_tbl_update: "set (tbl_update p f rows) = (\<lambda>r. if p r then f r else r) ` set rows"
  by (simp add: tbl_update_def)

definition tbl_get :: "('r \<Rightarrow> 'k) \<Rightarrow> 'k \<Rightarrow> 'r list \<Rightarrow> 'r option" where
  "tbl_get key k rows = find (\<lambda>r. key r = k) rows"

lemma tbl_get_simps [simp]:
  "tbl_get key k [] = None"
  "tbl_get key k (r # rows) = (if key r = k then Some r else tbl_get key k rows)"
  by (simp_all add: tbl_get_def)

lemma tbl_get_SomeD: "tbl_get key k rows = Some r \<Longrightarrow> r \<in> set rows \<and> key r = k"
  by (induction rows) (auto split: if_splits)

locale keyed_table =
  fixes key :: "'r \<Rightarrow> 'k" and put :: "'f \<Rightarrow> 'r \<Rightarrow> 'r"
  assumes key_put: "key (put f r) = key r"
begin

lemma keys_update: "map key (tbl_update p (put f) rows) = map key rows"
  by (induction rows) (auto simp: key_put)

lemma get_update:
  "tbl_get key k (tbl_update (\<lambda>r. key r = j) (put f) rows) =
   (if k = j then map_option (put f) (tbl_get key k rows) else tbl_get key k rows)"
  by (induction rows) (auto simp: key_put)

lemma others_update:
  "filter (\<lambda>r. key r \<noteq> k) (tbl_update (\<lambda>r. key r = k) (put f) rows) =
   filter (\<lambda>r. key r \<noteq> k) rows"
  by (induction rows) (auto simp: key_put)

lemma get_none: "tbl_get key k rows = None \<longleftrightarrow> k \<notin> key ` set rows"
  by (induction rows) auto

end

end
