(* ===== verification/Config.thy ===== *)
theory Config
  imports Py_Monad
begin

text \<open>
  Settings, chains and addresses: the exposure allow-lists and runtime gates of
  \<open>src/config.py\<close>, the chain enumeration of \<open>src/chains/__init__.py\<close>, the address formats of
  \<open>src/chains/address.py\<close> and the explorer links of \<open>src/chains/explorer.py\<close>. The settings the
  modelled code reads are one record per concern; environment loading is not modelled.
\<close>

section \<open>Chains\<close>

datatype chain = ARC | BASE | SOLANA

fun chain_value :: "chain \<Rightarrow> string" where
  "chain_value ARC = ''arc''"
| "chain_value BASE = ''base''"
| "chain_value SOLANA = ''solana''"

lemma chain_value_inj [simp]: "chain_value a = chain_value b \<longleftrightarrow> a = b"
  by (cases a; cases b) simp_all

section \<open>Exposure controls\<close>

record app_settings =
  app_env :: string
  visible_assets :: string
  tradable_assets :: "string option"
  tradable_chains :: "string option"
  solana_bots_enabled :: "bool option"
  solana_circuit_breaker_bot_enabled :: "bool option"
  solana_event_indexer_enabled :: "bool option"
  solana_expiry_settler_enabled :: "bool option"
  solana_otoken_manager_enabled :: "bool option"
  solana_rpc_url :: string
  solana_operator_keypair :: string
  solana_batch_settler_program_id :: string
  solana_otoken_factory_program_id :: string
  solana_cluster :: string

text \<open>\<open>s.split(sep)\<close> for a single character.\<close>

fun split_on :: "char \<Rightarrow> string \<Rightarrow> string list" where
  "split_on sep [] = [[]]"
| "split_on sep (c # cs) =
     (if c = sep then [] # split_on sep cs
      else (case split_on sep cs of [] \<Rightarrow> [[c]] | w # ws \<Rightarrow> (c # w) # ws))"

definition parse_allowlist :: "string \<Rightarrow> string list" where
  "parse_allowlist raw =
     map (\<lambda>item. lower (strip item)) (filter (\<lambda>item. strip item \<noteq> []) (split_on CHR '','' raw))"

definition default_tradable_assets :: "app_settings \<Rightarrow> string" where
  "default_tradable_assets s =
     (if lower (app_env s) = ''production'' then ''eth,btc'' else ''eth,btc,sol,tslax'')"

definition default_tradable_chains :: "app_settings \<Rightarrow> string" where
  "default_tradable_chains s =
     (if lower (app_env s) = ''production'' then ''base'' else ''base,solana'')"

definition str_or :: "string option \<Rightarrow> string \<Rightarrow> string" where
  "str_or x d = (case x of Some t \<Rightarrow> (if t \<noteq> [] then t else d) | None \<Rightarrow> d)"

definition tradable_assets_allowlist :: "app_settings \<Rightarrow> string list" where
  "tradable_assets_allowlist s = parse_allowlist (str_or (tradable_assets s) (default_tradable_assets s))"

definition tradable_chains_allowlist :: "app_settings \<Rightarrow> string list" where
  "tradable_chains_allowlist s = parse_allowlist (str_or (tradable_chains s) (default_tradable_chains s))"

definition is_asset_visible :: "app_settings \<Rightarrow> string \<Rightarrow> bool" where
  "is_asset_visible s a = elem (lower a) (parse_allowlist (visible_assets s))"

definition is_asset_tradable :: "app_settings \<Rightarrow> string \<Rightarrow> bool" where
  "is_asset_tradable s a = elem (lower a) (tradable_assets_allowlist s)"

definition is_chain_tradable :: "app_settings \<Rightarrow> string \<Rightarrow> bool" where
  "is_chain_tradable s c = elem (lower c) (tradable_chains_allowlist s)"

section \<open>Runtime gates\<close>

definition has_solana_config :: "app_settings \<Rightarrow> bool" where
  "has_solana_config s \<longleftrightarrow>
     solana_rpc_url s \<noteq> [] \<and> solana_operator_keypair s \<noteq> [] \<and>
     solana_batch_settler_program_id s \<noteq> [] \<and> solana_otoken_factory_program_id s \<noteq> []"

definition solana_bots_default_enabled :: "app_settings \<Rightarrow> bool" where
  "solana_bots_default_enabled s \<longleftrightarrow> lower (app_env s) \<noteq> ''production''"

definition has_solana_runtime_enabled :: "app_settings \<Rightarrow> bool" where
  "has_solana_runtime_enabled s =
     (case solana_bots_enabled s of Some b \<Rightarrow> b | None \<Rightarrow> solana_bots_default_enabled s)"

definition bot_override :: "app_settings \<Rightarrow> string \<Rightarrow> bool option option" where
  "bot_override s name =
     map_of [(''circuit_breaker'', solana_circuit_breaker_bot_enabled s),
             (''event_indexer'', solana_event_indexer_enabled s),
             (''expiry_settler'', solana_expiry_settler_enabled s),
             (''otoken_manager'', solana_otoken_manager_enabled s)] name"

definition is_solana_bot_enabled :: "app_settings \<Rightarrow> string \<Rightarrow> exn + bool" where
  "is_solana_bot_enabled s name =
     (case bot_override s name of
        None \<Rightarrow> Inl (ValueError (''Unknown Solana bot: '' @ name))
      | Some (Some b) \<Rightarrow> Inr b
      | Some None \<Rightarrow> Inr (has_solana_runtime_enabled s))"

definition solana_bot_names :: "string list" where
  "solana_bot_names = [''circuit_breaker'', ''event_indexer'', ''expiry_settler'', ''otoken_manager'']"

definition has_enabled_solana_bots :: "app_settings \<Rightarrow> bool" where
  "has_enabled_solana_bots s = list_ex (\<lambda>n. is_solana_bot_enabled s n = Inr True) solana_bot_names"

lemma is_solana_bot_enabled_known:
  "n \<in> set solana_bot_names \<Longrightarrow> \<exists>b. is_solana_bot_enabled s n = Inr b"
  by (auto simp: solana_bot_names_def is_solana_bot_enabled_def bot_override_def split: option.split)

section \<open>Bridge settings\<close>

record bridge_settings =
  cctp_attestation_api_url :: string
  beta_mode :: bool
  chain_id :: int
  cctp_base_message_transmitter :: string
  relayer_base_private_key :: string
  operator_private_key :: string
  relayer_solana_keypair :: string
  cctp_domain_arc :: nat
  cctp_base_domain :: nat
  cctp_solana_domain :: nat
  cctp_attestation_poll_interval :: int
  cctp_attestation_timeout :: int
  cctp_trade_max_retries :: int
  arc_testnet_rpc :: string
  arc_metavault_address :: string
  arc_message_transmitter :: string
  cctp_solana_usdc_mint :: string

definition get_cctp_attestation_url :: "bridge_settings \<Rightarrow> string" where
  "get_cctp_attestation_url s =
     (if cctp_attestation_api_url s \<noteq> [] then cctp_attestation_api_url s
      else if beta_mode s then ''https://iris-api-sandbox.circle.com''
      else ''https://iris-api.circle.com'')"

definition has_bridge_config :: "bridge_settings \<Rightarrow> bool" where
  "has_bridge_config s \<longleftrightarrow>
     (cctp_base_message_transmitter s \<noteq> [] \<or> chain_id s = 8453) \<and>
     (relayer_base_private_key s \<noteq> [] \<or> operator_private_key s \<noteq> [] \<or> relayer_solana_keypair s \<noteq> [])"

section \<open>Addresses\<close>

definition is_hex :: "char \<Rightarrow> bool" where
  "is_hex c \<longleftrightarrow> hex_val c \<noteq> None"

text \<open>
  \<open>re.compile("^0x[0-9a-fA-F]{n}$").match(s)\<close>; the dollar sign also matches just before a
  final line feed.
\<close>

definition chop_newline :: "string \<Rightarrow> string" where
  "chop_newline s = (if s \<noteq> [] \<and> last s = CHR 0x0A then butlast s else s)"

definition hex_re :: "nat \<Rightarrow> string \<Rightarrow> bool" where
  "hex_re n s \<longleftrightarrow> (let t = chop_newline s in
     length t = n + 2 \<and> starts_with t ''0x'' \<and> list_all is_hex (drop 2 t))"

definition eth_address_re :: "string \<Rightarrow> bool" where
  "eth_address_re = hex_re 40"

definition b58_chars :: string where
  "b58_chars = ''123456789ABCDEFGHJKLMNPQRSTUVWXYZabcdefghijkmnopqrstuvwxyz''"

definition is_valid_solana_address :: "string \<Rightarrow> bool" where
  "is_valid_solana_address a \<longleftrightarrow>
     32 \<le> length a \<and> length a \<le> 44 \<and> list_all (\<lambda>c. elem c b58_chars) a"

definition detect_chain :: "string \<Rightarrow> exn + chain" where
  "detect_chain a =
     (if eth_address_re a then Inr BASE
      else if 32 \<le> length a \<and> length a \<le> 44 \<and> list_all (\<lambda>c. elem c b58_chars) a then Inr SOLANA
      else Inl (ValueError (''Unrecognized address format: '' @ a)))"

lemma zero_not_b58: "CHR ''0'' \<notin> set b58_chars"
  by (simp add: b58_chars_def)

lemma eth_not_solana: "eth_address_re a \<Longrightarrow> \<not> is_valid_solana_address a"
proof
  assume e: "eth_address_re a" and s: "is_valid_solana_address a"
  from e have "starts_with (chop_newline a) ''0x''"
    by (simp add: eth_address_re_def hex_re_def Let_def)
  then have "CHR ''0'' \<in> set (chop_newline a)"
    by (auto simp: starts_with_iff)
  then have "CHR ''0'' \<in> set a"
    by (auto simp: chop_newline_def split: if_splits dest: in_set_butlastD)
  with s have "CHR ''0'' \<in> set b58_chars"
    by (auto simp: is_valid_solana_address_def list_all_iff)
  with zero_not_b58 show False by simp
qed

section \<open>Explorer links\<close>

definition tx_explorer_url :: "app_settings \<Rightarrow> bridge_settings \<Rightarrow> string option \<Rightarrow> string option \<Rightarrow> string option" where
  "tx_explorer_url s b tx_hash ch =
     (if \<not> truthy tx_hash then None
      else if ch = Some (chain_value SOLANA) then
        (let cluster = lower (if solana_cluster s \<noteq> [] then solana_cluster s else ''mainnet-beta'') in
         if cluster = ''mainnet'' \<or> cluster = ''mainnet-beta''
         then Some (''https://solscan.io/tx/'' @ the tx_hash)
         else Some (''https://solscan.io/tx/'' @ the tx_hash @ ''?cluster='' @ cluster))
      else if ch = Some (chain_value BASE) \<or> ch = None then
        (if chain_id b = 84532 then Some (''https://sepolia.basescan.org/tx/'' @ the tx_hash)
         else Some (''https://basescan.org/tx/'' @ the tx_hash))
      else None)"

section \<open>Properties\<close>

text \<open>
  Address detection is exact. An address is reported as Solana precisely when the
  base58 validity check accepts it, as Base precisely when it matches the EVM pattern, and
  it is rejected precisely when it is neither: no string is acceptable as both.
\<close>

lemma detect_chain_exact:
  "(detect_chain a = Inr SOLANA \<longleftrightarrow> is_valid_solana_address a) \<and>
   (detect_chain a = Inr BASE \<longleftrightarrow> eth_address_re a) \<and>
   ((\<exists>e. detect_chain a = Inl e) \<longleftrightarrow> \<not> eth_address_re a \<and> \<not> is_valid_solana_address a)"
  using eth_not_solana [of a]
  by (auto simp: detect_chain_def is_valid_solana_address_def)

end
