(* ===== verification/Cctp.thy ===== *)
theory Cctp
  imports Config
begin

text \<open>
  The CCTP client of \<open>src/bridge/cctp.py\<close>: parsing burn messages, the byte layouts of the two
  Solana instructions, the configuration checks before a transaction is built, and the
  attestation polling loop. Key derivation, signing and broadcasting belong to libraries; the
  instruction discriminators (a hash) and the HTTP responses are arguments.
\<close>

section \<open>Hexadecimal strings\<close>

definition hex_digit :: "nat \<Rightarrow> char" where
  "hex_digit d = (if d < 10 then char_of (d + 48) else char_of (d + 87))"

text \<open>\<open>b.hex()\<close>.\<close>

definition to_hex :: "byte list \<Rightarrow> string" where
  "to_hex bs = concat (map (\<lambda>b. [hex_digit (unat b div 16), hex_digit (unat b mod 16)]) bs)"

lemma hex_digit_props:
  assumes "d < 16"
  shows "hex_val (hex_digit d) = Some d" "\<not> is_space (hex_digit d)"
  using assms by (auto simp: hex_digit_def hex_val_def is_space_def Let_def)

lemma hex_digit_not_x: "d < 16 \<Longrightarrow> hex_digit d \<noteq> CHR ''x''"
proof
  assume "d < 16" "hex_digit d = CHR ''x''"
  moreover have "hex_val CHR ''x'' = None" by (simp add: hex_val_def Let_def)
  ultimately show False using hex_digit_props(1) [of d] by simp
qed

lemma fromhex_to_hex [simp]: "fromhex (to_hex bs) = Some bs"
proof (induction bs)
  case Nil
  show ?case by (simp add: to_hex_def)
next
  case (Cons b bs)
  have "unat b < 256" using unsigned_less [of b] by simp
  then have "unat b div 16 < 16" "unat b mod 16 < 16" by auto
  moreover have "(of_nat (16 * (unat b div 16) + unat b mod 16) :: byte) = b" by simp
  ultimately show ?case using Cons by (simp add: to_hex_def hex_digit_props)
qed

definition strip_0x :: "string \<Rightarrow> string" where
  "strip_0x h = (if starts_with h ''0x'' then drop 2 h else h)"

lemma strip_0x_to_hex [simp]:
  "strip_0x (to_hex bs) = to_hex bs"
  "strip_0x (''0x'' @ to_hex bs) = to_hex bs"
proof -
  have "unat b mod 16 < 16" for b :: byte by simp
  then show "strip_0x (to_hex bs) = to_hex bs"
    by (cases bs) (auto simp: strip_0x_def to_hex_def hex_digit_not_x)
  show "strip_0x (''0x'' @ to_hex bs) = to_hex bs"
    by (simp add: strip_0x_def)
qed

text \<open>A slice \<open>b[i:j]\<close>.\<close>

definition slice :: "nat \<Rightarrow> nat \<Rightarrow> 'a list \<Rightarrow> 'a list" where
  "slice i j xs = take (j - i) (drop i xs)"

definition to_bytes_be :: "nat \<Rightarrow> nat \<Rightarrow> byte list" where
  "to_bytes_be k n = rev (to_bytes_le k n)"

lemma from_to_bytes_be: "n < 256 ^ k \<Longrightarrow> from_bytes_be (to_bytes_be k n) = n"
  by (simp add: from_bytes_be_rev to_bytes_be_def from_to_bytes_le)

lemma length_to_bytes_be [simp]: "length (to_bytes_be k n) = k"
  by (simp add: to_bytes_be_def)

section \<open>Domains and amounts\<close>

definition get_domain_for_chain :: "bridge_settings \<Rightarrow> chain \<Rightarrow> nat" where
  "get_domain_for_chain s c = (case c of
     ARC \<Rightarrow> cctp_domain_arc s | BASE \<Rightarrow> cctp_base_domain s | SOLANA \<Rightarrow> cctp_solana_domain s)"

text \<open>\<open>int(x)\<close> of a decimal string, raising.\<close>

definition int_or_raise :: "string \<Rightarrow> exn + int" where
  "int_or_raise s = (case py_int s of
     None \<Rightarrow> Inl (ValueError (''invalid literal for int() with base 10: '' @ s)) | Some i \<Rightarrow> Inr i)"

lemma int_or_raise_str [simp]: "int_or_raise (int_str i) = Inr i"
  by (simp add: int_or_raise_def)

definition parse_cctp_v2_burn_amounts :: "string \<Rightarrow> string option \<Rightarrow> exn + int \<times> int \<times> int" where
  "parse_cctp_v2_burn_amounts message_hex fallback_gross_amount =
     (case fromhex (strip_0x message_hex) of
        None \<Rightarrow> Inl (ValueError ''non-hexadecimal number found in fromhex() arg'')
      | Some message_bytes \<Rightarrow>
          if length message_bytes < 148 + 196 then
            (case fallback_gross_amount of
               None \<Rightarrow> Inl (ValueError ''CCTP message too short to parse amount fields'')
             | Some f \<Rightarrow> map_sum id (\<lambda>gross. (gross, 0, gross)) (int_or_raise f))
          else
            (let body = drop 148 message_bytes;
                 gross = int (from_bytes_be (slice 68 100 body));
                 fee = int (from_bytes_be (slice 164 196 body))
             in case (if gross \<le> 0 \<and> fallback_gross_amount \<noteq> None
                      then int_or_raise (the fallback_gross_amount) else Inr gross) of
                  Inl e \<Rightarrow> Inl e
                | Inr gross \<Rightarrow>
                    if fee > gross then Inl (ValueError ''CCTP feeExecuted exceeds gross amount'')
                    else Inr (gross, fee, gross - fee)))"

text \<open>
  The layout the parser assumes: a header of 148 bytes, then a body with the amount at offset
  68 and the executed fee at offset 164.
\<close>

definition burn_message :: "byte list \<Rightarrow> byte list \<Rightarrow> nat \<Rightarrow> byte list \<Rightarrow> nat \<Rightarrow> byte list \<Rightarrow> byte list" where
  "burn_message header pre amount mid fee rest =
     header @ pre @ to_bytes_be 32 amount @ mid @ to_bytes_be 32 fee @ rest"

text \<open>
  What is parsed is what the message says. For every message of the CCTP V2 layout the
  parser returns the encoded gross amount and fee and their difference, with or without the
  \<open>0x\<close> prefix and whatever the fallback; it rejects precisely the messages whose fee exceeds
  the amount.
\<close>

lemma parse_burn_message:
  assumes "length header = 148" "length pre = 68" "length mid = 64"
    and "0 < amount" "amount < 2 ^ 256" "fee < 2 ^ 256"
    and "h \<in> {to_hex (burn_message header pre amount mid fee rest),
             ''0x'' @ to_hex (burn_message header pre amount mid fee rest)}"
  shows "parse_cctp_v2_burn_amounts h fallback =
    (if amount < fee then Inl (ValueError ''CCTP feeExecuted exceeds gross amount'')
     else Inr (int amount, int fee, int amount - int fee))"
proof -
  let ?m = "burn_message header pre amount mid fee rest"
  have hx: "fromhex (strip_0x h) = Some ?m"
    using assms(7) strip_0x_to_hex by fastforce
  have len: "\<not> length ?m < 148 + 196"
    using assms(1-3) by (simp add: burn_message_def)
  have g: "from_bytes_be (slice 68 100 (drop 148 ?m)) = amount"
    using assms(1,2,5) by (simp add: burn_message_def slice_def from_to_bytes_be)
  have f: "from_bytes_be (slice 164 196 (drop 148 ?m)) = fee"
    using assms(1-3,6) by (simp add: burn_message_def slice_def from_to_bytes_be)
  show ?thesis
    using assms(4) hx len g f by (simp add: parse_cctp_v2_burn_amounts_def Let_def)
qed

lemma parse_burn_message_witness:
  "parse_cctp_v2_burn_amounts
     (''0x'' @ to_hex (burn_message (replicate 148 1) (replicate 68 0) 1000000 (replicate 64 0) 130 [])) None
   = Inr (1000000, 130, 999870)"
  using parse_burn_message [of "replicate 148 1" "replicate 68 0" "replicate 64 0" 1000000 130
      "''0x'' @ to_hex (burn_message (replicate 148 1) (replicate 68 0) 1000000 (replicate 64 0) 130 [])" "[]" None]
  by simp

lemma parse_amounts_sum:
  "parse_cctp_v2_burn_amounts h fb = Inr (g, f, n) \<Longrightarrow> n = g - f \<and> 0 \<le> f"
  by (auto simp: parse_cctp_v2_burn_amounts_def Let_def map_sum_def split: option.splits if_splits sum.splits)


section \<open>Solana instructions\<close>

text \<open>\<open>i.to_bytes(k, "little")\<close>, raising when the value does not fit.\<close>

definition le_bytes :: "nat \<Rightarrow> int \<Rightarrow> exn + byte list" where
  "le_bytes k i =
     (if i < 0 then Inl (OtherError ''can't convert negative int to unsigned'')
      else if 256 ^ k \<le> nat i then Inl (OtherError ''int too big to convert'')
      else Inr (to_bytes_le k (nat i)))"

lemma le_bytes_Inr: "le_bytes k i = Inr b \<longleftrightarrow> 0 \<le> i \<and> nat i < 256 ^ k \<and> b = to_bytes_le k (nat i)"
  by (auto simp: le_bytes_def)

text \<open>An EVM address as a 32 byte public key: twelve zero bytes, then the address.\<close>

definition evm_address_to_bytes32 :: "string \<Rightarrow> exn + byte list" where
  "evm_address_to_bytes32 address =
     (let hex_addr = strip_0x address in
      if length hex_addr \<noteq> 40 then Inl (ValueError ''EVM recipient must be a 20-byte address'')
      else (case fromhex hex_addr of
              None \<Rightarrow> Inl (ValueError ''non-hexadecimal number found in fromhex() arg'')
            | Some b \<Rightarrow> if length b = 20 then Inr (replicate 12 0 @ b)
                        else Inl (ValueError ''expected a sequence of length 32'')))"

definition burn_amount_checks :: "int \<Rightarrow> int \<Rightarrow> exn option" where
  "burn_amount_checks amount max_fee =
     (if amount \<le> 0 then Some (ValueError ''amount must be greater than zero'')
      else if max_fee < 0 then Some (ValueError ''max_fee cannot be negative'')
      else if amount \<le> max_fee then Some (ValueError ''amount must be greater than max_fee'')
      else None)"

fun concat_results :: "(exn + 'a list) list \<Rightarrow> exn + 'a list" where
  "concat_results [] = Inr []"
| "concat_results (Inl e # rs) = Inl e"
| "concat_results (Inr x # rs) = (case concat_results rs of Inl e \<Rightarrow> Inl e | Inr xs \<Rightarrow> Inr (x @ xs))"

definition deposit_for_burn_data ::
  "byte list \<Rightarrow> int \<Rightarrow> int \<Rightarrow> byte list \<Rightarrow> byte list \<Rightarrow> int \<Rightarrow> int \<Rightarrow> exn + byte list" where
  "deposit_for_burn_data digest amount destination_domain mint_recipient destination_caller max_fee min_finality =
     concat_results
       [Inr (take 8 digest), le_bytes 8 amount, le_bytes 4 destination_domain, Inr mint_recipient,
        Inr destination_caller, le_bytes 8 max_fee, le_bytes 4 min_finality]"

text \<open>
  The part of \<open>build_solana_cctp_burn_transaction\<close> that computes: the checks on the amounts, the
  relayer key (loaded by a library, \<open>key_ok\<close>), the two recipients and the instruction data.
\<close>

definition build_solana_burn_data ::
  "byte list \<Rightarrow> (exn + unit) \<Rightarrow> int \<Rightarrow> string \<Rightarrow> int \<Rightarrow> int \<Rightarrow> int \<Rightarrow> string option \<Rightarrow> exn + byte list" where
  "build_solana_burn_data digest key_ok destination_domain mint_recipient amount max_fee min_finality caller =
     (case burn_amount_checks amount max_fee of
        Some e \<Rightarrow> Inl e
      | None \<Rightarrow> (case key_ok of
          Inl e \<Rightarrow> Inl e
        | Inr _ \<Rightarrow> (case evm_address_to_bytes32 mint_recipient of
            Inl e \<Rightarrow> Inl e
          | Inr recipient \<Rightarrow>
              (case (if truthy caller then evm_address_to_bytes32 (the caller) else Inr (replicate 32 0)) of
                 Inl e \<Rightarrow> Inl e
               | Inr caller_pk \<Rightarrow>
                   deposit_for_burn_data digest amount destination_domain recipient caller_pk max_fee min_finality))))"

lemma evm_address_length: "evm_address_to_bytes32 a = Inr b \<Longrightarrow> length b = 32"
  by (auto simp: evm_address_to_bytes32_def Let_def split: if_splits option.splits)

lemma concat_results_Cons:
  "concat_results (r # rs) = Inr b \<longleftrightarrow> (\<exists>x y. r = Inr x \<and> concat_results rs = Inr y \<and> b = x @ y)"
  by (cases r) (auto split: sum.splits)

lemma deposit_for_burn_Inr:
  "deposit_for_burn_data digest a d r c f m = Inr b \<longleftrightarrow>
   (\<exists>ab db fb mb. le_bytes 8 a = Inr ab \<and> le_bytes 4 d = Inr db \<and> le_bytes 8 f = Inr fb \<and>
      le_bytes 4 m = Inr mb \<and> b = take 8 digest @ ab @ db @ r @ c @ fb @ mb)"
  by (auto simp: deposit_for_burn_data_def concat_results_Cons simp del: concat_results.simps(2,3))

text \<open>
  The burn instruction says what was asked for. Whenever instruction data is built, it is
  96 bytes long and decodes at the program's offsets to the requested amount, domain, fee and
  finality, with a positive amount that exceeds the fee and the recipient left-padded to 32 bytes.
\<close>

lemma solana_burn_data_layout:
  assumes "build_solana_burn_data digest key_ok d recipient amount max_fee minf caller = Inr b"
    and "8 \<le> length digest"
  shows "length b = 96 \<and> 0 < amount \<and> 0 \<le> max_fee \<and> max_fee < amount \<and>
    int (from_bytes_le (slice 8 16 b)) = amount \<and> int (from_bytes_le (slice 16 20 b)) = d \<and>
    evm_address_to_bytes32 recipient = Inr (slice 20 52 b) \<and>
    int (from_bytes_le (slice 84 92 b)) = max_fee \<and> int (from_bytes_le (slice 92 96 b)) = minf"
proof -
  from assms(1) obtain r c where
    ok: "burn_amount_checks amount max_fee = None" and r: "evm_address_to_bytes32 recipient = Inr r"
    and c: "(if truthy caller then evm_address_to_bytes32 (the caller) else Inr (replicate 32 0)) = Inr c"
    and b: "deposit_for_burn_data digest amount d r c max_fee minf = Inr b"
    by (auto simp: build_solana_burn_data_def split: option.splits sum.splits)
  have lr: "length r = 32" using r by (rule evm_address_length)
  have lc: "length c = 32" using c by (auto split: if_splits dest: evm_address_length)
  from b obtain ab db fb mb where
    bb: "b = take 8 digest @ ab @ db @ r @ c @ fb @ mb"
    and bs: "le_bytes 8 amount = Inr ab" "le_bytes 4 d = Inr db" "le_bytes 8 max_fee = Inr fb"
      "le_bytes 4 minf = Inr mb"
    by (auto simp: deposit_for_burn_Inr)
  from bs have l: "length ab = 8" "length db = 4" "length fb = 8" "length mb = 4"
    and v: "int (from_bytes_le ab) = amount" "int (from_bytes_le db) = d"
      "int (from_bytes_le fb) = max_fee" "int (from_bytes_le mb) = minf"
    by (auto simp: le_bytes_Inr from_to_bytes_le)
  have "0 < amount \<and> 0 \<le> max_fee \<and> max_fee < amount"
    using ok by (auto simp: burn_amount_checks_def split: if_splits)
  then show ?thesis
    using assms(2) lr lc l v r by (simp add: bb slice_def)
qed

definition demo_address :: string where
  "demo_address = ''0x'' @ to_hex (replicate 20 171)"

lemma length_to_hex [simp]: "length (to_hex bs) = 2 * length bs"
  by (induction bs) (simp_all add: to_hex_def)

lemma solana_burn_data_layout_witness:
  "\<exists>b. build_solana_burn_data (replicate 32 7) (Inr ()) 6 demo_address 5000000 100 2000 None = Inr b \<and>
     int (from_bytes_le (slice 8 16 b)) = 5000000"
proof -
  let ?b = "build_solana_burn_data (replicate 32 7) (Inr ()) 6 demo_address 5000000 100 2000 None"
  have "evm_address_to_bytes32 demo_address = Inr (replicate 12 0 @ replicate 20 171)"
    unfolding demo_address_def evm_address_to_bytes32_def strip_0x_to_hex by simp
  then have "\<exists>b. ?b = Inr b"
    by (simp add: build_solana_burn_data_def burn_amount_checks_def deposit_for_burn_data_def le_bytes_def)
  then obtain b where b: "?b = Inr b" by blast
  with solana_burn_data_layout [OF b] show ?thesis by simp
qed

text \<open>The header fields \<open>receive_message_solana\<close> reads, and its Borsh vectors.\<close>

record cctp_header =
  h_source_domain :: nat
  h_nonce :: "byte list"
  h_burn_token :: "byte list"
  h_mint_recipient :: "byte list"

definition parse_cctp_header :: "byte list \<Rightarrow> cctp_header" where
  "parse_cctp_header message_bytes =
     (let message_body = drop 148 message_bytes in
      \<lparr>h_source_domain = from_bytes_be (slice 4 8 message_bytes),
       h_nonce = slice 12 44 message_bytes,
       h_burn_token = slice 4 36 message_body,
       h_mint_recipient = slice 36 68 message_body\<rparr>)"

definition encode_vec :: "byte list \<Rightarrow> byte list" where
  "encode_vec data = to_bytes_le 4 (length data) @ data"

definition receive_message_data :: "byte list \<Rightarrow> byte list \<Rightarrow> byte list \<Rightarrow> byte list" where
  "receive_message_data digest message attestation =
     take 8 digest @ encode_vec message @ encode_vec attestation"

definition decode_vec :: "byte list \<Rightarrow> byte list \<times> byte list" where
  "decode_vec b = (let n = from_bytes_le (take 4 b) in (take n (drop 4 b), drop (n + 4) b))"

lemma decode_encode_vec: "length xs < 256 ^ 4 \<Longrightarrow> decode_vec (encode_vec xs @ r) = (xs, r)"
  by (simp add: decode_vec_def encode_vec_def from_to_bytes_le Let_def)

section \<open>Configuration of receiveMessage\<close>

definition evm_relayer_key :: "bridge_settings \<Rightarrow> exn + string" where
  "evm_relayer_key s =
     (let k = (if relayer_base_private_key s \<noteq> [] then relayer_base_private_key s else operator_private_key s) in
      if k = [] then Inl (ValueError (''relayer_base_private_key not configured and operator_private_key '' @
        ''fallback is unavailable. Set RELAYER_BASE_PRIVATE_KEY or OPERATOR_PRIVATE_KEY env var.''))
      else Inr k)"

definition base_mainnet_message_transmitter_v2 :: string where
  "base_mainnet_message_transmitter_v2 = ''0x81D40F21F12A8F0E3252Bccb954D722d4c464B64''"

definition arc_testnet_message_transmitter_v2 :: string where
  "arc_testnet_message_transmitter_v2 = ''0xE737e5cEBEEBa77EFE34D4aa090756590b1CE275''"

definition receive_message_base_config :: "bridge_settings \<Rightarrow> exn + string \<times> string" where
  "receive_message_base_config s =
     (case evm_relayer_key s of
        Inl e \<Rightarrow> Inl e
      | Inr k \<Rightarrow>
          (let t = cctp_base_message_transmitter s;
               t = (if t = [] \<and> chain_id s = 8453 then base_mainnet_message_transmitter_v2 else t)
           in if t = [] then Inl (ValueError (''cctp_base_message_transmitter not configured. '' @
                  ''Set CCTP_BASE_MESSAGE_TRANSMITTER env var.''))
              else Inr (k, t)))"

definition receive_message_arc_config :: "bridge_settings \<Rightarrow> exn + string \<times> string" where
  "receive_message_arc_config s =
     (case evm_relayer_key s of
        Inl e \<Rightarrow> Inl e
      | Inr k \<Rightarrow>
          if arc_testnet_rpc s = [] then
            Inl (ValueError ''arc_testnet_rpc not configured. Set ARC_TESTNET_RPC env var.'')
          else Inr (k, if arc_message_transmitter s \<noteq> [] then arc_message_transmitter s
                       else arc_testnet_message_transmitter_v2))"

definition finalize_arc_config :: "bridge_settings \<Rightarrow> exn + string \<times> string" where
  "finalize_arc_config s =
     (case evm_relayer_key s of
        Inl e \<Rightarrow> Inl e
      | Inr k \<Rightarrow>
          if arc_testnet_rpc s = [] then
            Inl (ValueError ''arc_testnet_rpc not configured. Set ARC_TESTNET_RPC env var.'')
          else if arc_metavault_address s = [] then
            Inl (ValueError ''arc_metavault_address not configured. Set ARC_METAVAULT_ADDRESS env var.'')
          else Inr (k, arc_metavault_address s))"

definition solana_relayer_config :: "bridge_settings \<Rightarrow> exn + string" where
  "solana_relayer_config s =
     (if relayer_solana_keypair s = [] then
        Inl (ValueError ''relayer_solana_keypair not configured. Set RELAYER_SOLANA_KEYPAIR env var.'')
      else Inr (relayer_solana_keypair s))"

text \<open>
  The start-up gate is weaker than what minting needs. \<open>has_bridge_config\<close> together with an
  EVM key is exactly the configuration under which \<open>receiveMessage\<close> on Base can be built; with
  the Solana key alone the gate opens although every mint on Base is refused.
\<close>

lemma bridge_gate_and_base_mint:
  "((\<exists>r. receive_message_base_config s = Inr r) \<longleftrightarrow>
      has_bridge_config s \<and> (relayer_base_private_key s \<noteq> [] \<or> operator_private_key s \<noteq> [])) \<and>
   (\<exists>s'. has_bridge_config s' \<and> (\<exists>e. receive_message_base_config s' = Inl e))"
proof -
  have "has_bridge_config (s\<lparr>chain_id := 8453, relayer_base_private_key := [], operator_private_key := [],
      relayer_solana_keypair := ''k''\<rparr>)" (is "has_bridge_config ?s")
    by (simp add: has_bridge_config_def)
  moreover have "\<exists>e. receive_message_base_config ?s = Inl e"
    by (simp add: receive_message_base_config_def evm_relayer_key_def)
  ultimately have "\<exists>s'. has_bridge_config s' \<and> (\<exists>e. receive_message_base_config s' = Inl e)" by blast
  then show ?thesis
    by (auto simp: receive_message_base_config_def evm_relayer_key_def has_bridge_config_def Let_def
        base_mainnet_message_transmitter_v2_def)
qed

section \<open>Attestation polling\<close>

record attestation_message =
  am_status :: "string option"
  am_message :: "string option"
  am_attestation :: "string option"

text \<open>
  One poll: HTTP 404, another \<open>httpx.HTTPError\<close>, any other exception, or the decoded
  \<open>messages\<close> list.
\<close>

datatype poll_response =
    NotIndexed
  | HttpError string
  | PollRaises exn
  | Messages "attestation_message list"

text \<open>What one poll decides: the result, or nothing yet.\<close>

fun poll_result :: "poll_response \<Rightarrow> (exn + string \<times> string) option" where
  "poll_result NotIndexed = None"
| "poll_result (HttpError _) = None"
| "poll_result (PollRaises e) = Some (Inl e)"
| "poll_result (Messages []) = None"
| "poll_result (Messages (m # _)) =
     (if am_status m = Some ''complete'' then
        Some (case (am_message m, am_attestation m) of
                (None, _) \<Rightarrow> Inl (KeyError ''message'')
              | (_, None) \<Rightarrow> Inl (KeyError ''attestation'')
              | (Some x, Some y) \<Rightarrow> Inr (x, y))
      else None)"

text \<open>The loop; \<open>i\<close> counts the polls. Running out of fuel stands for not returning.\<close>

fun poll_loop :: "nat \<Rightarrow> (nat \<Rightarrow> poll_response) \<Rightarrow> int \<Rightarrow> int \<Rightarrow> string \<Rightarrow> nat \<Rightarrow> int \<Rightarrow> exn + string \<times> string" where
  "poll_loop fuel resp interval timeout tx i elapsed =
     (if elapsed < timeout then
        (case poll_result (resp i) of
           Some r \<Rightarrow> r
         | None \<Rightarrow> (case fuel of 0 \<Rightarrow> Inl NoReturn
                    | Suc k \<Rightarrow> poll_loop k resp interval timeout tx (Suc i) (elapsed + interval)))
      else Inl (RuntimeError (''Attestation timeout after '' @ int_str timeout @ ''s for '' @ tx)))"

declare poll_loop.simps [simp del]

definition poll_attestation :: "bridge_settings \<Rightarrow> (nat \<Rightarrow> poll_response) \<Rightarrow> string \<Rightarrow> exn + string \<times> string" where
  "poll_attestation s resp tx =
     poll_loop (nat (cctp_attestation_timeout s)) resp (cctp_attestation_poll_interval s)
       (cctp_attestation_timeout s) tx 0 0"

text \<open>The number of polls before the time-out.\<close>

definition max_polls :: "bridge_settings \<Rightarrow> nat" where
  "max_polls s = nat ((cctp_attestation_timeout s + cctp_attestation_poll_interval s - 1)
      div cctp_attestation_poll_interval s)"

lemma ceil_div_nonpos: "1 \<le> k \<Longrightarrow> x \<le> 0 \<Longrightarrow> (x + k - 1) div k \<le> (0::int)"
  using zdiv_mono1 [of "x + k - 1" "k - 1" k] by simp

lemma poll_loop_find:
  assumes "1 \<le> interval" "timeout - elapsed \<le> int fuel"
  shows "poll_loop fuel resp interval timeout tx i elapsed =
    (case find (\<lambda>j. poll_result (resp j) \<noteq> None)
        [i..<i + nat ((timeout - elapsed + interval - 1) div interval)] of
       None \<Rightarrow> Inl (RuntimeError (''Attestation timeout after '' @ int_str timeout @ ''s for '' @ tx))
     | Some j \<Rightarrow> the (poll_result (resp j)))"
  using assms(2)
proof (induction fuel arbitrary: i elapsed)
  case 0
  then have "(timeout - elapsed + interval - 1) div interval \<le> 0"
    using assms(1) by (intro ceil_div_nonpos) simp_all
  with 0 show ?case by (subst poll_loop.simps) simp
next
  case (Suc fuel)
  show ?case
  proof (cases "elapsed < timeout")
    case True
    define n where "n = nat ((timeout - (elapsed + interval) + interval - 1) div interval)"
    have "(timeout - elapsed + interval - 1) div interval =
        (timeout - (elapsed + interval) + interval - 1) div interval + 1"
      using assms(1) div_add_self2 [of interval "timeout - (elapsed + interval) + interval - 1"]
      by (simp add: algebra_simps)
    moreover have "0 \<le> (timeout - (elapsed + interval) + interval - 1) div interval"
      using True assms(1) by (simp add: pos_imp_zdiv_nonneg_iff)
    ultimately have n: "nat ((timeout - elapsed + interval - 1) div interval) = Suc n"
      by (simp add: n_def)
    have "[i..<i + Suc n] = i # [Suc i..<Suc i + n]" by (simp add: upt_conv_Cons)
    moreover have "timeout - (elapsed + interval) \<le> int fuel" using Suc.prems assms(1) by simp
    ultimately show ?thesis
      using True Suc.IH [of "elapsed + interval" "Suc i"]
      by (subst poll_loop.simps) (simp add: n n_def split: option.split)
  next
    case False
    then have "(timeout - elapsed + interval - 1) div interval \<le> 0"
      using assms(1) by (intro ceil_div_nonpos) simp_all
    with False show ?thesis by (subst poll_loop.simps) simp
  qed
qed

text \<open>
  C36: the polling loop returns, and returns the right thing. With a poll interval of at least
  one second it makes at most the time-out divided by the interval (rounded up) polls. Its
  result is that of the first poll that decides: message and attestation of a complete message.
  Polls that fail, find nothing or find a pending message are skipped, and if no poll decides it
  raises the time-out error.
\<close>

theorem poll_attestation_first_decisive:
  assumes "1 \<le> cctp_attestation_poll_interval s"
  shows "poll_attestation s resp tx =
    (case find (\<lambda>j. poll_result (resp j) \<noteq> None) [0..<max_polls s] of
       None \<Rightarrow> Inl (RuntimeError (''Attestation timeout after '' @ int_str (cctp_attestation_timeout s) @ ''s for '' @ tx))
     | Some j \<Rightarrow> the (poll_result (resp j)))"
  unfolding poll_attestation_def max_polls_def
  using poll_loop_find [OF assms, of "cctp_attestation_timeout s" 0 "nat (cctp_attestation_timeout s)" resp tx 0]
  by simp

text \<open>In particular, the loop does not hang.\<close>

lemma poll_attestation_returns:
  assumes "1 \<le> cctp_attestation_poll_interval s" "\<And>i. resp i \<noteq> PollRaises NoReturn"
  shows "poll_attestation s resp tx \<noteq> Inl NoReturn"
proof -
  have "poll_result (resp i) \<noteq> Some (Inl NoReturn)" for i
    using assms(2) [of i] by (cases "resp i" rule: poll_result.cases) (auto split: option.splits)
  then show ?thesis
    using poll_loop_find [OF assms(1), of "cctp_attestation_timeout s" 0 "nat (cctp_attestation_timeout s)" resp tx 0]
    by (auto simp: poll_attestation_def find_Some_iff split: option.splits)
qed

definition demo_bridge_settings :: bridge_settings where
  "demo_bridge_settings = \<lparr>cctp_attestation_api_url = [], beta_mode = False, chain_id = 8453,
     cctp_base_message_transmitter = [], relayer_base_private_key = ''key'', operator_private_key = [],
     relayer_solana_keypair = ''sol'', cctp_domain_arc = 26, cctp_base_domain = 6, cctp_solana_domain = 5,
     cctp_attestation_poll_interval = 3, cctp_attestation_timeout = 9, cctp_trade_max_retries = 3,
     arc_testnet_rpc = ''rpc'', arc_metavault_address = ''mv'', arc_message_transmitter = [],
     cctp_solana_usdc_mint = ''usdc''\<rparr>"

lemma bridge_gate_and_base_mint_witness:
  "(\<exists>r. receive_message_base_config demo_bridge_settings = Inr r) \<and> has_bridge_config demo_bridge_settings"
  using bridge_gate_and_base_mint [of demo_bridge_settings]
  by (simp add: has_bridge_config_def demo_bridge_settings_def)

definition complete_response :: poll_response where
  "complete_response = Messages [\<lparr>am_status = Some ''complete'', am_message = Some ''aa'', am_attestation = Some ''bb''\<rparr>]"

theorem poll_attestation_first_decisive_witness:
  "poll_attestation demo_bridge_settings (\<lambda>i. if i = 2 then complete_response else NotIndexed) ''t'' = Inr (''aa'', ''bb'')"
  using poll_attestation_first_decisive [of demo_bridge_settings
      "\<lambda>i. if i = 2 then complete_response else NotIndexed" "''t''"]
  by (simp add: demo_bridge_settings_def max_polls_def complete_response_def upt_conv_Cons)

end
