(* ===== verification/Solana_Trade.thy ===== *)
theory Solana_Trade
  imports Py_Monad
begin

text \<open>
  The co-signing of sponsored trades, \<open>src/bridge/solana_trade.py\<close>. Transactions are decoded,
  encoded, signed and verified by the Solana library, a parameter: \<open>decode_tx\<close> is
  \<open>VersionedTransaction.from_bytes(base64.b64decode(...))\<close>, \<open>encode_tx\<close> its inverse, \<open>operator_pk\<close>
  the configured operator or the error of loading it.
\<close>

record solana_message =
  account_keys :: "string list"
  num_required_signatures :: nat
  message_bytes :: "byte list"

record solana_tx =
  tx_message :: solana_message
  signatures :: "string list"

record solana_lib =
  decode_tx :: "string \<Rightarrow> solana_tx option"
  encode_tx :: "solana_tx \<Rightarrow> string"
  operator_pk :: "exn + string"
  sign_message :: "byte list \<Rightarrow> string"
  verify_with_results :: "solana_tx \<Rightarrow> bool list"

text \<open>\<open>xs.index(x)\<close> of a member.\<close>

fun index_of :: "'a \<Rightarrow> 'a list \<Rightarrow> nat" where
  "index_of x [] = 0"
| "index_of x (y # ys) = (if x = y then 0 else Suc (index_of x ys))"

definition cosign_sponsored_solana_trade_tx :: "solana_lib \<Rightarrow> string \<Rightarrow> exn + string" where
  "cosign_sponsored_solana_trade_tx lib s =
     (case decode_tx lib s of
        None \<Rightarrow> Inl (ValueError ''signed_trade_tx must be a base64 Solana transaction'')
      | Some tx \<Rightarrow>
          (case operator_pk lib of
             Inl e \<Rightarrow> Inl e
           | Inr operator_pubkey \<Rightarrow>
               (let keys = account_keys (tx_message tx);
                    required_signers = num_required_signatures (tx_message tx);
                    signer_keys = take required_signers keys
                in if keys = [] then Inl (ValueError ''signed_trade_tx has no account keys'')
                   else if keys ! 0 \<noteq> operator_pubkey then
                     Inl (ValueError (''Solana trade fee payer must be the operator hot wallet '' @
                       operator_pubkey @ '', got '' @ keys ! 0))
                   else if \<not> elem operator_pubkey signer_keys then
                     Inl (ValueError ''Solana operator fee payer must be a required signer'')
                   else if length (signatures tx) \<noteq> required_signers then
                     Inl (ValueError (''Solana trade signature count does not match required signers ('' @
                       nat_str (length (signatures tx)) @ '' != '' @ nat_str required_signers @ '')''))
                   else
                     (let sigs = (signatures tx)[index_of operator_pubkey signer_keys :=
                            sign_message lib (message_bytes (tx_message tx))];
                          cosigned = tx\<lparr>signatures := sigs\<rparr>
                      in if \<not> list_all id (verify_with_results lib cosigned) then
                           Inl (ValueError ''Solana trade transaction is missing required non-operator signatures'')
                         else Inr (encode_tx lib cosigned)))))"

text \<open>What an accepted transaction satisfies; the operator's signature is the first one.\<close>

lemma cosign_Inr:
  assumes "cosign_sponsored_solana_trade_tx lib s = Inr s'"
  obtains tx pk ks where "decode_tx lib s = Some tx" "operator_pk lib = Inr pk"
    "account_keys (tx_message tx) = pk # ks"
    "length (signatures tx) = num_required_signatures (tx_message tx)" "signatures tx \<noteq> []"
    "s' = encode_tx lib (tx\<lparr>signatures := sign_message lib (message_bytes (tx_message tx)) # tl (signatures tx)\<rparr>)"
    "list_all id (verify_with_results lib
       (tx\<lparr>signatures := sign_message lib (message_bytes (tx_message tx)) # tl (signatures tx)\<rparr>))"
proof -
  let ?pos = "\<lambda>tx pk. (signatures tx)[index_of pk (take (num_required_signatures (tx_message tx))
      (account_keys (tx_message tx))) := sign_message lib (message_bytes (tx_message tx))]"
  from assms obtain tx pk where tx: "decode_tx lib s = Some tx" "operator_pk lib = Inr pk"
    and k: "account_keys (tx_message tx) \<noteq> []" "account_keys (tx_message tx) ! 0 = pk"
    and m: "pk \<in> set (take (num_required_signatures (tx_message tx)) (account_keys (tx_message tx)))"
    and l: "length (signatures tx) = num_required_signatures (tx_message tx)"
    and r: "s' = encode_tx lib (tx\<lparr>signatures := ?pos tx pk\<rparr>)"
    and v: "list_all id (verify_with_results lib (tx\<lparr>signatures := ?pos tx pk\<rparr>))"
    by (auto simp: cosign_sponsored_solana_trade_tx_def Let_def split: option.splits sum.splits if_splits)
  from k obtain ks where ks: "account_keys (tx_message tx) = pk # ks"
    by (cases "account_keys (tx_message tx)") auto
  from m obtain n where n: "num_required_signatures (tx_message tx) = Suc n"
    by (cases "num_required_signatures (tx_message tx)") auto
  from l n obtain g gs where g: "signatures tx = g # gs" by (cases "signatures tx") auto
  have p: "?pos tx pk = sign_message lib (message_bytes (tx_message tx)) # tl (signatures tx)"
    by (simp add: ks n g)
  show thesis by (rule that [OF tx ks l]) (use g r v p in simp_all)
qed

text \<open>
  C35: what the operator signs. An accepted transaction names the operator as fee payer; the
  result differs from it in the first signature only, and all its signatures verify.
  Co-signing the result again, as the relayer does with the stored transaction, gives it back.
\<close>

theorem cosign_sound_and_idempotent:
  assumes "cosign_sponsored_solana_trade_tx lib s = Inr s'"
    and "\<And>tx. encode_tx lib tx = s' \<Longrightarrow> decode_tx lib s' = Some tx"
  shows "(\<exists>tx tx' pk. decode_tx lib s = Some tx \<and> decode_tx lib s' = Some tx' \<and> operator_pk lib = Inr pk \<and>
      account_keys (tx_message tx') \<noteq> [] \<and> hd (account_keys (tx_message tx')) = pk \<and>
      tx_message tx' = tx_message tx \<and> tl (signatures tx') = tl (signatures tx) \<and>
      length (signatures tx') = num_required_signatures (tx_message tx') \<and>
      list_all id (verify_with_results lib tx')) \<and>
    cosign_sponsored_solana_trade_tx lib s' = Inr s'"
  using assms(1)
proof (cases rule: cosign_Inr)
  case (1 tx pk ks)
  let ?sig = "sign_message lib (message_bytes (tx_message tx))"
  let ?tx' = "tx\<lparr>signatures := ?sig # tl (signatures tx)\<rparr>"
  have d: "decode_tx lib s' = Some ?tx'" using 1 assms(2) by simp
  obtain n where n: "num_required_signatures (tx_message tx) = Suc n" "length (tl (signatures tx)) = n"
    using 1 by (cases "signatures tx") auto
  have "cosign_sponsored_solana_trade_tx lib s' = Inr s'"
    using 1 d n by (simp add: cosign_sponsored_solana_trade_tx_def)
  with 1 d n show ?thesis by auto
qed

text \<open>A library with one transaction, before and after the operator signs.\<close>

definition demo_tx :: solana_tx where
  "demo_tx = \<lparr>tx_message = \<lparr>account_keys = [''op'', ''user''], num_required_signatures = 2,
     message_bytes = [1, 2]\<rparr>, signatures = [[], ''u'']\<rparr>"

definition demo_lib :: solana_lib where
  "demo_lib = \<lparr>decode_tx = (\<lambda>s. if s = ''user'' then Some demo_tx
       else if s = ''full'' then Some (demo_tx\<lparr>signatures := [''s'', ''u'']\<rparr>) else None),
     encode_tx = (\<lambda>tx. if tx = demo_tx\<lparr>signatures := [''s'', ''u'']\<rparr> then ''full'' else ''user''),
     operator_pk = Inr ''op'', sign_message = (\<lambda>_. ''s''),
     verify_with_results = (\<lambda>tx. map (\<lambda>g. g \<noteq> []) (signatures tx))\<rparr>"

theorem cosign_sound_and_idempotent_witness:
  "cosign_sponsored_solana_trade_tx demo_lib ''user'' = Inr ''full'' \<and>
   cosign_sponsored_solana_trade_tx demo_lib ''full'' = Inr ''full''"
proof -
  have c: "cosign_sponsored_solana_trade_tx demo_lib ''user'' = Inr ''full''"
    by (simp add: cosign_sponsored_solana_trade_tx_def demo_lib_def demo_tx_def)
  have "decode_tx demo_lib ''full'' = Some tx" if "encode_tx demo_lib tx = ''full''" for tx
    using that by (simp add: demo_lib_def split: if_splits)
  with c cosign_sound_and_idempotent [OF c] show ?thesis by simp
qed

end
