(* ===== verification/Bridge_World.thy ===== *)
theory Bridge_World
  imports Cctp Solana_Trade
begin

text \<open>
  Data shared by the bridge and the capital intents: the rows of \<open>bridge_jobs\<close>
  (\<open>src/bridge/models.py\<close>) and of \<open>capital_movement_intents\<close>
  (\<open>src/capital_intents/models.py\<close>), partial updates of such rows, and the world both services
  act on: the two tables, the settled option positions, the job queue and the history of
  external calls. Timestamps written by the code are left out; \<open>completed_at\<close> is kept as a flag.
  An insert fails on a duplicate key as the unique indices of \<open>supabase/migrations\<close> demand.
\<close>

section \<open>Bridge jobs\<close>

datatype bridge_state =
    PENDING | ATTESTING | MINTING | TRADING | COMPLETED | MINT_COMPLETED | FAILED
  | MINT_COMPLETED_TRADE_FAILED

fun bridge_state_value :: "bridge_state \<Rightarrow> string" where
  "bridge_state_value PENDING = ''pending''"
| "bridge_state_value ATTESTING = ''attesting''"
| "bridge_state_value MINTING = ''minting''"
| "bridge_state_value TRADING = ''trading''"
| "bridge_state_value COMPLETED = ''completed''"
| "bridge_state_value MINT_COMPLETED = ''mint_completed''"
| "bridge_state_value FAILED = ''failed''"
| "bridge_state_value MINT_COMPLETED_TRADE_FAILED = ''mint_completed_trade_failed''"

record bridge_job =
  bj_id :: string
  bj_user_id :: string
  bj_source_chain :: chain
  bj_dest_chain :: chain
  bj_status :: bridge_state
  burn_tx_hash :: string
  burn_amount :: string
  mint_recipient :: string
  bj_quote_id :: "string option"
  signed_trade_tx :: "string option"
  attestation_message :: "string option"
  attestation_signature :: "string option"
  mint_tx_hash :: "string option"
  trade_tx_hash :: "string option"
  bj_arc_receive_tx_hash :: "string option"
  bj_arc_finalize_tx_hash :: "string option"
  bj_gross_amount_usdc :: "string option"
  bj_circle_fee_usdc :: "string option"
  bj_net_amount_usdc :: "string option"
  bj_receiver :: "string option"
  error_message :: "string option"

text \<open>A partial update, the \<open>fields\<close> dictionary: a missing key is \<open>None\<close>.\<close>

record job_fields =
  f_status :: "bridge_state option"
  f_attestation_message :: "string option"
  f_attestation_signature :: "string option"
  f_mint_tx_hash :: "string option"
  f_trade_tx_hash :: "string option"
  f_arc_receive_tx_hash :: "string option"
  f_arc_finalize_tx_hash :: "string option"
  f_gross_amount_usdc :: "string option"
  f_circle_fee_usdc :: "string option"
  f_net_amount_usdc :: "string option"
  f_receiver :: "string option"
  f_error_message :: "string option option"

definition no_fields :: job_fields where
  "no_fields = \<lparr>f_status = None, f_attestation_message = None, f_attestation_signature = None,
     f_mint_tx_hash = None, f_trade_tx_hash = None, f_arc_receive_tx_hash = None,
     f_arc_finalize_tx_hash = None, f_gross_amount_usdc = None, f_circle_fee_usdc = None,
     f_net_amount_usdc = None, f_receiver = None, f_error_message = None\<rparr>"

definition set_key :: "'a option \<Rightarrow> 'a option \<Rightarrow> 'a option" where
  "set_key new old = (case new of None \<Rightarrow> old | Some v \<Rightarrow> Some v)"

definition set_val :: "'a option \<Rightarrow> 'a \<Rightarrow> 'a" where
  "set_val new old = (case new of None \<Rightarrow> old | Some v \<Rightarrow> v)"

lemma set_key_simps [simp]: "set_key None x = x" "set_key (Some v) x = Some v"
  by (simp_all add: set_key_def)

lemma set_val_simps [simp]: "set_val None y = y" "set_val (Some v) y = v"
  by (simp_all add: set_val_def)

definition apply_job_fields :: "job_fields \<Rightarrow> bridge_job \<Rightarrow> bridge_job" where
  "apply_job_fields f j = j\<lparr>
     bj_status := set_val (f_status f) (bj_status j),
     attestation_message := set_key (f_attestation_message f) (attestation_message j),
     attestation_signature := set_key (f_attestation_signature f) (attestation_signature j),
     mint_tx_hash := set_key (f_mint_tx_hash f) (mint_tx_hash j),
     trade_tx_hash := set_key (f_trade_tx_hash f) (trade_tx_hash j),
     bj_arc_receive_tx_hash := set_key (f_arc_receive_tx_hash f) (bj_arc_receive_tx_hash j),
     bj_arc_finalize_tx_hash := set_key (f_arc_finalize_tx_hash f) (bj_arc_finalize_tx_hash j),
     bj_gross_amount_usdc := set_key (f_gross_amount_usdc f) (bj_gross_amount_usdc j),
     bj_circle_fee_usdc := set_key (f_circle_fee_usdc f) (bj_circle_fee_usdc j),
     bj_net_amount_usdc := set_key (f_net_amount_usdc f) (bj_net_amount_usdc j),
     bj_receiver := set_key (f_receiver f) (bj_receiver j),
     error_message := set_val (f_error_message f) (error_message j)\<rparr>"

interpretation jobs: keyed_table bj_id apply_job_fields
  by unfold_locales (simp add: apply_job_fields_def)

section \<open>Capital movement intents\<close>

datatype intent_type = DEPOSIT | DEPLOYMENT | RETURN

datatype movement_reason =
  USER_DEPOSIT | INITIAL_DEPLOYMENT | ROTATION | RETURN_TO_ARC | RETURN_TO_IDLE | WITHDRAWAL

datatype intent_status =
    CI_PENDING | DEPOSIT_RECEIVED | BRIDGING | WAITING_TO_BE_DEPLOYED | DEPLOYMENT_IN_FLIGHT
  | DEPLOYED | PREMIUM_EARNED | ASSIGNED_ROTATING | RETURNING_TO_ARC | RETURNED_TO_USDC
  | CLAIMABLE | CI_COMPLETED | CI_FAILED | RETRYABLE

record capital_intent =
  ci_id :: string
  ci_intent_type :: intent_type
  ci_movement_reason :: movement_reason
  ci_bucket_id :: "string option"
  ci_receiver :: "string option"
  ci_source_chain :: chain
  ci_source_account :: "string option"
  ci_source_tx :: "string option"
  ci_destination_chain :: chain
  ci_destination_account :: "string option"
  ci_destination_tx :: "string option"
  ci_amount_usdc :: string
  ci_onchain_intent_id :: "string option"
  ci_status :: intent_status
  ci_bridge_job_id :: "string option"
  ci_idempotency_key :: "string option"
  ci_selected_chain :: "string option"
  ci_arc_receive_tx_hash :: "string option"
  ci_arc_finalize_tx_hash :: "string option"
  ci_gross_amount_usdc :: "string option"
  ci_circle_fee_usdc :: "string option"
  ci_net_amount_usdc :: "string option"
  ci_failure_reason :: "string option"
  ci_completed :: bool

record intent_fields =
  u_status :: "intent_status option"
  u_source_tx :: "string option"
  u_destination_tx :: "string option"
  u_bridge_job_id :: "string option"
  u_onchain_intent_id :: "string option"
  u_selected_chain :: "string option"
  u_arc_receive_tx_hash :: "string option"
  u_arc_finalize_tx_hash :: "string option"
  u_gross_amount_usdc :: "string option"
  u_circle_fee_usdc :: "string option"
  u_net_amount_usdc :: "string option"
  u_failure_reason :: "string option option"
  u_completed :: "bool option"

definition no_updates :: intent_fields where
  "no_updates = \<lparr>u_status = None, u_source_tx = None, u_destination_tx = None, u_bridge_job_id = None,
     u_onchain_intent_id = None, u_selected_chain = None, u_arc_receive_tx_hash = None,
     u_arc_finalize_tx_hash = None, u_gross_amount_usdc = None, u_circle_fee_usdc = None,
     u_net_amount_usdc = None, u_failure_reason = None, u_completed = None\<rparr>"

definition apply_intent_fields :: "intent_fields \<Rightarrow> capital_intent \<Rightarrow> capital_intent" where
  "apply_intent_fields u i = i\<lparr>
     ci_status := set_val (u_status u) (ci_status i),
     ci_source_tx := set_key (u_source_tx u) (ci_source_tx i),
     ci_destination_tx := set_key (u_destination_tx u) (ci_destination_tx i),
     ci_bridge_job_id := set_key (u_bridge_job_id u) (ci_bridge_job_id i),
     ci_onchain_intent_id := set_key (u_onchain_intent_id u) (ci_onchain_intent_id i),
     ci_selected_chain := set_key (u_selected_chain u) (ci_selected_chain i),
     ci_arc_receive_tx_hash := set_key (u_arc_receive_tx_hash u) (ci_arc_receive_tx_hash i),
     ci_arc_finalize_tx_hash := set_key (u_arc_finalize_tx_hash u) (ci_arc_finalize_tx_hash i),
     ci_gross_amount_usdc := set_key (u_gross_amount_usdc u) (ci_gross_amount_usdc i),
     ci_circle_fee_usdc := set_key (u_circle_fee_usdc u) (ci_circle_fee_usdc i),
     ci_net_amount_usdc := set_key (u_net_amount_usdc u) (ci_net_amount_usdc i),
     ci_failure_reason := set_val (u_failure_reason u) (ci_failure_reason i),
     ci_completed := set_val (u_completed u) (ci_completed i)\<rparr>"

interpretation intents: keyed_table ci_id apply_intent_fields
  by unfold_locales (simp add: apply_intent_fields_def)

text \<open>The columns of \<open>order_events\<close> that the reconciler reads.\<close>

record settled_event =
  se_tx_hash :: "string option"
  se_chain :: "string option"
  se_is_settled :: "bool option"
  se_settled_at :: "string option"
  se_settlement_tx_hash :: "string option"
  se_settlement_type :: "string option"
  se_is_itm :: "bool option"
  se_collateral :: "string option"
  se_user_address :: "string option"

section \<open>The world\<close>

datatype bridge_call =
    DbReadJob string
  | DbReadJobs
  | DbUpdateJob string
  | DbInsertJob
  | DbReadIntents
  | DbUpdateIntent string
  | DbInsertIntent
  | DbReadEvents
  | PollAttestation nat string
  | ReceiveMessage chain string string
  | FinalizeDeposit string string int
  | SubmitTrade chain string
  | Sleep int
  | SolanaAccountInfo string
  | CreateTokenAccount string string
  | SubmitBurn string
  | DbReadWallets
  | DbReadMembers
  | DbReadRotation

record bridge_world = "bridge_call hist" +
  bw_jobs :: "bridge_job list"
  bw_intents :: "capital_intent list"
  bw_events :: "settled_event list"
  bw_queue :: "string list"

text \<open>
  The environment: failures of calls, the responses of the attestation service to the polls of
  one loop, the hash or signature a transaction gets, the id the database gives a new row.
\<close>

record bridge_env =
  be_fails :: "bridge_call list \<Rightarrow> exn option"
  be_poll :: "bridge_call list \<Rightarrow> nat \<Rightarrow> poll_response"
  be_tx :: "bridge_call list \<Rightarrow> string"
  be_new_id :: "bridge_call list \<Rightarrow> string"
  be_settings :: bridge_settings
  be_app :: app_settings
  be_lib :: solana_lib

type_synonym 'a bpy = "(bridge_world, 'a) py"

abbreviation bcall :: "bridge_env \<Rightarrow> bridge_call \<Rightarrow> unit bpy" where
  "bcall env c \<equiv> perform (be_fails env) c"

text \<open>An external call that answers with a transaction hash.\<close>

definition tx_call :: "bridge_env \<Rightarrow> bridge_call \<Rightarrow> string bpy" where
  "tx_call env c = thenE (bcall env c) (getsE (\<lambda>w. be_tx env (calls w)))"

lemma wp_tx_call [wps]:
  "wp (tx_call env c) Q E w =
   (case be_fails env (c # calls w) of
      Some e \<Rightarrow> E e (w\<lparr>calls := c # calls w\<rparr>)
    | None \<Rightarrow> Q (be_tx env (c # calls w)) (w\<lparr>calls := c # calls w\<rparr>))"
  by (simp add: tx_call_def wps split: option.split)

definition set_jobs :: "(bridge_job list \<Rightarrow> bridge_job list) \<Rightarrow> unit bpy" where
  "set_jobs f = modifyE (\<lambda>w. w\<lparr>bw_jobs := f (bw_jobs w)\<rparr>)"

definition set_intents :: "(capital_intent list \<Rightarrow> capital_intent list) \<Rightarrow> unit bpy" where
  "set_intents f = modifyE (\<lambda>w. w\<lparr>bw_intents := f (bw_intents w)\<rparr>)"

lemma wp_set_jobs [wps]: "wp (set_jobs f) Q E w = Q () (w\<lparr>bw_jobs := f (bw_jobs w)\<rparr>)"
  by (simp add: set_jobs_def wps)

lemma wp_set_intents [wps]: "wp (set_intents f) Q E w = Q () (w\<lparr>bw_intents := f (bw_intents w)\<rparr>)"
  by (simp add: set_intents_def wps)

text \<open>\<open>enqueue_job\<close>.\<close>

definition enqueue_job :: "string \<Rightarrow> unit bpy" where
  "enqueue_job jid = modifyE (\<lambda>w. w\<lparr>bw_queue := bw_queue w @ [jid]\<rparr>)"

lemma wp_enqueue [wps]: "wp (enqueue_job jid) Q E w = Q () (w\<lparr>bw_queue := bw_queue w @ [jid]\<rparr>)"
  by (simp add: enqueue_job_def wps)

text \<open>
  Inserting a job: the database assigns the id and rejects a burn transaction or a quote that
  another job has; it answers with the id of the new row.
\<close>

definition job_conflict :: "bridge_job \<Rightarrow> bridge_job list \<Rightarrow> bool" where
  "job_conflict j rows = list_ex (\<lambda>r. bj_id r = bj_id j \<or> burn_tx_hash r = burn_tx_hash j \<or>
     (bj_quote_id j \<noteq> None \<and> bj_quote_id r = bj_quote_id j)) rows"

definition insert_job :: "bridge_env \<Rightarrow> (string \<Rightarrow> bridge_job) \<Rightarrow> string bpy" where
  "insert_job env mk =
     thenE (bcall env DbInsertJob)
     (bindE (getsE (\<lambda>w. (be_new_id env (calls w), bw_jobs w))) (\<lambda>(i, rows).
        if job_conflict (mk i) rows then raise (OtherError ''duplicate key value'')
        else thenE (set_jobs (\<lambda>rows. rows @ [mk i])) (ret i)))"

definition intent_conflict :: "capital_intent \<Rightarrow> capital_intent list \<Rightarrow> bool" where
  "intent_conflict i rows = list_ex (\<lambda>r. ci_id r = ci_id i \<or>
     (ci_idempotency_key i \<noteq> None \<and> ci_idempotency_key r = ci_idempotency_key i)) rows"

definition insert_intent :: "bridge_env \<Rightarrow> (string \<Rightarrow> capital_intent) \<Rightarrow> capital_intent bpy" where
  "insert_intent env mk =
     thenE (bcall env DbInsertIntent)
     (bindE (getsE (\<lambda>w. (be_new_id env (calls w), bw_intents w))) (\<lambda>(i, rows).
        if intent_conflict (mk i) rows then raise (OtherError ''duplicate key value'')
        else thenE (set_intents (\<lambda>rows. rows @ [mk i])) (ret (mk i))))"

text \<open>The uniqueness the indices keep.\<close>

definition unique_jobs :: "bridge_job list \<Rightarrow> bool" where
  "unique_jobs rows \<longleftrightarrow> distinct (map bj_id rows) \<and> distinct (map burn_tx_hash rows) \<and>
     distinct (map bj_quote_id (filter (\<lambda>r. bj_quote_id r \<noteq> None) rows))"

lemma unique_jobs_insert: "unique_jobs rows \<Longrightarrow> \<not> job_conflict j rows \<Longrightarrow> unique_jobs (rows @ [j])"
  by (auto simp: unique_jobs_def job_conflict_def list_ex_iff)

section \<open>Example values\<close>

definition demo_app :: app_settings where
  "demo_app = \<lparr>app_env = ''staging'', visible_assets = ''eth,btc,sol'', tradable_assets = None, tradable_chains = None,
     solana_bots_enabled = None, solana_circuit_breaker_bot_enabled = None, solana_event_indexer_enabled = None,
     solana_expiry_settler_enabled = None, solana_otoken_manager_enabled = None, solana_rpc_url = ''rpc'',
     solana_operator_keypair = ''k'', solana_batch_settler_program_id = ''p'', solana_otoken_factory_program_id = ''f'',
     solana_cluster = ''devnet''\<rparr>"

definition demo_intent :: capital_intent where
  "demo_intent = \<lparr>ci_id = ''i1'', ci_intent_type = DEPOSIT, ci_movement_reason = USER_DEPOSIT, ci_bucket_id = None,
     ci_receiver = Some ''r'', ci_source_chain = BASE, ci_source_account = None, ci_source_tx = None,
     ci_destination_chain = ARC, ci_destination_account = None, ci_destination_tx = None, ci_amount_usdc = ''100'',
     ci_onchain_intent_id = None, ci_status = BRIDGING, ci_bridge_job_id = Some ''j1'', ci_idempotency_key = None,
     ci_selected_chain = None, ci_arc_receive_tx_hash = None, ci_arc_finalize_tx_hash = None,
     ci_gross_amount_usdc = None, ci_circle_fee_usdc = None, ci_net_amount_usdc = None,
     ci_failure_reason = None, ci_completed = False\<rparr>"

definition demo_env :: bridge_env where
  "demo_env = \<lparr>be_fails = (\<lambda>_. None), be_poll = (\<lambda>_ _. complete_response), be_tx = (\<lambda>h. ''tx'' @ nat_str (length h)),
     be_new_id = (\<lambda>h. ''id'' @ nat_str (length h)), be_settings = demo_bridge_settings, be_app = demo_app,
     be_lib = demo_lib\<rparr>"

definition demo_job :: bridge_job where
  "demo_job = \<lparr>bj_id = ''j1'', bj_user_id = ''u1'', bj_source_chain = SOLANA, bj_dest_chain = BASE, bj_status = PENDING,
     burn_tx_hash = ''burn'', burn_amount = ''100'', mint_recipient = ''r'', bj_quote_id = None, signed_trade_tx = None,
     attestation_message = None, attestation_signature = None, mint_tx_hash = None, trade_tx_hash = None,
     bj_arc_receive_tx_hash = None, bj_arc_finalize_tx_hash = None, bj_gross_amount_usdc = None,
     bj_circle_fee_usdc = None, bj_net_amount_usdc = None, bj_receiver = None, error_message = None\<rparr>"

definition demo_world :: "bridge_job list \<Rightarrow> capital_intent list \<Rightarrow> bridge_world" where
  "demo_world js is = \<lparr>calls = [], bw_jobs = js, bw_intents = is, bw_events = [], bw_queue = []\<rparr>"

end
