(* ===== verification/Capital_Sync.thy ===== *)
theory Capital_Sync
  imports Bridge_World
begin

text \<open>
  \<open>src/capital_intents/sync.py\<close>: the state of a bridge job carried over to the capital
  movement intents linked to it.
\<close>

section \<open>The mapping of states\<close>

definition bridge_status_to_intent_status :: "bridge_state \<Rightarrow> intent_type \<Rightarrow> intent_status" where
  "bridge_status_to_intent_status s t =
     (if elem s [PENDING, ATTESTING, MINTING] then BRIDGING
      else if s = TRADING then DEPLOYMENT_IN_FLIGHT
      else if elem s [COMPLETED, MINT_COMPLETED] then
        (if t = DEPOSIT then WAITING_TO_BE_DEPLOYED
         else if t = RETURN then RETURNED_TO_USDC
         else DEPLOYED)
      else if s = MINT_COMPLETED_TRADE_FAILED then RETRYABLE
      else if s = FAILED then CI_FAILED
      else CI_PENDING)"

section \<open>The synchronisation\<close>

text \<open>The updates of one linked intent; \<open>b\<close> are the fields written to the job.\<close>

definition intent_updates :: "bridge_state \<Rightarrow> job_fields \<Rightarrow> capital_intent \<Rightarrow> intent_fields" where
  "intent_updates s b i =
     (let next_status = bridge_status_to_intent_status s (ci_intent_type i);
          u = no_updates;
          u = (if ci_status i \<noteq> next_status then u\<lparr>u_status := Some next_status\<rparr> else u);
          u = (if truthy (f_mint_tx_hash b) \<and> \<not> truthy (ci_destination_tx i)
               then u\<lparr>u_destination_tx := f_mint_tx_hash b\<rparr> else u);
          u = (if truthy (f_trade_tx_hash b) then u\<lparr>u_destination_tx := f_trade_tx_hash b\<rparr> else u);
          u = (if truthy (f_arc_receive_tx_hash b)
               then u\<lparr>u_arc_receive_tx_hash := f_arc_receive_tx_hash b\<rparr> else u);
          u = (if truthy (f_arc_finalize_tx_hash b)
               then u\<lparr>u_arc_finalize_tx_hash := f_arc_finalize_tx_hash b,
                      u_destination_tx := f_arc_finalize_tx_hash b\<rparr> else u);
          u = (if truthy (f_gross_amount_usdc b)
               then u\<lparr>u_gross_amount_usdc := f_gross_amount_usdc b\<rparr> else u);
          u = (if truthy (f_circle_fee_usdc b)
               then u\<lparr>u_circle_fee_usdc := f_circle_fee_usdc b\<rparr> else u);
          u = (if truthy (f_net_amount_usdc b)
               then u\<lparr>u_net_amount_usdc := f_net_amount_usdc b\<rparr> else u);
          u = (case f_error_message b of
                 Some (Some e) \<Rightarrow>
                   if e \<noteq> [] \<and> \<not> truthy (ci_failure_reason i)
                   then u\<lparr>u_failure_reason := Some (Some (take 500 e))\<rparr> else u
               | _ \<Rightarrow> u);
          u = (if elem next_status [WAITING_TO_BE_DEPLOYED, RETURNED_TO_USDC, DEPLOYED]
                  \<and> truthy (ci_failure_reason i)
               then u\<lparr>u_failure_reason := Some None\<rparr> else u)
      in u)"

definition update_intent :: "bridge_env \<Rightarrow> string \<Rightarrow> intent_fields \<Rightarrow> unit bpy" where
  "update_intent env iid u =
     thenE (bcall env (DbUpdateIntent iid))
       (set_intents (tbl_update (\<lambda>r. ci_id r = iid) (apply_intent_fields u)))"

definition sync_intent :: "bridge_env \<Rightarrow> bridge_state \<Rightarrow> job_fields \<Rightarrow> capital_intent \<Rightarrow> unit bpy" where
  "sync_intent env s b i =
     (let u = intent_updates s b i in
      whenE (u \<noteq> no_updates) (update_intent env (ci_id i) u))"

definition linked_intents :: "string \<Rightarrow> capital_intent list \<Rightarrow> capital_intent list" where
  "linked_intents jid rows = filter (\<lambda>i. ci_bridge_job_id i = Some jid) rows"

definition sync_capital_intents_for_bridge_job :: "bridge_env \<Rightarrow> string \<Rightarrow> job_fields \<Rightarrow> unit bpy" where
  "sync_capital_intents_for_bridge_job env jid b =
     (case f_status b of
        None \<Rightarrow> ret ()
      | Some s \<Rightarrow>
          thenE (bcall env DbReadIntents)
          (bindE (getsE (\<lambda>w. linked_intents jid (bw_intents w)))
             (for_each (sync_intent env s b))))"

section \<open>Its effect\<close>

lemma apply_no_updates [simp]: "apply_intent_fields no_updates i = i"
  by (simp add: apply_intent_fields_def no_updates_def)

definition sync_row :: "bridge_state \<Rightarrow> job_fields \<Rightarrow> capital_intent \<Rightarrow> capital_intent" where
  "sync_row s b i = apply_intent_fields (intent_updates s b i) i"

lemma sync_row_id [simp]: "ci_id (sync_row s b i) = ci_id i"
  by (simp add: sync_row_def intents.key_put)

lemma sync_row_link [simp]: "ci_bridge_job_id (sync_row s b i) = ci_bridge_job_id i"
  by (simp add: sync_row_def apply_intent_fields_def intent_updates_def Let_def no_updates_def
      split: option.split)

lemma sync_row_type [simp]: "ci_intent_type (sync_row s b i) = ci_intent_type i"
  by (simp add: sync_row_def apply_intent_fields_def)

lemma sync_row_status [simp]:
  "ci_status (sync_row s b i) = bridge_status_to_intent_status s (ci_intent_type i)"
  by (simp add: sync_row_def apply_intent_fields_def intent_updates_def Let_def no_updates_def
      split: option.split)

text \<open>One iteration, on a table whose keys are distinct and that still holds the row read.\<close>

definition sync_one :: "(capital_intent \<Rightarrow> capital_intent) \<Rightarrow> capital_intent \<Rightarrow> capital_intent list \<Rightarrow> capital_intent list" where
  "sync_one g i rows = map (\<lambda>r. if ci_id r = ci_id i then g r else r) rows"

lemma distinct_row:
  "distinct (map ci_id rows) \<Longrightarrow> i \<in> set rows \<Longrightarrow> r \<in> set rows \<Longrightarrow> ci_id r = ci_id i \<Longrightarrow> r = i"
  by (simp add: distinct_map inj_on_def)

lemma update_is_sync_one:
  assumes "distinct (map ci_id rows)" "i \<in> set rows"
  shows "tbl_update (\<lambda>r. ci_id r = ci_id i) (apply_intent_fields (intent_updates s b i)) rows =
    sync_one (sync_row s b) i rows"
  unfolding tbl_update_def sync_one_def using assms
  by (intro map_cong) (auto simp: sync_row_def dest: distinct_row)

lemma wp_sync_intent:
  assumes "distinct (map ci_id (bw_intents w))" "i \<in> set (bw_intents w)"
    and "\<And>w'. bw_intents w' = sync_one (sync_row s b) i (bw_intents w) \<Longrightarrow> bw_jobs w' = bw_jobs w \<Longrightarrow>
        bw_queue w' = bw_queue w \<Longrightarrow> Q w'"
  shows "wp (sync_intent env s b i) (\<lambda>_. Q) (\<lambda>_ _. True) w"
proof (cases "intent_updates s b i = no_updates")
  case True
  have "sync_one (sync_row s b) i (bw_intents w) = bw_intents w"
    using assms(1,2) update_is_sync_one [of "bw_intents w" i s b]
    by (simp add: True tbl_update_def cong: if_cong)
  then show ?thesis by (simp add: sync_intent_def Let_def wps True assms(3))
next
  case False
  then show ?thesis
    using update_is_sync_one [OF assms(1,2), of s b]
    by (auto simp: sync_intent_def Let_def wps update_intent_def intro!: assms(3) split: option.split)
qed

lemma sync_one_keys [simp]: "map ci_id (sync_one (sync_row s b) i rows) = map ci_id rows"
  by (simp add: sync_one_def)

lemma wp_sync_loop:
  assumes "distinct (map ci_id (bw_intents w))" "distinct (map ci_id is)" "set is \<subseteq> set (bw_intents w)"
    and "\<And>w'. bw_intents w' = map (\<lambda>r. if ci_id r \<in> ci_id ` set is then sync_row s b r else r) (bw_intents w) \<Longrightarrow>
        bw_jobs w' = bw_jobs w \<Longrightarrow> bw_queue w' = bw_queue w \<Longrightarrow> Q w'"
  shows "wp (for_each (sync_intent env s b) is) (\<lambda>_. Q) (\<lambda>_ _. True) w"
  using assms
proof (induction "is" arbitrary: w)
  case Nil
  then show ?case by (simp add: wps)
next
  case (Cons i xs)
  show ?case
    unfolding for_each_Cons wp_then
  proof (rule wp_sync_intent)
    fix w1 :: bridge_world assume w1: "bw_intents w1 = sync_one (sync_row s b) i (bw_intents w)"
      "bw_jobs w1 = bw_jobs w" "bw_queue w1 = bw_queue w"
    have sub: "set xs \<subseteq> set (bw_intents w1)"
      using Cons.prems(2,3) by (auto simp: w1 sync_one_def image_iff)
    show "wp (for_each (sync_intent env s b) xs) (\<lambda>_. Q) (\<lambda>_ _. True) w1"
    proof (rule Cons.IH)
      show "distinct (map ci_id (bw_intents w1))" "distinct (map ci_id xs)"
        using Cons.prems(1,2) by (simp_all add: w1)
      show "set xs \<subseteq> set (bw_intents w1)" by (rule sub)
      fix w2 :: bridge_world assume w2: "bw_intents w2 =
          map (\<lambda>r. if ci_id r \<in> ci_id ` set xs then sync_row s b r else r) (bw_intents w1)"
        "bw_jobs w2 = bw_jobs w1" "bw_queue w2 = bw_queue w1"
      have "bw_intents w2 =
          map (\<lambda>r. if ci_id r \<in> ci_id ` set (i # xs) then sync_row s b r else r) (bw_intents w)"
        using Cons.prems(2) by (auto simp: w2 w1 sync_one_def)
      then show "Q w2" using w1 w2 by (intro Cons.prems(4)) simp_all
    qed
  qed (use Cons.prems in auto)
qed

text \<open>
  C34: a synchronisation that completes rewrites exactly the linked intents. Each of them gets
  the state its bridge state maps to; every other intent, the jobs and the queue are untouched.
\<close>

theorem sync_exactly_linked:
  assumes "distinct (map ci_id (bw_intents w))" "f_status b = Some s"
    and "sync_capital_intents_for_bridge_job env jid b w = (Inr r, w')"
  shows "bw_intents w' = map (\<lambda>i. if ci_bridge_job_id i = Some jid then sync_row s b i else i) (bw_intents w) \<and>
    (\<forall>i \<in> set (bw_intents w'). ci_bridge_job_id i = Some jid \<longrightarrow>
       ci_status i = bridge_status_to_intent_status s (ci_intent_type i)) \<and>
    bw_jobs w' = bw_jobs w \<and> bw_queue w' = bw_queue w"
    (is "?P w' \<and> ?S w' \<and> ?R w'")
proof -
  let ?P = "\<lambda>w'. ?P w' \<and> ?R w'"
  have "wp (sync_capital_intents_for_bridge_job env jid b) (\<lambda>_. ?P) (\<lambda>_ _. True) w"
  proof -
    have loop: "wp (for_each (sync_intent env s b) (linked_intents jid (bw_intents w))) (\<lambda>_. ?P) (\<lambda>_ _. True)
        (w\<lparr>calls := DbReadIntents # calls w\<rparr>)"
    proof (rule wp_sync_loop)
      show "distinct (map ci_id (linked_intents jid (bw_intents w)))"
        using assms(1) by (simp add: linked_intents_def distinct_map_filter)
      fix w1 :: bridge_world assume w1: "bw_intents w1 = map (\<lambda>r. if ci_id r \<in> ci_id ` set (linked_intents jid (bw_intents w))
            then sync_row s b r else r) (bw_intents (w\<lparr>calls := DbReadIntents # calls w\<rparr>))"
        "bw_jobs w1 = bw_jobs (w\<lparr>calls := DbReadIntents # calls w\<rparr>)"
        "bw_queue w1 = bw_queue (w\<lparr>calls := DbReadIntents # calls w\<rparr>)"
      have "ci_id i \<in> ci_id ` set (linked_intents jid (bw_intents w)) \<longleftrightarrow> ci_bridge_job_id i = Some jid"
        if "i \<in> set (bw_intents w)" for i
        using that assms(1) by (auto simp: linked_intents_def dest: distinct_row)
      then show "?P w1" by (simp add: w1)
    qed (use assms(1) in \<open>auto simp: linked_intents_def\<close>)
    show ?thesis
      using loop by (auto simp: sync_capital_intents_for_bridge_job_def assms(2) wps split: option.split)
  qed
  with assms(3) show ?thesis by (auto simp: wp_def)
qed

text \<open>A world with two intents, one of them linked to the job that has just been minted.\<close>

definition sync_world :: bridge_world where
  "sync_world = demo_world [] [demo_intent, demo_intent\<lparr>ci_id := ''i2'', ci_bridge_job_id := None\<rparr>]"

theorem sync_exactly_linked_witness:
  "map ci_status (bw_intents (snd (sync_capital_intents_for_bridge_job demo_env ''j1''
      (no_fields\<lparr>f_status := Some MINT_COMPLETED\<rparr>) sync_world))) = [WAITING_TO_BE_DEPLOYED, BRIDGING]"
proof -
  let ?m = "sync_capital_intents_for_bridge_job demo_env ''j1'' (no_fields\<lparr>f_status := Some MINT_COMPLETED\<rparr>)"
  have "wp ?m (\<lambda>_ _. True) (\<lambda>_ _. False) sync_world"
    by (simp add: sync_capital_intents_for_bridge_job_def no_fields_def sync_world_def demo_world_def demo_env_def
        linked_intents_def demo_intent_def wps sync_intent_def update_intent_def Let_def)
  then obtain r w' where r: "?m sync_world = (Inr r, w')"
    by (auto simp: wp_def split: prod.splits sum.splits)
  have "distinct (map ci_id (bw_intents sync_world))" by (simp add: sync_world_def demo_world_def demo_intent_def)
  from sync_exactly_linked [OF this _ r, of MINT_COMPLETED]
  have "bw_intents w' = map (\<lambda>i. if ci_bridge_job_id i = Some ''j1''
      then sync_row MINT_COMPLETED (no_fields\<lparr>f_status := Some MINT_COMPLETED\<rparr>) i else i) (bw_intents sync_world)"
    by simp
  then have "map ci_status (bw_intents w') = [WAITING_TO_BE_DEPLOYED, BRIDGING]"
    by (simp add: sync_world_def demo_world_def demo_intent_def bridge_status_to_intent_status_def)
  with r show ?thesis by simp
qed

end
