(* ===== verification/Relayer.thy ===== *)
theory Relayer
  imports Capital_Sync
begin

text \<open>
  The job processor of the bridge, \<open>src/bridge/relayer.py\<close>: a job goes from pending through
  attesting, minting and trading to a final state. Writing and confirming a transaction
  (\<open>_sign_send_and_confirm\<close> and the Solana client) is one external call that may raise.
\<close>

section \<open>The job table\<close>

definition update_job :: "bridge_env \<Rightarrow> string \<Rightarrow> job_fields \<Rightarrow> unit bpy" where
  "update_job env jid f =
     thenE (bcall env (DbUpdateJob jid))
     (thenE (set_jobs (tbl_update (\<lambda>r. bj_id r = jid) (apply_job_fields f)))
     (catchE (sync_capital_intents_for_bridge_job env jid f) (\<lambda>_. ret ())))"

definition get_job :: "bridge_env \<Rightarrow> string \<Rightarrow> bridge_job option bpy" where
  "get_job env jid =
     thenE (bcall env (DbReadJob jid)) (getsE (\<lambda>w. tbl_get bj_id jid (bw_jobs w)))"

definition arc_finalize_tx :: "bridge_job \<Rightarrow> string option" where
  "arc_finalize_tx j = py_or (bj_arc_finalize_tx_hash j) (trade_tx_hash j)"

definition is_bytes32_hex :: "string option \<Rightarrow> bool" where
  "is_bytes32_hex v = (case v of
       None \<Rightarrow> False
     | Some s \<Rightarrow> s \<noteq> [] \<and> starts_with s ''0x'' \<and> length s = 66)"

definition get_linked_capital_intent :: "bridge_env \<Rightarrow> string \<Rightarrow> capital_intent option bpy" where
  "get_linked_capital_intent env jid =
     thenE (bcall env DbReadIntents)
     (getsE (\<lambda>w. case linked_intents jid (bw_intents w) of [] \<Rightarrow> None | i # _ \<Rightarrow> Some i))"

section \<open>Transactions\<close>

text \<open>\<open>bytes.fromhex(s[2:] if s.startswith("0x") else s)\<close>.\<close>

definition hex_arg :: "string \<Rightarrow> exn + byte list" where
  "hex_arg s = (case fromhex (strip_0x s) of
       None \<Rightarrow> Inl (ValueError ''non-hexadecimal number found in fromhex() arg'')
     | Some b \<Rightarrow> Inr b)"

definition receive_message_base :: "bridge_env \<Rightarrow> string \<Rightarrow> string \<Rightarrow> string bpy" where
  "receive_message_base env m a =
     thenE (liftE (receive_message_base_config (be_settings env)))
     (thenE (liftE (hex_arg m))
     (thenE (liftE (hex_arg a))
     (tx_call env (ReceiveMessage BASE m a))))"

definition receive_message_arc :: "bridge_env \<Rightarrow> string \<Rightarrow> string \<Rightarrow> string bpy" where
  "receive_message_arc env m a =
     thenE (liftE (receive_message_arc_config (be_settings env)))
     (thenE (liftE (hex_arg m))
     (thenE (liftE (hex_arg a))
     (tx_call env (ReceiveMessage ARC m a))))"

definition receive_message_solana :: "bridge_env \<Rightarrow> string \<Rightarrow> string \<Rightarrow> string bpy" where
  "receive_message_solana env m a =
     thenE (liftE (solana_relayer_config (be_settings env)))
     (thenE (liftE (hex_arg m))
     (thenE (liftE (hex_arg a))
     (tx_call env (ReceiveMessage SOLANA m a))))"

definition finalize_arc_metavault_deposit :: "bridge_env \<Rightarrow> string \<Rightarrow> string \<Rightarrow> int \<Rightarrow> string bpy" where
  "finalize_arc_metavault_deposit env intent_id receiver net_amount =
     thenE (liftE (finalize_arc_config (be_settings env)))
     (thenE (liftE (case fromhex (drop 2 intent_id) of
               None \<Rightarrow> Inl (ValueError ''non-hexadecimal number found in fromhex() arg'')
             | Some b \<Rightarrow> Inr b))
     (tx_call env (FinalizeDeposit intent_id receiver net_amount)))"

definition submit_trade_base :: "bridge_env \<Rightarrow> string \<Rightarrow> string bpy" where
  "submit_trade_base env tx =
     thenE (liftE (hex_arg tx)) (tx_call env (SubmitTrade BASE tx))"

definition submit_trade_solana :: "bridge_env \<Rightarrow> string \<Rightarrow> string bpy" where
  "submit_trade_solana env tx =
     bindE (liftE (cosign_sponsored_solana_trade_tx (be_lib env) tx)) (\<lambda>sponsored.
       tx_call env (SubmitTrade SOLANA sponsored))"

section \<open>Submitting the trade\<close>

text \<open>The rest of the retry loop: \<open>attempts\<close> are those still to make, \<open>last\<close> is \<open>last_exc\<close>.\<close>

fun submit_attempts :: "bridge_env \<Rightarrow> chain \<Rightarrow> string \<Rightarrow> int \<Rightarrow> int list \<Rightarrow> exn option \<Rightarrow> string bpy" where
  "submit_attempts env dest tx max_retries [] last_exc =
     raise (RuntimeError (''Trade failed after '' @ int_str max_retries @ '' attempts: '' @
       (case last_exc of None \<Rightarrow> ''None'' | Some e \<Rightarrow> exn_str e)))"
| "submit_attempts env dest tx max_retries (attempt # attempts) last_exc =
     bindE (tryE (if dest = BASE then submit_trade_base env tx
                  else if dest = SOLANA then submit_trade_solana env tx
                  else raise (ValueError (''Unknown dest chain: '' @ chain_value dest)))) (\<lambda>r.
       case r of
         Inr tx_hash \<Rightarrow> ret tx_hash
       | Inl e \<Rightarrow>
           thenE (whenE (attempt < max_retries) (bcall env (Sleep (min (5 * attempt) 30))))
             (submit_attempts env dest tx max_retries attempts (Some e)))"

definition submit_trade :: "bridge_env \<Rightarrow> chain \<Rightarrow> string \<Rightarrow> string bpy" where
  "submit_trade env dest tx =
     (let max_retries = cctp_trade_max_retries (be_settings env) in
      submit_attempts env dest tx max_retries [1..max_retries] None)"

section \<open>Arc deposits\<close>

definition finalized_fields :: "string option \<Rightarrow> job_fields" where
  "finalized_fields finalize_tx = no_fields\<lparr>f_status := Some MINT_COMPLETED,
     f_trade_tx_hash := finalize_tx, f_arc_finalize_tx_hash := finalize_tx, f_error_message := Some None\<rparr>"

text \<open>
  The first half: the receive transaction and the amounts, from the job or from the chain.
\<close>

definition arc_receive :: "bridge_env \<Rightarrow> string \<Rightarrow> bridge_job \<Rightarrow> bridge_state \<Rightarrow> string \<Rightarrow> string \<Rightarrow>
    (string option \<times> string option \<times> string option \<times> string option) bpy" where
  "arc_receive env jid job initial_status m a =
     (let mint_tx = mint_tx_hash job in
      if elem initial_status [PENDING, ATTESTING, MINTING] \<and> \<not> truthy mint_tx then
        bindE (liftE (parse_cctp_v2_burn_amounts m (Some (burn_amount job)))) (\<lambda>(gross, fee, net).
        bindE (receive_message_arc env m a) (\<lambda>mint_tx.
          let gross = int_str gross; fee = int_str fee; net = int_str net in
          thenE (update_job env jid (no_fields\<lparr>f_status := Some TRADING, f_mint_tx_hash := Some mint_tx,
              f_arc_receive_tx_hash := Some mint_tx, f_gross_amount_usdc := Some gross,
              f_circle_fee_usdc := Some fee, f_net_amount_usdc := Some net\<rparr>))
            (ret (Some mint_tx, Some gross, Some fee, Some net))))
      else if \<not> truthy mint_tx then
        raise (RuntimeError (''Job '' @ jid @ '' missing Arc receive tx for finalize retry''))
      else ret (mint_tx, bj_gross_amount_usdc job, bj_circle_fee_usdc job, bj_net_amount_usdc job))"

text \<open>The second half: finalising with the linked intent.\<close>

definition arc_finalize :: "bridge_env \<Rightarrow> string \<Rightarrow> bridge_job \<Rightarrow> string option \<Rightarrow> string option \<Rightarrow> string option \<Rightarrow>
    capital_intent option \<Rightarrow> unit bpy" where
  "arc_finalize env jid job gross fee net intent =
     (case intent of
        None \<Rightarrow> raise (RuntimeError (''Job '' @ jid @ '' has no linked capital movement intent''))
      | Some intent \<Rightarrow>
          (let receiver = py_or (ci_receiver intent) (bj_receiver job);
               onchain_intent_id = py_or (ci_onchain_intent_id intent) (ci_idempotency_key intent)
           in if \<not> truthy receiver then
                raise (RuntimeError (''Job '' @ jid @ '' linked intent is missing receiver''))
              else if \<not> is_bytes32_hex onchain_intent_id then
                raise (RuntimeError (''Job '' @ jid @ '' linked intent requires bytes32 onchain_intent_id''))
              else if \<not> truthy net then
                raise (RuntimeError (''Job '' @ jid @ '' missing net_amount_usdc for finalize''))
              else
                bindE (liftE (int_or_raise (the net))) (\<lambda>n.
                bindE (finalize_arc_metavault_deposit env (the onchain_intent_id) (the receiver) n) (\<lambda>finalize_tx.
                  update_job env jid ((finalized_fields (Some finalize_tx))\<lparr>
                    f_receiver := receiver,
                    f_net_amount_usdc := net,
                    f_circle_fee_usdc := py_or fee (Some ''0''),
                    f_gross_amount_usdc := py_or gross (Some (burn_amount job))\<rparr>)))))"

definition process_arc_deposit_job ::
  "bridge_env \<Rightarrow> string \<Rightarrow> bridge_job \<Rightarrow> bridge_state \<Rightarrow> string \<Rightarrow> string \<Rightarrow> unit bpy" where
  "process_arc_deposit_job env jid job initial_status m a =
     (if truthy (arc_finalize_tx job) then update_job env jid (finalized_fields (arc_finalize_tx job))
      else
        bindE (arc_receive env jid job initial_status m a) (\<lambda>(mint_tx, gross, fee, net).
        bindE (get_linked_capital_intent env jid) (arc_finalize env jid job gross fee net)))"

section \<open>The state machine\<close>

definition attest :: "bridge_env \<Rightarrow> string \<Rightarrow> bridge_job \<Rightarrow> (string \<times> string) bpy" where
  "attest env jid job =
     (if elem (bj_status job) [PENDING, ATTESTING] then
        thenE (update_job env jid (no_fields\<lparr>f_status := Some ATTESTING\<rparr>))
        (let source_domain = get_domain_for_chain (be_settings env) (bj_source_chain job) in
        thenE (bcall env (PollAttestation source_domain (burn_tx_hash job)))
        (bindE (getsE (\<lambda>w. be_poll env (calls w))) (\<lambda>resp.
         bindE (liftE (poll_attestation (be_settings env) resp (burn_tx_hash job))) (\<lambda>(m, a).
         thenE (update_job env jid (no_fields\<lparr>f_status := Some MINTING,
             f_attestation_message := Some m, f_attestation_signature := Some a\<rparr>))
           (ret (m, a))))))
      else if truthy (attestation_message job) \<and> truthy (attestation_signature job) then
        ret (the (attestation_message job), the (attestation_signature job))
      else raise (RuntimeError (''Job '' @ jid @ '' in state '' @ bridge_state_value (bj_status job) @
             '' but missing attestation data'')))"

definition mint :: "bridge_env \<Rightarrow> string \<Rightarrow> bridge_job \<Rightarrow> string \<Rightarrow> string \<Rightarrow> unit bpy" where
  "mint env jid job m a =
     whenE (elem (bj_status job) [PENDING, ATTESTING, MINTING])
       (bindE (if bj_dest_chain job = BASE then receive_message_base env m a
               else if bj_dest_chain job = SOLANA then receive_message_solana env m a
               else raise (ValueError (''Unknown dest chain: '' @ chain_value (bj_dest_chain job)))) (\<lambda>mint_tx.
          update_job env jid (no_fields\<lparr>f_status := Some TRADING, f_mint_tx_hash := Some mint_tx\<rparr>)))"

definition trade :: "bridge_env \<Rightarrow> string \<Rightarrow> bridge_job \<Rightarrow> unit bpy" where
  "trade env jid job =
     (if \<not> truthy (signed_trade_tx job) then
        update_job env jid (no_fields\<lparr>f_status := Some MINT_COMPLETED\<rparr>)
      else
        bindE (submit_trade env (bj_dest_chain job) (the (signed_trade_tx job))) (\<lambda>trade_tx.
          update_job env jid (no_fields\<lparr>f_status := Some COMPLETED, f_trade_tx_hash := Some trade_tx\<rparr>)))"

text \<open>The \<open>try\<close> block.\<close>

definition process_steps :: "bridge_env \<Rightarrow> string \<Rightarrow> bridge_job \<Rightarrow> unit bpy" where
  "process_steps env jid job =
     bindE (attest env jid job) (\<lambda>(m, a).
       if bj_dest_chain job = ARC then process_arc_deposit_job env jid job (bj_status job) m a
       else thenE (mint env jid job m a) (trade env jid job))"

text \<open>The handler.\<close>

definition process_failed :: "bridge_env \<Rightarrow> string \<Rightarrow> chain \<Rightarrow> exn \<Rightarrow> unit bpy" where
  "process_failed env jid dest e =
     bindE (get_job env jid) (\<lambda>current.
       case current of
         Some j \<Rightarrow>
           if dest = ARC \<and> truthy (arc_finalize_tx j) then
             catchE (update_job env jid (finalized_fields (arc_finalize_tx j))) (\<lambda>_. ret ())
           else
             (let fail_state = (if bj_status j = TRADING then MINT_COMPLETED_TRADE_FAILED else FAILED) in
              catchE (update_job env jid (no_fields\<lparr>f_status := Some fail_state,
                  f_error_message := Some (Some (take 500 (exn_str e)))\<rparr>)) (\<lambda>_. ret ()))
       | None \<Rightarrow>
           catchE (update_job env jid (no_fields\<lparr>f_status := Some FAILED,
               f_error_message := Some (Some (take 500 (exn_str e)))\<rparr>)) (\<lambda>_. ret ()))"

definition process_bridge_job :: "bridge_env \<Rightarrow> string \<Rightarrow> unit bpy" where
  "process_bridge_job env jid =
     bindE (get_job env jid) (\<lambda>job.
       case job of
         None \<Rightarrow> ret ()
       | Some job \<Rightarrow>
           if elem (bj_status job) [COMPLETED, MINT_COMPLETED] then ret ()
           else if bj_dest_chain job = ARC \<and> truthy (arc_finalize_tx job) then
             update_job env jid (finalized_fields (arc_finalize_tx job))
           else if starts_with (burn_tx_hash job) ''pending:'' then ret ()
           else catchE (process_steps env jid job) (process_failed env jid (bj_dest_chain job)))"

section \<open>The queue\<close>

text \<open>One turn of \<open>_worker\<close>: the first job of the queue, its unhandled errors swallowed.\<close>

definition worker_turn :: "bridge_env \<Rightarrow> unit bpy" where
  "worker_turn env =
     bindE (getsE bw_queue) (\<lambda>q. case q of
         [] \<Rightarrow> ret ()
       | jid # rest \<Rightarrow>
           thenE (modifyE (\<lambda>w. w\<lparr>bw_queue := rest\<rparr>))
             (catchE (process_bridge_job env jid) (\<lambda>_. ret ())))"

definition recover_incomplete_jobs :: "bridge_env \<Rightarrow> unit bpy" where
  "recover_incomplete_jobs env =
     thenE (bcall env DbReadJobs)
     (bindE (getsE (\<lambda>w. filter (\<lambda>j. \<not> elem (bj_status j)
          [COMPLETED, MINT_COMPLETED, FAILED, MINT_COMPLETED_TRADE_FAILED]) (bw_jobs w)))
       (for_each (\<lambda>j. enqueue_job (bj_id j))))"

section \<open>How often money is moved\<close>

declare One_nat_def [simp del]

fun is_receive :: "bridge_call \<Rightarrow> bool" where
  "is_receive (ReceiveMessage _ _ _) = True"
| "is_receive _ = False"

fun is_finalize :: "bridge_call \<Rightarrow> bool" where
  "is_finalize (FinalizeDeposit _ _ _) = True"
| "is_finalize _ = False"

fun is_trade :: "bridge_call \<Rightarrow> bool" where
  "is_trade (SubmitTrade _ _) = True"
| "is_trade _ = False"

definition is_send :: "bridge_call \<Rightarrow> bool" where
  "is_send c \<longleftrightarrow> is_receive c \<or> is_finalize c \<or> is_trade c"

lemma is_send_simps [simp]:
  "is_send (ReceiveMessage c m a)" "is_send (FinalizeDeposit i r n)" "is_send (SubmitTrade c t)"
  "\<not> is_send (DbReadJob j)" "\<not> is_send DbReadJobs" "\<not> is_send (DbUpdateJob j)" "\<not> is_send DbReadIntents"
  "\<not> is_send (DbUpdateIntent i)" "\<not> is_send (PollAttestation d t)" "\<not> is_send (Sleep n)"
  by (simp_all add: is_send_def)

text \<open>\<open>P\<close> is a kind of sending call: no database access, poll or sleep satisfies it.\<close>

definition sending :: "(bridge_call \<Rightarrow> bool) \<Rightarrow> bool" where
  "sending P \<longleftrightarrow> (\<forall>c. P c \<longrightarrow> is_send c)"

lemma sending_kinds [simp]: "sending is_receive" "sending is_finalize" "sending is_trade" "sending is_send"
  by (simp_all add: sending_def is_send_def)

lemma sendingD: "sending P \<Longrightarrow> \<not> is_send c \<Longrightarrow> \<not> P c"
  by (auto simp: sending_def)

lemma quiet_call: "sending P \<Longrightarrow> \<not> is_send c \<Longrightarrow> grows (quiet_le P) (bcall env c)"
  by (rule quiet_perform) (auto dest: sendingD)

lemma quiet_set_jobs: "grows (quiet_le P) (set_jobs f)"
  unfolding set_jobs_def by (rule quiet.grows_modify) (simp add: quiet_le_def)

lemma quiet_set_intents: "grows (quiet_le P) (set_intents f)"
  unfolding set_intents_def by (rule quiet.grows_modify) (simp add: quiet_le_def)

lemma quiet_sync:
  assumes "sending P"
  shows "grows (quiet_le P) (sync_capital_intents_for_bridge_job env jid f)"
  unfolding sync_capital_intents_for_bridge_job_def sync_intent_def update_intent_def
  by (intro quiet.rules quiet_call quiet_set_intents assms) simp_all

lemma quiet_update_job: "sending P \<Longrightarrow> grows (quiet_le P) (update_job env jid f)"
  unfolding update_job_def
  by (intro quiet.rules quiet_call quiet_set_jobs quiet_sync) simp_all

lemma quiet_get_job: "sending P \<Longrightarrow> grows (quiet_le P) (get_job env jid)"
  unfolding get_job_def by (intro quiet.rules quiet_call) simp_all

lemma quiet_get_intent: "sending P \<Longrightarrow> grows (quiet_le P) (get_linked_capital_intent env jid)"
  unfolding get_linked_capital_intent_def by (intro quiet.rules quiet_call) simp_all

lemma quiet_attest: "sending P \<Longrightarrow> grows (quiet_le P) (attest env jid job)"
  unfolding attest_def Let_def by (intro quiet.rules quiet_call quiet_update_job) simp_all

lemma quiet_failed: "sending P \<Longrightarrow> grows (quiet_le P) (process_failed env jid dest e)"
  unfolding process_failed_def Let_def by (intro quiet.rules quiet_update_job quiet_get_job)

lemma quiet_tx: "\<not> P c \<Longrightarrow> grows (quiet_le P) (tx_call env c)"
  unfolding tx_call_def by (intro quiet.rules quiet_perform)

lemma spends_tx: "spends P 1 (tx_call env c)"
proof -
  have "spends P (1 + 0) (tx_call env c)"
    unfolding tx_call_def by (intro spends_then spends_perform spends_quiet quiet.rules)
  then show ?thesis by simp
qed

lemmas submit_defs = submit_trade_base_def submit_trade_solana_def
lemmas receive_defs = receive_message_base_def receive_message_solana_def receive_message_arc_def

lemma quiet_submit_attempts:
  "sending P \<Longrightarrow> (\<And>d t. \<not> P (SubmitTrade d t)) \<Longrightarrow>
   grows (quiet_le P) (submit_attempts env dest tx mx as err)"
proof (induction "as" arbitrary: err)
  case (Cons a as)
  then show ?case
    unfolding submit_attempts.simps submit_defs
    by (intro quiet.rules quiet_call quiet_tx) simp_all
qed (simp add: quiet.grows_raise)

lemma spends_submit_attempts:
  assumes "sending P"
  shows "spends P (length as) (submit_attempts env dest tx mx as err)"
proof (induction "as" arbitrary: err)
  case Nil
  show ?case by (simp add: spends_quiet quiet.grows_raise)
next
  case (Cons a as)
  have "spends P 1 (submit_trade_base env tx)" "spends P 1 (submit_trade_solana env tx)"
    unfolding submit_defs
    by (rule spends_quiet_then spends_quiet_bind, rule quiet.grows_lift, rule spends_tx)+
  then have one: "spends P 1 (if dest = BASE then submit_trade_base env tx
      else if dest = SOLANA then submit_trade_solana env tx
      else raise (ValueError (''Unknown dest chain: '' @ chain_value dest)))" (is "spends P 1 ?m")
    by (simp add: spends_quiet quiet.grows_raise)
  have "spends P 1 (tryE ?m)" by (rule spends_try [OF one])
  then have "spends P (1 + length as) (submit_attempts env dest tx mx (a # as) err)"
    unfolding submit_attempts.simps
  proof (rule spends_bind)
    fix r :: "exn + string"
    have "spends P (length as) (thenE (whenE b (bcall env (Sleep n))) (submit_attempts env dest tx mx as err))"
      for b n err
      using assms Cons.IH by (intro spends_quiet_then quiet.grows_when quiet_call) simp_all
    then show "spends P (length as) (case r of
        Inl e \<Rightarrow> thenE (whenE (a < mx) (bcall env (Sleep (min (5 * a) 30)))) (submit_attempts env dest tx mx as (Some e))
      | Inr h \<Rightarrow> ret h)"
      by (simp add: spends_quiet quiet.grows_ret split: sum.split)
  qed
  then show ?case by (simp only: length_Cons plus_1_eq_Suc)
qed


lemma spends_receive:
  "spends P 1 (receive_message_base env m a)" "spends P 1 (receive_message_solana env m a)"
  "spends P 1 (receive_message_arc env m a)"
  unfolding receive_defs
  by (rule spends_quiet_then spends_tx quiet.grows_lift)+

lemma quiet_receive:
  assumes "\<And>c m a. \<not> P (ReceiveMessage c m a)"
  shows "grows (quiet_le P) (receive_message_base env m a)" "grows (quiet_le P) (receive_message_solana env m a)"
    "grows (quiet_le P) (receive_message_arc env m a)"
  unfolding receive_defs by (intro quiet.rules quiet_tx assms)+

lemma quiet_submit_trade: "sending P \<Longrightarrow> (\<And>d t. \<not> P (SubmitTrade d t)) \<Longrightarrow> grows (quiet_le P) (submit_trade env dest tx)"
  by (simp add: submit_trade_def quiet_submit_attempts Let_def)

lemma quiet_finalize: "(\<And>i r n. \<not> P (FinalizeDeposit i r n)) \<Longrightarrow> grows (quiet_le P) (finalize_arc_metavault_deposit env i r n)"
  unfolding finalize_arc_metavault_deposit_def by (intro quiet.rules quiet_tx)

lemma spends_finalize: "spends P 1 (finalize_arc_metavault_deposit env i r n)"
  unfolding finalize_arc_metavault_deposit_def by (rule spends_quiet_then spends_tx quiet.grows_lift)+

text \<open>The three parts of \<open>process_bridge_job\<close> that send, each against each kind of call.\<close>

lemma quiet_arc_receive:
  "sending P \<Longrightarrow> (\<And>c m a. \<not> P (ReceiveMessage c m a)) \<Longrightarrow> grows (quiet_le P) (arc_receive env jid job st m a)"
  unfolding arc_receive_def Let_def by (intro quiet.rules quiet_receive quiet_update_job)

lemma spends_arc_receive: "sending P \<Longrightarrow> spends P 1 (arc_receive env jid job st m a)"
  unfolding arc_receive_def Let_def
  by (auto intro!: spends_quiet_bind [OF quiet.grows_lift] spends_bind_quiet [OF spends_receive(3)]
      quiet.grows_then quiet.grows_ret quiet_update_job split: prod.split)
    (auto intro!: spends_quiet quiet.rules)

lemma spends_arc_finalize:
  assumes "sending P" "\<And>i r n. spends P l (finalize_arc_metavault_deposit env i r n)"
  shows "spends P l (arc_finalize env jid job gross fee net intent)"
  unfolding arc_finalize_def
  by (auto simp: Let_def quiet.grows_raise spends_quiet split: option.split
      intro!: spends_quiet_bind [OF quiet.grows_lift] spends_bind_quiet [OF assms(2)] quiet_update_job [OF assms(1)])

lemma process_arc_parts:
  assumes "sending P"
    and "\<And>jid job st m a. spends P k (arc_receive env jid job st m a)"
    and "\<And>i r n. spends P l (finalize_arc_metavault_deposit env i r n)"
  shows "spends P (k + l) (process_arc_deposit_job env jid job st m a)"
proof -
  show ?thesis
    unfolding process_arc_deposit_job_def
    by (auto simp: quiet_update_job [OF assms(1)] spends_quiet split: prod.split
        intro!: spends_bind [OF assms(2)] spends_quiet_bind [OF quiet_get_intent] spends_arc_finalize assms(1,3))
qed

lemma spends_mint: "sending P \<Longrightarrow> spends P 1 (mint env jid job m a)"
  unfolding mint_def whenE_def
  by (auto intro!: spends_bind_quiet spends_receive quiet_update_job spends_quiet [OF quiet.grows_ret]
      spends_quiet [OF quiet.grows_raise])

lemma quiet_mint:
  "sending P \<Longrightarrow> (\<And>c m a. \<not> P (ReceiveMessage c m a)) \<Longrightarrow> grows (quiet_le P) (mint env jid job m a)"
  unfolding mint_def by (intro quiet.rules quiet_receive quiet_update_job)

lemma quiet_trade:
  "sending P \<Longrightarrow> (\<And>d t. \<not> P (SubmitTrade d t)) \<Longrightarrow> grows (quiet_le P) (trade env jid job)"
  unfolding trade_def by (intro quiet.rules quiet_submit_trade quiet_update_job)

definition max_attempts :: "bridge_env \<Rightarrow> nat" where
  "max_attempts env = nat (cctp_trade_max_retries (be_settings env))"

lemma spends_trade: "sending P \<Longrightarrow> spends P (max_attempts env) (trade env jid job)"
  unfolding trade_def submit_trade_def max_attempts_def Let_def
  using spends_submit_attempts [of P "[1..cctp_trade_max_retries (be_settings env)]"]
  by (auto intro!: spends_bind_quiet quiet_update_job spends_quiet [OF quiet_update_job])

lemma process_parts:
  assumes "sending P" "\<And>jid job st m a. spends P k (process_arc_deposit_job env jid job st m a)"
    and "\<And>jid job m a. spends P k (thenE (mint env jid job m a) (trade env jid job))"
  shows "spends P k (process_bridge_job env jid)"
proof -
  note q = quiet_update_job [OF assms(1)] quiet_get_job [OF assms(1)] quiet_attest [OF assms(1)]
    quiet_failed [OF assms(1)] quiet.grows_ret
  show ?thesis
    unfolding process_bridge_job_def process_steps_def
    by (auto simp: q spends_quiet assms(2,3) split: option.split prod.split
        intro!: spends_quiet_bind [OF q(2)] spends_quiet_bind [OF q(3)] spends_catch_quiet)
qed

text \<open>
  C4: how often a job moves money in one run, whatever the database, the attestation service and
  the chains do: \<open>receiveMessage\<close> at most once, the Arc finalisation at most once, and the
  signed trade at most as often as the configured number of attempts.
\<close>

theorem sends_bounded:
  "length (filter is_receive (new_calls w (snd (process_bridge_job env jid w)))) \<le> 1 \<and>
   length (filter is_finalize (new_calls w (snd (process_bridge_job env jid w)))) \<le> 1 \<and>
   length (filter is_trade (new_calls w (snd (process_bridge_job env jid w)))) \<le>
     nat (cctp_trade_max_retries (be_settings env))"
proof -
  have "spends is_receive (1 + 0) (process_arc_deposit_job env jid job st m a)" for jid job st m a
    by (rule process_arc_parts) (simp_all add: spends_arc_receive quiet_finalize spends_quiet)
  then have "spends is_receive 1 (process_bridge_job env jid)"
    by (intro process_parts) (simp_all add: spends_then_quiet spends_mint quiet_trade)
  moreover have "spends is_finalize (0 + 1) (process_arc_deposit_job env jid job st m a)" for jid job st m a
    by (rule process_arc_parts) (simp_all add: spends_finalize quiet_arc_receive spends_quiet)
  then have "spends is_finalize 1 (process_bridge_job env jid)"
    by (intro process_parts) (simp_all add: spends_quiet quiet.grows_then quiet_mint quiet_trade)
  moreover have "spends is_trade (0 + 0) (process_arc_deposit_job env jid job st m a)" for jid job st m a
    by (rule process_arc_parts) (simp_all add: quiet_finalize quiet_arc_receive spends_quiet)
  then have "spends is_trade (max_attempts env) (process_bridge_job env jid)"
    by (intro process_parts) (simp_all add: spends_le [OF _ le0] spends_quiet_then quiet_mint spends_trade)
  ultimately show ?thesis by (simp add: spends_new_calls max_attempts_def)
qed

section \<open>Outcomes when the database answers\<close>

text \<open>
  A database that answers: reads and updates of jobs succeed, no call hangs, the poll interval is
  positive. The chains, the attestation service and the table of intents may still fail.
\<close>

definition db_answers :: "bridge_env \<Rightarrow> bool" where
  "db_answers env \<longleftrightarrow> 1 \<le> cctp_attestation_poll_interval (be_settings env) \<and>
     operator_pk (be_lib env) \<noteq> Inl NoReturn \<and>
     (\<forall>h. be_fails env h \<noteq> Some NoReturn) \<and> (\<forall>h i. be_poll env h i \<noteq> PollRaises NoReturn) \<and>
     (\<forall>j h. be_fails env (DbReadJob j # h) = None \<and> be_fails env (DbUpdateJob j # h) = None)"

lemma db_answersD [simp]:
  assumes "db_answers env"
  shows "be_fails env h \<noteq> Some NoReturn" "be_fails env (DbReadJob j # h) = None"
    "be_fails env (DbUpdateJob j # h) = None" "1 \<le> cctp_attestation_poll_interval (be_settings env)"
    "be_poll env h i \<noteq> PollRaises NoReturn" "operator_pk (be_lib env) \<noteq> Inl NoReturn"
  using assms unfolding db_answers_def by blast+

lemma poll_returns: "db_answers env \<Longrightarrow> poll_attestation (be_settings env) (be_poll env h) tx = Inl e \<Longrightarrow> e \<noteq> NoReturn"
  using poll_attestation_returns [of "be_settings env" "be_poll env h" tx] by auto

lemma cosign_returns:
  assumes "db_answers env" "cosign_sponsored_solana_trade_tx (be_lib env) tx = Inl e"
  shows "e \<noteq> NoReturn"
  using assms(2) db_answersD(6) [OF assms(1)]
  by (auto simp: cosign_sponsored_solana_trade_tx_def Let_def split: option.splits sum.splits if_splits)

lemma hex_arg_returns: "hex_arg s = Inl e \<Longrightarrow> e \<noteq> NoReturn"
  by (auto simp: hex_arg_def split: option.splits)

lemma fails_returns: "db_answers env \<Longrightarrow> be_fails env h = Some e \<Longrightarrow> e \<noteq> NoReturn"
  by (metis db_answersD(1))

text \<open>What the proofs look at: the row of the job and the sending calls.\<close>

definition job_row :: "string \<Rightarrow> bridge_world \<Rightarrow> bridge_job option" where
  "job_row jid w = tbl_get bj_id jid (bw_jobs w)"

definition sends :: "bridge_world \<Rightarrow> bridge_call list" where
  "sends w = filter is_send (calls w)"

definition same_view :: "bridge_world \<Rightarrow> bridge_world \<Rightarrow> bool" where
  "same_view w w' \<longleftrightarrow> bw_jobs w' = bw_jobs w \<and> sends w' = sends w"

lemma same_viewD: "same_view w w' \<Longrightarrow> job_row jid w' = job_row jid w \<and> sends w' = sends w"
  by (simp add: same_view_def job_row_def)

lemma same_view_call: "\<not> is_send c \<Longrightarrow> same_view w (w\<lparr>calls := c # calls w\<rparr>)"
  by (simp add: same_view_def sends_def)

lemma wp_sync_view:
  assumes "db_answers env"
  shows "wp (sync_capital_intents_for_bridge_job env jid f) (\<lambda>_. same_view w)
     (\<lambda>e w'. e \<noteq> NoReturn \<and> same_view w w') w"
proof -
  have step: "same_view w (w1\<lparr>calls := DbUpdateIntent i # calls w1\<rparr>)"
    "same_view w (w1\<lparr>calls := DbUpdateIntent i # calls w1, bw_intents := x\<rparr>)" if "same_view w w1" for w1 i x
    using that by (simp_all add: same_view_def sends_def)
  have one: "wp (sync_intent env s f i) (\<lambda>_. same_view w) (\<lambda>e w'. e \<noteq> NoReturn \<and> same_view w w') w1"
    if "same_view w w1" for s i w1
    using that assms
    by (auto simp: sync_intent_def Let_def wps update_intent_def fails_returns split: option.split
        intro: step)
  show ?thesis
    using assms
    by (auto simp: sync_capital_intents_for_bridge_job_def wps fails_returns split: option.split
        intro!: wp_for_each one same_view_call) (simp add: same_view_def)
qed

lemma wp_update_job:
  assumes "db_answers env"
    and "\<And>w1. job_row jid w1 = map_option (apply_job_fields f) (job_row jid w) \<Longrightarrow> sends w1 = sends w \<Longrightarrow> Q () w1"
  shows "wp (update_job env jid f) Q E w"
proof -
  let ?w1 = "w\<lparr>calls := DbUpdateJob jid # calls w,
     bw_jobs := tbl_update (\<lambda>r. bj_id r = jid) (apply_job_fields f) (bw_jobs w)\<rparr>"
  have v: "job_row jid ?w1 = map_option (apply_job_fields f) (job_row jid w)" "sends ?w1 = sends w"
    by (simp_all add: job_row_def jobs.get_update sends_def)
  have "wp (sync_capital_intents_for_bridge_job env jid f) Q
      (\<lambda>e w'. if e = NoReturn then E e w' else Q () w') ?w1"
    by (rule wp_mono [OF wp_sync_view [OF assms(1)]]) (use v in \<open>auto dest: same_viewD [of _ _ jid] intro!: assms(2)\<close>)
  then show ?thesis using assms(1) by (simp add: update_job_def wps split del: if_split cong: if_cong)
qed

lemma wp_get_job:
  assumes "db_answers env" and "\<And>w1. same_view w w1 \<Longrightarrow> Q (job_row jid w1) w1"
  shows "wp (get_job env jid) Q E w"
  using assms(1) assms(2) [OF same_view_call, of "DbReadJob jid"] by (simp add: get_job_def wps job_row_def)

lemma wp_send:
  assumes "db_answers env" "is_send c"
    and "\<And>t w1. job_row jid w1 = job_row jid w \<Longrightarrow> sends w1 = c # sends w \<Longrightarrow> Q t w1"
    and "\<And>e w1. e \<noteq> NoReturn \<Longrightarrow> job_row jid w1 = job_row jid w \<Longrightarrow> sends w1 = c # sends w \<Longrightarrow> E e w1"
  shows "wp (tx_call env c) Q E w"
  using assms by (auto simp: wp_tx_call fails_returns job_row_def sends_def split: option.split)


text \<open>Attesting: nothing is sent and no transaction is recorded.\<close>

definition attested :: "bridge_job \<Rightarrow> bridge_job \<Rightarrow> bool" where
  "attested job j \<longleftrightarrow> (bj_status j = TRADING \<longleftrightarrow> bj_status job = TRADING) \<and>
     mint_tx_hash j = mint_tx_hash job \<and> arc_finalize_tx j = arc_finalize_tx job"

lemma attested_refl: "attested job job"
  by (simp add: attested_def)

lemma attested_fields:
  "bj_status job \<noteq> TRADING \<Longrightarrow> s \<noteq> TRADING \<Longrightarrow>
   attested job (apply_job_fields (no_fields\<lparr>f_status := Some s\<rparr>) job)"
  "bj_status job \<noteq> TRADING \<Longrightarrow> s \<noteq> TRADING \<Longrightarrow>
   attested job (apply_job_fields (no_fields\<lparr>f_status := Some s, f_attestation_message := Some m,
      f_attestation_signature := Some a\<rparr>) (apply_job_fields (no_fields\<lparr>f_status := Some s'\<rparr>) job))"
  by (simp_all add: attested_def apply_job_fields_def no_fields_def arc_finalize_tx_def)

lemma wp_attest:
  assumes env: "db_answers env" and row: "job_row jid w = Some job"
    and Q: "\<And>x w1 j. job_row jid w1 = Some j \<Longrightarrow> sends w1 = sends w \<Longrightarrow> attested job j \<Longrightarrow> Q x w1"
    and E: "\<And>e w1 j. e \<noteq> NoReturn \<Longrightarrow> job_row jid w1 = Some j \<Longrightarrow> sends w1 = sends w \<Longrightarrow> attested job j \<Longrightarrow> E e w1"
  shows "wp (attest env jid job) Q E w"
proof (cases "bj_status job \<in> {PENDING, ATTESTING}")
  case True
  then have nt: "bj_status job \<noteq> TRADING" by auto
  let ?j1 = "apply_job_fields (no_fields\<lparr>f_status := Some ATTESTING\<rparr>) job"
  have "wp (update_job env jid (no_fields\<lparr>f_status := Some ATTESTING\<rparr>)) (\<lambda>_. wp (
      thenE (bcall env (PollAttestation (get_domain_for_chain (be_settings env) (bj_source_chain job)) (burn_tx_hash job)))
        (bindE (getsE (\<lambda>w. be_poll env (calls w))) (\<lambda>resp.
         bindE (liftE (poll_attestation (be_settings env) resp (burn_tx_hash job))) (\<lambda>(m, a).
         thenE (update_job env jid (no_fields\<lparr>f_status := Some MINTING,
             f_attestation_message := Some m, f_attestation_signature := Some a\<rparr>))
           (ret (m, a)))))) Q E) E w"
  proof (rule wp_update_job [OF env])
    fix w1 assume w1: "job_row jid w1 = map_option (apply_job_fields (no_fields\<lparr>f_status := Some ATTESTING\<rparr>)) (job_row jid w)"
      "sends w1 = sends w"
    let ?w2 = "\<lambda>c. w1\<lparr>calls := c # calls w1\<rparr>"
    have v: "job_row jid (?w2 c) = Some ?j1" "\<not> is_send c \<Longrightarrow> sends (?w2 c) = sends w" for c
      using w1 row by (simp_all add: job_row_def sends_def)
    have e: "E e (?w2 (PollAttestation d t))" if "e \<noteq> NoReturn" for e d t
      using that v nt by (intro E) (auto intro: attested_fields)
    have u: "wp (update_job env jid (no_fields\<lparr>f_status := Some MINTING, f_attestation_message := Some m,
        f_attestation_signature := Some a\<rparr>)) (\<lambda>_. Q (m, a)) E (?w2 (PollAttestation d t))" for m a d t
      by (rule wp_update_job [OF env]) (use v nt in \<open>auto intro!: Q attested_fields\<close>)
    show "wp (thenE (bcall env (PollAttestation (get_domain_for_chain (be_settings env) (bj_source_chain job)) (burn_tx_hash job)))
        (bindE (getsE (\<lambda>w. be_poll env (calls w))) (\<lambda>resp.
         bindE (liftE (poll_attestation (be_settings env) resp (burn_tx_hash job))) (\<lambda>(m, a).
         thenE (update_job env jid (no_fields\<lparr>f_status := Some MINTING,
             f_attestation_message := Some m, f_attestation_signature := Some a\<rparr>))
           (ret (m, a)))))) Q E w1"
      using env e u by (auto simp: wps fails_returns poll_returns split: option.split sum.split)
  qed
  with True show ?thesis by (simp add: attest_def Let_def wp_then)
next
  case False
  then show ?thesis
    using Q [OF row refl attested_refl] E [OF _ row refl attested_refl] by (simp add: attest_def wps)
qed


text \<open>
  What is known after the mint (\<open>minted\<close>), when the \<open>try\<close> block fails (\<open>stuck\<close>) and when it
  completes (\<open>finished\<close>): \<open>job\<close> is the row at the start, \<open>j\<close> the row now and \<open>ms\<close> the sending
  calls made since, latest first.
\<close>

definition minted :: "bridge_job \<Rightarrow> bridge_job \<Rightarrow> bridge_call list \<Rightarrow> bool" where
  "minted job j ms \<longleftrightarrow> (if bj_status job = TRADING then \<not> list_ex is_receive ms
     else mint_tx_hash j \<noteq> None \<and>
       (\<exists>m a ss. ms = ss @ [ReceiveMessage (bj_dest_chain job) m a] \<and> \<not> list_ex is_receive ss))"

definition stuck :: "bridge_job \<Rightarrow> bridge_job \<Rightarrow> bridge_call list \<Rightarrow> bool" where
  "stuck job j ms \<longleftrightarrow> (bj_dest_chain job = ARC \<longrightarrow> \<not> truthy (arc_finalize_tx j)) \<and>
     (if bj_status j = TRADING then minted job j ms
      else bj_status job \<noteq> TRADING \<and> list_all is_receive ms)"

definition finished :: "bridge_job \<Rightarrow> bridge_job \<Rightarrow> bridge_call list \<Rightarrow> bool" where
  "finished job j ms \<longleftrightarrow> bj_status j \<in> {COMPLETED, MINT_COMPLETED} \<and> minted job j ms"

definition since :: "(bridge_job \<Rightarrow> bridge_call list \<Rightarrow> bool) \<Rightarrow> string \<Rightarrow> bridge_world \<Rightarrow> bridge_world \<Rightarrow> bool" where
  "since P jid w0 w \<longleftrightarrow> (\<exists>j ms. job_row jid w = Some j \<and> sends w = ms @ sends w0 \<and> P j ms)"

lemma sinceI: "job_row jid w = Some j \<Longrightarrow> sends w = ms @ sends w0 \<Longrightarrow> P j ms \<Longrightarrow> since P jid w0 w"
  by (auto simp: since_def)

lemma minted_append:
  "minted job j ms \<Longrightarrow> \<not> list_ex is_receive ss \<Longrightarrow> mint_tx_hash j' = mint_tx_hash j \<Longrightarrow> minted job j' (ss @ ms)"
  unfolding minted_def
  by (auto split: if_splits)

lemmas minted_same = minted_append [where ss = "[]", simplified]

lemma wp_submit_attempts:
  assumes "db_answers env"
  shows "wp (submit_attempts env dest tx mx as err)
     (\<lambda>_ w1. job_row jid w1 = job_row jid w \<and> (\<exists>ss. sends w1 = ss @ sends w \<and> list_all is_trade ss))
     (\<lambda>e w1. e \<noteq> NoReturn \<and> job_row jid w1 = job_row jid w \<and> (\<exists>ss. sends w1 = ss @ sends w \<and> list_all is_trade ss)) w"
    (is "wp _ (\<lambda>_. ?V w) (\<lambda>e w1. e \<noteq> NoReturn \<and> ?V w w1) w")
proof (induction "as" arbitrary: err w)
  case Nil
  show ?case by (simp add: wps)
next
  case (Cons a as)
  have view: "wp m (\<lambda>_. ?V w) (\<lambda>e w1. e \<noteq> NoReturn \<and> ?V w w1) w1" if "?V w w1"
    "wp m (\<lambda>_. ?V w1) (\<lambda>e w2. e \<noteq> NoReturn \<and> ?V w1 w2) w1" for m :: "string bpy" and w1
    using that(2) by (rule wp_mono) (use that(1) in auto)
  have call: "?V w1 (w1\<lparr>calls := c # calls w1\<rparr>)" if "is_trade c \<or> \<not> is_send c" for w1 c
    using that by (auto simp: job_row_def sends_def is_send_def)
  have tx: "wp (tx_call env (SubmitTrade c t)) (\<lambda>_. ?V w) (\<lambda>e w1. e \<noteq> NoReturn \<and> ?V w w1) w" for c t
    using call [of "SubmitTrade c t" w] assms by (auto simp: wps fails_returns split: option.split)
  have once: "wp (if dest = BASE then submit_trade_base env tx
      else if dest = SOLANA then submit_trade_solana env tx
      else raise (ValueError (''Unknown dest chain: '' @ chain_value dest)))
      (\<lambda>_. ?V w) (\<lambda>e w1. e \<noteq> NoReturn \<and> ?V w w1) w"
    using cosign_returns [OF assms] hex_arg_returns
    by (auto simp: submit_defs wp_then wp_bind wp_lift wp_raise tx split: sum.split)
  have rest: "wp (thenE (whenE b (bcall env (Sleep n))) (submit_attempts env dest tx mx as err))
      (\<lambda>_. ?V w) (\<lambda>e w1. e \<noteq> NoReturn \<and> ?V w w1) w1" if "?V w w1" for b n err w1
  proof -
    have "?V w (w1\<lparr>calls := Sleep n # calls w1\<rparr>)" using that call [of "Sleep n" w1] by auto
    then show ?thesis
      using that assms view [OF _ Cons.IH]
      by (auto simp: wps fails_returns split: option.split)
  qed
  show ?case
    unfolding submit_attempts.simps wp_bind wp_try
    by (rule wp_mono [OF once]) (use rest in \<open>auto simp: wp_ret split: sum.split\<close>)
qed


text \<open>\<open>receiveMessage\<close> on a chain: refused before sending, or one sending call.\<close>

lemma wp_receive_on:
  assumes env: "db_answers env"
    and Q: "\<And>t w1. job_row jid w1 = job_row jid w \<Longrightarrow> sends w1 = ReceiveMessage c m a # sends w \<Longrightarrow> Q t w1"
    and E: "\<And>e w1. e \<noteq> NoReturn \<Longrightarrow> job_row jid w1 = job_row jid w \<Longrightarrow>
        sends w1 = sends w \<or> sends w1 = ReceiveMessage c m a # sends w \<Longrightarrow> E e w1"
  shows "wp (thenE (liftE (hex_arg m)) (thenE (liftE (hex_arg a)) (tx_call env (ReceiveMessage c m a)))) Q E w"
proof -
  have "wp (tx_call env (ReceiveMessage c m a)) Q E w"
    by (rule wp_send [where jid = jid, OF env]) (auto intro: Q E)
  then show ?thesis
    using E [of _ w] by (auto simp: wp_then wp_lift hex_arg_returns split: sum.split)
qed

lemma configs_return:
  "receive_message_base_config s = Inl e \<Longrightarrow> e \<noteq> NoReturn" "receive_message_arc_config s = Inl e \<Longrightarrow> e \<noteq> NoReturn"
  "solana_relayer_config s = Inl e \<Longrightarrow> e \<noteq> NoReturn" "finalize_arc_config s = Inl e \<Longrightarrow> e \<noteq> NoReturn"
  by (auto simp: receive_message_base_config_def receive_message_arc_config_def solana_relayer_config_def
      finalize_arc_config_def evm_relayer_key_def Let_def split: if_splits)

lemma wp_receive:
  assumes env: "db_answers env"
    and Q: "\<And>t w1. job_row jid w1 = job_row jid w \<Longrightarrow> sends w1 = ReceiveMessage c m a # sends w \<Longrightarrow> Q t w1"
    and E: "\<And>e w1. e \<noteq> NoReturn \<Longrightarrow> job_row jid w1 = job_row jid w \<Longrightarrow>
        sends w1 = sends w \<or> sends w1 = ReceiveMessage c m a # sends w \<Longrightarrow> E e w1"
  shows "c = BASE \<Longrightarrow> wp (receive_message_base env m a) Q E w"
    "c = SOLANA \<Longrightarrow> wp (receive_message_solana env m a) Q E w"
    "c = ARC \<Longrightarrow> wp (receive_message_arc env m a) Q E w"
proof -
  have r: "wp (thenE (liftE (hex_arg m)) (thenE (liftE (hex_arg a)) (tx_call env (ReceiveMessage c m a)))) Q E w"
    by (rule wp_receive_on [OF env Q E])
  have e: "E e w" if "e \<noteq> NoReturn" for e using that by (rule E) auto
  show "c = BASE \<Longrightarrow> wp (receive_message_base env m a) Q E w"
    "c = SOLANA \<Longrightarrow> wp (receive_message_solana env m a) Q E w"
    "c = ARC \<Longrightarrow> wp (receive_message_arc env m a) Q E w"
    using r e configs_return
    by (auto simp: receive_defs wp_then [of "liftE (receive_message_base_config _)"]
        wp_then [of "liftE (receive_message_arc_config _)"] wp_then [of "liftE (solana_relayer_config _)"]
        wp_lift [of "receive_message_base_config _"] wp_lift [of "receive_message_arc_config _"]
        wp_lift [of "solana_relayer_config _"] split: sum.split)
qed

lemma wp_mint:
  assumes env: "db_answers env" and job: "bj_status job \<in> {PENDING, ATTESTING, MINTING, TRADING}"
    and dest: "bj_dest_chain job \<noteq> ARC"
    and row: "job_row jid w = Some j" "attested job j" "sends w = sends w0"
  shows "wp (mint env jid job m a) (\<lambda>_. since (\<lambda>j ms. bj_status j = TRADING \<and> minted job j ms) jid w0)
     (\<lambda>e w1. e \<noteq> NoReturn \<and> since (stuck job) jid w0 w1) w"
    (is "wp _ (\<lambda>_. ?Q) ?E w")
proof (cases "bj_status job = TRADING")
  case True
  then show ?thesis
    using row by (simp add: mint_def wps since_def attested_def minted_def)
next
  case False
  let ?c = "bj_dest_chain job"
  let ?f = "\<lambda>t. no_fields\<lparr>f_status := Some TRADING, f_mint_tx_hash := Some t\<rparr>"
  have c: "?c = BASE \<or> ?c = SOLANA" using dest by (cases ?c) auto
  have e: "?E e w1" if "e \<noteq> NoReturn" "job_row jid w1 = job_row jid w"
    "sends w1 = sends w \<or> sends w1 = ReceiveMessage ?c m a # sends w" for e w1
    using that row dest False
    by (auto simp: attested_def stuck_def intro: sinceI [of _ _ _ "[]"] sinceI [of _ _ _ "[ReceiveMessage ?c m a]"])
  have u: "wp (update_job env jid (?f t)) (\<lambda>_. ?Q) ?E w1"
    if "job_row jid w1 = job_row jid w" "sends w1 = ReceiveMessage ?c m a # sends w" for t w1
  proof (rule wp_update_job [OF env])
    fix w2 assume "job_row jid w2 = map_option (apply_job_fields (?f t)) (job_row jid w1)" "sends w2 = sends w1"
    with that row False show "?Q w2"
      by (intro sinceI [of _ _ "apply_job_fields (?f t) j" "[ReceiveMessage ?c m a]"])
        (auto simp: apply_job_fields_def no_fields_def minted_def)
  qed
  let ?next = "\<lambda>t. wp (update_job env jid (?f t)) (\<lambda>_. ?Q) ?E"
  have b: "wp (receive_message_base env m a) ?next ?E w" if "?c = BASE"
    by (rule wp_receive(1) [OF env, where jid = jid and c = ?c]; (rule u e that; assumption)?)
  have s: "wp (receive_message_solana env m a) ?next ?E w" if "?c = SOLANA"
    by (rule wp_receive(2) [OF env, where jid = jid and c = ?c]; (rule u e that; assumption)?)
  show ?thesis
    using c job False b s by (auto simp: mint_def wp_when wp_bind)
qed

lemma wp_trade:
  assumes env: "db_answers env" and dest: "bj_dest_chain job \<noteq> ARC"
    and row: "job_row jid w = Some j" "bj_status j = TRADING" "sends w = ms @ sends w0" "minted job j ms"
  shows "wp (trade env jid job) (\<lambda>_. since (finished job) jid w0)
     (\<lambda>e w1. e \<noteq> NoReturn \<and> since (stuck job) jid w0 w1) w"
    (is "wp _ (\<lambda>_. ?Q) ?E w")
proof -
  have nr: "\<not> list_ex is_receive ss" if "list_all is_trade ss" for ss
    using that by (induction ss) (auto elim: is_trade.elims)
  have u: "wp (update_job env jid f) (\<lambda>_. ?Q) E w1"
    if "job_row jid w1 = job_row jid w" "sends w1 = ss @ sends w" "list_all is_trade ss"
      "f_status f = Some s" "s \<in> {COMPLETED, MINT_COMPLETED}" "f_mint_tx_hash f = None" for f s ss w1 E
  proof (rule wp_update_job [OF env])
    fix w2 assume "job_row jid w2 = map_option (apply_job_fields f) (job_row jid w1)" "sends w2 = sends w1"
    with that row nr show "?Q w2"
      by (intro sinceI [of _ _ "apply_job_fields f j" "ss @ ms"])
        (auto simp: apply_job_fields_def finished_def intro: minted_append)
  qed
  show ?thesis
  proof (cases "truthy (signed_trade_tx job)")
    case True
    have "wp (submit_trade env (bj_dest_chain job) (the (signed_trade_tx job)))
        (\<lambda>t. wp (update_job env jid (no_fields\<lparr>f_status := Some COMPLETED, f_trade_tx_hash := Some t\<rparr>)) (\<lambda>_. ?Q) ?E) ?E w"
      unfolding submit_trade_def Let_def
    proof (rule wp_mono [OF wp_submit_attempts [OF env, of _ _ _ _ _ jid]], goal_cases)
      case (1 t w1)
      then obtain ss where "job_row jid w1 = job_row jid w" "sends w1 = ss @ sends w" "list_all is_trade ss" by auto
      then show ?case by (rule u [where s = COMPLETED]) (simp_all add: no_fields_def)
    next
      case (2 e w1)
      then obtain ss where ss: "sends w1 = ss @ sends w" "list_all is_trade ss" by auto
      with 2 row nr dest have "since (stuck job) jid w0 w1"
        by (intro sinceI [of _ _ j "ss @ ms"]) (auto simp: stuck_def intro: minted_append)
      with 2 show ?case by simp
    qed
    with True show ?thesis by (simp add: trade_def wp_bind)
  next
    case False
    then show ?thesis using u [of w "[]" "no_fields\<lparr>f_status := Some MINT_COMPLETED\<rparr>"] by (simp add: trade_def no_fields_def)
  qed
qed


text \<open>The Arc deposit.\<close>

lemma wp_arc_receive:
  assumes env: "db_answers env" and job: "bj_status job \<in> {PENDING, ATTESTING, MINTING, TRADING}"
    and arc: "bj_dest_chain job = ARC" "\<not> truthy (arc_finalize_tx job)"
    and tx: "bj_status job = TRADING \<or> \<not> truthy (mint_tx_hash job)"
    and row: "job_row jid w = Some j" "attested job j" "sends w = sends w0"
  shows "wp (arc_receive env jid job (bj_status job) m a)
     (\<lambda>_. since (\<lambda>j ms. bj_status j = TRADING \<and> minted job j ms \<and> \<not> truthy (arc_finalize_tx j)) jid w0)
     (\<lambda>e w1. e \<noteq> NoReturn \<and> since (stuck job) jid w0 w1) w"
    (is "wp _ (\<lambda>_. ?Q) ?E w")
proof (cases "bj_status job = TRADING")
  case True
  then have "?Q w" "since (stuck job) jid w0 w"
    using row arc by (auto simp: since_def attested_def minted_def stuck_def)
  with True show ?thesis by (simp add: arc_receive_def Let_def wps)
next
  case False
  let ?f = "\<lambda>g f n t. no_fields\<lparr>f_status := Some TRADING, f_mint_tx_hash := Some t, f_arc_receive_tx_hash := Some t,
      f_gross_amount_usdc := Some g, f_circle_fee_usdc := Some f, f_net_amount_usdc := Some n\<rparr>"
  have e: "?E e w1" if "e \<noteq> NoReturn" "job_row jid w1 = job_row jid w"
    "sends w1 = sends w \<or> sends w1 = ReceiveMessage ARC m a # sends w" for e w1
    using that row arc False
    by (auto simp: attested_def stuck_def intro: sinceI [of _ _ _ "[]"] sinceI [of _ _ _ "[ReceiveMessage ARC m a]"])
  have u: "wp (update_job env jid (?f g f n t)) (\<lambda>_. ?Q) ?E w1"
    if "job_row jid w1 = job_row jid w" "sends w1 = ReceiveMessage ARC m a # sends w" for g f n t w1
  proof (rule wp_update_job [OF env])
    fix w2 assume "job_row jid w2 = map_option (apply_job_fields (?f g f n t)) (job_row jid w1)" "sends w2 = sends w1"
    with that row False arc show "?Q w2"
      by (intro sinceI [of _ _ "apply_job_fields (?f g f n t) j" "[ReceiveMessage ARC m a]"])
        (auto simp: apply_job_fields_def no_fields_def minted_def attested_def arc_finalize_tx_def)
  qed
  have r: "wp (receive_message_arc env m a) (\<lambda>t. wp (update_job env jid (?f g f n t)) (\<lambda>_. ?Q) ?E) ?E w" for g f n
    by (rule wp_receive(3) [OF env, where jid = jid and c = ARC]; (rule u e refl; assumption)?)
  have p: "x \<noteq> NoReturn" if "parse_cctp_v2_burn_amounts m (Some b) = Inl x" for x b
    using that by (auto simp: parse_cctp_v2_burn_amounts_def int_or_raise_def Let_def split: option.splits if_splits sum.splits)
  have "since (stuck job) jid w0 w" using e [of "OtherError []" w] by simp
  then show ?thesis
    using job tx False r p
    by (auto simp: arc_receive_def Let_def wp_bind wp_lift wp_fun wp_ret wp_ret_fun split: sum.split prod.split)
qed

lemma wp_arc_finish:
  assumes env: "db_answers env" and arc: "bj_dest_chain job = ARC"
    and row: "job_row jid w = Some j" "bj_status j = TRADING" "\<not> truthy (arc_finalize_tx j)"
      "sends w = ms @ sends w0" "minted job j ms"
    and f: "\<And>t. f_status (f t) = Some MINT_COMPLETED" "\<And>t. f_mint_tx_hash (f t) = None"
  shows "wp (finalize_arc_metavault_deposit env i r n) (\<lambda>t. wp (update_job env jid (f t)) (\<lambda>_. since (finished job) jid w0)
       (\<lambda>e w1. e \<noteq> NoReturn \<and> since (stuck job) jid w0 w1))
     (\<lambda>e w1. e \<noteq> NoReturn \<and> since (stuck job) jid w0 w1) w"
    (is "wp _ ?Q ?E w")
proof -
  let ?c = "FinalizeDeposit i r n"
  have e: "?E e w1" if "e \<noteq> NoReturn" "job_row jid w1 = job_row jid w" "sends w1 = ss @ sends w" "ss = [] \<or> ss = [?c]" for e w1 ss
    using that row arc
    by (intro conjI sinceI [of _ _ j "ss @ ms"]) (auto simp: stuck_def intro!: minted_append)
  have "wp (tx_call env ?c) ?Q ?E w"
  proof (rule wp_send [where jid = jid, OF env])
    fix t w1 assume w1: "job_row jid w1 = job_row jid w" "sends w1 = ?c # sends w"
    show "?Q t w1"
    proof (rule wp_update_job [OF env])
      fix w2 assume "job_row jid w2 = map_option (apply_job_fields (f t)) (job_row jid w1)" "sends w2 = sends w1"
      with w1 row f show "since (finished job) jid w0 w2"
        by (intro sinceI [of _ _ "apply_job_fields (f t) j" "[?c] @ ms"])
          (auto simp: apply_job_fields_def finished_def simp del: append_Cons intro!: minted_append)
    qed
  qed (use e [of _ _ "[?c]"] in auto)
  then show ?thesis
    using e [of _ w "[]"] configs_return(4)
    by (auto simp: finalize_arc_metavault_deposit_def wp_then wp_lift split: sum.split option.split)
qed


lemma wp_arc:
  assumes env: "db_answers env" and job: "bj_status job \<in> {PENDING, ATTESTING, MINTING, TRADING}"
    and arc: "bj_dest_chain job = ARC" "\<not> truthy (arc_finalize_tx job)"
    and tx: "bj_status job = TRADING \<or> \<not> truthy (mint_tx_hash job)"
    and row: "job_row jid w = Some j" "attested job j" "sends w = sends w0"
  shows "wp (process_arc_deposit_job env jid job (bj_status job) m a) (\<lambda>_. since (finished job) jid w0)
     (\<lambda>e w1. e \<noteq> NoReturn \<and> since (stuck job) jid w0 w1) w"
    (is "wp _ (\<lambda>_. ?Q) ?E w")
proof -
  define G where "G w1 \<longleftrightarrow> since (\<lambda>j ms. bj_status j = TRADING \<and> minted job j ms \<and> \<not> truthy (arc_finalize_tx j)) jid w0 w1" for w1
  have e: "since (stuck job) jid w0 w1" if "G w1" for w1
    using that by (auto simp: G_def since_def stuck_def)
  have call: "G (w1\<lparr>calls := DbReadIntents # calls w1\<rparr>)" if "G w1" for w1
    using that by (simp add: G_def since_def job_row_def sends_def)
  have fin: "wp (finalize_arc_metavault_deposit env i r n) (\<lambda>t. wp (update_job env jid (f t)) (\<lambda>_. ?Q) ?E) ?E w1"
    if "G w1" "\<And>t. f_status (f t) = Some MINT_COMPLETED" "\<And>t. f_mint_tx_hash (f t) = None" for i r n f w1
    using that wp_arc_finish [OF env arc(1)] by (auto simp: G_def since_def)
  have num: "wp (liftE (int_or_raise s)) Q' ?E w1" if "G w1" "\<And>n. Q' n w1" for s Q' w1
    using that e by (auto simp: int_or_raise_def wps split: option.split)
  show ?thesis
    unfolding process_arc_deposit_job_def if_not_P [OF arc(2)] wp_bind
  proof (rule wp_mono [OF wp_arc_receive [OF env job arc tx row, of m a]], goal_cases)
    case (1 x w1)
    obtain t g f n where x: "x = (t, g, f, n)" by (cases x)
    from 1 have G: "G w1" by (simp add: G_def)
    have body: "wp (arc_finalize env jid job g f n intent) (\<lambda>_. ?Q) ?E w2" if "G w2" for intent w2
      unfolding arc_finalize_def using that e
      by (auto simp: wp_raise Let_def wp_bind finalized_fields_def no_fields_def split: option.split intro!: num fin)
    have "wp (get_linked_capital_intent env jid) (\<lambda>intent. wp (arc_finalize env jid job g f n intent) (\<lambda>_. ?Q) ?E) ?E w1"
      unfolding get_linked_capital_intent_def
      using env e [OF call [OF G]] body [OF call [OF G]]
      by (auto simp: wp_then wp_perform wp_gets fails_returns split: option.split)
    then show ?case by (simp add: x wp_bind)
  qed
qed


text \<open>The handler and the whole.\<close>

lemma wp_failed:
  assumes env: "db_answers env" and dest: "dest = bj_dest_chain job"
    and row: "since (stuck job) jid w0 w"
    and Q: "\<And>w1 j ms. job_row jid w1 = Some j \<Longrightarrow> sends w1 = ms @ sends w0 \<Longrightarrow>
        bj_status j = MINT_COMPLETED_TRADE_FAILED \<and> minted job j ms \<or>
        bj_status j = FAILED \<and> bj_status job \<noteq> TRADING \<and> list_all is_receive ms \<Longrightarrow> Q () w1"
  shows "wp (process_failed env jid dest e) Q E w"
  unfolding process_failed_def wp_bind
proof (rule wp_get_job [OF env])
  fix w1 assume w1: "same_view w w1"
  with row obtain j ms where j: "job_row jid w1 = Some j" "sends w1 = ms @ sends w0" "stuck job j ms"
    by (auto simp: since_def dest: same_viewD [of _ _ jid])
  define s where "s = (if bj_status j = TRADING then MINT_COMPLETED_TRADE_FAILED else FAILED)"
  let ?f = "no_fields\<lparr>f_status := Some s, f_error_message := Some (Some (take 500 (exn_str e)))\<rparr>"
  have "wp (update_job env jid ?f) Q E' w1" for E'
  proof (rule wp_update_job [OF env])
    fix w2 assume "job_row jid w2 = map_option (apply_job_fields ?f) (job_row jid w1)" "sends w2 = sends w1"
    with j show "Q () w2"
      by (intro Q [of _ "apply_job_fields ?f j" ms])
        (auto simp: s_def apply_job_fields_def no_fields_def stuck_def minted_def)
  qed
  then show "wp (case job_row jid w1 of
         Some j \<Rightarrow>
           if dest = ARC \<and> truthy (arc_finalize_tx j) then
             catchE (update_job env jid (finalized_fields (arc_finalize_tx j))) (\<lambda>_. ret ())
           else
             (let fail_state = (if bj_status j = TRADING then MINT_COMPLETED_TRADE_FAILED else FAILED) in
              catchE (update_job env jid (no_fields\<lparr>f_status := Some fail_state,
                  f_error_message := Some (Some (take 500 (exn_str e)))\<rparr>)) (\<lambda>_. ret ()))
       | None \<Rightarrow>
           catchE (update_job env jid (no_fields\<lparr>f_status := Some FAILED,
               f_error_message := Some (Some (take 500 (exn_str e)))\<rparr>)) (\<lambda>_. ret ())) Q E w1"
    using j dest by (simp only: option.case stuck_def Let_def s_def) (auto simp: wp_catch)
qed

lemma wp_process_steps:
  assumes env: "db_answers env" and job: "bj_status job \<in> {PENDING, ATTESTING, MINTING, TRADING}"
    and arc: "bj_dest_chain job = ARC \<longrightarrow> \<not> truthy (arc_finalize_tx job)"
    and tx: "bj_status job = TRADING \<or> \<not> truthy (mint_tx_hash job)"
    and row: "job_row jid w = Some job"
  shows "wp (process_steps env jid job) (\<lambda>_. since (finished job) jid w)
     (\<lambda>e w1. e \<noteq> NoReturn \<and> since (stuck job) jid w w1) w"
    (is "wp _ (\<lambda>_. ?Q) ?E w")
  unfolding process_steps_def wp_bind
proof (rule wp_attest [OF env row])
  fix x :: "string \<times> string" and w1 j
  assume w1: "job_row jid w1 = Some j" "sends w1 = sends w" "attested job j"
  have "wp (thenE (mint env jid job m a) (trade env jid job)) (\<lambda>_. ?Q) ?E w1" if "bj_dest_chain job \<noteq> ARC" for m a
    unfolding wp_then
    by (rule wp_mono [OF wp_mint [OF env job that w1(1,3,2)]])
      (auto simp: since_def [of "\<lambda>j ms. bj_status j = TRADING \<and> minted job j ms"] intro: wp_trade [OF env that])
  then show "wp (case x of (m, a) \<Rightarrow>
       if bj_dest_chain job = ARC then process_arc_deposit_job env jid job (bj_status job) m a
       else thenE (mint env jid job m a) (trade env jid job)) (\<lambda>_. ?Q) ?E w1"
    using arc by (auto split: prod.split intro: wp_arc [OF env job _ _ tx w1(1,3,2)])
next
  fix e w1 j
  assume e: "e \<noteq> NoReturn" "job_row jid w1 = Some j" "sends w1 = sends w" "attested job j"
  then show "?E e w1"
    using arc by (auto simp: stuck_def attested_def minted_def intro!: sinceI [of _ _ _ "[]"])
qed

text \<open>
  C3: a job always reaches a final state that tells where the money is. If the database answers,
  the processing of a job in one of the four working states returns without an error and leaves
  the job in a final state. \<open>FAILED\<close> means that the job had not been minted: no trade and no
  finalisation was sent. Any other final state of a job that still had to be minted means that its mint
  transaction is recorded, and that \<open>receiveMessage\<close> was called exactly once, on the destination
  chain and before everything else. A job resumed after its mint is never minted again.
\<close>

theorem process_reaches_final_state:
  assumes "db_answers env" and "job_row jid w = Some job"
    and "bj_status job \<in> {PENDING, ATTESTING, MINTING, TRADING}"
    and "\<not> starts_with (burn_tx_hash job) ''pending:''"
    and "bj_dest_chain job = ARC \<longrightarrow> \<not> truthy (arc_finalize_tx job)"
    and "bj_status job = TRADING \<or> \<not> truthy (mint_tx_hash job)"
  shows "\<exists>w' j ms. process_bridge_job env jid w = (Inr (), w') \<and> job_row jid w' = Some j \<and> sends w' = ms @ sends w \<and>
    bj_status j \<in> {COMPLETED, MINT_COMPLETED, FAILED, MINT_COMPLETED_TRADE_FAILED} \<and>
    (bj_status j = FAILED \<longrightarrow> bj_status job \<noteq> TRADING \<and> list_all is_receive ms) \<and>
    (bj_status j \<noteq> FAILED \<and> bj_status job \<noteq> TRADING \<longrightarrow> mint_tx_hash j \<noteq> None \<and>
      (\<exists>m a ss. ms = ss @ [ReceiveMessage (bj_dest_chain job) m a] \<and> \<not> list_ex is_receive ss)) \<and>
    (bj_status job = TRADING \<longrightarrow> \<not> list_ex is_receive ms)"
proof -
  define R where "R j ms \<longleftrightarrow>
    bj_status j \<in> {COMPLETED, MINT_COMPLETED, MINT_COMPLETED_TRADE_FAILED} \<and> minted job j ms \<or>
    bj_status j = FAILED \<and> bj_status job \<noteq> TRADING \<and> list_all is_receive ms" for j ms
  have fin: "since R jid w w1" if "since (finished job) jid w w1" for w1
    using that by (auto simp: since_def finished_def R_def)
  have steps: "wp (catchE (process_steps env jid job) (process_failed env jid (bj_dest_chain job)))
      (\<lambda>_. since R jid w) (\<lambda>_ _. False) w1" if v: "same_view w w1" for w1
  proof -
    have w1: "job_row jid w1 = Some job" "sends w1 = sends w"
      using v assms(2) by (auto dest: same_viewD [of _ _ jid])
    have base: "since P jid w1 = since P jid w" for P by (rule ext) (simp add: since_def w1)
    have f: "wp (process_failed env jid (bj_dest_chain job) e) (\<lambda>_. since R jid w) (\<lambda>_ _. False) w2"
      if "since (stuck job) jid w w2" for e w2
      by (rule wp_failed [OF assms(1) refl that]) (auto simp: since_def R_def)
    show ?thesis
      unfolding wp_catch
      by (rule wp_mono [OF wp_process_steps [OF assms(1,3,5,6) w1(1)]]) (auto simp: base intro: fin f)
  qed
  have "wp (process_bridge_job env jid) (\<lambda>_. since R jid w) (\<lambda>_ _. False) w"
    unfolding process_bridge_job_def wp_bind
  proof (rule wp_get_job [OF assms(1)])
    fix w1 assume v: "same_view w w1"
    then have "job_row jid w1 = Some job" using assms(2) by (auto dest: same_viewD [of _ _ jid])
    then show "wp (case job_row jid w1 of None \<Rightarrow> ret () | Some job \<Rightarrow>
           if elem (bj_status job) [COMPLETED, MINT_COMPLETED] then ret ()
           else if bj_dest_chain job = ARC \<and> truthy (arc_finalize_tx job) then
             update_job env jid (finalized_fields (arc_finalize_tx job))
           else if starts_with (burn_tx_hash job) ''pending:'' then ret ()
           else catchE (process_steps env jid job) (process_failed env jid (bj_dest_chain job)))
        (\<lambda>_. since R jid w) (\<lambda>_ _. False) w1"
      using steps [OF v] assms(3-5) by (auto split: if_splits)
  qed
  then obtain w' j ms where "process_bridge_job env jid w = (Inr (), w')" "job_row jid w' = Some j"
    "sends w' = ms @ sends w" "R j ms"
    by (auto simp: wp_def since_def split: prod.splits sum.splits)
  then show ?thesis
    by (intro exI [of _ w'] exI [of _ j] exI [of _ ms]) (auto simp: R_def minted_def split: if_splits)
qed


lemma demo_env_answers: "db_answers demo_env"
  by (simp add: db_answers_def demo_env_def demo_bridge_settings_def complete_response_def demo_lib_def)

theorem process_reaches_final_state_witness:
  "\<exists>w' j. process_bridge_job demo_env ''j1'' (demo_world [demo_job] [demo_intent]) = (Inr (), w') \<and>
     job_row ''j1'' w' = Some j \<and> bj_status j \<in> {COMPLETED, MINT_COMPLETED, FAILED, MINT_COMPLETED_TRADE_FAILED}"
proof -
  have "job_row ''j1'' (demo_world [demo_job] [demo_intent]) = Some demo_job"
    by (simp add: job_row_def demo_world_def demo_job_def)
  from process_reaches_final_state [OF demo_env_answers this]
  show ?thesis by (auto simp: demo_job_def)
qed

section \<open>What a job leaves alone\<close>

definition static_intents :: "capital_intent list \<Rightarrow> (string \<times> string option) list" where
  "static_intents rows = map (\<lambda>i. (ci_id i, ci_bridge_job_id i)) rows"

definition others_kept :: "string \<Rightarrow> bridge_world \<Rightarrow> bridge_world \<Rightarrow> bool" where
  "others_kept jid w w' \<longleftrightarrow> map bj_id (bw_jobs w') = map bj_id (bw_jobs w) \<and>
     filter (\<lambda>r. bj_id r \<noteq> jid) (bw_jobs w') = filter (\<lambda>r. bj_id r \<noteq> jid) (bw_jobs w) \<and>
     bw_queue w' = bw_queue w \<and> bw_events w' = bw_events w \<and>
     static_intents (bw_intents w') = static_intents (bw_intents w) \<and>
     (distinct (map ci_id (bw_intents w)) \<longrightarrow>
        filter (\<lambda>i. ci_bridge_job_id i \<noteq> Some jid) (bw_intents w') =
        filter (\<lambda>i. ci_bridge_job_id i \<noteq> Some jid) (bw_intents w))"

lemma static_keys: "static_intents xs = static_intents ys \<Longrightarrow> map ci_id xs = map ci_id ys"
proof -
  assume "static_intents xs = static_intents ys"
  then have "map fst (static_intents xs) = map fst (static_intents ys)" by simp
  then show ?thesis by (simp add: static_intents_def comp_def)
qed

interpretation relay: world_order "others_kept jid" for jid
proof unfold_locales
  fix u v w assume uv: "others_kept jid u v" and vw: "others_kept jid v w"
  then have "map ci_id (bw_intents v) = map ci_id (bw_intents u)"
    by (auto simp: others_kept_def intro: static_keys)
  with uv vw show "others_kept jid u w" by (simp add: others_kept_def)
qed (simp add: others_kept_def)

lemma kept_call: "grows (others_kept jid) (bcall env c)"
  by (rule grows_perform) (simp add: others_kept_def)

lemma kept_jobs: "grows (others_kept jid) (set_jobs (tbl_update (\<lambda>r. bj_id r = jid) (apply_job_fields f)))"
  unfolding set_jobs_def
  by (rule relay.grows_modify) (simp add: others_kept_def jobs.keys_update jobs.others_update)

lemma filter_update:
  "(\<And>r. r \<in> set rows \<Longrightarrow> q r \<Longrightarrow> \<not> P r \<and> \<not> P (f r)) \<Longrightarrow> filter P (tbl_update q f rows) = filter P rows"
  by (induction rows) auto

lemma grows_iff_wp: "grows le m \<longleftrightarrow> (\<forall>w. wp m (\<lambda>_. le w) (\<lambda>_. le w) w)"
  by (simp add: grows_def wp_def split: prod.split sum.split) (metis eq_snd_iff old.sum.exhaust)

text \<open>An update of a linked intent, in a table whose ids and links are those of the snapshot.\<close>

lemma kept_intent:
  assumes "others_kept jid w w1" "i \<in> set (linked_intents jid (bw_intents w))"
    "bw_intents w2 = tbl_update (\<lambda>r. ci_id r = ci_id i) (apply_intent_fields u) (bw_intents w1)"
    "u_bridge_job_id u = None" "bw_jobs w2 = bw_jobs w1" "bw_queue w2 = bw_queue w1" "bw_events w2 = bw_events w1"
  shows "others_kept jid w w2"
proof -
  have link: "ci_bridge_job_id (apply_intent_fields u r) = ci_bridge_job_id r" for r
    by (simp add: apply_intent_fields_def assms(4))
  have s: "static_intents (bw_intents w2) = static_intents (bw_intents w1)"
    by (simp add: assms(3) static_intents_def tbl_update_def comp_def link intents.key_put if_distrib cong: if_cong)
  have "filter (\<lambda>i. ci_bridge_job_id i \<noteq> Some jid) (bw_intents w2) = filter (\<lambda>i. ci_bridge_job_id i \<noteq> Some jid) (bw_intents w1)"
    if d: "distinct (map ci_id (bw_intents w))"
  proof -
    have "static_intents (bw_intents w1) = static_intents (bw_intents w)" using assms(1) by (simp add: others_kept_def)
    then have st: "set (static_intents (bw_intents w1)) = set (static_intents (bw_intents w))" by simp
    have "ci_bridge_job_id r = Some jid" if "r \<in> set (bw_intents w1)" "ci_id r = ci_id i" for r
    proof -
      from that(1) have "(ci_id r, ci_bridge_job_id r) \<in> set (static_intents (bw_intents w))"
        unfolding st [symmetric] by (auto simp: static_intents_def)
      then obtain r' where r': "r' \<in> set (bw_intents w)" "ci_id r' = ci_id r" "ci_bridge_job_id r' = ci_bridge_job_id r"
        by (auto simp: static_intents_def)
      have i: "i \<in> set (bw_intents w)" "ci_bridge_job_id i = Some jid"
        using assms(2) by (simp_all add: linked_intents_def)
      have "r' = i" by (rule distinct_row [OF d i(1) r'(1)]) (simp add: r'(2) that(2))
      with r'(3) i(2) show ?thesis by simp
    qed
    then show ?thesis
      unfolding assms(3) by (intro filter_update) (simp_all add: link)
  qed
  with assms(1,5-7) s show ?thesis by (simp add: others_kept_def)
qed

lemma intent_updates_link [simp]: "u_bridge_job_id (intent_updates s b i) = None"
  by (simp add: intent_updates_def Let_def no_updates_def split: option.split)

lemma kept_sync: "grows (others_kept jid) (sync_capital_intents_for_bridge_job env jid f)"
proof -
  have one: "wp (sync_intent env s f i) (\<lambda>_. others_kept jid w) (\<lambda>_. others_kept jid w) w1"
    if "others_kept jid w w1" "i \<in> set (linked_intents jid (bw_intents w))" for s i w w1
  proof -
    have c: "others_kept jid w (w1\<lparr>calls := c # calls w1\<rparr>)" for c
      using that(1) by (simp add: others_kept_def)
    show ?thesis
      using that c by (auto simp: sync_intent_def Let_def wps update_intent_def split: option.split intro: kept_intent)
  qed
  have "wp (sync_capital_intents_for_bridge_job env jid f) (\<lambda>_. others_kept jid w) (\<lambda>_. others_kept jid w) w" for w
    by (auto simp: sync_capital_intents_for_bridge_job_def wps split: option.split intro!: wp_for_each one)
      (simp_all add: others_kept_def)
  then show ?thesis by (simp add: grows_iff_wp)
qed

lemma kept_update_job: "grows (others_kept jid) (update_job env jid f)"
  unfolding update_job_def by (intro relay.rules kept_call kept_jobs kept_sync)

lemma kept_tx: "grows (others_kept jid) (tx_call env c)"
  unfolding tx_call_def by (intro relay.rules kept_call)

lemma kept_submit: "grows (others_kept jid) (submit_attempts env dest tx mx as err)"
proof (induction "as" arbitrary: err)
  case (Cons a as)
  then show ?case
    unfolding submit_attempts.simps submit_defs by (intro relay.rules kept_call kept_tx)
qed (simp add: relay.grows_raise)

lemma kept_process: "grows (others_kept jid) (process_bridge_job env jid)"
  unfolding process_bridge_job_def process_steps_def process_failed_def attest_def mint_def trade_def
    process_arc_deposit_job_def arc_receive_def arc_finalize_def get_job_def get_linked_capital_intent_def
    receive_defs finalize_arc_metavault_deposit_def submit_trade_def Let_def
  by (intro relay.rules kept_call kept_update_job kept_tx kept_submit)

text \<open>
  Jobs do not interfere. Whatever fails, processing a job changes no other job, no intent
  that is not linked to it, no link between intents and jobs, no settled position and not the
  queue; no row is created, removed or reordered.
\<close>

lemma process_touches_own_job_only:
  assumes "distinct (map ci_id (bw_intents w))" and "process_bridge_job env jid w = (r, w')"
  shows "filter (\<lambda>j. bj_id j \<noteq> jid) (bw_jobs w') = filter (\<lambda>j. bj_id j \<noteq> jid) (bw_jobs w) \<and>
    map bj_id (bw_jobs w') = map bj_id (bw_jobs w) \<and>
    filter (\<lambda>i. ci_bridge_job_id i \<noteq> Some jid) (bw_intents w') =
      filter (\<lambda>i. ci_bridge_job_id i \<noteq> Some jid) (bw_intents w) \<and>
    map (\<lambda>i. (ci_id i, ci_bridge_job_id i)) (bw_intents w') = map (\<lambda>i. (ci_id i, ci_bridge_job_id i)) (bw_intents w) \<and>
    bw_events w' = bw_events w \<and> bw_queue w' = bw_queue w"
  using growsD [OF kept_process assms(2)] assms(1) by (simp add: others_kept_def static_intents_def)

lemma process_touches_own_job_only_witness:
  "let w = demo_world [demo_job, demo_job\<lparr>bj_id := ''j2''\<rparr>] [demo_intent] in
   filter (\<lambda>j. bj_id j \<noteq> ''j1'') (bw_jobs (snd (process_bridge_job demo_env ''j1'' w))) = [demo_job\<lparr>bj_id := ''j2''\<rparr>]"
proof -
  let ?w = "demo_world [demo_job, demo_job\<lparr>bj_id := ''j2''\<rparr>] [demo_intent]"
  obtain r w' where r: "process_bridge_job demo_env ''j1'' ?w = (r, w')" by fastforce
  from process_touches_own_job_only [OF _ r]
  have "filter (\<lambda>j. bj_id j \<noteq> ''j1'') (bw_jobs w') = [demo_job\<lparr>bj_id := ''j2''\<rparr>]"
    by (simp add: demo_world_def demo_job_def)
  with r show ?thesis by (simp add: Let_def)
qed


section \<open>Jobs that must not be repeated\<close>

text \<open>
  An Arc deposit is finalised once. When a finalisation transaction is recorded for a job that
  is not yet complete, processing the job again sends nothing, whatever fails; if the database
  answers, the job becomes \<open>MINT_COMPLETED\<close> with that transaction and without an error message.
\<close>

lemma recorded_finalize_not_resent:
  assumes "job_row jid w = Some job" "bj_dest_chain job = ARC" "arc_finalize_tx job = Some tx" "tx \<noteq> []"
    and "process_bridge_job env jid w = (r, w')"
  shows "sends w' = sends w \<and>
    (db_answers env \<and> bj_status job \<notin> {COMPLETED, MINT_COMPLETED} \<longrightarrow>
      (\<exists>j. r = Inr () \<and> job_row jid w' = Some j \<and> bj_status j = MINT_COMPLETED \<and>
         bj_arc_finalize_tx_hash j = Some tx \<and> error_message j = None))"
proof -
  let ?f = "finalized_fields (Some tx)"
  let ?w1 = "w\<lparr>calls := DbReadJob jid # calls w\<rparr>"
  have row: "job_row jid ?w1 = Some job" "sends ?w1 = sends w" using assms(1) by (simp_all add: job_row_def sends_def)
  have p: "process_bridge_job env jid w = (case be_fails env (DbReadJob jid # calls w) of
      Some e \<Rightarrow> (Inl e, ?w1)
    | None \<Rightarrow> if elem (bj_status job) [COMPLETED, MINT_COMPLETED] then (Inr (), ?w1) else update_job env jid ?f ?w1)"
    using assms(1-4)
    by (simp add: process_bridge_job_def get_job_def job_row_def run_defs perform_def Let_def split: option.split)
  have "sends (snd (update_job env jid ?f ?w1)) = sends ?w1"
  proof -
    have "grows (quiet_le is_send) (update_job env jid ?f)" by (rule quiet_update_job) simp
    then show ?thesis by (auto simp: grows_def quiet_le_def sends_def dest!: spec [of _ ?w1])
  qed
  then have "sends w2 = sends w" if "(r2, w2) = update_job env jid ?f ?w1" for r2 w2
    using that row by (metis snd_conv)
  then have "sends w' = sends w"
    using p assms(5) row by (auto split: option.splits if_splits)
  moreover have "\<exists>j. r = Inr () \<and> job_row jid w' = Some j \<and> bj_status j = MINT_COMPLETED \<and>
      bj_arc_finalize_tx_hash j = Some tx \<and> error_message j = None"
    if "db_answers env" "bj_status job \<notin> {COMPLETED, MINT_COMPLETED}"
  proof -
    have "wp (update_job env jid ?f) (\<lambda>_ w'. job_row jid w' = Some (apply_job_fields ?f job)) (\<lambda>_ _. False) ?w1"
      by (rule wp_update_job [OF that(1)]) (use row in simp)
    moreover have "update_job env jid ?f ?w1 = (r, w')" using p assms(5) that by simp
    ultimately show ?thesis
      by (cases r) (auto simp: wp_def apply_job_fields_def finalized_fields_def no_fields_def)
  qed
  ultimately show ?thesis by blast
qed

definition finalized_job :: bridge_job where
  "finalized_job = demo_job\<lparr>bj_dest_chain := ARC, bj_status := TRADING, bj_arc_finalize_tx_hash := Some ''fin''\<rparr>"

lemma recorded_finalize_not_resent_witness:
  "\<exists>j. job_row ''j1'' (snd (process_bridge_job demo_env ''j1'' (demo_world [finalized_job] []))) = Some j \<and>
     bj_status j = MINT_COMPLETED \<and> bj_arc_finalize_tx_hash j = Some ''fin''"
proof -
  let ?w = "demo_world [finalized_job] []"
  obtain r w' where r: "process_bridge_job demo_env ''j1'' ?w = (r, w')" by fastforce
  have "job_row ''j1'' ?w = Some finalized_job" "arc_finalize_tx finalized_job = Some ''fin''"
    "bj_dest_chain finalized_job = ARC" "bj_status finalized_job \<notin> {COMPLETED, MINT_COMPLETED}"
    by (simp_all add: job_row_def demo_world_def finalized_job_def demo_job_def arc_finalize_tx_def)
  with recorded_finalize_not_resent [OF this(1,3,2) _ r] demo_env_answers r show ?thesis by auto
qed

text \<open>
  The states that are skipped are fewer than the final ones. A job in state \<open>FAILED\<close> whose
  attestation was stored, that is, whose mint failed, is not skipped if it is taken from the queue again:
  without a signed trade it becomes \<open>MINT_COMPLETED\<close> although nothing is sent and no mint
  transaction is recorded.
\<close>

lemma failed_job_reprocessed_without_mint:
  assumes "db_answers env" "job_row jid w = Some job" "bj_status job = FAILED" "bj_dest_chain job \<noteq> ARC"
    and "\<not> starts_with (burn_tx_hash job) ''pending:''"
    and "truthy (attestation_message job)" "truthy (attestation_signature job)" "\<not> truthy (signed_trade_tx job)"
  shows "\<exists>w' j. process_bridge_job env jid w = (Inr (), w') \<and> job_row jid w' = Some j \<and>
    bj_status j = MINT_COMPLETED \<and> mint_tx_hash j = mint_tx_hash job \<and> sends w' = sends w"
proof -
  let ?f = "no_fields\<lparr>f_status := Some MINT_COMPLETED\<rparr>"
  have "wp (process_bridge_job env jid)
      (\<lambda>_ w'. job_row jid w' = Some (apply_job_fields ?f job) \<and> sends w' = sends w) (\<lambda>_ _. False) w"
    unfolding process_bridge_job_def wp_bind
  proof (rule wp_get_job [OF assms(1)])
    fix w1 assume "same_view w w1"
    then have w1: "job_row jid w1 = Some job" "sends w1 = sends w"
      using assms(2) by (auto dest: same_viewD [of _ _ jid])
    have "wp (update_job env jid ?f) (\<lambda>_ w'. job_row jid w' = Some (apply_job_fields ?f job) \<and> sends w' = sends w) E w1" for E
      by (rule wp_update_job [OF assms(1)]) (simp add: w1)
    then show "wp (case job_row jid w1 of None \<Rightarrow> ret () | Some job \<Rightarrow>
           if elem (bj_status job) [COMPLETED, MINT_COMPLETED] then ret ()
           else if bj_dest_chain job = ARC \<and> truthy (arc_finalize_tx job) then
             update_job env jid (finalized_fields (arc_finalize_tx job))
           else if starts_with (burn_tx_hash job) ''pending:'' then ret ()
           else catchE (process_steps env jid job) (process_failed env jid (bj_dest_chain job)))
        (\<lambda>_ w'. job_row jid w' = Some (apply_job_fields ?f job) \<and> sends w' = sends w) (\<lambda>_ _. False) w1"
      using assms(3-8) w1
      by (simp add: process_steps_def attest_def mint_def trade_def wps)
  qed
  then show ?thesis
    by (auto simp: wp_def apply_job_fields_def no_fields_def split: prod.splits sum.splits)
qed

lemma failed_job_reprocessed_without_mint_witness:
  "let job = demo_job\<lparr>bj_status := FAILED, attestation_message := Some ''aa'', attestation_signature := Some ''bb''\<rparr>;
       w' = snd (process_bridge_job demo_env ''j1'' (demo_world [job] [])) in
   \<exists>j. job_row ''j1'' w' = Some j \<and> bj_status j = MINT_COMPLETED \<and> mint_tx_hash j = None \<and> sends w' = []"
proof -
  let ?job = "demo_job\<lparr>bj_status := FAILED, attestation_message := Some ''aa'', attestation_signature := Some ''bb''\<rparr>"
  have "job_row ''j1'' (demo_world [?job] []) = Some ?job" "sends (demo_world [?job] []) = []"
    by (simp_all add: job_row_def sends_def demo_world_def demo_job_def)
  with failed_job_reprocessed_without_mint [OF demo_env_answers this(1)] show ?thesis
    by (auto simp: demo_job_def Let_def)
qed

text \<open>
  Recovery after a restart. It appends to the queue exactly the ids of the jobs in a working state,
  in the order of the table, and changes nothing else.
\<close>

lemma recover_enqueues_working_jobs:
  assumes "recover_incomplete_jobs env w = (Inr r, w')"
  shows "bw_queue w' = bw_queue w @ map bj_id (filter (\<lambda>j. bj_status j \<in> {PENDING, ATTESTING, MINTING, TRADING}) (bw_jobs w)) \<and>
    bw_jobs w' = bw_jobs w \<and> bw_intents w' = bw_intents w"
proof -
  have loop: "for_each (\<lambda>j. enqueue_job (bj_id j)) js w = (Inr (), w\<lparr>bw_queue := bw_queue w @ map bj_id js\<rparr>)" for js w
    by (induction js arbitrary: w) (simp_all add: enqueue_job_def run_defs)
  have working: "(\<lambda>j. \<not> elem (bj_status j) [COMPLETED, MINT_COMPLETED, FAILED, MINT_COMPLETED_TRADE_FAILED]) =
      (\<lambda>j. bj_status j \<in> {PENDING, ATTESTING, MINTING, TRADING})"
    by (intro ext) (case_tac "bj_status j"; simp)
  show ?thesis
    using assms unfolding recover_incomplete_jobs_def working
    by (auto simp: run_defs perform_def Let_def loop [unfolded run_defs] split: option.splits)
qed

lemma recover_enqueues_working_jobs_witness:
  "bw_queue (snd (recover_incomplete_jobs demo_env
      (demo_world [demo_job, demo_job\<lparr>bj_id := ''j2'', bj_status := FAILED\<rparr>, demo_job\<lparr>bj_id := ''j3'', bj_status := TRADING\<rparr>] []))) =
   [''j1'', ''j3'']"
proof -
  let ?w = "demo_world [demo_job, demo_job\<lparr>bj_id := ''j2'', bj_status := FAILED\<rparr>, demo_job\<lparr>bj_id := ''j3'', bj_status := TRADING\<rparr>] []"
  have "wp (recover_incomplete_jobs demo_env) (\<lambda>_ _. True) (\<lambda>_ _. False) ?w"
    by (simp add: recover_incomplete_jobs_def wps demo_env_def demo_world_def demo_job_def)
  then obtain r w' where r: "recover_incomplete_jobs demo_env ?w = (Inr r, w')"
    by (auto simp: wp_def split: prod.splits sum.splits)
  from recover_enqueues_working_jobs [OF r] have "bw_queue w' = [''j1'', ''j3'']"
    by (simp add: demo_world_def demo_job_def)
  with r show ?thesis by simp
qed

end
