(* ===== verification/Bridge_Routes.thy ===== *)
theory Bridge_Routes
  imports Relayer
begin

text \<open>
  The bridge API, \<open>src/bridge/routes.py\<close>: creating, reserving and finalising jobs, and the
  sponsored Solana burns. The Solana account data, the token account of an owner and the text of a key are
  computed by libraries or read from the chain: they are arguments, in \<open>route_env\<close>.
\<close>

section \<open>Requests and environment\<close>

record bridge_and_trade_request =
  br_burn_tx_hash :: string
  br_source_chain :: chain
  br_dest_chain :: chain
  br_user_id :: string
  br_mint_recipient :: string
  br_solana_owner :: "string option"
  br_burn_amount :: string
  br_quote_id :: "string option"
  br_signed_trade_tx :: "string option"

record bridge_reserve_request =
  rr_source_chain :: chain
  rr_dest_chain :: chain
  rr_user_id :: string
  rr_mint_recipient :: string
  rr_solana_owner :: "string option"
  rr_burn_amount :: string
  rr_quote_id :: string
  rr_signed_trade_tx :: "string option"

record burn_submit_request =
  bs_signed_transaction :: string
  bs_dest_chain :: chain
  bs_user_id :: string
  bs_mint_recipient :: string
  bs_burn_amount :: string
  bs_quote_id :: "string option"
  bs_signed_trade_tx :: "string option"

record burn_prepare_request =
  bp_owner :: string
  bp_dest_chain :: chain
  bp_mint_recipient :: string
  bp_burn_amount :: string
  bp_max_fee :: string
  bp_min_finality :: int
  bp_destination_caller :: "string option"

record wallet_row =
  wl_address :: "string option"
  wl_verified_at :: "string option"
  wl_privy_user_id :: "string option"
  wl_account_id :: "string option"
  wl_chain :: string
  wl_role :: string

record solana_account =
  acc_owner :: string
  acc_data :: "byte list"

record route_env =
  re_env :: bridge_env
  re_wallets :: "wallet_row list"
  re_members :: "(string \<times> string) list"
  re_usdc_ata :: "string \<Rightarrow> exn + string"
  re_account :: "bridge_call list \<Rightarrow> string \<Rightarrow> solana_account option"
  re_pubkey_str :: "byte list \<Rightarrow> string"
  re_clock_ms :: "bridge_call list \<Rightarrow> int"
  re_digest :: "byte list"
  re_relayer_key :: "exn + unit"

abbreviation http :: "nat \<Rightarrow> string \<Rightarrow> 'a bpy" where
  "http code msg \<equiv> raise (HTTPException code msg)"

text \<open>\<open>try: m except Exception: raise HTTPException(code, msg)\<close>.\<close>

definition or_http :: "'a bpy \<Rightarrow> nat \<Rightarrow> string \<Rightarrow> 'a bpy" where
  "or_http m code msg = catchE m (\<lambda>_. http code msg)"

definition guard_http :: "bool \<Rightarrow> nat \<Rightarrow> string \<Rightarrow> unit bpy" where
  "guard_http ok code msg = (if ok then ret () else http code msg)"

definition select_jobs :: "bridge_env \<Rightarrow> (bridge_job \<Rightarrow> bool) \<Rightarrow> bridge_job list bpy" where
  "select_jobs env p = thenE (bcall env DbReadJobs) (getsE (\<lambda>w. filter p (bw_jobs w)))"

section \<open>Validation\<close>

definition evm_tx_re :: "string \<Rightarrow> bool" where
  "evm_tx_re = hex_re 64"

definition solana_sig_re :: "string \<Rightarrow> bool" where
  "solana_sig_re s \<longleftrightarrow> (let t = chop_newline s in
     (length t = 87 \<or> length t = 88) \<and> list_all (\<lambda>c. elem c b58_chars) t)"

definition validate_tx_hash :: "string \<Rightarrow> chain \<Rightarrow> unit bpy" where
  "validate_tx_hash tx c =
     (if c = BASE then guard_http (evm_tx_re tx) 400 (''Invalid EVM tx hash: '' @ take 20 tx @ ''...'')
      else if c = SOLANA then guard_http (solana_sig_re tx) 400 (''Invalid Solana signature: '' @ take 20 tx @ ''...'')
      else ret ())"

definition validate_bridge_chains :: "bridge_env \<Rightarrow> chain \<Rightarrow> chain \<Rightarrow> unit bpy" where
  "validate_bridge_chains env src dst =
     thenE (guard_http (src \<noteq> dst) 400 ''source_chain and dest_chain must differ'')
     (for_each (\<lambda>c. guard_http (is_chain_tradable (be_app env) (chain_value c)) 403
         (''Trading is disabled for '' @ chain_value c @ '' in '' @ app_env (be_app env))) [src, dst])"

definition normalize_signed_trade_tx :: "bridge_env \<Rightarrow> chain \<Rightarrow> string option \<Rightarrow> string option bpy" where
  "normalize_signed_trade_tx env dst tx =
     (if dst \<noteq> SOLANA \<or> \<not> truthy tx then ret tx
      else (case cosign_sponsored_solana_trade_tx (be_lib env) (the tx) of
              Inr s \<Rightarrow> ret (Some s)
            | Inl (ValueError m) \<Rightarrow> http 400 m
            | Inl NoReturn \<Rightarrow> raise NoReturn
            | Inl _ \<Rightarrow> http 502 ''Could not validate Solana trade transaction''))"

section \<open>Creating jobs\<close>

definition new_job :: "string \<Rightarrow> chain \<Rightarrow> chain \<Rightarrow> string \<Rightarrow> string \<Rightarrow> string \<Rightarrow> string option \<Rightarrow> string option \<Rightarrow>
    string \<Rightarrow> bridge_job" where
  "new_job user src dst burn amount recipient quote stx jid =
     \<lparr>bj_id = jid, bj_user_id = user, bj_source_chain = src, bj_dest_chain = dst, bj_status = PENDING,
      burn_tx_hash = burn, burn_amount = amount, mint_recipient = recipient, bj_quote_id = quote,
      signed_trade_tx = stx, attestation_message = None, attestation_signature = None,
      mint_tx_hash = None, trade_tx_hash = None, bj_arc_receive_tx_hash = None, bj_arc_finalize_tx_hash = None,
      bj_gross_amount_usdc = None, bj_circle_fee_usdc = None, bj_net_amount_usdc = None,
      bj_receiver = None, error_message = None\<rparr>"

text \<open>
  \<open>update(fields).eq("id", job_id)\<close> with a burn transaction: rejected when another job has it;
  the answer holds the changed rows.
\<close>

definition burn_taken :: "string \<Rightarrow> string \<Rightarrow> bridge_job list \<Rightarrow> bool" where
  "burn_taken jid burn rows = list_ex (\<lambda>r. bj_id r \<noteq> jid \<and> burn_tx_hash r = burn) rows"

definition update_burn :: "bridge_env \<Rightarrow> string \<Rightarrow> string \<Rightarrow> (bridge_job \<Rightarrow> bridge_job) \<Rightarrow> bridge_job list bpy" where
  "update_burn env jid burn g =
     thenE (bcall env (DbUpdateJob jid))
     (bindE (getsE bw_jobs) (\<lambda>rows.
        if list_ex (\<lambda>r. bj_id r = jid) rows \<and> burn_taken jid burn rows then raise (OtherError ''duplicate key value'')
        else thenE (set_jobs (tbl_update (\<lambda>r. bj_id r = jid) (\<lambda>r. (g r)\<lparr>burn_tx_hash := burn\<rparr>)))
               (getsE (\<lambda>w. filter (\<lambda>r. bj_id r = jid) (bw_jobs w)))))"

definition pending_prefix :: string where
  "pending_prefix = ''pending:''"

definition finalize_bridge_reservation :: "bridge_env \<Rightarrow> bridge_job \<Rightarrow> bridge_and_trade_request \<Rightarrow> string bpy" where
  "finalize_bridge_reservation env reserved body =
     bindE (normalize_signed_trade_tx env (br_dest_chain body) (br_signed_trade_tx body)) (\<lambda>stx.
     bindE (or_http (update_burn env (bj_id reserved) (br_burn_tx_hash body) (\<lambda>r. r\<lparr>
              burn_amount := br_burn_amount body, mint_recipient := br_mint_recipient body,
              signed_trade_tx := stx, error_message := None\<rparr>))
            502 ''Could not finalize bridge job reservation'') (\<lambda>rows.
       case rows of
         [] \<Rightarrow> http 502 ''Bridge job reservation finalize returned no data''
       | r # _ \<Rightarrow> thenE (enqueue_job (bj_id r)) (ret (bj_id r))))"

definition is_reservation_for :: "bridge_and_trade_request \<Rightarrow> bridge_job \<Rightarrow> bool" where
  "is_reservation_for body r \<longleftrightarrow>
     bj_source_chain r = br_source_chain body \<and> bj_dest_chain r = br_dest_chain body \<and>
     bj_user_id r = br_user_id body \<and> bj_status r = PENDING \<and> starts_with (burn_tx_hash r) pending_prefix"

definition insert_and_enqueue :: "bridge_env \<Rightarrow> (string \<Rightarrow> bridge_job) \<Rightarrow> string bpy" where
  "insert_and_enqueue env mk =
     bindE (or_http (insert_job env mk) 502 ''Could not create bridge job'') (\<lambda>jid.
       thenE (enqueue_job jid) (ret jid))"

definition create_bridge_job :: "bridge_env \<Rightarrow> bridge_and_trade_request \<Rightarrow> string bpy" where
  "create_bridge_job env body =
     bindE (normalize_signed_trade_tx env (br_dest_chain body) (br_signed_trade_tx body)) (\<lambda>stx.
     bindE (or_http (select_jobs env (\<lambda>r. burn_tx_hash r = br_burn_tx_hash body))
              502 ''Could not check for duplicate bridge job'') (\<lambda>existing.
       case existing of
         e # _ \<Rightarrow> http 409 (''Bridge job already exists for burn tx '' @ take 16 (br_burn_tx_hash body) @
                    ''... (job '' @ bj_id e @ '')'')
       | [] \<Rightarrow>
           (let mk = new_job (br_user_id body) (br_source_chain body) (br_dest_chain body) (br_burn_tx_hash body)
                  (br_burn_amount body) (br_mint_recipient body) (br_quote_id body) stx in
            if truthy (br_quote_id body) then
              bindE (or_http (select_jobs env (\<lambda>r. bj_quote_id r = br_quote_id body))
                       502 ''Could not check for duplicate quote'') (\<lambda>existing_quote.
                case existing_quote of
                  [] \<Rightarrow> insert_and_enqueue env mk
                | reserved # _ \<Rightarrow>
                    if is_reservation_for body reserved then finalize_bridge_reservation env reserved body
                    else http 409 (''Bridge job already exists for quote '' @ the (br_quote_id body) @
                      '' (job '' @ bj_id reserved @ '')''))
            else insert_and_enqueue env mk)))"

definition bridge_and_trade :: "bridge_env \<Rightarrow> bridge_and_trade_request \<Rightarrow> string bpy" where
  "bridge_and_trade env body =
     thenE (validate_bridge_chains env (br_source_chain body) (br_dest_chain body))
     (thenE (validate_tx_hash (br_burn_tx_hash body) (br_source_chain body))
     (create_bridge_job env body))"

section \<open>The recipient of a mint on Solana\<close>

definition solana_account_info :: "route_env \<Rightarrow> string \<Rightarrow> solana_account option bpy" where
  "solana_account_info re a =
     thenE (bcall (re_env re) (SolanaAccountInfo a)) (getsE (\<lambda>w. re_account re (calls w) a))"

text \<open>
  The wait for a created account. The deadline is read from the clock; each turn sleeps for half
  a second, so that 24 turns fill the 12 seconds. Running out of fuel stands for not returning.
\<close>

fun wait_account_loop :: "nat \<Rightarrow> route_env \<Rightarrow> int \<Rightarrow> string \<Rightarrow> solana_account option bpy" where
  "wait_account_loop fuel re deadline a =
     bindE (getsE (\<lambda>w. re_clock_ms re (calls w))) (\<lambda>now.
       if now < deadline then
         bindE (solana_account_info re a) (\<lambda>acc.
           case acc of
             Some x \<Rightarrow> ret (Some x)
           | None \<Rightarrow> (case fuel of
                0 \<Rightarrow> raise NoReturn
              | Suc n \<Rightarrow> thenE (bcall (re_env re) (Sleep 500)) (wait_account_loop n re deadline a)))
       else ret None)"

declare wait_account_loop.simps [simp del]

definition wait_for_solana_account_info :: "route_env \<Rightarrow> string \<Rightarrow> solana_account option bpy" where
  "wait_for_solana_account_info re a =
     bindE (getsE (\<lambda>w. re_clock_ms re (calls w))) (\<lambda>now. wait_account_loop 24 re (now + 12000) a)"

fun first_matching_owner :: "route_env \<Rightarrow> string \<Rightarrow> string list \<Rightarrow> wallet_row list \<Rightarrow> string option" where
  "first_matching_owner re recipient seen [] = None"
| "first_matching_owner re recipient seen (r # rs) =
     (case wl_address r of
        None \<Rightarrow> first_matching_owner re recipient seen rs
      | Some a \<Rightarrow>
          if a = [] \<or> elem a seen then first_matching_owner re recipient seen rs
          else if re_usdc_ata re a = Inr recipient then Some a
          else first_matching_owner re recipient (a # seen) rs)"

definition resolve_solana_owner :: "route_env \<Rightarrow> string option \<Rightarrow> string \<Rightarrow> string option bpy" where
  "resolve_solana_owner re user recipient =
     (if \<not> truthy user then ret None
      else
        (let trading = (\<lambda>r. wl_chain r = ''solana'' \<and> wl_role r = ''trading'');
             verified = (\<lambda>r. truthy (wl_verified_at r));
             direct = filter (\<lambda>r. wl_privy_user_id r = user \<and> trading r) (re_wallets re)
         in bindE (or_http
              (thenE (bcall (re_env re) DbReadWallets)
              (thenE (bcall (re_env re) DbReadMembers)
                (case find (\<lambda>m. fst m = the user) (re_members re) of
                   None \<Rightarrow> ret (filter verified direct)
                 | Some (_, account) \<Rightarrow>
                     thenE (bcall (re_env re) DbReadWallets)
                       (ret (filter verified direct @
                          filter verified (filter (\<lambda>r. wl_account_id r = Some account \<and> trading r) (re_wallets re)))))))
              502 ''Could not resolve Solana owner wallet'') (\<lambda>rows.
            ret (first_matching_owner re recipient [] rows))))"

definition create_solana_usdc_ata :: "route_env \<Rightarrow> string \<Rightarrow> string \<Rightarrow> unit bpy" where
  "create_solana_usdc_ata re owner expected =
     (case re_usdc_ata re owner of
        Inl e \<Rightarrow> if e = NoReturn then raise NoReturn else http 400 ''Invalid Solana owner or mint_recipient''
      | Inr derived \<Rightarrow>
          if derived \<noteq> expected then http 400 (''mint_recipient does not match the owner'' @ CHR 0x27 # ''s Solana USDC ATA'')
          else or_http (bcall (re_env re) (CreateTokenAccount owner expected))
                 502 ''Could not create Solana USDC token account'')"

definition token_program :: string where
  "token_program = ''TokenkegQfeZyiNwAJbNbGKPFXCWuBvf9Ss623VQ5DA''"

definition check_token_account :: "route_env \<Rightarrow> solana_account \<Rightarrow> unit bpy" where
  "check_token_account re acc =
     (if acc_owner acc \<noteq> token_program then
        http 400 ''mint_recipient must be a Solana USDC token account, not wallet owner''
      else if length (acc_data acc) < 64 then http 400 ''mint_recipient is not a valid token account''
      else if re_pubkey_str re (take 32 (acc_data acc)) \<noteq> cctp_solana_usdc_mint (be_settings (re_env re)) then
        http 400 ''mint_recipient token account must be USDC''
      else ret ())"

definition ensure_solana_mint_recipient :: "route_env \<Rightarrow> string \<Rightarrow> string option \<Rightarrow> string option \<Rightarrow> unit bpy" where
  "ensure_solana_mint_recipient re address user solana_owner =
     bindE (or_http (solana_account_info re address) 502 ''Could not validate Solana mint recipient'') (\<lambda>account.
       case account of
         Some acc \<Rightarrow> check_token_account re acc
       | None \<Rightarrow>
           bindE (if truthy solana_owner then ret solana_owner else resolve_solana_owner re user address) (\<lambda>owner.
             if \<not> truthy owner then
               http 400 (''mint_recipient must be an existing Solana USDC token account or match a '' @
                 ''verified Solana trading wallet'')
             else
               thenE (create_solana_usdc_ata re (the owner) address)
               (bindE (or_http (wait_for_solana_account_info re address)
                         502 ''Could not validate Solana mint recipient'') (\<lambda>account.
                  case account of
                    None \<Rightarrow> http 502 ''Solana USDC token account was not created''
                  | Some acc \<Rightarrow> check_token_account re acc))))"

section \<open>Reservations\<close>

definition insert_reservation :: "bridge_env \<Rightarrow> string \<Rightarrow> (string \<Rightarrow> bridge_job) \<Rightarrow> string bpy" where
  "insert_reservation env quote mk =
     or_http (insert_job env mk) 409
       (''Bridge job already exists or could not be reserved for quote '' @ quote)"

definition create_bridge_reservation :: "route_env \<Rightarrow> bridge_reserve_request \<Rightarrow> string bpy" where
  "create_bridge_reservation re body =
     (let env = re_env re in
      thenE (guard_http (rr_quote_id body \<noteq> []) 400 ''quote_id is required'')
      (thenE (guard_http (rr_source_chain body = BASE \<and> rr_dest_chain body = SOLANA) 400
         ''Bridge reservation currently supports source_chain=base and dest_chain=solana'')
      (thenE (guard_http (is_valid_solana_address (rr_mint_recipient body)) 400
         ''mint_recipient must be a Solana address'')
      (thenE (ensure_solana_mint_recipient re (rr_mint_recipient body) (Some (rr_user_id body)) (rr_solana_owner body))
      (bindE (normalize_signed_trade_tx env (rr_dest_chain body) (rr_signed_trade_tx body)) (\<lambda>stx.
      (bindE (or_http (select_jobs env (\<lambda>r. bj_quote_id r = Some (rr_quote_id body)))
                502 ''Could not check for duplicate quote'') (\<lambda>existing.
         case existing of
           e # _ \<Rightarrow> http 409 (''Bridge job already exists for quote '' @ rr_quote_id body @ '' (job '' @ bj_id e @ '')'')
         | [] \<Rightarrow> insert_reservation env (rr_quote_id body)
             (new_job (rr_user_id body) (rr_source_chain body) (rr_dest_chain body) (pending_prefix @ rr_quote_id body)
                (rr_burn_amount body) (rr_mint_recipient body) (Some (rr_quote_id body)) stx)))))))))"

definition reserve_bridge_and_trade :: "route_env \<Rightarrow> bridge_reserve_request \<Rightarrow> string bpy" where
  "reserve_bridge_and_trade re body =
     thenE (validate_bridge_chains (re_env re) (rr_source_chain body) (rr_dest_chain body))
       (create_bridge_reservation re body)"

section \<open>Sponsored Solana burns\<close>

definition create_solana_burn_reservation :: "bridge_env \<Rightarrow> burn_submit_request \<Rightarrow> string bpy" where
  "create_solana_burn_reservation env body =
     thenE (guard_http (truthy (bs_quote_id body)) 400
        ''quote_id is required for Solana CCTP burn submit idempotency'')
     (bindE (or_http (select_jobs env (\<lambda>r. bj_user_id r = bs_user_id body \<and> bj_source_chain r = SOLANA \<and>
                elem (bj_status r) [PENDING, ATTESTING, MINTING, TRADING]))
              502 ''Could not check active bridge jobs'') (\<lambda>active.
        case active of
          e # _ \<Rightarrow> http 409 (''Active Solana bridge job already exists (job '' @ bj_id e @ '', status '' @
                     bridge_state_value (bj_status e) @ '')'')
        | [] \<Rightarrow> insert_reservation env (the (bs_quote_id body))
            (new_job (bs_user_id body) SOLANA (bs_dest_chain body) (pending_prefix @ the (bs_quote_id body))
               (bs_burn_amount body) (bs_mint_recipient body) (bs_quote_id body) (bs_signed_trade_tx body))))"

definition mark_bridge_job_failed :: "bridge_env \<Rightarrow> string \<Rightarrow> string \<Rightarrow> unit bpy" where
  "mark_bridge_job_failed env jid msg =
     catchE (thenE (bcall env (DbUpdateJob jid))
       (set_jobs (tbl_update (\<lambda>r. bj_id r = jid)
          (apply_job_fields (no_fields\<lparr>f_status := Some FAILED, f_error_message := Some (Some (take 500 msg))\<rparr>)))))
       (\<lambda>_. ret ())"

definition finalize_solana_burn_reservation :: "bridge_env \<Rightarrow> string \<Rightarrow> string \<Rightarrow> unit bpy" where
  "finalize_solana_burn_reservation env jid burn =
     bindE (or_http (update_burn env jid burn (\<lambda>r. r\<lparr>bj_status := PENDING\<rparr>)) 502 ''Could not finalize bridge job'') (\<lambda>rows.
       if rows = [] then http 502 ''Bridge job finalize returned no data'' else ret ())"

text \<open>
  \<open>submit_solana_cctp_burn_transaction\<close> of \<open>src/bridge/cctp.py\<close>: decoded and checked before it is sent.
\<close>

definition submit_solana_cctp_burn_transaction :: "bridge_env \<Rightarrow> string \<Rightarrow> string bpy" where
  "submit_solana_cctp_burn_transaction env s =
     (case decode_tx (be_lib env) s of
        None \<Rightarrow> raise (ValueError ''Invalid signed_transaction_base64'')
      | Some tx \<Rightarrow>
          (let signer_results = verify_with_results (be_lib env) tx in
           if signer_results = [] \<or> \<not> list_all id signer_results then
             raise (ValueError ''Solana CCTP burn transaction is missing required signatures'')
           else tx_call env (SubmitBurn s)))"

text \<open>\<open>type(exc).__name__\<close> of the exceptions of the model.\<close>

fun exn_name :: "exn \<Rightarrow> string" where
  "exn_name (ValueError m) = ''ValueError''"
| "exn_name (RuntimeError m) = ''RuntimeError''"
| "exn_name (TypeError m) = ''TypeError''"
| "exn_name (KeyError m) = ''KeyError''"
| "exn_name (HTTPException c m) = ''HTTPException''"
| "exn_name (OtherError m) = ''Exception''"
| "exn_name NoReturn = []"

fun burn_failure :: "exn \<Rightarrow> string" where
  "burn_failure (ValueError m) = m"
| "burn_failure e = exn_name e @ '': '' @ exn_str e"

fun burn_response :: "exn \<Rightarrow> exn" where
  "burn_response (ValueError m) = HTTPException 400 m"
| "burn_response e = HTTPException 502 ''Could not submit Solana CCTP burn''"

definition submit_solana_cctp_burn :: "bridge_env \<Rightarrow> burn_submit_request \<Rightarrow> (string \<times> string) bpy" where
  "submit_solana_cctp_burn env body =
     thenE (guard_http (bs_dest_chain body = BASE) 400 ''Solana CCTP burn submit currently supports dest_chain=base'')
     (thenE (validate_bridge_chains env SOLANA (bs_dest_chain body))
     (thenE (guard_http (eth_address_re (bs_mint_recipient body)) 400 ''mint_recipient must be a Base/EVM address'')
     (bindE (create_solana_burn_reservation env body) (\<lambda>jid.
      bindE (catchE (submit_solana_cctp_burn_transaction env (bs_signed_transaction body)) (\<lambda>e.
               thenE (mark_bridge_job_failed env jid (burn_failure e)) (raise (burn_response e)))) (\<lambda>burn.
      thenE (finalize_solana_burn_reservation env jid burn)
      (thenE (enqueue_job jid) (ret (burn, jid))))))))"

text \<open>
  \<open>prepare_solana_cctp_burn\<close>: the checks and the instruction data; key derivation and the serialised
  transaction belong to the library.
\<close>

definition or_400 :: "exn + 'a \<Rightarrow> string \<Rightarrow> 'a bpy" where
  "or_400 r msg = (case r of Inl _ \<Rightarrow> http 400 msg | Inr x \<Rightarrow> ret x)"

definition prepare_solana_cctp_burn :: "route_env \<Rightarrow> burn_prepare_request \<Rightarrow> (byte list \<times> nat \<times> nat \<times> string \<times> string) bpy" where
  "prepare_solana_cctp_burn re body =
     (let env = re_env re; s = be_settings env in
      thenE (guard_http (bp_dest_chain body = BASE) 400 ''Solana CCTP burn prepare currently supports dest_chain=base'')
      (thenE (validate_bridge_chains env SOLANA (bp_dest_chain body))
      (thenE (guard_http (is_valid_solana_address (bp_owner body)) 400 ''Invalid Solana owner address'')
      (thenE (guard_http (eth_address_re (bp_mint_recipient body)) 400 ''mint_recipient must be a Base/EVM address'')
      (thenE (guard_http (truthy (bp_destination_caller body) \<longrightarrow> eth_address_re (the (bp_destination_caller body))) 400
         ''destination_caller must be a Base/EVM address'')
      (bindE (or_400 (int_or_raise (bp_burn_amount body)) ''burn_amount and max_fee must be integer strings'') (\<lambda>amount.
       bindE (or_400 (int_or_raise (bp_max_fee body)) ''burn_amount and max_fee must be integer strings'') (\<lambda>max_fee.
         (let dest_domain = get_domain_for_chain s (bp_dest_chain body) in
          case build_solana_burn_data (re_digest re) (re_relayer_key re) (int dest_domain) (bp_mint_recipient body)
                 amount max_fee (bp_min_finality body) (bp_destination_caller body) of
            Inl (ValueError m) \<Rightarrow> http 400 m
          | Inl NoReturn \<Rightarrow> raise NoReturn
          | Inl _ \<Rightarrow> http 502 ''Could not prepare Solana CCTP burn''
          | Inr data \<Rightarrow> ret (data, get_domain_for_chain s SOLANA, dest_domain, int_str amount, int_str max_fee))))))))))"

definition bridge_status :: "bridge_env \<Rightarrow> string \<Rightarrow> bridge_job bpy" where
  "bridge_status env jid =
     bindE (or_http (select_jobs env (\<lambda>r. bj_id r = jid)) 502 ''Could not read bridge job'') (\<lambda>rows.
       case rows of [] \<Rightarrow> http 404 (''Bridge job '' @ jid @ '' not found'') | r # _ \<Rightarrow> ret r)"

section \<open>Properties\<close>

lemma wp_or_http [wps]:
  "wp (or_http m code msg) Q E w =
   wp m Q (\<lambda>e w'. if e = NoReturn then E e w' else E (HTTPException code msg) w') w"
  by (simp add: or_http_def wps)

lemma wp_guard_http [wps]:
  "wp (guard_http ok code msg) Q E w = (if ok then Q () w else E (HTTPException code msg) w)"
  by (simp add: guard_http_def wps)

text \<open>Steps that leave the tables and the queue alone, whatever they answer.\<close>

definition tables_kept :: "bridge_world \<Rightarrow> bridge_world \<Rightarrow> bool" where
  "tables_kept w w' \<longleftrightarrow> bw_jobs w' = bw_jobs w \<and> bw_queue w' = bw_queue w \<and> bw_intents w' = bw_intents w \<and>
     bw_events w' = bw_events w"

interpretation tables: world_order tables_kept
  by unfold_locales (auto simp: tables_kept_def)

lemma tables_call: "grows tables_kept (bcall env c)"
  by (rule grows_perform) (simp add: tables_kept_def)

lemma tables_guard: "grows tables_kept (guard_http ok code msg)"
  unfolding guard_http_def by (intro tables.rules)

lemma tables_or_http: "grows tables_kept m \<Longrightarrow> grows tables_kept (or_http m code msg)"
  unfolding or_http_def by (intro tables.rules)

lemma tables_select: "grows tables_kept (select_jobs env p)"
  unfolding select_jobs_def by (intro tables.rules tables_call)

lemma tables_validate:
  "grows tables_kept (validate_bridge_chains env src dst)" "grows tables_kept (validate_tx_hash tx c)"
  unfolding validate_bridge_chains_def validate_tx_hash_def by (intro tables.rules tables_guard)+

lemma tables_normalize: "grows tables_kept (normalize_signed_trade_tx env dst tx)"
  unfolding normalize_signed_trade_tx_def
  by (auto intro!: tables.rules split: sum.split exn.split)

lemma tables_account: "grows tables_kept (solana_account_info re a)"
  unfolding solana_account_info_def by (intro tables.rules tables_call)

lemma tables_wait_loop: "grows tables_kept (wait_account_loop fuel re deadline a)"
proof (induction fuel)
  case 0
  show ?case by (subst wait_account_loop.simps) (auto intro!: tables.rules tables_account)
next
  case (Suc n)
  then show ?case by (subst wait_account_loop.simps) (auto intro!: tables.rules tables_account tables_call)
qed

lemma tables_ensure: "grows tables_kept (ensure_solana_mint_recipient re a user owner)"
  unfolding ensure_solana_mint_recipient_def resolve_solana_owner_def create_solana_usdc_ata_def
    check_token_account_def wait_for_solana_account_info_def Let_def
  by (intro tables.rules tables_or_http tables_account tables_call tables_wait_loop)

text \<open>The broadcasts of burns.\<close>

fun is_burn :: "bridge_call \<Rightarrow> bool" where
  "is_burn (SubmitBurn _) = True"
| "is_burn _ = False"

definition burns :: "bridge_world \<Rightarrow> bridge_call list" where
  "burns w = filter is_burn (calls w)"

text \<open>The two writes: the insertion of a job and the update of a burn transaction.\<close>

lemma wp_insert_job:
  assumes "\<And>w1. tables_kept w w1 \<Longrightarrow> burns w1 = burns w \<Longrightarrow> (\<And>e. E e w1)"
    and "\<And>w1 i. bw_jobs w1 = bw_jobs w @ [mk i] \<Longrightarrow> \<not> job_conflict (mk i) (bw_jobs w) \<Longrightarrow>
        bw_queue w1 = bw_queue w \<Longrightarrow> burns w1 = burns w \<Longrightarrow> Q i w1"
  shows "wp (insert_job env mk) Q E w"
  using assms by (auto simp: insert_job_def wps tables_kept_def burns_def split: option.split)

lemma wp_update_burn:
  assumes "\<And>w1. tables_kept w w1 \<Longrightarrow> burns w1 = burns w \<Longrightarrow> (\<And>e. E e w1)"
    and "\<And>w1. bw_jobs w1 = tbl_update (\<lambda>r. bj_id r = jid) (\<lambda>r. (g r)\<lparr>burn_tx_hash := burn\<rparr>) (bw_jobs w) \<Longrightarrow>
        \<forall>r \<in> set (bw_jobs w). bj_id r = jid \<longrightarrow> \<not> burn_taken jid burn (bw_jobs w) \<Longrightarrow> bw_queue w1 = bw_queue w \<Longrightarrow>
        burns w1 = burns w \<Longrightarrow> Q (filter (\<lambda>r. bj_id r = jid) (bw_jobs w1)) w1"
  shows "wp (update_burn env jid burn g) Q E w"
  using assms by (auto simp: update_burn_def wps tables_kept_def burns_def list_ex_iff split: option.split)


lemma update_keys: "(\<And>r. key (g r) = key r) \<Longrightarrow> key ` set (tbl_update p g rows) = key ` set rows"
  by (induction rows) auto

lemma update_ball: "(\<And>r. p r \<Longrightarrow> P (g r)) \<Longrightarrow> (\<And>r. \<not> p r \<Longrightarrow> P r) \<Longrightarrow> \<forall>r \<in> set (tbl_update p g rows). P r"
  by (induction rows) auto

lemma update_absent: "\<forall>r \<in> set rows. \<not> p r \<Longrightarrow> tbl_update p f rows = rows"
  by (induction rows) auto

text \<open>Both writes keep the unique indices.\<close>

lemma unique_jobs_update_burn:
  assumes "unique_jobs rows" "\<forall>r \<in> set rows. bj_id r = jid \<longrightarrow> \<not> burn_taken jid burn rows"
    and "\<And>r. bj_id (g r) = bj_id r" "\<And>r. bj_quote_id (g r) = bj_quote_id r"
  shows "unique_jobs (tbl_update (\<lambda>r. bj_id r = jid) (\<lambda>r. (g r)\<lparr>burn_tx_hash := burn\<rparr>) rows)"
  using assms(1,2)
proof (induction rows)
  case Nil
  then show ?case by simp
next
  case (Cons x rows)
  let ?u = "tbl_update (\<lambda>r. bj_id r = jid) (\<lambda>r. (g r)\<lparr>burn_tx_hash := burn\<rparr>)"
  have keys: "map bj_id (?u rows) = map bj_id rows" "map bj_quote_id (?u rows) = map bj_quote_id rows" for rows
    by (induction rows) (auto simp: assms(3,4))
  have quotes: "map bj_quote_id (filter (\<lambda>r. bj_quote_id r \<noteq> None) (?u rows)) =
      map bj_quote_id (filter (\<lambda>r. bj_quote_id r \<noteq> None) rows)" for rows
    by (induction rows) (auto simp: assms(4))
  have burns: "burn_tx_hash r \<in> insert burn (burn_tx_hash ` set rows)" if "r \<in> set (?u rows)" for r
    using that by (auto simp: set_tbl_update)
  have "distinct (map burn_tx_hash (?u (x # rows)))"
  proof (cases "bj_id x = jid")
    case True
    then have u: "?u rows = rows" using Cons.prems(1) by (intro update_absent) (auto simp: unique_jobs_def image_iff)
    have "\<forall>r \<in> set rows. bj_id r \<noteq> jid" using Cons.prems(1) True by (auto simp: unique_jobs_def image_iff)
    moreover have "\<forall>r \<in> set rows. bj_id r = jid \<or> burn_tx_hash r \<noteq> burn"
      using Cons.prems(2) True by (auto simp: burn_taken_def list_ex_iff)
    ultimately have "burn \<notin> burn_tx_hash ` set rows" by blast
    with True Cons.prems(1) show ?thesis by (simp add: u unique_jobs_def)
  next
    case False
    have r: "unique_jobs rows" "\<forall>r \<in> set rows. bj_id r = jid \<longrightarrow> \<not> burn_taken jid burn rows"
      using Cons.prems by (auto simp: unique_jobs_def burn_taken_def split: if_splits)
    have "burn_tx_hash x \<notin> burn_tx_hash ` set (?u rows)"
    proof (cases "jid \<in> bj_id ` set rows")
      case True
      then have "burn_tx_hash x \<noteq> burn" using Cons.prems(2) False by (auto simp: burn_taken_def)
      moreover have "burn_tx_hash x \<notin> burn_tx_hash ` set rows" using Cons.prems(1) by (simp add: unique_jobs_def)
      ultimately have no: "burn_tx_hash x \<notin> insert burn (burn_tx_hash ` set rows)" by simp
      show ?thesis
      proof
        assume "burn_tx_hash x \<in> burn_tx_hash ` set (?u rows)"
        then obtain r where "burn_tx_hash x = burn_tx_hash r" "r \<in> set (?u rows)" by blast
        with burns [of r] no show False by simp
      qed
    next
      case no: False
      then have "?u rows = rows" by (intro update_absent) auto
      with Cons.prems(1) show ?thesis by (simp add: unique_jobs_def)
    qed
    with False Cons.IH [OF r] show ?thesis by (auto simp: unique_jobs_def)
  qed
  with Cons.prems(1) show ?case
    by (simp only: unique_jobs_def keys quotes)
qed

text \<open>What a successful request leaves in the table.\<close>

definition job_entered :: "bridge_and_trade_request \<Rightarrow> string \<Rightarrow> bridge_world \<Rightarrow> bridge_world \<Rightarrow> bool" where
  "job_entered body jid w w' \<longleftrightarrow> bw_queue w' = bw_queue w @ [jid] \<and> unique_jobs (bw_jobs w') \<and>
     filter (\<lambda>r. bj_id r \<noteq> jid) (bw_jobs w') = filter (\<lambda>r. bj_id r \<noteq> jid) (bw_jobs w) \<and>
     (\<exists>r. tbl_get bj_id jid (bw_jobs w') = Some r \<and> bj_status r = PENDING \<and>
        burn_tx_hash r = br_burn_tx_hash body \<and> burn_amount r = br_burn_amount body \<and>
        mint_recipient r = br_mint_recipient body \<and> bj_user_id r = br_user_id body \<and>
        bj_source_chain r = br_source_chain body \<and> bj_dest_chain r = br_dest_chain body \<and>
        (truthy (br_quote_id body) \<longrightarrow> bj_quote_id r = br_quote_id body))"

lemma tbl_get_last: "i \<notin> key ` set rows \<Longrightarrow> key j = i \<Longrightarrow> tbl_get key i (rows @ [j]) = Some j"
  by (induction rows) auto

lemma wp_insert_and_enqueue:
  assumes "unique_jobs (bw_jobs w)" "tables_kept w0 w"
    and mk: "\<And>i. bj_id (mk i) = i" "\<And>i. bj_status (mk i) = PENDING" "\<And>i. burn_tx_hash (mk i) = br_burn_tx_hash body"
      "\<And>i. burn_amount (mk i) = br_burn_amount body" "\<And>i. mint_recipient (mk i) = br_mint_recipient body"
      "\<And>i. bj_user_id (mk i) = br_user_id body" "\<And>i. bj_source_chain (mk i) = br_source_chain body"
      "\<And>i. bj_dest_chain (mk i) = br_dest_chain body" "\<And>i. bj_quote_id (mk i) = br_quote_id body"
  shows "wp (insert_and_enqueue env mk) (\<lambda>jid. job_entered body jid w0) (\<lambda>_. tables_kept w0) w"
proof -
  have "wp (insert_job env mk) (\<lambda>jid w1. job_entered body jid w0 (w1\<lparr>bw_queue := bw_queue w1 @ [jid]\<rparr>))
      (\<lambda>_. tables_kept w0) w"
  proof (rule wp_insert_job)
    fix w1 :: bridge_world and i
    assume w1: "bw_jobs w1 = bw_jobs w @ [mk i]" "\<not> job_conflict (mk i) (bw_jobs w)" "bw_queue w1 = bw_queue w"
    then have "i \<notin> bj_id ` set (bw_jobs w)" by (auto simp: job_conflict_def list_ex_iff mk(1))
    then have "tbl_get bj_id i (bw_jobs w @ [mk i]) = Some (mk i)" by (simp add: tbl_get_last mk(1))
    with w1 assms(1,2) show "job_entered body i w0 (w1\<lparr>bw_queue := bw_queue w1 @ [i]\<rparr>)"
      by (simp add: job_entered_def unique_jobs_insert tables_kept_def mk)
  qed (use assms(2) in \<open>auto intro: tables.le_trans\<close>)
  then show ?thesis
    unfolding insert_and_enqueue_def wp_bind wp_or_http by (rule wp_mono) (simp_all add: wps)
qed


lemma wp_finalize_reservation:
  assumes "unique_jobs (bw_jobs w)" "tables_kept w0 w" "reserved \<in> set (bw_jobs w)" "is_reservation_for body reserved"
    and quote: "bj_quote_id reserved = br_quote_id body"
  shows "wp (finalize_bridge_reservation env reserved body) (\<lambda>jid. job_entered body jid w0) (\<lambda>_. tables_kept w0) w"
proof -
  let ?jid = "bj_id reserved"
  have norm: "wp (normalize_signed_trade_tx env d tx) (\<lambda>_. tables_kept w) (\<lambda>_. tables_kept w) w" for d tx
    by (rule tables.wp_le [OF tables_normalize tables.le_refl])
  have upd: "wp (update_burn env ?jid (br_burn_tx_hash body) (\<lambda>r. r\<lparr>burn_amount := br_burn_amount body,
         mint_recipient := br_mint_recipient body, signed_trade_tx := stx, error_message := None\<rparr>))
      (\<lambda>rows w1. case rows of [] \<Rightarrow> tables_kept w0 w1
         | r # _ \<Rightarrow> job_entered body (bj_id r) w0 (w1\<lparr>bw_queue := bw_queue w1 @ [bj_id r]\<rparr>)) (\<lambda>_. tables_kept w0) w1"
    if k: "tables_kept w w1" for stx w1
  proof (rule wp_update_burn)
    let ?g = "\<lambda>r. r\<lparr>burn_amount := br_burn_amount body, mint_recipient := br_mint_recipient body,
      signed_trade_tx := stx, error_message := None\<rparr>"
    fix w2 :: bridge_world
    assume w2: "bw_jobs w2 = tbl_update (\<lambda>r. bj_id r = ?jid) (\<lambda>r. (?g r)\<lparr>burn_tx_hash := br_burn_tx_hash body\<rparr>) (bw_jobs w1)"
      "\<forall>r \<in> set (bw_jobs w1). bj_id r = ?jid \<longrightarrow> \<not> burn_taken ?jid (br_burn_tx_hash body) (bw_jobs w1)"
      "bw_queue w2 = bw_queue w1"
    have j: "bw_jobs w1 = bw_jobs w" using k by (simp add: tables_kept_def)
    let ?h = "\<lambda>r. (?g r)\<lparr>burn_tx_hash := br_burn_tx_hash body\<rparr>"
    have u: "unique_jobs (bw_jobs w2)"
      unfolding w2(1) using assms(1) w2(2) by (intro unique_jobs_update_burn) (simp_all add: j)
    have one: "filter (\<lambda>r. bj_id r = ?jid) (tbl_update (\<lambda>r. bj_id r = ?jid) ?h rows) = [?h reserved] \<and>
        tbl_get bj_id ?jid (tbl_update (\<lambda>r. bj_id r = ?jid) ?h rows) = Some (?h reserved) \<and>
        filter (\<lambda>r. bj_id r \<noteq> ?jid) (tbl_update (\<lambda>r. bj_id r = ?jid) ?h rows) = filter (\<lambda>r. bj_id r \<noteq> ?jid) rows"
      if "distinct (map bj_id rows)" "reserved \<in> set rows" for rows
      using that
    proof (induction rows)
      case (Cons x rows)
      show ?case
      proof (cases "x = reserved")
        case True
        then have "\<forall>r \<in> set rows. bj_id r \<noteq> ?jid" using Cons.prems(1) by (auto simp: image_iff)
        then show ?thesis using True by (simp add: update_absent filter_empty_conv)
      next
        case False
        then have "reserved \<in> set rows" "bj_id x \<noteq> ?jid" using Cons.prems by (auto simp: image_iff)
        then show ?thesis using Cons by simp
      qed
    qed simp
    have rows: "filter (\<lambda>r. bj_id r = ?jid) (bw_jobs w2) = [?h reserved]"
      "tbl_get bj_id ?jid (bw_jobs w2) = Some (?h reserved)"
      "filter (\<lambda>r. bj_id r \<noteq> ?jid) (bw_jobs w2) = filter (\<lambda>r. bj_id r \<noteq> ?jid) (bw_jobs w)"
      unfolding w2(1) using one [of "bw_jobs w"] assms(1,3) by (simp_all add: j unique_jobs_def)
    have "job_entered body ?jid w0 (w2\<lparr>bw_queue := bw_queue w2 @ [?jid]\<rparr>)"
      using u rows(2,3) assms(2,4) k w2(3) quote
      by (simp add: job_entered_def is_reservation_for_def tables_kept_def)
    then show "case filter (\<lambda>r. bj_id r = ?jid) (bw_jobs w2) of [] \<Rightarrow> tables_kept w0 w2
         | r # _ \<Rightarrow> job_entered body (bj_id r) w0 (w2\<lparr>bw_queue := bw_queue w2 @ [bj_id r]\<rparr>)"
      by (simp add: rows(1))
  qed (use k assms(2) in \<open>auto intro: tables.le_trans\<close>)
  have upd': "wp (bindE (or_http (update_burn env ?jid (br_burn_tx_hash body) (\<lambda>r. r\<lparr>burn_amount := br_burn_amount body,
         mint_recipient := br_mint_recipient body, signed_trade_tx := stx, error_message := None\<rparr>))
            502 ''Could not finalize bridge job reservation'') (\<lambda>rows.
       case rows of
         [] \<Rightarrow> http 502 ''Bridge job reservation finalize returned no data''
       | r # _ \<Rightarrow> thenE (enqueue_job (bj_id r)) (ret (bj_id r))))
      (\<lambda>jid. job_entered body jid w0) (\<lambda>_. tables_kept w0) w1" if k: "tables_kept w w1" for stx w1
    unfolding wp_bind wp_or_http
    by (rule wp_mono [OF upd [OF k]]) (auto simp: wps split: list.split)
  show ?thesis
    unfolding finalize_bridge_reservation_def wp_bind [of "normalize_signed_trade_tx _ _ _"]
    by (rule wp_mono [OF norm]) (use upd' assms(2) in \<open>auto intro: tables.le_trans\<close>)
qed

lemma wp_create_bridge_job:
  assumes "unique_jobs (bw_jobs w)"
  shows "wp (create_bridge_job env body)
     (\<lambda>jid w'. job_entered body jid w w' \<and> (\<forall>r \<in> set (bw_jobs w). burn_tx_hash r \<noteq> br_burn_tx_hash body))
     (\<lambda>_. tables_kept w) w"
    (is "wp _ ?Q ?E w")
proof -
  have ent: "wp m ?Q ?E w1" if "wp m (\<lambda>jid. job_entered body jid w) ?E w1"
    "\<forall>r \<in> set (bw_jobs w). burn_tx_hash r \<noteq> br_burn_tx_hash body" for m w1
    using that(1) by (rule wp_mono) (use that(2) in auto)
  have jobs: "unique_jobs (bw_jobs w1)" if "tables_kept w w1" for w1 using that assms by (simp add: tables_kept_def)
  have ins: "wp (insert_and_enqueue env (new_job (br_user_id body) (br_source_chain body) (br_dest_chain body)
      (br_burn_tx_hash body) (br_burn_amount body) (br_mint_recipient body) (br_quote_id body) stx))
      (\<lambda>jid. job_entered body jid w) ?E w1" if "tables_kept w w1" for stx w1
    by (rule wp_insert_and_enqueue [OF jobs [OF that] that]) (simp_all add: new_job_def)
  have sel: "wp (or_http (select_jobs env p) c msg) (\<lambda>rows w2. tables_kept w w2 \<and> rows = filter p (bw_jobs w)) ?E w1"
    if "tables_kept w w1" for p c msg w1
    using that by (auto simp: select_jobs_def wps tables_kept_def split: option.split)
  have norm: "wp (normalize_signed_trade_tx env d tx) (\<lambda>_. tables_kept w) (\<lambda>_. tables_kept w) w" for d tx
    by (rule tables.wp_le [OF tables_normalize tables.le_refl])
  have quote: "wp (bindE (or_http (select_jobs env (\<lambda>r. bj_quote_id r = br_quote_id body)) 502 msg) (\<lambda>existing_quote.
        case existing_quote of
          [] \<Rightarrow> insert_and_enqueue env (new_job (br_user_id body) (br_source_chain body) (br_dest_chain body)
             (br_burn_tx_hash body) (br_burn_amount body) (br_mint_recipient body) (br_quote_id body) stx)
        | reserved # _ \<Rightarrow> if is_reservation_for body reserved then finalize_bridge_reservation env reserved body
            else http 409 (''Bridge job already exists for quote '' @ the (br_quote_id body) @
                      '' (job '' @ bj_id reserved @ '')''))) (\<lambda>jid. job_entered body jid w) ?E w1"
    if k: "tables_kept w w1" for stx w1 msg
    unfolding wp_bind
  proof (rule wp_mono [OF sel [OF k]], goal_cases)
    case (1 rows w2)
    show ?case
    proof (cases rows)
      case Nil
      with 1 ins show ?thesis by simp
    next
      case (Cons r rs)
      have k2: "tables_kept w w2" and rows: "rows = filter (\<lambda>r. bj_quote_id r = br_quote_id body) (bw_jobs w)"
        using 1 by simp_all
      have "r \<in> set rows" by (simp add: Cons)
      then have r: "r \<in> set (bw_jobs w2)" "bj_quote_id r = br_quote_id body"
        using k2 unfolding rows by (simp_all add: tables_kept_def)
      then show ?thesis
        using Cons wp_finalize_reservation [OF jobs [OF k2] k2 r(1) _ r(2)] k2 by (simp add: wps)
    qed
  qed auto
  show ?thesis
    unfolding create_bridge_job_def wp_bind [of "normalize_signed_trade_tx _ _ _"]
  proof (rule wp_mono [OF norm], goal_cases)
    case (1 stx w1)
    show ?case
      unfolding wp_bind [of "or_http (select_jobs env (\<lambda>r. burn_tx_hash r = br_burn_tx_hash body)) _ _"]
    proof (rule wp_mono [OF sel [OF 1]], goal_cases)
      case (1 rows w2)
      show ?case
      proof (cases rows)
        case Nil
        have "filter (\<lambda>r. burn_tx_hash r = br_burn_tx_hash body) (bw_jobs w) = []" using 1 Nil by simp
        then have "\<forall>r \<in> set (bw_jobs w). burn_tx_hash r \<noteq> br_burn_tx_hash body"
          by (simp add: filter_empty_conv)
        moreover have "wp (if truthy (br_quote_id body) then
              bindE (or_http (select_jobs env (\<lambda>r. bj_quote_id r = br_quote_id body)) 502 ''Could not check for duplicate quote'') (\<lambda>existing_quote.
                case existing_quote of
                  [] \<Rightarrow> insert_and_enqueue env (new_job (br_user_id body) (br_source_chain body) (br_dest_chain body)
                    (br_burn_tx_hash body) (br_burn_amount body) (br_mint_recipient body) (br_quote_id body) stx)
                | reserved # _ \<Rightarrow> if is_reservation_for body reserved then finalize_bridge_reservation env reserved body
                    else http 409 (''Bridge job already exists for quote '' @ the (br_quote_id body) @
                      '' (job '' @ bj_id reserved @ '')''))
            else insert_and_enqueue env (new_job (br_user_id body) (br_source_chain body) (br_dest_chain body)
                    (br_burn_tx_hash body) (br_burn_amount body) (br_mint_recipient body) (br_quote_id body) stx))
            (\<lambda>jid. job_entered body jid w) ?E w2"
          using ins quote 1 by simp
        ultimately show ?thesis using Nil by (simp only: Let_def list.case ent)
      next
        case (Cons r rs)
        from 1 have "tables_kept w w2" by simp
        then show ?thesis by (simp add: Cons wps)
      qed
    qed auto
  qed auto
qed



definition demo_request :: bridge_and_trade_request where
  "demo_request = \<lparr>br_burn_tx_hash = ''0x'' @ replicate 64 CHR ''a'', br_source_chain = BASE, br_dest_chain = SOLANA,
     br_user_id = ''u1'', br_mint_recipient = ''r'', br_solana_owner = None, br_burn_amount = ''100'',
     br_quote_id = Some ''q1'', br_signed_trade_tx = None\<rparr>"

lemma demo_env_simps: "be_fails demo_env h = None" "be_lib demo_env = demo_lib" "be_tx demo_env h = ''tx'' @ nat_str (length h)"
  "be_new_id demo_env h = ''id'' @ nat_str (length h)"
  by (simp_all add: demo_env_def)

lemma demo_chains: "validate_bridge_chains demo_env BASE SOLANA = ret ()" "validate_bridge_chains demo_env SOLANA BASE = ret ()"
  by (simp_all add: validate_bridge_chains_def guard_http_def is_chain_tradable_def tradable_chains_allowlist_def
      str_or_def default_tradable_chains_def parse_allowlist_def strip_def is_space_def Let_def lower_def lower_char_def
      demo_env_def demo_app_def run_defs)


section \<open>Burns\<close>

definition backed :: "burn_submit_request \<Rightarrow> bridge_world \<Rightarrow> bool" where
  "backed body w \<longleftrightarrow> (\<exists>r \<in> set (bw_jobs w). bj_quote_id r = bs_quote_id body \<and> bj_user_id r = bs_user_id body \<and>
     bj_source_chain r = SOLANA)"

definition no_active_burn :: "burn_submit_request \<Rightarrow> bridge_world \<Rightarrow> bool" where
  "no_active_burn body w \<longleftrightarrow>
     (\<forall>r \<in> set (bw_jobs w). bj_user_id r = bs_user_id body \<and> bj_source_chain r = SOLANA \<longrightarrow>
        bj_status r \<in> {COMPLETED, MINT_COMPLETED, FAILED, MINT_COMPLETED_TRADE_FAILED}) \<and>
     (\<forall>r \<in> set (bw_jobs w). bj_quote_id r \<noteq> bs_quote_id body) \<and> truthy (bs_quote_id body)"

text \<open>
  What holds however a submission ends: no burn was sent, or exactly one was, for a fresh quote of a user without an
  active Solana job, and a row of the table records it.
\<close>

definition burn_safe :: "burn_submit_request \<Rightarrow> bridge_world \<Rightarrow> bridge_world \<Rightarrow> bool" where
  "burn_safe body w w' \<longleftrightarrow> burns w' = burns w \<or>
     (\<exists>t. burns w' = SubmitBurn t # burns w) \<and> no_active_burn body w \<and> backed body w'"

lemma backed_update:
  assumes "\<And>r. bj_quote_id (g r) = bj_quote_id r" "\<And>r. bj_user_id (g r) = bj_user_id r"
    "\<And>r. bj_source_chain (g r) = bj_source_chain r" "bw_jobs w' = tbl_update p g (bw_jobs w)" "backed body w"
  shows "backed body w'"
proof -
  from assms(5) obtain r where r: "r \<in> set (bw_jobs w)" "bj_quote_id r = bs_quote_id body"
    "bj_user_id r = bs_user_id body" "bj_source_chain r = SOLANA" by (auto simp: backed_def)
  then have "(if p r then g r else r) \<in> set (bw_jobs w')" by (auto simp: assms(4) set_tbl_update)
  with r show ?thesis unfolding backed_def by (intro bexI) (auto simp: assms(1-3))
qed

definition finalize_error :: exn where
  "finalize_error = HTTPException 502 ''Could not finalize bridge job''"

lemma wp_burn_reservation:
  assumes "\<And>jid w1. no_active_burn body w \<Longrightarrow> backed body w1 \<Longrightarrow> bw_queue w1 = bw_queue w \<Longrightarrow> burns w1 = burns w \<Longrightarrow>
      jid \<notin> bj_id ` set (bw_jobs w) \<Longrightarrow>
      bw_jobs w1 = bw_jobs w @ [new_job (bs_user_id body) SOLANA (bs_dest_chain body) (pending_prefix @ the (bs_quote_id body))
         (bs_burn_amount body) (bs_mint_recipient body) (bs_quote_id body) (bs_signed_trade_tx body) jid] \<Longrightarrow> Q jid w1"
    and "\<And>e w1. bw_queue w1 = bw_queue w \<Longrightarrow> burns w1 = burns w \<Longrightarrow> e \<noteq> finalize_error \<Longrightarrow> E e w1"
  shows "wp (create_solana_burn_reservation env body) Q E w"
proof -
  let ?mk = "new_job (bs_user_id body) SOLANA (bs_dest_chain body) (pending_prefix @ the (bs_quote_id body))
         (bs_burn_amount body) (bs_mint_recipient body) (bs_quote_id body) (bs_signed_trade_tx body)"
  let ?w1 = "w\<lparr>calls := DbReadJobs # calls w\<rparr>"
  let ?act = "\<lambda>r. bj_user_id r = bs_user_id body \<and> bj_source_chain r = SOLANA \<and> elem (bj_status r) [PENDING, ATTESTING, MINTING, TRADING]"
  have e: "E x w1" if "tables_kept w w1" "burns w1 = burns w" "x \<noteq> finalize_error" for x w1
    using that by (intro assms(2)) (auto simp: tables_kept_def)
  have w1: "tables_kept w ?w1" "burns ?w1 = burns w" by (simp_all add: tables_kept_def burns_def)
  have ins: "wp (insert_reservation env (the (bs_quote_id body)) ?mk) Q E ?w1"
    if act: "filter ?act (bw_jobs w) = []" and q: "truthy (bs_quote_id body)"
    unfolding insert_reservation_def wp_or_http
  proof (rule wp_insert_job)
    fix w2 :: bridge_world and i
    assume w2: "bw_jobs w2 = bw_jobs ?w1 @ [?mk i]" "\<not> job_conflict (?mk i) (bw_jobs ?w1)" "bw_queue w2 = bw_queue ?w1"
      "burns w2 = burns ?w1"
    show "Q i w2"
    proof (rule assms(1))
      show "no_active_burn body w"
        unfolding no_active_burn_def
      proof (intro conjI ballI impI q)
        fix r assume r: "r \<in> set (bw_jobs w)" "bj_user_id r = bs_user_id body \<and> bj_source_chain r = SOLANA"
        then have "\<not> ?act r" using act by (simp add: filter_empty_conv)
        with r show "bj_status r \<in> {COMPLETED, MINT_COMPLETED, FAILED, MINT_COMPLETED_TRADE_FAILED}"
          by (cases "bj_status r") auto
      next
        fix r assume "r \<in> set (bw_jobs w)"
        with w2(2) q show "bj_quote_id r \<noteq> bs_quote_id body"
          by (auto simp: job_conflict_def list_ex_iff new_job_def)
      qed
      show "backed body w2" by (simp add: backed_def w2(1) new_job_def)
      show "i \<notin> bj_id ` set (bw_jobs w)" using w2(2) by (auto simp: job_conflict_def list_ex_iff new_job_def)
    qed (use w2 w1 in simp_all)
  qed (use e w1 in \<open>auto simp: tables_kept_def finalize_error_def\<close>)
  show ?thesis
    using ins e [OF tables.le_refl refl] e [OF w1]
    by (auto simp: finalize_error_def create_solana_burn_reservation_def wps select_jobs_def split: option.split list.split)
qed


lemma new_job_simps [simp]:
  "bj_id (new_job u s d b a m q t i) = i" "bj_status (new_job u s d b a m q t i) = PENDING"
  "burn_tx_hash (new_job u s d b a m q t i) = b" "bj_user_id (new_job u s d b a m q t i) = u"
  "bj_source_chain (new_job u s d b a m q t i) = s" "bj_dest_chain (new_job u s d b a m q t i) = d"
  "bj_quote_id (new_job u s d b a m q t i) = q"
  by (simp_all add: new_job_def)

text \<open>The broadcast and its two outcomes, from the world after the reservation.\<close>

lemma wp_mark_failed:
  assumes "backed body w"
    and "\<And>w1. backed body w1 \<Longrightarrow> bw_queue w1 = bw_queue w \<Longrightarrow> burns w1 = burns w \<Longrightarrow> Q () w1"
    and "\<And>w1. backed body w1 \<Longrightarrow> bw_queue w1 = bw_queue w \<Longrightarrow> burns w1 = burns w \<Longrightarrow> E NoReturn w1"
  shows "wp (mark_bridge_job_failed env jid msg) Q E w"
proof -
  let ?w1 = "w\<lparr>calls := DbUpdateJob jid # calls w\<rparr>"
  let ?w2 = "?w1\<lparr>bw_jobs := tbl_update (\<lambda>r. bj_id r = jid) (apply_job_fields (no_fields\<lparr>f_status := Some FAILED,
      f_error_message := Some (Some (take 500 msg))\<rparr>)) (bw_jobs w)\<rparr>"
  have "backed body ?w1" using assms(1) by (simp add: backed_def)
  moreover have "backed body ?w2"
    by (rule backed_update [OF _ _ _ _ assms(1)]) (simp_all add: apply_job_fields_def)
  ultimately show ?thesis
    using assms(2) [of ?w1] assms(2) [of ?w2] assms(3) [of ?w1]
    by (auto simp: mark_bridge_job_failed_def wps burns_def split: option.split)
qed

lemma wp_submit_burn_tx:
  assumes "\<And>w1 t. bw_jobs w1 = bw_jobs w \<Longrightarrow> bw_queue w1 = bw_queue w \<Longrightarrow> burns w1 = SubmitBurn (bs_signed_transaction body) # burns w \<Longrightarrow> Q t w1"
    and "\<And>w1 e. bw_jobs w1 = bw_jobs w \<Longrightarrow> bw_queue w1 = bw_queue w \<Longrightarrow>
      burns w1 = burns w \<or> burns w1 = SubmitBurn (bs_signed_transaction body) # burns w \<Longrightarrow> E e w1"
  shows "wp (submit_solana_cctp_burn_transaction env (bs_signed_transaction body)) Q E w"
  using assms by (auto simp: submit_solana_cctp_burn_transaction_def wps Let_def burns_def split: option.split)

lemma wp_finalize_burn:
  assumes "backed body w" "jid \<in> bj_id ` set (bw_jobs w)"
    and "\<And>w1. backed body w1 \<Longrightarrow> bw_queue w1 = bw_queue w \<Longrightarrow> burns w1 = burns w \<Longrightarrow>
       (\<forall>r \<in> set (bw_jobs w1). bj_id r = jid \<longrightarrow> burn_tx_hash r = burn \<and> bj_status r = PENDING) \<Longrightarrow>
       jid \<in> bj_id ` set (bw_jobs w1) \<Longrightarrow> Q () w1"
    and "\<And>w1 e. backed body w1 \<Longrightarrow> bw_queue w1 = bw_queue w \<Longrightarrow> burns w1 = burns w \<Longrightarrow> E e w1"
  shows "wp (finalize_solana_burn_reservation env jid burn) Q E w"
  unfolding finalize_solana_burn_reservation_def wp_bind wp_or_http
proof (rule wp_update_burn)
  let ?g = "\<lambda>r. (r\<lparr>bj_status := PENDING\<rparr>)\<lparr>burn_tx_hash := burn\<rparr>"
  fix w1 :: bridge_world
  assume w1: "bw_jobs w1 = tbl_update (\<lambda>r. bj_id r = jid) ?g (bw_jobs w)" "bw_queue w1 = bw_queue w" "burns w1 = burns w"
  have b: "backed body w1" by (rule backed_update [OF _ _ _ w1(1) assms(1)]) simp_all
  have ids: "bj_id ` set (bw_jobs w1) = bj_id ` set (bw_jobs w)"
    unfolding w1(1) by (rule update_keys) simp
  have rows: "\<forall>r \<in> set (bw_jobs w1). bj_id r = jid \<longrightarrow> burn_tx_hash r = burn \<and> bj_status r = PENDING"
    unfolding w1(1) by (rule update_ball) simp_all
  have "jid \<in> bj_id ` set (bw_jobs w1)" using assms(2) by (simp only: ids)
  then have ne: "filter (\<lambda>r. bj_id r = jid) (bw_jobs w1) \<noteq> []"
    by (auto simp: filter_empty_conv)
  have "Q () w1" by (rule assms(3)) (use b w1(2,3) rows ids assms(2) in simp_all)
  with ne show "wp (if filter (\<lambda>r. bj_id r = jid) (bw_jobs w1) = [] then http 502 ''Bridge job finalize returned no data''
      else ret ()) Q E w1"
    by (simp only: if_False wp_ret)
qed (use assms(1,4) in \<open>auto simp: tables_kept_def backed_def\<close>)

text \<open>
  C1: a burn is broadcast at most once and never without a record. However a submission
  ends, either no burn was sent, or exactly one was sent, the user had no active Solana job
  and the quote was unused before, and a row with this quote and this user is in the table
  afterwards, so that a second submission for the quote is refused. An error leaves the queue alone; an answer means that
  the job is queued, pending, and carries the burn transaction.
\<close>

theorem burn_submitted_once_and_recorded:
  assumes "submit_solana_cctp_burn env body w = (r, w')"
  shows "burn_safe body w w' \<and>
    (case r of
       Inl e \<Rightarrow> bw_queue w' = bw_queue w
     | Inr (burn, jid) \<Rightarrow> burns w' \<noteq> burns w \<and> bw_queue w' = bw_queue w @ [jid] \<and>
         (\<exists>j. tbl_get bj_id jid (bw_jobs w') = Some j \<and> burn_tx_hash j = burn \<and> bj_status j = PENDING))"
proof -
  define Q where "Q = (\<lambda>(burn :: string, jid) w'. burn_safe body w w' \<and> burns w' \<noteq> burns w \<and> bw_queue w' = bw_queue w @ [jid] \<and>
         (\<exists>j. tbl_get bj_id jid (bw_jobs w') = Some j \<and> burn_tx_hash j = burn \<and> bj_status j = PENDING))"
  define E where "E = (\<lambda>(e :: exn) w'. burn_safe body w w' \<and> bw_queue w' = bw_queue w)"
  have early: "E e w1" if "bw_queue w1 = bw_queue w" "burns w1 = burns w" for e w1
    using that by (simp add: E_def burn_safe_def)
  have late: "E e w1" if "no_active_burn body w" "backed body w1" "bw_queue w1 = bw_queue w"
    "burns w1 = burns w \<or> burns w1 = SubmitBurn t # burns w" for e w1 t
    using that by (auto simp: E_def burn_safe_def)
  have fin: "wp (thenE (finalize_solana_burn_reservation env jid burn) (thenE (enqueue_job jid) (ret (burn, jid)))) Q E w1"
    if "no_active_burn body w" "backed body w1" "bw_queue w1 = bw_queue w" "burns w1 = SubmitBurn t # burns w"
      "jid \<in> bj_id ` set (bw_jobs w1)" for jid burn t w1
    unfolding wp_then
  proof (rule wp_finalize_burn [OF that(2,5)])
    fix w2 assume w2: "backed body w2" "bw_queue w2 = bw_queue w1" "burns w2 = burns w1"
      "\<forall>r \<in> set (bw_jobs w2). bj_id r = jid \<longrightarrow> burn_tx_hash r = burn \<and> bj_status r = PENDING"
      "jid \<in> bj_id ` set (bw_jobs w2)"
    from w2(5) obtain j where j: "tbl_get bj_id jid (bw_jobs w2) = Some j"
      by (metis jobs.get_none not_None_eq)
    with w2(4) have "burn_tx_hash j = burn \<and> bj_status j = PENDING" by (auto dest: tbl_get_SomeD)
    with j w2 that show "wp (enqueue_job jid) (\<lambda>_. wp (ret (burn, jid)) Q E) E w2"
      by (simp add: wps Q_def burn_safe_def backed_def burns_def)
  next
    fix w2 e assume "backed body w2" "bw_queue w2 = bw_queue w1" "burns w2 = burns w1"
    with that show "E e w2" by (intro late) auto
  qed
  have sub: "wp (bindE (catchE (submit_solana_cctp_burn_transaction env (bs_signed_transaction body)) (\<lambda>e.
               thenE (mark_bridge_job_failed env jid (burn_failure e)) (raise (burn_response e)))) (\<lambda>burn.
      thenE (finalize_solana_burn_reservation env jid burn) (thenE (enqueue_job jid) (ret (burn, jid))))) Q E w1"
    if n: "no_active_burn body w" and w1: "backed body w1" "bw_queue w1 = bw_queue w" "burns w1 = burns w"
      "jid \<in> bj_id ` set (bw_jobs w1)" for jid w1
    unfolding wp_bind wp_catch
  proof (rule wp_submit_burn_tx)
    fix w2 t assume w2: "bw_jobs w2 = bw_jobs w1" "bw_queue w2 = bw_queue w1"
      "burns w2 = SubmitBurn (bs_signed_transaction body) # burns w1"
    show "wp (thenE (finalize_solana_burn_reservation env jid t) (thenE (enqueue_job jid) (ret (t, jid)))) Q E w2"
      by (rule fin [OF n]) (use w1 w2 in \<open>auto simp: backed_def\<close>)
  next
    fix w2 e assume w2: "bw_jobs w2 = bw_jobs w1" "bw_queue w2 = bw_queue w1"
      "burns w2 = burns w1 \<or> burns w2 = SubmitBurn (bs_signed_transaction body) # burns w1"
    have b: "backed body w2" using w1(1) w2(1) by (simp add: backed_def)
    have l: "E x w3" if "backed body w3" "bw_queue w3 = bw_queue w2" "burns w3 = burns w2" for x w3
      using that w1 w2 n by (intro late [of w3 "bs_signed_transaction body"]) auto
    show "if e = NoReturn then E e w2
       else wp (thenE (mark_bridge_job_failed env jid (burn_failure e)) (raise (burn_response e)))
         (\<lambda>burn. wp (thenE (finalize_solana_burn_reservation env jid burn) (thenE (enqueue_job jid) (ret (burn, jid)))) Q E) E w2"
      using l [OF b refl refl] wp_mark_failed [OF b, where Q = "\<lambda>_. E (burn_response e)" and E = E]
      by (simp add: wp_fun l)
  qed
  have "wp (submit_solana_cctp_burn env body) Q E w"
  proof -
    have "wp (bindE (create_solana_burn_reservation env body) (\<lambda>jid.
        bindE (catchE (submit_solana_cctp_burn_transaction env (bs_signed_transaction body)) (\<lambda>e.
               thenE (mark_bridge_job_failed env jid (burn_failure e)) (raise (burn_response e)))) (\<lambda>burn.
        thenE (finalize_solana_burn_reservation env jid burn) (thenE (enqueue_job jid) (ret (burn, jid)))))) Q E w"
      unfolding wp_bind [of "create_solana_burn_reservation _ _"]
      by (rule wp_burn_reservation) (rule sub early; simp)+
    then show ?thesis
      by (simp add: submit_solana_cctp_burn_def validate_bridge_chains_def wps early)
  qed
  with assms show ?thesis
    by (auto simp: wp_def Q_def E_def split: sum.splits)
qed


text \<open>A submission whose broadcast succeeds, and the database answering or not.\<close>

definition demo_burn :: burn_submit_request where
  "demo_burn = \<lparr>bs_signed_transaction = ''full'', bs_dest_chain = BASE, bs_user_id = ''u1'',
     bs_mint_recipient = ''0x'' @ replicate 40 CHR ''a'', bs_burn_amount = ''100'', bs_quote_id = Some ''q1'',
     bs_signed_trade_tx = None\<rparr>"

lemma demo_burn_address: "eth_address_re (CHR ''0'' # CHR ''x'' # replicate 40 CHR ''a'')"
  by (simp add: eth_address_re_def hex_re_def chop_newline_def Let_def list_all_iff is_hex_def hex_val_def)

lemma demo_decode: "decode_tx demo_lib ''full'' \<noteq> None \<and>
    (\<forall>tx. decode_tx demo_lib ''full'' = Some tx \<longrightarrow> verify_with_results demo_lib tx = [True, True])"
  by (simp add: demo_lib_def)

theorem burn_submitted_once_and_recorded_witness:
  "\<exists>burn jid w'. submit_solana_cctp_burn demo_env demo_burn (demo_world [] []) = (Inr (burn, jid), w') \<and>
     burn_safe demo_burn (demo_world [] []) w' \<and> bw_queue w' = [jid]"
proof -
  have "\<exists>x w'. submit_solana_cctp_burn demo_env demo_burn (demo_world [] []) = (Inr x, w')"
    using demo_burn_address demo_decode
    by (auto simp: submit_solana_cctp_burn_def demo_burn_def demo_chains create_solana_burn_reservation_def
        select_jobs_def demo_world_def demo_env_simps insert_reservation_def insert_job_def job_conflict_def or_http_def
        guard_http_def set_jobs_def enqueue_job_def submit_solana_cctp_burn_transaction_def tx_call_def
        finalize_solana_burn_reservation_def update_burn_def burn_taken_def run_defs perform_def Let_def)
  then obtain burn jid w' where r: "submit_solana_cctp_burn demo_env demo_burn (demo_world [] []) = (Inr (burn, jid), w')"
    by auto
  from burn_submitted_once_and_recorded [OF r] r show ?thesis by (auto simp: demo_world_def)
qed


section \<open>A burn without a job\<close>

text \<open>
  A burn can be stranded. When the burn was sent but the update that should record its
  transaction fails, the request answers 502; the row keeps its reservation hash and stays
  pending, so that the relayer skips it whenever it is asked to process it, and every further burn
  of the user is refused before it is sent, whatever the environment is from then on.
\<close>

lemma burn_stranded_when_finalize_fails:
  assumes "submit_solana_cctp_burn env body w = (Inl (HTTPException 502 ''Could not finalize bridge job''), w')"
  shows "\<exists>jid t. burns w' = SubmitBurn t # burns w \<and> bw_queue w' = bw_queue w \<and>
    (\<exists>j. tbl_get bj_id jid (bw_jobs w') = Some j \<and> bj_quote_id j = bs_quote_id body \<and> bj_status j = PENDING) \<and>
    (\<forall>env2. bw_jobs (snd (process_bridge_job env2 jid w')) = bw_jobs w') \<and>
    (\<forall>env2 body2. bs_user_id body2 = bs_user_id body \<longrightarrow>
        burns (snd (submit_solana_cctp_burn env2 body2 w')) = burns w')"
proof -
  define S where "S jid w' \<longleftrightarrow> (\<exists>t. burns w' = SubmitBurn t # burns w) \<and> bw_queue w' = bw_queue w \<and>
      (\<exists>j. tbl_get bj_id jid (bw_jobs w') = Some j \<and> bj_quote_id j = bs_quote_id body \<and> bj_status j = PENDING \<and>
         starts_with (burn_tx_hash j) ''pending:'' \<and> bj_user_id j = bs_user_id body \<and> bj_source_chain j = SOLANA \<and>
         \<not> truthy (arc_finalize_tx j))" for jid w'
  define E where "E e w' \<longleftrightarrow> (e = finalize_error \<longrightarrow> (\<exists>jid. S jid w'))" for e w'
  have other: "E e w1" if "e \<noteq> finalize_error" for e w1 using that by (simp add: E_def)
  have fin: "wp (finalize_solana_burn_reservation env jid burn) (\<lambda>_ _. True) E w1" if "S jid w1" for jid burn w1
    unfolding finalize_solana_burn_reservation_def wp_bind wp_or_http
  proof (rule wp_update_burn)
    fix w2 :: bridge_world and e :: exn
    assume "tables_kept w1 w2" "burns w2 = burns w1"
    with that have "S jid w2" by (simp add: S_def tables_kept_def)
    then show "if e = NoReturn then E e w2 else E (HTTPException 502 ''Could not finalize bridge job'') w2"
      by (auto simp: E_def finalize_error_def)
  qed (auto simp: wps other finalize_error_def)
  have mark: "wp (mark_bridge_job_failed env jid msg) (\<lambda>_. E (burn_response x)) E w1" for jid msg x w1
  proof -
    have "burn_response x \<noteq> finalize_error" by (cases x) (simp_all add: finalize_error_def)
    then show ?thesis by (auto simp: mark_bridge_job_failed_def wps other finalize_error_def split: option.split)
  qed
  have "wp (submit_solana_cctp_burn env body) (\<lambda>_ _. True) E w"
  proof -
    have "wp (bindE (create_solana_burn_reservation env body) (\<lambda>jid.
        bindE (catchE (submit_solana_cctp_burn_transaction env (bs_signed_transaction body)) (\<lambda>e.
               thenE (mark_bridge_job_failed env jid (burn_failure e)) (raise (burn_response e)))) (\<lambda>burn.
        thenE (finalize_solana_burn_reservation env jid burn) (thenE (enqueue_job jid) (ret (burn, jid)))))) (\<lambda>_ _. True) E w"
      unfolding wp_bind [of "create_solana_burn_reservation _ _"]
    proof (rule wp_burn_reservation)
      fix jid w1
      assume w1: "bw_queue w1 = bw_queue w" "burns w1 = burns w" "jid \<notin> bj_id ` set (bw_jobs w)"
        "bw_jobs w1 = bw_jobs w @ [new_job (bs_user_id body) SOLANA (bs_dest_chain body) (pending_prefix @ the (bs_quote_id body))
         (bs_burn_amount body) (bs_mint_recipient body) (bs_quote_id body) (bs_signed_trade_tx body) jid]"
      show "wp (bindE (catchE (submit_solana_cctp_burn_transaction env (bs_signed_transaction body)) (\<lambda>e.
               thenE (mark_bridge_job_failed env jid (burn_failure e)) (raise (burn_response e)))) (\<lambda>burn.
        thenE (finalize_solana_burn_reservation env jid burn) (thenE (enqueue_job jid) (ret (burn, jid))))) (\<lambda>_ _. True) E w1"
        unfolding wp_bind wp_catch
      proof (rule wp_submit_burn_tx)
        fix w2 t assume w2: "bw_jobs w2 = bw_jobs w1" "bw_queue w2 = bw_queue w1"
          "burns w2 = SubmitBurn (bs_signed_transaction body) # burns w1"
        have "S jid w2"
          using w1 w2 by (simp add: S_def tbl_get_last) (simp add: new_job_def pending_prefix_def arc_finalize_tx_def)
        from fin [OF this, of t] show "wp (thenE (finalize_solana_burn_reservation env jid t) (thenE (enqueue_job jid) (ret (t, jid))))
            (\<lambda>_ _. True) E w2"
          unfolding wp_then by (rule wp_mono) (simp_all add: wps)
      next
        fix w2 e
        show "if e = NoReturn then E e w2
           else wp (thenE (mark_bridge_job_failed env jid (burn_failure e)) (raise (burn_response e)))
             (\<lambda>burn. wp (thenE (finalize_solana_burn_reservation env jid burn) (thenE (enqueue_job jid) (ret (burn, jid)))) (\<lambda>_ _. True) E) E w2"
          using mark [of jid "burn_failure e" e] by (simp add: wp_fun other finalize_error_def)
      qed
    qed (simp add: other)
    then show ?thesis
      by (simp add: submit_solana_cctp_burn_def validate_bridge_chains_def wps other finalize_error_def)
  qed
  with assms obtain jid where S: "S jid w'" by (auto simp: wp_def E_def finalize_error_def)
  then obtain j where j: "tbl_get bj_id jid (bw_jobs w') = Some j" "bj_status j = PENDING"
    "starts_with (burn_tx_hash j) ''pending:''" "bj_user_id j = bs_user_id body" "bj_source_chain j = SOLANA"
    "\<not> truthy (arc_finalize_tx j)" by (auto simp: S_def)
  have skip: "bw_jobs (snd (process_bridge_job env2 jid w')) = bw_jobs w'" for env2
  proof -
    have "wp (process_bridge_job env2 jid) (\<lambda>_ w2. bw_jobs w2 = bw_jobs w') (\<lambda>_ w2. bw_jobs w2 = bw_jobs w') w'"
      using j by (simp add: process_bridge_job_def get_job_def wps split: option.split)
    then show ?thesis by (auto simp: wp_def split: prod.splits sum.splits)
  qed
  have refused: "burns (snd (submit_solana_cctp_burn env2 body2 w')) = burns w'"
    if "bs_user_id body2 = bs_user_id body" for env2 body2
  proof -
    have "\<not> no_active_burn body2 w'"
      using j that tbl_get_SomeD [OF j(1)] by (auto simp: no_active_burn_def)
    then have "wp (submit_solana_cctp_burn env2 body2) (\<lambda>_ w2. burns w2 = burns w') (\<lambda>_ w2. burns w2 = burns w') w'"
      by (auto simp: submit_solana_cctp_burn_def validate_bridge_chains_def wps intro!: wp_burn_reservation)
    then show ?thesis by (auto simp: wp_def split: prod.splits sum.splits)
  qed
  from S obtain t where "burns w' = SubmitBurn t # burns w" "bw_queue w' = bw_queue w"
    "\<exists>j. tbl_get bj_id jid (bw_jobs w') = Some j \<and> bj_quote_id j = bs_quote_id body \<and> bj_status j = PENDING"
    by (auto simp: S_def)
  with skip refused show ?thesis by blast
qed

definition failing_env :: bridge_env where
  "failing_env = demo_env\<lparr>be_fails := (\<lambda>h. case h of DbUpdateJob j # _ \<Rightarrow> Some (OtherError ''down'') | _ \<Rightarrow> None)\<rparr>"

lemma failing_env_simps:
  "be_fails failing_env (c # h) = (case c of DbUpdateJob j \<Rightarrow> Some (OtherError ''down'') | _ \<Rightarrow> None)"
  "be_lib failing_env = demo_lib" "be_tx failing_env h = ''tx'' @ nat_str (length h)"
  "be_new_id failing_env h = ''id'' @ nat_str (length h)"
  "validate_bridge_chains failing_env SOLANA BASE = ret ()"
  using demo_chains by (simp_all add: failing_env_def demo_env_def validate_bridge_chains_def)

lemma burn_stranded_when_finalize_fails_witness:
  "\<exists>t. burns (snd (submit_solana_cctp_burn failing_env demo_burn (demo_world [] []))) = [SubmitBurn t]"
proof -
  have "\<exists>w'. submit_solana_cctp_burn failing_env demo_burn (demo_world [] []) =
      (Inl (HTTPException 502 ''Could not finalize bridge job''), w')"
    using demo_burn_address demo_decode
    by (auto simp: submit_solana_cctp_burn_def demo_burn_def failing_env_simps create_solana_burn_reservation_def
        select_jobs_def demo_world_def insert_reservation_def insert_job_def job_conflict_def or_http_def
        guard_http_def set_jobs_def enqueue_job_def submit_solana_cctp_burn_transaction_def tx_call_def
        finalize_solana_burn_reservation_def update_burn_def burn_taken_def run_defs perform_def Let_def)
  then obtain w' where r: "submit_solana_cctp_burn failing_env demo_burn (demo_world [] []) =
      (Inl (HTTPException 502 ''Could not finalize bridge job''), w')" by blast
  have b: "burns (demo_world [] []) = []" by (simp add: demo_world_def burns_def)
  from burn_stranded_when_finalize_fails [OF r] show ?thesis by (auto simp: r b)
qed

end
