(* ===== verification/Capital_Intents.thy ===== *)
theory Capital_Intents
  imports Bridge_Routes
begin

text \<open>
  The capital movement intents: the request validator of \<open>src/capital_intents/models.py\<close>, the API of
  \<open>src/capital_intents/routes.py\<close> and the reconciliation of settled positions,
  \<open>src/capital_intents/reconcile.py\<close>. Five columns that are only stored for the agent (the selected
  asset, strategy and quote, its decision hash, the deployment intent id) are left out.
\<close>

section \<open>Requests\<close>

record intent_create =
  ic_intent_type :: intent_type
  ic_movement_reason :: "movement_reason option"
  ic_bucket_id :: "string option"
  ic_receiver :: "string option"
  ic_source_chain :: chain
  ic_source_account :: string
  ic_source_tx :: "string option"
  ic_destination_chain :: chain
  ic_destination_account :: string
  ic_destination_tx :: "string option"
  ic_amount_usdc :: string
  ic_onchain_intent_id :: "string option"
  ic_status :: "intent_status option"
  ic_idempotency_key :: "string option"
  ic_bridge_job_id :: "string option"
  ic_create_bridge_job :: bool
  ic_user_id :: "string option"
  ic_quote_id :: "string option"
  ic_signed_trade_tx :: "string option"

definition is_base_to_arc_deposit :: "intent_create \<Rightarrow> bool" where
  "is_base_to_arc_deposit b \<longleftrightarrow>
     ic_intent_type b = DEPOSIT \<and> ic_source_chain b = BASE \<and> ic_destination_chain b = ARC"

definition is_base_solana_move :: "intent_create \<Rightarrow> bool" where
  "is_base_solana_move b \<longleftrightarrow>
     elem (ic_source_chain b) [BASE, SOLANA] \<and> elem (ic_destination_chain b) [BASE, SOLANA]"

definition validate_intent :: "intent_create \<Rightarrow> exn + unit" where
  "validate_intent b =
     (if ic_source_chain b = ic_destination_chain b then
        Inl (ValueError ''source_chain and destination_chain must differ'')
      else case int_or_raise (ic_amount_usdc b) of
        Inl e \<Rightarrow> Inl e
      | Inr amount \<Rightarrow>
          if amount \<le> 0 then Inl (ValueError ''amount_usdc must be greater than zero'')
          else if ic_intent_type b = DEPOSIT \<and> \<not> truthy (ic_receiver b) then
            Inl (ValueError ''receiver is required for deposit intents'')
          else if ic_create_bridge_job b then
            (if truthy (ic_bridge_job_id b) then
               Inl (ValueError ''bridge_job_id cannot be provided with create_bridge_job'')
             else if \<not> truthy (ic_user_id b) then
               Inl (ValueError ''user_id is required when create_bridge_job=true'')
             else if \<not> truthy (ic_source_tx b) then
               Inl (ValueError ''source_tx is required when create_bridge_job=true'')
             else if \<not> (is_base_solana_move b \<or> is_base_to_arc_deposit b) then
               Inl (ValueError ''create_bridge_job supports base<->solana moves and base->arc deposits'')
             else if is_base_to_arc_deposit b \<and> \<not> truthy (ic_onchain_intent_id b) then
               Inl (ValueError ''onchain_intent_id is required for base->arc deposits'')
             else Inr ())
          else Inr ())"

definition default_reason :: "intent_type \<Rightarrow> movement_reason" where
  "default_reason t = (if t = DEPOSIT then USER_DEPOSIT else if t = RETURN then RETURN_TO_IDLE else INITIAL_DEPLOYMENT)"

definition default_status :: "intent_type \<Rightarrow> intent_status" where
  "default_status t = (if t = DEPOSIT then DEPOSIT_RECEIVED else if t = RETURN then RETURNING_TO_ARC else DEPLOYMENT_IN_FLIGHT)"

datatype ux_status =
    UX_DEPOSIT_RECEIVED | UX_BRIDGING | UX_WAITING_TO_BE_DEPLOYED | UX_DEPLOYMENT_IN_FLIGHT | UX_DEPLOYED_ON_BASE
  | UX_DEPLOYED_ON_SOLANA | UX_PREMIUM_EARNED | UX_ASSIGNED_ROTATING | UX_RETURNING_TO_ARC | UX_RETURNED_TO_USDC
  | UX_CLAIMABLE_REDEPLOYABLE

definition ux_status_of :: "capital_intent \<Rightarrow> ux_status" where
  "ux_status_of r =
     (let s = ci_status r in
      if s = DEPOSIT_RECEIVED then UX_DEPOSIT_RECEIVED
      else if s = BRIDGING then UX_BRIDGING
      else if s = WAITING_TO_BE_DEPLOYED then UX_WAITING_TO_BE_DEPLOYED
      else if s = DEPLOYMENT_IN_FLIGHT then UX_DEPLOYMENT_IN_FLIGHT
      else if s = DEPLOYED then (if ci_destination_chain r = SOLANA then UX_DEPLOYED_ON_SOLANA else UX_DEPLOYED_ON_BASE)
      else if s = PREMIUM_EARNED then UX_PREMIUM_EARNED
      else if s = ASSIGNED_ROTATING then UX_ASSIGNED_ROTATING
      else if s = RETURNING_TO_ARC then UX_RETURNING_TO_ARC
      else if s = RETURNED_TO_USDC then UX_RETURNED_TO_USDC
      else if elem s [CLAIMABLE, CI_COMPLETED] then UX_CLAIMABLE_REDEPLOYABLE
      else if ci_intent_type r = DEPOSIT then UX_DEPOSIT_RECEIVED
      else UX_WAITING_TO_BE_DEPLOYED)"

section \<open>Creating an intent\<close>

definition select_intents :: "bridge_env \<Rightarrow> (capital_intent \<Rightarrow> bool) \<Rightarrow> capital_intent list bpy" where
  "select_intents env p = thenE (bcall env DbReadIntents) (getsE (\<lambda>w. filter p (bw_intents w)))"

definition head_opt :: "'a list \<Rightarrow> 'a option" where
  "head_opt xs = (case xs of [] \<Rightarrow> None | x # _ \<Rightarrow> Some x)"

lemma head_opt_simps [simp]: "head_opt [] = None" "head_opt (x # xs) = Some x"
  by (simp_all add: head_opt_def)

lemma head_opt_None [simp]: "head_opt xs = None \<longleftrightarrow> xs = []"
  by (cases xs) simp_all

lemma head_opt_set: "head_opt xs = Some x \<Longrightarrow> x \<in> set xs"
  by (cases xs) simp_all

definition read_existing_by_idempotency :: "bridge_env \<Rightarrow> string \<Rightarrow> capital_intent option bpy" where
  "read_existing_by_idempotency env key =
     bindE (or_http (select_intents env (\<lambda>i. ci_idempotency_key i = Some key)) 502 ''Could not check capital intent idempotency'')
       (\<lambda>rows. ret (head_opt rows))"

definition bridge_job_quote_id :: "intent_create \<Rightarrow> string option" where
  "bridge_job_quote_id b =
     (if is_base_to_arc_deposit b \<and> truthy (ic_idempotency_key b) then ic_idempotency_key b
      else if is_base_to_arc_deposit b \<and> truthy (ic_quote_id b) \<and> truthy (ic_source_tx b) then
        Some (the (ic_quote_id b) @ '':'' @ lower (the (ic_source_tx b)))
      else py_or (ic_quote_id b) (ic_idempotency_key b))"

definition intent_job :: "intent_create \<Rightarrow> string \<Rightarrow> bridge_job" where
  "intent_job b jid =
     (new_job (the (ic_user_id b)) (ic_source_chain b) (ic_destination_chain b) (the (ic_source_tx b)) (ic_amount_usdc b)
        (ic_destination_account b) (bridge_job_quote_id b) (ic_signed_trade_tx b) jid)
     \<lparr>bj_gross_amount_usdc := Some (ic_amount_usdc b), bj_receiver := ic_receiver b\<rparr>"

definition create_intent_bridge_job :: "bridge_env \<Rightarrow> intent_create \<Rightarrow> string bpy" where
  "create_intent_bridge_job env b =
     thenE (guard_http (is_base_solana_move b \<or> is_base_to_arc_deposit b) 400
        ''Bridge job creation supports base<->solana moves and base->arc deposits'')
     (bindE (or_http (insert_job env (intent_job b)) 409
         ''Bridge job already exists or could not be created for this intent'') (\<lambda>jid.
        thenE (enqueue_job jid) (ret jid)))"

definition new_intent :: "intent_create \<Rightarrow> intent_status option \<Rightarrow> string \<Rightarrow> capital_intent" where
  "new_intent b status_override iid =
     \<lparr>ci_id = iid, ci_intent_type = ic_intent_type b,
      ci_movement_reason = (case ic_movement_reason b of Some r \<Rightarrow> r | None \<Rightarrow> default_reason (ic_intent_type b)),
      ci_bucket_id = ic_bucket_id b, ci_receiver = ic_receiver b, ci_source_chain = ic_source_chain b,
      ci_source_account = Some (ic_source_account b), ci_source_tx = ic_source_tx b,
      ci_destination_chain = ic_destination_chain b, ci_destination_account = Some (ic_destination_account b),
      ci_destination_tx = ic_destination_tx b, ci_amount_usdc = ic_amount_usdc b,
      ci_onchain_intent_id = ic_onchain_intent_id b,
      ci_status = (case status_override of Some s \<Rightarrow> s | None \<Rightarrow>
         (case ic_status b of Some s \<Rightarrow> s | None \<Rightarrow> default_status (ic_intent_type b))),
      ci_bridge_job_id = ic_bridge_job_id b, ci_idempotency_key = ic_idempotency_key b,
      ci_selected_chain = None, ci_arc_receive_tx_hash = None, ci_arc_finalize_tx_hash = None,
      ci_gross_amount_usdc = None, ci_circle_fee_usdc = None, ci_net_amount_usdc = None,
      ci_failure_reason = None, ci_completed = False\<rparr>"

definition insert_new_intent :: "bridge_env \<Rightarrow> intent_create \<Rightarrow> intent_status option \<Rightarrow> capital_intent bpy" where
  "insert_new_intent env b status_override =
     or_http (insert_intent env (new_intent b status_override)) 502 ''Could not create capital movement intent''"

text \<open>\<open>update(fields).eq("id", i)\<close>: the answer holds the changed rows.\<close>

definition update_intent_rows :: "bridge_env \<Rightarrow> string \<Rightarrow> intent_fields \<Rightarrow> capital_intent list bpy" where
  "update_intent_rows env iid u =
     thenE (update_intent env iid u) (getsE (\<lambda>w. filter (\<lambda>i. ci_id i = iid) (bw_intents w)))"

definition update_intent_or_502 :: "bridge_env \<Rightarrow> string \<Rightarrow> intent_fields \<Rightarrow> capital_intent bpy" where
  "update_intent_or_502 env iid u =
     bindE (or_http (update_intent_rows env iid u) 502 ''Could not update capital movement intent'') (\<lambda>rows.
       case rows of [] \<Rightarrow> http 502 ''Capital intent update returned no data'' | r # _ \<Rightarrow> ret r)"

definition create_capital_intent :: "bridge_env \<Rightarrow> intent_create \<Rightarrow> (capital_intent \<times> bool) bpy" where
  "create_capital_intent env b =
     bindE (if truthy (ic_idempotency_key b) then read_existing_by_idempotency env (the (ic_idempotency_key b)) else ret None)
     (\<lambda>existing. case existing of
        Some i \<Rightarrow> ret (i, False)
      | None \<Rightarrow>
          bindE (insert_new_intent env b (if ic_create_bridge_job b then Some CI_PENDING else None)) (\<lambda>row.
            if ic_create_bridge_job b then
              bindE (create_intent_bridge_job env b) (\<lambda>jid.
              bindE (update_intent_or_502 env (ci_id row) (no_updates\<lparr>u_bridge_job_id := Some jid, u_status := Some BRIDGING\<rparr>)) (\<lambda>row.
                ret (row, True)))
            else ret (row, False)))"

section \<open>Reading and patching\<close>

definition load_bridge_status :: "bridge_env \<Rightarrow> string \<Rightarrow> bridge_job option bpy" where
  "load_bridge_status env jid =
     bindE (or_http (select_jobs env (\<lambda>j. bj_id j = jid)) 502 ''Could not read linked bridge job'') (\<lambda>rows. ret (head_opt rows))"

definition bridge_updates :: "bridge_job \<Rightarrow> capital_intent \<Rightarrow> intent_fields" where
  "bridge_updates bridge row =
     (let next_status = bridge_status_to_intent_status (bj_status bridge) (ci_intent_type row);
          u = no_updates;
          u = (if ci_status row \<noteq> next_status then u\<lparr>u_status := Some next_status\<rparr> else u);
          u = (if truthy (mint_tx_hash bridge) \<and> \<not> truthy (ci_destination_tx row)
               then u\<lparr>u_destination_tx := mint_tx_hash bridge\<rparr> else u);
          u = (if truthy (error_message bridge) \<and> \<not> truthy (ci_failure_reason row)
               then u\<lparr>u_failure_reason := Some (error_message bridge)\<rparr> else u)
      in u)"

definition sync_row_from_bridge :: "bridge_env \<Rightarrow> capital_intent \<Rightarrow> capital_intent bpy" where
  "sync_row_from_bridge env row =
     (if \<not> truthy (ci_bridge_job_id row) then ret row
      else bindE (load_bridge_status env (the (ci_bridge_job_id row))) (\<lambda>bridge.
        case bridge of
          None \<Rightarrow> ret row
        | Some bridge \<Rightarrow>
            (let u = bridge_updates bridge row in
             if u = no_updates then ret row
             else bindE (or_http (update_intent_rows env (ci_id row) u) 502 ''Could not sync capital intent status'') (\<lambda>rows.
               case rows of r # _ \<Rightarrow> ret r | [] \<Rightarrow> ret (apply_intent_fields u row)))))"

definition get_capital_intent :: "bridge_env \<Rightarrow> string \<Rightarrow> (capital_intent \<times> ux_status) bpy" where
  "get_capital_intent env iid =
     bindE (or_http (select_intents env (\<lambda>i. ci_id i = iid)) 502 ''Could not read capital intent'') (\<lambda>rows.
       case rows of
         [] \<Rightarrow> http 404 ''Capital intent not found''
       | r # _ \<Rightarrow> bindE (sync_row_from_bridge env r) (\<lambda>r. ret (r, ux_status_of r)))"

text \<open>Rows are inserted in the order of their creation, so that the newest first is the reverse.\<close>

definition list_capital_intents :: "bridge_env \<Rightarrow> string option \<Rightarrow> intent_status option \<Rightarrow> nat \<Rightarrow> capital_intent list bpy" where
  "list_capital_intents env bucket status limit =
     bindE (or_http (select_intents env (\<lambda>i. (truthy bucket \<longrightarrow> ci_bucket_id i = bucket) \<and>
         (case status of None \<Rightarrow> True | Some s \<Rightarrow> ci_status i = s))) 502 ''Could not list capital intents'') (\<lambda>rows.
       ret (take limit (rev rows)))"

definition update_capital_intent :: "bridge_env \<Rightarrow> string \<Rightarrow> intent_fields \<Rightarrow> capital_intent bpy" where
  "update_capital_intent env iid u =
     thenE (guard_http (u \<noteq> no_updates) 400 ''No fields to update'')
     (bindE (or_http (update_intent_rows env iid u) 502 ''Could not update capital intent'') (\<lambda>rows.
        case rows of [] \<Rightarrow> http 404 ''Capital intent not found'' | r # _ \<Rightarrow> ret r))"

section \<open>Reconciling settled positions\<close>

record reconcile_summary =
  rs_inspected :: nat
  rs_skipped_unsettled :: nat
  rs_waiting_created :: nat
  rs_already_reconciled :: nat
  rs_assigned :: nat
  rs_retryable :: nat

record vault_settings =
  base_sepolia_vault_adapter :: string
  solana_devnet_vault_token_account :: string

definition on_venue :: "capital_intent \<Rightarrow> bool" where
  "on_venue r \<longleftrightarrow> elem (str_or (ci_selected_chain r) (chain_value (ci_destination_chain r)))
     [chain_value BASE, chain_value SOLANA]"

definition read_deployed_intents :: "bridge_env \<Rightarrow> nat \<Rightarrow> capital_intent list bpy" where
  "read_deployed_intents env limit =
     bindE (select_intents env (\<lambda>i. ci_status i = DEPLOYED)) (\<lambda>rows.
       ret (filter (\<lambda>r. truthy (ci_destination_tx r) \<and> on_venue r) (take limit rows)))"

definition read_order_event :: "bridge_env \<Rightarrow> capital_intent \<Rightarrow> settled_event option bpy" where
  "read_order_event env intent =
     (if \<not> truthy (ci_destination_tx intent) then ret None
      else thenE (bcall env DbReadEvents)
        (getsE (\<lambda>w. find (\<lambda>e. se_tx_hash e = ci_destination_tx intent) (bw_events w))))"

definition is_settled_event :: "settled_event \<Rightarrow> bool" where
  "is_settled_event e \<longleftrightarrow> se_is_settled e = Some True \<or> truthy (se_settled_at e) \<or> truthy (se_settlement_tx_hash e)"

definition is_assigned :: "settled_event \<Rightarrow> bool" where
  "is_assigned e \<longleftrightarrow> se_is_itm e = Some True \<or> se_settlement_type e = Some ''physical''"

definition rotation_idempotency_key :: "capital_intent \<Rightarrow> settled_event \<Rightarrow> string" where
  "rotation_idempotency_key i e =
     ''rotation:'' @ ci_id i @ '':'' @ the (py_or (se_tx_hash e) (ci_destination_tx i))"

definition read_existing_rotation :: "bridge_env \<Rightarrow> string \<Rightarrow> capital_intent option bpy" where
  "read_existing_rotation env key =
     thenE (bcall env DbReadRotation) (getsE (\<lambda>w. find (\<lambda>i. ci_idempotency_key i = Some key) (bw_intents w)))"

definition positive_raw_amount :: "string option \<Rightarrow> int option" where
  "positive_raw_amount v = (case v of
       None \<Rightarrow> None
     | Some s \<Rightarrow> (case py_int s of None \<Rightarrow> None | Some n \<Rightarrow> if n > 0 then Some n else None))"

definition non_empty :: "string \<Rightarrow> string option" where
  "non_empty s = (if s = [] then None else Some s)"

definition venue_account :: "vault_settings \<Rightarrow> chain \<Rightarrow> settled_event \<Rightarrow> capital_intent \<Rightarrow> string option" where
  "venue_account v c e i =
     py_or (non_empty (if c = BASE then base_sepolia_vault_adapter v else solana_devnet_vault_token_account v))
       (py_or (se_user_address e) (py_or (ci_destination_account i) (ci_source_account i)))"

definition venue_of :: "string \<Rightarrow> chain option" where
  "venue_of s = (if s = chain_value BASE then Some BASE else if s = chain_value SOLANA then Some SOLANA else None)"

definition rotation_row :: "vault_settings \<Rightarrow> capital_intent \<Rightarrow> settled_event \<Rightarrow> string \<Rightarrow> (string \<Rightarrow> capital_intent) option" where
  "rotation_row v i e key =
     (case positive_raw_amount (se_collateral e) of
        None \<Rightarrow> None
      | Some amount \<Rightarrow>
          (case venue_of (str_or (se_chain e) (str_or (ci_selected_chain i) (chain_value (ci_destination_chain i)))) of
             None \<Rightarrow> None
           | Some c \<Rightarrow>
               (let source_account = venue_account v c e i in
                Some (\<lambda>iid. \<lparr>ci_id = iid, ci_intent_type = DEPLOYMENT, ci_movement_reason = ROTATION,
                  ci_bucket_id = ci_bucket_id i, ci_receiver = ci_receiver i, ci_source_chain = c,
                  ci_source_account = source_account,
                  ci_source_tx = py_or (se_settlement_tx_hash e) (se_tx_hash e),
                  ci_destination_chain = ARC,
                  ci_destination_account = py_or (ci_destination_account i) source_account,
                  ci_destination_tx = None, ci_amount_usdc = int_str amount, ci_onchain_intent_id = None,
                  ci_status = WAITING_TO_BE_DEPLOYED, ci_bridge_job_id = None, ci_idempotency_key = Some key,
                  ci_selected_chain = None, ci_arc_receive_tx_hash = None, ci_arc_finalize_tx_hash = None,
                  ci_gross_amount_usdc = None, ci_circle_fee_usdc = None, ci_net_amount_usdc = None,
                  ci_failure_reason = None, ci_completed = False\<rparr>))))"

definition update_intent_status :: "bridge_env \<Rightarrow> capital_intent \<Rightarrow> intent_status \<Rightarrow> string option \<Rightarrow> unit bpy" where
  "update_intent_status env i status failure_reason =
     bindE (update_intent_rows env (ci_id i) (no_updates\<lparr>u_status := Some status, u_completed := Some True,
         u_failure_reason := (if truthy failure_reason then Some failure_reason else None)\<rparr>)) (\<lambda>rows.
       if rows = [] then raise (RuntimeError (''capital intent update returned no data: '' @ ci_id i)) else ret ())"

definition reconcile_intent :: "bridge_env \<Rightarrow> vault_settings \<Rightarrow> reconcile_summary \<Rightarrow> capital_intent \<Rightarrow> reconcile_summary bpy" where
  "reconcile_intent env v s intent =
     bindE (read_order_event env intent) (\<lambda>event.
       case event of
         None \<Rightarrow> ret s
       | Some e \<Rightarrow>
           if \<not> is_settled_event e then ret (s\<lparr>rs_skipped_unsettled := rs_skipped_unsettled s + 1\<rparr>)
           else if se_settlement_type e = Some ''physical_failed'' then
             thenE (update_intent_status env intent RETRYABLE (Some ''Physical delivery failed after expiry''))
               (ret (s\<lparr>rs_retryable := rs_retryable s + 1\<rparr>))
           else if is_assigned e then
             thenE (update_intent_status env intent ASSIGNED_ROTATING None) (ret (s\<lparr>rs_assigned := rs_assigned s + 1\<rparr>))
           else
             (let key = rotation_idempotency_key intent e in
              bindE (read_existing_rotation env key) (\<lambda>existing.
                case existing of
                  Some _ \<Rightarrow>
                    thenE (update_intent_status env intent CI_COMPLETED None)
                      (ret (s\<lparr>rs_already_reconciled := rs_already_reconciled s + 1\<rparr>))
                | None \<Rightarrow>
                    (case rotation_row v intent e key of
                       None \<Rightarrow> ret s
                     | Some mk \<Rightarrow>
                         thenE (insert_intent env mk)
                         (thenE (update_intent_status env intent CI_COMPLETED None)
                           (ret (s\<lparr>rs_waiting_created := rs_waiting_created s + 1\<rparr>)))))))"

definition reconcile_settled_positions :: "bridge_env \<Rightarrow> vault_settings \<Rightarrow> nat \<Rightarrow> reconcile_summary bpy" where
  "reconcile_settled_positions env v limit =
     bindE (read_deployed_intents env limit) (\<lambda>deployed.
       foldE (reconcile_intent env v)
         \<lparr>rs_inspected = length deployed, rs_skipped_unsettled = 0, rs_waiting_created = 0,
          rs_already_reconciled = 0, rs_assigned = 0, rs_retryable = 0\<rparr> deployed)"

definition reconcile_settled_capital_intents :: "bridge_env \<Rightarrow> vault_settings \<Rightarrow> nat \<Rightarrow> reconcile_summary bpy" where
  "reconcile_settled_capital_intents env v limit =
     or_http (reconcile_settled_positions env v limit) 502 ''Could not reconcile settled capital intents''"

section \<open>Properties of the API\<close>

definition with_key :: "string \<Rightarrow> capital_intent list \<Rightarrow> capital_intent list" where
  "with_key key rows = filter (\<lambda>i. ci_idempotency_key i = Some key) rows"

text \<open>A request whose key is known is answered from the table.\<close>

lemma wp_create_existing:
  assumes "truthy (ic_idempotency_key b)" "with_key (the (ic_idempotency_key b)) (bw_intents w) = i # is"
  shows "wp (create_capital_intent env b) (\<lambda>r w'. r = (i, False) \<and> tables_kept w w') (\<lambda>_. tables_kept w) w"
  using assms
  by (auto simp: create_capital_intent_def read_existing_by_idempotency_def select_intents_def wps with_key_def tables_kept_def
      split: option.split)

text \<open>
  Creating an intent is idempotent in its key. If an intent with the key exists, whatever else
  the request asks for and whatever fails, no table and not the queue changes, and an answer is
  that intent.
\<close>

lemma create_intent_idempotent:
  assumes "ic_idempotency_key b = Some key" "key \<noteq> []"
    and "with_key key (bw_intents w) \<noteq> []" "create_capital_intent env b w = (r, w')"
  shows "bw_intents w' = bw_intents w \<and> bw_jobs w' = bw_jobs w \<and> bw_queue w' = bw_queue w \<and>
    (\<forall>x. r = Inr x \<longrightarrow> x = (hd (with_key key (bw_intents w)), False))"
proof -
  obtain i rest where i: "with_key key (bw_intents w) = i # rest" using assms(3) by (cases "with_key key (bw_intents w)") auto
  have "wp (create_capital_intent env b) (\<lambda>r w'. r = (i, False) \<and> tables_kept w w') (\<lambda>_. tables_kept w) w"
    by (rule wp_create_existing) (simp_all add: assms(1,2) i)
  with assms(4) i show ?thesis by (auto simp: wp_def tables_kept_def split: sum.splits)
qed

definition demo_create :: intent_create where
  "demo_create = \<lparr>ic_intent_type = DEPOSIT, ic_movement_reason = None, ic_bucket_id = None, ic_receiver = Some ''r'',
     ic_source_chain = BASE, ic_source_account = ''a'', ic_source_tx = Some ''burn'', ic_destination_chain = ARC,
     ic_destination_account = ''d'', ic_destination_tx = None, ic_amount_usdc = ''100'', ic_onchain_intent_id = Some ''0x1'',
     ic_status = None, ic_idempotency_key = Some ''k1'', ic_bridge_job_id = None, ic_create_bridge_job = True,
     ic_user_id = Some ''u1'', ic_quote_id = None, ic_signed_trade_tx = None\<rparr>"

lemma create_intent_idempotent_witness:
  "fst (create_capital_intent demo_env demo_create (demo_world [] [demo_intent\<lparr>ci_idempotency_key := Some ''k1''\<rparr>])) =
   Inr (demo_intent\<lparr>ci_idempotency_key := Some ''k1''\<rparr>, False)"
proof -
  let ?i = "demo_intent\<lparr>ci_idempotency_key := Some ''k1''\<rparr>"
  let ?w = "demo_world [] [?i]"
  obtain r w' where r: "create_capital_intent demo_env demo_create ?w = (r, w')" by fastforce
  have k: "with_key ''k1'' (bw_intents ?w) = [?i]" by (simp add: with_key_def demo_world_def)
  have c: "ic_idempotency_key demo_create = Some ''k1''" by (simp add: demo_create_def)
  have "\<exists>x. r = Inr x"
    using r c by (auto simp: create_capital_intent_def read_existing_by_idempotency_def select_intents_def or_http_def
        demo_env_simps demo_world_def run_defs perform_def Let_def)
  moreover have "\<forall>x. r = Inr x \<longrightarrow> x = (?i, False)"
    using create_intent_idempotent [OF c _ _ r] k by auto
  ultimately show ?thesis using r by auto
qed

text \<open>
  A failed bridge job is never retried. If the job of a keyed request cannot be
  created, the intent stays behind, pending and without a job; from then on the same request, in
  any environment, creates no job and queues nothing.
\<close>

lemma failed_bridge_job_not_retried:
  assumes "ic_idempotency_key b = Some key" "key \<noteq> []" "ic_create_bridge_job b" "\<not> truthy (ic_bridge_job_id b)"
    and "with_key key (bw_intents w) = []"
    and "create_capital_intent env b w = (Inl (HTTPException 409 m), w')"
  shows "(\<exists>i \<in> set (bw_intents w'). ci_idempotency_key i = Some key \<and> ci_status i = CI_PENDING \<and> \<not> truthy (ci_bridge_job_id i)) \<and>
    (\<forall>env2. bw_jobs (snd (create_capital_intent env2 b w')) = bw_jobs w' \<and>
       bw_queue (snd (create_capital_intent env2 b w')) = bw_queue w')"
proof -
  define S where "S w' \<longleftrightarrow> (\<exists>i \<in> set (bw_intents w'). ci_idempotency_key i = Some key \<and> ci_status i = CI_PENDING \<and>
     \<not> truthy (ci_bridge_job_id i))" for w' :: bridge_world
  define E where "E e w' \<longleftrightarrow> ((\<exists>m. e = HTTPException 409 m) \<longrightarrow> S w')" for e w'
  have o: "E e w1" if "\<And>m. e \<noteq> HTTPException 409 m" for e w1 using that by (simp add: E_def)
  have job: "wp (create_intent_bridge_job env b) (\<lambda>_ _. True) E w1" if "S w1" for w1
    unfolding create_intent_bridge_job_def wp_then wp_bind wp_or_http wp_guard_http
    using that by (auto simp: wps o E_def S_def tables_kept_def intro!: wp_insert_job)
  have upd: "wp (update_intent_or_502 env iid u) (\<lambda>_ _. True) E w1" for iid u w1
    by (auto simp: update_intent_or_502_def update_intent_rows_def update_intent_def wps o split: option.split list.split)
  have ins: "wp (insert_new_intent env b (Some CI_PENDING)) (\<lambda>_. S) E w1" for w1
    using assms(1,4) by (auto simp: insert_new_intent_def insert_intent_def wps o new_intent_def S_def split: option.split)
  have "wp (create_capital_intent env b) (\<lambda>_ _. True) E w"
  proof -
    have "wp (bindE (insert_new_intent env b (Some CI_PENDING)) (\<lambda>row.
              bindE (create_intent_bridge_job env b) (\<lambda>jid.
              bindE (update_intent_or_502 env (ci_id row) (no_updates\<lparr>u_bridge_job_id := Some jid, u_status := Some BRIDGING\<rparr>)) (\<lambda>row.
                ret (row, True))))) (\<lambda>_ _. True) E w1" for w1
      unfolding wp_bind [of "insert_new_intent _ _ _"] wp_bind [of "create_intent_bridge_job _ _"] wp_fun(2) [of "create_intent_bridge_job _ _"]
      by (rule wp_mono [OF ins])
        (auto simp: wps intro!: wp_mono [OF job] wp_mono [OF upd])
    with assms(1-3,5) show ?thesis
      by (auto simp: create_capital_intent_def read_existing_by_idempotency_def select_intents_def wps with_key_def o
          split: option.split)
  qed
  then have S: "S w'" using assms(6) by (auto simp: wp_def E_def)
  then have "with_key key (bw_intents w') \<noteq> []" by (auto simp: S_def with_key_def filter_empty_conv)
  then obtain i rest where i: "with_key key (bw_intents w') = i # rest" by (cases "with_key key (bw_intents w')") auto
  have "tables_kept w' (snd (create_capital_intent env2 b w'))" for env2
  proof -
    have "wp (create_capital_intent env2 b) (\<lambda>r w2. r = (i, False) \<and> tables_kept w' w2) (\<lambda>_. tables_kept w') w'"
      by (rule wp_create_existing) (simp_all add: assms(1,2) i)
    then show ?thesis by (auto simp: wp_def split: prod.splits sum.splits)
  qed
  with S show ?thesis by (auto simp: S_def tables_kept_def)
qed

lemma failed_bridge_job_not_retried_witness:
  "let w = demo_world [demo_job] []; w' = snd (create_capital_intent demo_env demo_create w) in
   bw_jobs (snd (create_capital_intent demo_env demo_create w')) = bw_jobs w'"
proof -
  let ?w = "demo_world [demo_job] []"
  have c: "ic_idempotency_key demo_create = Some ''k1''" "ic_create_bridge_job demo_create" "\<not> truthy (ic_bridge_job_id demo_create)"
    by (simp_all add: demo_create_def)
  have k: "with_key ''k1'' (bw_intents ?w) = []" by (simp add: with_key_def demo_world_def)
  have "\<exists>m w'. create_capital_intent demo_env demo_create ?w = (Inl (HTTPException 409 m), w')"
    by (simp add: create_capital_intent_def read_existing_by_idempotency_def select_intents_def or_http_def demo_create_def
        demo_env_simps demo_world_def insert_new_intent_def insert_intent_def intent_conflict_def set_intents_def
        create_intent_bridge_job_def insert_job_def job_conflict_def intent_job_def guard_http_def is_base_to_arc_deposit_def
        demo_job_def run_defs perform_def Let_def)
  then obtain m w' where r: "create_capital_intent demo_env demo_create ?w = (Inl (HTTPException 409 m), w')" by blast
  from failed_bridge_job_not_retried [OF c(1) _ c(2,3) k r] show ?thesis by (simp add: r Let_def)
qed

lemma filter_key_single: "distinct (map key rows) \<Longrightarrow> i \<in> set rows \<Longrightarrow> filter (\<lambda>r. key r = key i) rows = [i]"
  by (induction rows) (auto simp: filter_empty_conv image_iff)

lemma head_filter_get: "head_opt (filter (\<lambda>r. key r = k) rows) = tbl_get key k rows"
  by (induction rows) auto

lemma filter_key_update:
  assumes "distinct (map ci_id rows)" "i \<in> set rows"
  shows "filter (\<lambda>r. ci_id r = ci_id i) (tbl_update (\<lambda>r. ci_id r = ci_id i) (apply_intent_fields u) rows) =
    [apply_intent_fields u i]"
proof -
  have "filter (\<lambda>r. ci_id r = k) (tbl_update (\<lambda>r. ci_id r = k) (apply_intent_fields u) rows) =
      map (apply_intent_fields u) (filter (\<lambda>r. ci_id r = k) rows)" for k
    by (induction rows) (auto simp: intents.key_put)
  then show ?thesis using filter_key_single [OF assms] by simp
qed

text \<open>
  Reading undoes the reconciliation. An intent that was reconciled (completed, or
  assigned to rotate) and whose bridge job is done is set back to \<open>DEPLOYED\<close> when it is read, so that it is
  reported as deployed and inspected again.
\<close>

lemma get_reopens_reconciled_intent:
  assumes "\<And>h. be_fails env h = None" and "distinct (map ci_id (bw_intents w))" "i \<in> set (bw_intents w)"
    and "ci_status i \<in> {CI_COMPLETED, ASSIGNED_ROTATING}" "ci_intent_type i = DEPLOYMENT"
    and "ci_bridge_job_id i = Some jid" "jid \<noteq> []" "tbl_get bj_id jid (bw_jobs w) = Some j" "bj_status j = COMPLETED"
  shows "\<exists>i' w'. get_capital_intent env (ci_id i) w = (Inr (i', ux_status_of i'), w') \<and> ci_status i' = DEPLOYED \<and> i' \<in> set (bw_intents w')"
proof -
  let ?u = "bridge_updates j i"
  note rows = filter_key_single [OF assms(2,3)]
  have jrow: "head_opt (filter (\<lambda>j. bj_id j = jid) (bw_jobs w)) = Some j"
    using assms(8) by (simp add: head_filter_get)
  have st: "bridge_status_to_intent_status (bj_status j) (ci_intent_type i) = DEPLOYED"
    using assms(5,9) by (simp add: bridge_status_to_intent_status_def)
  then have u: "u_status ?u = Some DEPLOYED" using assms(4) by (auto simp: bridge_updates_def Let_def)
  then have ne: "?u \<noteq> no_updates" by (auto simp: no_updates_def)
  let ?i' = "apply_intent_fields ?u i"
  note upd = filter_key_update [OF assms(2,3), of ?u]
  have "wp (get_capital_intent env (ci_id i)) (\<lambda>r w'. r = (?i', ux_status_of ?i') \<and> ?i' \<in> set (bw_intents w')) (\<lambda>_ _. False) w"
    using assms(1,6,7) rows jrow ne upd filter_set [of "\<lambda>r. ci_id r = ci_id i"]
    by (simp add: get_capital_intent_def select_intents_def sync_row_from_bridge_def load_bridge_status_def select_jobs_def
        update_intent_rows_def update_intent_def wps Let_def)
      (metis list.set_intros(1) mem_Collect_eq set_filter)
  then obtain w' where "get_capital_intent env (ci_id i) w = (Inr (?i', ux_status_of ?i'), w')" "?i' \<in> set (bw_intents w')"
    by (auto simp: wp_def split: prod.splits sum.splits)
  moreover have "ci_status ?i' = DEPLOYED" by (simp add: apply_intent_fields_def u)
  ultimately show ?thesis by blast
qed

definition done_job :: bridge_job where
  "done_job = demo_job\<lparr>bj_status := COMPLETED\<rparr>"

definition reconciled_intent :: capital_intent where
  "reconciled_intent = demo_intent\<lparr>ci_intent_type := DEPLOYMENT, ci_status := CI_COMPLETED, ci_completed := True\<rparr>"

lemma get_reopens_reconciled_intent_witness:
  "\<exists>i' w'. get_capital_intent demo_env ''i1'' (demo_world [done_job] [reconciled_intent]) = (Inr (i', ux_status_of i'), w') \<and>
     ci_status i' = DEPLOYED"
  using get_reopens_reconciled_intent [of demo_env "demo_world [done_job] [reconciled_intent]" reconciled_intent "''j1''" done_job]
  by (auto simp: demo_env_simps demo_world_def reconciled_intent_def demo_intent_def done_job_def demo_job_def)

section \<open>Properties of the reconciliation\<close>

definition settle_row :: "intent_status \<Rightarrow> string option \<Rightarrow> capital_intent \<Rightarrow> capital_intent" where
  "settle_row s reason i = i\<lparr>ci_status := s, ci_completed := True,
     ci_failure_reason := (if truthy reason then reason else ci_failure_reason i)\<rparr>"

definition settle_rows :: "string \<Rightarrow> intent_status \<Rightarrow> string option \<Rightarrow> capital_intent list \<Rightarrow> capital_intent list" where
  "settle_rows iid s reason rows = tbl_update (\<lambda>r. ci_id r = iid) (settle_row s reason) rows"

lemma settle_row_fields:
  "apply_intent_fields (no_updates\<lparr>u_status := Some s, u_completed := Some True,
     u_failure_reason := (if truthy reason then Some reason else None)\<rparr>) = settle_row s reason"
  by (rule ext) (simp add: apply_intent_fields_def no_updates_def settle_row_def)

lemma wp_update_intent_status:
  assumes "\<And>w1. bw_intents w1 = settle_rows (ci_id i) s reason (bw_intents w) \<Longrightarrow> bw_jobs w1 = bw_jobs w \<Longrightarrow> bw_queue w1 = bw_queue w \<Longrightarrow>
       bw_events w1 = bw_events w \<Longrightarrow> Q () w1"
    and "\<And>w1 e. bw_intents w1 \<in> {bw_intents w, settle_rows (ci_id i) s reason (bw_intents w)} \<Longrightarrow> bw_jobs w1 = bw_jobs w \<Longrightarrow>
       bw_queue w1 = bw_queue w \<Longrightarrow> bw_events w1 = bw_events w \<Longrightarrow> E e w1"
  shows "wp (update_intent_status env i s reason) Q E w"
  using assms by (auto simp: update_intent_status_def update_intent_rows_def update_intent_def wps settle_row_fields settle_rows_def
      split: option.split)

lemma wp_insert_intent:
  assumes "\<And>w1 i. bw_intents w1 = bw_intents w @ [mk i] \<Longrightarrow> \<not> intent_conflict (mk i) (bw_intents w) \<Longrightarrow> bw_jobs w1 = bw_jobs w \<Longrightarrow>
       bw_queue w1 = bw_queue w \<Longrightarrow> bw_events w1 = bw_events w \<Longrightarrow> Q (mk i) w1"
    and "\<And>w1 e. tables_kept w w1 \<Longrightarrow> E e w1"
  shows "wp (insert_intent env mk) Q E w"
  using assms by (auto simp: insert_intent_def wps tables_kept_def split: option.split)

text \<open>What one intent becomes, given its settlement.\<close>

definition reconciled :: "vault_settings \<Rightarrow> capital_intent \<Rightarrow> settled_event \<Rightarrow> capital_intent list \<Rightarrow> capital_intent list \<Rightarrow> bool" where
  "reconciled v i e rows rows' \<longleftrightarrow>
     (if se_settlement_type e = Some ''physical_failed'' then
        rows' = settle_rows (ci_id i) RETRYABLE (Some ''Physical delivery failed after expiry'') rows
      else if is_assigned e then rows' = settle_rows (ci_id i) ASSIGNED_ROTATING None rows
      else if with_key (rotation_idempotency_key i e) rows \<noteq> [] then rows' = settle_rows (ci_id i) CI_COMPLETED None rows
      else (case rotation_row v i e (rotation_idempotency_key i e) of
              None \<Rightarrow> rows' = rows
            | Some mk \<Rightarrow> \<exists>iid. iid \<notin> ci_id ` set rows \<and>
                rows' = settle_rows (ci_id i) CI_COMPLETED None rows @ [mk iid]))"

lemma with_key_find: "find (\<lambda>i. ci_idempotency_key i = Some key) rows = None \<longleftrightarrow> with_key key rows = []"
  by (auto simp: with_key_def find_None_iff filter_empty_conv)

lemma rotation_row_id: "rotation_row v i e key = Some mk \<Longrightarrow> ci_id (mk iid) = iid"
  by (auto simp: rotation_row_def Let_def split: option.splits)

lemma settle_append: "settle_rows k s r (rows @ [x]) = settle_rows k s r rows @ [if ci_id x = k then settle_row s r x else x]"
  by (simp add: settle_rows_def tbl_update_def)



definition otm_event :: settled_event where
  "otm_event = \<lparr>se_tx_hash = Some ''t1'', se_chain = Some ''base'', se_is_settled = Some True, se_settled_at = None,
     se_settlement_tx_hash = None, se_settlement_type = None, se_is_itm = Some False, se_collateral = Some ''250'',
     se_user_address = Some ''user''\<rparr>"

definition deployed_intent :: capital_intent where
  "deployed_intent = demo_intent\<lparr>ci_intent_type := DEPLOYMENT, ci_status := DEPLOYED, ci_destination_tx := Some ''t1''\<rparr>"

definition demo_vaults :: vault_settings where
  "demo_vaults = \<lparr>base_sepolia_vault_adapter = [], solana_devnet_vault_token_account = []\<rparr>"

definition settled_world :: bridge_world where
  "settled_world = (demo_world [] [deployed_intent])\<lparr>bw_events := [otm_event]\<rparr>"

definition zero_summary :: reconcile_summary where
  "zero_summary = \<lparr>rs_inspected = 1, rs_skipped_unsettled = 0, rs_waiting_created = 0, rs_already_reconciled = 0,
     rs_assigned = 0, rs_retryable = 0\<rparr>"

lemma demo_rotation: "\<exists>mk. rotation_row demo_vaults deployed_intent otm_event key = Some mk \<and>
    (\<forall>i. ci_status (mk i) = WAITING_TO_BE_DEPLOYED \<and> ci_id (mk i) = i)"
proof -
  have "py_int ''250'' = Some 250"
    by (simp add: py_int_def strip_def is_space_def py_nat_def digit_val_def Let_def)
  then show ?thesis
    by (simp add: rotation_row_def otm_event_def positive_raw_amount_def str_or_def venue_of_def Let_def)
qed



text \<open>A whole run: what it may do to the table, whatever fails.\<close>

definition unique_intents :: "capital_intent list \<Rightarrow> bool" where
  "unique_intents rows \<longleftrightarrow> distinct (map ci_id rows) \<and>
     distinct (map ci_idempotency_key (filter (\<lambda>r. ci_idempotency_key r \<noteq> None) rows))"

definition fixed_part :: "capital_intent \<Rightarrow> string \<times> intent_type \<times> string option \<times> string \<times> chain \<times> chain" where
  "fixed_part i = (ci_id i, ci_intent_type i, ci_idempotency_key i, ci_amount_usdc i, ci_source_chain i, ci_destination_chain i)"

definition table_grows :: "bridge_world \<Rightarrow> bridge_world \<Rightarrow> bool" where
  "table_grows w w' \<longleftrightarrow> (unique_intents (bw_intents w) \<longrightarrow> unique_intents (bw_intents w')) \<and>
     (\<exists>new. map fixed_part (bw_intents w') = map fixed_part (bw_intents w) @ new) \<and>
     bw_jobs w' = bw_jobs w \<and> bw_queue w' = bw_queue w \<and> bw_events w' = bw_events w"

interpretation intents_table: world_order table_grows
proof unfold_locales
  show "table_grows w w" for w by (simp add: table_grows_def)
next
  fix u v w assume "table_grows u v" "table_grows v w"
  then show "table_grows u w" unfolding table_grows_def by (metis append.assoc)
qed

lemma settle_fixed: "map fixed_part (settle_rows k s r rows) = map fixed_part rows"
  by (induction rows) (auto simp: settle_rows_def fixed_part_def settle_row_def)

lemma settle_unique: "unique_intents (settle_rows k s r rows) = unique_intents rows"
proof -
  have "map ci_id (settle_rows k s r rows) = map ci_id rows"
    "map ci_idempotency_key (filter (\<lambda>r. ci_idempotency_key r \<noteq> None) (settle_rows k s r rows)) =
     map ci_idempotency_key (filter (\<lambda>r. ci_idempotency_key r \<noteq> None) rows)"
    by (induction rows) (auto simp: settle_rows_def settle_row_def)
  then show ?thesis by (simp add: unique_intents_def)
qed

lemma insert_unique: "unique_intents rows \<Longrightarrow> \<not> intent_conflict i rows \<Longrightarrow> unique_intents (rows @ [i])"
  by (auto simp: unique_intents_def intent_conflict_def list_ex_iff)

definition counted :: "reconcile_summary \<Rightarrow> nat" where
  "counted s = rs_skipped_unsettled s + rs_waiting_created s + rs_already_reconciled s + rs_assigned s + rs_retryable s"

text \<open>One step counts its intent at most once, and counts every row it adds.\<close>

definition step_accounts :: "reconcile_summary \<Rightarrow> bridge_world \<Rightarrow> reconcile_summary \<Rightarrow> bridge_world \<Rightarrow> bool" where
  "step_accounts s w s' w' \<longleftrightarrow> table_grows w w' \<and> rs_inspected s' = rs_inspected s \<and> counted s' \<le> counted s + 1 \<and>
     length (bw_intents w') + rs_waiting_created s = length (bw_intents w) + rs_waiting_created s'"

lemma wp_reconcile_step: "wp (reconcile_intent env v s i) (\<lambda>s' w'. step_accounts s w s' w') (\<lambda>_. table_grows w) w"
proof -
  have keep: "table_grows w w1" if "tables_kept w w1" for w1
    using that by (simp add: table_grows_def tables_kept_def)
  have grow: "table_grows w w1" if "bw_intents w1 \<in> {bw_intents w2, settle_rows k st r (bw_intents w2)}" "table_grows w w2"
    "bw_jobs w1 = bw_jobs w2" "bw_queue w1 = bw_queue w2" "bw_events w1 = bw_events w2" for w1 w2 k st r
    using that by (auto simp: table_grows_def settle_fixed settle_unique)
  have len: "length (settle_rows k st r rows) = length rows" for k st r rows by (simp add: settle_rows_def)
  have upd: "wp (thenE (update_intent_status env i st r) (ret s')) (\<lambda>s' w'. step_accounts s w s' w') (\<lambda>_. table_grows w) w1"
    if g: "table_grows w w1" and n: "rs_inspected s' = rs_inspected s" "counted s' = counted s + 1"
      "length (bw_intents w1) + rs_waiting_created s = length (bw_intents w) + rs_waiting_created s'" for st r s' w1
    unfolding wp_then
  proof (rule wp_update_intent_status)
    fix w2 :: bridge_world
    assume w2: "bw_intents w2 = settle_rows (ci_id i) st r (bw_intents w1)" "bw_jobs w2 = bw_jobs w1" "bw_queue w2 = bw_queue w1"
      "bw_events w2 = bw_events w1"
    have "table_grows w w2" by (rule grow [OF _ g, of w2 "ci_id i" st r]) (use w2 in simp_all)
    with n w2 show "wp (ret s') (step_accounts s w) (\<lambda>_. table_grows w) w2"
      by (simp add: wp_ret step_accounts_def len)
  next
    fix w2 :: bridge_world and e
    assume "bw_intents w2 \<in> {bw_intents w1, settle_rows (ci_id i) st r (bw_intents w1)}" "bw_jobs w2 = bw_jobs w1"
      "bw_queue w2 = bw_queue w1" "bw_events w2 = bw_events w1"
    then show "table_grows w w2" by (rule grow [OF _ g])
  qed
  have ins: "wp (thenE (insert_intent env mk) (thenE (update_intent_status env i CI_COMPLETED None)
      (ret (s\<lparr>rs_waiting_created := rs_waiting_created s + 1\<rparr>)))) (\<lambda>s' w'. step_accounts s w s' w') (\<lambda>_. table_grows w) w1"
    if k: "tables_kept w w1" for mk w1
    unfolding wp_then [of "insert_intent _ _"]
  proof (rule wp_insert_intent)
    fix w2 :: bridge_world and iid
    assume w2: "bw_intents w2 = bw_intents w1 @ [mk iid]" "\<not> intent_conflict (mk iid) (bw_intents w1)" "bw_jobs w2 = bw_jobs w1"
      "bw_queue w2 = bw_queue w1" "bw_events w2 = bw_events w1"
    then show "wp (thenE (update_intent_status env i CI_COMPLETED None) (ret (s\<lparr>rs_waiting_created := rs_waiting_created s + 1\<rparr>)))
        (\<lambda>s' w'. step_accounts s w s' w') (\<lambda>_. table_grows w) w2"
      using k by (intro upd) (auto simp: table_grows_def tables_kept_def counted_def insert_unique)
  next
    fix w2 :: bridge_world and e assume "tables_kept w1 w2"
    with k show "table_grows w w2" by (intro keep) (rule tables.le_trans)
  qed
  have same: "wp (ret s') (\<lambda>s' w'. step_accounts s w s' w') (\<lambda>_. table_grows w) w1"
    if "tables_kept w w1" "rs_inspected s' = rs_inspected s" "counted s' \<le> counted s + 1" "rs_waiting_created s' = rs_waiting_created s" for s' w1
    using that keep by (simp add: wp_ret step_accounts_def tables_kept_def)
  have k: "tables_kept w (w\<lparr>calls := h\<rparr>)" for h by (simp add: tables_kept_def)
  have read: "wp (read_order_event env i) (\<lambda>_. tables_kept w) (\<lambda>_. table_grows w) w"
    using keep [OF k] by (auto simp: read_order_event_def wps tables.le_refl k split: option.split)
  have existing: "wp (read_existing_rotation env key) (\<lambda>_. tables_kept w) (\<lambda>_. table_grows w) w1" if "tables_kept w w1" for key w1
    using that by (auto simp: read_existing_rotation_def wps tables_kept_def table_grows_def split: option.split)
  have updk: "wp (thenE (update_intent_status env i st r) (ret s')) (\<lambda>s' w'. step_accounts s w s' w') (\<lambda>_. table_grows w) w1"
    if "tables_kept w w1" "rs_inspected s' = rs_inspected s" "counted s' = counted s + 1" "rs_waiting_created s' = rs_waiting_created s" for st r s' w1
    using that keep [OF that(1)] by (intro upd) (simp_all add: tables_kept_def)
  have rot: "wp (bindE (read_existing_rotation env key) (\<lambda>existing.
                case existing of
                  Some _ \<Rightarrow>
                    thenE (update_intent_status env i CI_COMPLETED None)
                      (ret (s\<lparr>rs_already_reconciled := rs_already_reconciled s + 1\<rparr>))
                | None \<Rightarrow>
                    (case rotation_row v i e key of
                       None \<Rightarrow> ret s
                     | Some mk \<Rightarrow>
                         thenE (insert_intent env mk)
                         (thenE (update_intent_status env i CI_COMPLETED None)
                           (ret (s\<lparr>rs_waiting_created := rs_waiting_created s + 1\<rparr>))))))
       (\<lambda>s' w'. step_accounts s w s' w') (\<lambda>_. table_grows w) w1" if "tables_kept w w1" for key e w1
    unfolding wp_bind
    by (rule wp_mono [OF existing [OF that]]) (auto split: option.split intro!: updk ins same simp: counted_def)
  show ?thesis
    unfolding reconcile_intent_def wp_bind [of "read_order_event _ _"]
  proof (rule wp_mono [OF read], goal_cases)
    case (1 event w1)
    then show ?case
      by (cases event) (auto simp: Let_def counted_def intro!: same updk rot)
  qed
qed

lemma wp_reconcile_fold:
  "wp (foldE (reconcile_intent env v) s is) (\<lambda>s' w'. table_grows w w' \<and> rs_inspected s' = rs_inspected s \<and>
      counted s' \<le> counted s + length is \<and>
      length (bw_intents w') + rs_waiting_created s = length (bw_intents w) + rs_waiting_created s')
     (\<lambda>_. table_grows w) w"
proof (induction "is" arbitrary: s w)
  case Nil
  show ?case by (simp add: wps intents_table.le_refl)
next
  case (Cons i xs)
  show ?case
    unfolding foldE.simps wp_bind
  proof (rule wp_mono [OF wp_reconcile_step], goal_cases)
    case (1 s1 w1)
    show ?case
      by (rule wp_mono [OF Cons.IH]) (use 1 in \<open>auto simp: step_accounts_def intro: intents_table.le_trans\<close>)
  qed auto
qed

text \<open>
  A run of the reconciliation, whatever fails. It removes no intent, keeps the type, key, amount and chains of
  every intent, changes no job, and never creates a second intent for a rotation key. If it
  returns, it inspected at most \<open>limit\<close> intents, its counters add up to at most the number inspected, and exactly as many rows
  were added as it reports.
\<close>

lemma reconcile_run_accounts:
  assumes "unique_intents (bw_intents w)" and "reconcile_settled_positions env v limit w = (r, w')"
  shows "unique_intents (bw_intents w') \<and> (\<exists>new. map fixed_part (bw_intents w') = map fixed_part (bw_intents w) @ new) \<and>
    bw_jobs w' = bw_jobs w \<and> bw_queue w' = bw_queue w \<and>
    (case r of Inl _ \<Rightarrow> True
     | Inr s \<Rightarrow> rs_inspected s \<le> limit \<and> counted s \<le> rs_inspected s \<and>
         length (bw_intents w') = length (bw_intents w) + rs_waiting_created s)"
proof -
  let ?s = "\<lambda>n. \<lparr>rs_inspected = n, rs_skipped_unsettled = 0, rs_waiting_created = 0,
          rs_already_reconciled = 0, rs_assigned = 0, rs_retryable = 0\<rparr>"
  have "wp (reconcile_settled_positions env v limit) (\<lambda>s w'. table_grows w w' \<and> rs_inspected s \<le> limit \<and> counted s \<le> rs_inspected s \<and>
         length (bw_intents w') = length (bw_intents w) + rs_waiting_created s) (\<lambda>_. table_grows w) w"
    unfolding reconcile_settled_positions_def wp_bind
  proof (rule wp_mono [where Q = "\<lambda>rows w1. length rows \<le> limit \<and> tables_kept w w1" and E = "\<lambda>_. table_grows w"], goal_cases)
    case 1
    show ?case
      by (auto simp: read_deployed_intents_def select_intents_def wps tables_kept_def table_grows_def split: option.split
          intro!: order_trans [OF length_filter_le])
  next
    case (2 rows w1)
    then have t: "table_grows w w1" "length (bw_intents w1) = length (bw_intents w)" by (auto simp: tables_kept_def table_grows_def)
    show ?case
      by (rule wp_mono [OF wp_reconcile_fold [of env v "?s (length rows)" rows w1]])
        (use 2 t in \<open>auto simp: counted_def intro: intents_table.le_trans\<close>)
  qed auto
  with assms show ?thesis by (auto simp: wp_def table_grows_def split: sum.splits)
qed

lemma reconcile_run_accounts_witness:
  "unique_intents (bw_intents (snd (reconcile_settled_positions demo_env demo_vaults 10 settled_world)))"
proof -
  obtain r w' where r: "reconcile_settled_positions demo_env demo_vaults 10 settled_world = (r, w')" by fastforce
  have "unique_intents (bw_intents settled_world)"
    by (simp add: unique_intents_def settled_world_def demo_world_def)
  from reconcile_run_accounts [OF this r] r show ?thesis by simp
qed

end
