(* ===== verification/Py_Float.thy ===== *)
theory Py_Float
  imports Complex_Main "HOL-Library.Log_Nat" Py_Monad
begin

text \<open>
  Python floats are IEEE binary64 numbers. A float is modelled by the rational it denotes and
  every arithmetic operation by the exact rational operation followed by \<open>fl\<close>, rounding to a
  53 bit significand, ties to even. The exponent range is unbounded here: overflow, subnormal
  numbers, signed zeros and NaN are outside the model. The locale \<open>float_rounding\<close> holds what
  the clients need of a rounding function; \<open>fl\<close> interprets it.
\<close>

section \<open>Rounding to integers\<close>

text \<open>\<open>round(x)\<close> rounds to the nearest integer, ties to even; \<open>int(x)\<close> truncates.\<close>

definition py_round :: "rat \<Rightarrow> int" where
  "py_round x =
     (let f = \<lfloor>x\<rfloor>; d = x - of_int f in
      if d < 1 / 2 then f else if d > 1 / 2 then f + 1 else if even f then f else f + 1)"

definition py_trunc :: "rat \<Rightarrow> int" where
  "py_trunc x = (if 0 \<le> x then \<lfloor>x\<rfloor> else - \<lfloor>- x\<rfloor>)"

lemma py_round_of_int [simp]: "py_round (of_int i) = i"
  by (simp add: py_round_def Let_def)

lemma py_round_cases: "py_round x = \<lfloor>x\<rfloor> \<or> py_round x = \<lfloor>x\<rfloor> + 1"
  by (simp add: py_round_def Let_def)

lemma py_round_mono:
  assumes "x \<le> y" shows "py_round x \<le> py_round y"
proof (cases "\<lfloor>x\<rfloor> = \<lfloor>y\<rfloor>")
  case True
  with assms show ?thesis by (auto simp: py_round_def Let_def)
next
  case False
  with assms have "\<lfloor>x\<rfloor> + 1 \<le> \<lfloor>y\<rfloor>" using floor_mono [OF assms] by linarith
  then show ?thesis using py_round_cases [of x] py_round_cases [of y] by linarith
qed

lemma py_round_error: "\<bar>of_int (py_round x) - x\<bar> \<le> 1 / 2"
proof -
  have "0 \<le> x - of_int \<lfloor>x\<rfloor>" "x - of_int \<lfloor>x\<rfloor> < 1" by linarith+
  then show ?thesis unfolding py_round_def Let_def abs_le_iff by (auto; linarith)
qed

lemma py_trunc_of_int [simp]: "py_trunc (of_int i) = i"
  by (simp add: py_trunc_def flip: of_int_minus)

lemma py_trunc_nonneg: "0 \<le> x \<Longrightarrow> 0 \<le> py_trunc x"
  by (simp add: py_trunc_def)

lemma py_trunc_mono: "0 \<le> x \<Longrightarrow> x \<le> y \<Longrightarrow> py_trunc x \<le> py_trunc y"
  by (simp add: py_trunc_def floor_mono)

section \<open>Rounding to 53 bits\<close>

definition ilog2 :: "rat \<Rightarrow> int" where
  "ilog2 x = (if 1 \<le> x then bitlen \<lfloor>x\<rfloor> - 1 else - bitlen (\<lceil>1 / x\<rceil> - 1))"

definition ulp :: "rat \<Rightarrow> rat" where
  "ulp x = 2 powi (ilog2 \<bar>x\<bar> - 52)"

definition fl :: "rat \<Rightarrow> rat" where
  "fl x = (if x = 0 then 0 else of_int (py_round (x / ulp x)) * ulp x)"

lemma ulp_pos [simp]: "0 < ulp x"
  by (simp add: ulp_def)

lemma bitlen_range: "0 < n \<Longrightarrow> 2 ^ nat (bitlen n - 1) \<le> n \<and> n < 2 ^ nat (bitlen n)"
  using bitlen_bounds [of n] by simp

lemma bitlen_pos: "0 < n \<Longrightarrow> 0 < bitlen n"
  using bitlen_eq_zero_iff [of n] bitlen_nonneg [of n] by linarith

lemma ilog2_bounds:
  assumes "0 < x"
  shows "2 powi ilog2 x \<le> x" and "x < 2 powi (ilog2 x + 1)"
proof -
  have "2 powi ilog2 x \<le> x \<and> x < 2 powi (ilog2 x + 1)"
  proof (cases "1 \<le> x")
    case True
    then have n: "0 < \<lfloor>x\<rfloor>" by simp
    then have b: "0 < bitlen \<lfloor>x\<rfloor>" by (simp add: bitlen_pos)
    from bitlen_range [OF n] have r: "2 ^ nat (bitlen \<lfloor>x\<rfloor> - 1) \<le> \<lfloor>x\<rfloor>" "\<lfloor>x\<rfloor> < 2 ^ nat (bitlen \<lfloor>x\<rfloor>)"
      by simp_all
    from r(1) have "(2::rat) ^ nat (bitlen \<lfloor>x\<rfloor> - 1) \<le> x"
      by (metis le_floor_iff of_int_numeral of_int_power)
    moreover from r(2) have "x < (2::rat) ^ nat (bitlen \<lfloor>x\<rfloor>)"
      by (metis floor_less_iff of_int_numeral of_int_power)
    ultimately show ?thesis using True b by (simp add: ilog2_def power_int_def)
  next
    case False
    define m where "m = \<lceil>1 / x\<rceil> - 1"
    have y: "1 < 1 / x" using False assms by simp
    then have m: "0 < m" by (simp add: m_def less_ceiling_iff)
    then have b: "0 < bitlen m" by (simp add: bitlen_pos)
    have c: "of_int m < 1 / x" "1 / x \<le> of_int m + 1"
      by (simp_all add: m_def) linarith+
    from bitlen_range [OF m] have r: "2 ^ nat (bitlen m - 1) \<le> m" "m + 1 \<le> 2 ^ nat (bitlen m)"
      by simp_all
    have "(2::rat) ^ nat (bitlen m - 1) \<le> of_int m"
      using r(1) by (metis of_int_le_iff of_int_numeral of_int_power)
    with c have l: "(2::rat) ^ nat (bitlen m - 1) < 1 / x" by linarith
    have "of_int (m + 1) \<le> (2::rat) ^ nat (bitlen m)"
      using r(2) by (metis of_int_le_iff of_int_numeral of_int_power)
    with c have u: "1 / x \<le> (2::rat) ^ nat (bitlen m)" by simp
    have e: "ilog2 x = - bitlen m" using False by (simp add: ilog2_def m_def)
    have "2 powi ilog2 x = inverse ((2::rat) ^ nat (bitlen m))"
      using b by (simp add: e power_int_def power_one_over inverse_eq_divide)
    moreover have "2 powi (ilog2 x + 1) = inverse ((2::rat) ^ nat (bitlen m - 1))"
      using b by (auto simp: e power_int_def power_one_over inverse_eq_divide nat_diff_distrib)
    moreover have "inverse ((2::rat) ^ nat (bitlen m)) \<le> x"
      using u assms by (simp add: field_simps)
    moreover have "x < inverse ((2::rat) ^ nat (bitlen m - 1))"
      using l assms by (simp add: field_simps)
    ultimately show ?thesis by simp
  qed
  then show "2 powi ilog2 x \<le> x" "x < 2 powi (ilog2 x + 1)" by auto
qed

lemma powi_less_iff: "(2::rat) powi a < 2 powi b \<longleftrightarrow> a < b"
  using power_int_strict_increasing [of a b "2::rat"] power_int_increasing [of b a "2::rat"]
  by (cases a b rule: linorder_less_linear [THEN disjE]) (auto simp: not_less)

lemma ilog2_less: "0 < x \<Longrightarrow> x < 2 powi k \<Longrightarrow> ilog2 x < k"
  using ilog2_bounds(1) [of x] powi_less_iff [of "ilog2 x" k] by linarith

lemma ilog2_mono: "0 < x \<Longrightarrow> x \<le> y \<Longrightarrow> ilog2 x \<le> ilog2 y"
  using ilog2_bounds [of x] ilog2_bounds [of y] powi_less_iff [of "ilog2 x" "ilog2 y + 1"] by linarith


lemma ulp_abs [simp]: "ulp (- x) = ulp x"
  by (simp add: ulp_def)

lemma fl_0 [simp]: "fl 0 = 0"
  by (simp add: fl_def)

text \<open>Numbers with at most 53 significant bits are exact.\<close>

lemma fl_exact:
  assumes "\<bar>m\<bar> < 2 ^ 53"
  shows "fl (of_int m * 2 powi k) = of_int m * 2 powi k"
proof (cases "m = 0")
  case True
  then show ?thesis by simp
next
  case False
  let ?x = "of_int m * 2 powi k :: rat"
  have x0: "?x \<noteq> 0" using False by simp
  have ax: "\<bar>?x\<bar> = of_int \<bar>m\<bar> * 2 powi k" by (simp add: abs_mult)
  have "\<bar>?x\<bar> < 2 powi (53 + k)"
  proof -
    have "of_int \<bar>m\<bar> < (2 ^ 53 :: rat)"
      using assms by (metis of_int_less_iff of_int_numeral of_int_power)
    then have "of_int \<bar>m\<bar> * 2 powi k < (2 ^ 53 * 2 powi k :: rat)"
      by (rule mult_strict_right_mono) simp
    then show ?thesis unfolding ax by (simp add: power_int_add)
  qed
  with x0 have "ilog2 \<bar>?x\<bar> < 53 + k" by (intro ilog2_less) simp_all
  then obtain j where j: "k = (ilog2 \<bar>?x\<bar> - 52) + int j"
    using zle_iff_zadd [of "ilog2 \<bar>?x\<bar> - 52" k] by auto
  have u: "?x = of_int (m * 2 ^ j) * ulp ?x"
    unfolding ulp_def by (subst j) (simp add: power_int_add)
  then have "?x / ulp ?x = of_int (m * 2 ^ j)"
    by (metis nonzero_eq_divide_eq ulp_pos less_irrefl)
  then have "py_round (?x / ulp ?x) = m * 2 ^ j"
    by (metis py_round_of_int)
  with u x0 show ?thesis by (simp add: fl_def)
qed

lemma fl_of_int: "\<bar>m\<bar> < 2 ^ 53 \<Longrightarrow> fl (of_int m) = of_int m"
  using fl_exact [of m 0] by simp

lemma fl_powi: "fl (2 powi k) = 2 powi k"
  using fl_exact [of 1 k] by simp

lemma fl_between_pow:
  assumes "0 < x"
  shows "2 powi ilog2 x \<le> fl x" and "fl x \<le> 2 powi (ilog2 x + 1)"
proof -
  have u: "ulp x = 2 powi (ilog2 x - 52)" using assms by (simp add: ulp_def)
  have lo: "2 powi ilog2 x = of_int (2 ^ 52) * ulp x"
    by (simp add: u power_int_diff)
  have hi: "2 powi (ilog2 x + 1) = of_int (2 ^ 53) * ulp x"
    by (simp add: u power_int_diff power_int_add)
  have "of_int (2 ^ 52) \<le> x / ulp x" "x / ulp x \<le> of_int (2 ^ 53)"
    using ilog2_bounds [OF assms] unfolding lo hi by (simp_all add: field_simps)
  then have "2 ^ 52 \<le> py_round (x / ulp x)" "py_round (x / ulp x) \<le> 2 ^ 53"
    by (metis py_round_mono py_round_of_int)+
  then have "of_int (2 ^ 52) \<le> (of_int (py_round (x / ulp x)) :: rat)"
      "(of_int (py_round (x / ulp x)) :: rat) \<le> of_int (2 ^ 53)"
    by (simp_all only: of_int_le_iff)
  then show "2 powi ilog2 x \<le> fl x" "fl x \<le> 2 powi (ilog2 x + 1)"
    unfolding lo hi using assms by (simp_all add: fl_def mult_right_mono)
qed

lemma fl_nonneg: "0 \<le> x \<Longrightarrow> 0 \<le> fl x"
  using fl_between_pow(1) [of x] by (cases "x = 0") (auto intro: order_trans [rotated])

lemma fl_mono_pos:
  assumes "0 < x" "x \<le> y" shows "fl x \<le> fl y"
proof (cases "ilog2 x = ilog2 y")
  case True
  then have u: "ulp x = ulp y" using assms by (simp add: ulp_def)
  have "x / ulp y \<le> y / ulp y" using assms(2) by (rule divide_right_mono) (simp add: less_imp_le)
  then have "py_round (x / ulp y) \<le> py_round (y / ulp y)" by (rule py_round_mono)
  with assms u show ?thesis by (simp add: fl_def mult_right_mono)
next
  case False
  with assms have "ilog2 x + 1 \<le> ilog2 y" using ilog2_mono [of x y] by simp
  then have "(2::rat) powi (ilog2 x + 1) \<le> 2 powi ilog2 y" by (rule power_int_increasing) simp
  with fl_between_pow(2) [of x] fl_between_pow(1) [of y] assms show ?thesis by simp
qed

lemma fl_mono:
  assumes "0 \<le> x" "x \<le> y" shows "fl x \<le> fl y"
  using assms fl_mono_pos [of x y] fl_nonneg [of y] by (cases "x = 0") auto

lemma fl_error: "\<bar>fl x - x\<bar> \<le> ulp x / 2"
proof (cases "x = 0")
  case True
  then show ?thesis by (simp add: less_imp_le)
next
  case False
  have "fl x - x = (of_int (py_round (x / ulp x)) - x / ulp x) * ulp x"
    using False by (simp add: fl_def left_diff_distrib less_imp_neq [OF ulp_pos, symmetric])
  then have "\<bar>fl x - x\<bar> = \<bar>of_int (py_round (x / ulp x)) - x / ulp x\<bar> * ulp x"
    by (simp add: abs_mult less_imp_le)
  also have "\<dots> \<le> 1 / 2 * ulp x"
    by (intro mult_right_mono py_round_error) (simp add: less_imp_le)
  finally show ?thesis by simp
qed

lemma ulp_le_1: "0 < x \<Longrightarrow> x < 2 ^ 53 \<Longrightarrow> ulp x \<le> 1"
proof -
  assume "0 < x" "x < 2 ^ 53"
  then have "ilog2 x < 53" by (intro ilog2_less) (simp_all add: power_int_def)
  then have "(2::rat) powi (ilog2 x - 52) \<le> 2 powi 0" by (intro power_int_increasing) auto
  with \<open>0 < x\<close> show ?thesis by (simp add: ulp_def)
qed

text \<open>Rounding a float of moderate size to an integer is off by at most one.\<close>

lemma round_fl_close:
  assumes "0 < x" "x < 2 ^ 53"
  shows "\<bar>of_int (py_round (fl x)) - x\<bar> \<le> 1"
  using py_round_error [of "fl x"] fl_error [of x] ulp_le_1 [OF assms] by linarith

section \<open>The interface of a rounding function\<close>

text \<open>
  Rounding is monotone on non-negative numbers and exact on integers of at most 53 bits.
  These two laws are enough for the clients: shares stay between 0 and 1, and truncated
  products of a share stay between 0 and the whole.
\<close>

locale float_rounding =
  fixes rnd :: "rat \<Rightarrow> rat"
  assumes rnd_mono: "0 \<le> x \<Longrightarrow> x \<le> y \<Longrightarrow> rnd x \<le> rnd y"
    and rnd_int: "\<bar>m\<bar> < 2 ^ 53 \<Longrightarrow> rnd (of_int m) = of_int m"
begin

lemma rnd_0: "rnd 0 = 0"
  using rnd_int [of 0] by simp

lemma rnd_1: "rnd 1 = 1"
  using rnd_int [of 1] by simp

lemma rnd_nonneg: "0 \<le> x \<Longrightarrow> 0 \<le> rnd x"
  using rnd_mono [of 0 x] by (simp add: rnd_0)

lemma share_unit: "0 \<le> w \<Longrightarrow> w \<le> t \<Longrightarrow> 0 < t \<Longrightarrow> 0 \<le> rnd (w / t) \<and> rnd (w / t) \<le> 1"
  using rnd_mono [of "w / t" 1] rnd_nonneg [of "w / t"] by (simp add: rnd_1)

lemma trunc_share_bounds:
  assumes "0 \<le> s" "s \<le> 1" "0 \<le> d" "d < 2 ^ 53"
  shows "0 \<le> py_trunc (rnd (of_int d * s)) \<and> py_trunc (rnd (of_int d * s)) \<le> d"
proof -
  have "of_int d * s \<le> of_int d * 1" using assms by (intro mult_left_mono) auto
  then have "rnd (of_int d * s) \<le> rnd (of_int d)" using assms by (intro rnd_mono) auto
  also have "\<dots> = of_int d" using assms by (intro rnd_int) auto
  finally have "py_trunc (rnd (of_int d * s)) \<le> py_trunc (of_int d)"
    using assms rnd_nonneg [of "of_int d * s"] by (intro py_trunc_mono) auto
  then show ?thesis using assms rnd_nonneg [of "of_int d * s"] by (simp add: py_trunc_nonneg)
qed

end

interpretation binary64: float_rounding fl
  by unfold_locales (auto simp: fl_mono fl_of_int)

end
