(* ===== verification/Assets.thy ===== *)
theory Assets
  imports Config Py_Float
begin

text \<open>
  The asset registry of \<open>src/pricing/assets.py\<close>: the supported underlyings, their
  configuration, the oracle and token lookups that depend on the chain, and the fail-fast
  checks the module runs when it is imported.
\<close>

datatype asset = ETH | BTC | SOL | TSLAX

fun asset_value :: "asset \<Rightarrow> string" where
  "asset_value ETH = ''eth''"
| "asset_value BTC = ''btc''"
| "asset_value SOL = ''sol''"
| "asset_value TSLAX = ''tslax''"

text \<open>Iteration order of the enumeration, and \<open>Asset(value)\<close>.\<close>

definition all_assets :: "asset list" where
  "all_assets = [ETH, BTC, SOL, TSLAX]"

definition asset_of_value :: "string \<Rightarrow> asset option" where
  "asset_of_value v = find (\<lambda>a. asset_value a = v) all_assets"

lemma asset_of_value_value [simp]: "asset_of_value (asset_value a) = Some a"
  by (cases a) (simp_all add: asset_of_value_def all_assets_def)

record asset_config =
  ac_symbol :: string
  ac_chain :: chain
  ac_decimals :: nat
  deribit_index :: string
  deribit_currency :: string
  strike_step :: rat
  short_expiry_strike_step :: rat
  num_strikes :: int
  min_otm_per_side :: int
  proxy_iv :: "rat option"

fun asset_configs :: "asset \<Rightarrow> asset_config" where
  "asset_configs ETH =
     \<lparr>ac_symbol = ''ETH'', ac_chain = BASE, ac_decimals = 18, deribit_index = ''eth_usd'',
      deribit_currency = ''ETH'', strike_step = 50, short_expiry_strike_step = 25,
      num_strikes = 5, min_otm_per_side = 4, proxy_iv = None\<rparr>"
| "asset_configs BTC =
     \<lparr>ac_symbol = ''BTC'', ac_chain = BASE, ac_decimals = 8, deribit_index = ''btc_usd'',
      deribit_currency = ''BTC'', strike_step = 1000, short_expiry_strike_step = 500,
      num_strikes = 5, min_otm_per_side = 4, proxy_iv = None\<rparr>"
| "asset_configs SOL =
     \<lparr>ac_symbol = ''SOL'', ac_chain = SOLANA, ac_decimals = 9, deribit_index = ''sol_usdc'',
      deribit_currency = ''USDC'', strike_step = 1, short_expiry_strike_step = 1,
      num_strikes = 5, min_otm_per_side = 4, proxy_iv = None\<rparr>"
| "asset_configs TSLAX =
     \<lparr>ac_symbol = ''TSLAX'', ac_chain = SOLANA, ac_decimals = 8, deribit_index = [],
      deribit_currency = [], strike_step = 5, short_expiry_strike_step = 5 / 2,
      num_strikes = 5, min_otm_per_side = 4, proxy_iv = Some (fl (65 / 100))\<rparr>"

definition has_deribit :: "asset_config \<Rightarrow> bool" where
  "has_deribit c \<longleftrightarrow> deribit_index c \<noteq> []"

text \<open>The addresses come from the settings.\<close>

record address_settings =
  chainlink_eth_usd_address :: string
  chainlink_btc_usd_address :: string
  weth_address :: string
  wbtc_address :: string
  usdc_address :: string
  solana_wsol_mint :: string
  solana_tslax_mint :: string

definition chainlink_feed_address :: "address_settings \<Rightarrow> asset_config \<Rightarrow> exn + string" where
  "chainlink_feed_address s c =
     (if ac_chain c \<noteq> BASE then
        Inl (ValueError (ac_symbol c @ '' is on '' @ chain_value (ac_chain c) @ '', not Base. '' @
          ''Use Pyth for Solana assets.''))
      else if ac_symbol c = ''ETH'' then Inr (chainlink_eth_usd_address s)
      else if ac_symbol c = ''BTC'' then Inr (chainlink_btc_usd_address s)
      else Inl (ValueError (''No Chainlink feed for '' @ ac_symbol c)))"

definition underlying_address :: "address_settings \<Rightarrow> asset_config \<Rightarrow> exn + string" where
  "underlying_address s c =
     (if ac_symbol c = ''ETH'' then Inr (weth_address s)
      else if ac_symbol c = ''BTC'' then Inr (wbtc_address s)
      else if ac_symbol c = ''SOL'' then Inr (solana_wsol_mint s)
      else if ac_symbol c = ''TSLAX'' then Inr (solana_tslax_mint s)
      else Inl (ValueError (''No underlying address for '' @ ac_symbol c)))"

definition pyth_feed_ids :: "string \<Rightarrow> string option" where
  "pyth_feed_ids = map_of
     [(''SOL'', ''ef0d8b6fda2ceba41da15d4095d1da392a0d2f8ed0c6c7bc0f4cfac8c280b56d''),
      (''TSLAX'', ''47a156470288850a440df3a6ce85a55917b813a19bb5b31128a33a986566a362'')]"

definition pyth_feed_id :: "asset_config \<Rightarrow> exn + string" where
  "pyth_feed_id c =
     (if ac_chain c \<noteq> SOLANA then
        Inl (ValueError (ac_symbol c @ '' is on '' @ chain_value (ac_chain c) @ '', not Solana. '' @
          ''Use Chainlink for Base assets.''))
      else (case pyth_feed_ids (ac_symbol c) of
              None \<Rightarrow> Inl (ValueError (''No Pyth feed ID in _PYTH_FEED_IDS for '' @ ac_symbol c @
                ''. Add it to the dict in assets.py.''))
            | Some f \<Rightarrow> Inr f))"

text \<open>
  The checks at import: Solana symbols without a Pyth feed, and assets without a Deribit
  listing and without a proxy volatility. The module raises unless both are empty.
\<close>

definition missing_pyth :: "string list" where
  "missing_pyth =
     filter (\<lambda>y. pyth_feed_ids y = None)
       (map (\<lambda>a. ac_symbol (asset_configs a)) (filter (\<lambda>a. ac_chain (asset_configs a) = SOLANA) all_assets))"

definition missing_proxy :: "string list" where
  "missing_proxy =
     map asset_value (filter (\<lambda>a. \<not> has_deribit (asset_configs a) \<and> proxy_iv (asset_configs a) = None) all_assets)"

definition get_chain_for_asset :: "asset \<Rightarrow> chain" where
  "get_chain_for_asset a = ac_chain (asset_configs a)"

definition get_base_assets :: "asset list" where
  "get_base_assets = filter (\<lambda>a. ac_chain (asset_configs a) = BASE) all_assets"

definition get_solana_assets :: "asset list" where
  "get_solana_assets = filter (\<lambda>a. ac_chain (asset_configs a) = SOLANA) all_assets"

lemma get_base_assets_eq: "get_base_assets = [ETH, BTC]"
  by (simp add: get_base_assets_def all_assets_def)

lemma underlying_total: "\<exists>u. underlying_address s (asset_configs a) = Inr u"
  by (cases a) (simp_all add: underlying_address_def)

text \<open>
  The registry is complete. The import-time checks pass, every asset belongs to exactly
  one of the two chain lists, every asset has an underlying token, and each asset has the
  oracle of its own chain and is refused the other chain's oracle.
\<close>

lemma asset_registry_complete:
  "missing_pyth = [] \<and> missing_proxy = [] \<and>
   (a \<in> set get_base_assets \<longleftrightarrow> a \<notin> set get_solana_assets) \<and>
   (\<exists>u. underlying_address s (asset_configs a) = Inr u) \<and>
   ((\<exists>f. chainlink_feed_address s (asset_configs a) = Inr f) \<longleftrightarrow> a \<in> set get_base_assets) \<and>
   ((\<exists>f. pyth_feed_id (asset_configs a) = Inr f) \<longleftrightarrow> a \<in> set get_solana_assets)"
proof -
  have "missing_pyth = []" "missing_proxy = []"
    by (simp_all add: missing_pyth_def missing_proxy_def all_assets_def pyth_feed_ids_def has_deribit_def)
  then show ?thesis
    by (cases a) (simp_all add: underlying_address_def get_base_assets_def get_solana_assets_def all_assets_def
        chainlink_feed_address_def pyth_feed_id_def pyth_feed_ids_def)
qed

end
