(* ===== verification/Pricing.thy ===== *)
theory Pricing
  imports Assets
begin

text \<open>
  Strikes, expiries and oToken specifications: \<open>src/pricing/utils.py\<close> and
  \<open>src/pricing/price_sheet.py\<close>. A UTC \<open>datetime\<close> is its number of microseconds since the
  epoch (an \<open>int\<close>); a \<open>timedelta\<close> is a number of microseconds. Prices and strikes are floats.
\<close>

record pricing_settings =
  expiry_cutoff_hours :: int
  short_expiry_cutoff_hours :: int

section \<open>Time\<close>

definition us_second :: int where "us_second = 1000000"
definition us_hour :: int where "us_hour = 3600 * us_second"
definition us_day :: int where "us_day = 86400 * us_second"

lemmas us_defs = us_second_def us_hour_def us_day_def

text \<open>\<open>d.replace(hour=h, minute=0, second=0, microsecond=0)\<close> and \<open>d.weekday()\<close> (Monday is 0).\<close>

definition replace_hour :: "int \<Rightarrow> int \<Rightarrow> int" where
  "replace_hour h d = (d div us_day) * us_day + h * us_hour"

definition weekday :: "int \<Rightarrow> int" where
  "weekday d = (d div us_day + 3) mod 7"

definition cutoff_hours_for_expiry :: "pricing_settings \<Rightarrow> int \<Rightarrow> int \<Rightarrow> int" where
  "cutoff_hours_for_expiry st expiry_ts now_ts =
     (let ttl = expiry_ts - now_ts in
      if ttl \<le> 48 * 3600 then short_expiry_cutoff_hours st else expiry_cutoff_hours st)"

definition next_friday_8am :: "int \<Rightarrow> int" where
  "next_friday_8am after =
     (let days_ahead = (4 - weekday after) mod 7;
          days_ahead = (if days_ahead = 0 \<and> replace_hour 8 after \<le> after then 7 else days_ahead)
      in replace_hour 8 (after + days_ahead * us_day))"

definition next_0800_utc :: "int \<Rightarrow> int" where
  "next_0800_utc after =
     (let candidate = replace_hour 8 after in
      if candidate \<le> after then candidate + us_day else candidate)"

definition get_expiries :: "pricing_settings \<Rightarrow> int \<Rightarrow> int list" where
  "get_expiries st now =
     (let short_cutoff = now + short_expiry_cutoff_hours st * us_hour;
          standard_cutoff = now + expiry_cutoff_hours st * us_hour;
          exp_1d = next_0800_utc short_cutoff;
          exp_near_fri = next_friday_8am short_cutoff;
          exp_7d = next_friday_8am standard_cutoff;
          exp_14d = exp_7d + 7 * us_day
      in map (\<lambda>f. f div us_second) (sort (remdups [exp_1d, exp_near_fri, exp_7d, exp_14d])))"

text \<open>\<open>at_0800 d\<close>: \<open>d\<close> is 08:00 UTC sharp.\<close>

definition at_0800 :: "int \<Rightarrow> bool" where
  "at_0800 d \<longleftrightarrow> d mod us_day = 8 * us_hour"

lemma at_0800_replace: "at_0800 (replace_hour 8 d)"
  by (simp add: at_0800_def replace_hour_def us_defs)

lemma at_0800_add_days: "at_0800 d \<Longrightarrow> at_0800 (d + n * us_day)"
  by (simp add: at_0800_def)

lemma at_0800_seconds: "at_0800 d \<Longrightarrow> (d div us_second) mod 86400 = 28800 \<and> us_second * (d div us_second) = d"
proof -
  assume "at_0800 d"
  then have "d = 1000000 * (86400 * (d div us_day) + 28800)"
    using mult_div_mod_eq [of us_day d] by (simp add: at_0800_def us_defs)
  then obtain q where "d = 1000000 * (86400 * q + 28800)" by blast
  then show ?thesis by (simp add: us_defs)
qed

lemma next_0800_bounds: "after < next_0800_utc after \<and> next_0800_utc after \<le> after + us_day"
proof -
  have "after div us_day * us_day \<le> after" "after < after div us_day * us_day + us_day"
    unfolding us_defs by presburger+
  then show ?thesis by (auto simp: next_0800_utc_def replace_hour_def Let_def us_defs)
qed

lemma at_0800_next: "at_0800 (next_0800_utc after)"
  using at_0800_replace [of after] at_0800_add_days [of "replace_hour 8 after" 1]
  by (simp add: next_0800_utc_def Let_def)

lemma weekday_add: "weekday (d + n * us_day) = (weekday d + n) mod 7"
proof -
  have "(d + n * us_day) div us_day = d div us_day + n" by (simp add: us_defs)
  then show ?thesis unfolding weekday_def by presburger
qed

lemma weekday_replace: "weekday (replace_hour 8 d) = weekday d"
proof -
  have "(8 * us_hour) div us_day = 0" by (simp add: us_defs)
  moreover have "(d div us_day * us_day + 8 * us_hour) div us_day = d div us_day + (8 * us_hour) div us_day"
    by (simp add: us_defs)
  ultimately show ?thesis by (simp add: weekday_def replace_hour_def)
qed

lemma replace_add_days: "replace_hour h (d + n * us_day) = replace_hour h d + n * us_day"
  by (simp add: replace_hour_def us_defs algebra_simps)

lemma next_friday_props:
  "after < next_friday_8am after" "next_friday_8am after \<le> after + 7 * us_day"
  "weekday (next_friday_8am after) = 4" "at_0800 (next_friday_8am after)"
proof -
  define n where "n = (let a = (4 - weekday after) mod 7
    in if a = 0 \<and> replace_hour 8 after \<le> after then 7 else a)"
  have eq: "next_friday_8am after = replace_hour 8 after + n * us_day"
    by (simp add: next_friday_8am_def n_def Let_def replace_add_days)
  have w: "0 \<le> weekday after" "weekday after < 7" by (simp_all add: weekday_def)
  have n: "0 \<le> n" "n \<le> 7" "(weekday after + n) mod 7 = 4"
    "n = 7 \<Longrightarrow> replace_hour 8 after \<le> after" "n = 0 \<Longrightarrow> after < replace_hour 8 after"
    using w by (auto simp: n_def Let_def; presburger)+
  have b: "after - us_day < replace_hour 8 after" "replace_hour 8 after < after + us_day"
    unfolding replace_hour_def us_defs by presburger+
  show "weekday (next_friday_8am after) = 4"
    using n by (simp add: eq weekday_add weekday_replace)
  show "at_0800 (next_friday_8am after)"
    using eq by (simp add: at_0800_add_days at_0800_replace)
  show "after < next_friday_8am after"
    using n b unfolding eq us_defs by (cases "n = 0") linarith+
  show "next_friday_8am after \<le> after + 7 * us_day"
    using n b unfolding eq us_defs by (cases "n = 7") linarith+
qed


lemma sorted_div_strict:
  assumes "\<And>d. d \<in> set ds \<Longrightarrow> at_0800 d"
  shows "sorted_wrt (<) (map (\<lambda>f. f div us_second) (sort (remdups ds)))"
proof -
  have "sorted_wrt (<) (sort (remdups ds))"
    by (simp add: strict_sorted_iff)
  moreover have "x div us_second < y div us_second" if "x < y" "at_0800 x" "at_0800 y" for x y
    using that at_0800_seconds [of x] at_0800_seconds [of y] by (simp add: us_second_def)
  ultimately show ?thesis
    unfolding sorted_wrt_map by (rule sorted_wrt_mono_rel [rotated]) (use assms in auto)
qed

text \<open>
  C38: the expiry schedule. Whenever the short cut-off does not exceed the standard one, the
  offered expiries are one to four distinct timestamps in strictly increasing order, each of
  them at 08:00 UTC and strictly later than the short cut-off; the first is at most a day after
  the short cut-off, the last is at most two weeks after the standard cut-off, and two Fridays
  a week apart, beyond the standard cut-off, are among them.
\<close>

theorem get_expiries_schedule:
  fixes st :: pricing_settings and now :: int
  assumes "short_expiry_cutoff_hours st \<le> expiry_cutoff_hours st"
  defines "es \<equiv> get_expiries st now"
    and "short \<equiv> now + short_expiry_cutoff_hours st * us_hour"
    and "standard \<equiv> now + expiry_cutoff_hours st * us_hour"
  shows "es \<noteq> [] \<and> length es \<le> 4 \<and> sorted_wrt (<) es \<and>
    (\<forall>e \<in> set es. e mod 86400 = 28800 \<and> short < e * us_second \<and> e * us_second \<le> standard + 14 * us_day) \<and>
    hd es * us_second \<le> short + us_day \<and>
    (\<exists>w \<in> set es. weekday (w * us_second) = 4 \<and> standard < w * us_second \<and> w + 7 * 86400 \<in> set es)"
proof -
  let ?c = "[next_0800_utc short, next_friday_8am short, next_friday_8am standard,
    next_friday_8am standard + 7 * us_day]"
  have le: "short \<le> standard" using assms(1) by (simp add: short_def standard_def us_defs)
  have es: "es = map (\<lambda>f. f div us_second) (sort (remdups ?c))"
    by (simp add: es_def get_expiries_def short_def standard_def Let_def)
  have set: "set es = (\<lambda>f. f div us_second) ` set ?c"
    unfolding es by (simp only: set_map set_sort set_remdups)
  note nf = next_friday_props [of short] next_friday_props [of standard]
  note n8 = next_0800_bounds [of short]
  have at8: "at_0800 d" if "d \<in> set ?c" for d
    using that nf(4,8) at_0800_add_days [OF nf(8), of 7] by (auto simp: at_0800_next)
  have bk: "d div us_second * us_second = d \<and> (d div us_second) mod 86400 = 28800" if "d \<in> set ?c" for d
    using at_0800_seconds [OF at8 [OF that]] by (simp add: mult.commute)
  have rng: "short < d \<and> d \<le> standard + 14 * us_day" if "d \<in> set ?c" for d
    using that nf n8 le by (auto simp: us_defs)
  have sorted: "sorted_wrt (<) es" unfolding es by (rule sorted_div_strict) (rule at8)
  have ne: "es \<noteq> []" using set by fastforce
  have len: "length es \<le> 4" using length_remdups_leq [of ?c] by (simp add: es)
  have all: "\<forall>e \<in> set es. e mod 86400 = 28800 \<and> short < e * us_second \<and> e * us_second \<le> standard + 14 * us_day"
    unfolding set by (rule ballI, erule imageE) (use bk rng in force)
  have "hd es \<le> next_0800_utc short div us_second"
  proof -
    have "next_0800_utc short div us_second \<in> set es" unfolding set by simp
    with sorted show ?thesis by (cases es) auto
  qed
  then have hd: "hd es * us_second \<le> short + us_day"
    using bk [of "next_0800_utc short"] n8 mult_right_mono [of "hd es" "next_0800_utc short div us_second" us_second]
    by (simp add: us_second_def)
  let ?w = "next_friday_8am standard div us_second"
  have "(next_friday_8am standard + 7 * us_day) div us_second = ?w + 7 * 86400"
    by (simp add: us_defs)
  then have "?w \<in> set es" "?w + 7 * 86400 \<in> set es" unfolding set by force+
  moreover have "?w * us_second = next_friday_8am standard" using bk by simp
  ultimately have "\<exists>w \<in> set es. weekday (w * us_second) = 4 \<and> standard < w * us_second \<and> w + 7 * 86400 \<in> set es"
    using nf by metis
  with ne len sorted all hd show ?thesis by blast
qed

theorem get_expiries_schedule_witness:
  "hd (get_expiries \<lparr>expiry_cutoff_hours = 48, short_expiry_cutoff_hours = 4\<rparr> 1775000000000000) * us_second
     \<le> 1775000000000000 + 4 * us_hour + us_day"
  using get_expiries_schedule [of "\<lparr>expiry_cutoff_hours = 48, short_expiry_cutoff_hours = 4\<rparr>" 1775000000000000]
  by simp

section \<open>Strikes\<close>

text \<open>\<open>float(i)\<close> of an integer.\<close>

definition float_of :: "int \<Rightarrow> rat" where
  "float_of i = fl (of_int i)"

definition strike_to_8_decimals :: "rat \<Rightarrow> int" where
  "strike_to_8_decimals strike_usd = py_round (fl (strike_usd * float_of (10 ^ 8)))"

definition count_below :: "rat \<Rightarrow> rat list \<Rightarrow> int" where
  "count_below spot strikes = int (length (filter (\<lambda>s. s < spot) strikes))"

definition count_above :: "rat \<Rightarrow> rat list \<Rightarrow> int" where
  "count_above spot strikes = int (length (filter (\<lambda>s. s > spot) strikes))"

definition center_strikes :: "rat \<Rightarrow> rat \<Rightarrow> int \<Rightarrow> rat list" where
  "center_strikes spot step num =
     (let center = fl (float_of (py_round (fl (spot / step))) * step);
          half = num div 2
      in map (\<lambda>i. fl (center + fl (float_of (i - half) * step))) [0..num - 1])"

text \<open>The two \<open>while\<close> loops. Running out of fuel stands for a loop that goes on for ever.\<close>

fun extend_down :: "nat \<Rightarrow> rat \<Rightarrow> rat \<Rightarrow> int \<Rightarrow> rat \<Rightarrow> rat list \<Rightarrow> rat list option" where
  "extend_down fuel spot step m lowest strikes =
     (if count_below spot strikes < m then
        (case fuel of 0 \<Rightarrow> None
         | Suc k \<Rightarrow> extend_down k spot step m (fl (lowest - step)) (strikes @ [fl (lowest - step)]))
      else Some strikes)"

fun extend_up :: "nat \<Rightarrow> rat \<Rightarrow> rat \<Rightarrow> int \<Rightarrow> rat \<Rightarrow> rat list \<Rightarrow> rat list option" where
  "extend_up fuel spot step m highest strikes =
     (if count_above spot strikes < m then
        (case fuel of 0 \<Rightarrow> None
         | Suc k \<Rightarrow> extend_up k spot step m (fl (highest + step)) (strikes @ [fl (highest + step)]))
      else Some strikes)"

declare extend_down.simps [simp del] extend_up.simps [simp del]

definition generate_strikes :: "nat \<Rightarrow> rat \<Rightarrow> rat \<Rightarrow> int \<Rightarrow> int \<Rightarrow> exn + rat list" where
  "generate_strikes fuel spot step num min_otm =
     (if step = 0 then Inl (OtherError ''float division by zero'')
      else let strikes = center_strikes spot step num in
      if strikes = [] then Inl (ValueError ''min() arg is an empty sequence'')
      else (case extend_down fuel spot step min_otm (Min (set strikes)) strikes of
              None \<Rightarrow> Inl NoReturn
            | Some strikes \<Rightarrow>
                (case extend_up fuel spot step min_otm (Max (set strikes)) strikes of
                   None \<Rightarrow> Inl NoReturn
                 | Some strikes \<Rightarrow> Inr (sort strikes))))"

text \<open>
  The registry's steps are multiples of one half. On such a grid every strike of moderate size
  is exact, and the loops compute the interval of grid points below.
\<close>

definition grid :: "int \<Rightarrow> int \<Rightarrow> rat" where
  "grid s i = of_int (i * s) / 2"

lemma grid_exact: "\<bar>i * s\<bar> < 2 ^ 53 \<Longrightarrow> fl (grid s i) = grid s i"
  using fl_exact [of "i * s" "-1"] by (simp add: grid_def power_int_def)

lemma grid_step: "grid s i + grid s j = grid s (i + j)" "grid s i - grid s j = grid s (i - j)"
  by (simp_all add: grid_def field_simps)

lemma grid_less: "0 < s \<Longrightarrow> grid s i < grid s j \<longleftrightarrow> i < j"
  by (simp add: grid_def divide_less_cancel)

lemma grid_inj: "0 < s \<Longrightarrow> inj_on (grid s) A"
  by (auto simp: inj_on_def grid_def)

lemma grid_strict_mono: "0 < s \<Longrightarrow> i < j \<Longrightarrow> grid s i < grid s j"
  by (simp add: grid_less)

lemma grid_less_spot: "0 < s \<Longrightarrow> grid s i < spot \<longleftrightarrow> i < \<lceil>spot / grid s 1\<rceil>"
  by (simp add: grid_def less_ceiling_iff field_simps)

lemma grid_greater_spot: "0 < s \<Longrightarrow> spot < grid s i \<longleftrightarrow> \<lfloor>spot / grid s 1\<rfloor> < i"
  by (simp add: grid_def floor_less_iff field_simps)

definition on_grid :: "int \<Rightarrow> int \<Rightarrow> int \<Rightarrow> rat list \<Rightarrow> bool" where
  "on_grid s lo hi strikes \<longleftrightarrow> distinct strikes \<and> set strikes = grid s ` {lo..hi}"

lemma on_grid_count:
  assumes "on_grid s lo hi strikes" "0 < s"
  shows "int (length (filter p strikes)) = int (card {i \<in> {lo..hi}. p (grid s i)})"
proof -
  have "length (filter p strikes) = card (set (filter p strikes))"
    using assms by (metis distinct_card distinct_filter on_grid_def)
  also have "set (filter p strikes) = grid s ` {i \<in> {lo..hi}. p (grid s i)}"
    using assms by (auto simp: on_grid_def)
  also have "card \<dots> = card {i \<in> {lo..hi}. p (grid s i)}"
    using assms(2) by (intro card_image grid_inj)
  finally show ?thesis by simp
qed

lemma on_grid_below:
  assumes "on_grid s lo hi strikes" "0 < s" "\<lceil>spot / grid s 1\<rceil> - 1 \<le> hi"
  shows "count_below spot strikes = max 0 (\<lceil>spot / grid s 1\<rceil> - lo)"
proof -
  have "{i \<in> {lo..hi}. grid s i < spot} = {lo..<\<lceil>spot / grid s 1\<rceil>}"
    using assms by (auto simp: grid_less_spot)
  with on_grid_count [OF assms(1,2)] show ?thesis by (simp add: count_below_def)
qed

lemma on_grid_above:
  assumes "on_grid s lo hi strikes" "0 < s" "lo \<le> \<lfloor>spot / grid s 1\<rfloor> + 1"
  shows "count_above spot strikes = max 0 (hi - \<lfloor>spot / grid s 1\<rfloor>)"
proof -
  have "{i \<in> {lo..hi}. spot < grid s i} = {\<lfloor>spot / grid s 1\<rfloor> + 1..hi}"
    using assms by (auto simp: grid_greater_spot)
  with on_grid_count [OF assms(1,2)] show ?thesis by (simp add: count_above_def)
qed

lemma on_grid_extend:
  assumes "on_grid s lo hi strikes" "0 < s" "lo \<le> hi"
  shows "on_grid s (lo - 1) hi (strikes @ [grid s (lo - 1)])"
    and "on_grid s lo (hi + 1) (strikes @ [grid s (hi + 1)])"
proof -
  have "{lo - 1..hi} = insert (lo - 1) {lo..hi}" "{lo..hi + 1} = insert (hi + 1) {lo..hi}"
    using assms(3) by auto
  moreover have "grid s (lo - 1) \<notin> grid s ` {lo..hi}" "grid s (hi + 1) \<notin> grid s ` {lo..hi}"
    using grid_inj [OF assms(2), of UNIV] by (auto dest: injD)
  ultimately show "on_grid s (lo - 1) hi (strikes @ [grid s (lo - 1)])"
    "on_grid s lo (hi + 1) (strikes @ [grid s (hi + 1)])"
    using assms(1) by (simp_all add: on_grid_def)
qed

lemma extend_down_grid:
  assumes "on_grid s lo hi strikes" "0 < s" "lo \<le> hi" "\<lceil>spot / grid s 1\<rceil> - 1 \<le> hi" "1 \<le> m"
    and "\<And>i. \<lceil>spot / grid s 1\<rceil> - m \<le> i \<Longrightarrow> i < lo \<Longrightarrow> \<bar>i * s\<bar> < 2 ^ 53"
    and "lo - (\<lceil>spot / grid s 1\<rceil> - m) \<le> int fuel"
  shows "\<exists>r. extend_down fuel spot (grid s 1) m (grid s lo) strikes = Some r \<and>
    on_grid s (min lo (\<lceil>spot / grid s 1\<rceil> - m)) hi r"
  using assms
proof (induction fuel arbitrary: lo strikes)
  case 0
  then show ?case
    using on_grid_below [OF "0.prems"(1,2,4)]
    by (subst extend_down.simps) (auto simp: min_def)
next
  case (Suc fuel)
  let ?x = "\<lceil>spot / grid s 1\<rceil>"
  have c: "count_below spot strikes = max 0 (?x - lo)"
    using on_grid_below [OF Suc.prems(1,2,4)] .
  show ?case
  proof (cases "count_below spot strikes < m")
    case True
    with c have l: "?x - m \<le> lo - 1" by simp
    then have e: "fl (grid s lo - grid s 1) = grid s (lo - 1)"
      using Suc.prems(6) [of "lo - 1"] by (simp add: grid_step grid_exact)
    have "\<exists>r. extend_down fuel spot (grid s 1) m (grid s (lo - 1)) (strikes @ [grid s (lo - 1)]) = Some r \<and>
        on_grid s (min (lo - 1) (?x - m)) hi r"
      using Suc.prems l on_grid_extend(1) [OF Suc.prems(1-3)] by (intro Suc.IH) auto
    moreover have "min (lo - 1) (?x - m) = ?x - m" "min lo (?x - m) = ?x - m" using l by auto
    ultimately show ?thesis using True e by (subst extend_down.simps) simp
  next
    case False
    with c Suc.prems(5) have "min lo (?x - m) = lo" by (auto split: if_splits simp: max_def)
    with False Suc.prems(1) show ?thesis by (subst extend_down.simps) simp
  qed
qed

lemma extend_up_grid:
  assumes "on_grid s lo hi strikes" "0 < s" "lo \<le> hi" "lo \<le> \<lfloor>spot / grid s 1\<rfloor> + 1" "1 \<le> m"
    and "\<And>i. hi < i \<Longrightarrow> i \<le> \<lfloor>spot / grid s 1\<rfloor> + m \<Longrightarrow> \<bar>i * s\<bar> < 2 ^ 53"
    and "\<lfloor>spot / grid s 1\<rfloor> + m - hi \<le> int fuel"
  shows "\<exists>r. extend_up fuel spot (grid s 1) m (grid s hi) strikes = Some r \<and>
    on_grid s lo (max hi (\<lfloor>spot / grid s 1\<rfloor> + m)) r"
  using assms
proof (induction fuel arbitrary: hi strikes)
  case 0
  then show ?case
    using on_grid_above [OF "0.prems"(1,2,4)]
    by (subst extend_up.simps) (auto simp: max_def)
next
  case (Suc fuel)
  let ?x = "\<lfloor>spot / grid s 1\<rfloor>"
  have c: "count_above spot strikes = max 0 (hi - ?x)"
    using on_grid_above [OF Suc.prems(1,2,4)] .
  show ?case
  proof (cases "count_above spot strikes < m")
    case True
    with c have l: "hi + 1 \<le> ?x + m" by simp
    then have e: "fl (grid s hi + grid s 1) = grid s (hi + 1)"
      using Suc.prems(6) [of "hi + 1"] by (simp add: grid_step grid_exact)
    have "\<exists>r. extend_up fuel spot (grid s 1) m (grid s (hi + 1)) (strikes @ [grid s (hi + 1)]) = Some r \<and>
        on_grid s lo (max (hi + 1) (?x + m)) r"
      using Suc.prems l on_grid_extend(2) [OF Suc.prems(1-3)] by (intro Suc.IH) auto
    moreover have "max (hi + 1) (?x + m) = ?x + m" "max hi (?x + m) = ?x + m" using l by auto
    ultimately show ?thesis using True e by (subst extend_up.simps) simp
  next
    case False
    with c Suc.prems(5) have "max hi (?x + m) = hi" by (auto split: if_splits simp: max_def)
    with False Suc.prems(1) show ?thesis by (subst extend_up.simps) simp
  qed
qed


lemma grid_bound:
  assumes "0 < s" "s \<le> 2 ^ 20" "0 < spot" "spot \<le> 2 ^ 40"
    and "\<lceil>spot / grid s 1\<rceil> - 5000 \<le> i" "i \<le> \<lfloor>spot / grid s 1\<rfloor> + 5000"
  shows "\<bar>i * s\<bar> < 2 ^ 53"
proof -
  define X where "X = spot / grid s 1"
  have Xs: "X * of_int s = 2 * spot" using assms(1) by (simp add: X_def grid_def field_simps)
  have X0: "0 \<le> X" using assms(1,3) by (simp add: X_def grid_def)
  have "X - 5000 \<le> of_int i" "of_int i \<le> X + 5000"
    using assms(5,6) unfolding X_def [symmetric] by linarith+
  then have "\<bar>of_int i\<bar> \<le> X + 5000" using X0 by linarith
  then have "\<bar>of_int i\<bar> * of_int s \<le> (X + 5000) * of_int s"
    using assms(1) by (intro mult_right_mono) auto
  also have "\<dots> = 2 * spot + 5000 * of_int s" using Xs by (simp add: distrib_right)
  also have "\<dots> \<le> 2 * 2 ^ 40 + 5000 * 2 ^ 20"
    using assms(2,4) by (intro add_mono mult_left_mono) (simp_all flip: of_int_le_iff)
  also have "\<dots> < of_int (2 ^ 53)" by simp
  finally have "of_int \<bar>i * s\<bar> < (of_int (2 ^ 53) :: rat)"
    using assms(1) by (simp add: abs_mult)
  then show ?thesis by (simp only: of_int_less_iff)
qed

lemma center_close:
  assumes "0 < s" "0 < spot" "spot \<le> 2 ^ 40"
  shows "\<lceil>spot / grid s 1\<rceil> - 1 \<le> py_round (fl (spot / grid s 1)) \<and>
    py_round (fl (spot / grid s 1)) \<le> \<lfloor>spot / grid s 1\<rfloor> + 1"
proof -
  define X where "X = spot / grid s 1"
  have "X = 2 * spot / of_int s" by (simp add: X_def grid_def)
  also have "\<dots> \<le> 2 * spot / 1"
    using assms by (intro divide_left_mono) (simp_all flip: of_int_le_iff)
  finally have "X \<le> 2 * spot" by simp
  moreover have "0 < X" using assms by (simp add: X_def grid_def)
  ultimately have "\<bar>of_int (py_round (fl X)) - X\<bar> \<le> 1"
    using assms(3) by (intro round_fl_close) auto
  then have "X \<le> of_int (py_round (fl X) + 1)" "of_int (py_round (fl X) - 1) \<le> X"
    by simp_all
  then have "\<lceil>X\<rceil> \<le> py_round (fl X) + 1" "py_round (fl X) - 1 \<le> \<lfloor>X\<rfloor>"
    by (simp_all only: ceiling_le_iff le_floor_iff)
  then show ?thesis by (simp add: X_def)
qed

lemma center_strikes_grid:
  assumes "0 < s" "s \<le> 2 ^ 20" "0 < spot" "spot \<le> 2 ^ 40" "1 \<le> num" "num \<le> 1000"
  defines "l \<equiv> py_round (fl (spot / grid s 1)) - num div 2"
  shows "center_strikes spot (grid s 1) num = map (grid s) [l..l + num - 1]"
proof -
  define c where "c = py_round (fl (spot / grid s 1))"
  have c: "\<lceil>spot / grid s 1\<rceil> - 1 \<le> c" "c \<le> \<lfloor>spot / grid s 1\<rfloor> + 1"
    using center_close [OF assms(1,3,4)] by (simp_all add: c_def)
  have b: "\<bar>(c + j) * s\<bar> < 2 ^ 53" if "\<bar>j\<bar> \<le> 1000" for j
    using that c by (intro grid_bound [OF assms(1-4)]) auto
  have fo: "float_of k = of_int k" if "\<bar>k * s\<bar> < 2 ^ 53" for k
  proof -
    have "\<bar>k\<bar> * 1 \<le> \<bar>k\<bar> * s" using assms(1) by (intro mult_left_mono) auto
    with that assms(1) show ?thesis by (simp add: float_of_def fl_of_int abs_mult)
  qed
  have gm: "of_int k * grid s 1 = grid s k" for k by (simp add: grid_def)
  have small: "\<bar>j * s\<bar> < 2 ^ 53" if "\<bar>j\<bar> \<le> 1000" for j
  proof -
    have "\<bar>j\<bar> * s \<le> 1000 * 2 ^ 20" using that assms(1,2) by (intro mult_mono) auto
    then show ?thesis using assms(1) by (simp add: abs_mult)
  qed
  have "fl (fl (float_of c * grid s 1) + fl (float_of (i - num div 2) * grid s 1)) = grid s (l + i)"
    if "i \<in> set [0..num - 1]" for i
  proof -
    have j: "\<bar>i - num div 2\<bar> \<le> 1000" using that assms(5,6) by auto
    have "fl (float_of c * grid s 1) = grid s c"
      using b [of 0] by (simp add: fo gm grid_exact)
    moreover have "fl (float_of (i - num div 2) * grid s 1) = grid s (i - num div 2)"
      by (simp only: fo [OF small [OF j]] gm grid_exact [OF small [OF j]])
    ultimately show ?thesis
      using b [OF j] by (simp add: grid_step grid_exact l_def c_def algebra_simps)
  qed
  then have "center_strikes spot (grid s 1) num = map (\<lambda>i. grid s (l + i)) [0..num - 1]"
    by (simp add: center_strikes_def Let_def c_def)
  also have "\<dots> = map (grid s) (map (\<lambda>i. l + i) [0..num - 1])" by simp
  also have "map (\<lambda>i. l + i) [0..num - 1] = [l..l + num - 1]"
    by (rule nth_equalityI) auto
  finally show ?thesis .
qed

lemma sort_on_grid:
  assumes "on_grid s lo hi r" "0 < s"
  shows "sort r = map (grid s) [lo..hi]"
proof (rule sorted_distinct_set_unique)
  show "sorted (map (grid s) [lo..hi])"
    using assms(2) by (auto simp: sorted_wrt_map sorted_wrt_iff_nth_less grid_less less_imp_le
        sorted_iff_nth_mono_less)
  show "distinct (map (grid s) [lo..hi])"
    using assms(2) by (simp add: distinct_map grid_inj)
qed (use assms in \<open>auto simp: on_grid_def\<close>)

lemma Min_Max_grid:
  assumes "on_grid s lo hi r" "0 < s" "lo \<le> hi"
  shows "Min (set r) = grid s lo" "Max (set r) = grid s hi"
  using assms by (auto simp: on_grid_def grid_less not_less [symmetric] intro!: Min_eqI Max_eqI)

lemma generate_strikes_grid:
  assumes "0 < s" "s \<le> 2 ^ 20" "0 < spot" "spot \<le> 2 ^ 40"
    and "1 \<le> num" "num \<le> 1000" "1 \<le> m" "m \<le> 1000" "m + 2 \<le> int fuel"
  defines "l \<equiv> py_round (fl (spot / grid s 1)) - num div 2"
  shows "generate_strikes fuel spot (grid s 1) num m =
    Inr (map (grid s) [min l (\<lceil>spot / grid s 1\<rceil> - m)..max (l + num - 1) (\<lfloor>spot / grid s 1\<rfloor> + m)])"
proof -
  let ?lo = "min l (\<lceil>spot / grid s 1\<rceil> - m)" and ?h = "l + num - 1"
  have c: "\<lceil>spot / grid s 1\<rceil> - 1 \<le> l + num div 2" "l + num div 2 \<le> \<lfloor>spot / grid s 1\<rfloor> + 1"
    using center_close [OF assms(1,3,4)] by (simp_all add: l_def)
  have lh: "l \<le> ?h" "\<lceil>spot / grid s 1\<rceil> - 1 \<le> ?h" using c assms(5) by linarith+
  have fl: "\<lceil>spot / grid s 1\<rceil> \<le> \<lfloor>spot / grid s 1\<rfloor> + 1" "\<lfloor>spot / grid s 1\<rfloor> \<le> \<lceil>spot / grid s 1\<rceil>"
    by linarith+
  have cs: "center_strikes spot (grid s 1) num = map (grid s) [l..?h]"
    using center_strikes_grid [OF assms(1-6)] by (simp add: l_def)
  then have og: "on_grid s l ?h (center_strikes spot (grid s 1) num)"
    using assms(1) by (auto simp: on_grid_def distinct_map grid_inj)
  obtain r1 where r1: "extend_down fuel spot (grid s 1) m (grid s l) (center_strikes spot (grid s 1) num) = Some r1"
    and og1: "on_grid s ?lo ?h r1"
  proof -
    have b: "\<bar>i * s\<bar> < 2 ^ 53" if "\<lceil>spot / grid s 1\<rceil> - m \<le> i" "i < l" for i
      using that c assms(5-8) by (intro grid_bound [OF assms(1-4)]) linarith+
    have "l - (\<lceil>spot / grid s 1\<rceil> - m) \<le> int fuel" using c fl assms(5,9) by linarith
    from extend_down_grid [OF og assms(1) lh assms(7) b this] that show ?thesis by blast
  qed
  have lo: "?lo \<le> ?h" "?lo \<le> \<lfloor>spot / grid s 1\<rfloor> + 1" using c lh assms(5) by linarith+
  obtain r2 where r2: "extend_up fuel spot (grid s 1) m (grid s ?h) r1 = Some r2"
    and og2: "on_grid s ?lo (max ?h (\<lfloor>spot / grid s 1\<rfloor> + m)) r2"
  proof -
    have b: "\<bar>i * s\<bar> < 2 ^ 53" if "?h < i" "i \<le> \<lfloor>spot / grid s 1\<rfloor> + m" for i
      using that c fl lh assms(5-8) by (intro grid_bound [OF assms(1-4)]) linarith+
    have "\<lfloor>spot / grid s 1\<rfloor> + m - ?h \<le> int fuel" using c fl lh assms(5,9) by linarith
    from extend_up_grid [OF og1 assms(1) lo assms(7) b this] that show ?thesis by blast
  qed
  have ne: "grid s 1 \<noteq> 0" "center_strikes spot (grid s 1) num \<noteq> []"
    using assms(1,5) cs by (auto simp: grid_def)
  show ?thesis
    using ne r1 r2 og2 assms(1) Min_Max_grid(1) [OF og assms(1) lh(1)] Min_Max_grid(2) [OF og1 assms(1) lo(1)]
    by (simp add: generate_strikes_def sort_on_grid Let_def)
qed

text \<open>
  C37: strike generation against its specification. For a step that is a multiple of one half
  (all steps of the registry are) and a spot price up to 2^40 dollars, the two loops end after
  at most \<open>min_otm\<close> plus two rounds and the result is the sorted list of all grid points from
  \<open>lo\<close> to \<open>hi\<close>: the \<open>num\<close> points around the spot, extended exactly as far as needed for
  \<open>min_otm\<close> strikes strictly below and \<open>min_otm\<close> strictly above the spot. No strike is lost,
  repeated, or off the grid through floating-point rounding.
\<close>

theorem generate_strikes_spec:
  assumes "0 < s" "s \<le> 2 ^ 20" "0 < spot" "spot \<le> 2 ^ 40"
    and "1 \<le> num" "num \<le> 1000" "1 \<le> m" "m \<le> 1000" "m + 2 \<le> int fuel"
  defines "l \<equiv> py_round (fl (spot / grid s 1)) - num div 2"
  defines "strikes \<equiv> map (grid s)
    [min l (\<lceil>spot / grid s 1\<rceil> - m)..max (l + num - 1) (\<lfloor>spot / grid s 1\<rfloor> + m)]"
  shows "generate_strikes fuel spot (grid s 1) num m = Inr strikes \<and>
    sorted_wrt (<) strikes \<and> m \<le> count_below spot strikes \<and> m \<le> count_above spot strikes"
proof -
  let ?lo = "min l (\<lceil>spot / grid s 1\<rceil> - m)" and ?hi = "max (l + num - 1) (\<lfloor>spot / grid s 1\<rfloor> + m)"
  have og: "on_grid s ?lo ?hi strikes"
    using assms(1) by (simp add: strikes_def on_grid_def distinct_map grid_inj)
  have c: "\<lceil>spot / grid s 1\<rceil> - 1 \<le> l + num div 2" "l + num div 2 \<le> \<lfloor>spot / grid s 1\<rfloor> + 1"
    using center_close [OF assms(1,3,4)] by (simp_all add: l_def)
  have "sorted_wrt (<) strikes"
    using assms(1) by (simp add: strikes_def sorted_wrt_map grid_less)
  moreover have "m \<le> count_below spot strikes"
    using on_grid_below [OF og assms(1), of spot] c assms(5) by linarith
  moreover have "m \<le> count_above spot strikes"
    using on_grid_above [OF og assms(1), of spot] c assms(5) by linarith
  ultimately show ?thesis
    using generate_strikes_grid [OF assms(1-9)] by (simp add: strikes_def l_def)
qed

theorem generate_strikes_spec_witness:
  "generate_strikes 10 2130 (grid 100 1) 5 4 = Inr [1950, 2000, 2050, 2100, 2150, 2200, 2250, 2300]"
proof -
  have "generate_strikes 10 2130 (grid 100 1) 5 4 =
    Inr (map (grid 100) [min (py_round (fl (2130 / grid 100 1)) - 5 div 2) (\<lceil>2130 / grid 100 1\<rceil> - 4)
      ..max (py_round (fl (2130 / grid 100 1)) - 5 div 2 + 5 - 1) (\<lfloor>2130 / grid 100 1\<rfloor> + 4)])"
    by (rule generate_strikes_spec [THEN conjunct1]) simp_all
  also have "\<dots> = Inr [1950, 2000, 2050, 2100, 2150, 2200, 2250, 2300]" by code_simp
  finally show ?thesis .
qed

lemma daily_strikes_example: "\<exists>ks. generate_strikes 10 2130 25 5 4 = Inr ks"
  using generate_strikes_grid [of 50 2130 5 4 10] by (simp add: grid_def)

section \<open>oToken specifications\<close>

datatype option_type = CALL | PUT

record otoken_spec =
  os_option_type :: option_type
  os_strike :: rat
  os_expiry_ts :: int

text \<open>\<open>OTokenSpec(...)\<close> with the check of \<open>__post_init__\<close>.\<close>

definition mk_otoken_spec :: "option_type \<Rightarrow> rat \<Rightarrow> int \<Rightarrow> exn + otoken_spec" where
  "mk_otoken_spec ty k ts =
     (if ts mod 86400 \<noteq> 28800 then
        Inl (ValueError (''expiry_ts '' @ int_str ts @ '' is not at 08:00 UTC (ts % 86400 = '' @
          int_str (ts mod 86400) @ '', expected 28800)''))
      else Inr \<lparr>os_option_type = ty, os_strike = k, os_expiry_ts = ts\<rparr>)"

fun seq_results :: "(exn + 'a) list \<Rightarrow> exn + 'a list" where
  "seq_results [] = Inr []"
| "seq_results (Inl e # rs) = Inl e"
| "seq_results (Inr x # rs) = (case seq_results rs of Inl e \<Rightarrow> Inl e | Inr xs \<Rightarrow> Inr (x # xs))"

lemma seq_results_map [simp]: "seq_results (map Inr xs) = Inr xs"
  by (induction xs) simp_all

lemma seq_results_Inr: "seq_results rs = Inr xs \<longleftrightarrow> rs = map Inr xs"
proof (induction rs arbitrary: xs)
  case Nil
  then show ?case by auto
next
  case (Cons r rs)
  then show ?case by (cases r) (auto split: sum.splits)
qed

definition specs_for_expiry ::
  "nat \<Rightarrow> rat \<Rightarrow> asset_config \<Rightarrow> int \<Rightarrow> int option \<Rightarrow> int \<Rightarrow> int \<Rightarrow> exn + otoken_spec list" where
  "specs_for_expiry fuel spot cfg num daily_ts now_ts ts =
     (let is_daily = (Some ts = daily_ts \<and> ts - now_ts \<le> 48 * 3600);
          step = (if is_daily then short_expiry_strike_step cfg else strike_step cfg)
      in case generate_strikes fuel spot step num (min_otm_per_side cfg) of
           Inl e \<Rightarrow> Inl e
         | Inr strikes \<Rightarrow>
             seq_results (concat (map (\<lambda>k. map (\<lambda>ty. mk_otoken_spec ty k ts) [CALL, PUT]) strikes)))"

text \<open>
  The clock is read up to three times: \<open>now\<close> by \<open>get_expiries\<close>, \<open>now1\<close> to drop custom
  expiries, \<open>now2\<close> for the one-day slot.
\<close>

definition spec_expiries :: "pricing_settings \<Rightarrow> int list option \<Rightarrow> int \<Rightarrow> int \<Rightarrow> int list" where
  "spec_expiries st expiry_timestamps now now1 =
     (case expiry_timestamps of
        None \<Rightarrow> get_expiries st now
      | Some es \<Rightarrow> filter (\<lambda>ts. ts > now1 + cutoff_hours_for_expiry st ts now1 * 3600) es)"

definition generate_otoken_specs ::
  "nat \<Rightarrow> pricing_settings \<Rightarrow> rat \<Rightarrow> asset \<Rightarrow> int list option \<Rightarrow> int option \<Rightarrow> int \<Rightarrow> int \<Rightarrow> int
   \<Rightarrow> exn + otoken_spec list" where
  "generate_otoken_specs fuel st spot a expiry_timestamps num now now1 now2 =
     (let cfg = asset_configs a;
          es = spec_expiries st expiry_timestamps now now1;
          n = (case num of None \<Rightarrow> num_strikes cfg | Some n \<Rightarrow> n);
          daily_ts = (if es = [] then None else Some (Min (set es)))
      in map_sum id concat (seq_results (map (specs_for_expiry fuel spot cfg n daily_ts now2) es)))"

lemma specs_for_expiry_Inr:
  assumes "specs_for_expiry fuel spot cfg num d now_ts ts = Inr specs"
  shows "\<forall>s \<in> set specs. os_expiry_ts s = ts \<and> ts mod 86400 = 28800"
    and "\<lparr>os_option_type = CALL, os_strike = k, os_expiry_ts = ts\<rparr> \<in> set specs \<longleftrightarrow>
         \<lparr>os_option_type = PUT, os_strike = k, os_expiry_ts = ts\<rparr> \<in> set specs"
proof -
  let ?step = "if Some ts = d \<and> ts - now_ts \<le> 48 * 3600 then short_expiry_strike_step cfg else strike_step cfg"
  from assms obtain strikes where
    g: "generate_strikes fuel spot ?step num (min_otm_per_side cfg) = Inr strikes"
    and s: "concat (map (\<lambda>k. map (\<lambda>ty. mk_otoken_spec ty k ts) [CALL, PUT]) strikes) = map Inr specs"
    by (auto simp: specs_for_expiry_def Let_def seq_results_Inr split: sum.splits)
  have mem: "x \<in> set specs \<longleftrightarrow> (\<exists>k \<in> set strikes. \<exists>ty \<in> {CALL, PUT}. mk_otoken_spec ty k ts = Inr x)" for x
  proof -
    have "x \<in> set specs \<longleftrightarrow> (Inr x :: exn + otoken_spec) \<in> set (map Inr specs)" by auto
    then show ?thesis by (simp only: s [symmetric]) (auto dest: sym)
  qed
  show "\<forall>s \<in> set specs. os_expiry_ts s = ts \<and> ts mod 86400 = 28800"
    by (auto simp: mem mk_otoken_spec_def split: if_splits)
  show "\<lparr>os_option_type = CALL, os_strike = k, os_expiry_ts = ts\<rparr> \<in> set specs \<longleftrightarrow>
         \<lparr>os_option_type = PUT, os_strike = k, os_expiry_ts = ts\<rparr> \<in> set specs"
    by (auto simp: mem mk_otoken_spec_def split: if_splits)
qed

text \<open>
  The published option grid. Every generated specification expires at 08:00 UTC at one
  of the selected expiries; with custom timestamps every expiry lies beyond the cut-off that
  applies to its time to live; and calls and puts come in pairs of the same strike and expiry.
\<close>

lemma generate_otoken_specs_sound:
  assumes "generate_otoken_specs fuel st spot a expiry_timestamps num now now1 now2 = Inr specs"
  shows "(\<forall>s \<in> set specs. os_expiry_ts s mod 86400 = 28800 \<and>
      os_expiry_ts s \<in> set (spec_expiries st expiry_timestamps now now1) \<and>
      (expiry_timestamps \<noteq> None \<longrightarrow>
         now1 + cutoff_hours_for_expiry st (os_expiry_ts s) now1 * 3600 < os_expiry_ts s)) \<and>
    (\<lparr>os_option_type = CALL, os_strike = k, os_expiry_ts = ts\<rparr> \<in> set specs \<longleftrightarrow>
     \<lparr>os_option_type = PUT, os_strike = k, os_expiry_ts = ts\<rparr> \<in> set specs)"
proof -
  let ?es = "spec_expiries st expiry_timestamps now now1"
  let ?f = "specs_for_expiry fuel spot (asset_configs a)
    (case num of None \<Rightarrow> num_strikes (asset_configs a) | Some n \<Rightarrow> n)
    (if ?es = [] then None else Some (Min (set ?es))) now2"
  from assms obtain sss where m: "map ?f ?es = map Inr sss" and specs: "specs = concat sss"
    by (cases "seq_results (map ?f ?es)") (auto simp: generate_otoken_specs_def Let_def seq_results_Inr)
  have mem: "\<exists>t \<in> set ?es. ?f t = Inr ss" if "ss \<in> set sss" for ss
  proof -
    have "Inr ss \<in> set (map ?f ?es)" unfolding m using that by simp
    then show ?thesis by auto
  qed
  have 1: "os_expiry_ts s mod 86400 = 28800 \<and> os_expiry_ts s \<in> set ?es" if "s \<in> set specs" for s
    using that mem specs_for_expiry_Inr(1) unfolding specs by fastforce
  have 2: "now1 + cutoff_hours_for_expiry st t now1 * 3600 < t"
    if "t \<in> set ?es" "expiry_timestamps \<noteq> None" for t
    using that by (auto simp: spec_expiries_def)
  have "x ty1 \<in> set ss \<longleftrightarrow> x ty2 \<in> set ss"
    if "ss \<in> set sss" and x: "x = (\<lambda>ty. \<lparr>os_option_type = ty, os_strike = k, os_expiry_ts = ts\<rparr>)"
      "ty1 = CALL" "ty2 = PUT" for ss x ty1 ty2
  proof -
    from that mem obtain t where t: "?f t = Inr ss" by blast
    show ?thesis
    proof (cases "t = ts")
      case True
      with t x specs_for_expiry_Inr(2) show ?thesis by fastforce
    next
      case False
      with specs_for_expiry_Inr(1) [OF t] x show ?thesis by fastforce
    qed
  qed
  with 1 2 show ?thesis unfolding specs by auto
qed

lemma generate_otoken_specs_sound_witness:
  "\<exists>specs. generate_otoken_specs 10 \<lparr>expiry_cutoff_hours = 48, short_expiry_cutoff_hours = 4\<rparr> 2130 ETH
       (Some [1775030400]) None 0 1774900000 1774900000 = Inr specs \<and>
     (\<forall>s \<in> set specs. os_expiry_ts s mod 86400 = 28800)"
proof -
  let ?g = "generate_otoken_specs 10 \<lparr>expiry_cutoff_hours = 48, short_expiry_cutoff_hours = 4\<rparr> 2130 ETH
       (Some [1775030400]) None 0 1774900000 1774900000"
  obtain ks where "generate_strikes 10 2130 25 5 4 = Inr ks"
    using daily_strikes_example by blast
  then have "\<exists>specs. ?g = Inr specs"
    using seq_results_map [of "concat (map (\<lambda>k. map (\<lambda>ty. \<lparr>os_option_type = ty, os_strike = k,
      os_expiry_ts = 1775030400\<rparr>) [CALL, PUT]) ks)"]
    by (simp add: generate_otoken_specs_def spec_expiries_def cutoff_hours_for_expiry_def
        specs_for_expiry_def mk_otoken_spec_def map_concat comp_def Let_def)
  then obtain specs where "?g = Inr specs" ..
  with generate_otoken_specs_sound [OF this] show ?thesis by blast
qed

section \<open>Collateral in dollars\<close>

text \<open>
  \<open>collateral_to_usd(row, eth_spot, btc_spot)\<close>; the row's \<open>collateral\<close> is a decimal string
  or missing. The quotient of two integers is rounded once.
\<close>

definition collateral_to_usd ::
  "string option \<Rightarrow> bool option \<Rightarrow> string option \<Rightarrow> rat \<Rightarrow> rat \<Rightarrow> exn + rat" where
  "collateral_to_usd coll is_put ass eth_spot btc_spot =
     (case (if truthy coll then py_int (the coll) else Some 0) of
        None \<Rightarrow> Inl (ValueError ''invalid literal for int() with base 10'')
      | Some c \<Rightarrow>
          (let a = (if truthy ass then the ass else ''eth'') in
           if is_put = Some True \<or> is_put = None then Inr (fl (of_int c / 1000000))
           else if a = ''btc'' then Inr (fl (fl (float_of c / float_of (10 ^ 8)) * btc_spot))
           else Inr (fl (fl (float_of c / float_of (10 ^ 18)) * eth_spot))))"

end
