(* ===== verification/Circuit_Breaker.thy ===== *)
theory Circuit_Breaker
  imports Pricing
begin

text \<open>
  The per-asset price circuit breaker of \<open>src/pricing/circuit_breaker.py\<close> and the bot of
  \<open>src/bots/circuit_breaker_bot.py\<close> that feeds it and invalidates quotes. The breaker's state
  is an association list in the insertion order of the dictionary. The bot's world adds the
  quotes table, the maker nonce on chain and the history of calls; every external call may
  raise, as decided by the environment from the history.
\<close>

section \<open>The breaker\<close>

record asset_state =
  reference_price :: "rat option"
  reference_time :: "int option"
  is_paused :: bool
  paused_at :: "int option"
  pause_reason :: "string option"

definition new_asset_state :: asset_state where
  "new_asset_state = \<lparr>reference_price = None, reference_time = None, is_paused = False,
     paused_at = None, pause_reason = None\<rparr>"

type_synonym breaker = "(string \<times> asset_state) list"

fun put_state :: "string \<Rightarrow> asset_state \<Rightarrow> breaker \<Rightarrow> breaker" where
  "put_state k v [] = [(k, v)]"
| "put_state k v ((k', v') # b) = (if k = k' then (k, v) # b else (k', v') # put_state k v b)"

lemma map_of_put_state [simp]: "map_of (put_state k v b) = (map_of b)(k \<mapsto> v)"
  by (induction b) (auto simp: fun_eq_iff)

text \<open>\<open>_get(asset)\<close> creates the entry when it is missing.\<close>

definition get_state :: "string \<Rightarrow> breaker \<Rightarrow> asset_state" where
  "get_state ass b = (case map_of b (lower ass) of None \<Rightarrow> new_asset_state | Some s \<Rightarrow> s)"

definition touch :: "string \<Rightarrow> breaker \<Rightarrow> breaker" where
  "touch ass b = (case map_of b (lower ass) of None \<Rightarrow> put_state (lower ass) new_asset_state b | Some _ \<Rightarrow> b)"

lemma get_state_touch [simp]: "get_state a (touch a' b) = get_state a b"
  by (auto simp: get_state_def touch_def split: option.split)

definition update_reference :: "int \<Rightarrow> rat \<Rightarrow> string \<Rightarrow> breaker \<Rightarrow> breaker" where
  "update_reference now price ass b =
     put_state (lower ass)
       \<lparr>reference_price = Some price, reference_time = Some now, is_paused = False,
        paused_at = None, pause_reason = None\<rparr> (touch ass b)"

text \<open>\<open>f"{x:.2f}"\<close> and \<open>f"{x:.2%}"\<close>: correctly rounded to two decimals.\<close>

definition upper_char :: "char \<Rightarrow> char" where
  "upper_char c = (let n = (of_char c :: nat) in if 97 \<le> n \<and> n \<le> 122 then char_of (n - 32) else c)"

definition fixed2 :: "rat \<Rightarrow> string" where
  "fixed2 x = (let n = py_round (\<bar>x\<bar> * 100) in
     (if x < 0 then ''-'' else []) @ int_str (n div 100) @ ''.'' @
     [digit_char (nat (n mod 100 div 10)), digit_char (nat (n mod 10))])"

definition percent2 :: "rat \<Rightarrow> string" where
  "percent2 x = fixed2 (fl (x * 100)) @ ''%''"

definition price_move :: "rat \<Rightarrow> rat \<Rightarrow> rat" where
  "price_move current ref = fl (\<bar>fl (current - ref)\<bar> / ref)"

definition check :: "rat \<Rightarrow> int \<Rightarrow> rat \<Rightarrow> string \<Rightarrow> breaker \<Rightarrow> (exn + bool) \<times> breaker" where
  "check threshold now current ass b0 =
     (let b = touch ass b0; st = get_state ass b in
      case reference_price st of
        None \<Rightarrow> (Inr False, update_reference now current ass b)
      | Some ref \<Rightarrow>
          if ref = 0 then (Inl (OtherError ''float division by zero''), b)
          else (let move = price_move current ref in
            if move \<ge> threshold then
              (Inr True, put_state (lower ass)
                 (st\<lparr>is_paused := True, paused_at := Some now,
                     pause_reason := Some (map upper_char ass @ '' moved '' @ percent2 move @
                       '' since last update (ref: $'' @ fixed2 ref @ '', now: $'' @ fixed2 current @ '')'')\<rparr>) b)
            else (Inr False, b)))"

definition is_paused_for :: "string \<Rightarrow> breaker \<Rightarrow> bool" where
  "is_paused_for ass b = is_paused (get_state ass b)"

definition pause_reason_for :: "string \<Rightarrow> breaker \<Rightarrow> string option" where
  "pause_reason_for ass b = pause_reason (get_state ass b)"

definition resume :: "int \<Rightarrow> rat \<Rightarrow> string \<Rightarrow> breaker \<Rightarrow> breaker" where
  "resume now price ass b = update_reference now price ass b"

definition any_paused :: "breaker \<Rightarrow> bool" where
  "any_paused b = list_ex (\<lambda>(_, s). is_paused s) b"

definition first_pause_reason :: "breaker \<Rightarrow> string option" where
  "first_pause_reason b = (case find (\<lambda>(_, s). is_paused s) b of None \<Rightarrow> None | Some (_, s) \<Rightarrow> pause_reason s)"

lemma get_update_reference [simp]:
  "get_state a' (update_reference now p a b) =
   (if lower a' = lower a
    then \<lparr>reference_price = Some p, reference_time = Some now, is_paused = False,
          paused_at = None, pause_reason = None\<rparr>
    else get_state a' b)"
  by (auto simp: update_reference_def get_state_def touch_def split: option.split)

lemma get_put_state: "get_state a' (put_state (lower a) s b) = (if lower a' = lower a then s else get_state a' b)"
  by (auto simp: get_state_def)

text \<open>Checking one asset never changes the state of another.\<close>

lemma check_other:
  "lower a' \<noteq> lower a \<Longrightarrow> get_state a' (snd (check th now p a b)) = get_state a' b"
  by (auto simp: check_def Let_def get_put_state split: option.split)




section \<open>The bot\<close>

record mm_quote_row =
  mq_id :: string
  mq_chain :: string
  mq_is_active :: bool
  mq_deadline :: int

datatype cb_call = CReadPrice asset | CHasActive | COperator | CIncrementNonce | CDeactivate

record cb_world = "cb_call hist" +
  cw_breaker :: breaker
  cw_quotes :: "mm_quote_row list"
  cw_nonce :: nat

text \<open>
  The environment: whether the latest call of a history raises, the price the oracle answers,
  the clock, and the threshold from the settings.
\<close>

record cb_env =
  cb_fails :: "cb_call list \<Rightarrow> exn option"
  cb_price :: "cb_call list \<Rightarrow> rat"
  cb_now :: "cb_call list \<Rightarrow> int"
  cb_threshold :: rat

abbreviation cb_perform :: "cb_env \<Rightarrow> cb_call \<Rightarrow> (cb_world, unit) py" where
  "cb_perform env c \<equiv> perform (cb_fails env) c"

definition live_quotes :: "int \<Rightarrow> mm_quote_row list \<Rightarrow> mm_quote_row list" where
  "live_quotes now_ts qs = filter (\<lambda>q. mq_is_active q \<and> now_ts < mq_deadline q) qs"

definition has_active_non_expired_quotes :: "cb_env \<Rightarrow> (cb_world, bool) py" where
  "has_active_non_expired_quotes env =
     bindE (getsE (\<lambda>w. cb_now env (calls w))) (\<lambda>now_ts.
     thenE (cb_perform env CHasActive)
       (getsE (\<lambda>w. live_quotes now_ts (cw_quotes w) \<noteq> [])))"

definition deactivate_active_quotes :: "cb_env \<Rightarrow> (cb_world, int) py" where
  "deactivate_active_quotes env =
     thenE (cb_perform env CDeactivate)
     (bindE (getsE (\<lambda>w. int (length (filter (\<lambda>q. mq_is_active q \<and> mq_chain q = ''base'') (cw_quotes w))))) (\<lambda>n.
      thenE (modifyE (\<lambda>w. w\<lparr>cw_quotes :=
               tbl_update (\<lambda>q. mq_is_active q \<and> mq_chain q = ''base'') (\<lambda>q. q\<lparr>mq_is_active := False\<rparr>) (cw_quotes w)\<rparr>))
        (ret n)))"

definition increment_maker_nonce :: "cb_env \<Rightarrow> (cb_world, unit) py" where
  "increment_maker_nonce env =
     thenE (cb_perform env CIncrementNonce) (modifyE (\<lambda>w. w\<lparr>cw_nonce := cw_nonce w + 1\<rparr>))"

definition invalidate_quotes :: "cb_env \<Rightarrow> string \<Rightarrow> (cb_world, unit) py" where
  "invalidate_quotes env ass =
     bindE (catchE (bindE (has_active_non_expired_quotes env) (\<lambda>has_active. ret (has_active, False)))
              (\<lambda>e. ret (True, True)))
       (\<lambda>(has_active, db_lookup_failed).
          if \<not> db_lookup_failed \<and> \<not> has_active then ret ()
          else thenE (cb_perform env COperator)
                (thenE (increment_maker_nonce env)
                   (catchE (thenE (deactivate_active_quotes env) (ret ())) (\<lambda>e. ret ()))))"

definition run_check :: "cb_env \<Rightarrow> rat \<Rightarrow> string \<Rightarrow> (cb_world, bool) py" where
  "run_check env price ass = (\<lambda>w.
     let (r, b) = check (cb_threshold env) (cb_now env (calls w)) price ass (cw_breaker w)
     in (r, w\<lparr>cw_breaker := b\<rparr>))"

definition check_asset :: "cb_env \<Rightarrow> asset \<Rightarrow> (cb_world, unit) py" where
  "check_asset env a =
     bindE (catchE (thenE (cb_perform env (CReadPrice a)) (getsE (\<lambda>w. Some (cb_price env (calls w)))))
              (\<lambda>e. ret None))
       (\<lambda>p. case p of
          None \<Rightarrow> ret ()
        | Some price \<Rightarrow>
            bindE (run_check env price (asset_value a)) (\<lambda>tripped.
              if tripped then
                thenE (invalidate_quotes env (asset_value a))
                  (modifyE (\<lambda>w. w\<lparr>cw_breaker :=
                     update_reference (cb_now env (calls w)) price (asset_value a) (cw_breaker w)\<rparr>))
              else ret ()))"

definition check_once :: "cb_env \<Rightarrow> (cb_world, unit) py" where
  "check_once env = for_each (check_asset env) get_base_assets"

lemma wp_run_check [wps]:
  "wp (run_check env p a) Q E w =
   (case check (cb_threshold env) (cb_now env (calls w)) p a (cw_breaker w) of
      (Inl e, b) \<Rightarrow> E e (w\<lparr>cw_breaker := b\<rparr>)
    | (Inr t, b) \<Rightarrow> Q t (w\<lparr>cw_breaker := b\<rparr>))"
  by (simp add: wp_def run_check_def Let_def split: prod.split sum.split)

subsection \<open>What a cycle may touch\<close>

text \<open>
  Between two worlds of a run: quotes of other chains are untouched, no quote is created,
  removed or revived, and the nonce does not decrease.
\<close>

definition quote_le :: "mm_quote_row \<Rightarrow> mm_quote_row \<Rightarrow> bool" where
  "quote_le q q' \<longleftrightarrow> q' = q \<or> (mq_chain q = ''base'' \<and> q' = q\<lparr>mq_is_active := False\<rparr>)"

definition cb_le :: "cb_world \<Rightarrow> cb_world \<Rightarrow> bool" where
  "cb_le w w' \<longleftrightarrow> list_all2 quote_le (cw_quotes w) (cw_quotes w') \<and> cw_nonce w \<le> cw_nonce w'"

lemma quotes_le_refl: "list_all2 quote_le qs qs"
  by (rule list_all2_refl) (simp add: quote_le_def)

lemma quotes_le_trans: "list_all2 quote_le qs rs \<Longrightarrow> list_all2 quote_le rs ts \<Longrightarrow> list_all2 quote_le qs ts"
  by (rule list_all2_trans [of quote_le quote_le quote_le]) (auto simp: quote_le_def)

interpretation cb: world_order cb_le
proof
  show "cb_le w w" for w
    by (simp add: cb_le_def quotes_le_refl)
  show "cb_le u w" if "cb_le u v" "cb_le v w" for u v w
    using that by (auto simp: cb_le_def intro: quotes_le_trans)
qed

lemma grows_cb_perform: "grows cb_le (cb_perform env c)"
  by (rule grows_perform) (simp add: cb_le_def quotes_le_refl)

lemma grows_run_check: "grows cb_le (run_check env p a)"
  by (simp add: grows_def run_check_def Let_def cb_le_def quotes_le_refl split: prod.split)

lemma grows_deactivate: "grows cb_le (deactivate_active_quotes env)"
  unfolding deactivate_active_quotes_def
  by (intro cb.rules cb.grows_modify grows_cb_perform)
    (auto simp: cb_le_def quote_le_def tbl_update_def list_all2_map2 intro!: list_all2_refl)

lemma grows_invalidate: "grows cb_le (invalidate_quotes env a)"
  unfolding invalidate_quotes_def has_active_non_expired_quotes_def increment_maker_nonce_def
  by (intro cb.rules cb.grows_modify grows_cb_perform grows_deactivate)
    (auto simp: cb_le_def quotes_le_refl)

text \<open>
  A cycle of the circuit breaker, whatever fails in it, leaves the quotes of every chain
  other than Base exactly as they are, never creates, deletes or reactivates a quote, and never
  lowers the maker nonce.
\<close>

lemma check_once_frame:
  "check_once env w = (r, w') \<Longrightarrow>
   filter (\<lambda>q. mq_chain q \<noteq> ''base'') (cw_quotes w') = filter (\<lambda>q. mq_chain q \<noteq> ''base'') (cw_quotes w) \<and>
   map mq_id (cw_quotes w') = map mq_id (cw_quotes w) \<and>
   (\<forall>q' \<in> set (cw_quotes w'). mq_is_active q' \<longrightarrow> q' \<in> set (cw_quotes w)) \<and>
   cw_nonce w \<le> cw_nonce w'"
proof -
  assume run: "check_once env w = (r, w')"
  have "grows cb_le (check_once env)"
    unfolding check_once_def check_asset_def
    by (intro cb.rules cb.grows_modify grows_cb_perform grows_run_check grows_invalidate)
      (auto simp: cb_le_def quotes_le_refl)
  then have le: "cb_le w w'" using run by (rule growsD)
  have "filter (\<lambda>q. mq_chain q \<noteq> ''base'') qs' = filter (\<lambda>q. mq_chain q \<noteq> ''base'') qs \<and>
      map mq_id qs' = map mq_id qs \<and> (\<forall>q' \<in> set qs'. mq_is_active q' \<longrightarrow> q' \<in> set qs)"
    if "list_all2 quote_le qs qs'" for qs qs'
    using that by (induction rule: list_all2_induct) (auto simp: quote_le_def)
  with le show ?thesis unfolding cb_le_def by blast
qed

definition cb_demo_world :: cb_world where
  "cb_demo_world = \<lparr>calls = [], cw_breaker = update_reference 5 2000 ''eth'' [],
     cw_quotes = [\<lparr>mq_id = ''a'', mq_chain = ''base'', mq_is_active = True, mq_deadline = 100\<rparr>,
                  \<lparr>mq_id = ''b'', mq_chain = ''solana'', mq_is_active = True, mq_deadline = 100\<rparr>],
     cw_nonce = 3\<rparr>"

definition cb_demo_env :: cb_env where
  "cb_demo_env = \<lparr>cb_fails = (\<lambda>h. None), cb_price = (\<lambda>h. 3000), cb_now = (\<lambda>h. 10), cb_threshold = fl (2 / 100)\<rparr>"

lemma check_once_frame_witness:
  "filter (\<lambda>q. mq_chain q \<noteq> ''base'') (cw_quotes (snd (check_once cb_demo_env cb_demo_world))) =
     [\<lparr>mq_id = ''b'', mq_chain = ''solana'', mq_is_active = True, mq_deadline = 100\<rparr>]"
  using check_once_frame [of cb_demo_env cb_demo_world
      "fst (check_once cb_demo_env cb_demo_world)" "snd (check_once cb_demo_env cb_demo_world)"]
  by (simp add: cb_demo_world_def)



end
