(* ===== verification/Yield_World.thy ===== *)
theory Yield_World
  imports Py_Float
begin

text \<open>
  Data of the yield attribution: the rows of \<open>yield_positions\<close>, \<open>yield_distributions\<close> and
  \<open>yield_allocations\<close> (\<open>supabase/migrations/20260403_yield_tracking.sql\<close>), the world that
  \<open>src/yield_tracking\<close>, \<open>src/bots/yield_indexer.py\<close>, \<open>src/bots/yield_airdrop.py\<close> and
  \<open>src/api/yield_routes.py\<close> share, and its external calls. A timestamp is the number of
  microseconds of its instant; the columns \<open>created_at\<close> and \<open>updated_at\<close> are left out.
\<close>

section \<open>Rows\<close>

record yield_position =
  yp_id :: string
  yp_user :: string
  yp_vault :: int
  yp_asset :: string
  yp_collateral :: int
  yp_deposited :: int
  yp_settled :: "int option"
  yp_block :: int
  yp_tx :: string

record yield_distribution =
  yd_id :: string
  yd_tx :: string
  yd_asset :: string
  yd_total :: int
  yd_fee :: int
  yd_start :: int
  yd_end :: int

record yield_allocation =
  ya_id :: string
  ya_distribution :: string
  ya_position :: string
  ya_user :: string
  ya_asset :: string
  ya_amount :: int
  ya_status :: string
  ya_tx :: "string option"

section \<open>The world\<close>

text \<open>
  Every database statement, chain call and transaction is a call that may raise.
  \<open>TokenTransfer t r n\<close> transfers \<open>n\<close> of the token at address \<open>t\<close> to \<open>r\<close>.
\<close>

datatype yield_call =
    ReadPositions | UpsertPosition | UpdatePosition
  | ReadDistributions | InsertDistribution | UpsertDistribution
  | ReadAllocations | InsertAllocations | UpdateAllocation string
  | ReadState | WriteState
  | OperatorAccount | AccruedYield string | HarvestYield string | TransactionReceipt string
  | TokenTransfer string string int
  | BlockNumber | BlockTimestamp int | ControllerLogs int int | PoolLogs int int | DecodeLog | YSleep int

record yield_world = "yield_call hist" +
  yw_positions :: "yield_position list"
  yw_distributions :: "yield_distribution list"
  yw_allocations :: "yield_allocation list"
  yw_last_block :: "int option"

record yield_settings =
  usdc_address :: string
  weth_address :: string
  wbtc_address :: string
  treasury_address :: string
  protocol_fee_bps :: int
  controller_address :: string
  margin_pool_address :: string
  yield_wss_url :: string
  yield_poll_interval :: int

text \<open>
  The logs of the two contracts: the event, its block, its index in the block and its transaction.
  A log of another topic is not requested but a subscription may deliver it.
\<close>

datatype yield_event =
    CollateralDeposited string int string int
  | VaultSettled string int int
  | YieldHarvested string string int
  | OtherTopic

record yield_log =
  yl_event :: yield_event
  yl_block :: int
  yl_index :: int
  yl_tx :: string

text \<open>
  The environment: failures, answers of the chain, the ids of new rows, and the harvested amounts
  in the logs of a receipt, where \<open>None\<close> is a log that does not decode as \<open>YieldHarvested\<close>.
  \<open>ye_no_data\<close> says that a response came without data.
\<close>

record yield_env =
  ye_fails :: "yield_call list \<Rightarrow> exn option"
  ye_settings :: yield_settings
  ye_no_data :: "yield_call list \<Rightarrow> bool"
  ye_new_id :: "yield_call list \<Rightarrow> nat \<Rightarrow> string"
  ye_int :: "yield_call list \<Rightarrow> int"
  ye_tx :: "yield_call list \<Rightarrow> string"
  ye_receipt :: "yield_call list \<Rightarrow> int option list"
  ye_checksum :: "string \<Rightarrow> exn + string"
  ye_logs :: "yield_call list \<Rightarrow> yield_log list"

type_synonym 'a ypy = "(yield_world, 'a) py"

abbreviation ycall :: "yield_env \<Rightarrow> yield_call \<Rightarrow> unit ypy" where
  "ycall env c \<equiv> perform (ye_fails env) c"

text \<open>A call that answers with an integer, and a transaction that answers with its hash.\<close>

definition int_call :: "yield_env \<Rightarrow> yield_call \<Rightarrow> int ypy" where
  "int_call env c = thenE (ycall env c) (getsE (\<lambda>w. ye_int env (calls w)))"

definition send_tx :: "yield_env \<Rightarrow> yield_call \<Rightarrow> string ypy" where
  "send_tx env c = thenE (ycall env c) (getsE (\<lambda>w. ye_tx env (calls w)))"

lemma wp_int_call [wps]:
  "wp (int_call env c) Q E w =
   (case ye_fails env (c # calls w) of
      Some e \<Rightarrow> E e (w\<lparr>calls := c # calls w\<rparr>)
    | None \<Rightarrow> Q (ye_int env (c # calls w)) (w\<lparr>calls := c # calls w\<rparr>))"
  by (simp add: int_call_def wps split: option.split)

lemma wp_send_tx [wps]:
  "wp (send_tx env c) Q E w =
   (case ye_fails env (c # calls w) of
      Some e \<Rightarrow> E e (w\<lparr>calls := c # calls w\<rparr>)
    | None \<Rightarrow> Q (ye_tx env (c # calls w)) (w\<lparr>calls := c # calls w\<rparr>))"
  by (simp add: send_tx_def wps split: option.split)

text \<open>\<open>_ASSET_ADDRESSES\<close>, in the order of the dictionary.\<close>

definition asset_addresses :: "yield_settings \<Rightarrow> (string \<times> string) list" where
  "asset_addresses s = [(''usdc'', usdc_address s), (''eth'', weth_address s), (''btc'', wbtc_address s)]"

section \<open>Tables\<close>

definition set_positions :: "(yield_position list \<Rightarrow> yield_position list) \<Rightarrow> unit ypy" where
  "set_positions f = modifyE (\<lambda>w. w\<lparr>yw_positions := f (yw_positions w)\<rparr>)"

definition set_distributions :: "(yield_distribution list \<Rightarrow> yield_distribution list) \<Rightarrow> unit ypy" where
  "set_distributions f = modifyE (\<lambda>w. w\<lparr>yw_distributions := f (yw_distributions w)\<rparr>)"

definition set_allocations :: "(yield_allocation list \<Rightarrow> yield_allocation list) \<Rightarrow> unit ypy" where
  "set_allocations f = modifyE (\<lambda>w. w\<lparr>yw_allocations := f (yw_allocations w)\<rparr>)"

lemma wp_set_tables [wps]:
  "wp (set_positions p) Q E w = Q () (w\<lparr>yw_positions := p (yw_positions w)\<rparr>)"
  "wp (set_distributions d) Q E w = Q () (w\<lparr>yw_distributions := d (yw_distributions w)\<rparr>)"
  "wp (set_allocations a) Q E w = Q () (w\<lparr>yw_allocations := a (yw_allocations w)\<rparr>)"
  by (simp_all add: set_positions_def set_distributions_def set_allocations_def wps)

end
