(* ===== verification/Yield_Calculator.thy ===== *)
theory Yield_Calculator
  imports Yield_World "HOL-Library.Sublist"
begin

text \<open>
  \<open>src/yield_tracking/calculator.py\<close>: the time-weighted allocation of a harvest. The shares are
  computed in binary64, and ether amounts exceed 53 bits, so the question is how far the
  amounts are from the exact shares. The predicate \<open>near k\<close> carries the rounding errors of \<open>k\<close> operations through
  sums, products and quotients.
\<close>

section \<open>Weights\<close>

text \<open>\<open>max((end - start).total_seconds(), 0)\<close> of the part of a position's life in the period.\<close>

definition active_micros :: "int \<Rightarrow> int \<Rightarrow> yield_position \<Rightarrow> int" where
  "active_micros period_start period_end p =
     (let start = max (yp_deposited p) period_start;
          end_at = (case yp_settled p of Some s \<Rightarrow> min s period_end | None \<Rightarrow> period_end)
      in end_at - start)"

definition active_seconds :: "int \<Rightarrow> int \<Rightarrow> yield_position \<Rightarrow> rat" where
  "active_seconds period_start period_end p =
     max (fl (of_int (active_micros period_start period_end p) / 1000000)) 0"

definition position_weight :: "int \<Rightarrow> int \<Rightarrow> yield_position \<Rightarrow> rat" where
  "position_weight period_start period_end p =
     fl (fl (of_int (yp_collateral p)) * active_seconds period_start period_end p)"

definition sum_weights :: "rat list \<Rightarrow> rat" where
  "sum_weights ws = foldl (\<lambda>acc weight. fl (acc + weight)) 0 ws"

text \<open>The query and the filter on positions settled before the period.\<close>

definition settled_before :: "int \<Rightarrow> yield_position \<Rightarrow> bool" where
  "settled_before period_start p = (case yp_settled p of Some s \<Rightarrow> s \<le> period_start | None \<Rightarrow> False)"

definition query_positions :: "string \<Rightarrow> int \<Rightarrow> yield_position list \<Rightarrow> yield_position list" where
  "query_positions ass period_end rows = filter (\<lambda>p. yp_asset p = ass \<and> yp_deposited p < period_end) rows"

definition active_positions :: "string \<Rightarrow> int \<Rightarrow> int \<Rightarrow> yield_position list \<Rightarrow> yield_position list" where
  "active_positions ass period_start period_end rows =
     filter (\<lambda>p. \<not> settled_before period_start p) (query_positions ass period_end rows)"

section \<open>Allocations\<close>

text \<open>\<open>int(distributable * (weight / total_weight))\<close>.\<close>

definition share_amount :: "int \<Rightarrow> rat \<Rightarrow> rat \<Rightarrow> int" where
  "share_amount distributable weight tot =
     (let share = fl (weight / tot) in py_trunc (fl (fl (of_int distributable) * share)))"

definition new_allocation :: "string \<Rightarrow> string \<Rightarrow> yield_position \<Rightarrow> int \<Rightarrow> yield_allocation" where
  "new_allocation did ass p amount =
     \<lparr>ya_id = [], ya_distribution = did, ya_position = yp_id p, ya_user = yp_user p, ya_asset = ass,
      ya_amount = amount, ya_status = ''pending'', ya_tx = None\<rparr>"

text \<open>The loop over the weights; it returns the allocations and their total.\<close>

fun alloc_loop :: "string \<Rightarrow> string \<Rightarrow> int \<Rightarrow> rat \<Rightarrow> (yield_position \<times> rat) list \<Rightarrow> yield_allocation list \<times> int" where
  "alloc_loop did ass d tot [] = ([], 0)"
| "alloc_loop did ass d tot ((p, weight) # ws) =
     (let (allocations, allocated) = alloc_loop did ass d tot ws;
          amount = share_amount d weight tot
      in if amount = 0 then (allocations, allocated)
         else (new_allocation did ass p amount # allocations, amount + allocated))"

text \<open>The rounding remainder goes to the first allocation.\<close>

fun add_dust :: "int \<Rightarrow> yield_allocation list \<Rightarrow> yield_allocation list" where
  "add_dust dust [] = []"
| "add_dust dust (a # as) = (if 0 < dust then a\<lparr>ya_amount := ya_amount a + dust\<rparr> # as else a # as)"

definition allocate :: "string \<Rightarrow> int \<Rightarrow> int \<Rightarrow> string \<Rightarrow> int \<Rightarrow> yield_position list \<Rightarrow> yield_allocation list \<times> int" where
  "allocate did period_start period_end ass distributable rows =
     (let positions = active_positions ass period_start period_end rows in
      if positions = [] then ([], 0)
      else
        (let weights = map (\<lambda>p. (p, position_weight period_start period_end p)) positions;
             total_weight = sum_weights (map snd weights)
         in if total_weight = 0 then ([], 0)
            else
              (let (allocations, allocated) = alloc_loop did ass distributable total_weight weights;
                   dust = distributable - allocated
               in (add_dust dust allocations, dust))))"

definition calculate_allocations :: "yield_env \<Rightarrow> string \<Rightarrow> int \<Rightarrow> int \<Rightarrow> string \<Rightarrow> int \<Rightarrow> (yield_allocation list \<times> int) ypy" where
  "calculate_allocations env did period_start period_end ass distributable =
     thenE (ycall env ReadPositions)
       (getsE (\<lambda>w. if ye_no_data env (calls w) then ([], 0)
                   else allocate did period_start period_end ass distributable (yw_positions w)))"

definition number_rows :: "(nat \<Rightarrow> string) \<Rightarrow> yield_allocation list \<Rightarrow> yield_allocation list" where
  "number_rows ids as = map2 (\<lambda>n a. a\<lparr>ya_id := ids n\<rparr>) [0..<length as] as"

text \<open>\<open>save_allocations\<close>; the database gives every row its id.\<close>

definition save_allocations :: "yield_env \<Rightarrow> yield_allocation list \<Rightarrow> nat ypy" where
  "save_allocations env as =
     (if as = [] then ret 0
      else thenE (ycall env InsertAllocations)
        (bindE (getsE (\<lambda>w. ye_new_id env (calls w))) (\<lambda>ids.
           thenE (set_allocations (\<lambda>rows. rows @ number_rows ids as)) (ret (length as)))))"

text \<open>\<open>estimate_pending_yield\<close> on the rows of the table.\<close>

definition estimate_pending_yield :: "int \<Rightarrow> string \<Rightarrow> string \<Rightarrow> int \<Rightarrow> int \<Rightarrow> int \<Rightarrow> yield_position list \<Rightarrow> int" where
  "estimate_pending_yield fee_bps user ass period_start period_end total_accrued rows =
     (let positions = active_positions ass period_start period_end rows;
          weigh = position_weight period_start period_end;
          total_weight = sum_weights (map weigh positions);
          user_weight = sum_weights (map weigh (filter (\<lambda>p. lower (yp_user p) = lower user) positions))
      in if total_weight = 0 then 0
         else (let distributable = total_accrued * (10000 - fee_bps) div 10000
               in py_trunc (fl (fl (fl (of_int distributable) * user_weight) / total_weight))))"

section \<open>Rounding errors\<close>

definition unit_roundoff :: rat where
  "unit_roundoff = 1 / 2 ^ 53"

text \<open>\<open>x\<close> is \<open>y\<close> up to the relative errors of \<open>k\<close> roundings.\<close>

definition near :: "nat \<Rightarrow> rat \<Rightarrow> rat \<Rightarrow> bool" where
  "near k x y \<longleftrightarrow> 0 \<le> x \<and> 0 \<le> y \<and> y * (1 - unit_roundoff) ^ k \<le> x \<and> x * (1 - unit_roundoff) ^ k \<le> y"

lemma roundoff_pos: "0 < unit_roundoff" "0 < 1 - unit_roundoff" "1 - unit_roundoff \<le> 1"
  by (simp_all add: unit_roundoff_def)

lemma roundoff_power: "0 < (1 - unit_roundoff) ^ k" "(1 - unit_roundoff) ^ k \<le> 1"
  using roundoff_pos by (simp_all add: power_le_one)

lemma near_refl [simp]: "near 0 x x \<longleftrightarrow> 0 \<le> x"
  by (auto simp: near_def)

lemma near_0 [simp]: "near k 0 0"
  by (simp add: near_def)

lemma near_weaken:
  assumes "near k x y" "k \<le> l" shows "near l x y"
proof -
  have p: "(1 - unit_roundoff) ^ l \<le> (1 - unit_roundoff) ^ k"
    using assms(2) roundoff_pos by (intro power_decreasing) auto
  have xy: "0 \<le> x" "0 \<le> y" "y * (1 - unit_roundoff) ^ k \<le> x" "x * (1 - unit_roundoff) ^ k \<le> y"
    using assms(1) by (simp_all add: near_def)
  show ?thesis
    using mult_left_mono [OF p xy(1)] mult_left_mono [OF p xy(2)] xy unfolding near_def by linarith
qed

lemma near_trans:
  assumes "near j x y" "near k y z" shows "near (j + k) x z"
proof -
  let ?e = "1 - unit_roundoff"
  have x: "0 \<le> x" "0 \<le> y" "0 \<le> z" "y * ?e ^ j \<le> x" "x * ?e ^ j \<le> y" "z * ?e ^ k \<le> y" "y * ?e ^ k \<le> z"
    using assms by (simp_all add: near_def)
  have "z * ?e ^ (j + k) = (z * ?e ^ k) * ?e ^ j" by (simp add: power_add ac_simps)
  also have "\<dots> \<le> y * ?e ^ j" using x(6) less_imp_le [OF roundoff_power(1)] by (rule mult_right_mono)
  finally have a: "z * ?e ^ (j + k) \<le> x" using x(4) by linarith
  have "x * ?e ^ (j + k) = (x * ?e ^ j) * ?e ^ k" by (simp add: power_add ac_simps)
  also have "\<dots> \<le> y * ?e ^ k" using x(5) less_imp_le [OF roundoff_power(1)] by (rule mult_right_mono)
  finally have "x * ?e ^ (j + k) \<le> z" using x(7) by linarith
  with a x show ?thesis by (simp add: near_def)
qed

lemma near_add:
  assumes "near k x y" "near k x' y'" shows "near k (x + x') (y + y')"
  using assms unfolding near_def by (simp add: distrib_right)

lemma near_mult:
  assumes "near j x y" "near k x' y'" shows "near (j + k) (x * x') (y * y')"
proof -
  let ?e = "1 - unit_roundoff"
  have x: "0 \<le> x" "0 \<le> y" "y * ?e ^ j \<le> x" "x * ?e ^ j \<le> y" "0 \<le> x'" "0 \<le> y'" "y' * ?e ^ k \<le> x'" "x' * ?e ^ k \<le> y'"
    using assms by (simp_all add: near_def)
  have p: "0 \<le> ?e ^ m" for m using roundoff_power(1) [of m] by simp
  have "(y * ?e ^ j) * (y' * ?e ^ k) \<le> x * x'" "(x * ?e ^ j) * (x' * ?e ^ k) \<le> y * y'"
    using x p by (auto intro!: mult_mono)
  with x show ?thesis by (simp add: near_def power_add ac_simps)
qed

lemma near_inverse:
  assumes "near k x y" "0 < x" "0 < y" shows "near k (inverse x) (inverse y)"
  using assms unfolding near_def
  by (simp add: field_simps)

lemma near_divide:
  assumes "near j x y" "near k x' y'" "0 < x'" "0 < y'" shows "near (j + k) (x / x') (y / y')"
  using near_mult [OF assms(1) near_inverse [OF assms(2-4)]] by (simp add: divide_inverse)

lemma near_pos: "near k x y \<Longrightarrow> 0 < x \<longleftrightarrow> 0 < y"
  using roundoff_power(1) [of k] unfolding near_def
  by (metis less_le mult_pos_pos order_less_le_trans)

lemma near_sum: "list_all2 (near k) xs ys \<Longrightarrow> near k (sum_list xs) (sum_list ys)"
  by (induction rule: list_all2_induct) (auto intro: near_add)

text \<open>One rounding.\<close>

lemma near_fl:
  assumes "0 \<le> x" shows "near 1 (fl x) x"
proof (cases "x = 0")
  case False
  with assms have x: "0 < x" by simp
  have "ulp x = 2 powi (ilog2 x - 52)" using x by (simp add: ulp_def)
  also have "\<dots> = 2 powi ilog2 x * (2 * unit_roundoff)" by (simp add: power_int_diff unit_roundoff_def)
  also have "\<dots> \<le> x * (2 * unit_roundoff)"
    using ilog2_bounds(1) [OF x] roundoff_pos by (intro mult_right_mono) auto
  finally have e: "\<bar>fl x - x\<bar> \<le> x * unit_roundoff" using fl_error [of x] by linarith
  have lo: "x * (1 - unit_roundoff) \<le> fl x" using e by (simp add: algebra_simps)
  have "fl x * (1 - unit_roundoff) \<le> (x * (1 + unit_roundoff)) * (1 - unit_roundoff)"
    using e roundoff_pos by (intro mult_right_mono) (auto simp: algebra_simps)
  also have "\<dots> = x - x * (unit_roundoff * unit_roundoff)" by (simp add: algebra_simps)
  also have "\<dots> \<le> x" using x roundoff_pos by simp
  finally show ?thesis using lo x fl_nonneg [of x] by (simp add: near_def)
qed simp

lemma near_round: "near k x y \<Longrightarrow> near (Suc k) (fl x) y"
  using near_trans [OF near_fl, of x k y] by (simp add: near_def)

text \<open>Bernoulli's inequality turns the relative error into an absolute one.\<close>

lemma roundoff_bernoulli: "1 - of_nat k * unit_roundoff \<le> (1 - unit_roundoff) ^ k"
proof (induction k)
  case (Suc k)
  have "1 - of_nat (Suc k) * unit_roundoff \<le> (1 - of_nat k * unit_roundoff) * (1 - unit_roundoff)"
    using roundoff_pos by (simp add: algebra_simps)
  also have "\<dots> \<le> (1 - unit_roundoff) ^ k * (1 - unit_roundoff)"
    using Suc roundoff_pos by (intro mult_right_mono) auto
  finally show ?case by (simp add: mult.commute)
qed simp

lemma near_sum_weights:
  assumes "list_all ((\<le>) 0) ws"
  shows "near (length ws) (sum_weights ws) (sum_list ws)"
  using assms
proof (induction ws rule: rev_induct)
  case (snoc w ws)
  then have "near (length ws) (sum_weights ws) (sum_list ws)" "near (length ws) w w"
    by (auto intro: near_weaken [of 0])
  then have "near (Suc (length ws)) (fl (sum_weights ws + w)) (sum_list ws + w)"
    by (intro near_round near_add)
  then show ?case by (simp add: sum_weights_def)
qed (simp add: sum_weights_def)


section \<open>Allocations are pro rata\<close>

text \<open>The exact time-weighted share.\<close>

definition exact_weight :: "int \<Rightarrow> int \<Rightarrow> yield_position \<Rightarrow> rat" where
  "exact_weight period_start period_end p =
     of_int (yp_collateral p) * (of_int (max (active_micros period_start period_end p) 0) / 1000000)"

definition pro_rata :: "int \<Rightarrow> int \<Rightarrow> int \<Rightarrow> yield_position list \<Rightarrow> yield_position \<Rightarrow> rat" where
  "pro_rata d period_start period_end ps p =
     of_int d * (exact_weight period_start period_end p / sum_list (map (exact_weight period_start period_end) ps))"

lemma fl_nonpos: "x \<le> 0 \<Longrightarrow> fl x \<le> 0"
proof -
  assume "x \<le> 0"
  then have "x / ulp x \<le> of_int 0" by (simp add: divide_nonpos_pos)
  then have "py_round (x / ulp x) \<le> 0" by (metis py_round_mono py_round_of_int)
  then show ?thesis by (simp add: fl_def mult_nonpos_nonneg less_imp_le)
qed

lemma exact_weight_nonneg: "0 \<le> yp_collateral p \<Longrightarrow> 0 \<le> exact_weight a b p"
  by (simp add: exact_weight_def)

lemma near_active_seconds:
  "near 1 (active_seconds a b p) (of_int (max (active_micros a b p) 0) / 1000000)"
proof (cases "0 \<le> active_micros a b p")
  case True
  then have "near 1 (fl (of_int (active_micros a b p) / 1000000)) (of_int (active_micros a b p) / 1000000)"
    by (intro near_fl) simp
  with True show ?thesis by (simp add: active_seconds_def max_def near_def)
next
  case False
  then have "fl (of_int (active_micros a b p) / 1000000) \<le> 0" by (intro fl_nonpos) simp
  with False show ?thesis by (simp add: active_seconds_def max_def)
qed

lemma near_position_weight:
  assumes "0 \<le> yp_collateral p"
  shows "near 3 (position_weight a b p) (exact_weight a b p)"
proof -
  have "near (1 + 1) (fl (of_int (yp_collateral p)) * active_seconds a b p) (exact_weight a b p)"
    unfolding exact_weight_def by (intro near_mult near_fl near_active_seconds) (simp add: assms)
  from near_round [OF this] show ?thesis by (simp add: position_weight_def numeral_3_eq_3)
qed

lemma alloc_loop_total: "snd (alloc_loop did ass d t ws) = sum_list (map (\<lambda>(p, w). share_amount d w t) ws)"
  by (induction ws) (auto simp: Let_def split: prod.split)

lemma alloc_loop_amounts: "sum_list (map ya_amount (fst (alloc_loop did ass d t ws))) = snd (alloc_loop did ass d t ws)"
  by (induction ws) (auto simp: Let_def new_allocation_def split: prod.split)

lemma alloc_loop_subseq: "subseq (map ya_position (fst (alloc_loop did ass d t ws))) (map (\<lambda>(p, w). yp_id p) ws)"
  by (induction ws) (auto simp: Let_def new_allocation_def split: prod.split)

lemma alloc_loop_entry:
  "x \<in> set (fst (alloc_loop did ass d t ws)) \<Longrightarrow>
   \<exists>(p, w) \<in> set ws. x = new_allocation did ass p (share_amount d w t) \<and> share_amount d w t \<noteq> 0"
  by (induction ws) (auto simp: Let_def split: prod.splits if_splits)

lemma add_dust_positions [simp]: "map ya_position (add_dust dust as) = map ya_position as"
  by (cases "as") auto

lemma add_dust_total: "as \<noteq> [] \<Longrightarrow> sum_list (map ya_amount (add_dust dust as)) = sum_list (map ya_amount as) + max dust 0"
  by (cases "as") (auto simp: max_def)

lemma add_dust_nth: "i < length as \<Longrightarrow> add_dust dust as ! i =
   (as ! i)\<lparr>ya_amount := ya_amount (as ! i) + (if i = 0 then max dust 0 else 0)\<rparr>"
  by (cases "as"; cases i) (auto simp: max_def)

lemma length_add_dust [simp]: "length (add_dust dust as) = length as"
  by (cases "as") auto

lemma absolute_error:
  assumes "near k x y" "y \<le> of_int d" "2 * ((of_int d + 1) * of_nat k) \<le> (2 ^ 53 :: rat)"
  shows "y - 1 \<le> x" and "x \<le> y + 1"
proof -
  let ?e = "of_nat k * unit_roundoff"
  have y: "0 \<le> x" "0 \<le> y" "y * (1 - unit_roundoff) ^ k \<le> x" "x * (1 - unit_roundoff) ^ k \<le> y"
    using assms(1) by (simp_all add: near_def)
  have b: "1 - ?e \<le> (1 - unit_roundoff) ^ k" by (rule roundoff_bernoulli)
  have "2 * ((of_int d + 1) * ?e) \<le> 1" using assms(3) by (simp add: unit_roundoff_def field_simps)
  moreover have "(y + 1) * ?e \<le> (of_int d + 1) * ?e"
    using assms(2) roundoff_pos by (intro mult_right_mono) auto
  ultimately have ye: "2 * (y * ?e + ?e) \<le> 1" by (simp add: algebra_simps)
  have e0: "0 \<le> ?e" "0 \<le> y * ?e" using y roundoff_pos by simp_all
  have "y * (1 - ?e) \<le> x" using mult_left_mono [OF b y(2)] y(3) by linarith
  then show "y - 1 \<le> x" using ye e0 by (simp add: right_diff_distrib)
  have u: "x * (1 - ?e) \<le> y" using mult_left_mono [OF b y(1)] y(4) by linarith
  show "x \<le> y + 1"
  proof (rule ccontr)
    assume "\<not> x \<le> y + 1"
    then have "(y + 1) * (1 - ?e) < x * (1 - ?e)" using ye e0 by (intro mult_strict_right_mono) auto
    with u have "(y + 1) * (1 - ?e) < y" by linarith
    then show False using ye e0 by (simp add: algebra_simps)
  qed
qed

lemma share_error:
  fixes ps :: "yield_position list"
  assumes "list_all (\<lambda>p. 0 \<le> yp_collateral p) ps" "p \<in> set ps" "0 \<le> d" "d < 2 ^ 53"
    and t: "t = sum_weights (map (position_weight a b) ps)" "t \<noteq> 0"
  shows "near (length ps + 8) (fl (fl (of_int d) * fl (position_weight a b p / t))) (pro_rata d a b ps p)"
proof -
  let ?w = "position_weight a b" and ?e = "exact_weight a b"
  have w: "near 3 (?w q) (?e q)" if "q \<in> set ps" for q
    using assms(1) that by (intro near_position_weight) (simp add: list_all_iff)
  have "near (length (map ?w ps)) t (sum_list (map ?w ps))"
    unfolding t(1) by (rule near_sum_weights) (use w in \<open>auto simp: list_all_iff near_def\<close>)
  moreover have "near 3 (sum_list (map ?w ps)) (sum_list (map ?e ps))"
    by (rule near_sum) (simp add: list_all2_conv_all_nth w)
  ultimately have n: "near (length ps + 3) t (sum_list (map ?e ps))" by (auto dest: near_trans)
  then have pos: "0 < t" "0 < sum_list (map ?e ps)" using t(2) near_pos [OF n] by (auto simp: near_def)
  have s: "near (Suc (3 + (length ps + 3))) (fl (?w p / t)) (?e p / sum_list (map ?e ps))"
    by (rule near_round [OF near_divide [OF w [OF assms(2)] n pos]])
  have "near 0 (of_int d) (of_int d)" using assms(3) by simp
  from near_round [OF near_mult [OF this s]]
  have "near (Suc (0 + Suc (3 + (length ps + 3)))) (fl (of_int d * fl (?w p / t)))
      (of_int d * (?e p / sum_list (map ?e ps)))" .
  moreover have "fl (of_int d) = of_int d" using assms(3,4) by (intro fl_of_int) simp
  ultimately show ?thesis by (simp add: pro_rata_def add.commute numeral_eq_Suc)
qed

lemma sum_pro_rata:
  assumes "sum_list (map (exact_weight a b) ps) \<noteq> 0"
  shows "sum_list (map (pro_rata d a b ps) ps) = of_int d"
proof -
  have "sum_list (map (\<lambda>p. of_int d * (exact_weight a b p / t)) qs) = of_int d * (sum_list (map (exact_weight a b) qs) / t)" for t qs
    by (induction qs) (simp_all add: add_divide_distrib distrib_left)
  with assms show ?thesis by (simp add: pro_rata_def [abs_def])
qed


definition fair_share :: "int \<Rightarrow> int \<Rightarrow> int \<Rightarrow> yield_position list \<Rightarrow> int \<Rightarrow> yield_allocation \<Rightarrow> bool" where
  "fair_share d a b ps extra x \<longleftrightarrow> (\<exists>p \<in> set ps.
     ya_position x = yp_id p \<and> ya_user x = yp_user p \<and> ya_status x = ''pending'' \<and> 0 < ya_amount x \<and>
     pro_rata d a b ps p - 2 < of_int (ya_amount x - extra) \<and> of_int (ya_amount x - extra) \<le> pro_rata d a b ps p + 1)"

lemma share_amount_fair:
  fixes ps :: "yield_position list"
  assumes "list_all (\<lambda>p. 0 \<le> yp_collateral p) ps" "p \<in> set ps" "0 \<le> d"
    and "2 * ((d + 1) * (int (length ps) + 8)) \<le> 2 ^ 53"
    and t: "t = sum_weights (map (position_weight a b) ps)" "t \<noteq> 0"
  defines "x \<equiv> fl (fl (of_int d) * fl (position_weight a b p / t))"
  shows "share_amount d (position_weight a b p) t = \<lfloor>x\<rfloor>" and "0 \<le> x"
    and "pro_rata d a b ps p - 1 \<le> x" and "x \<le> pro_rata d a b ps p + 1"
    and "near (length ps + 8) x (pro_rata d a b ps p)"
proof -
  have "2 * ((d + 1) * 1) \<le> 2 * ((d + 1) * (int (length ps) + 8))" using assms(3) by (intro mult_left_mono) auto
  from order_trans [OF this assms(4)] have "d < 2 ^ 53" by simp
  then show n: "near (length ps + 8) x (pro_rata d a b ps p)"
    unfolding x_def by (rule share_error [OF assms(1-3) _ t])
  then show x0: "0 \<le> x" by (simp add: near_def)
  then show "share_amount d (position_weight a b p) t = \<lfloor>x\<rfloor>"
    by (simp add: share_amount_def x_def py_trunc_def Let_def)
  have e: "0 \<le> exact_weight a b q" if "q \<in> set ps" for q
    using assms(1) that by (intro exact_weight_nonneg) (simp add: list_all_iff)
  then have "exact_weight a b p \<le> sum_list (map (exact_weight a b) ps)"
    using assms(2) by (intro member_le_sum_list) auto
  then have "exact_weight a b p / sum_list (map (exact_weight a b) ps) \<le> 1"
    using e [OF assms(2)] by (cases "sum_list (map (exact_weight a b) ps) = 0") (auto simp: divide_le_eq_1)
  then have le: "pro_rata d a b ps p \<le> of_int d"
    using assms(3) mult_left_mono [of "exact_weight a b p / sum_list (map (exact_weight a b) ps)" 1 "of_int d :: rat"]
    by (simp add: pro_rata_def)
  have "of_int (2 * ((d + 1) * (int (length ps) + 8))) \<le> (of_int (2 ^ 53) :: rat)"
    using assms(4) by (rule of_int_le_iff [THEN iffD2])
  then have "2 * ((of_int d + 1) * of_nat (length ps + 8)) \<le> (2 ^ 53 :: rat)" by simp
  with n le show "pro_rata d a b ps p - 1 \<le> x" "x \<le> pro_rata d a b ps p + 1"
    by (rule absolute_error)+
qed

text \<open>The total of the truncated shares never exceeds what is distributed.\<close>

lemma shares_total:
  fixes ps :: "yield_position list"
  assumes "list_all (\<lambda>p. 0 \<le> yp_collateral p) ps" "0 \<le> d"
    and "2 * ((d + 1) * (int (length ps) + 8)) \<le> 2 ^ 53"
    and t: "t = sum_weights (map (position_weight a b) ps)" "t \<noteq> 0"
  shows "sum_list (map (\<lambda>p. share_amount d (position_weight a b p) t) ps) \<le> d"
    and "d - 2 * int (length ps) \<le> sum_list (map (\<lambda>p. share_amount d (position_weight a b p) t) ps)"
proof -
  define x where "x p = fl (fl (of_int d) * fl (position_weight a b p / t))" for p
  let ?n = "length ps + 8"
  have x: "share_amount d (position_weight a b p) t = \<lfloor>x p\<rfloor>" "near ?n (x p) (pro_rata d a b ps p)"
    "pro_rata d a b ps p - 1 \<le> x p" if "p \<in> set ps" for p
    using share_amount_fair [OF assms(1) that assms(2,3) t] by (simp_all add: x_def)
  have "near 3 (sum_list (map (position_weight a b) ps)) (sum_list (map (exact_weight a b) ps))"
    using assms(1) by (intro near_sum) (auto simp: list_all2_conv_all_nth list_all_length intro: near_position_weight)
  moreover have "near (length (map (position_weight a b) ps)) t (sum_list (map (position_weight a b) ps))"
    unfolding t(1) using assms(1) near_position_weight by (intro near_sum_weights) (auto simp: list_all_iff near_def)
  ultimately have W: "sum_list (map (exact_weight a b) ps) \<noteq> 0"
    using t(2) near_pos by (metis less_le near_def)
  have "near ?n (sum_list (map x ps)) (sum_list (map (pro_rata d a b ps) ps))"
    by (rule near_sum) (simp add: list_all2_conv_all_nth x)
  then have n: "near ?n (sum_list (map x ps)) (of_int d)" by (simp add: sum_pro_rata [OF W])
  have s: "(\<Sum>p\<leftarrow>ps. share_amount d (position_weight a b p) t) = (\<Sum>p\<leftarrow>ps. \<lfloor>x p\<rfloor>)"
    by (rule arg_cong [of _ _ sum_list]) (simp add: x(1))
  have "(of_int (\<Sum>p\<leftarrow>qs. \<lfloor>x p\<rfloor>) :: rat) \<le> sum_list (map x qs)" for qs
    by (induction qs) (auto intro: add_mono)
  then have le: "(of_int (\<Sum>p\<leftarrow>ps. \<lfloor>x p\<rfloor>) :: rat) \<le> sum_list (map x ps)" .
  have "sum_list (map x ps) < of_int d + 1"
  proof (rule ccontr)
    let ?e = "of_nat ?n * unit_roundoff"
    assume "\<not> ?thesis"
    then have "of_int d + 1 \<le> sum_list (map x ps)" by simp
    then have "(of_int d + 1) * (1 - ?e) \<le> sum_list (map x ps) * (1 - unit_roundoff) ^ ?n"
      using roundoff_bernoulli [of ?n] roundoff_power(1) [of ?n] n assms(2)
      by (intro order_trans [OF mult_left_mono [of _ "(1 - unit_roundoff) ^ ?n"] mult_right_mono]) auto
    also have "\<dots> \<le> of_int d" using n by (simp add: near_def)
    finally have "1 \<le> (of_int d + 1) * ?e" by (simp add: algebra_simps)
    moreover have "of_int (2 * ((d + 1) * (int (length ps) + 8))) \<le> (of_int (2 ^ 53) :: rat)"
      using assms(3) by (rule of_int_le_iff [THEN iffD2])
    then have "2 * ((of_int d + 1) * ?e) \<le> 1" by (simp add: unit_roundoff_def field_simps)
    ultimately show False by linarith
  qed
  with le have "(of_int (\<Sum>p\<leftarrow>ps. \<lfloor>x p\<rfloor>) :: rat) < of_int (d + 1)" by simp
  then have "(\<Sum>p\<leftarrow>ps. \<lfloor>x p\<rfloor>) < d + 1" by (simp only: of_int_less_iff)
  then show "(\<Sum>p\<leftarrow>ps. share_amount d (position_weight a b p) t) \<le> d" by (simp add: s)
  have "sum_list (map (pro_rata d a b ps) qs) - 2 * of_nat (length qs) \<le> (of_int (\<Sum>p\<leftarrow>qs. \<lfloor>x p\<rfloor>) :: rat)"
    if "set qs \<subseteq> set ps" for qs
    using that
  proof (induction qs)
    case (Cons q qs)
    then have "pro_rata d a b ps q - 1 \<le> x q" using x(3) by simp
    then have "pro_rata d a b ps q - 2 \<le> of_int \<lfloor>x q\<rfloor>" by linarith
    with Cons show ?case by simp
  qed simp
  from this [of ps] have "(of_int (d - 2 * int (length ps)) :: rat) \<le> of_int (\<Sum>p\<leftarrow>ps. \<lfloor>x p\<rfloor>)"
    by (simp add: sum_pro_rata [OF W])
  then show "d - 2 * int (length ps) \<le> (\<Sum>p\<leftarrow>ps. share_amount d (position_weight a b p) t)"
    by (simp only: of_int_le_iff s)
qed

lemma allocate_sound:
  assumes "\<forall>p \<in> set rows. 0 \<le> yp_collateral p" and "0 \<le> d"
    and "2 * ((d + 1) * (int (length (active_positions ass a b rows)) + 8)) \<le> 2 ^ 53"
    and "allocate did a b ass d rows = (as, dust)" and "as \<noteq> []"
  shows "sum_list (map ya_amount as) = d \<and> 0 \<le> dust \<and>
    dust \<le> 2 * int (length (active_positions ass a b rows)) \<and>
    subseq (map ya_position as) (map yp_id (active_positions ass a b rows)) \<and>
    (\<forall>i < length as. fair_share d a b (active_positions ass a b rows) (if i = 0 then dust else 0) (as ! i))"
proof -
  define ps where "ps = active_positions ass a b rows"
  define ws where "ws = map (\<lambda>p. (p, position_weight a b p)) ps"
  define t where "t = sum_weights (map (position_weight a b) ps)"
  obtain xs n where xs: "alloc_loop did ass d t ws = (xs, n)" by fastforce
  have c: "list_all (\<lambda>p. 0 \<le> yp_collateral p) ps"
    using assms(1) by (auto simp: ps_def list_all_iff active_positions_def query_positions_def)
  have ts: "sum_weights (map snd ws) = t" by (simp add: ws_def t_def comp_def)
  have r: "as = add_dust dust xs" "dust = d - n" "t \<noteq> 0"
    using assms(4,5) by (auto simp: allocate_def Let_def xs ts simp flip: ps_def ws_def split: if_splits)
  note bounds = c assms(2) assms(3) [folded ps_def] t_def r(3)
  have n: "n = (\<Sum>p\<leftarrow>ps. share_amount d (position_weight a b p) t)"
    using alloc_loop_total [of did ass d t ws] xs by (simp add: ws_def comp_def)
  then have d: "n \<le> d" "d - 2 * int (length ps) \<le> n" using shares_total [OF bounds] by simp_all
  have "xs \<noteq> []" using r(1) assms(5) by auto
  then have total: "sum_list (map ya_amount as) = d"
    using alloc_loop_amounts [of did ass d t ws] d(1) r(2) by (simp add: r(1) add_dust_total xs)
  have sub: "subseq (map ya_position as) (map yp_id ps)"
    using alloc_loop_subseq [of did ass d t ws] xs by (simp add: r(1) ws_def comp_def)
  have fair: "fair_share d a b ps (if i = 0 then dust else 0) (as ! i)" if "i < length as" for i
  proof -
    have i: "i < length xs" using that by (simp add: r(1))
    then have "xs ! i \<in> set (fst (alloc_loop did ass d t ws))" by (simp add: xs)
    from alloc_loop_entry [OF this] obtain p where p: "p \<in> set ps"
      "xs ! i = new_allocation did ass p (share_amount d (position_weight a b p) t)"
      "share_amount d (position_weight a b p) t \<noteq> 0"
      by (auto simp: ws_def)
    note sf = share_amount_fair [OF c p(1) bounds(2-5)]
    have "0 < share_amount d (position_weight a b p) t" using p(3) sf(1,2) by (simp add: less_le)
    with sf d(1) r(2) p show ?thesis
      unfolding fair_share_def r(1) add_dust_nth [OF i] new_allocation_def
      by (intro bexI [OF _ p(1)]) (auto; linarith)
  qed
  show ?thesis using total d r(2) sub fair by (simp flip: ps_def)
qed


lemma alloc_loop_labels:
  "x \<in> set (fst (alloc_loop did ass d t ws)) \<Longrightarrow> ya_distribution x = did \<and> ya_asset x = ass"
  by (induction ws) (auto simp: Let_def new_allocation_def split: prod.splits if_splits)

lemma allocate_labels:
  assumes "allocate did a b ass d rows = (as, dust)" "x \<in> set as"
  shows "ya_distribution x = did \<and> ya_asset x = ass"
proof -
  have add: "\<forall>x \<in> set (add_dust n xs). ya_distribution x = did \<and> ya_asset x = ass"
    if "\<forall>x \<in> set xs. ya_distribution x = did \<and> ya_asset x = ass" for n xs
    using that by (cases xs) auto
  have "\<forall>x \<in> set (add_dust n (fst (alloc_loop did ass d t ws))). ya_distribution x = did \<and> ya_asset x = ass" for n t ws
    by (rule add) (auto dest: alloc_loop_labels)
  with assms show ?thesis by (auto simp: allocate_def Let_def split: if_splits prod.splits) (metis fst_conv)+
qed

definition demo_position :: "string \<Rightarrow> int \<Rightarrow> yield_position" where
  "demo_position i deposited = \<lparr>yp_id = i, yp_user = ''u'' @ i, yp_vault = 1, yp_asset = ''usdc'', yp_collateral = 1,
     yp_deposited = deposited, yp_settled = None, yp_block = 1, yp_tx = ''t'' @ i\<rparr>"

lemma demo_allocate:
  "allocate ''d'' 0 3000000 ''usdc'' 10 [demo_position ''a'' 2000000, demo_position ''b'' 1000000] =
   ([new_allocation ''d'' ''usdc'' (demo_position ''a'' 2000000) 4,
     new_allocation ''d'' ''usdc'' (demo_position ''b'' 1000000) 6], 1)"
  by code_simp


text \<open>
  Beyond 53 bits more than the harvest is allocated. A single position gets all of
  9007199254740995 wei, a hundredth of an ether; the share is exactly 1, but the product is rounded up to the
  next float, the remainder is negative, and no one takes the excess off again.
\<close>

lemma over_allocation:
  "allocate ''d'' 0 3000000 ''eth'' 9007199254740995 [(demo_position ''a'' 0)\<lparr>yp_asset := ''eth''\<rparr>] =
   ([new_allocation ''d'' ''eth'' (demo_position ''a'' 0) 9007199254740996], - 1)"
  by code_simp

text \<open>
  The remainder is assigned to the first allocation, which need not be the largest. Two
  positions share 10 as one to two; the first gets 4, the second 6.
\<close>

lemma dust_goes_to_first:
  "map ya_amount (fst (allocate ''d'' 0 3000000 ''usdc'' 10 [demo_position ''a'' 2000000, demo_position ''b'' 1000000])) = [4, 6]"
  by (simp add: demo_allocate new_allocation_def)

end
