(* ===== verification/Py_Tables.thy ===== *)
theory Py_Tables
  imports Py_Monad
begin

text \<open>
  Dictionaries and upserts: a Python dictionary as the list of its entries in insertion order, the
  loop that groups rows under a key, and the database's \<open>upsert\<close>, whose interface is the locale
  \<open>upsert_table\<close>.
\<close>

section \<open>Upserts\<close>

text \<open>\<open>upsert(row, on_conflict = key)\<close>: an existing row gets the given columns, the others stay.\<close>

definition tbl_upsert :: "('r \<Rightarrow> 'k) \<Rightarrow> ('r \<Rightarrow> 'r) \<Rightarrow> 'r \<Rightarrow> 'r list \<Rightarrow> 'r list" where
  "tbl_upsert key given new rows =
     (if list_ex (\<lambda>r. key r = key new) rows then tbl_update (\<lambda>r. key r = key new) given rows
      else rows @ [new])"

definition upsert_all :: "('r \<Rightarrow> 'k) \<Rightarrow> ('r \<Rightarrow> 'r \<Rightarrow> 'r) \<Rightarrow> 'r list \<Rightarrow> 'r list \<Rightarrow> 'r list" where
  "upsert_all key merge news rows = fold (\<lambda>new. tbl_upsert key (merge new) new) news rows"

lemma upsert_all_simps [simp]:
  "upsert_all key merge [] rows = rows"
  "upsert_all key merge (new # news) rows = upsert_all key merge news (tbl_upsert key (merge new) new rows)"
  by (simp_all add: upsert_all_def)

locale upsert_table =
  fixes key :: "'r \<Rightarrow> 'k" and merge :: "'r \<Rightarrow> 'r \<Rightarrow> 'r"
  assumes key_merge: "key old = key new \<Longrightarrow> key (merge new old) = key new"
begin

lemma keys_upsert:
  "map key (tbl_upsert key (merge new) new rows) =
   (if key new \<in> key ` set rows then map key rows else map key rows @ [key new])"
proof -
  have "map key (tbl_update (\<lambda>r. key r = key new) (merge new) rows) = map key rows" for rows
    by (induction rows) (auto simp: key_merge)
  moreover have "list_ex (\<lambda>r. key r = key new) rows \<longleftrightarrow> key new \<in> key ` set rows"
    by (auto simp: list_ex_iff intro: rev_image_eqI)
  ultimately show ?thesis by (simp add: tbl_upsert_def)
qed

lemma distinct_upsert: "distinct (map key rows) \<Longrightarrow> distinct (map key (tbl_upsert key (merge new) new rows))"
  by (auto simp: keys_upsert)

lemma distinct_upsert_all: "distinct (map key rows) \<Longrightarrow> distinct (map key (upsert_all key merge news rows))"
  by (induction news arbitrary: rows) (simp_all add: distinct_upsert)

lemma keys_upsert_all: "key ` set (upsert_all key merge news rows) = key ` set news \<union> key ` set rows"
proof (induction news arbitrary: rows)
  case (Cons new news)
  have "key ` set (tbl_upsert key (merge new) new rows) = insert (key new) (key ` set rows)"
    using keys_upsert [of new rows] by (metis (no_types, lifting) insert_absorb insert_is_Un list.set_map
        list.simps(15) set_append sup_commute empty_set)
  with Cons show ?case by auto
qed simp

lemma in_upsertE:
  assumes "r \<in> set (tbl_upsert key (merge new) new rows)"
  obtains "r \<in> set rows" | "r = new" "key new \<notin> key ` set rows"
    | old where "old \<in> set rows" "key old = key new" "r = merge new old"
  using assms by (auto simp: tbl_upsert_def set_tbl_update list_ex_iff image_iff split: if_splits) (metis that(2) imageE)+

lemma others_upsert: "key new \<noteq> k \<Longrightarrow> filter (\<lambda>r. key r = k) (tbl_upsert key (merge new) new rows) = filter (\<lambda>r. key r = k) rows"
proof -
  assume k: "key new \<noteq> k"
  then have "filter (\<lambda>r. key r = k) (tbl_update (\<lambda>r. key r = key new) (merge new) rows) = filter (\<lambda>r. key r = k) rows"
    by (induction rows) (auto simp: key_merge)
  with k show ?thesis by (simp add: tbl_upsert_def)
qed

lemma in_upsert_all: "r \<in> set (upsert_all key merge news rows) \<Longrightarrow> r \<in> set rows \<or> (\<exists>n\<in>set news. r = n \<or> (\<exists>old. r = merge n old))"
proof (induction news arbitrary: rows)
  case (Cons new news)
  from Cons.prems have "r \<in> set (upsert_all key merge news (tbl_upsert key (merge new) new rows))" by simp
  from Cons.IH [OF this] show ?case by (auto elim: in_upsertE)
qed simp

lemma filter_upsert_all:
  "(\<And>n. n \<in> set news \<Longrightarrow> \<not> P (key n)) \<Longrightarrow> filter (\<lambda>r. P (key r)) (upsert_all key merge news rows) = filter (\<lambda>r. P (key r)) rows"
proof (induction news arbitrary: rows)
  case (Cons new news)
  then have n: "\<not> P (key new)" by simp
  then have "filter (\<lambda>r. P (key r)) (tbl_update (\<lambda>r. key r = key new) (merge new) rows) = filter (\<lambda>r. P (key r)) rows" for rows
    by (induction rows) (auto simp: key_merge)
  with n have "filter (\<lambda>r. P (key r)) (tbl_upsert key (merge new) new rows) = filter (\<lambda>r. P (key r)) rows"
    by (simp add: tbl_upsert_def)
  with Cons show ?case by simp
qed simp

lemma upserted_present:
  assumes "distinct (map key news)" "n \<in> set news"
  shows "\<exists>r \<in> set (upsert_all key merge news rows). r = n \<or> (\<exists>old. key old = key n \<and> r = merge n old)"
  using assms
proof (induction news arbitrary: rows)
  case (Cons new news)
  show ?case
  proof (cases "n = new")
    case True
    let ?up = "tbl_upsert key (merge new) new rows"
    have "filter (\<lambda>r. key r = key n) (upsert_all key merge news ?up) = filter (\<lambda>r. key r = key n) ?up"
      using Cons.prems(1) True by (intro filter_upsert_all) (fastforce simp: image_iff)
    then have sub: "{r \<in> set ?up. key r = key n} \<subseteq> set (upsert_all key merge news ?up)"
      by (metis filter_is_subset set_filter)
    have "\<exists>r \<in> set ?up. key r = key n \<and> (r = n \<or> (\<exists>old. key old = key n \<and> r = merge n old))"
    proof (cases "list_ex (\<lambda>r. key r = key new) rows")
      case True
      then obtain old where old: "old \<in> set rows" "key old = key new" by (auto simp: list_ex_iff)
      then have "merge new old \<in> set ?up" using True by (force simp: tbl_upsert_def set_tbl_update)
      with old \<open>n = new\<close> show ?thesis by (intro bexI [of _ "merge new old"]) (auto simp: key_merge)
    qed (use True in \<open>auto simp: tbl_upsert_def\<close>)
    with sub True show ?thesis by auto
  next
    case False
    with Cons show ?thesis by simp
  qed
qed simp

end

section \<open>Dictionaries\<close>

fun dict_put :: "'k \<Rightarrow> 'v \<Rightarrow> ('k \<times> 'v) list \<Rightarrow> ('k \<times> 'v) list" where
  "dict_put k v [] = [(k, v)]"
| "dict_put k v ((k', v') # d) = (if k = k' then (k, v) # d else (k', v') # dict_put k v d)"

lemma map_of_dict_put [simp]: "map_of (dict_put k v d) = (map_of d)(k \<mapsto> v)"
  by (induction d) (auto simp: fun_eq_iff)

lemma keys_dict_put: "map fst (dict_put k v d) = (if k \<in> fst ` set d then map fst d else map fst d @ [k])"
proof (induction d)
  case (Cons e d)
  then show ?case by (cases e) (auto simp del: set_map)
qed simp

lemma set_keys_dict_put: "fst ` set (dict_put k v d) = insert k (fst ` set d)"
  using keys_dict_put [of k v d] by (metis (no_types, lifting) Un_insert_right empty_set insert_absorb
      list.set_map list.simps(15) set_append sup_bot.right_neutral)

lemma distinct_dict_put: "distinct (map fst d) \<Longrightarrow> distinct (map fst (dict_put k v d))"
  by (auto simp: keys_dict_put)

text \<open>
  \<open>for x in xs: if key(x) not in d: d[key(x)] = init(x); d[key(x)] = step(d[key(x)], x)\<close>
\<close>

definition group_step :: "('a \<Rightarrow> 'k) \<Rightarrow> ('a \<Rightarrow> 'v) \<Rightarrow> ('v \<Rightarrow> 'a \<Rightarrow> 'v) \<Rightarrow> 'a \<Rightarrow> ('k \<times> 'v) list \<Rightarrow> ('k \<times> 'v) list" where
  "group_step key init step x d =
     dict_put (key x) (step (case map_of d (key x) of None \<Rightarrow> init x | Some v \<Rightarrow> v) x) d"

definition group_rows :: "('a \<Rightarrow> 'k) \<Rightarrow> ('a \<Rightarrow> 'v) \<Rightarrow> ('v \<Rightarrow> 'a \<Rightarrow> 'v) \<Rightarrow> 'a list \<Rightarrow> ('k \<times> 'v) list" where
  "group_rows key init step xs = fold (group_step key init step) xs []"

lemma group_rows_snoc: "group_rows key init step (xs @ [x]) = group_step key init step x (group_rows key init step xs)"
  by (simp add: group_rows_def)

lemma group_rows_Nil [simp]: "group_rows key init step [] = []"
  by (simp add: group_rows_def)

text \<open>A group folds the rows that have its key, in their order, from the initial value of the first.\<close>

lemma map_of_group_rows:
  "map_of (group_rows key init step xs) k =
   (case filter (\<lambda>x. key x = k) xs of [] \<Rightarrow> None | y # ys \<Rightarrow> Some (foldl step (init y) (y # ys)))"
proof (induction xs rule: rev_induct)
  case (snoc x xs)
  then show ?case
    by (cases "filter (\<lambda>x. key x = k) xs") (auto simp: group_rows_snoc group_step_def)
qed simp

lemma keys_group_rows: "fst ` set (group_rows key init step xs) = key ` set xs"
proof (induction xs rule: rev_induct)
  case (snoc x xs)
  have "fst ` set (group_rows key init step (xs @ [x])) = insert (key x) (fst ` set (group_rows key init step xs))"
    unfolding group_rows_snoc group_step_def by (rule set_keys_dict_put)
  with snoc show ?case by simp
qed simp

lemma distinct_group_rows: "distinct (map fst (group_rows key init step xs))"
  by (induction xs rule: rev_induct) (simp_all add: group_rows_snoc group_step_def distinct_dict_put)

lemma group_rows_entry:
  assumes "(k, v) \<in> set (group_rows key init step xs)"
  obtains y ys where "filter (\<lambda>x. key x = k) xs = y # ys" "v = foldl step (init y) (y # ys)"
proof -
  from assms distinct_group_rows [of key init step xs] have "map_of (group_rows key init step xs) k = Some v" by simp
  then show thesis using that by (auto simp: map_of_group_rows split: list.splits)
qed

text \<open>The groups split the rows: a sum over the groups of sums over their rows is the sum over the rows.\<close>

lemma sum_groups:
  fixes f :: "'a \<Rightarrow> 'n :: comm_monoid_add"
  shows "(\<Sum>k \<in> key ` set xs. sum_list (map f (filter (\<lambda>x. key x = k) xs))) = sum_list (map f xs)"
proof (induction xs)
  case (Cons x xs)
  let ?S = "\<lambda>xs k. sum_list (map f (filter (\<lambda>x. key x = k) xs))"
  have "(\<Sum>k \<in> key ` set (x # xs). ?S (x # xs) k) = (\<Sum>k \<in> insert (key x) (key ` set xs). (if k = key x then f x else 0) + ?S xs k)"
    by (rule sum.cong) auto
  also have "\<dots> = f x + (\<Sum>k \<in> insert (key x) (key ` set xs). ?S xs k)"
    by (simp add: sum.distrib)
  also have "(\<Sum>k \<in> insert (key x) (key ` set xs). ?S xs k) = (\<Sum>k \<in> key ` set xs. ?S xs k)"
  proof (cases "key x \<in> key ` set xs")
    case False
    then have "filter (\<lambda>y. key y = key x) xs = []" by (auto simp: filter_empty_conv intro: rev_image_eqI)
    with False show ?thesis by simp
  qed (simp add: insert_absorb)
  finally show ?case using Cons by simp
qed simp

lemma sum_group_values:
  fixes f :: "'a \<Rightarrow> 'n :: comm_monoid_add" and g :: "'v \<Rightarrow> 'n"
  assumes "\<And>k v. (k, v) \<in> set (group_rows key init step xs) \<Longrightarrow> g v = sum_list (map f (filter (\<lambda>x. key x = k) xs))"
  shows "sum_list (map (\<lambda>(k, v). g v) (group_rows key init step xs)) = sum_list (map f xs)"
proof -
  let ?d = "group_rows key init step xs"
  have "sum_list (map (\<lambda>(k, v). g v) ?d) = sum_list (map ((\<lambda>k. sum_list (map f (filter (\<lambda>x. key x = k) xs))) \<circ> fst) ?d)"
    by (rule arg_cong [where f = sum_list]) (auto simp: assms)
  also have "\<dots> = (\<Sum>k \<in> fst ` set ?d. sum_list (map f (filter (\<lambda>x. key x = k) xs)))"
    using sum_list_distinct_conv_sum_set [OF distinct_group_rows [of key init step xs]] by simp
  finally show ?thesis by (simp add: keys_group_rows sum_groups)
qed

end
