(* ===== verification/Yield_Indexer.thy ===== *)
theory Yield_Indexer
  imports Yield_World Py_Tables "HOL-Library.Product_Lexorder" "HOL-Library.Sublist"
begin

text \<open>
  \<open>src/bots/yield_indexer.py\<close>: the handlers of the three events, the catch-up over block ranges,
  one poll of the endless loop and one message of the subscription. The catch-up carries fuel;
  the number of blocks is enough.
\<close>

section \<open>Cursor, time and assets\<close>

definition BLOCK_RANGE :: int where "BLOCK_RANGE = 2000"
definition CONFIRMATION_BLOCKS :: int where "CONFIRMATION_BLOCKS = 2"
definition RESCAN_BLOCKS :: int where "RESCAN_BLOCKS = 50"
definition MAX_RECONNECT_DELAY :: int where "MAX_RECONNECT_DELAY = 60"

definition get_last_yield_block :: "yield_env \<Rightarrow> int ypy" where
  "get_last_yield_block env =
     thenE (ycall env ReadState) (getsE (\<lambda>w. case yw_last_block w of None \<Rightarrow> 0 | Some b \<Rightarrow> b))"

definition set_last_yield_block :: "yield_env \<Rightarrow> int \<Rightarrow> unit ypy" where
  "set_last_yield_block env b =
     thenE (ycall env WriteState) (modifyE (\<lambda>w. w\<lparr>yw_last_block := Some b\<rparr>))"

definition block_timestamp :: "yield_env \<Rightarrow> int \<Rightarrow> int ypy" where
  "block_timestamp env n = bindE (int_call env (BlockTimestamp n)) (\<lambda>t. ret (t * 1000000))"

definition asset_address_to_symbol :: "yield_settings \<Rightarrow> string \<Rightarrow> string" where
  "asset_address_to_symbol s addr =
     (let normalized = lower addr in
      if normalized = lower (usdc_address s) then ''usdc''
      else if normalized = lower (weth_address s) then ''eth''
      else if normalized = lower (wbtc_address s) then ''btc''
      else normalized)"

section \<open>Events\<close>

definition position_key :: "yield_position \<Rightarrow> string \<times> int \<times> string \<times> string" where
  "position_key p = (yp_user p, yp_vault p, yp_asset p, yp_tx p)"

definition process_collateral_deposited :: "yield_env \<Rightarrow> yield_log \<Rightarrow> string \<Rightarrow> int \<Rightarrow> string \<Rightarrow> int \<Rightarrow> unit ypy" where
  "process_collateral_deposited env l owner vault asset_addr amount =
     thenE (ycall env DecodeLog)
     (bindE (block_timestamp env (yl_block l)) (\<lambda>deposited_at.
      thenE (ycall env UpsertPosition)
      (bindE (getsE (\<lambda>w. ye_new_id env (calls w) 0)) (\<lambda>i.
         let new = \<lparr>yp_id = i, yp_user = lower owner, yp_vault = vault,
               yp_asset = asset_address_to_symbol (ye_settings env) asset_addr, yp_collateral = amount,
               yp_deposited = deposited_at, yp_settled = None, yp_block = yl_block l, yp_tx = yl_tx l\<rparr>
         in set_positions (tbl_upsert position_key
              (\<lambda>r. r\<lparr>yp_collateral := amount, yp_deposited := deposited_at, yp_block := yl_block l\<rparr>) new)))))"

definition process_vault_settled :: "yield_env \<Rightarrow> yield_log \<Rightarrow> string \<Rightarrow> int \<Rightarrow> unit ypy" where
  "process_vault_settled env l owner vault =
     thenE (ycall env DecodeLog)
     (bindE (block_timestamp env (yl_block l)) (\<lambda>settled_at.
      thenE (ycall env UpdatePosition)
        (set_positions (tbl_update (\<lambda>r. yp_user r = lower owner \<and> yp_vault r = vault \<and> yp_settled r = None)
           (\<lambda>r. r\<lparr>yp_settled := Some settled_at\<rparr>)))))"

definition process_yield_harvested :: "yield_env \<Rightarrow> yield_log \<Rightarrow> string \<Rightarrow> int \<Rightarrow> unit ypy" where
  "process_yield_harvested env l asset_addr yield_amount =
     thenE (ycall env DecodeLog)
     (bindE (block_timestamp env (yl_block l)) (\<lambda>harvested_at.
      thenE (ycall env UpsertDistribution)
      (bindE (getsE (\<lambda>w. ye_new_id env (calls w) 0)) (\<lambda>i.
         let ass = asset_address_to_symbol (ye_settings env) asset_addr;
             new = \<lparr>yd_id = i, yd_tx = yl_tx l, yd_asset = ass, yd_total = yield_amount, yd_fee = 0,
               yd_start = harvested_at, yd_end = harvested_at\<rparr>
         in set_distributions (tbl_upsert yd_tx
              (\<lambda>r. r\<lparr>yd_asset := ass, yd_total := yield_amount, yd_start := harvested_at, yd_end := harvested_at\<rparr>) new)))))"

definition process_yield_log :: "yield_env \<Rightarrow> yield_log \<Rightarrow> unit ypy" where
  "process_yield_log env l =
     (case yl_event l of
        CollateralDeposited owner vault ass amount \<Rightarrow> process_collateral_deposited env l owner vault ass amount
      | VaultSettled owner vault returned \<Rightarrow> process_vault_settled env l owner vault
      | YieldHarvested ass recipient amount \<Rightarrow> process_yield_harvested env l ass amount
      | OtherTopic \<Rightarrow> ret ())"

section \<open>Ranges of blocks\<close>

definition log_key :: "yield_log \<Rightarrow> int \<times> int" where
  "log_key l = (yl_block l, yl_index l)"

definition get_logs :: "yield_env \<Rightarrow> yield_call \<Rightarrow> yield_log list ypy" where
  "get_logs env c = thenE (ycall env c) (getsE (\<lambda>w. ye_logs env (calls w)))"

definition fetch_and_process_logs :: "yield_env \<Rightarrow> int \<Rightarrow> int \<Rightarrow> nat ypy" where
  "fetch_and_process_logs env from_block to_block =
     bindE (get_logs env (ControllerLogs from_block to_block)) (\<lambda>controller_logs.
     bindE (get_logs env (PoolLogs from_block to_block)) (\<lambda>pool_logs.
       let all_logs = sort_key log_key (controller_logs @ pool_logs) in
       thenE (for_each (\<lambda>l. catchE (process_yield_log env l) (\<lambda>_. ret ())) all_logs)
         (ret (length all_logs))))"

fun catchup :: "nat \<Rightarrow> yield_env \<Rightarrow> int \<Rightarrow> int \<Rightarrow> unit ypy" where
  "catchup fuel env start current =
     (if start \<le> current then
        (let end_block = min (start + BLOCK_RANGE - 1) current in
         thenE (bindE (fetch_and_process_logs env start end_block) (\<lambda>_. set_last_yield_block env end_block))
           (case fuel of 0 \<Rightarrow> raise NoReturn | Suc n \<Rightarrow> catchup n env (end_block + 1) current))
      else ret ())"

declare catchup.simps [simp del]

text \<open>The start of \<open>run\<close>: \<open>None\<close> when the indexer is not configured, the last caught-up block otherwise.\<close>

definition catchup_start :: "int \<Rightarrow> int \<Rightarrow> int" where
  "catchup_start last_block current = (if 0 < last_block then max (last_block - RESCAN_BLOCKS) 0 else current - RESCAN_BLOCKS)"

definition run_catchup :: "yield_env \<Rightarrow> int option ypy" where
  "run_catchup env =
     (if controller_address (ye_settings env) = [] \<or> margin_pool_address (ye_settings env) = [] then ret None
      else
        bindE (get_last_yield_block env) (\<lambda>last_block.
        bindE (int_call env BlockNumber) (\<lambda>number.
          let current = number - CONFIRMATION_BLOCKS; start = catchup_start last_block current in
          thenE (catchup (nat (current - start + 1)) env start current) (ret (Some current)))))"

text \<open>One turn of the poll loop, and one message of the subscription.\<close>

definition poll_turn :: "yield_env \<Rightarrow> int \<Rightarrow> int ypy" where
  "poll_turn env current =
     thenE (ycall env (YSleep (yield_poll_interval (ye_settings env))))
     (catchE
        (bindE (int_call env BlockNumber) (\<lambda>number.
           let new_block = number - CONFIRMATION_BLOCKS in
           if current < new_block then
             thenE (fetch_and_process_logs env (current + 1) new_block)
             (thenE (set_last_yield_block env new_block) (ret new_block))
           else ret current))
        (\<lambda>_. ret current))"

definition wss_message :: "yield_env \<Rightarrow> yield_log \<Rightarrow> unit ypy" where
  "wss_message env l =
     catchE (thenE (process_yield_log env l) (set_last_yield_block env (yl_block l))) (\<lambda>_. ret ())"

definition next_delay :: "int \<Rightarrow> int" where
  "next_delay delay = min (delay * 2) MAX_RECONNECT_DELAY"

section \<open>The catch-up covers every block\<close>

text \<open>The ranges requested from the controller, oldest first.\<close>

fun ranges :: "yield_call list \<Rightarrow> (int \<times> int) list" where
  "ranges [] = []"
| "ranges (c # cs) = (case c of ControllerLogs a b \<Rightarrow> ranges cs @ [(a, b)] | _ \<Rightarrow> ranges cs)"

definition blocks :: "(int \<times> int) list \<Rightarrow> int list" where
  "blocks rs = concat (map (\<lambda>(a, b). [a..b]) rs)"

lemma blocks_simps [simp]: "blocks [] = []" "blocks ((a, b) # rs) = [a..b] @ blocks rs" "blocks (rs @ ss) = blocks rs @ blocks ss"
  by (simp_all add: blocks_def)

text \<open>Processing logs requests no ranges and leaves the cursor alone.\<close>

definition same_cursor :: "yield_world \<Rightarrow> yield_world \<Rightarrow> bool" where
  "same_cursor w w' \<longleftrightarrow> ranges (calls w') = ranges (calls w) \<and> yw_last_block w' = yw_last_block w"

interpretation cursor: world_order same_cursor
  by unfold_locales (auto simp: same_cursor_def)

lemma cursor_call: "(\<And>a b. c \<noteq> ControllerLogs a b) \<Longrightarrow> grows same_cursor (ycall env c)"
  by (rule grows_perform) (auto simp: same_cursor_def split: yield_call.split)

lemma cursor_process_log: "grows same_cursor (process_yield_log env l)"
  unfolding process_yield_log_def process_collateral_deposited_def process_vault_settled_def
    process_yield_harvested_def block_timestamp_def int_call_def set_positions_def set_distributions_def Let_def
  by (auto split: yield_event.split intro!: cursor.rules cursor.grows_modify cursor_call simp: same_cursor_def)

lemma fetch_requests:
  "wp (fetch_and_process_logs env a b)
     (\<lambda>_ w'. ranges (calls w') = ranges (calls w) @ [(a, b)] \<and> yw_last_block w' = yw_last_block w)
     (\<lambda>_ w'. (\<exists>rs. ranges (calls w') = ranges (calls w) @ rs \<and> (rs = [] \<or> rs = [(a, b)])) \<and> yw_last_block w' = yw_last_block w) w"
proof -
  let ?w = "w\<lparr>calls := ControllerLogs a b # calls w\<rparr>"
  define rest where "rest xs = bindE (get_logs env (PoolLogs a b)) (\<lambda>pool_logs.
       let all_logs = sort_key log_key (xs @ pool_logs) in
       thenE (for_each (\<lambda>l. catchE (process_yield_log env l) (\<lambda>_. ret ())) all_logs) (ret (length all_logs)))" for xs
  have f: "fetch_and_process_logs env a b = bindE (get_logs env (ControllerLogs a b)) rest"
    by (simp add: fetch_and_process_logs_def rest_def [abs_def])
  have "grows same_cursor (rest xs)" for xs
    unfolding rest_def get_logs_def Let_def by (intro cursor.rules cursor_call cursor_process_log) simp_all
  then have g: "wp (rest xs) (\<lambda>_. same_cursor ?w) (\<lambda>_. same_cursor ?w) ?w" for xs
    by (rule cursor.wp_le) (rule cursor.le_refl)
  have "wp (rest xs) (\<lambda>_ w'. ranges (calls w') = ranges (calls w) @ [(a, b)] \<and> yw_last_block w' = yw_last_block w)
     (\<lambda>_ w'. (\<exists>rs. ranges (calls w') = ranges (calls w) @ rs \<and> (rs = [] \<or> rs = [(a, b)])) \<and> yw_last_block w' = yw_last_block w) ?w" for xs
    by (rule wp_mono [OF g]) (auto simp: same_cursor_def)
  then show ?thesis
    by (auto simp: f get_logs_def wps split: option.split)
qed

lemma fetch_error:
  "wp (fetch_and_process_logs env a b) (\<lambda>_ _. True) (\<lambda>_ _. \<exists>h. ye_fails env h \<noteq> None) w"
proof (cases "\<exists>h. ye_fails env h \<noteq> None")
  case True
  then show ?thesis by (simp add: wp_def split: prod.split sum.split)
next
  case False
  then have n: "ye_fails env h = None" for h by simp
  have p: "wp (process_yield_log env l) (\<lambda>_ _. True) (\<lambda>_ _. False) w1" for l w1
    by (simp add: process_yield_log_def process_collateral_deposited_def process_vault_settled_def
        process_yield_harvested_def block_timestamp_def wps n Let_def split: yield_event.split)
  have "wp (for_each (\<lambda>l. catchE (process_yield_log env l) (\<lambda>_. ret ())) xs) (\<lambda>_ _. True) (\<lambda>_ _. False) w1" for xs w1
    by (rule wp_for_each [where I = "\<lambda>_. True"]) (simp_all add: wp_catch, rule wp_mono [OF p], auto)
  then show ?thesis
    by (simp add: fetch_and_process_logs_def get_logs_def wps n)
qed

lemma upto_append: "a \<le> e + 1 \<Longrightarrow> e \<le> f \<Longrightarrow> [a..e] @ [e + 1..f] = [a..f]"
  using upto_split1 [of a "e + 1" f] by (cases "e = f") auto

text \<open>
  \<open>requested a rs\<close>: the ranges follow each other from \<open>a\<close> on, at most 2000 blocks each.
\<close>

fun requested :: "int \<Rightarrow> (int \<times> int) list \<Rightarrow> bool" where
  "requested a [] = True"
| "requested a ((b, e) # rs) = (b = a \<and> e < a + BLOCK_RANGE \<and> requested (e + 1) rs)"

lemma catchup_progress:
  assumes "current - start < int fuel"
  shows "wp (catchup fuel env start current)
    (\<lambda>_ w'. \<exists>rs. ranges (calls w') = ranges (calls w) @ rs \<and> requested start rs \<and> blocks rs = [start..current] \<and>
       yw_last_block w' = (if start \<le> current then Some current else yw_last_block w))
    (\<lambda>_ w'. (\<exists>h. ye_fails env h \<noteq> None) \<and> (\<exists>rs. ranges (calls w') = ranges (calls w) @ rs \<and> requested start rs \<and>
       (yw_last_block w' = yw_last_block w \<or>
        (\<exists>e. start \<le> e \<and> e \<le> current \<and> yw_last_block w' = Some e \<and> prefix [start..e] (blocks rs))))) w"
    (is "wp _ (?Q start w) (?E start w) w")
  using assms
proof (induction fuel arbitrary: start w)
  case 0
  then show ?case by (simp add: catchup.simps [of 0] wps)
next
  case (Suc fuel)
  show ?case
  proof (cases "start \<le> current")
    case False
    with Suc.prems show ?thesis by (simp add: catchup.simps [of "Suc _"] wps)
  next
    case True
    define e where "e = min (start + BLOCK_RANGE - 1) current"
    have e: "start \<le> e" "e \<le> current" "e < start + BLOCK_RANGE" "current - (e + 1) < int fuel"
      using True Suc.prems by (auto simp: e_def BLOCK_RANGE_def)
    have next_range: "wp (catchup fuel env (e + 1) current) (?Q start w) (?E start w) v"
      if v: "ranges (calls v) = ranges (calls w) @ [(start, e)]" "yw_last_block v = Some e" for v
    proof (rule wp_mono [OF Suc.IH [of "e + 1" v]])
      fix x w' assume "?Q (e + 1) v x w'"
      then obtain rs where "ranges (calls w') = ranges (calls v) @ rs" "requested (e + 1) rs" "blocks rs = [e + 1..current]"
        "yw_last_block w' = (if e + 1 \<le> current then Some current else yw_last_block v)" by blast
      with v e show "?Q start w x w'"
        by (intro exI [of _ "(start, e) # rs"]) (auto simp: upto_append)
    next
      fix x w' assume "?E (e + 1) v x w'"
      then obtain rs where h: "\<exists>h. ye_fails env h \<noteq> None" and rs: "ranges (calls w') = ranges (calls v) @ rs" "requested (e + 1) rs"
        "yw_last_block w' = yw_last_block v \<or> (\<exists>f. e + 1 \<le> f \<and> f \<le> current \<and> yw_last_block w' = Some f \<and> prefix [e + 1..f] (blocks rs))"
        by blast
      have "\<exists>f. start \<le> f \<and> f \<le> current \<and> yw_last_block w' = Some f \<and> prefix [start..f] (blocks ((start, e) # rs))"
        using rs(3)
      proof
        assume "yw_last_block w' = yw_last_block v"
        with v e show ?thesis by (auto simp: blocks_def intro!: exI [of _ e])
      next
        assume "\<exists>f. e + 1 \<le> f \<and> f \<le> current \<and> yw_last_block w' = Some f \<and> prefix [e + 1..f] (blocks rs)"
        then obtain f where f: "e + 1 \<le> f" "f \<le> current" "yw_last_block w' = Some f" "prefix [e + 1..f] (blocks rs)" by blast
        have "[start..f] = [start..e] @ [e + 1..f]" using e(1) f(1) by (simp add: upto_append)
        with e f show ?thesis by (intro exI [of _ f]) (simp add: blocks_def)
      qed
      with h rs v e show "?E start w x w'" by (intro conjI exI [of _ "(start, e) # rs"]) auto
    qed (use e Suc.prems in auto)
    have "wp (fetch_and_process_logs env start e)
       (\<lambda>_ v. (ranges (calls v) = ranges (calls w) @ [(start, e)] \<and> yw_last_block v = yw_last_block w) \<and> True)
       (\<lambda>_ v. ((\<exists>rs. ranges (calls v) = ranges (calls w) @ rs \<and> (rs = [] \<or> rs = [(start, e)])) \<and> yw_last_block v = yw_last_block w) \<and>
          (\<exists>h. ye_fails env h \<noteq> None)) w"
      by (rule wp_conj [OF fetch_requests fetch_error])
    then show ?thesis
      using True next_range e
      by (auto simp: catchup.simps [of "Suc _"] Let_def set_last_yield_block_def wps simp flip: e_def
          split: option.split elim!: wp_mono) (rule exI, rule exI, assumption)
  qed
qed



definition demo_yield_settings :: yield_settings where
  "demo_yield_settings = \<lparr>usdc_address = ''0xA'', weth_address = ''0xB'', wbtc_address = ''0xC'', treasury_address = ''0xT'',
     protocol_fee_bps = 400, controller_address = ''0xD'', margin_pool_address = ''0xE'', yield_wss_url = [], yield_poll_interval = 30\<rparr>"

definition demo_deposit :: yield_log where
  "demo_deposit = \<lparr>yl_event = CollateralDeposited ''0xU'' 1 ''0xA'' 1000, yl_block = 90, yl_index = 0, yl_tx = ''t1''\<rparr>"

text \<open>A chain at block 102 with one deposit; statements in \<open>bad\<close> fail.\<close>

definition demo_yield_env :: "yield_call set \<Rightarrow> yield_env" where
  "demo_yield_env bad = \<lparr>ye_fails = (\<lambda>h. if hd h \<in> bad then Some (OtherError ''down'') else None),
     ye_settings = demo_yield_settings, ye_no_data = (\<lambda>h. False), ye_new_id = (\<lambda>h n. ''id''), ye_int = (\<lambda>h. 102),
     ye_tx = (\<lambda>h. ''0xtx''), ye_receipt = (\<lambda>h. [Some 102]), ye_checksum = Inr,
     ye_logs = (\<lambda>h. if hd h = ControllerLogs 50 100 then [demo_deposit] else [])\<rparr>"

definition empty_yield_world :: yield_world where
  "empty_yield_world = \<lparr>calls = [], yw_positions = [], yw_distributions = [], yw_allocations = [], yw_last_block = None\<rparr>"


section \<open>Logs that cannot be stored are lost\<close>

definition inserts_fail :: "yield_env \<Rightarrow> bool" where
  "inserts_fail env \<longleftrightarrow>
     (\<forall>h. ye_fails env (UpsertPosition # h) \<noteq> None \<and> ye_fails env (UpsertPosition # h) \<noteq> Some NoReturn) \<and>
     (\<forall>c h. c \<noteq> UpsertPosition \<longrightarrow> ye_fails env (c # h) = None)"

lemma inserts_failD:
  assumes "inserts_fail env"
  shows "c \<noteq> UpsertPosition \<Longrightarrow> ye_fails env (c # h) = None"
    and "\<exists>e. ye_fails env (UpsertPosition # h) = Some e \<and> e \<noteq> NoReturn"
  using assms by (auto simp: inserts_fail_def)

definition ids_are :: "string list \<Rightarrow> yield_world \<Rightarrow> bool" where
  "ids_are ids w \<longleftrightarrow> map yp_id (yw_positions w) = ids"

lemma ids_are_simps [simp]:
  "ids_are ids (w\<lparr>calls := cs\<rparr>) = ids_are ids w"
  "ids_are ids (w\<lparr>yw_last_block := b\<rparr>) = ids_are ids w"
  by (simp_all add: ids_are_def)

lemma ids_log:
  assumes "inserts_fail env" "ids_are ids w"
  shows "wp (process_yield_log env l) (\<lambda>_. ids_are ids) (\<lambda>e w'. e \<noteq> NoReturn \<and> ids_are ids w') w"
proof -
  have u: "map yp_id (tbl_update P (yp_settled_update f) rows) = map yp_id rows" for P f rows
    by (induction rows) auto
  show ?thesis
    using assms inserts_failD(2) [OF assms(1), of "BlockTimestamp (yl_block l) # DecodeLog # calls w"]
    by (auto simp: process_yield_log_def process_collateral_deposited_def process_vault_settled_def process_yield_harvested_def
        block_timestamp_def wps inserts_failD(1) Let_def ids_are_def u split: yield_event.split option.split)
qed

lemma ids_fetch:
  assumes "inserts_fail env" "ids_are ids w"
  shows "wp (fetch_and_process_logs env a b) (\<lambda>_. ids_are ids) (\<lambda>_ _. False) w"
proof -
  have "wp (for_each (\<lambda>l. catchE (process_yield_log env l) (\<lambda>_. ret ())) xs) (\<lambda>_. ids_are ids) (\<lambda>_ _. False) w1"
    if "ids_are ids w1" for xs w1
    using that by (rule wp_for_each) (auto simp: wp_catch wp_ret intro: wp_mono [OF ids_log [OF assms(1)]])
  with assms show ?thesis
    by (simp add: fetch_and_process_logs_def get_logs_def wps inserts_failD(1) Let_def)
qed

lemma ids_catchup:
  assumes "inserts_fail env"
  shows "ids_are ids w \<Longrightarrow> current - start < int fuel \<Longrightarrow> wp (catchup fuel env start current) (\<lambda>_. ids_are ids) (\<lambda>_ _. False) w"
proof (induction fuel arbitrary: start w)
  case 0
  then show ?case by (simp add: catchup.simps [of 0] wps)
next
  case (Suc fuel)
  have "wp (catchup fuel env (min (start + BLOCK_RANGE - 1) current + 1) current) (\<lambda>_. ids_are ids) (\<lambda>_ _. False) v"
    if "ids_are ids v" "start \<le> current" for v
    using that Suc.prems(2) by (intro Suc.IH) (auto simp: BLOCK_RANGE_def)
  then show ?case
    using Suc.prems assms
    by (auto simp: catchup.simps [of "Suc _"] Let_def set_last_yield_block_def wps inserts_failD(1)
        intro!: wp_mono [OF ids_fetch])
qed

text \<open>
  A deposit that cannot be stored is lost. While every insert into \<open>yield_positions\<close> fails and all other
  calls answer, the catch-up swallows the errors, stores no position, reports success, and leaves the cursor
  on the last block, so that the deposits will not be requested again beyond the 50 blocks of a restart.
\<close>

lemma failed_deposits_skipped:
  assumes "inserts_fail env"
    and "controller_address (ye_settings env) \<noteq> []" "margin_pool_address (ye_settings env) \<noteq> []"
    and "current = ye_int env (BlockNumber # ReadState # calls w) - CONFIRMATION_BLOCKS"
    and "catchup_start (case yw_last_block w of None \<Rightarrow> 0 | Some b \<Rightarrow> b) current \<le> current"
  shows "wp (run_catchup env)
    (\<lambda>r w'. r = Some current \<and> yw_last_block w' = Some current \<and> map yp_id (yw_positions w') = map yp_id (yw_positions w))
    (\<lambda>_ _. False) w"
proof -
  let ?w1 = "w\<lparr>calls := BlockNumber # ReadState # calls w\<rparr>"
  define start where "start = catchup_start (case yw_last_block w of None \<Rightarrow> 0 | Some b \<Rightarrow> b) current"
  have fuel: "current - start < int (nat (current - start + 1))" by simp
  have "ids_are (map yp_id (yw_positions w)) ?w1" by (simp add: ids_are_def)
  from wp_conj [OF catchup_progress [OF fuel] ids_catchup [OF assms(1) this fuel]]
  have "wp (catchup (nat (current - start + 1)) env start current)
      (\<lambda>_ w'. yw_last_block w' = Some current \<and> map yp_id (yw_positions w') = map yp_id (yw_positions w)) (\<lambda>_ _. False) ?w1"
    by (rule wp_mono) (use assms(5) in \<open>auto simp: ids_are_def start_def\<close>)
  with assms(1-3) show ?thesis
    by (simp add: run_catchup_def get_last_yield_block_def wps Let_def inserts_failD(1) start_def flip: assms(4))
qed

lemma failed_deposits_skipped_witness:
  "\<exists>w'. run_catchup (demo_yield_env {UpsertPosition}) empty_yield_world = (Inr (Some 100), w') \<and>
     yw_last_block w' = Some 100 \<and> yw_positions w' = []"
proof -
  have "inserts_fail (demo_yield_env {UpsertPosition})" by (simp add: inserts_fail_def demo_yield_env_def)
  from failed_deposits_skipped [OF this _ _ refl, of empty_yield_world]
  show ?thesis
    by (auto simp: demo_yield_env_def demo_yield_settings_def empty_yield_world_def catchup_start_def
        CONFIRMATION_BLOCKS_def RESCAN_BLOCKS_def wp_def split: prod.splits sum.splits)
qed

end
