(* ===== verification/Yield_Airdrop.thy ===== *)
theory Yield_Airdrop
  imports Yield_Calculator Yield_Indexer
begin

text \<open>
  \<open>src/bots/yield_airdrop.py\<close>: harvest, fee, allocation and distribution for each asset, and the
  summary of a run. Money leaves only by \<open>TokenTransfer\<close> calls; \<open>paid\<close> adds them up, failing
  attempts included, because a transfer that raises may have been sent.
\<close>

section \<open>Harvest, fee and transfers\<close>

text \<open>\<open>_ASSET_ADDRESSES.get(symbol)\<close>, \<open>None\<close> also for an empty address.\<close>

definition asset_address :: "yield_env \<Rightarrow> string \<Rightarrow> string option" where
  "asset_address env ass =
     (case map_of (asset_addresses (ye_settings env)) ass of
        None \<Rightarrow> None | Some a \<Rightarrow> (if a = [] then None else Some a))"

fun first_some :: "'a option list \<Rightarrow> 'a option" where
  "first_some [] = None"
| "first_some (None # xs) = first_some xs"
| "first_some (Some x # xs) = Some x"

definition harvest :: "yield_env \<Rightarrow> string \<Rightarrow> (string \<times> int) option ypy" where
  "harvest env ass =
     (case asset_address env ass of
        None \<Rightarrow> ret None
      | Some addr \<Rightarrow>
          bindE (liftE (ye_checksum env addr)) (\<lambda>checksum_addr.
          bindE (int_call env (AccruedYield checksum_addr)) (\<lambda>accrued.
            if accrued = 0 then ret None
            else
              thenE (ycall env OperatorAccount)
              (bindE (send_tx env (HarvestYield checksum_addr)) (\<lambda>tx.
               thenE (ycall env (TransactionReceipt tx))
               (bindE (getsE (\<lambda>w. ye_receipt env (calls w))) (\<lambda>logs.
                  ret (Some (tx, case first_some logs of None \<Rightarrow> accrued | Some actual \<Rightarrow> actual)))))))))"

definition transfer_fee_to_treasury :: "yield_env \<Rightarrow> string \<Rightarrow> int \<Rightarrow> string option ypy" where
  "transfer_fee_to_treasury env ass amount =
     (if amount = 0 then ret None
      else (case asset_address env ass of
          None \<Rightarrow> ret None
        | Some addr \<Rightarrow>
            bindE (liftE (ye_checksum env (treasury_address (ye_settings env)))) (\<lambda>treasury.
            thenE (ycall env OperatorAccount)
            (bindE (send_tx env (TokenTransfer addr treasury amount)) (\<lambda>tx. ret (Some tx))))))"

definition mark_delivered :: "yield_env \<Rightarrow> string \<Rightarrow> string \<Rightarrow> unit ypy" where
  "mark_delivered env i tx =
     thenE (ycall env (UpdateAllocation i))
       (set_allocations (tbl_update (\<lambda>r. ya_id r = i) (\<lambda>r. r\<lparr>ya_status := ''delivered'', ya_tx := Some tx\<rparr>)))"

text \<open>One allocation; the counters are \<open>(delivered, failed)\<close>.\<close>

definition distribute_one :: "yield_env \<Rightarrow> nat \<times> nat \<Rightarrow> yield_allocation \<Rightarrow> (nat \<times> nat) ypy" where
  "distribute_one env = (\<lambda>(delivered, failed) a.
     case asset_address env (ya_asset a) of
       None \<Rightarrow> ret (delivered, failed + 1)
     | Some addr \<Rightarrow>
         bindE (liftE (ye_checksum env (ya_user a))) (\<lambda>recipient.
         bindE (tryE (send_tx env (TokenTransfer addr recipient (ya_amount a)))) (\<lambda>r.
           case r of
             Inl _ \<Rightarrow> ret (delivered, failed + 1)
           | Inr tx \<Rightarrow> thenE (mark_delivered env (ya_id a) tx) (ret (delivered + 1, failed)))))"

definition distribute_allocations :: "yield_env \<Rightarrow> yield_allocation list \<Rightarrow> (nat \<times> nat) ypy" where
  "distribute_allocations env as = thenE (ycall env OperatorAccount) (foldE (distribute_one env) (0, 0) as)"

section \<open>One asset\<close>

record asset_summary =
  as_harvested :: int
  as_platform_fee :: int
  as_distributable :: int
  as_allocations :: nat
  as_delivered :: nat
  as_failed :: nat
  as_dust :: int

definition nothing_harvested :: asset_summary where
  "nothing_harvested = \<lparr>as_harvested = 0, as_platform_fee = 0, as_distributable = 0, as_allocations = 0,
     as_delivered = 0, as_failed = 0, as_dust = 0\<rparr>"

definition platform_fee_of :: "int \<Rightarrow> int \<Rightarrow> int" where
  "platform_fee_of fee_bps total_yield = total_yield * fee_bps div 10000"

text \<open>The insert of the distribution; \<open>harvest_tx_hash\<close> is unique.\<close>

definition insert_distribution :: "yield_env \<Rightarrow> (string \<Rightarrow> yield_distribution) \<Rightarrow> string ypy" where
  "insert_distribution env mk =
     thenE (ycall env InsertDistribution)
     (bindE (getsE (\<lambda>w. (ye_new_id env (calls w) 0, yw_distributions w))) (\<lambda>(i, rows).
        if list_ex (\<lambda>r. yd_tx r = yd_tx (mk i)) rows then raise (OtherError ''duplicate key value'')
        else thenE (set_distributions (\<lambda>rows. rows @ [mk i])) (ret i)))"

definition read_pending :: "yield_env \<Rightarrow> string \<Rightarrow> yield_allocation list ypy" where
  "read_pending env did =
     thenE (ycall env ReadAllocations)
       (getsE (\<lambda>w. if ye_no_data env (calls w) then []
                   else filter (\<lambda>a. ya_distribution a = did \<and> ya_status a = ''pending'') (yw_allocations w)))"

text \<open>The part of \<open>_process_asset\<close> after the harvest.\<close>

definition distribute_harvest :: "yield_env \<Rightarrow> string \<Rightarrow> int \<Rightarrow> int \<Rightarrow> string \<times> int \<Rightarrow> asset_summary ypy" where
  "distribute_harvest env ass period_start period_end = (\<lambda>(tx, total_yield).
     let platform_fee = platform_fee_of (protocol_fee_bps (ye_settings env)) total_yield;
         distributable = total_yield - platform_fee
     in
       bindE (insert_distribution env (\<lambda>i. \<lparr>yd_id = i, yd_tx = tx, yd_asset = ass, yd_total = total_yield,
                yd_fee = platform_fee, yd_start = period_start, yd_end = period_end\<rparr>)) (\<lambda>did.
       thenE (catchE (thenE (transfer_fee_to_treasury env ass platform_fee) (ret ())) (\<lambda>_. ret ()))
       (bindE (calculate_allocations env did period_start period_end ass distributable) (\<lambda>(allocations, dust).
        thenE (save_allocations env allocations)
        (bindE (read_pending env did) (\<lambda>saved.
         bindE (distribute_allocations env saved) (\<lambda>(delivered, failed).
           ret \<lparr>as_harvested = total_yield, as_platform_fee = platform_fee, as_distributable = distributable,
             as_allocations = length allocations, as_delivered = delivered, as_failed = failed, as_dust = dust\<rparr>)))))))"

definition process_asset :: "yield_env \<Rightarrow> string \<Rightarrow> int \<Rightarrow> int \<Rightarrow> asset_summary ypy" where
  "process_asset env ass period_start period_end =
     bindE (harvest env ass) (\<lambda>r. case r of
         None \<Rightarrow> ret nothing_harvested
       | Some h \<Rightarrow> distribute_harvest env ass period_start period_end h)"

text \<open>\<open>run_airdrop\<close>: every asset on its own; \<open>None\<close> stands for the error entry.\<close>

definition run_airdrop :: "yield_env \<Rightarrow> int \<Rightarrow> int \<Rightarrow> (string \<times> asset_summary option) list ypy" where
  "run_airdrop env period_start period_end =
     foldE (\<lambda>summary ass.
         bindE (tryE (process_asset env ass period_start period_end)) (\<lambda>r.
           ret (summary @ [(ass, case r of Inl _ \<Rightarrow> None | Inr s \<Rightarrow> Some s)])))
       [] (map fst (asset_addresses (ye_settings env)))"

text \<open>\<open>run\<close>: the period starts where the last one ended, or when Aave was enabled, 2026-04-02.\<close>

definition aave_enable :: int where
  "aave_enable = 1775088000 * 1000000"

definition last_period_end :: "yield_distribution list \<Rightarrow> int option" where
  "last_period_end rows = (if rows = [] then None else Some (Max (yd_end ` set rows)))"

definition run_yield_airdrop :: "yield_env \<Rightarrow> int \<Rightarrow> (string \<times> asset_summary option) list ypy" where
  "run_yield_airdrop env now =
     thenE (ycall env ReadDistributions)
     (bindE (getsE (\<lambda>w. last_period_end (yw_distributions w))) (\<lambda>last_end.
        run_airdrop env (case last_end of None \<Rightarrow> aave_enable | Some e \<Rightarrow> e) now))"

section \<open>Nothing more is paid than was harvested\<close>

fun transfer_amount :: "yield_call \<Rightarrow> int" where
  "transfer_amount (TokenTransfer t r n) = n"
| "transfer_amount _ = 0"

definition paid :: "yield_world \<Rightarrow> int" where
  "paid w = sum_list (map transfer_amount (calls w))"

lemma paid_simps [simp]:
  "paid (w\<lparr>calls := c # cs\<rparr>) = transfer_amount c + paid (w\<lparr>calls := cs\<rparr>)"
  "paid (w\<lparr>calls := calls w\<rparr>) = paid w"
  "paid (w\<lparr>yw_positions := p\<rparr>) = paid w"
  "paid (w\<lparr>yw_distributions := d\<rparr>) = paid w"
  "paid (w\<lparr>yw_allocations := a\<rparr>) = paid w"
  by (simp_all add: paid_def)


lemma allocate_facts:
  assumes "\<forall>p \<in> set rows. 0 \<le> yp_collateral p" "0 \<le> d" "2 * ((d + 1) * (int (length rows) + 8)) \<le> 2 ^ 53"
    and "allocate did a b ass d rows = (as, dust)"
  shows "sum_list (map ya_amount as) \<le> d"
    and "x \<in> set as \<Longrightarrow> 0 < ya_amount x \<and> ya_distribution x = did \<and> ya_status x = ''pending'' \<and> ya_asset x = ass"
    and "as \<noteq> [] \<Longrightarrow> sum_list (map ya_amount as) = d"
proof -
  let ?n = "length (active_positions ass a b rows)"
  have "?n \<le> length rows"
    unfolding active_positions_def query_positions_def by (meson le_trans length_filter_le)
  then have "2 * ((d + 1) * (int ?n + 8)) \<le> 2 * ((d + 1) * (int (length rows) + 8))"
    using assms(2) by (intro mult_left_mono) auto
  then have n: "2 * ((d + 1) * (int ?n + 8)) \<le> 2 ^ 53" using assms(3) by (rule order_trans)
  note s = allocate_sound [OF assms(1,2) n assms(4)]
  show "as \<noteq> [] \<Longrightarrow> sum_list (map ya_amount as) = d" using s by blast
  then show "sum_list (map ya_amount as) \<le> d" using assms(2) by (cases "as") auto
  assume x: "x \<in> set as"
  then obtain i where "i < length as" "x = as ! i" by (auto simp: in_set_conv_nth)
  moreover have "as \<noteq> []" using x by auto
  ultimately have "0 < ya_amount x \<and> ya_status x = ''pending''" using s by (auto simp: fair_share_def)
  with allocate_labels [OF assms(4) x]
  show "0 < ya_amount x \<and> ya_distribution x = did \<and> ya_status x = ''pending'' \<and> ya_asset x = ass" by simp
qed

lemma wp_True: "wp m (\<lambda>_ _. True) (\<lambda>_ _. True) w"
  by (simp add: wp_def split: prod.split sum.split)

lemma wp_distribute_one:
  assumes "0 \<le> ya_amount a"
  shows "wp (distribute_one env c a) (\<lambda>_ w'. paid w' \<le> paid w + ya_amount a) (\<lambda>_ w'. paid w' \<le> paid w + ya_amount a) w"
  using assms by (cases c) (auto simp: distribute_one_def mark_delivered_def wps split: option.split sum.split)

lemma wp_distribute:
  assumes "\<forall>a \<in> set as. 0 \<le> ya_amount a"
  shows "wp (foldE (distribute_one env) c as)
    (\<lambda>_ w'. paid w' \<le> paid w + sum_list (map ya_amount as)) (\<lambda>_ w'. paid w' \<le> paid w + sum_list (map ya_amount as)) w"
  using assms
proof (induction "as" arbitrary: c w)
  case (Cons a as)
  have s: "0 \<le> sum_list (map ya_amount as)" using Cons.prems by (intro sum_list_nonneg) auto
  have "wp (foldE (distribute_one env) c' as) (\<lambda>_ w'. paid w' \<le> paid w + sum_list (map ya_amount (a # as)))
      (\<lambda>_ w'. paid w' \<le> paid w + sum_list (map ya_amount (a # as))) v" if "paid v \<le> paid w + ya_amount a" for c' v
    by (rule wp_mono [OF Cons.IH]) (use Cons.prems that in auto)
  then show ?case
    using Cons.prems s by (simp only: foldE.simps wp_bind) (rule wp_mono [OF wp_distribute_one], auto)
qed (simp add: wps)

lemma number_rows_simps [simp]:
  "number_rows ids [] = []"
  "map ya_amount (number_rows ids as) = map ya_amount as"
  "length (number_rows ids as) = length as"
  by (auto simp: number_rows_def map2_map_map intro!: nth_equalityI)

lemma number_rows_pending:
  assumes "\<forall>a \<in> set as. ya_distribution a = did \<and> ya_status a = ''pending''"
    and "\<forall>a \<in> set rows. ya_distribution a \<noteq> did"
  shows "filter (\<lambda>a. ya_distribution a = did \<and> ya_status a = ''pending'') (rows @ number_rows ids as) = number_rows ids as"
proof -
  have "filter (\<lambda>a. ya_distribution a = did \<and> ya_status a = ''pending'') rows = []" using assms(2) by (auto simp: filter_empty_conv)
  moreover have "\<forall>a \<in> set (number_rows ids as). ya_distribution a = did \<and> ya_status a = ''pending''"
    using assms(1) by (auto simp: number_rows_def set_zip)
  ultimately show ?thesis by simp
qed

lemma number_rows_nonneg:
  "\<forall>a \<in> set as. 0 \<le> ya_amount a \<Longrightarrow> \<forall>a \<in> set (number_rows ids as). 0 \<le> ya_amount a"
  by (auto simp: number_rows_def set_zip)


lemma wp_fee:
  assumes "0 \<le> fee"
  shows "wp (catchE (thenE (transfer_fee_to_treasury env ass fee) (ret ())) (\<lambda>_. ret ()))
    (\<lambda>_ w'. paid w' \<le> paid w + fee \<and> yw_positions w' = yw_positions w \<and> yw_allocations w' = yw_allocations w)
    (\<lambda>_ w'. paid w' \<le> paid w + fee) w"
  using assms by (auto simp: transfer_fee_to_treasury_def wps split: option.split sum.split)

lemma wp_payout:
  assumes "\<forall>p \<in> set (yw_positions w). 0 \<le> yp_collateral p" "0 \<le> d"
    and "2 * ((d + 1) * (int (length (yw_positions w)) + 8)) \<le> 2 ^ 53"
    and "\<forall>a \<in> set (yw_allocations w). ya_distribution a \<noteq> did"
  shows "wp (bindE (calculate_allocations env did a b ass d) (\<lambda>(allocations, dust).
        thenE (save_allocations env allocations)
        (bindE (read_pending env did) (\<lambda>saved.
         bindE (distribute_allocations env saved) (\<lambda>(delivered, failed).
           ret (f allocations dust delivered failed))))))
     (\<lambda>_ w'. paid w' \<le> paid w + d) (\<lambda>_ w'. paid w' \<le> paid w + d) w"
proof -
  have dist: "wp (distribute_allocations env xs) (\<lambda>_ w'. paid w' \<le> paid w + d) (\<lambda>_ w'. paid w' \<le> paid w + d) v"
    if "\<forall>a \<in> set xs. 0 \<le> ya_amount a" "sum_list (map ya_amount xs) \<le> d" "paid v = paid w" for xs v
  proof -
    have "wp (foldE (distribute_one env) (0, 0) xs) (\<lambda>_ w'. paid w' \<le> paid w + d) (\<lambda>_ w'. paid w' \<le> paid w + d) u"
      if "paid u = paid w" for u
      by (rule wp_mono [OF wp_distribute]) (use that \<open>sum_list (map ya_amount xs) \<le> d\<close> \<open>\<forall>a \<in> set xs. 0 \<le> ya_amount a\<close> in auto)
    with that assms(2) show ?thesis by (auto simp: distribute_allocations_def wps split: option.split)
  qed
  have rp: "wp (bindE (read_pending env did) (\<lambda>saved. bindE (distribute_allocations env saved) (\<lambda>(delivered, failed). ret (g delivered failed))))
     (\<lambda>_ w'. paid w' \<le> paid w + d) (\<lambda>_ w'. paid w' \<le> paid w + d) u"
    if u: "paid u = paid w" "filter (\<lambda>a. ya_distribution a = did \<and> ya_status a = ''pending'') (yw_allocations u) = xs"
      and xs: "\<forall>a \<in> set xs. 0 \<le> ya_amount a" "sum_list (map ya_amount xs) \<le> d" for u xs and g :: "nat \<Rightarrow> nat \<Rightarrow> 'z"
  proof -
    have "wp (bindE (distribute_allocations env ys) (\<lambda>(delivered, failed). ret (g delivered failed)))
        (\<lambda>_ w'. paid w' \<le> paid w + d) (\<lambda>_ w'. paid w' \<le> paid w + d) v"
      if "ys = [] \<or> ys = xs" "paid v = paid w" for ys v
      unfolding wp_bind by (rule wp_mono [OF dist]) (use that xs assms(2) in \<open>auto simp: wp_ret split: prod.split\<close>)
    with u assms(2) show ?thesis by (auto simp: read_pending_def wp_bind wp_then wp_perform wp_gets simp del: wp_prod split: option.split)
  qed
  have old: "filter (\<lambda>a. ya_distribution a = did \<and> ya_status a = ''pending'') (yw_allocations w) = []"
    using assms(4) by (auto simp: filter_empty_conv)
  have rest: "wp (thenE (save_allocations env as) (bindE (read_pending env did) (\<lambda>saved.
         bindE (distribute_allocations env saved) (\<lambda>(delivered, failed). ret (g delivered failed)))))
     (\<lambda>_ w'. paid w' \<le> paid w + d) (\<lambda>_ w'. paid w' \<le> paid w + d) v"
    if as: "\<forall>a \<in> set as. 0 \<le> ya_amount a \<and> ya_distribution a = did \<and> ya_status a = ''pending''" "sum_list (map ya_amount as) \<le> d"
      and v: "paid v = paid w" "yw_allocations v = yw_allocations w" for "as" v and g :: "nat \<Rightarrow> nat \<Rightarrow> 'z"
  proof (cases "as = []")
    case True
    then show ?thesis using v old assms(2) rp [of v "[]"] by (simp add: save_allocations_def wp_then wp_ret)
  next
    case False
    have "filter (\<lambda>a. ya_distribution a = did \<and> ya_status a = ''pending'') (yw_allocations w @ number_rows ids as) = number_rows ids as" for ids
      using as(1) assms(4) by (intro number_rows_pending) auto
    then have "wp (bindE (read_pending env did) (\<lambda>saved. bindE (distribute_allocations env saved) (\<lambda>(delivered, failed). ret (g delivered failed))))
       (\<lambda>_ w'. paid w' \<le> paid w + d) (\<lambda>_ w'. paid w' \<le> paid w + d)
       (v\<lparr>calls := InsertAllocations # calls v, yw_allocations := yw_allocations v @ number_rows ids as\<rparr>)" for ids
      using v as number_rows_nonneg [of "as"] by (intro rp [of _ "number_rows ids as"]) simp_all
    then show ?thesis
      using False v assms(2)
      by (auto simp: save_allocations_def wp_then wp_perform wp_gets wp_set_tables wp_ret
          wp_bind [of "getsE _"] wp_bind [of "thenE _ _"] split: option.split)
  qed
  have "wp (calculate_allocations env did a b ass d)
     (\<lambda>(as, dust) v. (\<forall>a \<in> set as. 0 \<le> ya_amount a \<and> ya_distribution a = did \<and> ya_status a = ''pending'') \<and>
        sum_list (map ya_amount as) \<le> d \<and> paid v = paid w \<and> yw_allocations v = yw_allocations w)
     (\<lambda>_ w'. paid w' \<le> paid w + d) w"
    using assms(2) allocate_facts(1,2) [OF assms(1-3)]
    by (auto simp: calculate_allocations_def wps less_imp_le split: option.split prod.split)
  then show ?thesis
    unfolding wp_bind by (rule wp_mono) (auto simp: rest split: prod.splits)
qed

lemma platform_fee_bounds:
  assumes "0 \<le> bps" "bps \<le> 10000" "0 \<le> t"
  shows "0 \<le> platform_fee_of bps t" "platform_fee_of bps t \<le> t"
proof -
  have "t * bps \<le> t * 10000" using assms by (intro mult_left_mono)
  then have "t * bps div 10000 \<le> t * 10000 div 10000" by (rule zdiv_mono1) simp
  then show "platform_fee_of bps t \<le> t" by (simp add: platform_fee_of_def)
  show "0 \<le> platform_fee_of bps t" using assms by (simp add: platform_fee_of_def pos_imp_zdiv_nonneg_iff)
qed

lemma distribute_harvest_split:
  "distribute_harvest env ass a b (tx, t) v = (Inr s, v') \<Longrightarrow> as_harvested s = t \<and> as_platform_fee s + as_distributable s = t"
  by (auto simp: distribute_harvest_def Let_def bindE_def thenE_def ret_def split: prod.splits sum.splits)


text \<open>A settled example: 102 harvested, 4 go to the treasury and 98 to the only position.\<close>

definition demo_yield_world :: yield_world where
  "demo_yield_world = empty_yield_world\<lparr>yw_positions := [demo_position ''a'' 0]\<rparr>"


section \<open>The indexer can get in between\<close>

lemma upsert_present:
  assumes "\<And>r. key (given r) = key r"
  shows "list_ex (\<lambda>r. key r = key new) (tbl_upsert key given new rows)"
proof -
  have "list_ex (\<lambda>r. key r = key new) rows \<Longrightarrow> list_ex (\<lambda>r. key r = key new) (tbl_update P given rows)" for P
    by (induction rows) (auto simp: assms)
  then show ?thesis by (simp add: tbl_upsert_def)
qed

text \<open>
  When the indexer records a harvest before the airdrop does, the harvest is not distributed.
  Take a harvest with transaction \<open>tx\<close>, and let the indexer process the \<open>YieldHarvested\<close> log of this transaction next.
  The insert of the distribution then violates the uniqueness of its transaction: no fee and no user is paid,
  no allocation is made, and the next period starts after this harvest.
\<close>

lemma indexed_harvest_not_distributed:
  assumes "yl_event l = YieldHarvested pool_asset recipient amount"
    and "process_yield_log env l w = (Inr (), w1)"
    and "distribute_harvest env ass a b (yl_tx l, t) w1 = (r, w')"
  shows "(\<exists>e. r = Inl e) \<and> paid w' = paid w1 \<and> yw_allocations w' = yw_allocations w1 \<and> yw_distributions w' = yw_distributions w1"
proof -
  have "wp (process_yield_log env l) (\<lambda>_ w1. list_ex (\<lambda>d. yd_tx d = yl_tx l) (yw_distributions w1)) (\<lambda>_ _. True) w"
    by (simp add: process_yield_log_def assms(1) process_yield_harvested_def block_timestamp_def wps Let_def
        upsert_present [where key = yd_tx and new = "yield_distribution.make i (yl_tx l) j k f m n" for i j k f m n,
          unfolded yield_distribution.make_def, simplified] split: option.split)
  with assms(2) have "list_ex (\<lambda>d. yd_tx d = yl_tx l) (yw_distributions w1)" by (simp add: wp_def)
  then have "wp (distribute_harvest env ass a b (yl_tx l, t)) (\<lambda>_ _. False)
      (\<lambda>_ w'. paid w' = paid w1 \<and> yw_allocations w' = yw_allocations w1 \<and> yw_distributions w' = yw_distributions w1) w1"
    by (auto simp: distribute_harvest_def insert_distribution_def wps Let_def split: option.split)
  with assms(3) show ?thesis by (cases r) (auto simp: wp_def)
qed

lemma indexed_harvest_not_distributed_witness:
  "let l = \<lparr>yl_event = YieldHarvested ''0xA'' ''0xP'' 102, yl_block = 95, yl_index = 0, yl_tx = ''0xtx''\<rparr>;
       w1 = snd (process_yield_log (demo_yield_env {}) l demo_yield_world)
   in \<exists>e. fst (distribute_harvest (demo_yield_env {}) ''usdc'' 0 1000000 (''0xtx'', 102) w1) = Inl e"
proof -
  define l where "l = \<lparr>yl_event = YieldHarvested ''0xA'' ''0xP'' 102, yl_block = 95, yl_index = 0, yl_tx = ''0xtx''\<rparr>"
  obtain w1 where w1: "process_yield_log (demo_yield_env {}) l demo_yield_world = (Inr (), w1)"
    by (simp add: process_yield_log_def process_yield_harvested_def block_timestamp_def int_call_def l_def run_defs perform_def
        Let_def demo_yield_env_def set_distributions_def)
  obtain r w' where r: "distribute_harvest (demo_yield_env {}) ''usdc'' 0 1000000 (yl_tx l, 102) w1 = (r, w')" by fastforce
  have "\<exists>e. r = Inl e" using indexed_harvest_not_distributed [OF _ w1 r] by (simp add: l_def)
  with w1 r show ?thesis by (simp add: Let_def l_def)
qed

end
