(* ===== verification/Yield_API.thy ===== *)
theory Yield_API
  imports Yield_Airdrop Config "HOL-Library.List_Lexorder" "HOL-Library.Char_ord"
begin

text \<open>
  The endpoints of \<open>src/api/yield_routes.py\<close>: the summary and the positions of a user with their estimated
  yield, the history, and the global statistics. A dictionary is an association list in its insertion order.
\<close>

section \<open>Estimates\<close>

definition or_status :: "('w, 'a) py \<Rightarrow> nat \<Rightarrow> string \<Rightarrow> ('w, 'a) py" where
  "or_status m code msg = catchE m (\<lambda>_. raise (HTTPException code msg))"

definition asset_decimals :: "string \<Rightarrow> nat" where
  "asset_decimals ass =
     (case map_of [(''usdc'', 6), (''eth'', 18), (''btc'', 8)] ass of None \<Rightarrow> 18 | Some d \<Rightarrow> d)"

definition human :: "int option \<Rightarrow> string \<Rightarrow> rat option" where
  "human amount ass = map_option (\<lambda>n. fl (of_int n / of_int (10 ^ asset_decimals ass))) amount"

text \<open>\<open>_get_accrued_yield\<close>: an asset whose reading fails has no value.\<close>

definition get_accrued_yield :: "yield_env \<Rightarrow> (string \<times> int option) list ypy" where
  "get_accrued_yield env =
     foldE (\<lambda>accrued (ass, addr).
         bindE (tryE (bindE (liftE (ye_checksum env addr)) (\<lambda>c. int_call env (AccruedYield c)))) (\<lambda>r.
           ret (accrued @ [(ass, case r of Inl _ \<Rightarrow> None | Inr n \<Rightarrow> Some n)])))
       [] (asset_addresses (ye_settings env))"

definition get_last_distribution_end :: "yield_env \<Rightarrow> int ypy" where
  "get_last_distribution_end env =
     thenE (ycall env ReadDistributions)
       (getsE (\<lambda>w. case last_period_end (yw_distributions w) of None \<Rightarrow> aave_enable | Some e \<Rightarrow> e))"

text \<open>The keys of a dictionary filled in the order of a list.\<close>

definition key_order :: "'a list \<Rightarrow> 'a list" where
  "key_order xs = rev (remdups (rev xs))"

text \<open>The estimates of one asset's positions: the ids with a positive amount.\<close>

definition estimate_asset :: "int \<Rightarrow> int \<Rightarrow> int \<Rightarrow> int option \<Rightarrow> yield_position list \<Rightarrow> (string \<times> int) list" where
  "estimate_asset fee_bps period_start period_end total_accrued positions =
     (case total_accrued of
        None \<Rightarrow> []
      | Some accrued \<Rightarrow>
          if accrued \<le> 0 then []
          else
            (let distributable = accrued * (10000 - fee_bps) div 10000;
                 weights = map (\<lambda>p. (yp_id p, position_weight period_start period_end p))
                   (filter (\<lambda>p. \<not> settled_before period_start p) positions);
                 total_weight = sum_weights (map snd weights)
             in if total_weight = 0 then []
                else filter (\<lambda>(i, amount). 0 < amount)
                  (map (\<lambda>(i, weight). (i, share_amount distributable weight total_weight)) weights)))"

definition estimate_per_position :: "int \<Rightarrow> yield_position list \<Rightarrow> int \<Rightarrow> int \<Rightarrow> (string \<times> int option) list \<Rightarrow> (string \<times> int) list" where
  "estimate_per_position fee_bps all_positions period_start period_end accrued_by_asset =
     concat (map (\<lambda>ass. estimate_asset fee_bps period_start period_end
         (Option.bind (map_of accrued_by_asset ass) id) (filter (\<lambda>p. yp_asset p = ass) all_positions))
       (key_order (map yp_asset all_positions)))"

text \<open>\<open>estimates.get(id, 0)\<close>: a later entry overwrites an earlier one.\<close>

definition estimate_of :: "(string \<times> int) list \<Rightarrow> string \<Rightarrow> int" where
  "estimate_of estimates i = (case map_of (rev estimates) i of None \<Rightarrow> 0 | Some n \<Rightarrow> n)"

section \<open>The summary of a user\<close>

record asset_yield =
  ay_asset :: string
  ay_pending_raw :: int
  ay_pending :: "rat option"
  ay_delivered_raw :: int
  ay_delivered :: "rat option"
  ay_estimated_raw :: int
  ay_estimated :: "rat option"
  ay_total_raw :: int
  ay_total :: "rat option"

definition bucket_total :: "string \<Rightarrow> bool \<Rightarrow> yield_allocation list \<Rightarrow> int" where
  "bucket_total ass delivered rows =
     sum_list (map ya_amount (filter (\<lambda>a. ya_asset a = ass \<and> (ya_status a = ''delivered'') = delivered) rows))"

definition estimated_total :: "(string \<times> int) list \<Rightarrow> string \<Rightarrow> yield_position list \<Rightarrow> int" where
  "estimated_total estimates ass rows =
     sum_list (map (\<lambda>p. max (estimate_of estimates (yp_id p)) 0) (filter (\<lambda>p. yp_asset p = ass) rows))"

definition summarize_asset :: "yield_allocation list \<Rightarrow> yield_position list \<Rightarrow> (string \<times> int) list \<Rightarrow> string \<Rightarrow> asset_yield" where
  "summarize_asset alloc_rows pos_rows estimates ass =
     (let pending = bucket_total ass False alloc_rows; delivered = bucket_total ass True alloc_rows;
          est = estimated_total estimates ass pos_rows
      in \<lparr>ay_asset = ass, ay_pending_raw = pending, ay_pending = human (Some pending) ass,
          ay_delivered_raw = delivered, ay_delivered = human (Some delivered) ass,
          ay_estimated_raw = est, ay_estimated = human (Some est) ass,
          ay_total_raw = pending + delivered + est, ay_total = human (Some (pending + delivered + est)) ass\<rparr>)"

text \<open>The assets with an allocation or a positive estimate, sorted.\<close>

definition summary_assets :: "yield_allocation list \<Rightarrow> yield_position list \<Rightarrow> (string \<times> int) list \<Rightarrow> string list" where
  "summary_assets alloc_rows pos_rows estimates =
     sort (remdups (map ya_asset alloc_rows @
       map yp_asset (filter (\<lambda>p. 0 < estimate_of estimates (yp_id p)) pos_rows)))"

definition check_address :: "string \<Rightarrow> unit ypy" where
  "check_address address = (if eth_address_re address then ret () else raise (HTTPException 400 ''Invalid Ethereum address''))"

definition get_yield_summary :: "yield_env \<Rightarrow> int \<Rightarrow> string \<Rightarrow> (string \<times> asset_yield list) ypy" where
  "get_yield_summary env now address =
     thenE (check_address address)
     (let addr = lower address in
      bindE (or_status (thenE (ycall env ReadAllocations) (thenE (ycall env ReadPositions)
               (getsE (\<lambda>w. (filter (\<lambda>a. ya_user a = addr) (yw_allocations w), filter (\<lambda>p. yp_user p = addr) (yw_positions w))))))
             502 ''Could not fetch yield data'') (\<lambda>(alloc_rows, pos_rows).
      bindE (get_accrued_yield env) (\<lambda>accrued.
      bindE (get_last_distribution_end env) (\<lambda>period_start.
        let estimates = estimate_per_position (protocol_fee_bps (ye_settings env)) pos_rows period_start now accrued
        in ret (addr, map (summarize_asset alloc_rows pos_rows estimates) (summary_assets alloc_rows pos_rows estimates))))))"

section \<open>The positions of a user\<close>

record position_yield =
  py_position :: yield_position
  py_is_active :: bool
  py_estimated_raw :: int
  py_estimated :: "rat option"

definition position_entry :: "(string \<times> int) list \<Rightarrow> yield_position \<Rightarrow> position_yield" where
  "position_entry estimates p =
     (let est = estimate_of estimates (yp_id p) in
      \<lparr>py_position = p, py_is_active = (yp_settled p = None), py_estimated_raw = est,
       py_estimated = human (Some est) (yp_asset p)\<rparr>)"

text \<open>\<open>.order("deposited_at", desc=True).limit(500)\<close>; the second query is limited to 10000 rows.\<close>

definition user_positions :: "string \<Rightarrow> yield_position list \<Rightarrow> yield_position list" where
  "user_positions addr rows = take 500 (sort_key (\<lambda>p. - yp_deposited p) (filter (\<lambda>p. yp_user p = addr) rows))"

definition get_yield_positions :: "yield_env \<Rightarrow> int \<Rightarrow> string \<Rightarrow>
    (string \<times> position_yield list \<times> (string \<times> int \<times> rat option) list) ypy" where
  "get_yield_positions env now address =
     thenE (check_address address)
     (let addr = lower address in
      bindE (or_status (thenE (ycall env ReadPositions) (getsE (\<lambda>w. user_positions addr (yw_positions w))))
             502 ''Could not fetch positions'') (\<lambda>rows.
      bindE (get_accrued_yield env) (\<lambda>accrued.
      bindE (get_last_distribution_end env) (\<lambda>period_start.
      bindE (catchE (thenE (ycall env ReadPositions) (getsE (\<lambda>w. take 10000 (yw_positions w)))) (\<lambda>_. ret rows)) (\<lambda>all_positions.
        let estimates = estimate_per_position (protocol_fee_bps (ye_settings env)) all_positions period_start now accrued;
            total_of = (\<lambda>ass. sum_list (map (\<lambda>p. estimate_of estimates (yp_id p)) (filter (\<lambda>p. yp_asset p = ass) rows)))
        in ret (addr, map (position_entry estimates) rows,
             map (\<lambda>ass. (ass, total_of ass, human (Some (total_of ass)) ass)) (sort (remdups (map yp_asset rows)))))))))"

section \<open>Statistics\<close>

record asset_stats =
  st_asset :: string
  st_total_yield_raw :: int
  st_total_yield :: "rat option"
  st_total_fees_raw :: int
  st_total_fees :: "rat option"
  st_total_distributed :: "rat option"
  st_distributions :: nat
  st_accrued_raw :: "int option"
  st_accrued :: "rat option"

definition stats_of :: "yield_distribution list \<Rightarrow> (string \<times> int option) list \<Rightarrow> string \<Rightarrow> asset_stats" where
  "stats_of all_rows accrued ass =
     (let rows = filter (\<lambda>d. yd_asset d = ass) all_rows;
          y = sum_list (map yd_total rows); f = sum_list (map yd_fee rows);
          accrued_raw = Option.bind (map_of accrued ass) id
      in \<lparr>st_asset = ass, st_total_yield_raw = y, st_total_yield = human (Some y) ass, st_total_fees_raw = f,
          st_total_fees = human (Some f) ass, st_total_distributed = human (Some (y - f)) ass,
          st_distributions = length rows, st_accrued_raw = accrued_raw, st_accrued = human accrued_raw ass\<rparr>)"

definition get_yield_stats :: "yield_env \<Rightarrow> asset_stats list ypy" where
  "get_yield_stats env =
     bindE (or_status (thenE (ycall env ReadDistributions) (getsE yw_distributions)) 502 ''Could not fetch stats'') (\<lambda>rows.
     bindE (get_accrued_yield env) (\<lambda>accrued.
       ret (map (stats_of rows accrued) (map fst (asset_addresses (ye_settings env))))))"


section \<open>What the estimates are\<close>

definition estimate_spec :: "int \<Rightarrow> int \<Rightarrow> int \<Rightarrow> (string \<times> int option) list \<Rightarrow> yield_position list \<Rightarrow> yield_position \<Rightarrow> int" where
  "estimate_spec fee_bps a b accrued ps q =
     (case Option.bind (map_of accrued (yp_asset q)) id of
        None \<Rightarrow> 0
      | Some n \<Rightarrow>
          (let t = sum_weights (map (position_weight a b) (filter (\<lambda>p. yp_asset p = yp_asset q \<and> \<not> settled_before a p) ps))
           in if n \<le> 0 \<or> settled_before a q \<or> t = 0 then 0
              else max 0 (share_amount (n * (10000 - fee_bps) div 10000) (position_weight a b q) t)))"

lemma estimate_asset_entry:
  "(i, n) \<in> set (estimate_asset fee a b acc positions) \<longleftrightarrow>
   (\<exists>x p. acc = Some x \<and> 0 < x \<and> sum_weights (map (position_weight a b) (filter (\<lambda>p. \<not> settled_before a p) positions)) \<noteq> 0 \<and>
      p \<in> set positions \<and> \<not> settled_before a p \<and> yp_id p = i \<and> 0 < n \<and>
      n = share_amount (x * (10000 - fee) div 10000) (position_weight a b p)
            (sum_weights (map (position_weight a b) (filter (\<lambda>p. \<not> settled_before a p) positions))))"
  by (cases acc) (auto simp: estimate_asset_def Let_def comp_def)

lemma estimate_entry:
  "(i, n) \<in> set (estimate_per_position fee ps a b accrued) \<longleftrightarrow>
   (\<exists>q \<in> set ps. yp_id q = i \<and> n = estimate_spec fee a b accrued ps q \<and> 0 < n)"
proof -
  have "(i, n) \<in> set (estimate_per_position fee ps a b accrued) \<longleftrightarrow>
      (\<exists>ass. (i, n) \<in> set (estimate_asset fee a b (Option.bind (map_of accrued ass) id) (filter (\<lambda>p. yp_asset p = ass) ps)) \<and>
         ass \<in> yp_asset ` set ps)"
    by (auto simp: estimate_per_position_def key_order_def)
  also have "\<dots> \<longleftrightarrow> (\<exists>q \<in> set ps. yp_id q = i \<and> (\<exists>x. Option.bind (map_of accrued (yp_asset q)) id = Some x \<and> 0 < x \<and>
      sum_weights (map (position_weight a b) (filter (\<lambda>p. yp_asset p = yp_asset q \<and> \<not> settled_before a p) ps)) \<noteq> 0 \<and>
      \<not> settled_before a q \<and> 0 < n \<and> n = share_amount (x * (10000 - fee) div 10000) (position_weight a b q)
        (sum_weights (map (position_weight a b) (filter (\<lambda>p. yp_asset p = yp_asset q \<and> \<not> settled_before a p) ps)))))"
    unfolding estimate_asset_entry filter_filter by auto
  also have "\<dots> \<longleftrightarrow> (\<exists>q \<in> set ps. yp_id q = i \<and> n = estimate_spec fee a b accrued ps q \<and> 0 < n)"
    by (intro bex_cong refl conj_cong) (auto simp: estimate_spec_def Let_def max_def split: option.split)
  finally show ?thesis .
qed

text \<open>With distinct ids the dictionary holds exactly the specified estimate of every position.\<close>

lemma estimate_of_position:
  assumes "distinct (map yp_id ps)" "q \<in> set ps"
  shows "estimate_of (estimate_per_position fee ps a b accrued) (yp_id q) = estimate_spec fee a b accrued ps q"
proof -
  let ?L = "estimate_per_position fee ps a b accrued"
  have u: "r = q" if "r \<in> set ps" "yp_id r = yp_id q" for r
    using assms that by (auto simp: distinct_map dest: inj_onD)
  have s0: "0 \<le> estimate_spec fee a b accrued ps q"
    by (simp add: estimate_spec_def Let_def split: option.split)
  show ?thesis
  proof (cases "map_of (rev ?L) (yp_id q)")
    case None
    then have "(yp_id q, estimate_spec fee a b accrued ps q) \<notin> set ?L" by (auto simp: map_of_eq_None_iff image_iff)
    with assms(2) s0 have "estimate_spec fee a b accrued ps q = 0" by (auto simp: estimate_entry)
    with None show ?thesis by (simp add: estimate_of_def)
  next
    case (Some n)
    then have "(yp_id q, n) \<in> set ?L" by (auto dest: map_of_SomeD)
    with u have "n = estimate_spec fee a b accrued ps q" by (auto simp: estimate_entry)
    with Some show ?thesis by (simp add: estimate_of_def)
  qed
qed

lemma fl_idem:
  assumes "0 \<le> x" shows "fl (fl x) = fl x"
proof (cases "x = 0")
  case False
  with assms have x: "0 < x" by simp
  define m where "m = py_round (x / ulp x)"
  have "py_round (of_int 0) \<le> m" unfolding m_def using x by (intro py_round_mono) (simp add: divide_nonneg_pos)
  then have m0: "0 \<le> m" by (simp only: py_round_of_int)
  have f: "fl x = of_int m * 2 powi (ilog2 x - 52)" using x by (simp add: fl_def m_def ulp_def)
  have "of_int m * 2 powi (ilog2 x - 52) \<le> (2 powi (ilog2 x + 1) :: rat)" "0 \<le> fl x"
    using fl_between_pow(2) [OF x] fl_nonneg [of x] x by (simp_all add: f)
  moreover have "(2 powi (ilog2 x + 1) :: rat) = 2 ^ 53 * 2 powi (ilog2 x - 52)"
    by (simp add: power_int_add power_int_diff)
  ultimately have "of_int m \<le> (2 ^ 53 :: rat)" "0 \<le> (of_int m :: rat)"
    by (simp_all add: f zero_le_mult_iff) (metis mult_le_cancel_right zero_less_power_int zero_less_numeral not_less)
  then have m: "m \<le> 2 ^ 53" "0 \<le> m" by (metis of_int_le_iff of_int_numeral of_int_power) (simp add: m0)
  show ?thesis
  proof (cases "m = 2 ^ 53")
    case True
    then have "fl x = of_int 1 * 2 powi (ilog2 x + 1)" by (simp add: f power_int_add power_int_diff)
    then show ?thesis using fl_exact [of 1 "ilog2 x + 1"] by simp
  next
    case False
    with m fl_exact [of m "ilog2 x - 52"] show ?thesis by (simp add: f)
  qed
qed simp


lemma sum_weights_single:
  "0 \<le> yp_collateral p \<Longrightarrow> sum_weights [position_weight a b p] = position_weight a b p"
  by (simp add: sum_weights_def position_weight_def active_seconds_def fl_idem fl_nonneg mult_nonneg_nonneg)

lemma whole_share:
  assumes "w \<noteq> 0" "0 \<le> d" "d < 2 ^ 53"
  shows "share_amount d w w = d"
proof -
  have "fl (of_int d) = of_int d" using assms(2,3) by (intro fl_of_int) simp
  moreover have "fl 1 = 1" using fl_of_int [of 1] by simp
  ultimately show ?thesis using assms(1) by (simp add: share_amount_def)
qed

lemma accrued_answers:
  assumes "\<And>h. ye_fails env h = None" "\<And>x. ye_checksum env x = Inr x" "\<And>c h. ye_int env (AccruedYield c # h) = n"
  shows "wp (get_accrued_yield env)
    (\<lambda>acc w'. acc = map (\<lambda>(ass, addr). (ass, Some n)) (asset_addresses (ye_settings env)) \<and> yw_positions w' = yw_positions w \<and>
       yw_distributions w' = yw_distributions w \<and> yw_allocations w' = yw_allocations w) E w"
  by (simp add: get_accrued_yield_def asset_addresses_def wps assms)

definition last_end :: "yield_world \<Rightarrow> int" where
  "last_end w = (case last_period_end (yw_distributions w) of None \<Rightarrow> aave_enable | Some e \<Rightarrow> e)"

text \<open>
  The two endpoints disagree about the same position. Let a user have a single position with a non-zero weight, and let
  \<open>n\<close> be accrued, every call answering. The list of positions estimates its time-weighted share among all
  positions of the asset. The summary weighs it against the user's own positions only, and so
  promises the user the whole distributable amount, whatever the others hold.
\<close>

lemma summary_claims_everything:
  assumes "eth_address_re address" "filter (\<lambda>q. yp_user q = lower address) (yw_positions w) = [p]"
    and "distinct (map yp_id (yw_positions w))" "length (yw_positions w) \<le> 10000"
    and "yp_asset p \<in> {''usdc'', ''eth'', ''btc''}" "0 \<le> yp_collateral p"
    and "\<not> settled_before (last_end w) p" "position_weight (last_end w) now p \<noteq> 0"
    and "0 \<le> protocol_fee_bps (ye_settings env)" "protocol_fee_bps (ye_settings env) \<le> 10000" "n < 2 ^ 53"
    and "10000 \<le> n * (10000 - protocol_fee_bps (ye_settings env))"
    and "\<And>h. ye_fails env h = None" "\<And>x. ye_checksum env x = Inr x" "\<And>c h. ye_int env (AccruedYield c # h) = n"
  shows "wp (get_yield_positions env now address)
      (\<lambda>(_, entries, _) _. map py_position entries = [p] \<and> map py_estimated_raw entries =
         [estimate_spec (protocol_fee_bps (ye_settings env)) (last_end w) now
            (map (\<lambda>(ass, _). (ass, Some n)) (asset_addresses (ye_settings env))) (yw_positions w) p]) (\<lambda>_ _. False) w \<and>
    wp (get_yield_summary env now address)
      (\<lambda>(_, rows) _. \<exists>x \<in> set rows. ay_asset x = yp_asset p \<and>
         ay_estimated_raw x = n * (10000 - protocol_fee_bps (ye_settings env)) div 10000) (\<lambda>_ _. False) w"
proof -
  let ?fee = "protocol_fee_bps (ye_settings env)"
  let ?acc = "map (\<lambda>(ass, addr). (ass, Some n)) (asset_addresses (ye_settings env))"
  let ?d = "n * (10000 - ?fee) div 10000"
  have p: "p \<in> set (yw_positions w)" using assms(2) by (metis filter_is_subset list.set_intros(1) subsetD)
  have acc: "Option.bind (map_of ?acc (yp_asset p)) id = Some n" using assms(5) by (auto simp: asset_addresses_def)
  have n: "0 < n" using assms(10,12) by (smt (verit) mult_nonpos_nonneg)
  have "10000 * 1 \<le> n * (10000 - ?fee)" using assms(12) by simp
  then have d1: "1 \<le> ?d" by linarith
  have "n * (10000 - ?fee) \<le> n * 10000" using n assms(9) by (intro mult_left_mono) auto
  then have d2: "?d < 2 ^ 53" using assms(11) by linarith
  have own: "estimate_spec ?fee (last_end w) now ?acc [p] p = ?d"
    using d1 d2 n assms(6-8) by (simp add: estimate_spec_def acc Let_def sum_weights_single whole_share)
  note accrued = accrued_answers [OF assms(13-15)]
  have ends: "last_end w = (case last_period_end (yw_distributions w) of None \<Rightarrow> aave_enable | Some e \<Rightarrow> e)"
    by (simp add: last_end_def)
  have up: "user_positions (lower address) (yw_positions w) = [p]" by (simp add: user_positions_def assms(2))
  have e1: "estimate_of (estimate_per_position ?fee (yw_positions w) (last_end w) now ?acc) (yp_id p) =
      estimate_spec ?fee (last_end w) now ?acc (yw_positions w) p"
    by (rule estimate_of_position [OF assms(3) p])
  have e2: "estimate_of (estimate_per_position ?fee [p] (last_end w) now ?acc) (yp_id p) = ?d"
    using estimate_of_position [of "[p]" p ?fee "last_end w" now ?acc] own by simp
  have "wp (get_yield_positions env now address)
      (\<lambda>(_, entries, _) _. map py_position entries = [p] \<and> map py_estimated_raw entries =
         [estimate_spec ?fee (last_end w) now ?acc (yw_positions w) p]) (\<lambda>_ _. False) w"
    using assms(1,4) e1
    by (auto simp: get_yield_positions_def check_address_def or_status_def get_last_distribution_end_def wps Let_def assms(13) up
        position_entry_def ends intro!: wp_mono [OF accrued])
  moreover have sm: "\<exists>ass \<in> set (summary_assets allocs [p] est). ay_asset (summarize_asset allocs [p] est ass) = yp_asset p \<and>
      ay_estimated_raw (summarize_asset allocs [p] est ass) = ?d"
    if "est = estimate_per_position ?fee [p] (last_end w) now ?acc" for allocs est
    using e2 d1 that
    by (intro bexI [of _ "yp_asset p"]) (auto simp: summarize_asset_def estimated_total_def summary_assets_def Let_def)
  moreover have "wp (get_yield_summary env now address)
      (\<lambda>(_, rows) _. \<exists>x \<in> set rows. ay_asset x = yp_asset p \<and> ay_estimated_raw x = ?d) (\<lambda>_ _. False) w"
    using assms(1) sm
    by (auto simp: get_yield_summary_def check_address_def or_status_def get_last_distribution_end_def wps Let_def assms(2,13)
        ends intro!: wp_mono [OF accrued])
  ultimately show ?thesis by simp
qed


text \<open>Two users with equal positions; one of them is promised all 97 of the 102 accrued.\<close>

definition demo_user_address :: string where
  "demo_user_address = ''0x'' @ replicate 40 CHR ''1''"

definition two_user_world :: yield_world where
  "two_user_world = empty_yield_world\<lparr>yw_positions := [(demo_position ''a'' 0)\<lparr>yp_user := demo_user_address\<rparr>, demo_position ''b'' 0]\<rparr>"

lemma summary_claims_everything_witness:
  "wp (get_yield_summary (demo_yield_env {}) (aave_enable + 1000000) demo_user_address)
     (\<lambda>(_, rows) _. \<exists>x \<in> set rows. ay_asset x = ''usdc'' \<and> ay_estimated_raw x = 97) (\<lambda>_ _. False) two_user_world"
proof -
  let ?p = "(demo_position ''a'' 0)\<lparr>yp_user := demo_user_address\<rparr>"
  have l: "last_end two_user_world = aave_enable"
    by (simp add: last_end_def two_user_world_def empty_yield_world_def last_period_end_def)
  have "0 < exact_weight aave_enable (aave_enable + 1000000) ?p"
    by (simp add: exact_weight_def active_micros_def demo_position_def aave_enable_def Let_def)
  then have "position_weight aave_enable (aave_enable + 1000000) ?p \<noteq> 0"
    using near_pos [OF near_position_weight, of ?p aave_enable "aave_enable + 1000000"] by (auto simp: demo_position_def)
  moreover have "eth_address_re demo_user_address" by code_simp
  moreover have "lower demo_user_address = demo_user_address" by code_simp
  ultimately show ?thesis
    using summary_claims_everything [of demo_user_address two_user_world ?p "aave_enable + 1000000" "demo_yield_env {}" 102]
    by (simp add: l) (simp add: two_user_world_def empty_yield_world_def demo_position_def demo_yield_env_def demo_yield_settings_def
        settled_before_def demo_user_address_def)
qed

end
