(* ===== verification/Order_Events.thy ===== *)
theory Order_Events
  imports Pricing
begin

text \<open>
  The table \<open>order_events\<close>, which the event indexer fills and the expiry settler settles. Amounts that the code
  writes with \<open>str\<close> are kept as the integers they denote; timestamps of marks are microseconds.
\<close>

record order_row =
  eo_id :: string
  eo_chain :: chain
  eo_tx :: string
  eo_block :: int
  eo_log_index :: int
  eo_user :: string
  eo_mm :: "string option"
  eo_otoken :: string
  eo_amount :: "int option"
  eo_premium :: int
  eo_gross_premium :: int
  eo_net_premium :: int
  eo_protocol_fee :: int
  eo_collateral :: int
  eo_collateral_usd :: "rat option"
  eo_vault :: int
  eo_strike :: "int option"
  eo_expiry :: "int option"
  eo_is_put :: "bool option"
  eo_asset :: string
  eo_is_settled :: "bool option"
  eo_settled_at :: "int option"
  eo_settlement_tx :: "string option"
  eo_settlement_type :: "string option"
  eo_is_itm :: "bool option"
  eo_expiry_price :: "int option"
  eo_delivered_asset :: "string option"
  eo_delivered_amount :: "int option"
  eo_delivery_tx :: "string option"
  eo_result_sent :: "int option"

text \<open>\<open>collateral_to_usd\<close> of \<open>src/pricing/utils.py\<close> on a row of the table, whose collateral is an integer.\<close>

definition row_collateral_usd :: "int \<Rightarrow> bool option \<Rightarrow> string \<Rightarrow> rat \<Rightarrow> rat \<Rightarrow> rat" where
  "row_collateral_usd collateral is_put ass eth_spot btc_spot =
     (if is_put = Some True \<or> is_put = None then fl (of_int collateral / 1000000)
      else if ass = ''btc'' then fl (fl (float_of collateral / float_of (10 ^ 8)) * btc_spot)
      else fl (fl (float_of collateral / float_of (10 ^ 18)) * eth_spot))"

lemma row_collateral_usd_eq:
  "collateral_to_usd (Some (int_str c)) is_put (Some a) eth btc = Inr (row_collateral_usd c is_put (if a = [] then ''eth'' else a) eth btc)"
proof -
  have "py_int [] = None" by (simp add: py_int_def strip_def)
  then have "int_str c \<noteq> []" using py_int_int_str [of c] by (metis option.distinct(1))
  then show ?thesis by (auto simp: collateral_to_usd_def row_collateral_usd_def Let_def)
qed

end
