(* ===== verification/Event_Indexer.thy ===== *)
theory Event_Indexer
  imports Order_Events
begin

text \<open>
  \<open>src/bots/event_indexer.py\<close>: the oToken metadata cache, the enrichment and storage of \<open>OrderExecuted\<close> events, the
  assignment of \<open>PhysicalDelivery\<close> events to rows, one indexing cycle with its forward and re-scan pass, and the
  handling of subscription messages. The module variables (cache and lowest pending failure) are part of the world.
\<close>

section \<open>Events, world and environment\<close>

text \<open>The decoded logs.\<close>

record order_event =
  oe_tx :: string
  oe_block :: int
  oe_log_index :: int
  oe_user :: string
  oe_mm :: string
  oe_otoken :: string
  oe_amount :: int
  oe_gross :: int
  oe_net :: int
  oe_fee :: int
  oe_collateral :: int
  oe_vault :: int

record delivery_event =
  dv_tx :: string
  dv_block :: int
  dv_otoken :: string
  dv_user :: string
  dv_contra :: int

record otoken_meta =
  om_strike :: int
  om_expiry :: int
  om_is_put :: bool
  om_underlying :: string
  om_asset :: string

text \<open>A row of \<open>available_otokens\<close>; the strike is in dollars.\<close>

record otoken_db_row =
  ot_strike :: "rat option"
  ot_expiry :: "int option"
  ot_is_put :: "bool option"
  ot_underlying :: "string option"

datatype event_call =
    ReadCursor | WriteCursor | ReadOtoken string | ChainOtoken string | SpotPrice asset
  | UpsertOrders | ReadOrders | UpdateOrder string | NotifyFill string string
  | GetOrderLogs int int | GetDeliveryLogs int int | ChainHead | Decode | Pause int

record event_world = "event_call hist" +
  ew_cursor :: "int option"
  ew_orders :: "order_row list"
  ew_cache :: "(string \<times> otoken_meta) list"
  ew_pending :: "int option"

record event_settings =
  es_weth :: string
  es_wbtc :: string
  es_usdc :: string
  es_wss_url :: string
  es_poll_interval :: int

text \<open>
  The environment. \<open>ev_empty\<close> says that the database accepts an upsert without storing or returning a row;
  \<open>ev_in_abi\<close> that the contract's interface has \<open>PhysicalDelivery\<close>.
\<close>

record event_env =
  ev_fails :: "event_call list \<Rightarrow> exn option"
  ev_settings :: event_settings
  ev_head :: "event_call list \<Rightarrow> int"
  ev_orders :: "event_call list \<Rightarrow> order_event list"
  ev_deliveries :: "event_call list \<Rightarrow> delivery_event list"
  ev_in_abi :: bool
  ev_db_otoken :: "event_call list \<Rightarrow> otoken_db_row option"
  ev_chain_otoken :: "event_call list \<Rightarrow> int \<times> int \<times> bool \<times> string"
  ev_spot :: "event_call list \<Rightarrow> rat"
  ev_new_id :: "event_call list \<Rightarrow> nat \<Rightarrow> string"
  ev_empty :: "event_call list \<Rightarrow> bool"

type_synonym 'a epy = "(event_world, 'a) py"

abbreviation ecall :: "event_env \<Rightarrow> event_call \<Rightarrow> unit epy" where
  "ecall env c \<equiv> perform (ev_fails env) c"

definition EVENT_BLOCK_RANGE :: int where "EVENT_BLOCK_RANGE = 2000"
definition EVENT_CONFIRMATIONS :: int where "EVENT_CONFIRMATIONS = 2"
definition EVENT_RESCAN :: int where "EVENT_RESCAN = 50"
definition EVENT_MAX_DELAY :: int where "EVENT_MAX_DELAY = 60"
definition OTOKEN_CACHE_MAX :: nat where "OTOKEN_CACHE_MAX = 4096"

definition get_cursor :: "event_env \<Rightarrow> int epy" where
  "get_cursor env = thenE (ecall env ReadCursor) (getsE (\<lambda>w. case ew_cursor w of None \<Rightarrow> 0 | Some b \<Rightarrow> b))"

definition set_cursor :: "event_env \<Rightarrow> int \<Rightarrow> unit epy" where
  "set_cursor env b = thenE (ecall env WriteCursor) (modifyE (\<lambda>w. w\<lparr>ew_cursor := Some b\<rparr>))"

section \<open>Metadata of option tokens\<close>

definition underlying_to_asset :: "event_settings \<Rightarrow> string \<Rightarrow> string" where
  "underlying_to_asset s underlying_addr =
     (let addr = lower underlying_addr in
      if addr = lower (es_weth s) then ''eth''
      else if addr = lower (es_wbtc s) then ''btc''
      else ''unknown'')"

definition load_otoken_metadata_from_db :: "event_env \<Rightarrow> string \<Rightarrow> otoken_meta option epy" where
  "load_otoken_metadata_from_db env otoken =
     thenE (ecall env (ReadOtoken (lower otoken))) (getsE (\<lambda>w.
       case ev_db_otoken env (calls w) of
         None \<Rightarrow> None
       | Some row \<Rightarrow>
           (case (ot_strike row, ot_expiry row, ot_is_put row) of
              (Some strike, Some expiry, Some is_put) \<Rightarrow>
                (let underlying = lower (if truthy (ot_underlying row) then the (ot_underlying row) else es_weth (ev_settings env))
                 in Some \<lparr>om_strike = strike_to_8_decimals (fl strike), om_expiry = expiry, om_is_put = is_put,
                      om_underlying = underlying, om_asset = underlying_to_asset (ev_settings env) underlying\<rparr>)
            | _ \<Rightarrow> None)))"

definition load_otoken_metadata_from_chain :: "event_env \<Rightarrow> string \<Rightarrow> otoken_meta epy" where
  "load_otoken_metadata_from_chain env otoken =
     thenE (ecall env (ChainOtoken otoken)) (getsE (\<lambda>w.
       case ev_chain_otoken env (calls w) of
         (strike, expiry, is_put, underlying_raw) \<Rightarrow>
           (let underlying = lower underlying_raw in
            \<lparr>om_strike = strike, om_expiry = expiry, om_is_put = is_put, om_underlying = underlying,
             om_asset = underlying_to_asset (ev_settings env) underlying\<rparr>)))"

text \<open>The cache is an ordered dictionary, the least recently used entry first.\<close>

definition move_to_end :: "string \<Rightarrow> otoken_meta \<Rightarrow> (string \<times> otoken_meta) list \<Rightarrow> (string \<times> otoken_meta) list" where
  "move_to_end k v c = filter (\<lambda>(k', _). k' \<noteq> k) c @ [(k, v)]"

definition cache_put :: "string \<Rightarrow> otoken_meta \<Rightarrow> (string \<times> otoken_meta) list \<Rightarrow> (string \<times> otoken_meta) list" where
  "cache_put k v c =
     (let c = c @ [(k, v)] in if OTOKEN_CACHE_MAX < length c then tl c else c)"

definition load_otoken_metadata :: "event_env \<Rightarrow> string \<Rightarrow> otoken_meta epy" where
  "load_otoken_metadata env otoken =
     (let addr = lower otoken in
      bindE (getsE (\<lambda>w. map_of (ew_cache w) addr)) (\<lambda>hit.
        case hit of
          Some m \<Rightarrow> thenE (modifyE (\<lambda>w. w\<lparr>ew_cache := move_to_end addr m (ew_cache w)\<rparr>)) (ret m)
        | None \<Rightarrow>
            bindE (load_otoken_metadata_from_db env addr) (\<lambda>from_db.
            bindE (case from_db of None \<Rightarrow> load_otoken_metadata_from_chain env addr | Some m \<Rightarrow> ret m) (\<lambda>m.
              thenE (modifyE (\<lambda>w. w\<lparr>ew_cache := cache_put addr m (ew_cache w)\<rparr>)) (ret m)))))"

section \<open>Orders\<close>

text \<open>The dictionary of an event before its enrichment; keys not yet present are \<open>None\<close>.\<close>

definition build_order_event_data :: "order_event \<Rightarrow> order_row" where
  "build_order_event_data e =
     \<lparr>eo_id = [], eo_chain = BASE, eo_tx = oe_tx e, eo_block = oe_block e, eo_log_index = oe_log_index e,
      eo_user = lower (oe_user e), eo_mm = Some (lower (oe_mm e)), eo_otoken = lower (oe_otoken e),
      eo_amount = Some (oe_amount e), eo_premium = oe_gross e, eo_gross_premium = oe_gross e,
      eo_net_premium = oe_net e, eo_protocol_fee = oe_fee e, eo_collateral = oe_collateral e,
      eo_collateral_usd = None, eo_vault = oe_vault e, eo_strike = None, eo_expiry = None, eo_is_put = None,
      eo_asset = [], eo_is_settled = None, eo_settled_at = None, eo_settlement_tx = None, eo_settlement_type = None,
      eo_is_itm = None, eo_expiry_price = None, eo_delivered_asset = None, eo_delivered_amount = None,
      eo_delivery_tx = None, eo_result_sent = None\<rparr>"

definition enrich_with_otoken_metadata :: "event_env \<Rightarrow> order_row \<Rightarrow> order_row option epy" where
  "enrich_with_otoken_metadata env d =
     catchE (bindE (load_otoken_metadata env (eo_otoken d)) (\<lambda>m.
         ret (Some (d\<lparr>eo_strike := Some (om_strike m), eo_expiry := Some (om_expiry m), eo_is_put := Some (om_is_put m),
                      eo_asset := om_asset m\<rparr>))))
       (\<lambda>_. ret None)"

definition spot_price :: "event_env \<Rightarrow> asset \<Rightarrow> rat epy" where
  "spot_price env a = thenE (ecall env (SpotPrice a)) (getsE (\<lambda>w. ev_spot env (calls w)))"

definition enrich_with_collateral_usd :: "event_env \<Rightarrow> order_row \<Rightarrow> order_row epy" where
  "enrich_with_collateral_usd env d =
     (let is_put = eo_is_put d; ass = (if eo_asset d = [] then ''eth'' else eo_asset d);
          usd = row_collateral_usd (eo_collateral d) is_put (eo_asset d)
      in if is_put = Some True \<or> is_put = None then ret (d\<lparr>eo_collateral_usd := Some (usd 0 0)\<rparr>)
         else
           catchE
             (if ass = ''btc'' then bindE (spot_price env BTC) (\<lambda>spot. ret (d\<lparr>eo_collateral_usd := Some (usd 0 spot)\<rparr>))
              else bindE (spot_price env ETH) (\<lambda>spot. ret (d\<lparr>eo_collateral_usd := Some (usd spot 0)\<rparr>)))
             (\<lambda>_. ret (d\<lparr>eo_collateral_usd := None\<rparr>)))"

text \<open>
  The upsert of a batch on the transaction hash. The given columns overwrite those of an existing row; the settlement
  columns are not given. The database rejects a batch with two rows for one transaction.
\<close>

definition upsert_columns :: "order_row \<Rightarrow> order_row \<Rightarrow> order_row" where
  "upsert_columns d r = r\<lparr>eo_block := eo_block d, eo_log_index := eo_log_index d, eo_user := eo_user d, eo_mm := eo_mm d,
     eo_otoken := eo_otoken d, eo_amount := eo_amount d, eo_premium := eo_premium d, eo_gross_premium := eo_gross_premium d,
     eo_net_premium := eo_net_premium d, eo_protocol_fee := eo_protocol_fee d, eo_collateral := eo_collateral d,
     eo_collateral_usd := eo_collateral_usd d, eo_vault := eo_vault d, eo_strike := eo_strike d, eo_expiry := eo_expiry d,
     eo_is_put := eo_is_put d, eo_asset := eo_asset d\<rparr>"

definition upsert_order :: "order_row \<Rightarrow> order_row list \<Rightarrow> order_row list" where
  "upsert_order d rows =
     (if list_ex (\<lambda>r. eo_tx r = eo_tx d) rows then tbl_update (\<lambda>r. eo_tx r = eo_tx d) (upsert_columns d) rows
      else rows @ [d])"

definition number_orders :: "(nat \<Rightarrow> string) \<Rightarrow> order_row list \<Rightarrow> order_row list" where
  "number_orders ids ds = map2 (\<lambda>n d. d\<lparr>eo_id := ids n\<rparr>) [0..<length ds] ds"

definition missing_critical :: "order_row \<Rightarrow> bool" where
  "missing_critical d \<longleftrightarrow> eo_strike d = None \<or> eo_expiry d = None \<or> eo_is_put d = None"

definition store_events :: "event_env \<Rightarrow> order_row list \<Rightarrow> nat epy" where
  "store_events env ds =
     (if ds = [] then ret 0
      else if list_ex missing_critical ds then raise (ValueError ''Refusing to store order_event with missing field'')
      else
        thenE (ecall env UpsertOrders)
        (bindE (getsE (\<lambda>w. (ev_empty env (calls w), ev_new_id env (calls w)))) (\<lambda>(empty, ids).
           if empty then raise (RuntimeError (''Supabase upsert returned no data for '' @ nat_str (length ds) @ '' events''))
           else if \<not> distinct (map eo_tx ds) then
             raise (OtherError ''ON CONFLICT DO UPDATE command cannot affect row a second time'')
           else thenE (modifyE (\<lambda>w. w\<lparr>ew_orders := fold upsert_order (number_orders ids ds) (ew_orders w)\<rparr>))
                  (ret (length ds)))))"

definition notify_mm :: "event_env \<Rightarrow> order_row \<Rightarrow> unit epy" where
  "notify_mm env d =
     (if \<not> truthy (eo_mm d) then ret ()
      else catchE (ecall env (NotifyFill (the (eo_mm d)) (eo_tx d))) (\<lambda>_. ret ()))"

definition lowest :: "int option \<Rightarrow> int \<Rightarrow> int option" where
  "lowest b n = (case b of None \<Rightarrow> Some n | Some m \<Rightarrow> if n < m then Some n else Some m)"

text \<open>One event of the loop; the state is \<open>(events_to_store, first_failed_block)\<close>.\<close>

definition collect_order :: "event_env \<Rightarrow> order_row list \<times> int option \<Rightarrow> order_event \<Rightarrow> (order_row list \<times> int option) epy" where
  "collect_order env = (\<lambda>(events_to_store, first_failed) e.
     bindE (enrich_with_otoken_metadata env (build_order_event_data e)) (\<lambda>enriched.
       case enriched of
         None \<Rightarrow> ret (events_to_store, lowest first_failed (oe_block e))
       | Some d \<Rightarrow>
           if first_failed \<noteq> None then ret (events_to_store, first_failed)
           else bindE (enrich_with_collateral_usd env d) (\<lambda>d. ret (events_to_store @ [d], first_failed))))"

definition fetch_and_store_order_events :: "event_env \<Rightarrow> int \<Rightarrow> int \<Rightarrow> (nat \<times> int option) epy" where
  "fetch_and_store_order_events env from_block to_block =
     thenE (ecall env (GetOrderLogs from_block to_block))
     (bindE (getsE (\<lambda>w. ev_orders env (calls w))) (\<lambda>raw_events.
      bindE (foldE (collect_order env) ([], None) raw_events) (\<lambda>(events_to_store, first_failed).
      bindE (store_events env events_to_store) (\<lambda>stored.
        thenE (for_each (notify_mm env) events_to_store) (ret (stored, first_failed))))))"

section \<open>Deliveries\<close>

record delivery_data =
  dd_user :: string
  dd_otoken :: string
  dd_asset :: string
  dd_amount :: int
  dd_tx :: string

definition build_delivery_event_data :: "event_env \<Rightarrow> delivery_event \<Rightarrow> delivery_data option epy" where
  "build_delivery_event_data env e =
     catchE (bindE (load_otoken_metadata env (lower (dv_otoken e))) (\<lambda>m.
         ret (Some \<lparr>dd_user = lower (dv_user e), dd_otoken = lower (dv_otoken e),
           dd_asset = (if om_is_put m then om_underlying m else lower (es_usdc (ev_settings env))),
           dd_amount = dv_contra e, dd_tx = dv_tx e\<rparr>)))
       (\<lambda>_. ret None)"

definition same_position :: "delivery_data \<Rightarrow> order_row \<Rightarrow> bool" where
  "same_position d r \<longleftrightarrow> eo_user r = dd_user d \<and> eo_otoken r = dd_otoken d"

text \<open>The unmarked row with the smallest vault id.\<close>

fun min_vault :: "order_row list \<Rightarrow> order_row option" where
  "min_vault [] = None"
| "min_vault (r # rows) =
     (case min_vault rows of None \<Rightarrow> Some r | Some s \<Rightarrow> if eo_vault r \<le> eo_vault s then Some r else Some s)"

definition delivered_columns :: "delivery_data \<Rightarrow> order_row \<Rightarrow> order_row" where
  "delivered_columns d r = r\<lparr>eo_settlement_type := Some ''physical'', eo_delivered_asset := Some (dd_asset d),
     eo_delivered_amount := Some (dd_amount d), eo_delivery_tx := Some (dd_tx d), eo_is_itm := Some True\<rparr>"

definition update_delivery_event :: "event_env \<Rightarrow> nat \<Rightarrow> delivery_data \<Rightarrow> nat epy" where
  "update_delivery_event env updated d =
     thenE (ecall env ReadOrders)
     (bindE (getsE (\<lambda>w. filter (\<lambda>r. same_position d r \<and> eo_delivery_tx r = Some (dd_tx d)) (ew_orders w))) (\<lambda>already.
        if already \<noteq> [] then ret updated
        else
          thenE (ecall env ReadOrders)
          (bindE (getsE (\<lambda>w. min_vault (filter (\<lambda>r. same_position d r \<and> eo_delivery_tx r = None) (ew_orders w)))) (\<lambda>candidate.
             case candidate of
               None \<Rightarrow> ret updated
             | Some c \<Rightarrow>
                 thenE (ecall env (UpdateOrder (eo_id c)))
                 (thenE (modifyE (\<lambda>w. w\<lparr>ew_orders := tbl_update (\<lambda>r. eo_id r = eo_id c) (delivered_columns d) (ew_orders w)\<rparr>))
                   (bindE (getsE (\<lambda>w. length (filter (\<lambda>r. eo_id r = eo_id c) (ew_orders w)))) (\<lambda>n. ret (updated + n))))))))"

definition update_delivery_events :: "event_env \<Rightarrow> delivery_data list \<Rightarrow> nat epy" where
  "update_delivery_events env ds = foldE (update_delivery_event env) 0 ds"

definition collect_delivery :: "event_env \<Rightarrow> delivery_data list \<times> int option \<Rightarrow> delivery_event \<Rightarrow> (delivery_data list \<times> int option) epy" where
  "collect_delivery env = (\<lambda>(to_update, first_failed) e.
     bindE (build_delivery_event_data env e) (\<lambda>row.
       case row of
         None \<Rightarrow> ret (to_update, lowest first_failed (dv_block e))
       | Some d \<Rightarrow> ret (if first_failed \<noteq> None then to_update else to_update @ [d], first_failed)))"

definition fetch_and_update_delivery_events :: "event_env \<Rightarrow> int \<Rightarrow> int \<Rightarrow> (nat \<times> int option) epy" where
  "fetch_and_update_delivery_events env from_block to_block =
     (if \<not> ev_in_abi env then ret (0, None)
      else
        thenE (ecall env (GetDeliveryLogs from_block to_block))
        (bindE (getsE (\<lambda>w. ev_deliveries env (calls w))) (\<lambda>raw_events.
           if raw_events = [] then ret (0, None)
           else bindE (foldE (collect_delivery env) ([], None) raw_events) (\<lambda>(to_update, first_failed).
             bindE (update_delivery_events env to_update) (\<lambda>updated. ret (updated, first_failed))))))"

section \<open>One indexing cycle\<close>

definition min_option :: "int option \<Rightarrow> int option \<Rightarrow> int option" where
  "min_option a b = (case a of None \<Rightarrow> b | Some m \<Rightarrow> lowest b m)"

definition note_failure :: "int \<Rightarrow> unit epy" where
  "note_failure b = modifyE (\<lambda>w. w\<lparr>ew_pending := lowest (ew_pending w) b\<rparr>)"

text \<open>The forward pass; first its end, which moves the cursor.\<close>

definition finish_pass :: "event_env \<Rightarrow> int \<Rightarrow> int \<Rightarrow> int option \<Rightarrow> int option \<Rightarrow> unit epy" where
  "finish_pass env from_block to_block order_fail delivery_fail =
     (case min_option order_fail delivery_fail of
        Some min_failed \<Rightarrow>
          thenE (if min_failed \<le> from_block then ret () else set_cursor env (min_failed - 1))
            (note_failure min_failed)
      | None \<Rightarrow>
          thenE (set_cursor env to_block)
            (modifyE (\<lambda>w. w\<lparr>ew_pending := (case ew_pending w of
                 Some p \<Rightarrow> if p \<le> to_block then None else Some p | None \<Rightarrow> None)\<rparr>)))"

definition forward_pass :: "event_env \<Rightarrow> int \<Rightarrow> int \<Rightarrow> unit epy" where
  "forward_pass env from_block safe_block =
     (let to_block = min (from_block + EVENT_BLOCK_RANGE - 1) safe_block in
      bindE (fetch_and_store_order_events env from_block to_block) (\<lambda>(stored, order_fail).
      bindE (fetch_and_update_delivery_events env from_block to_block) (\<lambda>(delivered, delivery_fail).
        finish_pass env from_block to_block order_fail delivery_fail)))"

definition rescan_pass :: "event_env \<Rightarrow> int \<Rightarrow> int \<Rightarrow> unit epy" where
  "rescan_pass env last_indexed safe_block =
     (let rescan_from = max (last_indexed - EVENT_RESCAN) 0;
          rescan_to = min safe_block (rescan_from + EVENT_BLOCK_RANGE - 1)
      in whenE (rescan_from < rescan_to)
           (catchE
              (thenE (fetch_and_store_order_events env rescan_from rescan_to)
                (thenE (fetch_and_update_delivery_events env rescan_from rescan_to) (ret ())))
              (\<lambda>_. ret ())))"

definition index_once :: "event_env \<Rightarrow> unit epy" where
  "index_once env =
     thenE (ecall env ChainHead)
     (bindE (getsE (\<lambda>w. ev_head env (calls w))) (\<lambda>current_block.
        let safe_block = current_block - EVENT_CONFIRMATIONS in
        bindE (get_cursor env) (\<lambda>last_indexed.
          let from_block = last_indexed + 1 in
          thenE (whenE (from_block \<le> safe_block) (forward_pass env from_block safe_block))
            (rescan_pass env last_indexed safe_block))))"

section \<open>The subscription\<close>

definition safe_advance_target :: "int option \<Rightarrow> int \<Rightarrow> int" where
  "safe_advance_target pending b = (case pending of None \<Rightarrow> b | Some p \<Rightarrow> if p \<le> b then p - 1 else b)"

definition advance_cursor :: "event_env \<Rightarrow> int \<Rightarrow> unit epy" where
  "advance_cursor env b =
     bindE (getsE (\<lambda>w. safe_advance_target (ew_pending w) b)) (\<lambda>target.
       if target < 0 then ret () else catchE (set_cursor env target) (\<lambda>_. ret ()))"

text \<open>A handler that goes on with \<open>k\<close> if \<open>m\<close> returns and returns otherwise: \<open>try: x = m except Exception: return\<close>.\<close>

definition or_return :: "('w, 'a) py \<Rightarrow> ('a \<Rightarrow> ('w, unit) py) \<Rightarrow> ('w, unit) py" where
  "or_return m k = bindE (tryE m) (\<lambda>r. case r of Inl _ \<Rightarrow> ret () | Inr x \<Rightarrow> k x)"

definition process_order_subscription_log :: "event_env \<Rightarrow> order_event \<Rightarrow> unit epy" where
  "process_order_subscription_log env e =
     or_return (ecall env Decode) (\<lambda>_.
     bindE (enrich_with_otoken_metadata env (build_order_event_data e)) (\<lambda>enriched.
       case enriched of
         None \<Rightarrow> note_failure (oe_block e)
       | Some d \<Rightarrow>
           bindE (enrich_with_collateral_usd env d) (\<lambda>d.
             or_return (store_events env [d]) (\<lambda>_.
               thenE (notify_mm env d) (advance_cursor env (oe_block e))))))"

definition process_delivery_subscription_log :: "event_env \<Rightarrow> delivery_event \<Rightarrow> unit epy" where
  "process_delivery_subscription_log env e =
     or_return (ecall env Decode) (\<lambda>_.
     bindE (build_delivery_event_data env e) (\<lambda>row.
       case row of
         None \<Rightarrow> note_failure (dv_block e)
       | Some d \<Rightarrow> or_return (update_delivery_events env [d]) (\<lambda>_. advance_cursor env (dv_block e))))"

datatype subscription_log = OrderLog order_event | DeliveryLog delivery_event | UnknownLog

definition process_subscription_log :: "event_env \<Rightarrow> subscription_log \<Rightarrow> unit epy" where
  "process_subscription_log env l =
     (case l of
        OrderLog e \<Rightarrow> process_order_subscription_log env e
      | DeliveryLog e \<Rightarrow> process_delivery_subscription_log env e
      | UnknownLog \<Rightarrow> ret ())"

text \<open>
  One round of \<open>_subscription_loop\<close>: the catch-up, then the messages of a connection until it breaks, and the
  pause; it returns the next delay. One round of the poll loop.
\<close>

definition subscription_round :: "event_env \<Rightarrow> bool \<Rightarrow> subscription_log list \<Rightarrow> int \<Rightarrow> int epy" where
  "subscription_round env connects messages backoff =
     thenE (catchE (index_once env) (\<lambda>_. ret ()))
     (thenE (whenE connects (for_each (\<lambda>l. catchE (process_subscription_log env l) (\<lambda>_. ret ())) messages))
       (let backoff = (if connects then 1 else backoff) in
        thenE (ecall env (Pause backoff)) (ret (min (backoff * 2) EVENT_MAX_DELAY))))"

definition event_poll_round :: "event_env \<Rightarrow> unit epy" where
  "event_poll_round env =
     thenE (catchE (index_once env) (\<lambda>_. ret ())) (ecall env (Pause (es_poll_interval (ev_settings env))))"


section \<open>The metadata cache\<close>

text \<open>\<open>same_tables\<close>: only the cache and the history change.\<close>

definition same_tables :: "event_world \<Rightarrow> event_world \<Rightarrow> bool" where
  "same_tables w w' \<longleftrightarrow> ew_orders w' = ew_orders w \<and> ew_cursor w' = ew_cursor w \<and> ew_pending w' = ew_pending w"

interpretation frame: world_order same_tables
  by unfold_locales (auto simp: same_tables_def)

lemma frame_call: "grows same_tables (ecall env c)"
  by (rule grows_perform) (simp add: same_tables_def)

lemma frame_load: "grows same_tables (load_otoken_metadata env a)"
  unfolding load_otoken_metadata_def load_otoken_metadata_from_db_def load_otoken_metadata_from_chain_def Let_def
  by (intro frame.rules frame.grows_modify frame_call) (simp_all add: same_tables_def)

lemma frame_enrich: "grows same_tables (enrich_with_otoken_metadata env d)"
  unfolding enrich_with_otoken_metadata_def by (intro frame.rules frame_load)

lemma frame_usd: "grows same_tables (enrich_with_collateral_usd env d)"
  unfolding enrich_with_collateral_usd_def spot_price_def Let_def by (intro frame.rules frame_call)

lemma frame_notify: "grows same_tables (notify_mm env d)"
  unfolding notify_mm_def by (intro frame.rules frame_call)

lemma frame_build_delivery: "grows same_tables (build_delivery_event_data env e)"
  unfolding build_delivery_event_data_def by (intro frame.rules frame_load)

definition cache_ok :: "(string \<times> otoken_meta) list \<Rightarrow> bool" where
  "cache_ok c \<longleftrightarrow> distinct (map fst c) \<and> length c \<le> OTOKEN_CACHE_MAX"

lemma cache_ok_put:
  assumes "cache_ok c" "map_of c k = None" shows "cache_ok (cache_put k v c)"
proof -
  have "k \<notin> fst ` set c" using assms(2) by (simp add: map_of_eq_None_iff)
  with assms(1) show ?thesis
    by (cases c) (auto simp: cache_ok_def cache_put_def Let_def OTOKEN_CACHE_MAX_def)
qed

lemma cache_put_get: "cache_ok c \<Longrightarrow> map_of c k = None \<Longrightarrow> map_of (cache_put k v c) k = Some v"
  by (cases c) (auto simp: cache_ok_def cache_put_def Let_def OTOKEN_CACHE_MAX_def map_add_def split: option.split)

lemma cache_ok_move:
  assumes "cache_ok c" "map_of c k = Some v" shows "cache_ok (move_to_end k v c)"
proof -
  have "length (filter (\<lambda>(k', _). k' \<noteq> k) c) < length c"
    using map_of_SomeD [OF assms(2)] by (rule length_filter_less) simp
  moreover have "distinct (map fst (filter (\<lambda>(k', _). k' \<noteq> k) c))"
    using assms(1) by (simp add: cache_ok_def distinct_map_filter)
  ultimately show ?thesis using assms(1) by (auto simp: cache_ok_def move_to_end_def)
qed

lemma move_to_end_get: "map_of (move_to_end k v c) k = Some v"
  by (induction c) (auto simp: move_to_end_def)

text \<open>
  C32: the metadata cache. Loading keeps at most 4096 entries with distinct keys. What a load returns
  is in the cache afterwards under the lower-case address, and the next load of that address, in whatever case, returns the same without
  asking the database or the chain. No table, not the cursor and no pending failure changes.
\<close>

theorem metadata_cache:
  assumes "cache_ok (ew_cache w)" and "load_otoken_metadata env a w = (r, w')"
  shows "cache_ok (ew_cache w') \<and> same_tables w w' \<and>
    (case r of
       Inl _ \<Rightarrow> ew_cache w' = ew_cache w
     | Inr m \<Rightarrow> map_of (ew_cache w') (lower a) = Some m \<and>
         (\<forall>env' a'. lower a' = lower a \<longrightarrow>
            (\<exists>w''. load_otoken_metadata env' a' w' = (Inr m, w'') \<and> calls w'' = calls w')))"
proof -
  have again: "\<exists>w''. load_otoken_metadata env' a' v = (Inr m, w'') \<and> calls w'' = calls v"
    if "map_of (ew_cache v) (lower a) = Some m" "lower a' = lower a" for env' a' m v
    using that by (simp add: load_otoken_metadata_def Let_def run_defs)
  have "wp (load_otoken_metadata env a)
      (\<lambda>m w'. cache_ok (ew_cache w') \<and> map_of (ew_cache w') (lower a) = Some m)
      (\<lambda>_ w'. ew_cache w' = ew_cache w) w"
    using assms(1) cache_ok_put [of "ew_cache w"] cache_put_get [of "ew_cache w"] cache_ok_move [of "ew_cache w"]
    by (auto simp: load_otoken_metadata_def load_otoken_metadata_from_db_def load_otoken_metadata_from_chain_def wps Let_def
        move_to_end_get split: option.split)
  moreover have "same_tables w w'" using frame_load assms(2) by (rule growsD)
  ultimately show ?thesis using assms again by (cases r) (auto simp: wp_def)
qed

end
