(* ===== verification/Event_Safety.thy ===== *)
theory Event_Safety
  imports Event_Indexer
begin

text \<open>
  What the indexing cycle guarantees. The chain is a list of \<open>OrderExecuted\<close> events that the environment serves by block
  range; \<open>recorded\<close> says that the table has a complete row of an event. Polling loses nothing, whatever
  fails; a subscription can skip blocks, and two orders in one transaction stop the cursor.
\<close>

section \<open>Recorded events\<close>

definition from_event :: "order_event \<Rightarrow> order_row \<Rightarrow> bool" where
  "from_event e r \<longleftrightarrow> eo_tx r = oe_tx e \<and> eo_block r = oe_block e \<and> eo_user r = lower (oe_user e) \<and>
     eo_mm r = Some (lower (oe_mm e)) \<and> eo_otoken r = lower (oe_otoken e) \<and> eo_amount r = Some (oe_amount e) \<and>
     eo_vault r = oe_vault e \<and> eo_collateral r = oe_collateral e \<and> eo_net_premium r = oe_net e \<and> \<not> missing_critical r"

definition recorded :: "order_event \<Rightarrow> order_row list \<Rightarrow> bool" where
  "recorded e rows \<longleftrightarrow> (\<exists>r \<in> set rows. from_event e r)"

text \<open>The environment serves the events of a chain, and deliveries of the requested blocks.\<close>

definition serves :: "order_event list \<Rightarrow> event_env \<Rightarrow> bool" where
  "serves chain env \<longleftrightarrow>
     (\<forall>a b h. ev_orders env (GetOrderLogs a b # h) = filter (\<lambda>e. a \<le> oe_block e \<and> oe_block e \<le> b) chain) \<and>
     (\<forall>a b h. \<forall>d \<in> set (ev_deliveries env (GetDeliveryLogs a b # h)). a \<le> dv_block d \<and> dv_block d \<le> b)"

definition chain_ok :: "order_event list \<Rightarrow> bool" where
  "chain_ok chain \<longleftrightarrow> sorted (map oe_block chain) \<and> distinct (map oe_tx chain)"

lemma chain_unique: "chain_ok chain \<Longrightarrow> e \<in> set chain \<Longrightarrow> f \<in> set chain \<Longrightarrow> oe_tx e = oe_tx f \<Longrightarrow> e = f"
  by (auto simp: chain_ok_def distinct_map dest: inj_onD)

lemma from_event_id [simp]: "from_event e (d\<lparr>eo_id := i\<rparr>) = from_event e d"
  by (simp add: from_event_def missing_critical_def)

lemma from_event_usd [simp]: "from_event e (d\<lparr>eo_collateral_usd := u\<rparr>) = from_event e d"
  by (simp add: from_event_def missing_critical_def)

lemma from_event_columns: "from_event e d \<Longrightarrow> eo_tx r = eo_tx d \<Longrightarrow> from_event e (upsert_columns d r)"
  by (simp add: from_event_def upsert_columns_def missing_critical_def)

lemma upsert_records: "from_event e d \<Longrightarrow> recorded e (upsert_order d rows)"
  by (auto simp: recorded_def upsert_order_def tbl_update_def list_ex_iff intro: from_event_columns)

lemma upsert_keeps:
  assumes "chain_ok chain" "e \<in> set chain" "f \<in> set chain" "from_event f d" "recorded e rows"
  shows "recorded e (upsert_order d rows)"
proof (cases "oe_tx e = oe_tx f")
  case True
  with assms show ?thesis using chain_unique upsert_records by metis
next
  case False
  then have "eo_tx r \<noteq> eo_tx d" if "from_event e r" for r using assms(4) that by (auto simp: from_event_def)
  with assms(5) show ?thesis by (fastforce simp: recorded_def upsert_order_def tbl_update_def)
qed

definition from_chain :: "order_event list \<Rightarrow> order_row list \<Rightarrow> bool" where
  "from_chain chain ds \<longleftrightarrow> (\<forall>d \<in> set ds. \<exists>e \<in> set chain. from_event e d)"

lemma fold_upsert:
  assumes "chain_ok chain" "from_chain chain ds" "e \<in> set chain"
    and "recorded e rows \<or> (\<exists>d \<in> set ds. from_event e d)"
  shows "recorded e (fold upsert_order ds rows)"
  using assms(2,4)
proof (induction ds arbitrary: rows)
  case (Cons d ds)
  have "recorded e (upsert_order d rows) \<or> (\<exists>d \<in> set ds. from_event e d)"
    using Cons.prems assms(1,3) by (auto simp: from_chain_def intro: upsert_records upsert_keeps)
  with Cons show ?case by (simp add: from_chain_def)
qed simp

lemma number_orders_ids: "map (eo_id_update (\<lambda>_. [])) (number_orders ids ds) = map (eo_id_update (\<lambda>_. [])) ds"
  by (auto simp: number_orders_def intro!: nth_equalityI)

lemma number_orders_ex:
  assumes "\<And>d. P (eo_id_update (\<lambda>_. []) d) = P d"
  shows "(\<exists>d \<in> set (number_orders ids ds). P d) \<longleftrightarrow> (\<exists>d \<in> set ds. P d)"
proof -
  have n: "(\<exists>d \<in> set xs. P d) \<longleftrightarrow> (\<exists>d \<in> set (map (eo_id_update (\<lambda>_. [])) xs). P d)" for xs
    by (simp add: assms)
  show ?thesis by (subst (1 2) n) (simp only: number_orders_ids)
qed

lemma number_orders_from:
  "from_chain chain (number_orders ids ds) = from_chain chain ds"
  "(\<exists>d \<in> set (number_orders ids ds). from_event e d) \<longleftrightarrow> (\<exists>d \<in> set ds. from_event e d)"
  using number_orders_ex [of "\<lambda>d. \<not> (\<exists>e \<in> set chain. from_event e d)" ids ds] number_orders_ex [of "from_event e" ids ds]
  by (auto simp: from_chain_def)

section \<open>Collecting and storing\<close>

text \<open>The events below the first failure (all of them if there is none) are among the rows to store.\<close>

definition below :: "int option \<Rightarrow> int \<Rightarrow> bool" where
  "below ff b \<longleftrightarrow> (case ff of None \<Rightarrow> True | Some f \<Rightarrow> b < f)"

lemma wp_enrich:
  "wp (enrich_with_otoken_metadata env (build_order_event_data e))
     (\<lambda>x w'. same_tables w w' \<and> (\<forall>d. x = Some d \<longrightarrow> from_event e d)) (\<lambda>_. same_tables w) w"
proof -
  have "wp (load_otoken_metadata env a) (\<lambda>_. same_tables w) (\<lambda>_. same_tables w) w" for a
    by (rule frame.wp_le [OF frame_load]) (rule frame.le_refl)
  then show ?thesis
    unfolding enrich_with_otoken_metadata_def wp_catch wp_bind
    by (rule wp_mono) (auto simp: wp_ret from_event_def missing_critical_def build_order_event_data_def)
qed

lemma wp_usd:
  "from_event e d \<Longrightarrow> same_tables w0 w \<Longrightarrow>
   wp (enrich_with_collateral_usd env d) (\<lambda>d w'. from_event e d \<and> same_tables w0 w') (\<lambda>_. same_tables w0) w"
  by (auto simp: enrich_with_collateral_usd_def spot_price_def wps Let_def same_tables_def split: option.split)

lemma collect_step:
  "collect_order env (ds, ff) e =
   bindE (enrich_with_otoken_metadata env (build_order_event_data e)) (\<lambda>x. case x of
       None \<Rightarrow> ret (ds, lowest ff (oe_block e))
     | Some d \<Rightarrow> if ff \<noteq> None then ret (ds, ff)
         else bindE (enrich_with_collateral_usd env d) (\<lambda>d. ret (ds @ [d], ff)))"
  by (simp only: collect_order_def prod.case)

lemma wp_collect:
  assumes "sorted (map oe_block evs)" "same_tables w0 w"
  shows "wp (foldE (collect_order env) (ds, ff) evs)
    (\<lambda>(ds', ff') w'. same_tables w0 w' \<and>
       (case ff of
          Some f \<Rightarrow> ds' = ds \<and> (\<exists>f'. ff' = Some f' \<and> f' \<le> f)
        | None \<Rightarrow> (\<exists>xs. ds' = ds @ xs \<and> from_chain evs xs \<and>
            (\<forall>e \<in> set evs. below ff' (oe_block e) \<longrightarrow> (\<exists>d \<in> set xs. from_event e d))) \<and>
            (\<forall>f'. ff' = Some f' \<longrightarrow> (\<exists>e \<in> set evs. f' \<le> oe_block e))))
    (\<lambda>_. same_tables w0) w"
    (is "wp _ (?Q ds ff evs) _ w")
  using assms
proof (induction evs arbitrary: ds ff w)
  case Nil
  then show ?case by (simp add: wps from_chain_def split: option.split)
next
  case (Cons e evs)
  have step: "wp (foldE (collect_order env) (ds', ff') evs) (?Q ds ff (e # evs)) (\<lambda>_. same_tables w0) w1"
    if w1: "same_tables w0 w1" and s: "(ff = None \<and> ff' = Some (oe_block e) \<and> ds' = ds) \<or>
        (\<exists>f f'. ff = Some f \<and> ff' = Some f' \<and> f' \<le> f \<and> ds' = ds) \<or>
        (\<exists>d. ff = None \<and> ff' = None \<and> ds' = ds @ [d] \<and> from_event e d)" for ds' ff' w1
  proof (rule wp_mono [OF Cons.IH [OF _ w1]])
    fix x w' assume q: "?Q ds' ff' evs x w'"
    have le: "\<forall>e' \<in> set evs. oe_block e \<le> oe_block e'" using Cons.prems(1) by simp
    from s show "?Q ds ff (e # evs) x w'"
    proof (elim disjE)
      assume "ff = None \<and> ff' = Some (oe_block e) \<and> ds' = ds"
      with q le show ?thesis by (cases x) (force simp: from_chain_def below_def)
    next
      assume "\<exists>f f'. ff = Some f \<and> ff' = Some f' \<and> f' \<le> f \<and> ds' = ds"
      with q show ?thesis by (cases x) auto
    next
      assume "\<exists>d. ff = None \<and> ff' = None \<and> ds' = ds @ [d] \<and> from_event e d"
      then obtain d where d: "ff = None" "ff' = None" "ds' = ds @ [d]" "from_event e d" by blast
      with q obtain xs where "same_tables w0 w'" "fst x = ds @ d # xs" "from_chain evs xs"
        "\<forall>e \<in> set evs. below (snd x) (oe_block e) \<longrightarrow> (\<exists>d \<in> set xs. from_event e d)"
        "\<forall>f'. snd x = Some f' \<longrightarrow> (\<exists>e \<in> set evs. f' \<le> oe_block e)"
        by (cases x) auto
      with d show ?thesis by (cases x) (auto simp: from_chain_def intro!: exI [of _ "d # xs"])
    qed
  qed (use Cons.prems in auto)
  have "wp (collect_order env (ds, ff) e) (\<lambda>s. wp (foldE (collect_order env) s evs) (?Q ds ff (e # evs)) (\<lambda>_. same_tables w0))
      (\<lambda>_. same_tables w0) w"
    unfolding collect_step wp_bind
  proof (rule wp_mono [OF wp_enrich])
    fix x w1 assume x: "same_tables w w1 \<and> (\<forall>d. x = Some d \<longrightarrow> from_event e d)"
    then have w1: "same_tables w0 w1" using Cons.prems(2) by (metis frame.le_trans)
    show "wp (case x of None \<Rightarrow> ret (ds, lowest ff (oe_block e))
       | Some d \<Rightarrow> if ff \<noteq> None then ret (ds, ff)
           else bindE (enrich_with_collateral_usd env d) (\<lambda>d. ret (ds @ [d], ff)))
       (\<lambda>s. wp (foldE (collect_order env) s evs) (?Q ds ff (e # evs)) (\<lambda>_. same_tables w0)) (\<lambda>_. same_tables w0) w1"
    proof (cases x)
      case None
      have "wp (foldE (collect_order env) (ds, lowest ff (oe_block e)) evs) (?Q ds ff (e # evs)) (\<lambda>_. same_tables w0) w1"
        by (rule step [OF w1]) (auto simp: lowest_def split: option.split)
      with None show ?thesis by (simp add: wp_ret)
    next
      case (Some d)
      show ?thesis
      proof (cases ff)
        case None
        have "wp (enrich_with_collateral_usd env d) (\<lambda>d. wp (foldE (collect_order env) (ds @ [d], None) evs) (?Q ds ff (e # evs)) (\<lambda>_. same_tables w0))
            (\<lambda>_. same_tables w0) w1"
        proof (rule wp_mono [OF wp_usd [OF _ w1, of e]])
          show "from_event e d" using x Some by simp
          fix d' w2 assume "from_event e d' \<and> same_tables w0 w2"
          then show "wp (foldE (collect_order env) (ds @ [d'], None) evs) (?Q ds ff (e # evs)) (\<lambda>_. same_tables w0) w2"
            by (intro step) (use None in auto)
        qed simp
        with Some None show ?thesis by (simp add: wp_bind wp_ret_fun)
      next
        case (Some f)
        have "wp (foldE (collect_order env) (ds, ff) evs) (?Q ds ff (e # evs)) (\<lambda>_. same_tables w0) w1"
          by (rule step [OF w1]) (use Some in auto)
        with Some \<open>x = Some d\<close> show ?thesis by (simp add: wp_ret)
      qed
    qed
  next
    fix x w1 assume "same_tables w w1"
    with Cons.prems(2) show "same_tables w0 w1" by (metis frame.le_trans)
  qed
  then show ?case by (simp only: foldE.simps wp_bind)
qed


text \<open>
  \<open>safe_le chain\<close>: recorded events stay recorded, the cursor and the pending failure are untouched.
\<close>

definition safe_le :: "order_event list \<Rightarrow> event_world \<Rightarrow> event_world \<Rightarrow> bool" where
  "safe_le chain w w' \<longleftrightarrow> (\<forall>e \<in> set chain. recorded e (ew_orders w) \<longrightarrow> recorded e (ew_orders w')) \<and>
     ew_cursor w' = ew_cursor w \<and> ew_pending w' = ew_pending w"

interpretation safe: world_order "safe_le chain" for chain
  by unfold_locales (auto simp: safe_le_def)

lemma safe_frame: "same_tables w w' \<Longrightarrow> safe_le chain w w'"
  by (simp add: same_tables_def safe_le_def)

lemma grows_safe: "grows same_tables m \<Longrightarrow> grows (safe_le chain) m"
  by (auto simp: grows_def intro: safe_frame)

lemma wp_store:
  assumes "chain_ok chain" "from_chain chain ds"
  shows "wp (store_events env ds)
    (\<lambda>_ w'. safe_le chain w w' \<and> (\<forall>e \<in> set chain. (\<exists>d \<in> set ds. from_event e d) \<longrightarrow> recorded e (ew_orders w')))
    (\<lambda>_. safe_le chain w) w"
  using fold_upsert [OF assms(1), of "number_orders ids ds" for ids] assms(2)
  by (auto simp: store_events_def wps safe_le_def number_orders_from split: option.split)

lemma wp_collect_all:
  assumes "sorted (map oe_block evs)"
  shows "wp (foldE (collect_order env) ([], None) evs)
    (\<lambda>x w'. same_tables w w' \<and> from_chain evs (fst x) \<and>
       (\<forall>e \<in> set evs. below (snd x) (oe_block e) \<longrightarrow> (\<exists>d \<in> set (fst x). from_event e d)) \<and>
       (\<forall>f. snd x = Some f \<longrightarrow> (\<exists>e \<in> set evs. f \<le> oe_block e)))
    (\<lambda>_. same_tables w) w"
  by (rule wp_mono [OF wp_collect [OF assms frame.le_refl]]) auto

lemma wp_fetch_orders:
  assumes "chain_ok chain" "serves chain env"
  shows "wp (fetch_and_store_order_events env a b)
    (\<lambda>x w'. safe_le chain w w' \<and>
       (\<forall>e \<in> set chain. a \<le> oe_block e \<longrightarrow> oe_block e \<le> b \<longrightarrow> below (snd x) (oe_block e) \<longrightarrow> recorded e (ew_orders w')) \<and>
       (\<forall>f. snd x = Some f \<longrightarrow> f \<le> b))
    (\<lambda>_. safe_le chain w) w"
proof -
  let ?w = "w\<lparr>calls := GetOrderLogs a b # calls w\<rparr>"
  define evs where "evs = filter (\<lambda>e. a \<le> oe_block e \<and> oe_block e \<le> b) chain"
  have evs: "ev_orders env (GetOrderLogs a b # calls w) = evs"
    using assms(2) by (simp add: serves_def evs_def)
  have s: "sorted (map oe_block evs)"
    using assms(1) by (simp add: chain_ok_def evs_def sorted_filter)
  define Q where "Q x w' \<longleftrightarrow> safe_le chain w w' \<and> (\<forall>f. snd x = Some f \<longrightarrow> f \<le> b) \<and> (\<forall>e \<in> set evs. below (snd x) (oe_block e) \<longrightarrow> recorded e (ew_orders w'))"
    for x :: "nat \<times> int option" and w'
  have w: "safe_le chain w ?w" by (simp add: safe_le_def)
  have tail: "wp (bindE (store_events env ds) (\<lambda>stored. thenE (for_each (notify_mm env) ds) (ret (stored, ff)))) Q (\<lambda>_. safe_le chain w) w1"
    if w1: "safe_le chain w w1" and ds: "from_chain evs ds" "\<forall>e \<in> set evs. below ff (oe_block e) \<longrightarrow> (\<exists>d \<in> set ds. from_event e d)"
      and ff: "\<forall>f. ff = Some f \<longrightarrow> f \<le> b" for ds ff w1
    unfolding wp_bind
  proof (rule wp_mono [OF wp_store [OF assms(1)]])
    show "from_chain chain ds" using ds(1) by (auto simp: from_chain_def evs_def)
    fix n w2 assume w2: "safe_le chain w1 w2 \<and> (\<forall>e \<in> set chain. (\<exists>d \<in> set ds. from_event e d) \<longrightarrow> recorded e (ew_orders w2))"
    have "grows same_tables (for_each (notify_mm env) ds)" by (intro frame.rules frame_notify)
    from frame.wp_le [OF this frame.le_refl]
    show "wp (thenE (for_each (notify_mm env) ds) (ret (n, ff))) Q (\<lambda>_. safe_le chain w) w2"
      unfolding wp_then
      by (rule wp_mono) (use w1 w2 ds(2) ff in \<open>auto simp: wp_ret Q_def evs_def safe_le_def same_tables_def\<close>)
  next
    fix x w2 assume "safe_le chain w1 w2"
    with w1 show "safe_le chain w w2" by (rule safe.le_trans)
  qed
  have "wp (foldE (collect_order env) ([], None) evs)
     (\<lambda>x. wp (case x of (ds, ff) \<Rightarrow> bindE (store_events env ds) (\<lambda>stored. thenE (for_each (notify_mm env) ds) (ret (stored, ff)))) Q (\<lambda>_. safe_le chain w))
     (\<lambda>_. safe_le chain w) ?w"
  proof (rule wp_mono [OF wp_collect_all [OF s]])
    fix x w1 assume x: "same_tables ?w w1 \<and> from_chain evs (fst x) \<and>
       (\<forall>e \<in> set evs. below (snd x) (oe_block e) \<longrightarrow> (\<exists>d \<in> set (fst x). from_event e d)) \<and>
       (\<forall>f. snd x = Some f \<longrightarrow> (\<exists>e \<in> set evs. f \<le> oe_block e))"
    then have "safe_le chain w w1" using w by (metis safe_frame safe.le_trans)
    moreover have "\<forall>f. snd x = Some f \<longrightarrow> f \<le> b" using x by (auto simp: evs_def)
    ultimately have "wp (bindE (store_events env (fst x)) (\<lambda>stored. thenE (for_each (notify_mm env) (fst x)) (ret (stored, snd x)))) Q (\<lambda>_. safe_le chain w) w1"
      using x by (intro tail) auto
    then show "wp (case x of (ds, ff) \<Rightarrow> bindE (store_events env ds) (\<lambda>stored. thenE (for_each (notify_mm env) ds) (ret (stored, ff)))) Q (\<lambda>_. safe_le chain w) w1"
      by (cases x) simp
  qed (metis safe_frame safe.le_trans w)
  then have "wp (fetch_and_store_order_events env a b) Q (\<lambda>_. safe_le chain w) w"
    using w by (simp add: fetch_and_store_order_events_def wp_then wp_perform wp_bind wp_gets evs split: option.split)
  then show ?thesis by (rule wp_mono) (auto simp: Q_def evs_def)
qed


section \<open>Deliveries\<close>

lemma from_event_delivered [simp]: "from_event e (delivered_columns d r) = from_event e r"
  by (simp add: from_event_def delivered_columns_def missing_critical_def)

lemma recorded_delivered: "recorded e rows \<Longrightarrow> recorded e (tbl_update P (delivered_columns d) rows)"
proof -
  assume "recorded e rows"
  then obtain r where "r \<in> set rows" "from_event e r" by (auto simp: recorded_def)
  then have "(if P r then delivered_columns d r else r) \<in> set (tbl_update P (delivered_columns d) rows)"
    "from_event e (if P r then delivered_columns d r else r)" by (simp_all add: tbl_update_def)
  then show ?thesis unfolding recorded_def by blast
qed

lemma safe_call: "grows (safe_le chain) (ecall env c)"
  by (rule grows_safe [OF frame_call])

lemma safe_update_delivery: "grows (safe_le chain) (update_delivery_event env n d)"
  unfolding update_delivery_event_def
  by (intro safe.rules safe_call safe.grows_modify) (auto simp: safe_le_def intro: recorded_delivered)

lemma collect_delivery_step:
  "collect_delivery env (ds, ff) e =
   bindE (build_delivery_event_data env e) (\<lambda>row. case row of
       None \<Rightarrow> ret (ds, lowest ff (dv_block e))
     | Some d \<Rightarrow> ret (if ff \<noteq> None then ds else ds @ [d], ff))"
  by (simp only: collect_delivery_def prod.case)

lemma wp_collect_delivery:
  assumes "\<forall>e \<in> set evs. dv_block e \<le> b" "safe_le chain w0 w" "\<forall>f. ff = Some f \<longrightarrow> f \<le> b"
  shows "wp (foldE (collect_delivery env) (ds, ff) evs)
    (\<lambda>x w'. safe_le chain w0 w' \<and> (\<forall>f. snd x = Some f \<longrightarrow> f \<le> b)) (\<lambda>_. safe_le chain w0) w"
proof (rule wp_mono [OF wp_foldE [where I = "\<lambda>x w'. safe_le chain w0 w' \<and> (\<forall>f. snd x = Some f \<longrightarrow> f \<le> b)"]])
  fix s :: "delivery_data list \<times> int option" and e w1
  assume s: "safe_le chain w0 w1 \<and> (\<forall>f. snd s = Some f \<longrightarrow> f \<le> b)" and e: "e \<in> set evs"
  obtain ds ff where s': "s = (ds, ff)" by fastforce
  have "wp (build_delivery_event_data env e) (\<lambda>_. safe_le chain w0) (\<lambda>_. safe_le chain w0) w1"
    using s by (intro safe.wp_le grows_safe [OF frame_build_delivery]) simp
  then show "wp (collect_delivery env s e) (\<lambda>x w'. safe_le chain w0 w' \<and> (\<forall>f. snd x = Some f \<longrightarrow> f \<le> b)) (\<lambda>_. safe_le chain w0) w1"
    unfolding s' collect_delivery_step wp_bind
    by (rule wp_mono) (use s s' e assms(1) in \<open>auto simp: wp_ret lowest_def split: option.split\<close>)
qed (use assms in auto)

lemma wp_fetch_deliveries:
  assumes "serves chain env"
  shows "wp (fetch_and_update_delivery_events env a b)
    (\<lambda>x w'. safe_le chain w w' \<and> (\<forall>f. snd x = Some f \<longrightarrow> f \<le> b)) (\<lambda>_. safe_le chain w) w"
proof -
  let ?w = "w\<lparr>calls := GetDeliveryLogs a b # calls w\<rparr>"
  have w: "safe_le chain w ?w" by (simp add: safe_le_def)
  have b: "\<forall>e \<in> set (ev_deliveries env (GetDeliveryLogs a b # calls w)). dv_block e \<le> b"
    using assms by (simp add: serves_def)
  have u: "wp (update_delivery_events env ds) (\<lambda>_. safe_le chain w) (\<lambda>_. safe_le chain w) v" if "safe_le chain w v" for ds v
    unfolding update_delivery_events_def by (intro safe.wp_le safe.grows_fold safe_update_delivery that)
  have "wp (foldE (collect_delivery env) ([], None) (ev_deliveries env (GetDeliveryLogs a b # calls w)))
     (\<lambda>x. wp (case x of (to_update, first_failed) \<Rightarrow> bindE (update_delivery_events env to_update) (\<lambda>updated. ret (updated, first_failed)))
        (\<lambda>x w'. safe_le chain w w' \<and> (\<forall>f. snd x = Some f \<longrightarrow> f \<le> b)) (\<lambda>_. safe_le chain w)) (\<lambda>_. safe_le chain w) ?w"
    by (rule wp_mono [OF wp_collect_delivery [OF b w]]) (auto simp: wp_bind wp_ret split: prod.split intro!: wp_mono [OF u])
  with w safe.le_refl [of chain w] show ?thesis
    by (auto simp: fetch_and_update_delivery_events_def wp_then wp_perform wp_bind wp_gets wp_ret split: option.split)
qed

section \<open>Polling loses no event\<close>

definition cursor :: "event_world \<Rightarrow> int" where
  "cursor w = (case ew_cursor w of None \<Rightarrow> 0 | Some b \<Rightarrow> b)"

text \<open>The cursor only passes blocks whose events are recorded, and nothing recorded is lost.\<close>

definition advanced :: "order_event list \<Rightarrow> event_world \<Rightarrow> event_world \<Rightarrow> bool" where
  "advanced chain w w' \<longleftrightarrow> cursor w \<le> cursor w' \<and>
     (\<forall>e \<in> set chain. recorded e (ew_orders w) \<longrightarrow> recorded e (ew_orders w')) \<and>
     (\<forall>e \<in> set chain. cursor w < oe_block e \<longrightarrow> oe_block e \<le> cursor w' \<longrightarrow> recorded e (ew_orders w'))"

interpretation adv: world_order "advanced chain" for chain
proof unfold_locales
  fix u v w :: event_world
  assume "advanced chain u v" "advanced chain v w"
  then show "advanced chain u w" unfolding advanced_def by (meson le_less_linear order_trans)
qed (simp add: advanced_def)

lemma advanced_safe: "safe_le chain w w' \<Longrightarrow> advanced chain w w'"
  by (auto simp: advanced_def safe_le_def cursor_def)

lemma min_option_below: "below (min_option a b) n \<longleftrightarrow> below a n \<and> below b n"
  by (auto simp: below_def min_option_def lowest_def split: option.split)

lemma wp_finish:
  assumes "safe_le chain w v" "cursor w < t"
    and "\<forall>e \<in> set chain. cursor w + 1 \<le> oe_block e \<longrightarrow> oe_block e \<le> t \<longrightarrow> below of1 (oe_block e) \<longrightarrow> recorded e (ew_orders v)"
    and "\<forall>f. of1 = Some f \<longrightarrow> f \<le> t" "\<forall>f. of2 = Some f \<longrightarrow> f \<le> t"
  shows "wp (finish_pass env (cursor w + 1) t of1 of2) (\<lambda>_. advanced chain w) (\<lambda>_. advanced chain w) v"
proof -
  have done_up_to: "advanced chain w (v\<lparr>calls := c, ew_cursor := Some b, ew_pending := p\<rparr>)"
    if b: "cursor w < b" "b \<le> t" "below of1 b" for b p c
  proof -
    have "recorded e (ew_orders v)" if e: "e \<in> set chain" "cursor w < oe_block e" "oe_block e \<le> b" for e
    proof -
      have "below of1 (oe_block e)" using b(3) e(3) by (auto simp: below_def split: option.splits)
      with assms(3) e b(2) show ?thesis by auto
    qed
    with assms(1) b(1) show ?thesis by (simp add: advanced_def safe_le_def cursor_def [of "v\<lparr>calls := c, ew_cursor := Some b, ew_pending := p\<rparr>"])
  qed
  have keep: "advanced chain w (v\<lparr>calls := c\<rparr>)" "advanced chain w (v\<lparr>ew_pending := p\<rparr>)" for c p
    using assms(1) by (auto simp: advanced_def safe_le_def cursor_def)
  show ?thesis
  proof (cases "min_option of1 of2")
    case None
    then have "below of1 t" by (auto simp: min_option_def below_def lowest_def split: option.splits if_splits)
    from done_up_to [OF assms(2) order.refl this] keep None show ?thesis
      by (auto simp: finish_pass_def set_cursor_def wps split: option.split)
  next
    case (Some m)
    have m: "below of1 (m - 1)" "m \<le> t"
      using Some assms(4,5) by (auto simp: min_option_def below_def lowest_def split: option.splits if_splits)
    with done_up_to [OF _ _ m(1)] keep Some show ?thesis
      by (auto simp: finish_pass_def set_cursor_def note_failure_def wps split: option.split)
  qed
qed

lemma wp_forward:
  assumes "chain_ok chain" "serves chain env" "cursor w + 1 \<le> safe_block"
  shows "wp (forward_pass env (cursor w + 1) safe_block) (\<lambda>_. advanced chain w) (\<lambda>_. advanced chain w) w"
proof -
  define t where "t = min (cursor w + 1 + EVENT_BLOCK_RANGE - 1) safe_block"
  have t: "cursor w < t" using assms(3) by (simp add: t_def EVENT_BLOCK_RANGE_def)
  have deliveries: "wp (bindE (fetch_and_update_delivery_events env (cursor w + 1) t) (\<lambda>(delivered, delivery_fail).
        finish_pass env (cursor w + 1) t of1 delivery_fail)) (\<lambda>_. advanced chain w) (\<lambda>_. advanced chain w) v"
    if v: "safe_le chain w v"
      "\<forall>e \<in> set chain. cursor w + 1 \<le> oe_block e \<longrightarrow> oe_block e \<le> t \<longrightarrow> below of1 (oe_block e) \<longrightarrow> recorded e (ew_orders v)"
      "\<forall>f. of1 = Some f \<longrightarrow> f \<le> t" for of1 v
    unfolding wp_bind
  proof (rule wp_mono [OF wp_fetch_deliveries [OF assms(2)]])
    fix x v' assume x: "safe_le chain v v' \<and> (\<forall>f. snd x = Some f \<longrightarrow> f \<le> t)"
    then have "safe_le chain w v'" using v(1) by (metis safe.le_trans)
    then have "wp (finish_pass env (cursor w + 1) t of1 (snd x)) (\<lambda>_. advanced chain w) (\<lambda>_. advanced chain w) v'"
      using t by (rule wp_finish) (use v x in \<open>auto simp: safe_le_def\<close>)
    then show "wp (case x of (delivered, delivery_fail) \<Rightarrow> finish_pass env (cursor w + 1) t of1 delivery_fail)
        (\<lambda>_. advanced chain w) (\<lambda>_. advanced chain w) v'" by (cases x) simp
  qed (metis advanced_safe safe.le_trans v(1))
  show ?thesis
    unfolding forward_pass_def Let_def t_def [symmetric] wp_bind
  proof (rule wp_mono [OF wp_fetch_orders [OF assms(1,2)]])
    fix x v assume "safe_le chain w v \<and> (\<forall>e \<in> set chain. cursor w + 1 \<le> oe_block e \<longrightarrow> oe_block e \<le> t \<longrightarrow>
       below (snd x) (oe_block e) \<longrightarrow> recorded e (ew_orders v)) \<and> (\<forall>f. snd x = Some f \<longrightarrow> f \<le> t)"
    then have "wp (bindE (fetch_and_update_delivery_events env (cursor w + 1) t) (\<lambda>(delivered, delivery_fail).
        finish_pass env (cursor w + 1) t (snd x) delivery_fail)) (\<lambda>_. advanced chain w) (\<lambda>_. advanced chain w) v"
      by (intro deliveries) auto
    then show "wp (case x of (stored, order_fail) \<Rightarrow> bindE (fetch_and_update_delivery_events env (cursor w + 1) t) (\<lambda>(delivered, delivery_fail).
        finish_pass env (cursor w + 1) t order_fail delivery_fail)) (\<lambda>_. advanced chain w) (\<lambda>_. advanced chain w) v"
      by (cases x) simp
  qed (rule advanced_safe)
qed

lemma wp_rescan:
  assumes "chain_ok chain" "serves chain env" "advanced chain w0 w"
  shows "wp (rescan_pass env n s) (\<lambda>_. advanced chain w0) (\<lambda>_. advanced chain w0) w"
proof -
  have d: "wp (fetch_and_update_delivery_events env a b) (\<lambda>_. safe_le chain w) (\<lambda>_. safe_le chain w) v" if "safe_le chain w v" for a b v
    by (rule wp_mono [OF wp_fetch_deliveries [OF assms(2)]]) (auto intro: safe.le_trans that)
  have o: "wp (fetch_and_store_order_events env a b) (\<lambda>_. safe_le chain w) (\<lambda>_. safe_le chain w) w" for a b
    by (rule wp_mono [OF wp_fetch_orders [OF assms(1,2)]]) auto
  have "wp (rescan_pass env n s) (\<lambda>_. safe_le chain w) (\<lambda>_. safe_le chain w) w"
    unfolding rescan_pass_def Let_def wp_when wp_catch wp_then
    by (auto simp: wp_ret safe.le_refl intro!: wp_mono [OF o] wp_mono [OF d])
  then show ?thesis by (rule wp_mono) (metis advanced_safe adv.le_trans assms(3))+
qed

lemma wp_index_once:
  assumes "chain_ok chain" "serves chain env"
  shows "wp (index_once env) (\<lambda>_. advanced chain w) (\<lambda>_. advanced chain w) w"
proof -
  let ?w = "w\<lparr>calls := ReadCursor # ChainHead # calls w\<rparr>"
  have a: "advanced chain w (w\<lparr>calls := c\<rparr>)" for c by (simp add: advanced_def cursor_def)
  have f: "wp (whenE (cursor ?w + 1 \<le> s) (forward_pass env (cursor ?w + 1) s)) (\<lambda>_. advanced chain w) (\<lambda>_. advanced chain w) ?w" for s
    unfolding wp_when using a by (auto intro!: wp_mono [OF wp_forward [OF assms]] intro: adv.le_trans)
  have "wp (thenE (whenE (cursor ?w + 1 \<le> s) (forward_pass env (cursor ?w + 1) s)) (rescan_pass env n s))
      (\<lambda>_. advanced chain w) (\<lambda>_. advanced chain w) ?w" for n s
    unfolding wp_then by (rule wp_mono [OF f]) (auto intro: wp_rescan [OF assms])
  with a show ?thesis
    by (auto simp: index_once_def get_cursor_def wp_then wp_bind wp_perform wp_gets wp_let Let_def cursor_def split: option.split)
qed

end
