(* ===== verification/Event_Progress.thy ===== *)
theory Event_Progress
  imports Event_Safety
begin

text \<open>
  The poll loop of the event indexer over any number of rounds: it loses no event whatever fails, it reaches the head of
  the chain when nothing fails; then the two ways to lose events, and the assignment of deliveries to rows.
\<close>

section \<open>Polling loses no event\<close>

lemma advanced_index: "chain_ok chain \<Longrightarrow> serves chain env \<Longrightarrow> grows (advanced chain) (index_once env)"
  by (rule growsI) (rule wp_index_once)

lemma advanced_call: "grows (advanced chain) (ecall env c)"
  by (rule grows_perform) (simp add: advanced_def cursor_def)

lemma advanced_rounds:
  "chain_ok chain \<Longrightarrow> \<forall>env \<in> set envs. serves chain env \<Longrightarrow> grows (advanced chain) (for_each event_poll_round envs)"
  unfolding event_poll_round_def by (intro adv.rules advanced_index advanced_call) auto

text \<open>
  C6: polling loses no event. Over any number of rounds of the poll loop, in environments that serve the events of one
  chain but in which any call may fail at any time, the cursor never goes back, every event in a block the cursor passed has a complete
  row with its data, and every event recorded before is still recorded.
\<close>

theorem poll_no_event_lost:
  assumes "chain_ok chain" and "\<forall>env \<in> set envs. serves chain env"
    and "for_each event_poll_round envs w = (r, w')"
  shows "cursor w \<le> cursor w' \<and>
    (\<forall>e \<in> set chain. cursor w < oe_block e \<and> oe_block e \<le> cursor w' \<or> recorded e (ew_orders w) \<longrightarrow> recorded e (ew_orders w'))"
  using growsD [OF advanced_rounds [OF assms(1,2)] assms(3)] by (auto simp: advanced_def)

section \<open>Reliable environments\<close>

definition reliable :: "event_env \<Rightarrow> bool" where
  "reliable env \<longleftrightarrow> (\<forall>h. ev_fails env h = None) \<and> (\<forall>h. \<not> ev_empty env h)"

lemma reliable_call: "reliable env \<Longrightarrow> returns (ecall env c)"
  by (rule returns_perform) (simp add: reliable_def)

lemma reliable_load: "reliable env \<Longrightarrow> returns (load_otoken_metadata env a)"
  unfolding load_otoken_metadata_def load_otoken_metadata_from_db_def load_otoken_metadata_from_chain_def Let_def
  by (intro returns_rules reliable_call)

lemma reliable_usd: "reliable env \<Longrightarrow> returns (enrich_with_collateral_usd env d)"
  unfolding enrich_with_collateral_usd_def spot_price_def Let_def by (intro returns_rules reliable_call)

lemma reliable_notify: "reliable env \<Longrightarrow> returns (for_each (notify_mm env) ds)"
  unfolding notify_mm_def by (intro returns_rules reliable_call)

lemma reliable_updates: "reliable env \<Longrightarrow> returns (update_delivery_events env ds)"
  unfolding update_delivery_events_def update_delivery_event_def by (intro returns_rules reliable_call)

lemma reliable_enrich:
  assumes "reliable env"
  shows "wp (enrich_with_otoken_metadata env (build_order_event_data e))
     (\<lambda>x w'. same_tables w w' \<and> (\<exists>d. x = Some d \<and> eo_tx d = oe_tx e \<and> \<not> missing_critical d)) (\<lambda>_ _. False) w"
proof -
  have "wp (load_otoken_metadata env a) (\<lambda>_. same_tables w) (\<lambda>_ _. False) w" for a
    by (rule wp_returns [OF reliable_load [OF assms]], rule wp_mono [OF frame.wp_le [OF frame_load frame.le_refl]]) auto
  then show ?thesis
    unfolding enrich_with_otoken_metadata_def wp_catch wp_bind
    by (rule wp_mono) (auto simp: wp_ret missing_critical_def build_order_event_data_def)
qed

lemma reliable_usd_row:
  assumes "reliable env"
  shows "wp (enrich_with_collateral_usd env d)
    (\<lambda>d' w'. same_tables w w' \<and> eo_tx d' = eo_tx d \<and> missing_critical d' = missing_critical d) (\<lambda>_ _. False) w"
  by (rule wp_returns [OF reliable_usd [OF assms]])
    (auto simp: enrich_with_collateral_usd_def spot_price_def wps Let_def same_tables_def missing_critical_def split: option.split)

lemma reliable_collect:
  assumes "reliable env" "same_tables w0 w"
  shows "wp (foldE (collect_order env) (ds, None) evs)
    (\<lambda>x w'. same_tables w0 w' \<and> snd x = None \<and> (\<exists>xs. fst x = ds @ xs \<and> map eo_tx xs = map oe_tx evs \<and> \<not> list_ex missing_critical xs))
    (\<lambda>_ _. False) w"
  using assms(2)
proof (induction evs arbitrary: ds w)
  case (Cons e evs)
  have "wp (collect_order env (ds, None) e)
      (\<lambda>x w'. same_tables w0 w' \<and> (\<exists>d. x = (ds @ [d], None) \<and> eo_tx d = oe_tx e \<and> \<not> missing_critical d)) (\<lambda>_ _. False) w"
    unfolding collect_step wp_bind
  proof (rule wp_mono [OF reliable_enrich [OF assms(1)]])
    fix x w1 assume x: "same_tables w w1 \<and> (\<exists>d. x = Some d \<and> eo_tx d = oe_tx e \<and> \<not> missing_critical d)"
    then obtain d where d: "x = Some d" "eo_tx d = oe_tx e" "\<not> missing_critical d" by blast
    have w1: "same_tables w0 w1" using x Cons.prems by (metis frame.le_trans)
    have "wp (enrich_with_collateral_usd env d)
        (\<lambda>d' w'. same_tables w0 w' \<and> (\<exists>d''. (ds @ [d'], None :: int option) = (ds @ [d''], None) \<and> eo_tx d'' = oe_tx e \<and> \<not> missing_critical d''))
        (\<lambda>_ _. False) w1"
      by (rule wp_mono [OF reliable_usd_row [OF assms(1)]]) (use d w1 in \<open>auto intro: frame.le_trans\<close>)
    then show "wp (case x of None \<Rightarrow> ret (ds, lowest None (oe_block e))
       | Some d \<Rightarrow> if None \<noteq> None then ret (ds, None)
           else bindE (enrich_with_collateral_usd env d) (\<lambda>d. ret (ds @ [d], None)))
       (\<lambda>x w'. same_tables w0 w' \<and> (\<exists>d. x = (ds @ [d], None) \<and> eo_tx d = oe_tx e \<and> \<not> missing_critical d)) (\<lambda>_ _. False) w1"
      by (simp only: d option.case if_False wp_bind wp_ret_fun not_True_eq_False simp_thms)
  qed simp
  then show ?case
    unfolding foldE.simps wp_bind
  proof (rule wp_mono)
    fix x :: "order_row list \<times> int option" and w1
    assume "same_tables w0 w1 \<and> (\<exists>d. x = (ds @ [d], None) \<and> eo_tx d = oe_tx e \<and> \<not> missing_critical d)"
    then obtain d where w1: "same_tables w0 w1" and d: "x = (ds @ [d], None)" "eo_tx d = oe_tx e" "\<not> missing_critical d" by blast
    show "wp (foldE (collect_order env) x evs)
       (\<lambda>x w'. same_tables w0 w' \<and> snd x = None \<and>
          (\<exists>xs. fst x = ds @ xs \<and> map eo_tx xs = map oe_tx (e # evs) \<and> \<not> list_ex missing_critical xs)) (\<lambda>_ _. False) w1"
      unfolding d(1) by (rule wp_mono [OF Cons.IH [OF w1]]) (use d in auto)
  qed simp
qed (simp add: wps)

text \<open>Fetching order events: it succeeds without a failed block unless a transaction occurs twice.\<close>

lemma reliable_fetch_orders:
  assumes "reliable env" and "evs = ev_orders env (GetOrderLogs a b # calls w)"
  shows "wp (fetch_and_store_order_events env a b)
     (\<lambda>x w'. distinct (map oe_tx evs) \<and> snd x = None)
     (\<lambda>e w'. e \<noteq> NoReturn \<and> \<not> distinct (map oe_tx evs) \<and> same_tables w w') w"
proof -
  let ?w = "w\<lparr>calls := GetOrderLogs a b # calls w\<rparr>"
  define Q where "Q x w' \<longleftrightarrow> distinct (map oe_tx evs) \<and> snd x = None" for x :: "nat \<times> int option" and w' :: event_world
  define E where "E e w' \<longleftrightarrow> e \<noteq> NoReturn \<and> \<not> distinct (map oe_tx evs) \<and> same_tables w w'" for e :: exn and w'
  have tail: "wp (bindE (store_events env ds) (\<lambda>stored. thenE (for_each (notify_mm env) ds) (ret (stored, None)))) Q E w1"
    if "same_tables w w1" "map eo_tx ds = map oe_tx evs" "\<not> list_ex missing_critical ds" for ds w1
  proof -
    have n: "wp (for_each (notify_mm env) ds) (\<lambda>_. Q (m, None)) E v" if "distinct (map oe_tx evs)" for m v
      by (rule wp_returns [OF reliable_notify [OF assms(1)]]) (use that in \<open>auto simp: wp_def Q_def split: prod.split sum.split\<close>)
    show ?thesis
      using that assms(1) n
      by (auto simp: wp_bind wp_then wp_ret_fun store_events_def wp_if wp_ret wp_raise wp_perform wp_gets wp_modify reliable_def
          E_def same_tables_def)
  qed
  have w: "same_tables w ?w" by (simp add: same_tables_def)
  have "wp (foldE (collect_order env) ([], None) evs)
     (\<lambda>x. wp (case x of (ds, ff) \<Rightarrow> bindE (store_events env ds) (\<lambda>stored. thenE (for_each (notify_mm env) ds) (ret (stored, ff)))) Q E) E ?w"
    by (rule wp_mono [OF reliable_collect [OF assms(1) w]]) (auto intro!: tail)
  then have "wp (fetch_and_store_order_events env a b) Q E w"
    using assms by (simp add: fetch_and_store_order_events_def wp_then wp_perform wp_bind wp_gets reliable_def)
  then show ?thesis by (rule wp_mono) (simp_all add: Q_def E_def)
qed

section \<open>Polling reaches the head\<close>

lemma collect_delivery_reliable:
  assumes "reliable env"
  shows "wp (foldE (collect_delivery env) (ds, None) evs) (\<lambda>x _. snd x = None) (\<lambda>_ _. False) w"
proof (rule wp_mono [OF wp_foldE [where I = "\<lambda>x _. snd x = None"]])
  fix s :: "delivery_data list \<times> int option" and e w1
  assume s: "snd s = None"
  obtain ds where ds: "s = (ds, None)" using s by (cases s) auto
  have "wp (load_otoken_metadata env a) (\<lambda>_ _. True) (\<lambda>_ _. False) w1" for a
    by (rule wp_returns [OF reliable_load [OF assms]]) (simp add: wp_def split: prod.split sum.split)
  then have "wp (build_delivery_event_data env e) (\<lambda>x _. x \<noteq> None) (\<lambda>_ _. False) w1"
    unfolding build_delivery_event_data_def wp_catch wp_bind by (rule wp_mono) (simp_all add: wp_ret)
  then show "wp (collect_delivery env s e) (\<lambda>x _. snd x = None) (\<lambda>_ _. False) w1"
    unfolding ds collect_delivery_step wp_bind by (rule wp_mono) (auto simp: wp_ret)
qed simp_all

lemma reliable_fetch_deliveries:
  assumes "reliable env"
  shows "wp (fetch_and_update_delivery_events env a b) (\<lambda>x _. snd x = None) (\<lambda>_ _. False) w"
proof -
  have u: "wp (update_delivery_events env ds) (\<lambda>_ _. True) (\<lambda>_ _. False) v" for ds v
    by (rule wp_returns [OF reliable_updates [OF assms]]) (simp add: wp_def split: prod.split sum.split)
  have "wp (foldE (collect_delivery env) ([], None) evs)
     (\<lambda>x. wp (case x of (to_update, first_failed) \<Rightarrow> bindE (update_delivery_events env to_update) (\<lambda>updated. ret (updated, first_failed)))
        (\<lambda>x _. snd x = None) (\<lambda>_ _. False)) (\<lambda>_ _. False) v" for evs v
    by (rule wp_mono [OF collect_delivery_reliable [OF assms]])
      (auto simp: wp_bind wp_ret split: prod.split intro!: wp_mono [OF u])
  with assms show ?thesis
    by (auto simp: fetch_and_update_delivery_events_def wp_then wp_perform wp_bind wp_gets wp_ret reliable_def)
qed

text \<open>Neither fetch moves the cursor or notes a failure (\<open>safe_le []\<close>).\<close>

lemma safe_collect_order: "grows (safe_le chain) (collect_order env s e)"
  by (cases s) (simp only: collect_step, intro safe.rules grows_safe [OF frame_enrich] grows_safe [OF frame_usd])

lemma safe_collect_delivery: "grows (safe_le chain) (collect_delivery env s e)"
  by (cases s) (simp only: collect_delivery_step, intro safe.rules grows_safe [OF frame_build_delivery])

lemma safe_fetch_orders: "grows (safe_le []) (fetch_and_store_order_events env a b)"
  unfolding fetch_and_store_order_events_def store_events_def
  by (intro safe.rules safe_collect_order safe_call safe.grows_modify grows_safe [OF frame_notify]) (simp_all add: safe_le_def)

lemma safe_fetch_deliveries: "grows (safe_le []) (fetch_and_update_delivery_events env a b)"
  unfolding fetch_and_update_delivery_events_def update_delivery_events_def
  by (intro safe.rules safe_call safe_update_delivery safe_collect_delivery)

lemma fetch_orders_succeeds:
  assumes "reliable env" "chain_ok chain" "serves chain env"
  shows "wp (fetch_and_store_order_events env a b) (\<lambda>x w'. snd x = None \<and> safe_le [] w w') (\<lambda>_ _. False) w"
proof -
  have d: "distinct (map oe_tx (ev_orders env (GetOrderLogs a b # calls w)))"
    using assms(2,3) by (simp add: chain_ok_def serves_def distinct_map_filter)
  from safe_fetch_orders have "wp (fetch_and_store_order_events env a b) (\<lambda>_. safe_le [] w) (\<lambda>_. safe_le [] w) w"
    by (rule safe.wp_le) (rule safe.le_refl)
  from wp_conj [OF reliable_fetch_orders [OF assms(1) refl] this] show ?thesis
    by (rule wp_mono) (use d in auto)
qed

lemma fetch_deliveries_succeeds:
  assumes "reliable env"
  shows "wp (fetch_and_update_delivery_events env a b) (\<lambda>x w'. snd x = None \<and> safe_le [] w w') (\<lambda>_ _. False) w"
proof -
  from safe_fetch_deliveries have "wp (fetch_and_update_delivery_events env a b) (\<lambda>_. safe_le [] w) (\<lambda>_. safe_le [] w) w"
    by (rule safe.wp_le) (rule safe.le_refl)
  from wp_conj [OF reliable_fetch_deliveries [OF assms] this] show ?thesis by (rule wp_mono) auto
qed

lemma finish_clean: "reliable env \<Longrightarrow> wp (finish_pass env a t None None) (\<lambda>_ w'. cursor w' = t) (\<lambda>_ _. False) w"
  by (simp add: finish_pass_def min_option_def set_cursor_def wps cursor_def reliable_def)

lemma forward_succeeds:
  assumes "reliable env" "chain_ok chain" "serves chain env"
  shows "wp (forward_pass env a s) (\<lambda>_ w'. cursor w' = min (a + EVENT_BLOCK_RANGE - 1) s) (\<lambda>_ _. False) w"
proof -
  define t where "t = min (a + EVENT_BLOCK_RANGE - 1) s"
  have "wp (bindE (fetch_and_update_delivery_events env a t) (\<lambda>(delivered, delivery_fail).
      finish_pass env a t None delivery_fail)) (\<lambda>_ w'. cursor w' = t) (\<lambda>_ _. False) v" for v
    unfolding wp_bind
    by (rule wp_mono [OF fetch_deliveries_succeeds [OF assms(1)]]) (auto split: prod.split intro: finish_clean [OF assms(1)])
  then show ?thesis
    unfolding forward_pass_def Let_def t_def [symmetric] wp_bind [of "fetch_and_store_order_events env a t"]
    by (intro wp_mono [OF fetch_orders_succeeds [OF assms]]) (auto split: prod.split)
qed

lemma rescan_succeeds:
  assumes "reliable env" "chain_ok chain" "serves chain env"
  shows "wp (rescan_pass env n s) (\<lambda>_ w'. cursor w' = cursor w) (\<lambda>_ _. False) w"
proof -
  have d: "wp (fetch_and_update_delivery_events env a b) (\<lambda>_ w'. cursor w' = cursor w) E v"
    if "safe_le [] w v" for a b v E
    by (rule wp_mono [OF fetch_deliveries_succeeds [OF assms(1)]]) (use that in \<open>auto simp: safe_le_def cursor_def\<close>)
  have o: "wp (fetch_and_store_order_events env a b)
      (\<lambda>_. wp (fetch_and_update_delivery_events env a b) (\<lambda>_ w'. cursor w' = cursor w) E) E w" for a b E
    by (rule wp_mono [OF fetch_orders_succeeds [OF assms]]) (auto intro: d)
  show ?thesis
    unfolding rescan_pass_def Let_def wp_when wp_catch wp_then wp_ret_fun by (simp add: o)
qed

lemma index_succeeds:
  assumes "reliable env" "chain_ok chain" "serves chain env" "\<forall>h. H \<le> ev_head env h"
  shows "wp (index_once env) (\<lambda>_ w'. min (cursor w + EVENT_BLOCK_RANGE) (H - EVENT_CONFIRMATIONS) \<le> cursor w') (\<lambda>_ _. False) w"
proof -
  let ?w = "w\<lparr>calls := ReadCursor # ChainHead # calls w\<rparr>"
  let ?Q = "\<lambda>_ w'. min (cursor w + EVENT_BLOCK_RANGE) (H - EVENT_CONFIRMATIONS) \<le> cursor w'"
  define n where "n = ev_head env (ChainHead # calls w) - EVENT_CONFIRMATIONS"
  have n: "H - EVENT_CONFIRMATIONS \<le> n" using assms(4) by (simp add: n_def)
  have r: "wp (rescan_pass env (cursor w) n) ?Q (\<lambda>_ _. False) v" if "?Q () v" for v
    by (rule wp_mono [OF rescan_succeeds [OF assms(1-3)]]) (use that in auto)
  have f: "wp (forward_pass env (cursor w + 1) n) (\<lambda>_. wp (rescan_pass env (cursor w) n) ?Q (\<lambda>_ _. False)) (\<lambda>_ _. False) ?w"
    by (rule wp_mono [OF forward_succeeds [OF assms(1-3)]]) (use n in \<open>auto intro!: r\<close>)
  have s: "wp (rescan_pass env (cursor w) n) ?Q (\<lambda>_ _. False) ?w" if "\<not> cursor w + 1 \<le> n"
    by (rule r) (use that n in \<open>auto simp: cursor_def split: option.split\<close>)
  have e: "ev_fails env h = None" for h using assms(1) by (simp add: reliable_def)
  have c: "(case ew_cursor w of None \<Rightarrow> 0 | Some b \<Rightarrow> b) = cursor w" by (simp add: cursor_def)
  show ?thesis
    unfolding index_once_def get_cursor_def
    using f s by (simp add: wp_then wp_bind wp_perform wp_gets wp_let wp_when Let_def e c n_def [symmetric])
qed


section \<open>An example\<close>

definition demo_order :: order_event where
  "demo_order = \<lparr>oe_tx = ''0xt1'', oe_block = 5, oe_log_index = 0, oe_user = ''0xU'', oe_mm = ''0xM'', oe_otoken = ''0xO'',
     oe_amount = 100000000, oe_gross = 1000000, oe_net = 960000, oe_fee = 40000, oe_collateral = 2000000000, oe_vault = 1\<rparr>"

definition demo_event_settings :: event_settings where
  "demo_event_settings = \<lparr>es_weth = ''0xweth'', es_wbtc = ''0xwbtc'', es_usdc = ''0xusdc'', es_wss_url = [], es_poll_interval = 5\<rparr>"

definition in_range :: "int \<Rightarrow> int \<Rightarrow> order_event list \<Rightarrow> order_event list" where
  "in_range a b chain = filter (\<lambda>e. a \<le> oe_block e \<and> oe_block e \<le> b) chain"

definition demo_event_env :: "order_event list \<Rightarrow> event_call set \<Rightarrow> event_env" where
  "demo_event_env chain bad = \<lparr>ev_fails = (\<lambda>h. if hd h \<in> bad then Some (OtherError ''down'') else None),
     ev_settings = demo_event_settings, ev_head = (\<lambda>h. 10),
     ev_orders = (\<lambda>h. case hd h of GetOrderLogs a b \<Rightarrow> in_range a b chain | _ \<Rightarrow> []),
     ev_deliveries = (\<lambda>h. []), ev_in_abi = True, ev_db_otoken = (\<lambda>h. None),
     ev_chain_otoken = (\<lambda>h. (200000000000, 1700000000, True, ''0xWETH'')), ev_spot = (\<lambda>h. 2000),
     ev_new_id = (\<lambda>h n. ''id''), ev_empty = (\<lambda>h. False)\<rparr>"

definition empty_event_world :: event_world where
  "empty_event_world = \<lparr>calls = [], ew_cursor = None, ew_orders = [], ew_cache = [], ew_pending = None\<rparr>"

lemma demo_chain_ok: "chain_ok [demo_order]"
  by (simp add: chain_ok_def)

lemma demo_serves: "serves chain (demo_event_env chain bad)"
  by (simp add: serves_def demo_event_env_def in_range_def)

lemma demo_reliable: "reliable (demo_event_env chain {})"
  by (simp add: reliable_def demo_event_env_def)

lemma demo_cursor: "cursor empty_event_world = 0" "cache_ok (ew_cache empty_event_world)"
  by (simp_all add: empty_event_world_def cursor_def cache_ok_def)

theorem poll_no_event_lost_witness:
  "\<exists>r w'. for_each event_poll_round [demo_event_env [demo_order] {UpsertOrders}, demo_event_env [demo_order] {}] empty_event_world =
      (r, w') \<and> 0 \<le> cursor w' \<and> (cursor w' < 5 \<or> recorded demo_order (ew_orders w'))"
proof -
  obtain r w' where r: "for_each event_poll_round [demo_event_env [demo_order] {UpsertOrders}, demo_event_env [demo_order] {}] empty_event_world = (r, w')"
    by fastforce
  then show ?thesis
    using poll_no_event_lost [OF demo_chain_ok _ r] demo_serves demo_cursor by (auto simp: demo_order_def)
qed

lemma demo_head: "ev_head (demo_event_env chain bad) h = 10"
  by (simp add: demo_event_env_def)


section \<open>The subscription skips blocks\<close>

text \<open>\<open>asks k\<close>: only order logs from block \<open>k\<close> on are requested, and the cursor stays.\<close>

definition asks :: "int \<Rightarrow> event_world \<Rightarrow> event_world \<Rightarrow> bool" where
  "asks k w w' \<longleftrightarrow> ew_cursor w' = ew_cursor w \<and>
     (\<exists>cs. calls w' = cs @ calls w \<and> (\<forall>a b. GetOrderLogs a b \<in> set cs \<longrightarrow> k \<le> a))"

interpretation ask: world_order "asks k" for k
proof unfold_locales
  fix u v w :: event_world
  assume "asks k u v" "asks k v w"
  then obtain cs ds where "ew_cursor w = ew_cursor u" "calls v = cs @ calls u" "calls w = ds @ calls v"
    "\<forall>a b. GetOrderLogs a b \<in> set cs \<longrightarrow> k \<le> a" "\<forall>a b. GetOrderLogs a b \<in> set ds \<longrightarrow> k \<le> a"
    by (auto simp: asks_def)
  then show "asks k u w" unfolding asks_def by (intro conjI exI [of _ "ds @ cs"]) auto
qed (simp add: asks_def)

lemma ask_call: "(\<And>a b. c = GetOrderLogs a b \<Longrightarrow> k \<le> a) \<Longrightarrow> grows (asks k) (ecall env c)"
  by (rule grows_perform) (auto simp: asks_def)

lemma ask_load: "grows (asks k) (load_otoken_metadata env a)"
  unfolding load_otoken_metadata_def load_otoken_metadata_from_db_def load_otoken_metadata_from_chain_def Let_def
  by (intro ask.rules ask.grows_modify ask_call) (simp_all add: asks_def)

lemma ask_enrich: "grows (asks k) (enrich_with_otoken_metadata env d)"
  unfolding enrich_with_otoken_metadata_def by (intro ask.rules ask_load)

lemma ask_usd: "grows (asks k) (enrich_with_collateral_usd env d)"
  unfolding enrich_with_collateral_usd_def spot_price_def Let_def by (intro ask.rules ask_call) simp_all

lemma ask_store: "grows (asks k) (store_events env ds)"
  unfolding store_events_def by (intro ask.rules ask.grows_modify ask_call) (simp_all add: asks_def)

lemma ask_notify: "grows (asks k) (notify_mm env d)"
  unfolding notify_mm_def by (intro ask.rules ask_call) simp_all

lemma ask_orders: "k \<le> a \<Longrightarrow> grows (asks k) (fetch_and_store_order_events env a b)"
  unfolding fetch_and_store_order_events_def
proof (intro ask.rules ask_store ask_notify)
  show "k \<le> a \<Longrightarrow> grows (asks k) (ecall env (GetOrderLogs a b))" by (rule ask_call) simp
  show "grows (asks k) (collect_order env s e)" for s e
    by (cases s) (simp only: collect_step, intro ask.rules ask_enrich ask_usd)
qed

lemma ask_deliveries: "grows (asks k) (fetch_and_update_delivery_events env a b)"
  unfolding fetch_and_update_delivery_events_def update_delivery_events_def update_delivery_event_def
proof (intro ask.rules ask.grows_modify ask_call)
  show "grows (asks k) (collect_delivery env s e)" for s e
    by (cases s) (simp only: collect_delivery_step build_delivery_event_data_def, intro ask.rules ask_load)
qed (simp_all add: asks_def)

text \<open>\<open>held B w0 w\<close>: the cursor is at \<open>B\<close> or beyond, and since \<open>w0\<close> no block more than 50 below \<open>B\<close> was requested.\<close>

definition held :: "int \<Rightarrow> event_world \<Rightarrow> event_world \<Rightarrow> bool" where
  "held B w0 w \<longleftrightarrow> B \<le> cursor w \<and> (\<exists>cs. calls w = cs @ calls w0 \<and> (\<forall>a b. GetOrderLogs a b \<in> set cs \<longrightarrow> B - EVENT_RESCAN \<le> a))"

lemma held_ask: "held B w0 u \<Longrightarrow> asks (B - EVENT_RESCAN) u v \<Longrightarrow> held B w0 v"
  by (fastforce simp: held_def asks_def cursor_def)

lemma wp_held:
  assumes "grows (asks (B - EVENT_RESCAN)) m" "held B w0 w"
  shows "wp m (\<lambda>_. held B w0) (\<lambda>_. held B w0) w"
  by (rule wp_mono [OF ask.wp_le [OF assms(1) ask.le_refl]]) (auto intro: held_ask [OF assms(2)])

lemma held_call: "held B w0 w \<Longrightarrow> (\<And>a b. c \<noteq> GetOrderLogs a b) \<Longrightarrow> held B w0 (w\<lparr>calls := c # calls w\<rparr>)"
  by (rule held_ask, assumption) (auto simp: asks_def)

lemma held_cursor: "held B w0 w \<Longrightarrow> B \<le> b \<Longrightarrow> held B w0 (w\<lparr>ew_cursor := Some b\<rparr>)"
  by (simp add: held_def cursor_def)

lemma held_pending: "held B w0 (w\<lparr>ew_pending := p\<rparr>) = held B w0 w"
  by (simp add: held_def cursor_def)

lemma held_set_cursor: "held B w0 w \<Longrightarrow> B \<le> b \<Longrightarrow> wp (set_cursor env b) (\<lambda>_. held B w0) (\<lambda>_. held B w0) w"
  by (auto simp: set_cursor_def wps intro!: held_cursor held_call split: option.split)

lemma held_finish:
  assumes "held B w0 w" "B \<le> a" "a \<le> t"
  shows "wp (finish_pass env a t of1 of2) (\<lambda>_. held B w0) (\<lambda>_. held B w0) w"
  using assms
  by (auto simp: finish_pass_def note_failure_def wp_option wp_then wp_if wp_ret wp_modify held_pending split: option.split
      intro!: held_set_cursor wp_mono [OF held_set_cursor])

lemma held_index:
  assumes "held B w0 w"
  shows "wp (index_once env) (\<lambda>_. held B w0) (\<lambda>_. held B w0) w"
proof -
  let ?w = "w\<lparr>calls := ReadCursor # ChainHead # calls w\<rparr>"
  have b: "B \<le> cursor w" using assms by (simp add: held_def)
  have orders: "wp (fetch_and_store_order_events env a e) (\<lambda>_. held B w0) (\<lambda>_. held B w0) v"
    if "B - EVENT_RESCAN \<le> a" "held B w0 v" for a e v
    using that by (intro wp_held ask_orders)
  have deliveries: "wp (fetch_and_update_delivery_events env a e) (\<lambda>_. held B w0) (\<lambda>_. held B w0) v" if "held B w0 v" for a e v
    using that by (intro wp_held ask_deliveries)
  have forward: "wp (forward_pass env a s) (\<lambda>_. held B w0) (\<lambda>_. held B w0) v" if "B \<le> a" "a \<le> s" "held B w0 v" for a s v
    unfolding forward_pass_def Let_def wp_bind
    using that by (auto simp: EVENT_BLOCK_RANGE_def EVENT_RESCAN_def wp_bind split: prod.split
        intro!: wp_mono [OF orders] wp_mono [OF deliveries] wp_mono [OF held_finish])
  have rescan: "wp (rescan_pass env (cursor w) s) (\<lambda>_. held B w0) (\<lambda>_. held B w0) v" if "held B w0 v" for s v
    unfolding rescan_pass_def Let_def wp_when wp_catch wp_then
    using b that by (auto simp: wp_ret intro!: wp_mono [OF orders] wp_mono [OF deliveries])
  have w: "held B w0 (w\<lparr>calls := ChainHead # calls w\<rparr>)" "held B w0 ?w"
    using assms held_call [of B w0 "w\<lparr>calls := ChainHead # calls w\<rparr>" ReadCursor] by (auto intro: held_call)
  have c: "(case ew_cursor w of None \<Rightarrow> 0 | Some b \<Rightarrow> b) = cursor w" by (simp add: cursor_def)
  show ?thesis
    unfolding index_once_def get_cursor_def
    using w b by (auto simp: wp_then wp_bind wp_perform wp_gets wp_let wp_when Let_def c split: option.split
        intro!: wp_mono [OF forward] rescan)
qed

lemma held_rounds:
  assumes "held B w0 w" shows "wp (for_each event_poll_round envs) (\<lambda>_. held B w0) (\<lambda>_. held B w0) w"
proof (rule wp_for_each [where I = "held B w0"])
  show "held B w0 w" by (rule assms)
  fix env v assume "held B w0 v"
  then show "wp (event_poll_round env) (\<lambda>_. held B w0) (\<lambda>_. held B w0) v"
    unfolding event_poll_round_def wp_then wp_catch
    by (intro wp_mono [OF held_index]) (auto simp: wp_ret wp_perform split: option.split intro: held_call)
qed

lemma subscription_sets_cursor:
  assumes "reliable env" "ew_pending w = None" "0 \<le> oe_block e"
  shows "wp (process_subscription_log env (OrderLog e))
    (\<lambda>_ w'. ew_cursor w' = Some (oe_block e) \<and> (\<forall>r \<in> set (ew_orders w'). eo_tx r \<noteq> oe_tx e \<longrightarrow> r \<in> set (ew_orders w)))
    (\<lambda>_ _. False) w"
proof -
  define Q where "Q w' \<longleftrightarrow> ew_cursor w' = Some (oe_block e) \<and>
    (\<forall>r \<in> set (ew_orders w'). eo_tx r \<noteq> oe_tx e \<longrightarrow> r \<in> set (ew_orders w))" for w' :: event_world
  define rows where "rows w' \<longleftrightarrow> ew_pending w' = None \<and>
    (\<forall>r \<in> set (ew_orders w'). eo_tx r \<noteq> oe_tx e \<longrightarrow> r \<in> set (ew_orders w))" for w' :: event_world
  have advance: "wp (advance_cursor env (oe_block e)) (\<lambda>_. Q) (\<lambda>_ _. False) v" if "rows v" for v
    using that assms by (simp add: advance_cursor_def set_cursor_def wps safe_advance_target_def rows_def reliable_def Q_def)
  have notify: "wp (notify_mm env d) (\<lambda>_. wp (advance_cursor env (oe_block e)) (\<lambda>_. Q) (\<lambda>_ _. False)) (\<lambda>_ _. False) v"
    if "rows v" for d v
  proof -
    have "returns (notify_mm env d)" using reliable_notify [OF assms(1), of "[d]"]
      unfolding notify_mm_def by (intro returns_rules reliable_call assms(1))
    then show ?thesis
      by (rule wp_returns) (rule wp_mono [OF frame.wp_le [OF frame_notify frame.le_refl]],
          use that in \<open>auto simp: same_tables_def rows_def intro!: advance [unfolded rows_def]\<close>)
  qed
  have store: "wp (store_events env [d]) (\<lambda>_. rows) (\<lambda>_ _. False) v"
    if "same_tables w v" "eo_tx d = oe_tx e" "\<not> missing_critical d" for d v
    using that assms(1,2)
    by (auto simp: store_events_def wps reliable_def rows_def same_tables_def number_orders_def upsert_order_def set_tbl_update
        upsert_columns_def)
  have usd: "wp (enrich_with_collateral_usd env d) (\<lambda>d. wp (or_return (store_events env [d]) (\<lambda>_.
      thenE (notify_mm env d) (advance_cursor env (oe_block e)))) (\<lambda>_. Q) (\<lambda>_ _. False)) (\<lambda>_ _. False) v"
    if "same_tables w v" "eo_tx d = oe_tx e" "\<not> missing_critical d" for d v
  proof (rule wp_mono [OF reliable_usd_row [OF assms(1)]])
    fix d' v' assume "same_tables v v' \<and> eo_tx d' = eo_tx d \<and> missing_critical d' = missing_critical d"
    then have "wp (store_events env [d']) (\<lambda>_. rows) (\<lambda>_ _. False) v'"
      using that by (intro store) (auto intro: frame.le_trans)
    then show "wp (or_return (store_events env [d']) (\<lambda>_. thenE (notify_mm env d') (advance_cursor env (oe_block e)))) (\<lambda>_. Q) (\<lambda>_ _. False) v'"
      unfolding or_return_def wp_bind wp_try by (rule wp_mono) (auto simp: wp_then intro: notify)
  qed simp
  have "wp (enrich_with_otoken_metadata env (build_order_event_data e)) (\<lambda>x. wp (case x of None \<Rightarrow> note_failure (oe_block e)
       | Some d \<Rightarrow> bindE (enrich_with_collateral_usd env d) (\<lambda>d. or_return (store_events env [d]) (\<lambda>_.
               thenE (notify_mm env d) (advance_cursor env (oe_block e))))) (\<lambda>_. Q) (\<lambda>_ _. False)) (\<lambda>_ _. False)
      (w\<lparr>calls := Decode # calls w\<rparr>)"
  proof (rule wp_mono [OF reliable_enrich [OF assms(1)]])
    fix x v assume "same_tables (w\<lparr>calls := Decode # calls w\<rparr>) v \<and> (\<exists>d. x = Some d \<and> eo_tx d = oe_tx e \<and> \<not> missing_critical d)"
    then obtain d where "same_tables w v" "x = Some d" "eo_tx d = oe_tx e" "\<not> missing_critical d" by (auto simp: same_tables_def)
    then show "wp (case x of None \<Rightarrow> note_failure (oe_block e)
       | Some d \<Rightarrow> bindE (enrich_with_collateral_usd env d) (\<lambda>d. or_return (store_events env [d]) (\<lambda>_.
               thenE (notify_mm env d) (advance_cursor env (oe_block e))))) (\<lambda>_. Q) (\<lambda>_ _. False) v"
      by (simp add: wp_bind usd)
  qed simp
  then have "wp (process_subscription_log env (OrderLog e)) (\<lambda>_. Q) (\<lambda>_ _. False) w"
    using assms(1)
    by (simp add: process_subscription_log_def process_order_subscription_log_def or_return_def [of "ecall env Decode"] wp_bind wp_try wp_perform reliable_def)
  then show ?thesis by (rule wp_mono) (simp_all add: Q_def)
qed

text \<open>
  A subscription message moves the cursor to its own block, whatever the old cursor, when no failure is pending. From
  then on polling requests no order more than 50 blocks below that block: events between the old cursor and there, if
  the start-up catch-up of one window did not reach them, are not indexed.
\<close>

lemma subscription_skips_blocks:
  assumes "reliable env" "ew_pending w = None" "0 \<le> oe_block e"
    and "process_subscription_log env (OrderLog e) w = (r, w1)"
    and "for_each event_poll_round envs w1 = (r', w2)"
  shows "ew_cursor w1 = Some (oe_block e) \<and>
    (\<forall>r \<in> set (ew_orders w1). eo_tx r \<noteq> oe_tx e \<longrightarrow> r \<in> set (ew_orders w)) \<and>
    (\<forall>a b. GetOrderLogs a b \<in> set (new_calls w1 w2) \<longrightarrow> oe_block e - 50 \<le> a)"
proof -
  have c: "ew_cursor w1 = Some (oe_block e)" "\<forall>r \<in> set (ew_orders w1). eo_tx r \<noteq> oe_tx e \<longrightarrow> r \<in> set (ew_orders w)"
    using subscription_sets_cursor [OF assms(1-3)] assms(4) by (cases r; simp add: wp_def)+
  then have "held (oe_block e) w1 w1" by (simp add: held_def cursor_def)
  from held_rounds [OF this, of envs] assms(5) have "held (oe_block e) w1 w2" by (cases r') (simp_all add: wp_def)
  then obtain cs where "calls w2 = cs @ calls w1" "\<forall>a b. GetOrderLogs a b \<in> set cs \<longrightarrow> oe_block e - 50 \<le> a"
    by (auto simp: held_def EVENT_RESCAN_def)
  with c show ?thesis by simp
qed

definition late_order :: order_event where
  "late_order = demo_order\<lparr>oe_tx := ''0xt2'', oe_block := 5000\<rparr>"

lemma subscription_skips_blocks_witness:
  "\<exists>r w1. process_subscription_log (demo_event_env [demo_order] {}) (OrderLog late_order) empty_event_world = (r, w1) \<and>
     ew_cursor w1 = Some 5000 \<and>
     list_all (\<lambda>c. case c of GetOrderLogs a b \<Rightarrow> 4950 \<le> a | _ \<Rightarrow> True)
       (new_calls w1 (snd (for_each event_poll_round [demo_event_env [demo_order] {}] w1)))"
proof -
  obtain r w1 where r: "process_subscription_log (demo_event_env [demo_order] {}) (OrderLog late_order) empty_event_world = (r, w1)"
    by fastforce
  obtain r' w2 where r': "for_each event_poll_round [demo_event_env [demo_order] {}] w1 = (r', w2)" by fastforce
  have w: "ew_pending empty_event_world = None" "0 \<le> oe_block late_order"
    by (simp_all add: empty_event_world_def late_order_def)
  have late: "oe_block late_order = 5000" by (simp add: late_order_def)
  have s: "ew_cursor w1 = Some 5000" "\<forall>a b. GetOrderLogs a b \<in> set (new_calls w1 w2) \<longrightarrow> 4950 \<le> a"
    using subscription_skips_blocks [OF demo_reliable w r r'] late by simp_all
  have "case c of GetOrderLogs a b \<Rightarrow> 4950 \<le> a | _ \<Rightarrow> True" if "c \<in> set (new_calls w1 w2)" for c
    using s(2) that by (cases c) auto
  with s(1) r r' show ?thesis by (auto simp: list_all_iff)
qed

section \<open>Two orders in one transaction\<close>

text \<open>
  The table holds one row per transaction. When a transaction in the next window executed two orders, then although no call fails, every
  round of polling stops at the database's refusal: no row of the window is stored, and the cursor never moves again.
\<close>

lemma duplicate_transaction_stalls:
  assumes "\<forall>env \<in> set envs. reliable env \<and> serves chain env \<and> (\<forall>h. H \<le> ev_head env h)"
    and "e \<in> set chain" "f \<in> set chain" "e \<noteq> f" "oe_tx e = oe_tx f"
    and "cursor w < oe_block e" "cursor w < oe_block f"
    and "oe_block e \<le> min (cursor w + 2000) (H - 2)" "oe_block f \<le> min (cursor w + 2000) (H - 2)"
    and "for_each event_poll_round envs w = (r, w')"
  shows "r = Inr () \<and> cursor w' = cursor w \<and> ew_orders w' = ew_orders w"
proof -
  define P where "P v \<longleftrightarrow> cursor v = cursor w \<and> ew_orders v = ew_orders w" for v
  have index: "wp (index_once env) (\<lambda>_ _. False) (\<lambda>e v. e \<noteq> NoReturn \<and> P v) v" if env: "env \<in> set envs" and v: "P v" for env v
  proof -
    define n where "n = ev_head env (ChainHead # calls v) - EVENT_CONFIRMATIONS"
    define t where "t = min (cursor v + 1 + EVENT_BLOCK_RANGE - 1) n"
    let ?v = "v\<lparr>calls := ReadCursor # ChainHead # calls v\<rparr>"
    have env': "reliable env" "serves chain env" "H - 2 \<le> n"
      using assms(1) env by (auto simp: n_def EVENT_CONFIRMATIONS_def)
    have c: "cursor v = cursor w" using v by (simp add: P_def)
    have t: "oe_block e \<le> t" "oe_block f \<le> t" using assms(8,9) env'(3) c by (auto simp: t_def EVENT_BLOCK_RANGE_def)
    define evs where "evs = ev_orders env (GetOrderLogs (cursor v + 1) t # calls ?v)"
    have "e \<in> set evs" "f \<in> set evs"
      using env'(2) assms(2,3,6,7) t c by (auto simp: serves_def evs_def)
    then have d: "\<not> distinct (map oe_tx evs)" using assms(4,5) by (auto simp: distinct_map dest: inj_onD)
    from reliable_fetch_orders [OF env'(1) evs_def]
    have "wp (fetch_and_store_order_events env (cursor v + 1) t) (\<lambda>_ _. False) (\<lambda>e. (\<lambda>v. e \<noteq> NoReturn \<and> P v)) ?v"
      by (rule wp_mono) (use d v in \<open>auto simp: same_tables_def P_def cursor_def\<close>)
    then have "wp (forward_pass env (cursor v + 1) n) Q (\<lambda>e v. e \<noteq> NoReturn \<and> P v) ?v" for Q
      unfolding forward_pass_def Let_def t_def [symmetric] wp_bind [of "fetch_and_store_order_events env (cursor v + 1) t"]
      by (rule wp_mono) auto
    moreover have "cursor v + 1 \<le> n" using assms(6) c t by (simp add: t_def)
    ultimately show ?thesis
      unfolding index_once_def get_cursor_def using env'(1)
      by (simp add: wp_then wp_bind wp_perform wp_gets wp_let wp_when Let_def reliable_def cursor_def n_def)
  qed
  have "wp (for_each event_poll_round envs) (\<lambda>_. P) (\<lambda>_ _. False) w"
  proof (rule wp_for_each [where I = P])
    show "P w" by (simp add: P_def)
    fix env v assume env: "P v" "env \<in> set envs"
    then have "reliable env" using assms(1) by blast
    then have "wp (ecall env c) (\<lambda>_. P) (\<lambda>_ _. False) v'" if "P v'" for c v'
      using that by (simp add: wp_perform reliable_def P_def cursor_def)
    with index [OF env(2,1)] show "wp (event_poll_round env) (\<lambda>_. P) (\<lambda>_ _. False) v"
      unfolding event_poll_round_def wp_then wp_catch by (elim wp_mono) (auto simp: wp_ret)
  qed
  with assms(10) show ?thesis by (cases r) (simp_all add: wp_def P_def)
qed

definition twin_order :: order_event where
  "twin_order = demo_order\<lparr>oe_log_index := 1, oe_vault := 2\<rparr>"

lemma duplicate_transaction_stalls_witness:
  "\<exists>w'. for_each event_poll_round (replicate 3 (demo_event_env [demo_order, twin_order] {})) empty_event_world = (Inr (), w') \<and>
     cursor w' = 0 \<and> ew_orders w' = []"
proof -
  obtain r w' where r: "for_each event_poll_round (replicate 3 (demo_event_env [demo_order, twin_order] {})) empty_event_world = (r, w')"
    by fastforce
  have "\<forall>env \<in> set (replicate 3 (demo_event_env [demo_order, twin_order] {})).
      reliable env \<and> serves [demo_order, twin_order] env \<and> (\<forall>h. 10 \<le> ev_head env h)"
    by (simp add: demo_reliable demo_serves demo_head)
  from duplicate_transaction_stalls [OF this, of demo_order twin_order empty_event_world r w'] r
  have "r = Inr () \<and> cursor w' = cursor empty_event_world \<and> ew_orders w' = ew_orders empty_event_world"
    by (simp add: demo_cursor demo_order_def twin_order_def)
  with r show ?thesis by (simp add: demo_cursor) (simp add: empty_event_world_def)
qed

section \<open>Deliveries\<close>

lemma min_vault_None: "min_vault rows = None \<longleftrightarrow> rows = []"
  by (cases rows) (auto split: option.split)

lemma min_vault_Some: "min_vault rows = Some c \<Longrightarrow> c \<in> set rows \<and> (\<forall>r \<in> set rows. eo_vault c \<le> eo_vault r)"
  by (induction rows arbitrary: c) (fastforce split: option.splits if_splits simp: min_vault_None)+

lemma same_position_delivered [simp]: "same_position d (delivered_columns d' r) = same_position d r"
  by (simp add: same_position_def delivered_columns_def)

text \<open>What one delivery event does: nothing if a row of the position has its transaction or no row is unmarked, else it marks one row.\<close>

lemma update_delivery_cases:
  assumes "update_delivery_event env n d w = (Inr m, w')"
  obtains (nothing) "ew_orders w' = ew_orders w" "m = n"
      "(\<exists>r \<in> set (ew_orders w). same_position d r \<and> eo_delivery_tx r = Some (dd_tx d)) \<or>
       (\<forall>r \<in> set (ew_orders w). same_position d r \<longrightarrow> eo_delivery_tx r \<noteq> None)"
  | (mark) c where "c \<in> set (ew_orders w)" "same_position d c" "eo_delivery_tx c = None"
      "\<forall>r \<in> set (ew_orders w). same_position d r \<longrightarrow> eo_delivery_tx r = None \<longrightarrow> eo_vault c \<le> eo_vault r"
      "\<forall>r \<in> set (ew_orders w). same_position d r \<longrightarrow> eo_delivery_tx r \<noteq> Some (dd_tx d)"
      "ew_orders w' = tbl_update (\<lambda>r. eo_id r = eo_id c) (delivered_columns d) (ew_orders w)"
  using assms
  by (auto simp: update_delivery_event_def run_defs perform_def Let_def filter_empty_conv min_vault_None dest!: min_vault_Some
      split: option.splits if_splits)

lemma delivered_row:
  assumes "c \<in> set rows" "same_position d c"
  shows "\<exists>r \<in> set (tbl_update (\<lambda>r. eo_id r = eo_id c) (delivered_columns d) rows). same_position d r \<and> eo_delivery_tx r = Some (dd_tx d)"
proof -
  have "delivered_columns d c \<in> set (tbl_update (\<lambda>r. eo_id r = eo_id c) (delivered_columns d) rows)"
    using assms(1) by (force simp: set_tbl_update)
  moreover have "same_position d (delivered_columns d c) \<and> eo_delivery_tx (delivered_columns d c) = Some (dd_tx d)"
    using assms(2) by (simp add: delivered_columns_def same_position_def)
  ultimately show ?thesis by blast
qed

lemma delivery_again:
  assumes "update_delivery_event env n d w = (Inr m, w')"
    and "(\<exists>r \<in> set (ew_orders w). same_position d r \<and> eo_delivery_tx r = Some (dd_tx d)) \<or>
       (\<forall>r \<in> set (ew_orders w). same_position d r \<longrightarrow> eo_delivery_tx r \<noteq> None)"
  shows "ew_orders w' = ew_orders w"
  using assms(1)
proof (cases rule: update_delivery_cases)
  case (mark c)
  with assms(2) show ?thesis by blast
qed

text \<open>The rows that a step changed, old and new.\<close>

definition changed_rows :: "'r list \<Rightarrow> 'r list \<Rightarrow> ('r \<times> 'r) list" where
  "changed_rows rows rows' = filter (\<lambda>(r, r'). r \<noteq> r') (zip rows rows')"

lemma changed_rows_map: "changed_rows rows (map f rows) = map (\<lambda>r. (r, f r)) (filter (\<lambda>r. r \<noteq> f r) rows)"
  by (induction rows) (simp_all add: changed_rows_def)

lemma changed_rows_same [simp]: "changed_rows rows rows = []"
  using changed_rows_map [of rows id] by simp

lemma filter_one: "distinct xs \<Longrightarrow> c \<in> set xs \<Longrightarrow> (\<And>x. x \<in> set xs \<Longrightarrow> P x \<longleftrightarrow> x = c) \<Longrightarrow> filter P xs = [c]"
proof (induction xs)
  case (Cons x xs)
  show ?case
  proof (cases "x = c")
    case True
    with Cons.prems have "filter P xs = []" by (auto simp: filter_empty_conv)
    with True Cons.prems show ?thesis by simp
  qed (use Cons in auto)
qed simp

text \<open>
  A delivery event changes at most one row: an unmarked row of the position with the smallest vault id, which then has the event's
  columns. Indexing the event again, as each re-scan does, changes nothing.
\<close>

lemma delivery_marked_once:
  assumes "distinct (map eo_id (ew_orders w))" and "update_delivery_event env n d w = (Inr m, w')"
  shows "length (ew_orders w') = length (ew_orders w) \<and>
    (ew_orders w' = ew_orders w \<or>
     (\<exists>c. changed_rows (ew_orders w) (ew_orders w') = [(c, delivered_columns d c)] \<and> same_position d c \<and> eo_delivery_tx c = None \<and>
        (\<forall>r \<in> set (ew_orders w). same_position d r \<longrightarrow> eo_delivery_tx r = None \<longrightarrow> eo_vault c \<le> eo_vault r))) \<and>
    (\<forall>env' k k' w''. update_delivery_event env' k d w' = (Inr k', w'') \<longrightarrow> ew_orders w'' = ew_orders w')"
  using assms(2)
proof (cases rule: update_delivery_cases)
  case nothing
  then show ?thesis using delivery_again [of _ _ d w'] by auto
next
  case (mark c)
  let ?f = "\<lambda>r. if eo_id r = eo_id c then delivered_columns d r else r"
  have rows: "ew_orders w' = map ?f (ew_orders w)" by (simp add: mark(6) tbl_update_def)
  have "filter (\<lambda>r. r \<noteq> ?f r) (ew_orders w) = [c]"
  proof (rule filter_one)
    have "delivered_columns d c \<noteq> c" using mark(3) by (auto simp: delivered_columns_def dest: arg_cong [of _ _ eo_delivery_tx])
    then show "r \<noteq> ?f r \<longleftrightarrow> r = c" if "r \<in> set (ew_orders w)" for r
      using that assms(1) mark(1) by (auto simp: distinct_map dest: inj_onD)
  qed (use assms(1) mark(1) in \<open>simp_all add: distinct_map\<close>)
  then have "changed_rows (ew_orders w) (ew_orders w') = [(c, delivered_columns d c)]"
    unfolding rows changed_rows_map by simp
  moreover have "ew_orders w'' = ew_orders w'" if "update_delivery_event env' k d w' = (Inr k', w'')" for env' k k' w''
    using that delivered_row [OF mark(1,2)] unfolding mark(6) [symmetric] by (intro delivery_again) auto
  ultimately show ?thesis using mark(2-4) by (auto simp: rows)
qed

text \<open>
  The event carries no vault, so two deliveries to one user in one transaction look alike: the second of them is taken for a
  repetition of the first, and its row stays unmarked.
\<close>

lemma same_transaction_delivery_dropped:
  assumes "update_delivery_event env n d w = (Inr m, w1)" "ew_orders w1 \<noteq> ew_orders w"
    and "dd_user d' = dd_user d" "dd_otoken d' = dd_otoken d" "dd_tx d' = dd_tx d"
    and "update_delivery_event env' k d' w1 = (Inr k', w2)"
  shows "ew_orders w2 = ew_orders w1"
  using assms(1)
proof (cases rule: update_delivery_cases)
  case (mark c)
  have "\<exists>r \<in> set (ew_orders w1). same_position d' r \<and> eo_delivery_tx r = Some (dd_tx d')"
    using delivered_row [OF mark(1,2)] assms(3-5) unfolding mark(6) [symmetric] by (simp add: same_position_def)
  with assms(6) show ?thesis by (intro delivery_again) auto
qed (use assms(2) in simp)

definition demo_row :: order_row where
  "demo_row = build_order_event_data demo_order"

definition demo_delivery :: delivery_data where
  "demo_delivery = \<lparr>dd_user = eo_user demo_row, dd_otoken = eo_otoken demo_row, dd_asset = ''0xweth'', dd_amount = 10 ^ 18, dd_tx = ''0xd''\<rparr>"

lemma delivery_marked_once_witness:
  "\<exists>m w'. update_delivery_event (demo_event_env [] {}) 0 demo_delivery (empty_event_world\<lparr>ew_orders := [demo_row]\<rparr>) = (Inr m, w') \<and>
     length (ew_orders w') = 1"
proof -
  let ?w = "empty_event_world\<lparr>ew_orders := [demo_row]\<rparr>"
  have "returns (update_delivery_event (demo_event_env [] {}) 0 demo_delivery)"
    unfolding update_delivery_event_def by (intro returns_rules reliable_call demo_reliable)
  then obtain m w' where "update_delivery_event (demo_event_env [] {}) 0 demo_delivery ?w = (Inr m, w')"
    unfolding returns_def by blast
  with delivery_marked_once [OF _ this] show ?thesis by simp
qed

theorem metadata_cache_witness:
  "\<exists>r w'. load_otoken_metadata (demo_event_env [] {}) ''0xO'' empty_event_world = (r, w') \<and> cache_ok (ew_cache w') \<and>
     same_tables empty_event_world w'"
proof -
  obtain r w' where r: "load_otoken_metadata (demo_event_env [] {}) ''0xO'' empty_event_world = (r, w')" by fastforce
  from metadata_cache [OF demo_cursor(2) r] r show ?thesis by simp
qed

end
