(* ===== verification/Expiry_Settler.thy ===== *)
theory Expiry_Settler
  imports Order_Events
begin

text \<open>
  \<open>src/bots/expiry_settler.py\<close>: the settlement of expired positions on Base. One cycle reconciles the table with the
  chain, sets expiry prices (from \<open>src/pricing/chainlink.py\<close>), settles vaults in batches, delivers in-the-money
  positions with retries, marks the others, and sends result emails.
\<close>

section \<open>World and environment\<close>

datatype settle_call =
    ReadUnsettled | ReadPending | VaultSettled string int
  | UpdatePosition string int | UpdateById string
  | ReadExpiryPrice string int | SetExpiryPrice string int int
  | ReadDecimals asset | LatestRound asset
  | SettleVaults "string list" "int list"
  | QuoteExactOutput string string int int
  | PhysicalRedeem string string int int string
  | ReadEmails "string list" | BuildEmail string | SendBatch nat | SleepFor int

text \<open>\<open>sw_decimals\<close> is the module's cache of feed decimals. Time is in microseconds.\<close>

record settle_world = "settle_call hist" +
  sw_orders :: "order_row list"
  sw_decimals :: "(string \<times> int) list"

record settle_settings =
  ss_addresses :: address_settings
  ss_beta_mode :: bool
  ss_slippage_tolerance :: rat
  ss_fee_tier :: int
  ss_max_retries :: int
  ss_redeem_delay :: int
  ss_sweep_interval :: int
  ss_sweep_max_cycles :: int
  ss_settle_hour :: int
  ss_resend_key :: string

text \<open>A row of \<open>user_emails\<close>.\<close>

record email_row =
  em_wallet :: string
  em_email :: string
  em_verified :: bool
  em_unsubscribed :: bool

text \<open>
  The environment: failures, the clock, the checksum function of web3, and the answers of the contracts, the feeds
  and the database. A transaction is sent and confirmed by one call, which fails when it reverts.
\<close>

record settle_env =
  se_fails :: "settle_call list \<Rightarrow> exn option"
  se_settings :: settle_settings
  se_now :: "settle_call list \<Rightarrow> int"
  se_checksum :: "string \<Rightarrow> exn + string"
  se_settled :: "settle_call list \<Rightarrow> bool"
  se_oracle :: "settle_call list \<Rightarrow> int \<times> bool"
  se_decimals :: "settle_call list \<Rightarrow> int"
  se_answer :: "settle_call list \<Rightarrow> int"
  se_quote :: "settle_call list \<Rightarrow> int"
  se_tx :: "settle_call list \<Rightarrow> string"
  se_emails :: "settle_call list \<Rightarrow> email_row list"

type_synonym 'a spy = "(settle_world, 'a) py"

abbreviation scall :: "settle_env \<Rightarrow> settle_call \<Rightarrow> unit spy" where
  "scall env c \<equiv> perform (se_fails env) c"

definition settle_tx :: "settle_env \<Rightarrow> settle_call \<Rightarrow> string spy" where
  "settle_tx env c = thenE (scall env c) (getsE (\<lambda>w. se_tx env (calls w)))"

definition clock :: "settle_env \<Rightarrow> int spy" where
  "clock env = getsE (\<lambda>w. se_now env (calls w))"

definition MAX_BATCH_SIZE :: nat where "MAX_BATCH_SIZE = 50"
definition BETA_SLIPPAGE_BPS :: int where "BETA_SLIPPAGE_BPS = 1000"
definition RETRY_BACKOFF_SECONDS :: "int list" where "RETRY_BACKOFF_SECONDS = [60, 300, 900, 1800, 3600]"

text \<open>\<open>int(row[column])\<close>.\<close>

definition column :: "'a option \<Rightarrow> exn + 'a" where
  "column x = (case x of None \<Rightarrow> Inl (TypeError ''int() argument must not be NoneType'') | Some v \<Rightarrow> Inr v)"

definition vault_key :: "order_row \<Rightarrow> string \<times> int" where
  "vault_key r = (eo_user r, eo_vault r)"

section \<open>Queues\<close>

definition has_settle_fields :: "order_row \<Rightarrow> int \<Rightarrow> bool" where
  "has_settle_fields r now \<longleftrightarrow> eo_chain r = BASE \<and> (\<exists>e. eo_expiry r = Some e \<and> e \<le> now) \<and>
     eo_strike r \<noteq> None \<and> eo_is_put r \<noteq> None \<and> eo_amount r \<noteq> None"

definition is_unsettled :: "int \<Rightarrow> order_row \<Rightarrow> bool" where
  "is_unsettled now r \<longleftrightarrow> has_settle_fields r now \<and> eo_is_settled r \<noteq> Some True"

definition is_pending_phase2 :: "int \<Rightarrow> order_row \<Rightarrow> bool" where
  "is_pending_phase2 now r \<longleftrightarrow> has_settle_fields r now \<and> eo_is_settled r = Some True \<and> eo_delivery_tx r = None \<and>
     eo_is_itm r \<noteq> Some False \<and> (eo_settlement_type r = None \<or> eo_settlement_type r = Some ''cash'') \<and> eo_mm r \<noteq> None"

definition get_expired_unsettled :: "settle_env \<Rightarrow> order_row list spy" where
  "get_expired_unsettled env =
     thenE (scall env ReadUnsettled)
       (getsE (\<lambda>w. filter (is_unsettled (se_now env (calls w) div us_second)) (sw_orders w)))"

definition get_pending_phase2 :: "settle_env \<Rightarrow> order_row list spy" where
  "get_pending_phase2 env =
     thenE (scall env ReadPending)
       (getsE (\<lambda>w. filter (is_pending_phase2 (se_now env (calls w) div us_second)) (sw_orders w)))"

section \<open>In or out of the money\<close>

text \<open>\<open>get_asset_config(Asset(...))\<close> with its fallback, and the underlying token's checksum address.\<close>

definition position_config :: "order_row \<Rightarrow> asset_config" where
  "position_config r = asset_configs (case asset_of_value (eo_asset r) of None \<Rightarrow> ETH | Some a \<Rightarrow> a)"

definition checksum_underlying :: "settle_env \<Rightarrow> asset_config \<Rightarrow> exn + string" where
  "checksum_underlying env cfg =
     (case underlying_address (ss_addresses (se_settings env)) cfg of
        Inl e \<Rightarrow> Inl e | Inr u \<Rightarrow> se_checksum env u)"

definition in_the_money :: "order_row \<Rightarrow> int \<Rightarrow> int \<Rightarrow> bool" where
  "in_the_money r strike oracle_price \<longleftrightarrow>
     (eo_is_put r = Some True \<and> oracle_price < strike) \<or> (eo_is_put r \<noteq> Some True \<and> oracle_price > strike)"

type_synonym price_cache = "((string \<times> int) \<times> int option) list"

definition cached_price :: "settle_env \<Rightarrow> string \<Rightarrow> int \<Rightarrow> price_cache \<Rightarrow> (int option \<times> price_cache) spy" where
  "cached_price env underlying expiry cache =
     (case map_of cache (underlying, expiry) of
        Some price \<Rightarrow> ret (price, cache)
      | None \<Rightarrow>
          bindE (catchE (thenE (scall env (ReadExpiryPrice underlying expiry))
                  (getsE (\<lambda>w. case se_oracle env (calls w) of (price_raw, is_finalized) \<Rightarrow>
                     if is_finalized then Some price_raw else None)))
                (\<lambda>_. ret None)) (\<lambda>price.
            ret (price, ((underlying, expiry), price) # cache)))"

text \<open>
  One position of the loop; the state is (positions in the money with their price, cache, skipped keys).
\<close>

definition identify_step ::
  "settle_env \<Rightarrow> (order_row \<times> int) list \<times> price_cache \<times> (string \<times> int) list \<Rightarrow> order_row \<Rightarrow>
   ((order_row \<times> int) list \<times> price_cache \<times> (string \<times> int) list) spy" where
  "identify_step env = (\<lambda>(itm, cache, skipped) pos.
     bindE (liftE (column (eo_expiry pos))) (\<lambda>expiry.
     bindE (liftE (checksum_underlying env (position_config pos))) (\<lambda>underlying.
     bindE (cached_price env underlying expiry cache) (\<lambda>(price, cache).
       case price of
         None \<Rightarrow> ret (itm, cache, skipped @ [vault_key pos])
       | Some oracle_price \<Rightarrow>
           bindE (liftE (column (eo_strike pos))) (\<lambda>strike.
             ret (if in_the_money pos strike oracle_price then itm @ [(pos, oracle_price)] else itm, cache, skipped))))))"

definition identify_itm_positions ::
  "settle_env \<Rightarrow> order_row list \<Rightarrow> ((order_row \<times> int) list \<times> price_cache \<times> (string \<times> int) list) spy" where
  "identify_itm_positions env positions = foldE (identify_step env) ([], [], []) positions"

section \<open>Delivery parameters\<close>

definition compute_contra_amount :: "settle_env \<Rightarrow> int \<Rightarrow> int \<Rightarrow> bool \<Rightarrow> asset_config \<Rightarrow> exn + int \<times> string \<times> string" where
  "compute_contra_amount env amount_raw strike is_put cfg =
     (case checksum_underlying env cfg of
        Inl e \<Rightarrow> Inl e
      | Inr underlying \<Rightarrow>
          (case se_checksum env (usdc_address (ss_addresses (se_settings env))) of
             Inl e \<Rightarrow> Inl e
           | Inr usdc \<Rightarrow>
               (if is_put then Inr (amount_raw * 10 ^ (ac_decimals cfg - 8), usdc, underlying)
                else Inr (amount_raw * strike div 10 ^ 10, underlying, usdc))))"

text \<open>The upper bound with a buffer of \<open>bps\<close> rounded up, and the lower bound with a buffer rounded down.\<close>

definition with_ceiling_buffer :: "int \<Rightarrow> int \<Rightarrow> int" where
  "with_ceiling_buffer amount_in bps = amount_in + (amount_in * bps + 9999) div 10000"

definition beta_compute_max_collateral_put :: "int \<Rightarrow> int \<Rightarrow> nat \<Rightarrow> exn + int" where
  "beta_compute_max_collateral_put contra_amount oracle_price_8dec underlying_decimals =
     (if oracle_price_8dec \<le> 0 then
        Inl (ValueError (''oracle_price_8dec must be positive, got '' @ int_str oracle_price_8dec))
      else
        (let divisor = 10 ^ (underlying_decimals + 8 - 6);
             amount_in = contra_amount * oracle_price_8dec div divisor
         in Inr (with_ceiling_buffer amount_in BETA_SLIPPAGE_BPS)))"

definition slippage_bps :: "settle_settings \<Rightarrow> int" where
  "slippage_bps s = py_trunc (fl (ss_slippage_tolerance s * 10000))"

definition compute_min_amount_out :: "settle_settings \<Rightarrow> int \<Rightarrow> exn + int" where
  "compute_min_amount_out s contra_amount =
     (if contra_amount \<le> 0 then
        Inl (ValueError (''contra_amount must be positive for CALL minAmountOut, got '' @ int_str contra_amount))
      else
        (let buffer = (if ss_beta_mode s then contra_amount * BETA_SLIPPAGE_BPS div 10000
                       else contra_amount * slippage_bps s div 10000)
         in Inr (contra_amount - buffer)))"

definition compute_slippage_param :: "settle_env \<Rightarrow> order_row \<Rightarrow> int option \<Rightarrow> (int \<times> int) spy" where
  "compute_slippage_param env position oracle_price_8dec =
     (let s = se_settings env; is_put = (eo_is_put position = Some True); cfg = position_config position in
      bindE (liftE (column (eo_amount position))) (\<lambda>amount_raw.
      bindE (liftE (column (eo_strike position))) (\<lambda>strike.
        if amount_raw \<le> 0 then raise (ValueError (''amount_raw must be positive, got '' @ int_str amount_raw))
        else if strike \<le> 0 then raise (ValueError (''strike_price must be positive, got '' @ int_str strike))
        else
          bindE (liftE (compute_contra_amount env amount_raw strike is_put cfg)) (\<lambda>(contra_amount, token_in, token_out).
            if \<not> is_put then
              bindE (liftE (compute_min_amount_out s contra_amount)) (\<lambda>m. ret (m, contra_amount))
            else if ss_beta_mode s then
              (case oracle_price_8dec of
                 None \<Rightarrow> raise (ValueError ''oracle_price_8dec is required in beta mode (no Uniswap Quoter available)'')
               | Some price \<Rightarrow>
                   bindE (liftE (beta_compute_max_collateral_put contra_amount price (ac_decimals cfg))) (\<lambda>m.
                     ret (m, contra_amount)))
            else
              thenE (scall env (QuoteExactOutput token_in token_out contra_amount (ss_fee_tier s)))
              (bindE (getsE (\<lambda>w. se_quote env (calls w))) (\<lambda>amount_in.
                 ret (with_ceiling_buffer amount_in (slippage_bps s), contra_amount)))))))"

section \<open>Database writes\<close>

definition db_update :: "settle_env \<Rightarrow> string \<Rightarrow> int \<Rightarrow> (order_row \<Rightarrow> order_row) \<Rightarrow> unit spy" where
  "db_update env user_addr vault_id columns =
     thenE (scall env (UpdatePosition (lower user_addr) vault_id))
       (modifyE (\<lambda>w. w\<lparr>sw_orders := tbl_update (\<lambda>r. vault_key r = (lower user_addr, vault_id)) columns (sw_orders w)\<rparr>))"

definition db_update_by_id :: "settle_env \<Rightarrow> string \<Rightarrow> (order_row \<Rightarrow> order_row) \<Rightarrow> unit spy" where
  "db_update_by_id env order_event_id columns =
     thenE (scall env (UpdateById order_event_id))
     (bindE (getsE (\<lambda>w. list_ex (\<lambda>r. eo_id r = order_event_id) (sw_orders w))) (\<lambda>matched.
        thenE (modifyE (\<lambda>w. w\<lparr>sw_orders := tbl_update (\<lambda>r. eo_id r = order_event_id) columns (sw_orders w)\<rparr>))
          (if matched then ret () else raise (RuntimeError (''matched no rows for order_event_id='' @ order_event_id)))))"

text \<open>The column sets the settler writes.\<close>

definition settled_columns :: "int \<Rightarrow> order_row \<Rightarrow> order_row" where
  "settled_columns now r = r\<lparr>eo_is_settled := Some True, eo_settled_at := Some now\<rparr>"

definition batch_columns :: "string \<Rightarrow> int \<Rightarrow> order_row \<Rightarrow> order_row" where
  "batch_columns tx_hash now r =
     r\<lparr>eo_is_settled := Some True, eo_settled_at := Some now, eo_settlement_tx := Some tx_hash,
       eo_settlement_type := Some ''cash''\<rparr>"

definition failed_columns :: "int \<Rightarrow> order_row \<Rightarrow> order_row" where
  "failed_columns price r =
     r\<lparr>eo_settlement_type := Some ''physical_failed'', eo_is_itm := Some True, eo_expiry_price := Some price\<rparr>"

definition physical_columns :: "int \<Rightarrow> string \<Rightarrow> string \<Rightarrow> int \<Rightarrow> order_row \<Rightarrow> order_row" where
  "physical_columns price tx_hash delivered_asset contra_amount r =
     r\<lparr>eo_settlement_type := Some ''physical'', eo_is_itm := Some True, eo_expiry_price := Some price,
       eo_delivery_tx := Some tx_hash, eo_delivered_asset := Some delivered_asset,
       eo_delivered_amount := Some contra_amount\<rparr>"

definition otm_columns :: "int option \<Rightarrow> order_row \<Rightarrow> order_row" where
  "otm_columns price r = r\<lparr>eo_is_itm := Some False, eo_expiry_price := price\<rparr>"

section \<open>Expiry prices\<close>

text \<open>\<open>_get_decimals\<close> and \<open>get_asset_price_raw\<close> of \<open>chainlink.py\<close>; a fallback is not cached.\<close>

definition get_decimals :: "settle_env \<Rightarrow> asset \<Rightarrow> int spy" where
  "get_decimals env a =
     bindE (liftE (chainlink_feed_address (ss_addresses (se_settings env)) (asset_configs a))) (\<lambda>feed_address.
     bindE (getsE (\<lambda>w. map_of (sw_decimals w) feed_address)) (\<lambda>hit.
       case hit of
         Some d \<Rightarrow> ret d
       | None \<Rightarrow>
           catchE
             (thenE (scall env (ReadDecimals a))
             (bindE (getsE (\<lambda>w. se_decimals env (calls w))) (\<lambda>d.
                thenE (modifyE (\<lambda>w. w\<lparr>sw_decimals := (feed_address, d) # sw_decimals w\<rparr>)) (ret d))))
             (\<lambda>_. ret 8)))"

definition get_asset_price_raw :: "settle_env \<Rightarrow> asset \<Rightarrow> (int \<times> int) spy" where
  "get_asset_price_raw env a =
     bindE (get_decimals env a) (\<lambda>decimals.
       thenE (scall env (LatestRound a))
       (bindE (getsE (\<lambda>w. se_answer env (calls w))) (\<lambda>answer.
          if answer \<le> 0 then raise (ValueError (''Chainlink returned non-positive price for '' @ asset_value a @ '': '' @ int_str answer))
          else ret (answer, decimals))))"

definition to_8_decimals :: "int \<Rightarrow> int \<Rightarrow> int" where
  "to_8_decimals price decimals = (if decimals \<noteq> 8 then py_trunc (fl (of_int (price * 10 ^ 8) / of_int (10 ^ nat decimals))) else price)"

text \<open>One expiry of one asset: skipped if its price is final or cannot be read; a failing transaction is logged.\<close>

definition set_expiry_price :: "settle_env \<Rightarrow> string \<Rightarrow> int \<Rightarrow> int \<Rightarrow> unit spy" where
  "set_expiry_price env underlying chainlink_price expiry =
     bindE (tryE (thenE (scall env (ReadExpiryPrice underlying expiry)) (getsE (\<lambda>w. se_oracle env (calls w))))) (\<lambda>r.
       case r of
         Inl _ \<Rightarrow> ret ()
       | Inr (price_raw, is_finalized) \<Rightarrow>
           whenE (\<not> is_finalized)
             (catchE (thenE (settle_tx env (SetExpiryPrice underlying expiry chainlink_price)) (ret ())) (\<lambda>_. ret ())))"

definition set_asset_prices :: "settle_env \<Rightarrow> int list \<Rightarrow> asset \<Rightarrow> unit spy" where
  "set_asset_prices env expiries a =
     whenE (ac_chain (asset_configs a) = BASE)
       (bindE (liftE (checksum_underlying env (asset_configs a))) (\<lambda>underlying.
        bindE (tryE (bindE (get_asset_price_raw env a) (\<lambda>(price, decimals). ret (to_8_decimals price decimals)))) (\<lambda>r.
          case r of
            Inl _ \<Rightarrow> ret ()
          | Inr chainlink_price \<Rightarrow> for_each (set_expiry_price env underlying chainlink_price) expiries)))"

text \<open>Python does not specify the order of a set of expiries; the model keeps the order in which they were added.\<close>

definition ensure_expiry_prices_set :: "settle_env \<Rightarrow> int list \<Rightarrow> unit spy" where
  "ensure_expiry_prices_set env expiries =
     (if expiries = [] then ret () else for_each (set_asset_prices env expiries) all_assets)"

section \<open>Delivery with retries\<close>

definition physical_redeem_once :: "settle_env \<Rightarrow> order_row \<Rightarrow> int \<Rightarrow> string \<Rightarrow> int option \<Rightarrow> (string \<times> int) spy" where
  "physical_redeem_once env pos amount_raw mm_addr expiry_price_raw =
     bindE (compute_slippage_param env pos expiry_price_raw) (\<lambda>(slippage_param, contra_amount).
       if slippage_param \<le> 0 then raise (ValueError (''slippage_param='' @ int_str slippage_param))
       else
         bindE (liftE (se_checksum env (eo_otoken pos))) (\<lambda>otoken.
         bindE (liftE (se_checksum env (eo_user pos))) (\<lambda>user.
         bindE (liftE (se_checksum env mm_addr)) (\<lambda>mm.
         bindE (settle_tx env (PhysicalRedeem otoken user amount_raw slippage_param mm)) (\<lambda>tx_hash.
           ret (tx_hash, contra_amount))))))"

definition retry_delay :: "nat \<Rightarrow> int" where
  "retry_delay attempt = RETRY_BACKOFF_SECONDS ! min (attempt - 1) (length RETRY_BACKOFF_SECONDS - 1)"

text \<open>The attempts from \<open>attempt\<close> on, with \<open>left\<close> more after this one.\<close>

fun redeem_attempts :: "settle_env \<Rightarrow> (string \<times> int) spy \<Rightarrow> nat \<Rightarrow> nat \<Rightarrow> (string \<times> int) spy" where
  "redeem_attempts env once attempt 0 = once"
| "redeem_attempts env once attempt (Suc left) =
     bindE (tryE once) (\<lambda>r.
       case r of
         Inr x \<Rightarrow> ret x
       | Inl _ \<Rightarrow> thenE (scall env (SleepFor (retry_delay attempt * us_second)))
                   (redeem_attempts env once (Suc attempt) left))"

definition physical_redeem_with_retry :: "settle_env \<Rightarrow> order_row \<Rightarrow> string \<Rightarrow> int option \<Rightarrow> (string \<times> int) spy" where
  "physical_redeem_with_retry env pos mm_addr expiry_price_raw =
     (let max_retries = ss_max_retries (se_settings env) in
      if max_retries < 1 then raise (ValueError (''settlement_max_retries must be >= 1, got '' @ int_str max_retries))
      else bindE (liftE (column (eo_amount pos))) (\<lambda>amount_raw.
        redeem_attempts env (physical_redeem_once env pos amount_raw mm_addr expiry_price_raw) 1 (nat max_retries - 1)))"

section \<open>Reconciliation with the chain\<close>

text \<open>One position; the state is (unsettled on chain, already settled on chain).\<close>

definition reconcile_step ::
  "settle_env \<Rightarrow> order_row list \<times> order_row list \<Rightarrow> order_row \<Rightarrow> (order_row list \<times> order_row list) spy" where
  "reconcile_step env = (\<lambda>(unsettled, already_settled) pos.
     bindE (liftE (se_checksum env (eo_user pos))) (\<lambda>owner.
     bindE (tryE (thenE (scall env (VaultSettled owner (eo_vault pos))) (getsE (\<lambda>w. se_settled env (calls w))))) (\<lambda>r.
       case r of
         Inl _ \<Rightarrow> ret (unsettled @ [pos], already_settled)
       | Inr settled \<Rightarrow>
           if settled then
             bindE (clock env) (\<lambda>now.
               thenE (catchE (db_update env (eo_user pos) (eo_vault pos) (settled_columns now)) (\<lambda>_. ret ()))
                 (ret (unsettled, already_settled @ [pos])))
           else ret (unsettled @ [pos], already_settled))))"

definition reconcile_settled_on_chain :: "settle_env \<Rightarrow> order_row list \<Rightarrow> (order_row list \<times> order_row list) spy" where
  "reconcile_settled_on_chain env positions = foldE (reconcile_step env) ([], []) positions"

section \<open>Result emails\<close>

text \<open>
  The position in an email: the numbers that the code prints, before their formatting as text. The HTML is not
  modelled; building an email is a call that may fail.
\<close>

record email_position =
  ep_asset :: string
  ep_strike_usd :: rat
  ep_is_itm :: bool
  ep_option_type :: string
  ep_amount :: rat
  ep_collateral_usd :: rat
  ep_premium_usd :: rat

definition upper :: "string \<Rightarrow> string" where
  "upper = map (\<lambda>c. let n = (of_char c :: nat) in if 97 \<le> n \<and> n \<le> 122 then char_of (n - 32) else c)"

definition format_position_for_email :: "order_row \<Rightarrow> string \<Rightarrow> (string \<times> int) list \<Rightarrow> exn + email_position" where
  "format_position_for_email pos wallet itm_keys =
     (case column (eo_strike pos) of Inl e \<Rightarrow> Inl e | Inr strike_raw \<Rightarrow>
      (case column (eo_amount pos) of Inl e \<Rightarrow> Inl e | Inr amount_raw \<Rightarrow>
        (let premium = (if eo_net_premium pos \<noteq> 0 then eo_net_premium pos else eo_premium pos);
             collateral_raw = amount_raw * strike_raw div 10 ^ 8
         in Inr \<lparr>ep_asset = upper (if eo_asset pos = [] then ''eth'' else eo_asset pos),
              ep_strike_usd = fl (float_of strike_raw / 10 ^ 8), ep_is_itm = elem (wallet, eo_vault pos) itm_keys,
              ep_option_type = (if eo_is_put pos = Some True then ''put'' else ''call''),
              ep_amount = fl (float_of amount_raw / 10 ^ 8),
              ep_collateral_usd = fl (float_of collateral_raw / 10 ^ 6),
              ep_premium_usd = fl (float_of premium / 10 ^ 6)\<rparr>)))"

record result_email =
  re_to :: string
  re_wallet :: string
  re_positions :: "email_position list"

text \<open>The wallets in the order of their first position, each with its positions that no email covered yet.\<close>

definition group_by_wallet :: "(string \<times> string) list \<Rightarrow> order_row list \<Rightarrow> (string \<times> order_row list) list" where
  "group_by_wallet email_map positions =
     (let todo = filter (\<lambda>p. truthy (map_of email_map (eo_user p)) \<and> eo_result_sent p = None) positions
      in map (\<lambda>wallet. (wallet, filter (\<lambda>p. eo_user p = wallet) todo)) (rev (remdups (rev (map eo_user todo)))))"

definition build_consolidated_result_email :: "settle_env \<Rightarrow> string \<Rightarrow> string \<Rightarrow> email_position list \<Rightarrow> result_email spy" where
  "build_consolidated_result_email env email wallet positions =
     thenE (scall env (BuildEmail wallet)) (ret \<lparr>re_to = email, re_wallet = wallet, re_positions = positions\<rparr>)"

definition prepare_settlement_email_batch ::
  "settle_env \<Rightarrow> order_row list \<Rightarrow> (string \<times> string) list \<Rightarrow> (string \<times> int) list \<Rightarrow> (result_email \<times> string list) list spy" where
  "prepare_settlement_email_batch env all_positions email_map itm_keys =
     foldE (\<lambda>batch (wallet, positions).
         bindE (liftE (seq_results (map (\<lambda>p. format_position_for_email p wallet itm_keys) positions))) (\<lambda>formatted.
           catchE
             (bindE (build_consolidated_result_email env (the (map_of email_map wallet)) wallet formatted) (\<lambda>email_dict.
                ret (batch @ [(email_dict, map eo_id positions)])))
             (\<lambda>_. ret batch)))
       [] (group_by_wallet email_map all_positions)"

definition fetch_email_map :: "settle_env \<Rightarrow> string list \<Rightarrow> (string \<times> string) list spy" where
  "fetch_email_map env wallets =
     thenE (scall env (ReadEmails wallets))
       (getsE (\<lambda>w. rev (map (\<lambda>r. (em_wallet r, em_email r))
          (filter (\<lambda>r. elem (em_wallet r) wallets \<and> em_verified r \<and> \<not> em_unsubscribed r) (se_emails env (calls w))))))"

text \<open>Marking before sending: an email goes out only if all its positions could be marked.\<close>

definition premark_step :: "settle_env \<Rightarrow> int \<Rightarrow> result_email list \<Rightarrow> result_email \<times> string list \<Rightarrow> result_email list spy" where
  "premark_step env now marked = (\<lambda>(email_dict, refs).
     catchE
       (thenE (for_each (\<lambda>i. db_update_by_id env i (\<lambda>r. r\<lparr>eo_result_sent := Some now\<rparr>)) refs) (ret (marked @ [email_dict])))
       (\<lambda>_. ret marked))"

definition send_settlement_emails :: "settle_env \<Rightarrow> order_row list \<Rightarrow> (order_row \<times> int) list \<Rightarrow> unit spy" where
  "send_settlement_emails env settled_positions itm_positions =
     (if ss_resend_key (se_settings env) = [] then ret ()
      else if settled_positions = [] then ret ()
      else
        bindE (tryE (fetch_email_map env (remdups (map eo_user settled_positions)))) (\<lambda>r.
          case r of
            Inl _ \<Rightarrow> ret ()
          | Inr email_map \<Rightarrow>
              if email_map = [] then ret ()
              else
                bindE (prepare_settlement_email_batch env settled_positions email_map (map (\<lambda>(p, _). vault_key p) itm_positions)) (\<lambda>batch.
                  if batch = [] then ret ()
                  else
                    bindE (clock env) (\<lambda>now.
                    bindE (foldE (premark_step env now) [] batch) (\<lambda>marked_emails.
                      if marked_emails = [] then ret ()
                      else catchE (scall env (SendBatch (length marked_emails))) (\<lambda>_. ret ()))))))"

section \<open>Phase 1\<close>

text \<open>\<open>_mark_batch_settled\<close>; the state counts the failures.\<close>

definition mark_step :: "settle_env \<Rightarrow> string \<Rightarrow> int \<Rightarrow> nat \<Rightarrow> string \<times> int \<Rightarrow> nat spy" where
  "mark_step env tx_hash now failures = (\<lambda>(user_addr, vault_id).
     catchE
       (thenE (db_update env user_addr vault_id (batch_columns tx_hash now))
         (getsE (\<lambda>w. if list_ex (\<lambda>r. vault_key r = (lower user_addr, vault_id)) (sw_orders w) then failures else Suc failures)))
       (\<lambda>_. ret (Suc failures)))"

definition mark_batch_settled :: "settle_env \<Rightarrow> string list \<Rightarrow> int list \<Rightarrow> string \<Rightarrow> int \<Rightarrow> unit spy" where
  "mark_batch_settled env owners vault_ids tx_hash now =
     bindE (foldE (mark_step env tx_hash now) 0 (zip owners vault_ids)) (\<lambda>failures.
       if 0 < failures then
         raise (RuntimeError (''_mark_batch_settled: '' @ nat_str failures @ ''/'' @ nat_str (length owners) @ '' positions failed''))
       else ret ())"

fun batches :: "order_row list \<Rightarrow> order_row list list" where
  "batches [] = []"
| "batches (p # ps) = take MAX_BATCH_SIZE (p # ps) # batches (drop (MAX_BATCH_SIZE - 1) ps)"

text \<open>
  The loop over the batches; the state is (settled positions, positions eligible for an email), and the result says
  whether the loop was aborted.
\<close>

fun settle_batches ::
  "settle_env \<Rightarrow> order_row list \<Rightarrow> order_row list \<Rightarrow> order_row list list \<Rightarrow> (order_row list \<times> order_row list \<times> bool) spy" where
  "settle_batches env settled eligible [] = ret (settled, eligible, False)"
| "settle_batches env settled eligible (batch # rest) =
     bindE (liftE (seq_results (map (\<lambda>p. se_checksum env (eo_user p)) batch))) (\<lambda>owners.
     bindE (tryE (settle_tx env (SettleVaults owners (map eo_vault batch)))) (\<lambda>r.
       case r of
         Inl _ \<Rightarrow>
           bindE (reconcile_settled_on_chain env batch) (\<lambda>(unsettled, already_settled).
             if unsettled \<noteq> [] then ret (settled @ already_settled, eligible, True)
             else settle_batches env (settled @ already_settled) eligible rest)
       | Inr tx_hash \<Rightarrow>
           bindE (clock env) (\<lambda>now.
           bindE (tryE (mark_batch_settled env owners (map eo_vault batch) tx_hash now)) (\<lambda>m.
             case m of
               Inl _ \<Rightarrow> settle_batches env (settled @ batch) eligible rest
             | Inr _ \<Rightarrow>
                 (let marked = map (\<lambda>p. p\<lparr>eo_is_settled := Some True, eo_settled_at := Some now, eo_settlement_tx := Some tx_hash\<rparr>) batch
                  in settle_batches env (settled @ marked) (eligible @ marked) rest)))))"

section \<open>Phase 2\<close>

definition mark_failed :: "settle_env \<Rightarrow> order_row \<Rightarrow> int \<Rightarrow> unit spy" where
  "mark_failed env pos price =
     catchE (db_update env (eo_user pos) (eo_vault pos) (failed_columns price)) (\<lambda>_. ret ())"

text \<open>One position in the money: a missing market maker, exhausted retries, or the delivery and its mark.\<close>

definition deliver :: "settle_env \<Rightarrow> order_row \<times> int \<Rightarrow> unit spy" where
  "deliver env = (\<lambda>(pos, price).
     if \<not> truthy (eo_mm pos) then mark_failed env pos price
     else
       bindE (tryE (physical_redeem_with_retry env pos (the (eo_mm pos)) (Some price))) (\<lambda>r.
         case r of
           Inl _ \<Rightarrow> mark_failed env pos price
         | Inr (tx_hash, contra_amount) \<Rightarrow>
             bindE (if eo_is_put pos = Some True
                    then liftE (underlying_address (ss_addresses (se_settings env)) (position_config pos))
                    else ret (usdc_address (ss_addresses (se_settings env)))) (\<lambda>delivered_asset.
               catchE (db_update env (eo_user pos) (eo_vault pos) (physical_columns price tx_hash (lower delivered_asset) contra_amount))
                 (\<lambda>_. ret ()))))"

definition mark_otm :: "settle_env \<Rightarrow> price_cache \<Rightarrow> order_row \<Rightarrow> unit spy" where
  "mark_otm env cache pos =
     bindE (liftE (column (eo_expiry pos))) (\<lambda>expiry.
     bindE (liftE (checksum_underlying env (position_config pos))) (\<lambda>underlying.
       catchE (db_update env (eo_user pos) (eo_vault pos) (otm_columns (case map_of cache (underlying, expiry) of Some p \<Rightarrow> p | None \<Rightarrow> None)))
         (\<lambda>_. ret ())))"

definition otm_positions :: "(order_row \<times> int) list \<Rightarrow> (string \<times> int) list \<Rightarrow> order_row list \<Rightarrow> order_row list" where
  "otm_positions itm skipped settled =
     (let excluded = map (\<lambda>(p, _). vault_key p) itm @ skipped
      in filter (\<lambda>p. \<not> elem (vault_key p) excluded) settled)"

definition phase2 :: "settle_env \<Rightarrow> order_row list \<Rightarrow> order_row list \<Rightarrow> unit spy" where
  "phase2 env settled_positions email_eligible =
     bindE (identify_itm_positions env settled_positions) (\<lambda>(itm, cache, skipped).
       thenE (for_each (deliver env) itm)
       (thenE (for_each (mark_otm env cache) (otm_positions itm skipped settled_positions))
         (catchE (send_settlement_emails env email_eligible itm) (\<lambda>_. ret ()))))"

section \<open>One cycle, the sweep and the main loop\<close>

definition phase2_seed :: "order_row list \<Rightarrow> order_row list \<Rightarrow> order_row list" where
  "phase2_seed reconciled recovery =
     foldl (\<lambda>seed p. if elem (vault_key p) (map vault_key seed) then seed else seed @ [p]) reconciled recovery"

text \<open>The part of \<open>settle_once\<close> after the reconciliation.\<close>

definition settle_reconciled :: "settle_env \<Rightarrow> order_row list \<Rightarrow> order_row list \<Rightarrow> unit spy" where
  "settle_reconciled env positions seed =
     (if positions = [] \<and> seed = [] then ret ()
      else
        bindE (liftE (seq_results (map (\<lambda>p. column (eo_expiry p)) (positions @ seed)))) (\<lambda>expiries.
          thenE (ensure_expiry_prices_set env (rev (remdups (rev expiries))))
          (bindE (settle_batches env seed [] (batches positions)) (\<lambda>(settled, eligible, phase1_failed).
             if settled = [] then ret ()
             else
               thenE (whenE (length seed < length settled) (scall env (SleepFor (ss_redeem_delay (se_settings env) * us_second))))
                 (phase2 env settled eligible)))))"

definition settle_once :: "settle_env \<Rightarrow> unit spy" where
  "settle_once env =
     bindE (get_expired_unsettled env) (\<lambda>positions.
     bindE (get_pending_phase2 env) (\<lambda>recovery.
       if positions = [] \<and> recovery = [] then ret ()
       else
         bindE (if positions = [] then ret ([], [])
                else catchE (reconcile_settled_on_chain env positions) (\<lambda>_. ret (positions, []))) (\<lambda>(positions, reconciled).
           settle_reconciled env positions (phase2_seed reconciled recovery))))"

fun post_settle_sweep :: "settle_env \<Rightarrow> nat \<Rightarrow> unit spy" where
  "post_settle_sweep env 0 = ret ()"
| "post_settle_sweep env (Suc cycles) =
     thenE (scall env (SleepFor (ss_sweep_interval (se_settings env) * us_second)))
     (bindE (get_expired_unsettled env) (\<lambda>remaining.
        if remaining = [] then ret ()
        else thenE (catchE (settle_once env) (\<lambda>_. ret ())) (post_settle_sweep env cycles)))"

definition settle_and_sweep :: "settle_env \<Rightarrow> unit spy" where
  "settle_and_sweep env =
     thenE (catchE (settle_once env) (\<lambda>_. ret ()))
       (catchE (post_settle_sweep env (nat (ss_sweep_max_cycles (se_settings env)))) (\<lambda>_. ret ()))"

text \<open>The time to the next settlement hour plus ten seconds, and one day of the main loop.\<close>

definition wait_time :: "int \<Rightarrow> int \<Rightarrow> int" where
  "wait_time hour now =
     (let target = replace_hour hour now; target = (if target \<le> now then target + us_day else target)
      in target - now + 10 * us_second)"

definition settler_day :: "settle_env \<Rightarrow> unit spy" where
  "settler_day env =
     bindE (clock env) (\<lambda>now.
       thenE (scall env (SleepFor (wait_time (ss_settle_hour (se_settings env)) now))) (settle_and_sweep env))"

end
