(* ===== verification/Expiry_Safety.thy ===== *)
theory Expiry_Safety
  imports Expiry_Settler
begin

text \<open>
  What the expiry settler guarantees: the bounds of the slippage parameter, the number of delivery transactions, that no
  position leaves the queues before it is final, and that the in-the-money marks follow the oracle.
\<close>

section \<open>Slippage\<close>

lemma ceiling_buffer:
  "10000 * with_ceiling_buffer a b \<ge> (10000 + b) * a" "10000 * with_ceiling_buffer a b < (10000 + b) * a + 10000"
  by (simp_all add: with_ceiling_buffer_def algebra_simps)

lemma floor_buffer:
  fixes c b :: int
  shows "10000 * (c - c * b div 10000) \<ge> (10000 - b) * c" "10000 * (c - c * b div 10000) < (10000 - b) * c + 10000"
  by (simp_all add: algebra_simps)

lemma decimals_at_least_8: "8 \<le> ac_decimals (asset_configs a)"
  by (cases a) simp_all

text \<open>The buffer in basis points, and the swap input that the buffer is added to.\<close>

definition buffer_bps :: "settle_settings \<Rightarrow> int" where
  "buffer_bps s = (if ss_beta_mode s then BETA_SLIPPAGE_BPS else slippage_bps s)"

text \<open>
  C29: the slippage parameter. For a put, \<open>contra\<close> is the option amount in the underlying's own decimals and the
  parameter is the swap input (the quoted one, in beta mode the value at the oracle price) plus the buffer, rounded up by
  less than one unit. For a call, \<open>contra\<close> is the positive value at the strike in USDC and the parameter is
  \<open>contra\<close> minus the buffer, less than one unit above.
\<close>

theorem slippage_bounds:
  assumes "compute_slippage_param env pos price w = (Inr (param, contra), w')"
  shows "\<exists>amount strike. eo_amount pos = Some amount \<and> eo_strike pos = Some strike \<and> 0 < amount \<and> 0 < strike \<and>
    (if eo_is_put pos = Some True then
       contra * 10 ^ 8 = amount * 10 ^ ac_decimals (position_config pos) \<and>
       (\<exists>amount_in.
          (if ss_beta_mode (se_settings env)
           then \<exists>p. price = Some p \<and> 0 < p \<and> amount_in = contra * p div 10 ^ (ac_decimals (position_config pos) + 2)
           else amount_in = se_quote env (calls w')) \<and>
          (10000 + buffer_bps (se_settings env)) * amount_in \<le> 10000 * param \<and>
          10000 * param < (10000 + buffer_bps (se_settings env)) * amount_in + 10000)
     else
       contra = amount * strike div 10 ^ 10 \<and> 0 < contra \<and>
       (10000 - buffer_bps (se_settings env)) * contra \<le> 10000 * param \<and>
       10000 * param < (10000 - buffer_bps (se_settings env)) * contra + 10000)"
proof -
  have d: "8 \<le> ac_decimals (position_config pos)" by (simp add: position_config_def decimals_at_least_8)
  have scale: "a * 10 ^ (ac_decimals (position_config pos) - 8) * 10 ^ 8 = a * (10 :: int) ^ ac_decimals (position_config pos)" for a
    using le_Suc_ex [OF d] by (auto simp: power_add)
  have "wp (compute_slippage_param env pos price) (\<lambda>x w'.
    \<exists>amount strike. eo_amount pos = Some amount \<and> eo_strike pos = Some strike \<and> 0 < amount \<and> 0 < strike \<and>
    (if eo_is_put pos = Some True then
       snd x = amount * 10 ^ (ac_decimals (position_config pos) - 8) \<and>
       (\<exists>amount_in.
          (if ss_beta_mode (se_settings env)
           then \<exists>p. price = Some p \<and> 0 < p \<and> amount_in = snd x * p div 10 ^ (ac_decimals (position_config pos) + 2)
           else amount_in = se_quote env (calls w')) \<and> fst x = with_ceiling_buffer amount_in (buffer_bps (se_settings env)))
     else
       snd x = amount * strike div 10 ^ 10 \<and> 0 < snd x \<and>
       fst x = snd x - snd x * buffer_bps (se_settings env) div 10000)) (\<lambda>_ _. True) w"
    by (auto simp: compute_slippage_param_def wps Let_def column_def compute_contra_amount_def compute_min_amount_out_def
        beta_compute_max_collateral_put_def buffer_bps_def split: option.split sum.split)
  with assms obtain amount strike where r: "eo_amount pos = Some amount" "eo_strike pos = Some strike" "0 < amount" "0 < strike"
    "if eo_is_put pos = Some True then
       contra = amount * 10 ^ (ac_decimals (position_config pos) - 8) \<and>
       (\<exists>amount_in.
          (if ss_beta_mode (se_settings env)
           then \<exists>p. price = Some p \<and> 0 < p \<and> amount_in = contra * p div 10 ^ (ac_decimals (position_config pos) + 2)
           else amount_in = se_quote env (calls w')) \<and> param = with_ceiling_buffer amount_in (buffer_bps (se_settings env)))
     else contra = amount * strike div 10 ^ 10 \<and> 0 < contra \<and> param = contra - contra * buffer_bps (se_settings env) div 10000"
    by (simp only: wp_def prod.case sum.case fst_conv snd_conv) blast
  show ?thesis
  proof (cases "eo_is_put pos = Some True")
    case True
    with r(5) obtain amount_in where a: "contra = amount * 10 ^ (ac_decimals (position_config pos) - 8)"
      "if ss_beta_mode (se_settings env)
       then \<exists>p. price = Some p \<and> 0 < p \<and> amount_in = contra * p div 10 ^ (ac_decimals (position_config pos) + 2)
       else amount_in = se_quote env (calls w')" "param = with_ceiling_buffer amount_in (buffer_bps (se_settings env))"
      unfolding True by (simp only: if_True refl) blast
    have "contra * 10 ^ 8 = amount * 10 ^ ac_decimals (position_config pos)" by (simp only: a(1) scale)
    with True r(1-4) a(2) show ?thesis
      unfolding a(3) using ceiling_buffer by (simp only: if_True refl) blast
  next
    case False
    with r(5) have a: "contra = amount * strike div 10 ^ 10" "0 < contra"
      "param = contra - contra * buffer_bps (se_settings env) div 10000" by (simp_all only: if_False) blast+
    show ?thesis unfolding a(3) using False r(1-4) a(1,2) floor_buffer by (simp only: if_False) blast
  qed
qed

section \<open>An example\<close>

definition demo_expired :: order_row where
  "demo_expired = \<lparr>eo_id = ''p1'', eo_chain = BASE, eo_tx = ''0xt1'', eo_block = 5, eo_log_index = 0, eo_user = ''0xuser'',
     eo_mm = Some ''0xmm'', eo_otoken = ''0xotoken'', eo_amount = Some 100000000, eo_premium = 1000000, eo_gross_premium = 1000000,
     eo_net_premium = 960000, eo_protocol_fee = 40000, eo_collateral = 2000000000, eo_collateral_usd = None, eo_vault = 1,
     eo_strike = Some 200000000000, eo_expiry = Some 1000, eo_is_put = Some True, eo_asset = ''eth'',
     eo_is_settled = Some True, eo_settled_at = Some 1, eo_settlement_tx = Some ''0xs'', eo_settlement_type = Some ''cash'',
     eo_is_itm = None, eo_expiry_price = None, eo_delivered_asset = None, eo_delivered_amount = None,
     eo_delivery_tx = None, eo_result_sent = None\<rparr>"

definition demo_settle_settings :: settle_settings where
  "demo_settle_settings = \<lparr>ss_addresses = \<lparr>chainlink_eth_usd_address = ''0xfe'', chainlink_btc_usd_address = ''0xfb'',
       weth_address = ''0xweth'', wbtc_address = ''0xwbtc'', usdc_address = ''0xusdc'', solana_wsol_mint = ''w'', solana_tslax_mint = ''t''\<rparr>,
     ss_beta_mode = True, ss_slippage_tolerance = 1 / 100, ss_fee_tier = 500, ss_max_retries = 5, ss_redeem_delay = 300,
     ss_sweep_interval = 300, ss_sweep_max_cycles = 24, ss_settle_hour = 8, ss_resend_key = []\<rparr>"

definition demo_settle_env :: "(settle_call \<Rightarrow> bool) \<Rightarrow> settle_env" where
  "demo_settle_env bad = \<lparr>se_fails = (\<lambda>h. if bad (hd h) then Some (OtherError ''down'') else None),
     se_settings = demo_settle_settings, se_now = (\<lambda>h. 5000 * us_second), se_checksum = Inr, se_settled = (\<lambda>h. True),
     se_oracle = (\<lambda>h. (150000000000, True)), se_decimals = (\<lambda>h. 8), se_answer = (\<lambda>h. 150000000000), se_quote = (\<lambda>h. 1500000000),
     se_tx = (\<lambda>h. ''0xd''), se_emails = (\<lambda>h. [])\<rparr>"

definition demo_settle_world :: settle_world where
  "demo_settle_world = \<lparr>calls = [], sw_orders = [demo_expired], sw_decimals = []\<rparr>"

lemmas demo_settle_defs = demo_expired_def demo_settle_settings_def demo_settle_env_def demo_settle_world_def

text \<open>One ETH put at strike 2000, oracle price 1500: at most 1650 dollars may be spent on 1 ETH.\<close>

lemma demo_slippage:
  "compute_slippage_param (demo_settle_env bad) demo_expired (Some 150000000000) v = (Inr (1650000000, 10 ^ 18), v)"
  by (simp add: compute_slippage_param_def run_defs Let_def column_def compute_contra_amount_def checksum_underlying_def
      beta_compute_max_collateral_put_def with_ceiling_buffer_def BETA_SLIPPAGE_BPS_def position_config_def demo_settle_defs
      asset_of_value_def all_assets_def underlying_address_def)

theorem slippage_bounds_witness:
  "10000 * (1650000000 :: int) < (10000 + buffer_bps demo_settle_settings) * (10 ^ 18 * 150000000000 div 10 ^ 20) + 10000"
  using slippage_bounds [OF demo_slippage [of "\<lambda>c. False" demo_settle_world]]
  by (simp add: demo_settle_defs position_config_def asset_of_value_def all_assets_def)

section \<open>Delivery transactions\<close>

definition is_redeem :: "settle_call \<Rightarrow> bool" where
  "is_redeem c \<longleftrightarrow> (case c of PhysicalRedeem _ _ _ _ _ \<Rightarrow> True | _ \<Rightarrow> False)"

lemma quiet_scall: "\<not> is_redeem c \<Longrightarrow> grows (quiet_le is_redeem) (scall env c)"
  by (rule quiet_perform)

lemma quiet_slippage: "grows (quiet_le is_redeem) (compute_slippage_param env pos price)"
  unfolding compute_slippage_param_def Let_def
  by (intro quiet.rules quiet_scall) (simp add: is_redeem_def)

lemma spends_redeem_once: "spends is_redeem 1 (physical_redeem_once env pos amount mm price)"
  unfolding physical_redeem_once_def settle_tx_def
  by (intro spends_quiet_bind quiet_slippage spends_prod spends_if quiet.grows_lift spends_bind_quiet spends_then_quiet
      spends_perform quiet.rules) (auto intro: spends_quiet quiet.grows_raise)

lemma spends_attempts: "spends is_redeem 1 once \<Longrightarrow> spends is_redeem (Suc left) (redeem_attempts env once attempt left)"
proof (induction left arbitrary: attempt)
  case (Suc left)
  have "spends is_redeem (1 + Suc left) (redeem_attempts env once attempt (Suc left))"
    unfolding redeem_attempts.simps
    by (intro spends_bind spends_try Suc.prems spends_sum spends_quiet_then quiet_scall Suc.IH spends_quiet [OF quiet.grows_ret])
      (simp add: is_redeem_def)
  then show ?case by simp
qed simp

lemma attempts_succeed:
  "redeem_attempts env once attempt left w = (Inr x, w') \<Longrightarrow> \<exists>v v'. once v = (Inr x, v') \<and> calls w' = calls v'"
proof (induction left arbitrary: attempt w)
  case (Suc left)
  then show ?case
    by (cases "once w") (auto simp: bindE_def thenE_def tryE_def catchE_def run_defs perform_def Let_def
        split: sum.splits option.splits if_splits prod.splits)
qed auto

text \<open>
  A delivery sends at most \<open>settlement_max_retries\<close> transactions, whatever fails, and none if that setting is below one.
  It returns the hash and the contra amount of a transaction that was confirmed, and none is sent after it.
\<close>

lemma redeem_bounded:
  assumes "physical_redeem_with_retry env pos mm price w = (r, w')"
  shows "int (length (filter is_redeem (new_calls w w'))) \<le> max 0 (ss_max_retries (se_settings env)) \<and>
    (\<forall>tx contra. r = Inr (tx, contra) \<longrightarrow> (\<exists>c h. calls w' = c # h \<and> is_redeem c \<and> se_fails env (c # h) = None \<and> tx = se_tx env (c # h)))"
proof -
  let ?n = "ss_max_retries (se_settings env)"
  have "spends is_redeem (nat ?n) (physical_redeem_with_retry env pos mm price)"
  proof (cases "?n < 1")
    case True
    then show ?thesis by (simp add: physical_redeem_with_retry_def spends_quiet quiet.grows_raise)
  next
    case False
    then have "Suc (nat ?n - 1) = nat ?n" by simp
    with spends_attempts [OF spends_redeem_once, where left = "nat ?n - 1"]
    have "spends is_redeem (nat ?n) (redeem_attempts env (physical_redeem_once env pos a mm price) 1 (nat ?n - 1))" for a
      by (simp only:)
    with False show ?thesis
      unfolding physical_redeem_with_retry_def Let_def by (auto intro!: spends_quiet_bind quiet.grows_lift)
  qed
  from spends_new_calls [OF this, of w] assms have b: "length (filter is_redeem (new_calls w w')) \<le> nat ?n" by simp
  have "\<exists>c h. calls w' = c # h \<and> is_redeem c \<and> se_fails env (c # h) = None \<and> tx = se_tx env (c # h)" if r: "r = Inr (tx, contra)" for tx contra
  proof -
    have once: "wp (physical_redeem_once env pos a mm price)
        (\<lambda>x v. \<exists>c h. calls v = c # h \<and> is_redeem c \<and> se_fails env (c # h) = None \<and> fst x = se_tx env (c # h)) (\<lambda>_ _. True) v" for a v
    proof -
      have "wp (compute_slippage_param env pos price) (\<lambda>_ _. True) (\<lambda>_ _. True) v" by (auto simp: wp_def split: prod.split sum.split)
      then show ?thesis unfolding physical_redeem_once_def settle_tx_def wp_bind
        by (rule wp_mono) (auto simp: wps is_redeem_def split: prod.split sum.split option.split)
    qed
    obtain a v v' where "physical_redeem_once env pos a mm price v = (Inr (tx, contra), v')" "calls w' = calls v'"
      using assms r unfolding physical_redeem_with_retry_def Let_def
      by (cases "eo_amount pos") (auto simp: column_def bindE_def run_basic split: if_splits dest!: attempts_succeed)
    with once [of a v] show ?thesis by (simp add: wp_def)
  qed
  with b show ?thesis by auto
qed

lemma redeem_bounded_witness:
  "int (length (filter is_redeem (new_calls demo_settle_world
     (snd (physical_redeem_with_retry (demo_settle_env is_redeem) demo_expired ''0xmm'' (Some 150000000000) demo_settle_world))))) \<le> 5"
proof -
  obtain r w' where r: "physical_redeem_with_retry (demo_settle_env is_redeem) demo_expired ''0xmm'' (Some 150000000000) demo_settle_world = (r, w')"
    by fastforce
  from redeem_bounded [OF r] r show ?thesis by (simp add: demo_settle_env_def demo_settle_settings_def)
qed

section \<open>No position is lost\<close>

text \<open>The values of the settlement type, and that a delivery hash goes with \<open>physical\<close>.\<close>

definition accounted :: "order_row \<Rightarrow> bool" where
  "accounted r \<longleftrightarrow> eo_delivery_tx r \<noteq> None \<or> eo_settlement_type r \<in> {None, Some ''cash'', Some ''physical_failed''}"

text \<open>A row keeps its settled mark, its delivery and its account.\<close>

definition row_keeps :: "order_row \<Rightarrow> order_row \<Rightarrow> bool" where
  "row_keeps r r' \<longleftrightarrow> (accounted r \<longrightarrow> accounted r') \<and> (eo_is_settled r = Some True \<longrightarrow> eo_is_settled r' = Some True) \<and>
     (eo_delivery_tx r \<noteq> None \<longrightarrow> eo_delivery_tx r' \<noteq> None)"

definition keeps_accounts :: "settle_world \<Rightarrow> settle_world \<Rightarrow> bool" where
  "keeps_accounts w w' \<longleftrightarrow> list_all2 row_keeps (sw_orders w) (sw_orders w')"

interpretation keeps: world_order keeps_accounts
proof unfold_locales
  show "keeps_accounts w w" for w by (simp add: keeps_accounts_def row_keeps_def list_all2_refl)
  show "keeps_accounts u v \<Longrightarrow> keeps_accounts v w \<Longrightarrow> keeps_accounts u w" for u v w
    unfolding keeps_accounts_def by (erule (1) list_all2_trans [rotated]) (simp add: row_keeps_def)
qed

definition account_step :: "(order_row \<Rightarrow> order_row) \<Rightarrow> bool" where
  "account_step f \<longleftrightarrow> (\<forall>r. row_keeps r (f r))"

lemma keeps_call: "grows keeps_accounts (scall env c)"
  by (rule grows_perform) (simp add: keeps_accounts_def row_keeps_def list_all2_refl)

lemma keeps_table: "account_step f \<Longrightarrow> grows keeps_accounts (modifyE (\<lambda>w. w\<lparr>sw_orders := tbl_update P f (sw_orders w)\<rparr>))"
  by (rule keeps.grows_modify) (simp add: keeps_accounts_def account_step_def tbl_update_def list_all2_conv_all_nth row_keeps_def)

lemma account_columns:
  "account_step (settled_columns n)" "account_step (batch_columns tx n)" "account_step (failed_columns p)"
  "account_step (physical_columns p tx a c)" "account_step (otm_columns q)" "account_step (\<lambda>r. r\<lparr>eo_result_sent := s\<rparr>)"
  by (simp_all add: account_step_def row_keeps_def accounted_def settled_columns_def batch_columns_def failed_columns_def physical_columns_def otm_columns_def)

lemma keeps_db: "account_step f \<Longrightarrow> grows keeps_accounts (db_update env u v f)"
  unfolding db_update_def by (intro keeps.rules keeps_call keeps_table)

lemma keeps_db_id: "account_step f \<Longrightarrow> grows keeps_accounts (db_update_by_id env i f)"
  unfolding db_update_by_id_def by (intro keeps.rules keeps_call keeps_table)

lemma keeps_prices: "grows keeps_accounts (ensure_expiry_prices_set env expiries)"
  unfolding ensure_expiry_prices_set_def set_asset_prices_def set_expiry_price_def get_asset_price_raw_def get_decimals_def settle_tx_def
  by (intro keeps.rules keeps_call keeps.grows_modify) (simp add: keeps_accounts_def row_keeps_def list_all2_refl)

lemma keeps_reconcile: "grows keeps_accounts (reconcile_settled_on_chain env positions)"
  unfolding reconcile_settled_on_chain_def
proof (intro keeps.rules)
  show "grows keeps_accounts (reconcile_step env s p)" for s p
    unfolding reconcile_step_def clock_def by (cases s) (simp only: prod.case, intro keeps.rules keeps_call keeps_db account_columns)
qed

lemma keeps_mark_batch: "grows keeps_accounts (mark_batch_settled env owners vaults tx now)"
  unfolding mark_batch_settled_def
proof (intro keeps.rules)
  show "grows keeps_accounts (mark_step env tx now n x)" for n x
    unfolding mark_step_def by (cases x) (simp only: prod.case, intro keeps.rules keeps_db account_columns)
qed

lemma keeps_batches: "grows keeps_accounts (settle_batches env settled eligible bs)"
proof (induction bs arbitrary: settled eligible)
  case (Cons b bs)
  show ?case unfolding settle_batches.simps settle_tx_def clock_def
    by (intro keeps.rules keeps_call keeps_reconcile keeps_mark_batch Cons.IH)
qed (simp add: keeps.grows_ret)

lemma keeps_redeem: "grows keeps_accounts (physical_redeem_with_retry env pos mm price)"
proof -
  have once: "grows keeps_accounts (physical_redeem_once env pos a mm price)" for a
    unfolding physical_redeem_once_def compute_slippage_param_def settle_tx_def Let_def by (intro keeps.rules keeps_call)
  have "grows keeps_accounts (redeem_attempts env (physical_redeem_once env pos a mm price) k left)" for a k left
  proof (induction left arbitrary: k)
    case (Suc left)
    show ?case unfolding redeem_attempts.simps by (intro keeps.rules keeps_call once Suc.IH)
  qed (simp add: once)
  then show ?thesis unfolding physical_redeem_with_retry_def Let_def by (intro keeps.rules)
qed

lemma keeps_identify: "grows keeps_accounts (identify_itm_positions env positions)"
  unfolding identify_itm_positions_def
proof (intro keeps.rules)
  show "grows keeps_accounts (identify_step env s p)" for s p
    unfolding identify_step_def cached_price_def by (cases s) (simp only: prod.case, intro keeps.rules keeps_call)
qed

lemma keeps_deliver: "grows keeps_accounts (deliver env x)"
  unfolding deliver_def mark_failed_def
  by (cases x) (simp only: prod.case, intro keeps.rules keeps_db account_columns keeps_redeem)

lemma keeps_emails: "grows keeps_accounts (send_settlement_emails env settled itm)"
  unfolding send_settlement_emails_def fetch_email_map_def prepare_settlement_email_batch_def build_consolidated_result_email_def clock_def
proof (intro keeps.rules keeps_call)
  show "grows keeps_accounts (premark_step env now m x)" for now m x
    unfolding premark_step_def by (cases x) (simp only: prod.case, intro keeps.rules keeps_db_id account_columns)
qed

lemma keeps_settle_once: "grows keeps_accounts (settle_once env)"
  unfolding settle_once_def settle_reconciled_def phase2_def mark_otm_def get_expired_unsettled_def get_pending_phase2_def
  by (intro keeps.rules keeps_call keeps_reconcile keeps_prices keeps_batches keeps_identify keeps_deliver keeps_emails keeps_db account_columns)


definition is_update :: "settle_call \<Rightarrow> bool" where
  "is_update c \<longleftrightarrow> (case c of UpdatePosition _ _ \<Rightarrow> True | _ \<Rightarrow> False)"


section \<open>A delivery that cannot be marked\<close>

lemma run_perform: "perform fails c w = (case fails (c # calls w) of Some e \<Rightarrow> Inl e | None \<Rightarrow> Inr (), w\<lparr>calls := c # calls w\<rparr>)"
  by (simp add: perform_def Let_def)

definition still :: "settle_world \<Rightarrow> settle_world \<Rightarrow> bool" where
  "still w w' \<longleftrightarrow> sw_orders w' = sw_orders w \<and> filter is_redeem (calls w') = filter is_redeem (calls w)"

interpretation unmoved: world_order still
  by unfold_locales (auto simp: still_def)

lemma still_call: "\<not> is_redeem c \<Longrightarrow> grows still (scall env c)"
  by (rule grows_perform) (simp add: still_def)

lemma still_prices: "grows still (ensure_expiry_prices_set env expiries)"
  unfolding ensure_expiry_prices_set_def set_asset_prices_def set_expiry_price_def get_asset_price_raw_def get_decimals_def settle_tx_def
  by (intro unmoved.rules still_call unmoved.grows_modify) (simp_all add: still_def is_redeem_def)

text \<open>Only real exceptions: a handler catches them.\<close>

definition catchable :: "'a spy \<Rightarrow> bool" where
  "catchable m \<longleftrightarrow> (\<forall>w. wp m (\<lambda>_ _. True) (\<lambda>e _. e \<noteq> NoReturn) w)"

lemma returns_try: "catchable m \<Longrightarrow> returns (tryE m)"
proof -
  assume "catchable m"
  have "\<exists>x v. tryE m w = (Inr x, v)" for w
    using \<open>catchable m\<close> by (cases "m w"; cases "fst (m w)") (auto simp: catchable_def wp_def tryE_def catchE_def run_defs dest: spec [of _ w])
  then show ?thesis by (simp add: returns_def)
qed

lemma returns_caught:
  assumes "catchable m" "\<And>e. returns (h e)" shows "returns (catchE m h)"
proof -
  have "\<exists>x v. catchE m h w = (Inr x, v)" for w
  proof (cases "m w")
    case (Pair r v)
    with assms show ?thesis
      by (cases r) (auto simp: catchable_def wp_def catchE_def returns_def dest: spec [of _ w])
  qed
  then show ?thesis by (simp add: returns_def)
qed

lemma prices_return:
  assumes "se_checksum env = Inr" "\<And>h. se_fails env h \<noteq> Some NoReturn"
  shows "returns (ensure_expiry_prices_set env expiries)"
proof -
  have read: "catchable (thenE (scall env c) (getsE f))" "catchable (thenE (settle_tx env c) (ret ()))" for c f
    using assms(2) by (auto simp: catchable_def settle_tx_def wps split: option.split)
  have price: "returns (set_expiry_price env u c e)" for u c e
    unfolding set_expiry_price_def
    by (rule returns_bind, rule returns_try, rule read) (auto split: sum.split intro!: returns_ret returns_when returns_caught read)
  have feed: "catchable (bindE (get_asset_price_raw env a) (\<lambda>(price, decimals). ret (to_8_decimals price decimals)))" for a
    using assms(2) by (cases a) (auto simp: catchable_def get_asset_price_raw_def get_decimals_def chainlink_feed_address_def wps
        split: option.split)
  have "returns (set_asset_prices env expiries a)" for a
  proof -
    obtain u where "underlying_address (ss_addresses (se_settings env)) (asset_configs a) = Inr u"
      using underlying_total by blast
    then have "checksum_underlying env (asset_configs a) = Inr u" using assms(1) by (simp add: checksum_underlying_def)
    then show ?thesis unfolding set_asset_prices_def
      by (auto split: sum.split intro!: returns_rules returns_try feed price)
  qed
  then show ?thesis unfolding ensure_expiry_prices_set_def by (intro returns_rules)
qed

text \<open>
  The chain executes a delivery, but its mark cannot be written: the position keeps its place in the queue, and each
  further cycle sends the delivery transaction again.
\<close>

lemma unmarked_delivery_repeated:
  assumes fails: "\<And>h. se_fails env h = (if is_update (hd h) then Some (OtherError m) else None)"
    and env: "\<And>h. se_oracle env h = (p, True)" "se_checksum env = Inr" "\<And>h. expiry \<le> se_now env h div us_second"
      "1 \<le> ss_max_retries (se_settings env)" "ss_resend_key (se_settings env) = []"
    and pos: "is_pending_phase2 expiry pos" "eo_expiry pos = Some expiry" "eo_strike pos = Some strike" "in_the_money pos strike p"
      "eo_mm pos = Some mm" "mm \<noteq> []" "eo_amount pos = Some amount"
    and slippage: "\<And>v. compute_slippage_param env pos (Some p) v = (Inr (param, contra), v)" "0 < param"
    and w: "sw_orders w = [pos]"
  shows "\<exists>w'. for_each (\<lambda>_. settle_once env) (replicate k ()) w = (Inr (), w') \<and> sw_orders w' = [pos] \<and>
    length (filter is_redeem (calls w')) = k + length (filter is_redeem (calls w))"
proof -
  have cycle: "\<exists>v'. settle_once env v = (Inr (), v') \<and> sw_orders v' = [pos] \<and>
     length (filter is_redeem (calls v')) = Suc (length (filter is_redeem (calls v)))" if v: "sw_orders v = [pos]" for v
  proof -
    have call: "scall env c v = (Inr (), v\<lparr>calls := c # calls v\<rparr>)" if "\<not> is_update c" for c v
      using that by (simp add: run_perform fails)
    have not_update: "\<not> is_update ReadUnsettled" "\<not> is_update ReadPending" "\<not> is_update (ReadExpiryPrice u e)" "\<not> is_update (PhysicalRedeem a b c d e')"
      for u e a b c d e' by (simp_all add: is_update_def)
    have queues: "\<not> is_unsettled now pos" "expiry \<le> now \<Longrightarrow> is_pending_phase2 now pos" for now
      using pos(1,2) by (auto simp: is_unsettled_def is_pending_phase2_def has_settle_fields_def)
    obtain d where d: "underlying_address (ss_addresses (se_settings env)) (position_config pos) = Inr d"
      unfolding position_config_def using underlying_total by blast
    then obtain u where u: "checksum_underlying env (position_config pos) = Inr u"
      using env(2) by (simp add: checksum_underlying_def)
    have identify: "identify_itm_positions env [pos] v1 = (Inr ([(pos, p)], [((u, expiry), Some p)], []), v1\<lparr>calls := ReadExpiryPrice u expiry # calls v1\<rparr>)" for v1
      using pos by (simp add: identify_itm_positions_def identify_step_def cached_price_def run_defs call not_update column_def u env(1))
    have update: "db_update env a b f v1 = (Inl (OtherError m), v1\<lparr>calls := UpdatePosition (lower a) b # calls v1\<rparr>)" for a b f v1
      by (simp add: db_update_def run_defs run_perform fails is_update_def)
    have once: "physical_redeem_once env pos amount mm (Some p) v1 =
        (Inr (se_tx env (PhysicalRedeem (eo_otoken pos) (eo_user pos) amount param mm # calls v1), contra),
         v1\<lparr>calls := PhysicalRedeem (eo_otoken pos) (eo_user pos) amount param mm # calls v1\<rparr>)" for v1
      using slippage by (simp add: physical_redeem_once_def settle_tx_def run_defs call not_update env(2))
    have redeem: "physical_redeem_with_retry env pos mm (Some p) v1 = physical_redeem_once env pos amount mm (Some p) v1" for v1
      using env(4) pos(7) once by (cases "nat (ss_max_retries (se_settings env)) - 1")
        (simp_all add: physical_redeem_with_retry_def Let_def column_def run_defs tryE_def)
    have deliver: "\<exists>v2. deliver env (pos, p) v1 = (Inr (), v2) \<and> sw_orders v2 = sw_orders v1 \<and>
        length (filter is_redeem (calls v2)) = Suc (length (filter is_redeem (calls v1)))" for v1
      using pos(5,6) by (simp add: deliver_def redeem once update d run_defs tryE_def is_redeem_def)
    have otm: "otm_positions [(pos, p)] [] [pos] = []" by (simp add: otm_positions_def)
    have emails: "send_settlement_emails env [] [(pos, p)] = ret ()" by (simp add: send_settlement_emails_def env(5))
    have phase2: "\<exists>v2. phase2 env [pos] [] v1 = (Inr (), v2) \<and> sw_orders v2 = sw_orders v1 \<and>
        length (filter is_redeem (calls v2)) = Suc (length (filter is_redeem (calls v1)))" for v1
    proof -
      let ?v = "v1\<lparr>calls := ReadExpiryPrice u expiry # calls v1\<rparr>"
      obtain v2 where v2: "deliver env (pos, p) ?v = (Inr (), v2)" "sw_orders v2 = sw_orders v1"
        "length (filter is_redeem (calls v2)) = Suc (length (filter is_redeem (calls v1)))"
        using deliver [of ?v] by (auto simp: is_redeem_def)
      then have "phase2 env [pos] [] v1 = (Inr (), v2)"
        by (simp add: phase2_def bindE_def identify otm emails thenE_def catchE_def run_ret)
      with v2 show ?thesis by blast
    qed
    let ?v = "v\<lparr>calls := ReadPending # ReadUnsettled # calls v\<rparr>"
    have "returns (ensure_expiry_prices_set env [expiry])" by (rule prices_return) (simp_all add: env(2) fails)
    then obtain v1 where v1: "ensure_expiry_prices_set env [expiry] ?v = (Inr (), v1)" by (auto simp: returns_def)
    have "still ?v v1" using growsD [OF still_prices v1] .
    then have s1: "sw_orders v1 = [pos]" "filter is_redeem (calls v1) = filter is_redeem (calls v)"
      using v by (simp_all add: still_def is_redeem_def)
    obtain v2 where v2: "phase2 env [pos] [] v1 = (Inr (), v2)" "sw_orders v2 = [pos]"
      "length (filter is_redeem (calls v2)) = Suc (length (filter is_redeem (calls v)))"
      using phase2 [of v1] s1 by auto
    have "settle_once env v = (Inr (), v2)"
      using v v1 v2(1) env(3) queues pos(2)
      by (simp add: settle_once_def get_expired_unsettled_def get_pending_phase2_def settle_reconciled_def phase2_seed_def
          column_def run_defs call not_update whenE_def)
    with v2 show ?thesis by blast
  qed
  show ?thesis using w
  proof (induction k arbitrary: w)
    case (Suc k)
    obtain v where v: "settle_once env w = (Inr (), v)" "sw_orders v = [pos]"
      "length (filter is_redeem (calls v)) = Suc (length (filter is_redeem (calls w)))" using cycle [OF Suc.prems] by blast
    then show ?case using Suc.IH [OF v(2)] by (auto simp: thenE_def bindE_def)
  qed (simp add: run_basic)
qed

lemma unmarked_delivery_repeated_witness:
  "\<exists>w'. for_each (\<lambda>_. settle_once (demo_settle_env is_update)) (replicate 3 ()) demo_settle_world = (Inr (), w') \<and>
     length (filter is_redeem (calls w')) = 3"
proof -
  have pending: "is_pending_phase2 1000 demo_expired" by (simp add: is_pending_phase2_def has_settle_fields_def demo_expired_def)
  have "\<exists>w'. for_each (\<lambda>_. settle_once (demo_settle_env is_update)) (replicate 3 ()) demo_settle_world = (Inr (), w') \<and>
      sw_orders w' = [demo_expired] \<and> length (filter is_redeem (calls w')) = 3 + length (filter is_redeem (calls demo_settle_world))"
  proof (rule unmarked_delivery_repeated [where expiry = 1000 and strike = 200000000000 and p = 150000000000 and m = "''down''"
      and mm = "''0xmm''" and amount = 100000000 and param = 1650000000 and contra = "10 ^ 18"])
    show "se_fails (demo_settle_env is_update) h = (if is_update (hd h) then Some (OtherError ''down'') else None)" for h
      by (simp add: demo_settle_env_def)
  qed (use demo_slippage pending in \<open>simp_all add: demo_settle_env_def demo_settle_settings_def demo_settle_world_def in_the_money_def
      demo_expired_def us_second_def\<close>)
  then show ?thesis by (auto simp: demo_settle_world_def)
qed

end
