(* ===== verification/Expiry_Marks.thy ===== *)
theory Expiry_Marks
  imports Expiry_Safety
begin

text \<open>
  The in-the-money marks of a settlement cycle follow the oracle's final prices. The updates address rows by user and
  vault, so this needs the keys of the table to be distinct and its users in lower case.
\<close>

section \<open>Rows up to the settlement columns\<close>

definition terms_of :: "order_row \<Rightarrow> order_row" where
  "terms_of r = r\<lparr>eo_is_settled := None, eo_settled_at := None, eo_settlement_tx := None, eo_settlement_type := None,
     eo_is_itm := None, eo_expiry_price := None, eo_delivered_asset := None, eo_delivered_amount := None,
     eo_delivery_tx := None, eo_result_sent := None\<rparr>"

lemma terms_same:
  assumes "terms_of r = terms_of s"
  shows "vault_key r = vault_key s" "eo_user r = eo_user s" "eo_expiry r = eo_expiry s" "eo_strike r = eo_strike s"
    "in_the_money r = in_the_money s" "position_config r = position_config s" "eo_is_put r = eo_is_put s"
proof -
  have f: "f r = f s" if "\<And>r. f (terms_of r) = f r" for f :: "order_row \<Rightarrow> 'b" using that assms by metis
  show "vault_key r = vault_key s" "eo_user r = eo_user s" "eo_expiry r = eo_expiry s" "eo_strike r = eo_strike s"
    "in_the_money r = in_the_money s" "position_config r = position_config s" "eo_is_put r = eo_is_put s"
    by (rule f, simp add: terms_of_def vault_key_def in_the_money_def [abs_def] position_config_def)+
qed

lemma terms_columns [simp]:
  "terms_of (settled_columns n r) = terms_of r" "terms_of (batch_columns tx n r) = terms_of r" "terms_of (failed_columns p r) = terms_of r"
  "terms_of (physical_columns p tx a c r) = terms_of r" "terms_of (otm_columns q r) = terms_of r" "terms_of (r\<lparr>eo_result_sent := s\<rparr>) = terms_of r"
  "terms_of (r\<lparr>eo_is_settled := x, eo_settled_at := y, eo_settlement_tx := z\<rparr>) = terms_of r"
  by (simp_all add: terms_of_def settled_columns_def batch_columns_def failed_columns_def physical_columns_def otm_columns_def)

text \<open>The oracle's final prices, by token and expiry; once final, a price does not change.\<close>

type_synonym final_prices = "string \<Rightarrow> int \<Rightarrow> int option"

definition oracle_serves :: "final_prices \<Rightarrow> settle_env \<Rightarrow> bool" where
  "oracle_serves fin env \<longleftrightarrow> (\<forall>u e h p. se_oracle env (ReadExpiryPrice u e # h) = (p, True) \<longrightarrow> fin u e = Some p)"

text \<open>The final price of a position, and a row whose mark is right.\<close>

definition final_price :: "settle_env \<Rightarrow> final_prices \<Rightarrow> order_row \<Rightarrow> int option" where
  "final_price env fin r =
     (case (checksum_underlying env (position_config r), eo_expiry r) of (Inr u, Some e) \<Rightarrow> fin u e | _ \<Rightarrow> None)"

definition mark_right :: "settle_env \<Rightarrow> final_prices \<Rightarrow> order_row \<Rightarrow> bool" where
  "mark_right env fin r \<longleftrightarrow> (\<exists>k p. eo_strike r = Some k \<and> final_price env fin r = Some p \<and>
     eo_is_itm r = Some (in_the_money r k p) \<and> eo_expiry_price r = Some p)"

definition row_judged :: "settle_env \<Rightarrow> final_prices \<Rightarrow> order_row \<Rightarrow> order_row \<Rightarrow> bool" where
  "row_judged env fin r r' \<longleftrightarrow> terms_of r' = terms_of r \<and>
     (eo_is_itm r' = eo_is_itm r \<and> eo_expiry_price r' = eo_expiry_price r \<or> mark_right env fin r')"

definition judged :: "settle_env \<Rightarrow> final_prices \<Rightarrow> settle_world \<Rightarrow> settle_world \<Rightarrow> bool" where
  "judged env fin w w' \<longleftrightarrow> list_all2 (row_judged env fin) (sw_orders w) (sw_orders w')"

lemma final_price_terms: "terms_of r = terms_of s \<Longrightarrow> final_price env fin r = final_price env fin s"
  unfolding final_price_def using terms_same(3,6) [of r s] by simp

lemma mark_right_same:
  assumes "terms_of r = terms_of s" "eo_is_itm r = eo_is_itm s" "eo_expiry_price r = eo_expiry_price s"
  shows "mark_right env fin r = mark_right env fin s"
  unfolding mark_right_def using assms(2,3) terms_same(4,5) [OF assms(1)] final_price_terms [OF assms(1)] by simp

lemma row_judged_trans: "row_judged env fin r s \<Longrightarrow> row_judged env fin s t \<Longrightarrow> row_judged env fin r t"
  unfolding row_judged_def by (metis mark_right_same)

interpretation judge: world_order "judged env fin" for env fin
proof unfold_locales
  show "judged env fin w w" for w by (simp add: judged_def row_judged_def list_all2_refl)
  show "judged env fin u v \<Longrightarrow> judged env fin v w \<Longrightarrow> judged env fin u w" for u v w
    unfolding judged_def by (erule (1) list_all2_trans [rotated]) (rule row_judged_trans)
qed

section \<open>Operations that do not judge\<close>

lemma judge_call: "grows (judged env fin) (scall env c)"
  by (rule grows_perform) (simp add: judged_def row_judged_def list_all2_refl)

lemma judge_table:
  "(\<And>r. row_judged env fin r (f r)) \<Longrightarrow> grows (judged env fin) (modifyE (\<lambda>w. w\<lparr>sw_orders := tbl_update P f (sw_orders w)\<rparr>))"
  by (rule judge.grows_modify) (simp add: judged_def tbl_update_def list_all2_conv_all_nth row_judged_def)

lemma unjudged_columns: "row_judged env fin r (settled_columns n r)" "row_judged env fin r (batch_columns tx n r)"
    "row_judged env fin r (r\<lparr>eo_result_sent := s\<rparr>)"
  by (simp_all add: row_judged_def) (simp_all add: settled_columns_def batch_columns_def)

lemma judge_db: "(\<And>r. row_judged env fin r (f r)) \<Longrightarrow> grows (judged env fin) (db_update env u v f)"
  unfolding db_update_def by (intro judge.rules judge_call judge_table)

lemma judge_prices: "grows (judged env fin) (ensure_expiry_prices_set env expiries)"
  unfolding ensure_expiry_prices_set_def set_asset_prices_def set_expiry_price_def get_asset_price_raw_def get_decimals_def settle_tx_def
  by (intro judge.rules judge_call judge.grows_modify) (simp add: judged_def row_judged_def list_all2_refl)

lemma judge_reconcile: "grows (judged env fin) (reconcile_settled_on_chain env positions)"
  unfolding reconcile_settled_on_chain_def
proof (intro judge.rules)
  show "grows (judged env fin) (reconcile_step env s p)" for s p
    unfolding reconcile_step_def clock_def by (cases s) (simp only: prod.case, intro judge.rules judge_call judge_db unjudged_columns)
qed

lemma judge_mark_batch: "grows (judged env fin) (mark_batch_settled env owners vaults tx now)"
  unfolding mark_batch_settled_def
proof (intro judge.rules)
  show "grows (judged env fin) (mark_step env tx now n x)" for n x
    unfolding mark_step_def by (cases x) (simp only: prod.case, intro judge.rules judge_db unjudged_columns)
qed

lemma judge_batches: "grows (judged env fin) (settle_batches env settled eligible bs)"
proof (induction bs arbitrary: settled eligible)
  case (Cons b bs)
  show ?case unfolding settle_batches.simps settle_tx_def clock_def
    by (intro judge.rules judge_call judge_reconcile judge_mark_batch Cons.IH)
qed (simp add: judge.grows_ret)

lemma judge_redeem: "grows (judged env fin) (physical_redeem_with_retry env pos mm price)"
proof -
  have once: "grows (judged env fin) (physical_redeem_once env pos a mm price)" for a
    unfolding physical_redeem_once_def compute_slippage_param_def settle_tx_def Let_def by (intro judge.rules judge_call)
  have "grows (judged env fin) (redeem_attempts env (physical_redeem_once env pos a mm price) k left)" for a k left
  proof (induction left arbitrary: k)
    case (Suc left)
    show ?case unfolding redeem_attempts.simps by (intro judge.rules judge_call once Suc.IH)
  qed (simp add: once)
  then show ?thesis unfolding physical_redeem_with_retry_def Let_def by (intro judge.rules)
qed

lemma judge_identify: "grows (judged env fin) (identify_itm_positions env positions)"
  unfolding identify_itm_positions_def
proof (intro judge.rules)
  show "grows (judged env fin) (identify_step env s p)" for s p
    unfolding identify_step_def cached_price_def by (cases s) (simp only: prod.case, intro judge.rules judge_call)
qed

lemma judge_emails: "grows (judged env fin) (send_settlement_emails env settled itm)"
  unfolding send_settlement_emails_def fetch_email_map_def prepare_settlement_email_batch_def build_consolidated_result_email_def clock_def
proof (intro judge.rules judge_call)
  show "grows (judged env fin) (premark_step env now m x)" for now m x
    unfolding premark_step_def db_update_by_id_def
    by (cases x) (simp only: prod.case, intro judge.rules judge_call judge_table unjudged_columns)
qed

section \<open>The positions of a cycle\<close>

text \<open>A position is known if the table has a row with its terms.\<close>

definition known :: "order_row list \<Rightarrow> order_row \<Rightarrow> bool" where
  "known rows p \<longleftrightarrow> (\<exists>r \<in> set rows. terms_of r = terms_of p)"

lemma known_list: "list_all2 (row_judged env fin) rows rows' \<Longrightarrow> r \<in> set rows' \<Longrightarrow> known rows r"
  by (auto simp: known_def row_judged_def list_all2_conv_all_nth in_set_conv_nth) (metis nth_mem)

lemma reconcile_subset:
  "yields (\<lambda>x. set (fst x) \<union> set (snd x) \<subseteq> set positions) (reconcile_settled_on_chain env positions)"
proof -
  have "yields (\<lambda>x. set (fst x) \<union> set (snd x) \<subseteq> set (seen @ [p])) (reconcile_step env s p)"
    if "set (fst s) \<union> set (snd s) \<subseteq> set seen" for seen s p
    unfolding reconcile_step_def using that
    by (cases s) (simp only: prod.case, intro yields_bind_any yields_rules, auto)
  then show ?thesis unfolding reconcile_settled_on_chain_def
    by (intro yields_fold [where I = "\<lambda>seen x. set (fst x) \<union> set (snd x) \<subseteq> set seen"]) simp_all
qed

lemma batches_cover: "concat (batches ps) = ps"
proof (induction ps rule: batches.induct)
  case (2 p ps)
  then show ?case using append_take_drop_id [of "MAX_BATCH_SIZE - 1" ps] by (simp add: MAX_BATCH_SIZE_def)
qed simp

lemma batches_known:
  assumes "\<forall>p \<in> set settled \<union> set (concat bs). known rows p"
  shows "yields (\<lambda>x. \<forall>p \<in> set (fst x). known rows p) (settle_batches env settled eligible bs)"
  using assms
proof (induction bs arbitrary: settled eligible)
  case (Cons b bs)
  have rec: "yields (\<lambda>x. \<forall>p \<in> set (fst x). known rows p) (bindE (reconcile_settled_on_chain env b) (\<lambda>(unsettled, already_settled).
      if unsettled \<noteq> [] then ret (settled @ already_settled, eligible, True)
      else settle_batches env (settled @ already_settled) eligible bs))"
    by (rule yields_bind [OF reconcile_subset], intro yields_rules Cons.IH) (use Cons.prems in auto)
  have marked: "\<forall>p \<in> set (settled @ map (\<lambda>p. p\<lparr>eo_is_settled := x, eo_settled_at := y, eo_settlement_tx := z\<rparr>) b) \<union> set (concat bs).
      known rows p" for x y z
    using Cons.prems by (auto simp: known_def)
  have plain: "\<forall>p \<in> set (settled @ b) \<union> set (concat bs). known rows p" using Cons.prems by auto
  show ?case
    unfolding settle_batches.simps
    by (rule yields_bind_any, rule yields_bind_any, rule yields_sum, rule rec, rule yields_bind_any, rule yields_bind_any,
        rule yields_sum, rule Cons.IH [OF plain], rule yields_let, simp only:, rule Cons.IH [OF marked])
qed (simp add: yields_ret)

section \<open>Identification\<close>

lemma cached_price_value:
  assumes "oracle_serves fin env" "\<forall>u e p. map_of cache (u, e) = Some (Some p) \<longrightarrow> fin u e = Some p"
  shows "yields (\<lambda>(price, cache'). map_of cache' (u, e) = Some price \<and>
     (\<forall>k v. map_of cache k = Some v \<longrightarrow> map_of cache' k = Some v) \<and>
     (\<forall>u e p. map_of cache' (u, e) = Some (Some p) \<longrightarrow> fin u e = Some p)) (cached_price env u e cache)"
proof (rule yields_wp)
  fix w
  have "fin u e = Some p" if "se_oracle env (ReadExpiryPrice u e # h) = (p, True)" for h p
    using assms(1) that by (auto simp: oracle_serves_def)
  with assms(2) show "wp (cached_price env u e cache) (\<lambda>x _. case x of (price, cache') \<Rightarrow> map_of cache' (u, e) = Some price \<and>
     (\<forall>k v. map_of cache k = Some v \<longrightarrow> map_of cache' k = Some v) \<and>
     (\<forall>u e p. map_of cache' (u, e) = Some (Some p) \<longrightarrow> fin u e = Some p)) (\<lambda>_ _. True) w"
    by (auto simp: cached_price_def wps split: option.split prod.split)
qed

text \<open>What the loop knows of the positions it has seen.\<close>

definition identified ::
  "settle_env \<Rightarrow> final_prices \<Rightarrow> order_row list \<Rightarrow> (order_row \<times> int) list \<times> price_cache \<times> (string \<times> int) list \<Rightarrow> bool" where
  "identified env fin seen = (\<lambda>(itm, cache, skipped).
     (\<forall>u e p. map_of cache (u, e) = Some (Some p) \<longrightarrow> fin u e = Some p) \<and>
     (\<forall>(pos, p) \<in> set itm. pos \<in> set seen \<and> final_price env fin pos = Some p \<and>
        (\<exists>k. eo_strike pos = Some k \<and> in_the_money pos k p)) \<and>
     (\<forall>pos \<in> set seen. vault_key pos \<in> set skipped \<or>
        (\<exists>u e k p. checksum_underlying env (position_config pos) = Inr u \<and> eo_expiry pos = Some e \<and> eo_strike pos = Some k \<and>
           map_of cache (u, e) = Some (Some p) \<and> (in_the_money pos k p \<longrightarrow> (pos, p) \<in> set itm))))"

lemma identify_value:
  assumes "oracle_serves fin env"
  shows "yields (identified env fin positions) (identify_itm_positions env positions)"
  unfolding identify_itm_positions_def
proof (rule yields_fold)
  show "identified env fin [] ([], [], [])" by (simp add: identified_def)
  fix seen pos and s :: "(order_row \<times> int) list \<times> price_cache \<times> (string \<times> int) list"
  assume id: "identified env fin seen s"
  obtain itm cache skipped where s: "s = (itm, cache, skipped)" by (cases s) auto
  have cache: "\<forall>u e p. map_of cache (u, e) = Some (Some p) \<longrightarrow> fin u e = Some p" using id by (simp add: identified_def s)
  show "yields (identified env fin (seen @ [pos])) (identify_step env s pos)"
    unfolding s identify_step_def prod.case
  proof (intro yields_bind_lift)
    fix e u assume e: "column (eo_expiry pos) = Inr e" and u: "checksum_underlying env (position_config pos) = Inr u"
    then have e': "eo_expiry pos = Some e" by (simp add: column_def split: option.splits)
    show "yields (identified env fin (seen @ [pos])) (bindE (cached_price env u e cache) (\<lambda>(price, cache). case price of
         None \<Rightarrow> ret (itm, cache, skipped @ [vault_key pos])
       | Some oracle_price \<Rightarrow>
           bindE (liftE (column (eo_strike pos))) (\<lambda>strike.
             ret (if in_the_money pos strike oracle_price then itm @ [(pos, oracle_price)] else itm, cache, skipped))))"
    proof (rule yields_bind [OF cached_price_value [OF assms cache]], intro yields_prod yields_option yields_bind_lift yields_ret)
      fix x price cache'
      assume x: "case x of (price, cache') \<Rightarrow> map_of cache' (u, e) = Some price \<and>
         (\<forall>k v. map_of cache k = Some v \<longrightarrow> map_of cache' k = Some v) \<and>
         (\<forall>u e p. map_of cache' (u, e) = Some (Some p) \<longrightarrow> fin u e = Some p)" "x = (price, cache')"
      have mono: "map_of cache k = Some v \<Longrightarrow> map_of cache' k = Some v" for k v using x by (cases k) simp
      have "\<forall>p \<in> set seen. vault_key p \<in> set skipped \<or>
        (\<exists>u e k q. checksum_underlying env (position_config p) = Inr u \<and> eo_expiry p = Some e \<and> eo_strike p = Some k \<and>
           map_of cache (u, e) = Some (Some q) \<and> (in_the_money p k q \<longrightarrow> (p, q) \<in> set itm))"
        using id unfolding identified_def s prod.case by (elim conjE)
      then have old: "\<forall>p \<in> set seen. vault_key p \<in> set skipped \<or>
        (\<exists>u e k q. checksum_underlying env (position_config p) = Inr u \<and> eo_expiry p = Some e \<and> eo_strike p = Some k \<and>
           map_of cache' (u, e) = Some (Some q) \<and> (in_the_money p k q \<longrightarrow> (p, q) \<in> set itm))"
        using mono by blast
      have fin: "\<forall>u e p. map_of cache' (u, e) = Some (Some p) \<longrightarrow> fin u e = Some p" using x by simp
      have itm: "\<forall>(p, q) \<in> set itm. p \<in> set seen \<and> final_price env fin p = Some q \<and> (\<exists>k. eo_strike p = Some k \<and> in_the_money p k q)"
        using id by (simp add: identified_def s)
      show "identified env fin (seen @ [pos]) (itm, cache', skipped @ [vault_key pos])"
        using old fin itm by (auto simp: identified_def)
      fix q k assume q: "price = Some q" and k: "column (eo_strike pos) = Inr k"
      then have k': "eo_strike pos = Some k" by (simp add: column_def split: option.splits)
      have c: "map_of cache' (u, e) = Some (Some q)" "fin u e = Some q" using x q fin by auto
      let ?itm = "if in_the_money pos k q then itm @ [(pos, q)] else itm"
      have f: "final_price env fin pos = Some q" by (simp add: final_price_def u e' c)
      have new: "\<exists>u e k q. checksum_underlying env (position_config pos) = Inr u \<and> eo_expiry pos = Some e \<and> eo_strike pos = Some k \<and>
           map_of cache' (u, e) = Some (Some q) \<and> (in_the_money pos k q \<longrightarrow> (pos, q) \<in> set ?itm)"
        by (intro exI [of _ u] exI [of _ e] exI [of _ k] exI [of _ q]) (simp add: u e' k' c)
      have mono: "x \<in> set itm \<Longrightarrow> x \<in> set ?itm" for x by simp
      show "identified env fin (seen @ [pos]) (?itm, cache', skipped)"
        unfolding identified_def prod.case
      proof (intro conjI)
        show "\<forall>(p, q) \<in> set ?itm. p \<in> set (seen @ [pos]) \<and> final_price env fin p = Some q \<and> (\<exists>k. eo_strike p = Some k \<and> in_the_money p k q)"
          using itm f k' by (auto split: if_splits)
        show "\<forall>p \<in> set (seen @ [pos]). vault_key p \<in> set skipped \<or>
          (\<exists>u e k q. checksum_underlying env (position_config p) = Inr u \<and> eo_expiry p = Some e \<and> eo_strike p = Some k \<and>
             map_of cache' (u, e) = Some (Some q) \<and> (in_the_money p k q \<longrightarrow> (p, q) \<in> set ?itm))"
        proof
          fix p assume p: "p \<in> set (seen @ [pos])"
          show "vault_key p \<in> set skipped \<or>
            (\<exists>u e k q. checksum_underlying env (position_config p) = Inr u \<and> eo_expiry p = Some e \<and> eo_strike p = Some k \<and>
               map_of cache' (u, e) = Some (Some q) \<and> (in_the_money p k q \<longrightarrow> (p, q) \<in> set ?itm))"
          proof (cases "p = pos")
            case True
            then show ?thesis using new by blast
          next
            case False
            with p have "p \<in> set seen" by simp
            with old mono show ?thesis by blast
          qed
        qed
      qed (rule fin)
    qed
  qed
qed

section \<open>The marks\<close>

definition table_ok :: "order_row list \<Rightarrow> bool" where
  "table_ok rows \<longleftrightarrow> distinct (map vault_key rows) \<and> (\<forall>r \<in> set rows. lower (eo_user r) = eo_user r)"

text \<open>An update for a known position only changes rows with its terms.\<close>

lemma known_row:
  assumes "table_ok rows" "known rows p" "list_all2 (row_judged env fin) rows rows'" "r \<in> set rows'"
    and "vault_key r = (lower (eo_user p), eo_vault p)"
  shows "terms_of r = terms_of p"
proof -
  obtain r0 where r0: "r0 \<in> set rows" "terms_of r0 = terms_of r" using known_list [OF assms(3,4)] by (auto simp: known_def)
  obtain r1 where r1: "r1 \<in> set rows" "terms_of r1 = terms_of p" using assms(2) by (auto simp: known_def)
  have "lower (eo_user p) = eo_user p" using r1 assms(1) terms_same(2) [OF r1(2)] by (auto simp: table_ok_def)
  then have "vault_key r = vault_key p" using assms(5) by (simp add: vault_key_def)
  then have "vault_key r0 = vault_key r1" using terms_same(1) r0(2) r1(2) by metis
  with r0(1) r1(1) assms(1) have "r0 = r1" by (auto simp: table_ok_def distinct_map dest: inj_onD)
  with r0 r1 show ?thesis by simp
qed

lemma judged_update:
  assumes "table_ok (sw_orders w0)" "known (sw_orders w0) p" "judged env fin w0 w"
    and "\<And>r. terms_of r = terms_of p \<Longrightarrow> row_judged env fin r (f r)"
  shows "wp (db_update env (eo_user p) (eo_vault p) f) (\<lambda>_. judged env fin w0) (\<lambda>_. judged env fin w0) w"
proof -
  let ?P = "\<lambda>r. vault_key r = (lower (eo_user p), eo_vault p)"
  have l: "list_all2 (row_judged env fin) (sw_orders w0) (sw_orders w)" using assms(3) by (simp add: judged_def)
  have "row_judged env fin r (if ?P r then f r else r)" if "r \<in> set (sw_orders w)" for r
    using assms(4) known_row [OF assms(1,2) l that] by (auto simp: row_judged_def)
  then have "list_all2 (row_judged env fin) (sw_orders w) (tbl_update ?P f (sw_orders w))"
    by (simp add: tbl_update_def list_all2_conv_all_nth)
  with l have "list_all2 (row_judged env fin) (sw_orders w0) (tbl_update ?P f (sw_orders w))"
    by (rule list_all2_trans [rotated]) (rule row_judged_trans)
  with l show ?thesis by (simp add: db_update_def wps judged_def split: option.split)
qed

lemma final_mark:
  assumes "final_price env fin p = Some q" "eo_strike p = Some k" "terms_of r' = terms_of r" "terms_of r = terms_of p"
    and "eo_is_itm r' = Some (in_the_money p k q)" "eo_expiry_price r' = Some q"
  shows "row_judged env fin r r'"
proof -
  have t: "terms_of r' = terms_of p" using assms by simp
  have "mark_right env fin r'"
    unfolding mark_right_def using assms(1,2,5,6) terms_same(4,5) [OF t] final_price_terms [OF t] by simp
  with assms(3) show ?thesis by (simp add: row_judged_def)
qed

lemma judged_deliver:
  assumes "table_ok (sw_orders w0)" "known (sw_orders w0) p" "judged env fin w0 w"
    and "final_price env fin p = Some q" "eo_strike p = Some k" "in_the_money p k q"
  shows "wp (deliver env (p, q)) (\<lambda>_. judged env fin w0) (\<lambda>_. judged env fin w0) w"
proof -
  have mark: "wp (catchE (db_update env (eo_user p) (eo_vault p) f) (\<lambda>_. ret ())) (\<lambda>_. judged env fin w0) (\<lambda>_. judged env fin w0) v"
    if "judged env fin w0 v" "\<And>r. terms_of (f r) = terms_of r" "\<And>r. eo_is_itm (f r) = Some True" "\<And>r. eo_expiry_price (f r) = Some q" for f v
    unfolding wp_catch
    by (rule wp_mono [OF judged_update [OF assms(1,2) that(1)]])
      (use that assms(4-6) in \<open>auto simp: wp_ret intro!: final_mark\<close>)
  have failed: "wp (mark_failed env p q) (\<lambda>_. judged env fin w0) (\<lambda>_. judged env fin w0) v" if "judged env fin w0 v" for v
    unfolding mark_failed_def by (rule mark [OF that]) (simp, simp_all add: failed_columns_def)
  have attempt: "wp (tryE (physical_redeem_with_retry env p mm pr)) (\<lambda>_. judged env fin w0) (\<lambda>_. judged env fin w0) w" for mm pr
    by (intro judge.wp_le judge.grows_try judge_redeem assms(3))
  have mark_done: "wp (bindE (if eo_is_put p = Some True then liftE a else ret b) (\<lambda>delivered.
      catchE (db_update env (eo_user p) (eo_vault p) (physical_columns q tx (lower delivered) contra)) (\<lambda>_. ret ())))
      (\<lambda>_. judged env fin w0) (\<lambda>_. judged env fin w0) v" if "judged env fin w0 v" for a b tx contra v
  proof -
    have "wp (catchE (db_update env (eo_user p) (eo_vault p) (physical_columns q tx d contra)) (\<lambda>_. ret ()))
        (\<lambda>_. judged env fin w0) (\<lambda>_. judged env fin w0) v" for d
      by (rule mark [OF that]) (simp, simp_all add: physical_columns_def)
    with that show ?thesis by (simp only: wp_bind wp_if wp_lift wp_ret) (simp split: sum.split)
  qed
  show ?thesis
  proof (cases "truthy (eo_mm p)")
    case True
    then show ?thesis unfolding deliver_def prod.case
    proof (simp only: not_True_eq_False if_False wp_bind [of "tryE m" for m], intro wp_mono [OF attempt])
      fix r v assume v: "judged env fin w0 v"
      show "wp (case r of Inl _ \<Rightarrow> mark_failed env p q
         | Inr (tx_hash, contra_amount) \<Rightarrow>
             bindE (if eo_is_put p = Some True
                    then liftE (underlying_address (ss_addresses (se_settings env)) (position_config p))
                    else ret (usdc_address (ss_addresses (se_settings env)))) (\<lambda>delivered_asset.
               catchE (db_update env (eo_user p) (eo_vault p) (physical_columns q tx_hash (lower delivered_asset) contra_amount))
                 (\<lambda>_. ret ()))) (\<lambda>_. judged env fin w0) (\<lambda>_. judged env fin w0) v"
        by (cases r) (auto simp only: sum.case prod.case intro!: failed [OF v] mark_done [OF v] split: prod.split)
    qed
  next
    case False
    then show ?thesis unfolding deliver_def prod.case by (simp only: not_False_eq_True if_True failed [OF assms(3)])
  qed
qed

lemma judged_otm:
  assumes "table_ok (sw_orders w0)" "known (sw_orders w0) pos" "judged env fin w0 w"
    and "identified env fin settled (itm, cache, skipped)" "pos \<in> set (otm_positions itm skipped settled)"
  shows "wp (mark_otm env cache pos) (\<lambda>_. judged env fin w0) (\<lambda>_. judged env fin w0) w"
proof -
  have p: "pos \<in> set settled" "vault_key pos \<notin> set skipped" "\<forall>q. (pos, q) \<notin> set itm"
    using assms(5) by (auto simp: otm_positions_def)
  then obtain u e k q where q: "checksum_underlying env (position_config pos) = Inr u" "eo_expiry pos = Some e" "eo_strike pos = Some k"
    "map_of cache (u, e) = Some (Some q)" "\<not> in_the_money pos k q"
    using assms(4) unfolding identified_def prod.case by blast
  have f: "final_price env fin pos = Some q" using assms(4) q by (simp add: identified_def final_price_def)
  have "wp (db_update env (eo_user pos) (eo_vault pos) (otm_columns (Some q))) (\<lambda>_. judged env fin w0) (\<lambda>_. judged env fin w0) w"
    by (rule judged_update [OF assms(1-3)]) (rule final_mark [OF f q(3)], simp_all add: otm_columns_def q(5), simp_all add: terms_of_def)
  then show ?thesis
    unfolding mark_otm_def wp_bind wp_lift wp_catch by (simp add: q column_def) (erule wp_mono, simp_all add: wp_ret)
qed

lemma judged_phase2:
  assumes "table_ok (sw_orders w0)" "\<forall>p \<in> set settled. known (sw_orders w0) p" "judged env fin w0 w" "oracle_serves fin env"
  shows "wp (phase2 env settled eligible) (\<lambda>_. judged env fin w0) (\<lambda>_. judged env fin w0) w"
proof -
  have id: "wp (identify_itm_positions env settled) (\<lambda>x v. identified env fin settled x \<and> judged env fin w0 v) (\<lambda>_. judged env fin w0) w"
    by (rule wp_mono [OF wp_conj [OF wp_yields [OF identify_value [OF assms(4)]] judge.wp_le [OF judge_identify assms(3)]]]) auto
  have rest: "wp (thenE (for_each (deliver env) itm) (thenE (for_each (mark_otm env cache) (otm_positions itm skipped settled))
       (catchE (send_settlement_emails env eligible itm) (\<lambda>_. ret ())))) (\<lambda>_. judged env fin w0) (\<lambda>_. judged env fin w0) v"
    if i: "identified env fin settled (itm, cache, skipped)" and v: "judged env fin w0 v" for itm cache skipped v
    unfolding wp_then
  proof (rule wp_mono [OF wp_for_each [where I = "judged env fin w0", OF v]])
    fix x u assume u: "judged env fin w0 u" and x: "x \<in> set itm"
    obtain p q where pq: "x = (p, q)" by fastforce
    with i x obtain k where "p \<in> set settled" "final_price env fin p = Some q" "eo_strike p = Some k" "in_the_money p k q"
      unfolding identified_def prod.case by blast
    with assms(1,2) u show "wp (deliver env x) (\<lambda>_. judged env fin w0) (\<lambda>_. judged env fin w0) u"
      unfolding pq by (intro judged_deliver) auto
  next
    fix y :: unit and u assume u: "judged env fin w0 u"
    show "wp (for_each (mark_otm env cache) (otm_positions itm skipped settled))
        (\<lambda>_. wp (catchE (send_settlement_emails env eligible itm) (\<lambda>_. ret ())) (\<lambda>_. judged env fin w0) (\<lambda>_. judged env fin w0))
        (\<lambda>_. judged env fin w0) u"
    proof (rule wp_mono [OF wp_for_each [where I = "judged env fin w0", OF u]])
      fix p v assume v: "judged env fin w0 v" and p: "p \<in> set (otm_positions itm skipped settled)"
      then have "known (sw_orders w0) p" using assms(2) by (auto simp: otm_positions_def)
      with v p show "wp (mark_otm env cache p) (\<lambda>_. judged env fin w0) (\<lambda>_. judged env fin w0) v"
        by (intro judged_otm [OF assms(1) _ _ i])
    qed (intro judge.wp_le judge.rules judge_emails)
  qed
  show ?thesis unfolding phase2_def wp_bind by (rule wp_mono [OF id]) (auto split: prod.split intro: rest)
qed

lemma phase2_seed_set: "set (phase2_seed reconciled recovery) \<subseteq> set reconciled \<union> set recovery"
  unfolding phase2_seed_def
proof (induction recovery arbitrary: reconciled)
  case (Cons p recovery)
  from Cons [of reconciled] Cons [of "reconciled @ [p]"] show ?case by (auto simp del: elem_iff)
qed simp

lemma judged_reconciled:
  assumes "table_ok (sw_orders w0)" "\<forall>p \<in> set positions \<union> set seed. known (sw_orders w0) p" "judged env fin w0 w" "oracle_serves fin env"
  shows "wp (settle_reconciled env positions seed) (\<lambda>_. judged env fin w0) (\<lambda>_. judged env fin w0) w"
proof -
  have prices: "wp (ensure_expiry_prices_set env es) (\<lambda>_. judged env fin w0) (\<lambda>_. judged env fin w0) w" for es
    by (rule judge.wp_le [OF judge_prices assms(3)])
  have "\<forall>p \<in> set seed \<union> set (concat (batches positions)). known (sw_orders w0) p" using assms(2) by (auto simp: batches_cover)
  from batches_known [OF this]
  have b: "wp (settle_batches env seed [] (batches positions))
      (\<lambda>x v. (\<forall>p \<in> set (fst x). known (sw_orders w0) p) \<and> judged env fin w0 v) (\<lambda>_. judged env fin w0) v" if "judged env fin w0 v" for v
    by (intro wp_mono [OF wp_conj [OF wp_yields judge.wp_le [OF judge_batches that]]]) auto
  have sleep: "wp (whenE c (scall env s)) (\<lambda>_. judged env fin w0) (\<lambda>_. judged env fin w0) v" if "judged env fin w0 v" for c s v
    by (intro judge.wp_le judge.rules judge_call that)
  have rest: "wp (bindE (settle_batches env seed [] (batches positions)) (\<lambda>(settled, eligible, phase1_failed).
             if settled = [] then ret ()
             else
               thenE (whenE (length seed < length settled) (scall env (SleepFor (ss_redeem_delay (se_settings env) * us_second))))
                 (phase2 env settled eligible))) (\<lambda>_. judged env fin w0) (\<lambda>_. judged env fin w0) v" if "judged env fin w0 v" for v
    unfolding wp_bind
    by (rule wp_mono [OF b [OF that]])
      (auto simp: wp_ret wp_then split: prod.split intro!: wp_mono [OF sleep] judged_phase2 [OF assms(1) _ _ assms(4)])
  show ?thesis
    unfolding settle_reconciled_def wp_if wp_bind [of "liftE x" for x] wp_lift wp_then [of "ensure_expiry_prices_set env es" for es] wp_ret
    using assms(3) by (auto split: sum.split intro!: wp_mono [OF prices] rest)
qed


lemma demo_lower: "lower ''0xuser'' = ''0xuser''"
  by code_simp


end
