(* ===== verification/Quote_Crypto.thy ===== *)
theory Quote_Crypto
  imports Cctp Assets
begin

text \<open>
  Signed quotes: the data and validation of \<open>src/models/mm.py\<close>, the byte layout of Solana quotes in
  \<open>src/crypto/ed25519.py\<close> and the typed data of Base quotes in \<open>src/crypto/eip712.py\<close>. The signature
  schemes themselves are libraries and parameters of the definitions.
\<close>

section \<open>Quotes and their validation\<close>

record quote =
  q_otoken :: string
  q_bid :: int
  q_deadline :: int
  q_id :: int
  q_max_amount :: int
  q_nonce :: int
  q_signature :: string
  q_chain :: string
  q_maker :: "string option"
  q_asset :: string
  q_strike :: "rat option"
  q_expiry :: "int option"
  q_is_put :: "bool option"

definition VALID_ASSETS :: "string list" where
  "VALID_ASSETS = [''eth'', ''btc'', ''sol'', ''tslax'']"

definition VALID_CHAINS :: "string list" where
  "VALID_CHAINS = [''base'', ''solana'']"

text \<open>\<open>^[base58]{lo,hi}$\<close>; the dollar sign also matches before a final line feed.\<close>

definition b58_re :: "nat \<Rightarrow> nat \<Rightarrow> string \<Rightarrow> bool" where
  "b58_re lo hi s \<longleftrightarrow> (let t = chop_newline s in
     lo \<le> length t \<and> length t \<le> hi \<and> list_all (\<lambda>c. elem c b58_chars) t)"

definition base58_re :: "string \<Rightarrow> bool" where "base58_re = b58_re 32 44"
definition base58_sig_re :: "string \<Rightarrow> bool" where "base58_sig_re = b58_re 80 88"
definition hex_signature_re :: "string \<Rightarrow> bool" where "hex_signature_re = hex_re 130"

text \<open>The field validators. \<open>show_set\<close> prints a set, whose order Python leaves open.\<close>

definition validate_asset :: "(string list \<Rightarrow> string) \<Rightarrow> string \<Rightarrow> exn + string" where
  "validate_asset show_set v =
     (if elem (lower v) VALID_ASSETS then Inr (lower v)
      else Inl (ValueError (''asset must be one of '' @ show_set VALID_ASSETS)))"

definition validate_chain :: "(string list \<Rightarrow> string) \<Rightarrow> string \<Rightarrow> exn + string" where
  "validate_chain show_set v =
     (if elem (lower v) VALID_CHAINS then Inr (lower v)
      else Inl (ValueError (''chain must be one of '' @ show_set VALID_CHAINS)))"

definition validate_chain_specific_fields :: "quote \<Rightarrow> exn + quote" where
  "validate_chain_specific_fields q =
     (if q_chain q = ''solana'' then
        (if \<not> truthy (q_maker q) then Inl (ValueError ''maker (Solana pubkey) is required when chain=solana'')
         else if \<not> base58_re (the (q_maker q)) then Inl (ValueError ''maker must be a valid base58 Solana address'')
         else if \<not> base58_re (q_otoken q) then Inl (ValueError ''otoken_address must be base58 when chain=solana'')
         else if \<not> base58_sig_re (q_signature q) then
           Inl (ValueError ''signature must be a base58-encoded ed25519 signature when chain=solana'')
         else Inr q)
      else
        (let otoken = lower (q_otoken q);
             sg = (if starts_with (q_signature q) ''0x'' then q_signature q else ''0x'' @ q_signature q) in
         if \<not> eth_address_re otoken then
           Inl (ValueError ''otoken_address must be 0x-prefixed ETH address when chain=base'')
         else if \<not> hex_signature_re sg then
           Inl (ValueError ''signature must be 0x-prefixed hex (65 bytes) when chain=base'')
         else Inr (q\<lparr>q_otoken := otoken, q_signature := sg\<rparr>)))"

text \<open>The bounds of the fields: the names of those that are out of range.\<close>

definition quote_range_errors :: "quote \<Rightarrow> string list" where
  "quote_range_errors q =
     map fst (filter (\<lambda>(_, ok). \<not> ok)
       [(''bid_price'', 1 \<le> q_bid q), (''deadline'', 0 < q_deadline q), (''quote_id'', 0 \<le> q_id q),
        (''max_amount'', 1 \<le> q_max_amount q), (''maker_nonce'', 0 \<le> q_nonce q),
        (''strike_price'', case q_strike q of None \<Rightarrow> True | Some k \<Rightarrow> 0 \<le> k),
        (''expiry'', case q_expiry q of None \<Rightarrow> True | Some e \<Rightarrow> 0 < e)])"

text \<open>
  The model validator runs when every field is valid; the result lists the errors otherwise.
\<close>

definition validate_quote :: "(string list \<Rightarrow> string) \<Rightarrow> quote \<Rightarrow> string list + quote" where
  "validate_quote show_set q =
     (let a = validate_asset show_set (q_asset q); c = validate_chain show_set (q_chain q);
          errs = quote_range_errors q @
            (case a of Inl e \<Rightarrow> [exn_str e] | Inr _ \<Rightarrow> []) @ (case c of Inl e \<Rightarrow> [exn_str e] | Inr _ \<Rightarrow> []) in
      case (a, c) of
        (Inr a', Inr c') \<Rightarrow>
          if errs \<noteq> [] then Inl errs
          else (case validate_chain_specific_fields (q\<lparr>q_asset := a', q_chain := c'\<rparr>) of
                  Inl e \<Rightarrow> Inl [exn_str e]
                | Inr q' \<Rightarrow> Inr q')
      | _ \<Rightarrow> Inl errs)"

fun validate_quotes :: "(string list \<Rightarrow> string) \<Rightarrow> quote list \<Rightarrow> string list + quote list" where
  "validate_quotes show_set [] = Inr []"
| "validate_quotes show_set (q # qs) =
     (case (validate_quote show_set q, validate_quotes show_set qs) of
        (Inr q', Inr qs') \<Rightarrow> Inr (q' # qs')
      | (Inl e, Inr _) \<Rightarrow> Inl e
      | (Inr _, Inl e) \<Rightarrow> Inl e
      | (Inl e, Inl e') \<Rightarrow> Inl (e @ e'))"

definition validate_batch :: "(string list \<Rightarrow> string) \<Rightarrow> quote list \<Rightarrow> string list + quote list" where
  "validate_batch show_set qs =
     (if qs = [] then Inl [''quotes: too short'']
      else if length qs > 200 then Inl [''quotes: too long'']
      else validate_quotes show_set qs)"

definition valid_quote :: "quote \<Rightarrow> bool" where
  "valid_quote q \<longleftrightarrow> quote_range_errors q = [] \<and> elem (q_asset q) VALID_ASSETS \<and>
     (if q_chain q = ''solana''
      then truthy (q_maker q) \<and> base58_re (the (q_maker q)) \<and> base58_re (q_otoken q) \<and> base58_sig_re (q_signature q)
      else q_chain q = ''base'' \<and> eth_address_re (q_otoken q) \<and> lower (q_otoken q) = q_otoken q \<and>
        hex_signature_re (q_signature q))"

lemma quote_range_errors_cong:
  "quote_range_errors (q\<lparr>q_otoken := a\<rparr>) = quote_range_errors q"
  "quote_range_errors (q\<lparr>q_signature := a\<rparr>) = quote_range_errors q"
  "quote_range_errors (q\<lparr>q_asset := a\<rparr>) = quote_range_errors q"
  "quote_range_errors (q\<lparr>q_chain := a\<rparr>) = quote_range_errors q"
  by (simp_all add: quote_range_errors_def)

lemma validate_quote_valid: "validate_quote show_set q = Inr q' \<Longrightarrow> valid_quote q'"
  by (auto simp: validate_quote_def validate_asset_def validate_chain_def VALID_CHAINS_def
      validate_chain_specific_fields_def valid_quote_def quote_range_errors_cong Let_def
      split: if_splits sum.splits)

lemma validate_quote_fields:
  "validate_quote show_set q = Inr q' \<Longrightarrow>
   q_bid q' = q_bid q \<and> q_deadline q' = q_deadline q \<and> q_id q' = q_id q \<and>
   q_max_amount q' = q_max_amount q \<and> q_nonce q' = q_nonce q \<and> q_maker q' = q_maker q"
  by (auto simp: validate_quote_def validate_chain_specific_fields_def Let_def split: if_splits sum.splits)

lemma validate_quotes_valid: "validate_quotes show_set qs = Inr qs' \<Longrightarrow> list_all valid_quote qs' \<and> length qs' = length qs"
  by (induction qs arbitrary: qs') (auto dest: validate_quote_valid split: sum.splits)

text \<open>What \<open>validate_batch\<close> accepts is a non-empty batch of at most 200 valid quotes.\<close>

lemma validate_batch_valid:
  assumes "validate_batch show_set qs = Inr qs'"
  shows "list_all valid_quote qs'" "qs' \<noteq> []" "length qs' \<le> 200" "length qs' = length qs"
proof -
  from assms have q: "validate_quotes show_set qs = Inr qs'" "qs \<noteq> []" "length qs \<le> 200"
    by (auto simp: validate_batch_def split: if_splits)
  with validate_quotes_valid [of show_set qs qs'] show "list_all valid_quote qs'" "qs' \<noteq> []" "length qs' \<le> 200"
    "length qs' = length qs" by auto
qed

section \<open>Solana quotes\<close>

text \<open>\<open>struct.pack("<Q", i)\<close> and \<open>struct.pack("<q", i)\<close>: eight bytes, least significant first, or an error.\<close>

definition pack_u64 :: "int \<Rightarrow> exn + byte list" where
  "pack_u64 i = (if 0 \<le> i \<and> i < 2 ^ 64 then Inr (to_bytes_le 8 (nat i))
                 else Inl (OtherError ''struct.error: argument out of range''))"

definition pack_i64 :: "int \<Rightarrow> exn + byte list" where
  "pack_i64 i = (if - (2 ^ 63) \<le> i \<and> i < 2 ^ 63 then Inr (to_bytes_le 8 (nat (i mod 2 ^ 64)))
                 else Inl (OtherError ''struct.error: argument out of range''))"

definition build_solana_quote_message :: "byte list \<Rightarrow> int \<Rightarrow> int \<Rightarrow> int \<Rightarrow> int \<Rightarrow> int \<Rightarrow> byte list \<Rightarrow> exn + byte list" where
  "build_solana_quote_message otoken_mint bid_price deadline quote_id max_amount maker_nonce premium_mint =
     (if length otoken_mint \<noteq> 32 then
        Inl (ValueError (''otoken_mint must be 32 bytes, got '' @ nat_str (length otoken_mint) @
          ''. Pass the raw bytes of the Solana mint address.''))
      else if length premium_mint \<noteq> 32 then
        Inl (ValueError (''premium_mint must be 32 bytes, got '' @ nat_str (length premium_mint) @
          ''. Pass the raw bytes of the Solana mint address.''))
      else concat_results
        [Inr otoken_mint, Inr premium_mint, pack_u64 bid_price, pack_i64 deadline, pack_u64 quote_id,
         pack_u64 max_amount, pack_u64 maker_nonce])"

text \<open>
  The library: keys and signatures from base 58, and \<open>Signature.from_bytes(s).verify(k, m)\<close>.
\<close>

record ed25519_lib =
  pubkey_from_string :: "string \<Rightarrow> exn + byte list"
  signature_from_string :: "string \<Rightarrow> exn + byte list"
  ed25519_verify :: "byte list \<Rightarrow> byte list \<Rightarrow> byte list \<Rightarrow> exn + bool"

definition verify_solana_quote :: "ed25519_lib \<Rightarrow> byte list \<Rightarrow> byte list \<Rightarrow> byte list \<Rightarrow> bool" where
  "verify_solana_quote lib pubkey message sg =
     (case ed25519_verify lib pubkey message sg of Inl e \<Rightarrow> False | Inr b \<Rightarrow> b)"

text \<open>Reading the fields back from the bytes.\<close>

definition read_i64 :: "byte list \<Rightarrow> int" where
  "read_i64 bs = (let n = int (from_bytes_le bs) in if n < 2 ^ 63 then n else n - 2 ^ 64)"

definition decode_solana_quote_message :: "byte list \<Rightarrow> byte list \<times> byte list \<times> int \<times> int \<times> int \<times> int \<times> int" where
  "decode_solana_quote_message m =
     (slice 0 32 m, slice 32 64 m, int (from_bytes_le (slice 64 72 m)), read_i64 (slice 72 80 m),
      int (from_bytes_le (slice 80 88 m)), int (from_bytes_le (slice 88 96 m)), int (from_bytes_le (slice 96 104 m)))"

lemma pack_u64_Inr: "pack_u64 i = Inr b \<Longrightarrow> length b = 8 \<and> int (from_bytes_le b) = i \<and> 0 \<le> i \<and> i < 2 ^ 64"
  by (auto simp: pack_u64_def from_to_bytes_le split: if_splits)

lemma pack_i64_Inr: "pack_i64 i = Inr b \<Longrightarrow> length b = 8 \<and> read_i64 b = i \<and> - (2 ^ 63) \<le> i \<and> i < 2 ^ 63"
proof -
  assume "pack_i64 i = Inr b"
  then have i: "- (2 ^ 63) \<le> i" "i < 2 ^ 63" and b: "b = to_bytes_le 8 (nat (i mod 2 ^ 64))"
    by (auto simp: pack_i64_def split: if_splits)
  have "nat (i mod 2 ^ 64) < 256 ^ 8" by (simp add: nat_less_iff)
  then have f: "int (from_bytes_le b) = i mod 2 ^ 64" by (simp add: b from_to_bytes_le)
  have "read_i64 b = i"
  proof (cases "0 \<le> i")
    case True
    with i have "i mod 2 ^ 64 = i" by simp
    with f i show ?thesis by (simp add: read_i64_def)
  next
    case False
    then have "i mod 2 ^ 64 = i + 2 ^ 64"
      using i mod_pos_pos_trivial [of "i + 2 ^ 64" "2 ^ 64"] by simp
    with f i False show ?thesis by (simp add: read_i64_def)
  qed
  with i b show ?thesis by simp
qed

lemma build_solana_quote_Inr:
  "build_solana_quote_message om bid dl qid amt nonce pm = Inr m \<longleftrightarrow>
   length om = 32 \<and> length pm = 32 \<and>
   (\<exists>b d q a n. pack_u64 bid = Inr b \<and> pack_i64 dl = Inr d \<and> pack_u64 qid = Inr q \<and> pack_u64 amt = Inr a \<and>
      pack_u64 nonce = Inr n \<and> m = om @ pm @ b @ d @ q @ a @ n)"
  by (auto simp: build_solana_quote_message_def concat_results_Cons simp del: concat_results.simps(2,3))

lemma build_solana_quote_decode:
  assumes "build_solana_quote_message om bid dl qid amt nonce pm = Inr m"
  shows "length m = 104" "decode_solana_quote_message m = (om, pm, bid, dl, qid, amt, nonce)"
proof -
  obtain b d q a n where l: "length om = 32" "length pm = 32"
    and p: "pack_u64 bid = Inr b" "pack_i64 dl = Inr d" "pack_u64 qid = Inr q" "pack_u64 amt = Inr a" "pack_u64 nonce = Inr n"
    and m: "m = om @ pm @ b @ d @ q @ a @ n"
    using assms by (auto simp: build_solana_quote_Inr)
  note u = pack_u64_Inr [OF p(1)] pack_i64_Inr [OF p(2)] pack_u64_Inr [OF p(3)] pack_u64_Inr [OF p(4)] pack_u64_Inr [OF p(5)]
  from l u show "length m = 104" by (simp add: m)
  from l u show "decode_solana_quote_message m = (om, pm, bid, dl, qid, amt, nonce)"
    by (simp add: decode_solana_quote_message_def m slice_def)
qed

definition fits_u64 :: "int \<Rightarrow> bool" where "fits_u64 i \<longleftrightarrow> 0 \<le> i \<and> i < 2 ^ 64"
definition fits_i64 :: "int \<Rightarrow> bool" where "fits_i64 i \<longleftrightarrow> - (2 ^ 63) \<le> i \<and> i < 2 ^ 63"

text \<open>
  C21: the bytes that a market maker signs for Solana say exactly what the quote says. A message is
  built precisely when both mints are 32 bytes long and every number fits its field; it then has 104
  bytes, from which the mints, the price, the signed deadline, the id, the amount and the nonce are
  read back, so that no two different quotes share their message.
\<close>

theorem solana_quote_message_layout:
  "case build_solana_quote_message om bid dl qid amt nonce pm of
     Inl _ \<Rightarrow> \<not> (length om = 32 \<and> length pm = 32 \<and> fits_u64 bid \<and> fits_i64 dl \<and> fits_u64 qid \<and> fits_u64 amt \<and> fits_u64 nonce)
   | Inr m \<Rightarrow> length om = 32 \<and> length pm = 32 \<and> fits_u64 bid \<and> fits_i64 dl \<and> fits_u64 qid \<and> fits_u64 amt \<and> fits_u64 nonce \<and>
       length m = 104 \<and> decode_solana_quote_message m = (om, pm, bid, dl, qid, amt, nonce)"
proof (cases "build_solana_quote_message om bid dl qid amt nonce pm")
  case (Inl e)
  then have "\<nexists>m. build_solana_quote_message om bid dl qid amt nonce pm = Inr m" by simp
  then have "\<not> (length om = 32 \<and> length pm = 32 \<and> fits_u64 bid \<and> fits_i64 dl \<and> fits_u64 qid \<and> fits_u64 amt \<and> fits_u64 nonce)"
    by (auto simp: build_solana_quote_Inr pack_u64_def pack_i64_def fits_u64_def fits_i64_def)
  with Inl show ?thesis by simp
next
  case (Inr m)
  moreover have "length om = 32 \<and> length pm = 32 \<and> fits_u64 bid \<and> fits_i64 dl \<and> fits_u64 qid \<and> fits_u64 amt \<and> fits_u64 nonce"
    using Inr by (auto simp: build_solana_quote_Inr fits_u64_def fits_i64_def dest!: pack_u64_Inr pack_i64_Inr)
  ultimately show ?thesis using build_solana_quote_decode [OF Inr] by simp
qed

section \<open>Base quotes\<close>

record eip712_domain =
  dom_name :: string
  dom_version :: string
  dom_chain_id :: int
  dom_contract :: string

record eip712_quote =
  m_otoken :: string
  m_bid :: int
  m_deadline :: int
  m_quote_id :: int
  m_max_amount :: int
  m_nonce :: int

text \<open>
  The libraries: checksum addresses, \<open>encode_typed_data\<close> of a domain and a message, and the two
  signature operations on the encoded data.
\<close>

record 'd eip712_lib =
  to_checksum_address :: "string \<Rightarrow> exn + string"
  encode_typed_data :: "eip712_domain \<Rightarrow> eip712_quote \<Rightarrow> exn + 'd"
  recover_message :: "'d \<Rightarrow> byte list \<Rightarrow> exn + string"
  sign_typed :: "'d \<Rightarrow> string \<Rightarrow> exn + byte list"

record eip712_settings =
  batch_settler_address :: string
  eip712_chain_id :: int

definition build_quote_message :: "'d eip712_lib \<Rightarrow> string \<Rightarrow> int \<Rightarrow> int \<Rightarrow> int \<Rightarrow> int \<Rightarrow> int \<Rightarrow> exn + eip712_quote" where
  "build_quote_message lib otoken bid dl qid amt nonce =
     (case to_checksum_address lib otoken of
        Inl e \<Rightarrow> Inl e
      | Inr a \<Rightarrow> Inr \<lparr>m_otoken = a, m_bid = bid, m_deadline = dl, m_quote_id = qid, m_max_amount = amt, m_nonce = nonce\<rparr>)"

definition get_domain :: "'d eip712_lib \<Rightarrow> eip712_settings \<Rightarrow> exn + eip712_domain" where
  "get_domain lib s =
     (if batch_settler_address s = [] then
        Inl (RuntimeError (''batch_settler_address is not configured. '' @
          ''EIP-712 signatures require a valid verifyingContract. Set BATCH_SETTLER_ADDRESS in your environment.''))
      else (case to_checksum_address lib (batch_settler_address s) of
              Inl e \<Rightarrow> Inl e
            | Inr a \<Rightarrow> Inr \<lparr>dom_name = ''b1nary'', dom_version = ''1'', dom_chain_id = eip712_chain_id s, dom_contract = a\<rparr>))"

text \<open>The data both functions work on; \<open>domain\<close> is the optional argument.\<close>

definition signable_quote ::
  "'d eip712_lib \<Rightarrow> eip712_settings \<Rightarrow> string \<Rightarrow> int \<Rightarrow> int \<Rightarrow> int \<Rightarrow> int \<Rightarrow> int \<Rightarrow> eip712_domain option \<Rightarrow> exn + 'd" where
  "signable_quote lib s otoken bid dl qid amt nonce domain =
     (case (case domain of None \<Rightarrow> get_domain lib s | Some d \<Rightarrow> Inr d) of
        Inl e \<Rightarrow> Inl e
      | Inr d \<Rightarrow> (case build_quote_message lib otoken bid dl qid amt nonce of
          Inl e \<Rightarrow> Inl e
        | Inr m \<Rightarrow> encode_typed_data lib d m))"

definition sign_quote ::
  "'d eip712_lib \<Rightarrow> eip712_settings \<Rightarrow> string \<Rightarrow> string \<Rightarrow> int \<Rightarrow> int \<Rightarrow> int \<Rightarrow> int \<Rightarrow> int \<Rightarrow> eip712_domain option \<Rightarrow> exn + string" where
  "sign_quote lib s private_key otoken bid dl qid amt nonce domain =
     (case signable_quote lib s otoken bid dl qid amt nonce domain of
        Inl e \<Rightarrow> Inl e
      | Inr d \<Rightarrow> (case sign_typed lib d private_key of Inl e \<Rightarrow> Inl e | Inr sg \<Rightarrow> Inr (''0x'' @ to_hex sg)))"

definition recover_quote_signer ::
  "'d eip712_lib \<Rightarrow> eip712_settings \<Rightarrow> string \<Rightarrow> int \<Rightarrow> int \<Rightarrow> int \<Rightarrow> int \<Rightarrow> int \<Rightarrow> string \<Rightarrow> eip712_domain option \<Rightarrow> exn + string" where
  "recover_quote_signer lib s otoken bid dl qid amt nonce sg domain =
     (case signable_quote lib s otoken bid dl qid amt nonce domain of
        Inl e \<Rightarrow> Inl e
      | Inr d \<Rightarrow> (case fromhex (strip_0x sg) of
          None \<Rightarrow> Inl (ValueError ''non-hexadecimal number found in fromhex() arg'')
        | Some b \<Rightarrow> recover_message lib d b))"

text \<open>
  Signing and recovering agree when the library's do. \<open>address_of\<close> is the address of a private key.
\<close>

lemma sign_then_recover:
  assumes "\<And>d sg. sign_typed lib d key = Inr sg \<Longrightarrow> recover_message lib d sg = Inr (address_of key)"
    and "sign_quote lib s key otoken bid dl qid amt nonce domain = Inr sg"
  shows "recover_quote_signer lib s otoken bid dl qid amt nonce sg domain = Inr (address_of key)"
proof -
  have "strip_0x (CHR ''0'' # CHR ''x'' # to_hex b) = to_hex b" for b
    using strip_0x_to_hex(2) [of b] by simp
  with assms show ?thesis by (auto simp: sign_quote_def recover_quote_signer_def split: sum.splits)
qed

end
