(* ===== verification/Mm_Quotes.thy ===== *)
theory Mm_Quotes
  imports Quote_Crypto Py_Tables
begin

text \<open>
  The market maker API, first part: the API keys of \<open>src/api/deps.py\<close> and the quote endpoints of
  \<open>src/api/mm_routes.py\<close>, on the tables \<open>mm_api_keys\<close> and \<open>mm_quotes\<close>. Prices, amounts and ids that
  the code writes with \<open>str\<close> are kept as the integers they denote.
\<close>

section \<open>The world\<close>

record quote_row =
  qr_id :: string
  qr_created :: int
  qr_mm :: string
  qr_otoken :: string
  qr_bid :: int
  qr_deadline :: int
  qr_quote_id :: int
  qr_max_amount :: int
  qr_nonce :: int
  qr_signature :: string
  qr_chain :: string
  qr_asset :: string
  qr_strike :: "rat option"
  qr_expiry :: "int option"
  qr_is_put :: "bool option"
  qr_active :: bool

record key_row =
  kr_key :: string
  kr_mm :: string
  kr_active :: bool

text \<open>A fill is a row of \<open>order_events\<close> with the columns that market makers see.\<close>

record mm_fill =
  mf_tx :: string
  mf_chain :: string
  mf_block :: int
  mf_mm :: "string option"
  mf_otoken :: string
  mf_amount :: int
  mf_premium :: int
  mf_gross :: "int option"
  mf_net :: "int option"
  mf_fee :: "int option"
  mf_collateral :: int
  mf_user :: string
  mf_vault :: int
  mf_strike :: "rat option"
  mf_expiry :: "int option"
  mf_is_put :: "bool option"
  mf_settled :: bool
  mf_indexed_at :: int

record capacity_row =
  cap_mm :: string
  cap_asset :: string
  cap_chain :: string
  cap_native :: rat
  cap_usd :: rat
  cap_status :: string
  cap_reported_at :: int
  cap_premium_pool :: "rat option"
  cap_hedge_pool :: "rat option"
  cap_hedge_withdrawable :: "rat option"
  cap_leverage :: "int option"
  cap_positions :: "int option"
  cap_notional :: "rat option"

datatype mm_call =
    Monotonic | ReadKeys | ReadKey string | BaseNonce string | SolanaNonce string
  | DeactivateQuotes string | UpsertQuotes | PruneQuotes string | ReadQuotes | CancelQuotes
  | ReadFills | ReadOpenFills | ReadAllFills | UpsertCapacity
  | ReadSpot asset | ReadIv asset | ReadGasPrice | ReadAvailableOtokens

record mm_world = "mm_call hist" +
  mw_quotes :: "quote_row list"
  mw_keys :: "key_row list"
  mw_fills :: "mm_fill list"
  mw_capacity :: "capacity_row list"
  mw_key_cache :: "(string \<times> string) list"
  mw_key_cache_at :: int

text \<open>
  The environment: failing calls, the clocks (\<open>time.time()\<close> and \<open>time.monotonic()\<close> in
  microseconds), the answers of the chains and the libraries. Every reading of the monotonic clock
  is in the history.
\<close>

record 'd mm_env =
  me_fails :: "mm_call list \<Rightarrow> exn option"
  me_now :: "mm_call list \<Rightarrow> int"
  me_monotonic :: "mm_call list \<Rightarrow> int"
  me_nonce :: "mm_call list \<Rightarrow> int"
  me_new_id :: "mm_call list \<Rightarrow> nat \<Rightarrow> string"
  me_ed25519 :: ed25519_lib
  me_eip712 :: "'d eip712_lib"
  me_eip712_settings :: eip712_settings
  me_usdc_mint :: string
  me_show_set :: "string list \<Rightarrow> string"

type_synonym 'a mpy = "(mm_world, 'a) py"

abbreviation mcall :: "'d mm_env \<Rightarrow> mm_call \<Rightarrow> unit mpy" where
  "mcall env c \<equiv> perform (me_fails env) c"

text \<open>\<open>int(time.time())\<close>.\<close>

definition unix_now :: "'d mm_env \<Rightarrow> int mpy" where
  "unix_now env = getsE (\<lambda>w. me_now env (calls w) div 1000000)"

definition monotonic :: "'d mm_env \<Rightarrow> int mpy" where
  "monotonic env = (\<lambda>w. (Inr (me_monotonic env (Monotonic # calls w)), w\<lparr>calls := Monotonic # calls w\<rparr>))"

lemma wp_monotonic [wps]:
  "wp (monotonic env) Q E w = Q (me_monotonic env (Monotonic # calls w)) (w\<lparr>calls := Monotonic # calls w\<rparr>)"
  by (simp add: wp_def monotonic_def)

section \<open>API keys\<close>

definition API_KEY_TTL :: int where "API_KEY_TTL = 60 * 1000000"

text \<open>The dictionary of the active rows; a later row for the same key wins.\<close>

definition active_keys :: "key_row list \<Rightarrow> (string \<times> string) list" where
  "active_keys rows = fold (\<lambda>r. dict_put (kr_key r) (kr_mm r)) (filter kr_active rows) []"

definition refresh_api_key_cache :: "'d mm_env \<Rightarrow> unit mpy" where
  "refresh_api_key_cache env =
     thenE (catchE (thenE (mcall env ReadKeys) (modifyE (\<lambda>w. w\<lparr>mw_key_cache := active_keys (mw_keys w)\<rparr>)))
              (\<lambda>_. modifyE (\<lambda>w. w\<lparr>mw_key_cache := []\<rparr>)))
     (bindE (monotonic env) (\<lambda>t. modifyE (\<lambda>w. w\<lparr>mw_key_cache_at := t\<rparr>)))"

definition lookup_api_key :: "'d mm_env \<Rightarrow> string \<Rightarrow> string mpy" where
  "lookup_api_key env key =
     bindE (catchE (thenE (mcall env (ReadKey key))
              (getsE (\<lambda>w. map kr_mm (filter (\<lambda>r. kr_key r = key \<and> kr_active r) (mw_keys w)))))
            (\<lambda>_. raise (HTTPException 503 ''Auth service unavailable'')))
     (\<lambda>found. case found of
        [] \<Rightarrow> raise (HTTPException 401 ''Invalid API key'')
      | mm # _ \<Rightarrow> thenE (modifyE (\<lambda>w. w\<lparr>mw_key_cache := dict_put key mm (mw_key_cache w)\<rparr>)) (ret mm))"

definition require_mm_api_key :: "'d mm_env \<Rightarrow> string \<Rightarrow> string mpy" where
  "require_mm_api_key env key =
     bindE (monotonic env) (\<lambda>now.
     bindE (getsE mw_key_cache_at) (\<lambda>cached_at.
     thenE (whenE (API_KEY_TTL \<le> now - cached_at) (refresh_api_key_cache env))
     (bindE (getsE (\<lambda>w. map_of (mw_key_cache w) key)) (\<lambda>cached.
        if truthy cached then ret (the cached) else lookup_api_key env key))))"

section \<open>Submitting quotes\<close>

definition normalize_mm_address :: "string \<Rightarrow> string" where
  "normalize_mm_address addr = (if starts_with addr ''0x'' then lower addr else addr)"

definition resolve_nonce :: "'d mm_env \<Rightarrow> string \<Rightarrow> quote list \<Rightarrow> string \<Rightarrow> (string \<times> int) mpy" where
  "resolve_nonce env chain qs mm_address =
     (if chain = ''solana'' then
        (let maker = q_maker (hd qs) in
         if \<not> truthy maker then raise (HTTPException 400 ''maker required for Solana quotes'')
         else catchE (thenE (mcall env (SolanaNonce (the maker)))
                        (getsE (\<lambda>w. (the maker, me_nonce env (calls w)))))
                (\<lambda>_. raise (HTTPException 502 ''Could not read Solana makerNonce'')))
      else catchE (bindE (liftE (to_checksum_address (me_eip712 env) mm_address)) (\<lambda>a.
                     thenE (mcall env (BaseNonce a)) (getsE (\<lambda>w. (lower mm_address, me_nonce env (calls w))))))
             (\<lambda>_. raise (HTTPException 502 ''Could not read on-chain makerNonce'')))"

text \<open>The two checks return their answer and the list of errors, to which they may append.\<close>

definition solana_sig_ok :: "'d mm_env \<Rightarrow> quote \<Rightarrow> exn + bool" where
  "solana_sig_ok env q =
     (let lib = me_ed25519 env in
      case pubkey_from_string lib (the (q_maker q)) of
        Inl e \<Rightarrow> Inl e
      | Inr pubkey \<Rightarrow> (case pubkey_from_string lib (q_otoken q) of
          Inl e \<Rightarrow> Inl e
        | Inr otoken_bytes \<Rightarrow> (case pubkey_from_string lib (me_usdc_mint env) of
            Inl e \<Rightarrow> Inl e
          | Inr premium_mint_bytes \<Rightarrow>
              (case build_solana_quote_message otoken_bytes (q_bid q) (q_deadline q) (q_id q) (q_max_amount q)
                      (q_nonce q) premium_mint_bytes of
                 Inl e \<Rightarrow> Inl e
               | Inr msg \<Rightarrow> (case signature_from_string lib (q_signature q) of
                   Inl e \<Rightarrow> Inl e
                 | Inr sig_bytes \<Rightarrow> Inr (verify_solana_quote lib pubkey msg sig_bytes))))))"

definition verify_solana_sig :: "'d mm_env \<Rightarrow> quote \<Rightarrow> string \<Rightarrow> string list \<Rightarrow> bool \<times> string list" where
  "verify_solana_sig env q label errors =
     (if me_usdc_mint env = [] then
        (False, errors @ [label @ '': SOLANA_USDC_MINT not configured - cannot verify Solana quotes''])
      else (case solana_sig_ok env q of
              Inl e \<Rightarrow> (False, errors @ [label @ '': invalid signature''])
            | Inr False \<Rightarrow> (False, errors @ [label @ '': signature does not match maker pubkey''])
            | Inr True \<Rightarrow> (True, errors)))"

definition recovered_signer :: "'d mm_env \<Rightarrow> quote \<Rightarrow> exn + string" where
  "recovered_signer env q =
     recover_quote_signer (me_eip712 env) (me_eip712_settings env) (q_otoken q) (q_bid q) (q_deadline q) (q_id q)
       (q_max_amount q) (q_nonce q) (q_signature q) None"

definition verify_base_sig :: "'d mm_env \<Rightarrow> quote \<Rightarrow> string \<Rightarrow> string \<Rightarrow> string list \<Rightarrow> bool \<times> string list" where
  "verify_base_sig env q label mm_address errors =
     (case recovered_signer env q of
        Inl e \<Rightarrow> (False, errors @ [label @ '': invalid signature''])
      | Inr recovered \<Rightarrow>
          if lower recovered \<noteq> lower mm_address
          then (False, errors @ [label @ '': signature does not match authenticated MM address''])
          else (True, errors))"

text \<open>The row of an accepted quote; \<open>id\<close> and \<open>created_at\<close> are the database's.\<close>

definition quote_columns :: "string \<Rightarrow> string \<Rightarrow> quote \<Rightarrow> quote_row" where
  "quote_columns mm_id chain q =
     \<lparr>qr_id = [], qr_created = 0, qr_mm = mm_id,
      qr_otoken = (if chain = ''solana'' then q_otoken q else lower (q_otoken q)),
      qr_bid = q_bid q, qr_deadline = q_deadline q, qr_quote_id = q_id q, qr_max_amount = q_max_amount q,
      qr_nonce = q_nonce q, qr_signature = q_signature q, qr_chain = chain, qr_asset = q_asset q,
      qr_strike = q_strike q, qr_expiry = q_expiry q, qr_is_put = q_is_put q, qr_active = True\<rparr>"

text \<open>One iteration of the loop over the batch: the rows to store and the errors so far.\<close>

definition check_quote ::
  "'d mm_env \<Rightarrow> string \<Rightarrow> string \<Rightarrow> string \<Rightarrow> int \<Rightarrow> int \<Rightarrow> nat \<Rightarrow> quote \<Rightarrow>
   quote_row list \<times> string list \<Rightarrow> quote_row list \<times> string list" where
  "check_quote env chain mm_id mm_address on_chain_nonce now i q st =
     (case st of (rows, errors) \<Rightarrow>
      let label = ''quote['' @ nat_str i @ '']'' in
      if q_deadline q \<le> now then
        (rows, errors @ [label @ '': deadline '' @ int_str (q_deadline q) @ '' already passed''])
      else if q_nonce q \<noteq> on_chain_nonce then
        (rows, errors @ [label @ '': makerNonce mismatch (got '' @ int_str (q_nonce q) @ '', on-chain is '' @
           int_str on_chain_nonce @ '')''])
      else (case (if chain = ''solana'' then verify_solana_sig env q label errors
                  else verify_base_sig env q label mm_address errors) of
              (valid, errors') \<Rightarrow> if valid then (rows @ [quote_columns mm_id chain q], errors') else (rows, errors')))"

fun check_quotes ::
  "'d mm_env \<Rightarrow> string \<Rightarrow> string \<Rightarrow> string \<Rightarrow> int \<Rightarrow> int \<Rightarrow> nat \<Rightarrow> quote list \<Rightarrow>
   quote_row list \<times> string list \<Rightarrow> quote_row list \<times> string list" where
  "check_quotes env chain mm_id mm nonce now i [] st = st"
| "check_quotes env chain mm_id mm nonce now i (q # qs) st =
     check_quotes env chain mm_id mm nonce now (Suc i) qs (check_quote env chain mm_id mm nonce now i q st)"

definition quote_key :: "quote_row \<Rightarrow> string \<times> int" where
  "quote_key r = (qr_mm r, qr_quote_id r)"

text \<open>An upsert on \<open>(mm_address, quote_id)\<close> keeps the id and the creation time of an existing row.\<close>

definition put_columns :: "quote_row \<Rightarrow> quote_row \<Rightarrow> quote_row" where
  "put_columns new r = new\<lparr>qr_id := qr_id r, qr_created := qr_created r\<rparr>"

definition number_quotes :: "(nat \<Rightarrow> string) \<Rightarrow> int \<Rightarrow> quote_row list \<Rightarrow> quote_row list" where
  "number_quotes ids t rows = map2 (\<lambda>n r. r\<lparr>qr_id := ids n, qr_created := t\<rparr>) [0..<length rows] rows"

definition deactivate_quotes :: "'d mm_env \<Rightarrow> string \<Rightarrow> string list \<Rightarrow> unit mpy" where
  "deactivate_quotes env mm_id otokens =
     thenE (mcall env (DeactivateQuotes mm_id))
       (modifyE (\<lambda>w. w\<lparr>mw_quotes := tbl_update (\<lambda>r. qr_mm r = mm_id \<and> qr_active r \<and> elem (qr_otoken r) otokens)
          (\<lambda>r. r\<lparr>qr_active := False\<rparr>) (mw_quotes w)\<rparr>))"

definition upsert_quotes :: "'d mm_env \<Rightarrow> quote_row list \<Rightarrow> unit mpy" where
  "upsert_quotes env rows =
     thenE (mcall env UpsertQuotes)
       (if \<not> distinct (map quote_key rows) then
          raise (OtherError ''ON CONFLICT DO UPDATE command cannot affect row a second time'')
        else modifyE (\<lambda>w. w\<lparr>mw_quotes := upsert_all quote_key put_columns
               (number_quotes (me_new_id env (calls w)) (me_now env (calls w)) rows) (mw_quotes w)\<rparr>))"

definition stale_quote :: "int \<Rightarrow> quote_row \<Rightarrow> bool" where
  "stale_quote now r \<longleftrightarrow> \<not> qr_active r \<or> qr_deadline r < now \<or> (case qr_expiry r of None \<Rightarrow> False | Some e \<Rightarrow> e < now)"

definition prune_stale_quotes_for_mm :: "'d mm_env \<Rightarrow> string \<Rightarrow> string \<Rightarrow> int \<Rightarrow> unit mpy" where
  "prune_stale_quotes_for_mm env mm_id chain now =
     thenE (mcall env (PruneQuotes mm_id))
       (modifyE (\<lambda>w. w\<lparr>mw_quotes := filter (\<lambda>r. \<not> (qr_mm r = mm_id \<and> qr_chain r = chain \<and> stale_quote now r))
          (mw_quotes w)\<rparr>))"

record quote_batch_response =
  qb_accepted :: nat
  qb_rejected :: nat
  qb_errors :: "string list"

definition store_quotes :: "'d mm_env \<Rightarrow> string \<Rightarrow> string \<Rightarrow> int \<Rightarrow> quote_row list \<Rightarrow> unit mpy" where
  "store_quotes env mm_id chain now rows =
     thenE (catchE (thenE (deactivate_quotes env mm_id (map qr_otoken rows)) (upsert_quotes env rows))
              (\<lambda>_. raise (HTTPException 502 ''Database write failed'')))
     (catchE (prune_stale_quotes_for_mm env mm_id chain now) (\<lambda>_. ret ()))"

definition submit_quotes :: "'d mm_env \<Rightarrow> string \<Rightarrow> quote list \<Rightarrow> quote_batch_response mpy" where
  "submit_quotes env mm_address qs =
     bindE (unix_now env) (\<lambda>now.
       case remdups (map q_chain qs) of
         [] \<Rightarrow> raise (KeyError ''pop from an empty set'')
       | [chain] \<Rightarrow>
           bindE (resolve_nonce env chain qs mm_address) (\<lambda>(mm_id, on_chain_nonce).
           case check_quotes env chain mm_id mm_address on_chain_nonce now 0 qs ([], []) of
             (rows, errs) \<Rightarrow>
               thenE (whenE (rows \<noteq> []) (store_quotes env mm_id chain now rows))
               (ret \<lparr>qb_accepted = length rows, qb_rejected = length qs - length rows, qb_errors = errs\<rparr>))
       | cs \<Rightarrow> raise (HTTPException 400 (''All quotes in a batch must target the same chain, got: '' @
                    me_show_set env cs)))"

section \<open>Reading and cancelling quotes\<close>

text \<open>\<open>order("created_at", desc=True)\<close>; the response has the columns of the row.\<close>

definition get_quotes :: "'d mm_env \<Rightarrow> string \<Rightarrow> quote_row list mpy" where
  "get_quotes env mm_address =
     bindE (unix_now env) (\<lambda>now.
     catchE (thenE (mcall env ReadQuotes) (getsE (\<lambda>w.
        sort_key (\<lambda>r. - qr_created r)
          (filter (\<lambda>r. qr_mm r = normalize_mm_address mm_address \<and> qr_active r \<and> now < qr_deadline r) (mw_quotes w)))))
       (\<lambda>_. raise (HTTPException 502 ''Could not fetch quotes'')))"

definition cancels :: "string \<Rightarrow> string option \<Rightarrow> quote_row \<Rightarrow> bool" where
  "cancels mm chain r \<longleftrightarrow> qr_mm r = mm \<and> qr_active r \<and> (case chain of None \<Rightarrow> True | Some c \<Rightarrow> qr_chain r = c)"

definition cancel_quotes :: "'d mm_env \<Rightarrow> string option \<Rightarrow> string \<Rightarrow> nat mpy" where
  "cancel_quotes env chain mm_address =
     (let c = map_option lower chain in
      if (case c of None \<Rightarrow> False | Some x \<Rightarrow> \<not> elem x VALID_CHAINS) then raise (HTTPException 400 ''Invalid chain'')
      else catchE
        (thenE (mcall env CancelQuotes)
         (bindE (getsE (\<lambda>w. length (filter (cancels (normalize_mm_address mm_address) c) (mw_quotes w)))) (\<lambda>n.
          thenE (modifyE (\<lambda>w. w\<lparr>mw_quotes := tbl_update (cancels (normalize_mm_address mm_address) c)
             (\<lambda>r. r\<lparr>qr_active := False\<rparr>) (mw_quotes w)\<rparr>)) (ret n))))
        (\<lambda>_. raise (HTTPException 502 ''Could not cancel quotes'')))"

end
