(* ===== verification/Mm_Safety.thy ===== *)
theory Mm_Safety
  imports Mm_Quotes
begin

text \<open>
  What the market maker API guarantees: how long a revoked key is accepted, which quotes a batch
  stores and under whose name, what it answers, and that a cancelled maker has no live quotes.
\<close>

section \<open>API keys\<close>

lemma active_keys_sound:
  assumes "map_of (active_keys rows) k = Some mm"
  shows "list_ex (\<lambda>r. kr_key r = k \<and> kr_mm r = mm \<and> kr_active r) rows"
proof -
  have "map_of (fold (\<lambda>r. dict_put (kr_key r) (kr_mm r)) rs d) k = Some mm \<Longrightarrow>
      map_of d k = Some mm \<or> list_ex (\<lambda>r. kr_key r = k \<and> kr_mm r = mm) rs" for rs d
  proof (induction rs arbitrary: d)
    case (Cons r rs)
    from Cons.prems have "map_of (dict_put (kr_key r) (kr_mm r) d) k = Some mm \<or> list_ex (\<lambda>r. kr_key r = k \<and> kr_mm r = mm) rs"
      by (intro Cons.IH) simp
    then show ?case by (auto split: if_splits)
  qed simp
  from this [of "filter kr_active rows" "[]"] assms show ?thesis
    by (auto simp: active_keys_def list_ex_iff)
qed

definition revoked :: "string \<Rightarrow> key_row list \<Rightarrow> bool" where
  "revoked k rows \<longleftrightarrow> \<not> list_ex (\<lambda>r. kr_key r = k \<and> kr_active r) rows"

lemma revoked_not_cached: "revoked k rows \<Longrightarrow> map_of (active_keys rows) k = None"
  by (cases "map_of (active_keys rows) k") (auto simp: revoked_def list_ex_iff dest!: active_keys_sound)

text \<open>
  The invariant on the cache: the key's entry, if any, is older than the last refresh before the
  revocation.
\<close>

definition stale_entry :: "string \<Rightarrow> int \<Rightarrow> mm_world \<Rightarrow> bool" where
  "stale_entry k t w \<longleftrightarrow> revoked k (mw_keys w) \<and> (map_of (mw_key_cache w) k = None \<or> mw_key_cache_at w = t)"

lemma wp_refresh:
  assumes "revoked k (mw_keys w)"
  shows "wp (refresh_api_key_cache env)
    (\<lambda>_ v. mw_keys v = mw_keys w \<and> map_of (mw_key_cache v) k = None)
    (\<lambda>_ v. mw_keys v = mw_keys w \<and> mw_key_cache v = mw_key_cache w \<and> mw_key_cache_at v = mw_key_cache_at w) w"
  using assms revoked_not_cached [of k "mw_keys w"]
  by (simp add: refresh_api_key_cache_def wps split: option.split)

lemma wp_lookup:
  assumes "stale_entry k t w"
  shows "wp (lookup_api_key env key) (\<lambda>_ v. stale_entry k t v \<and> key \<noteq> k) (\<lambda>_ v. stale_entry k t v) w"
proof -
  have "filter (\<lambda>r. kr_key r = k \<and> kr_active r) (mw_keys w) = []"
    using assms by (auto simp: stale_entry_def revoked_def list_ex_iff filter_empty_conv)
  with assms show ?thesis
    by (auto simp: lookup_api_key_def stale_entry_def wps split: option.split list.split)
qed

lemma wp_require:
  assumes s: "stale_entry k t w"
  shows "wp (require_mm_api_key env key)
    (\<lambda>_ v. stale_entry k t v \<and> (key = k \<longrightarrow> me_monotonic env (Monotonic # calls w) - t < API_KEY_TTL))
    (\<lambda>_ v. stale_entry k t v) w"
proof -
  let ?now = "me_monotonic env (Monotonic # calls w)"
  let ?w = "w\<lparr>calls := Monotonic # calls w\<rparr>"
  define rest where "rest = bindE (getsE (\<lambda>w. map_of (mw_key_cache w) key)) (\<lambda>cached.
        if truthy cached then ret (the cached) else lookup_api_key env key)"
  have rest: "wp rest (\<lambda>_ v. stale_entry k t v \<and> (key = k \<longrightarrow> ?now - t < API_KEY_TTL)) (\<lambda>_ v. stale_entry k t v) v"
    if "stale_entry k t v" "map_of (mw_key_cache v) k = None \<or> ?now - t < API_KEY_TTL" for v
    using that by (auto simp: rest_def wps intro: wp_mono [OF wp_lookup])
  have eq: "require_mm_api_key env key = bindE (monotonic env) (\<lambda>now. bindE (getsE mw_key_cache_at) (\<lambda>cached_at.
     thenE (whenE (API_KEY_TTL \<le> now - cached_at) (refresh_api_key_cache env)) rest))"
    by (simp add: require_mm_api_key_def rest_def)
  show ?thesis
  proof (cases "API_KEY_TTL \<le> ?now - mw_key_cache_at w")
    case True
    have "revoked k (mw_keys ?w)" using s by (simp add: stale_entry_def)
    from wp_refresh [OF this, of env]
    have "wp (refresh_api_key_cache env) (\<lambda>_. wp rest (\<lambda>_ v. stale_entry k t v \<and> (key = k \<longrightarrow> ?now - t < API_KEY_TTL))
        (\<lambda>_ v. stale_entry k t v)) (\<lambda>_ v. stale_entry k t v) ?w"
      by (rule wp_mono) (rule rest, use s in \<open>auto simp: stale_entry_def\<close>)
    with True show ?thesis by (simp add: eq wps)
  next
    case False
    with s have "wp rest (\<lambda>_ v. stale_entry k t v \<and> (key = k \<longrightarrow> ?now - t < API_KEY_TTL)) (\<lambda>_ v. stale_entry k t v) ?w"
      by (intro rest) (auto simp: stale_entry_def)
    with False show ?thesis by (simp add: eq wps)
  qed
qed

text \<open>The requests of a run that present the key and are accepted, with the clock each of them read.\<close>

fun accepted_at :: "'d mm_env \<Rightarrow> string \<Rightarrow> string list \<Rightarrow> mm_world \<Rightarrow> int list" where
  "accepted_at env k [] w = []"
| "accepted_at env k (key # keys) w =
     (case require_mm_api_key env key w of
        (Inr _, w') \<Rightarrow> (if key = k then [me_monotonic env (Monotonic # calls w)] else []) @ accepted_at env k keys w'
      | (Inl _, w') \<Rightarrow> accepted_at env k keys w')"

text \<open>
  C25: a revoked key works for at most one minute. However many requests with whatever keys follow
  the revocation, and however the database fails between them, a request that presents the revoked
  key is accepted only while the cached copy of the key table is younger than sixty seconds; every
  later one is rejected.
\<close>

theorem revoked_key_expires:
  assumes "revoked k (mw_keys w)"
  shows "list_all (\<lambda>t. t - mw_key_cache_at w < API_KEY_TTL) (accepted_at env k keys w)"
proof -
  have "list_all (\<lambda>u. u - t < API_KEY_TTL) (accepted_at env k keys v)" if "stale_entry k t v" for t v
    using that
  proof (induction keys arbitrary: v)
    case (Cons key keys)
    from wp_require [OF Cons.prems, of env key] show ?case
      by (auto simp: wp_def Cons.IH split: prod.split sum.split)
  qed simp
  then show ?thesis using assms by (simp add: stale_entry_def)
qed

section \<open>Which quotes are stored\<close>

text \<open>The checks a quote has to pass.\<close>

definition signature_ok :: "'d mm_env \<Rightarrow> string \<Rightarrow> string \<Rightarrow> quote \<Rightarrow> bool" where
  "signature_ok env chain mm q =
     (if chain = ''solana'' then me_usdc_mint env \<noteq> [] \<and> solana_sig_ok env q = Inr True
      else case recovered_signer env q of Inl _ \<Rightarrow> False | Inr a \<Rightarrow> lower a = lower mm)"

definition quote_ok :: "'d mm_env \<Rightarrow> string \<Rightarrow> string \<Rightarrow> int \<Rightarrow> int \<Rightarrow> quote \<Rightarrow> bool" where
  "quote_ok env chain mm nonce now q \<longleftrightarrow> now < q_deadline q \<and> q_nonce q = nonce \<and> signature_ok env chain mm q"

lemma check_quote_eq:
  "check_quote env chain mm_id mm nonce now i q (rows, errs) =
   (if quote_ok env chain mm nonce now q then (rows @ [quote_columns mm_id chain q], errs)
    else (rows, errs @ [hd (drop (length errs) (snd (check_quote env chain mm_id mm nonce now i q (rows, errs))))]))"
  by (simp add: check_quote_def quote_ok_def signature_ok_def verify_solana_sig_def verify_base_sig_def Let_def
      split: sum.split bool.split)

lemma check_quote_ok:
  "quote_ok env chain mm nonce now q \<Longrightarrow>
   check_quote env chain mm_id mm nonce now i q (rows, errs) = (rows @ [quote_columns mm_id chain q], errs)"
  using check_quote_eq [of env chain mm_id mm nonce now i q rows errs] by simp

lemma check_quotes_split:
  "fst (check_quotes env chain mm_id mm nonce now i qs st) =
     fst st @ map (quote_columns mm_id chain) (filter (quote_ok env chain mm nonce now) qs) \<and>
   length (snd (check_quotes env chain mm_id mm nonce now i qs st)) =
     length (snd st) + length (filter (\<lambda>q. \<not> quote_ok env chain mm nonce now q) qs)"
proof (induction qs arbitrary: i st)
  case (Cons q qs)
  obtain rows errs where st: "st = (rows, errs)" by (cases st)
  show ?case
  proof (cases "quote_ok env chain mm nonce now q")
    case True
    then have "check_quote env chain mm_id mm nonce now i q st = (rows @ [quote_columns mm_id chain q], errs)"
      using check_quote_eq [of env chain mm_id mm nonce now i q rows errs] by (simp add: st)
    with True Cons st show ?thesis by simp
  next
    case False
    then obtain e where "check_quote env chain mm_id mm nonce now i q st = (rows, errs @ [e])"
      using check_quote_eq [of env chain mm_id mm nonce now i q rows errs] by (simp add: st)
    with False Cons st show ?thesis by simp
  qed
qed simp

lemma check_quotes_rows:
  assumes "check_quotes env chain mm_id mm nonce now 0 qs ([], []) = (rows, errs)"
  shows "rows = map (quote_columns mm_id chain) (filter (quote_ok env chain mm nonce now) qs)"
    "length errs + length rows = length qs"
  using check_quotes_split [of env chain mm_id mm nonce now 0 qs "([], [])"] assms
    sum_length_filter_compl [of "quote_ok env chain mm nonce now" qs] by auto

interpretation mm_quotes: upsert_table quote_key put_columns
  by unfold_locales (simp add: quote_key_def put_columns_def)

text \<open>
  \<open>tbl_change mm news T T'\<close>: the rows of other makers are the same, and a row of the new table is an
  old one, a deactivated old one of the maker, or one of the given rows under some id.
\<close>

definition same_columns :: "quote_row \<Rightarrow> quote_row \<Rightarrow> bool" where
  "same_columns a b \<longleftrightarrow> a\<lparr>qr_id := [], qr_created := 0\<rparr> = b\<lparr>qr_id := [], qr_created := 0\<rparr>"

definition kept_row :: "string \<Rightarrow> quote_row list \<Rightarrow> quote_row \<Rightarrow> bool" where
  "kept_row mm T r \<longleftrightarrow> list_ex (\<lambda>old. r = old \<or> (qr_mm old = mm \<and> r = old\<lparr>qr_active := False\<rparr>)) T"

definition tbl_change :: "string \<Rightarrow> quote_row list \<Rightarrow> quote_row list \<Rightarrow> quote_row list \<Rightarrow> bool" where
  "tbl_change mm news T T' \<longleftrightarrow>
     filter (\<lambda>r. qr_mm r \<noteq> mm) T' = filter (\<lambda>r. qr_mm r \<noteq> mm) T \<and>
     list_all (\<lambda>r. kept_row mm T r \<or> list_ex (same_columns r) news) T'"

lemma tbl_change_refl: "tbl_change mm news T T"
  by (auto simp: tbl_change_def list_all_iff list_ex_iff kept_row_def)

lemma tbl_change_deactivate:
  "tbl_change mm news T (tbl_update (\<lambda>r. qr_mm r = mm \<and> P r) (\<lambda>r. r\<lparr>qr_active := False\<rparr>) T)"
proof -
  have "filter (\<lambda>r. qr_mm r \<noteq> mm) (tbl_update (\<lambda>r. qr_mm r = mm \<and> P r) (\<lambda>r. r\<lparr>qr_active := False\<rparr>) T) = filter (\<lambda>r. qr_mm r \<noteq> mm) T" for T
    by (induction T) auto
  then show ?thesis by (auto simp: tbl_change_def list_all_iff list_ex_iff kept_row_def set_tbl_update)
qed

lemma number_quotes_rows:
  "length (number_quotes ids t rows) = length rows"
  "map quote_key (number_quotes ids t rows) = map quote_key rows"
  "list_all2 (\<lambda>r n. r = n\<lparr>qr_id := qr_id r, qr_created := t\<rparr>) (number_quotes ids t rows) rows"
  by (auto simp: number_quotes_def quote_key_def list_all2_conv_all_nth intro!: nth_equalityI)

lemma numbered_same:
  "r \<in> set (number_quotes ids t rows) \<Longrightarrow> list_ex (same_columns r) rows"
  by (auto simp: number_quotes_def list_ex_iff same_columns_def set_zip)

lemma tbl_change_upsert:
  assumes c: "tbl_change mm rows T T'" and m: "list_all (\<lambda>r. qr_mm r = mm) rows"
  shows "tbl_change mm rows T (upsert_all quote_key put_columns (number_quotes ids t rows) T')"
proof -
  let ?n = "number_quotes ids t rows"
  have k: "fst (quote_key r) = mm" if "r \<in> set ?n" for r
  proof -
    have "quote_key r \<in> set (map quote_key ?n)" using that by simp
    with m show ?thesis unfolding number_quotes_rows by (auto simp: quote_key_def list_all_iff)
  qed
  have "filter (\<lambda>r. fst (quote_key r) \<noteq> mm) (upsert_all quote_key put_columns ?n T') = filter (\<lambda>r. fst (quote_key r) \<noteq> mm) T'"
    by (rule mm_quotes.filter_upsert_all) (simp add: k)
  moreover have "kept_row mm T r \<or> list_ex (same_columns r) rows" if "r \<in> set (upsert_all quote_key put_columns ?n T')" for r
  proof -
    from mm_quotes.in_upsert_all [OF that] consider "r \<in> set T'" | n where "n \<in> set ?n" "same_columns r n"
      by (auto simp: put_columns_def same_columns_def)
    then show ?thesis
    proof cases
      case 1
      with c show ?thesis by (auto simp: tbl_change_def list_all_iff)
    next
      case 2
      from numbered_same [OF 2(1)] 2(2) show ?thesis by (auto simp: list_ex_iff same_columns_def)
    qed
  qed
  ultimately show ?thesis using c by (auto simp: tbl_change_def list_all_iff quote_key_def)
qed

lemma tbl_change_prune:
  assumes "tbl_change mm rows T T'"
  shows "tbl_change mm rows T (filter (\<lambda>r. \<not> (qr_mm r = mm \<and> P r)) T')"
proof -
  have "filter (\<lambda>r. qr_mm r \<noteq> mm) (filter (\<lambda>r. \<not> (qr_mm r = mm \<and> P r)) T') = filter (\<lambda>r. qr_mm r \<noteq> mm) T'"
    by (auto simp: filter_filter intro: filter_cong)
  with assms show ?thesis by (auto simp: tbl_change_def list_all_iff)
qed

text \<open>However storing ends, the table has changed as described, and the keys stay distinct.\<close>

lemma wp_store_quotes:
  assumes m: "list_all (\<lambda>r. qr_mm r = mm) rows"
  shows "wp (store_quotes env mm chain now rows)
    (\<lambda>_ v. tbl_change mm rows (mw_quotes w) (mw_quotes v)) (\<lambda>_ v. tbl_change mm rows (mw_quotes w) (mw_quotes v)) w"
proof -
  let ?C = "\<lambda>v. tbl_change mm rows (mw_quotes w) (mw_quotes v)"
  have d: "wp (deactivate_quotes env mm os) (\<lambda>_ v. ?C v) (\<lambda>_ v. ?C v) w" for os
    by (auto simp: deactivate_quotes_def wps tbl_change_refl tbl_change_deactivate split: option.split)
  have u: "wp (upsert_quotes env rows) (\<lambda>_ v. ?C v) (\<lambda>_ v. ?C v) v" if "?C v" for v
    using that by (auto simp: upsert_quotes_def wps tbl_change_upsert m split: option.split)
  have p: "wp (catchE (prune_stale_quotes_for_mm env mm chain now) (\<lambda>_. ret ())) (\<lambda>_ v. ?C v) (\<lambda>_ v. ?C v) v" if "?C v" for v
    using that tbl_change_prune [OF that, of "\<lambda>r. qr_chain r = chain \<and> stale_quote now r"]
    by (simp add: prune_stale_quotes_for_mm_def wps split: option.split)
  have "wp (catchE (thenE (deactivate_quotes env mm os) (upsert_quotes env rows)) (\<lambda>_. raise e)) (\<lambda>_ v. ?C v) (\<lambda>_ v. ?C v) w" for os e
    by (simp add: wp_catch wp_raise wp_then) (rule wp_mono [OF d], auto intro: u)
  then show ?thesis unfolding store_quotes_def wp_then by (rule wp_mono) (auto intro: p)
qed


text \<open>When storing returns, every given row that is not stale is in the table.\<close>

definition present :: "int \<Rightarrow> quote_row list \<Rightarrow> quote_row list \<Rightarrow> bool" where
  "present now rows T \<longleftrightarrow> list_all (\<lambda>n. stale_quote now n \<or> list_ex (\<lambda>r. same_columns r n) T) rows"

lemma same_columns_eq:
  "same_columns r n \<Longrightarrow> qr_mm r = qr_mm n \<and> qr_chain r = qr_chain n \<and> stale_quote now r = stale_quote now n \<and>
     quote_key r = quote_key n \<and> qr_active r = qr_active n"
  by (cases r; cases n) (auto simp: same_columns_def stale_quote_def quote_key_def)

lemma present_upsert:
  assumes "distinct (map quote_key rows)"
  shows "present now rows (upsert_all quote_key put_columns (number_quotes ids t rows) T)"
  unfolding present_def list_all_iff
proof (intro ballI disjI2)
  fix n assume "n \<in> set rows"
  then obtain k where k: "k < length rows" "rows ! k = n" by (auto simp: in_set_conv_nth)
  let ?m = "number_quotes ids t rows ! k"
  have m: "?m \<in> set (number_quotes ids t rows)" "same_columns ?m n"
    using k number_quotes_rows(1) [of ids t rows]
    by (auto intro: nth_mem, simp add: number_quotes_def same_columns_def)
  have "distinct (map quote_key (number_quotes ids t rows))"
    using assms by (simp only: number_quotes_rows)
  from mm_quotes.upserted_present [OF this m(1), of T] obtain r where
    "r \<in> set (upsert_all quote_key put_columns (number_quotes ids t rows) T)"
    "r = ?m \<or> (\<exists>old. quote_key old = quote_key ?m \<and> r = put_columns ?m old)" by blast
  with m(2) show "list_ex (\<lambda>r. same_columns r n) (upsert_all quote_key put_columns (number_quotes ids t rows) T)"
    by (auto simp: list_ex_iff same_columns_def put_columns_def intro!: bexI [of _ r])
qed

lemma present_prune:
  "present now rows T \<Longrightarrow> present now rows (filter (\<lambda>r. \<not> (qr_mm r = mm \<and> qr_chain r = chain \<and> stale_quote now r)) T)"
  by (fastforce simp: present_def list_all_iff list_ex_iff dest: same_columns_eq [where now = now])

lemma wp_store_present:
  "wp (store_quotes env mm chain now rows) (\<lambda>_ v. present now rows (mw_quotes v)) (\<lambda>_ _. True) w"
proof -
  let ?P = "\<lambda>v. present now rows (mw_quotes v)"
  have p: "wp (catchE (prune_stale_quotes_for_mm env mm chain now) (\<lambda>_. ret ())) (\<lambda>_ v. ?P v) (\<lambda>_ _. True) v" if "?P v" for v
    using that present_prune [OF that, of mm chain]
    by (simp add: prune_stale_quotes_for_mm_def wps split: option.split)
  have d: "wp (deactivate_quotes env mm os) (\<lambda>_ _. True) (\<lambda>_ _. True) w" for os
    by (simp add: deactivate_quotes_def wps split: option.split)
  have u: "wp (upsert_quotes env rows) (\<lambda>_ v. ?P v) (\<lambda>_ _. True) v" for v
    by (simp add: upsert_quotes_def wps present_upsert split: option.split)
  have "wp (catchE (thenE (deactivate_quotes env mm os) (upsert_quotes env rows)) (\<lambda>_. raise e)) (\<lambda>_ v. ?P v) (\<lambda>_ _. True) w" for os e
    by (simp add: wp_catch wp_raise wp_then) (rule wp_mono [OF d], auto intro: u)
  then show ?thesis unfolding store_quotes_def wp_then by (rule wp_mono) (auto intro: p)
qed

text \<open>
  What a batch does, for every way it ends: \<open>i\<close> and \<open>n\<close> are the name and the nonce that
  \<open>_resolve_nonce\<close> returns, \<open>accepts\<close> the quotes that pass the checks.
\<close>

definition resolved :: "'d mm_env \<Rightarrow> string \<Rightarrow> quote list \<Rightarrow> mm_call list \<Rightarrow> string \<Rightarrow> string \<Rightarrow> int \<Rightarrow> bool" where
  "resolved env mm qs h c i n \<longleftrightarrow>
     (if c = ''solana'' then q_maker (hd qs) = Some i \<and> n = me_nonce env (SolanaNonce i # h)
      else i = lower mm \<and> (case to_checksum_address (me_eip712 env) mm of
             Inl _ \<Rightarrow> False | Inr a \<Rightarrow> n = me_nonce env (BaseNonce a # h)))"

definition accepts :: "'d mm_env \<Rightarrow> string \<Rightarrow> string \<Rightarrow> int \<Rightarrow> int \<Rightarrow> quote list \<Rightarrow> quote list" where
  "accepts env c mm n now qs = filter (quote_ok env c mm n now) qs"

definition batch_effect :: "'d mm_env \<Rightarrow> string \<Rightarrow> quote list \<Rightarrow> mm_world \<Rightarrow> mm_world \<Rightarrow> string \<Rightarrow> string \<Rightarrow> int \<Rightarrow> bool" where
  "batch_effect env mm qs w v c i n \<longleftrightarrow>
     qs \<noteq> [] \<and> list_all (\<lambda>q. q_chain q = c) qs \<and> resolved env mm qs (calls w) c i n \<and>
     tbl_change i (map (quote_columns i c) (accepts env c mm n (me_now env (calls w) div 1000000) qs))
       (mw_quotes w) (mw_quotes v)"

lemma wp_resolve:
  "wp (resolve_nonce env c qs mm) (\<lambda>(i, n) v. mw_quotes v = mw_quotes w \<and> resolved env mm qs (calls w) c i n)
     (\<lambda>_ v. mw_quotes v = mw_quotes w) w"
  by (auto simp: resolve_nonce_def resolved_def wps Let_def split: sum.split option.split elim: truthyE)

lemma one_chain:
  assumes "remdups (map q_chain qs) = [c]"
  shows "list_all (\<lambda>q. q_chain q = c) qs" "qs \<noteq> []"
proof -
  from assms have "set (map q_chain qs) = {c}" by (metis set_remdups list.set(1) list.simps(15))
  then show "list_all (\<lambda>q. q_chain q = c) qs" "qs \<noteq> []" by (auto simp: list_all_iff)
qed

lemma wp_submit_quotes:
  "wp (submit_quotes env mm qs)
    (\<lambda>resp v. \<exists>c i n. batch_effect env mm qs w v c i n \<and>
        qb_accepted resp = length (accepts env c mm n (me_now env (calls w) div 1000000) qs) \<and>
        qb_accepted resp + qb_rejected resp = length qs \<and> length (qb_errors resp) = qb_rejected resp \<and>
        present (me_now env (calls w) div 1000000)
          (map (quote_columns i c) (accepts env c mm n (me_now env (calls w) div 1000000) qs)) (mw_quotes v))
    (\<lambda>e v. mw_quotes v = mw_quotes w \<or> (\<exists>c i n. batch_effect env mm qs w v c i n)) w"
proof (cases "\<exists>c. remdups (map q_chain qs) = [c]")
  case False
  then have "submit_quotes env mm qs = bindE (unix_now env) (\<lambda>now.
      if qs = [] then raise (KeyError ''pop from an empty set'')
      else raise (HTTPException 400 (''All quotes in a batch must target the same chain, got: '' @
             me_show_set env (remdups (map q_chain qs)))))"
    by (auto simp: submit_quotes_def fun_eq_iff intro!: arg_cong [where f = "\<lambda>f. bindE (unix_now env) f _"] split: list.split)
  then show ?thesis by (simp add: unix_now_def wps)
next
  case True
  then obtain c where c: "remdups (map q_chain qs) = [c]" ..
  let ?now = "me_now env (calls w) div 1000000"
  have store: "wp (whenE (rows \<noteq> []) (store_quotes env i c now rows)) (\<lambda>_ v. tbl_change i rows (mw_quotes w) (mw_quotes v))
      (\<lambda>_ v. tbl_change i rows (mw_quotes w) (mw_quotes v)) u"
    "wp (whenE (rows \<noteq> []) (store_quotes env i c now rows)) (\<lambda>_ v. present now rows (mw_quotes v)) (\<lambda>_ _. True) u"
    if "mw_quotes u = mw_quotes w" "list_all (\<lambda>r. qr_mm r = i) rows" for rows i now u
    using wp_store_quotes [OF that(2), of env c now u] wp_store_present [of env i c now rows u] that(1)
    by (simp_all add: wps tbl_change_refl present_def)
  define cont where "cont now = (\<lambda>p. case p of (mm_id, on_chain_nonce) \<Rightarrow>
      case check_quotes env c mm_id mm on_chain_nonce now 0 qs ([], []) of
        (rows, errs) \<Rightarrow> thenE (whenE (rows \<noteq> []) (store_quotes env mm_id c now rows))
          (ret \<lparr>qb_accepted = length rows, qb_rejected = length qs - length rows, qb_errors = errs\<rparr>))" for now
  have cont: "wp (cont ?now (i, n))
    (\<lambda>resp v. \<exists>c i n. batch_effect env mm qs w v c i n \<and>
        qb_accepted resp = length (accepts env c mm n ?now qs) \<and>
        qb_accepted resp + qb_rejected resp = length qs \<and> length (qb_errors resp) = qb_rejected resp \<and>
        present ?now (map (quote_columns i c) (accepts env c mm n ?now qs)) (mw_quotes v))
    (\<lambda>e v. mw_quotes v = mw_quotes w \<or> (\<exists>c i n. batch_effect env mm qs w v c i n)) u"
    if u: "mw_quotes u = mw_quotes w" and r: "resolved env mm qs (calls w) c i n" for i n u
  proof -
    obtain rows errs where ch: "check_quotes env c i mm n ?now 0 qs ([], []) = (rows, errs)" by fastforce
    note rows = check_quotes_rows [OF ch]
    have "list_all (\<lambda>r. qr_mm r = i) rows" by (simp add: rows(1) list_all_iff quote_columns_def)
    from wp_conj [OF store [OF u this]] have "wp (whenE (rows \<noteq> []) (store_quotes env i c ?now rows))
      (\<lambda>_ v. batch_effect env mm qs w v c i n \<and> present ?now rows (mw_quotes v)) (\<lambda>_ v. batch_effect env mm qs w v c i n) u"
      by (rule wp_mono) (use r one_chain [OF c] rows(1) in \<open>auto simp: batch_effect_def accepts_def\<close>)
    then show ?thesis unfolding cont_def prod.case ch wp_then
    proof (rule wp_mono)
      fix v :: mm_world and e
      show "batch_effect env mm qs w v c i n \<Longrightarrow> mw_quotes v = mw_quotes w \<or> (\<exists>c i n. batch_effect env mm qs w v c i n)" by blast
      assume b: "batch_effect env mm qs w v c i n \<and> present ?now rows (mw_quotes v)"
      show "wp (ret \<lparr>qb_accepted = length rows, qb_rejected = length qs - length rows, qb_errors = errs\<rparr>)
        (\<lambda>resp v. \<exists>c i n. batch_effect env mm qs w v c i n \<and>
          qb_accepted resp = length (accepts env c mm n ?now qs) \<and>
          qb_accepted resp + qb_rejected resp = length qs \<and> length (qb_errors resp) = qb_rejected resp \<and>
          present ?now (map (quote_columns i c) (accepts env c mm n ?now qs)) (mw_quotes v))
        (\<lambda>e v. mw_quotes v = mw_quotes w \<or> (\<exists>c i n. batch_effect env mm qs w v c i n)) v"
        unfolding wps by (rule exI [of _ c], rule exI [of _ i], rule exI [of _ n]) (use b rows in \<open>simp add: accepts_def\<close>)
    qed
  qed
  have "submit_quotes env mm qs = bindE (unix_now env) (\<lambda>now. bindE (resolve_nonce env c qs mm) (cont now))"
    by (simp add: submit_quotes_def c cont_def [abs_def])
  then show ?thesis
    by (simp add: unix_now_def wp_bind wp_gets) (rule wp_mono [OF wp_resolve], auto intro: cont)
qed

section \<open>Properties of a batch\<close>

lemma wp_end: "wp m (\<lambda>_. P) (\<lambda>_. P) w \<Longrightarrow> case m w of (_, v) \<Rightarrow> P v"
  by (simp add: wp_def split: prod.splits sum.splits)

text \<open>The quote of a stored row, as its owner would present it, and the check of its signature.\<close>

definition row_quote :: "quote_row \<Rightarrow> quote" where
  "row_quote r = \<lparr>q_otoken = qr_otoken r, q_bid = qr_bid r, q_deadline = qr_deadline r, q_id = qr_quote_id r,
     q_max_amount = qr_max_amount r, q_nonce = qr_nonce r, q_signature = qr_signature r, q_chain = qr_chain r,
     q_maker = Some (qr_mm r), q_asset = qr_asset r, q_strike = qr_strike r, q_expiry = qr_expiry r, q_is_put = qr_is_put r\<rparr>"

definition row_verifies :: "'d mm_env \<Rightarrow> quote_row \<Rightarrow> bool" where
  "row_verifies env r \<longleftrightarrow> signature_ok env (qr_chain r) (qr_mm r) (row_quote r)"

definition batch_owner :: "string \<Rightarrow> quote list \<Rightarrow> string" where
  "batch_owner mm qs =
     (if qs \<noteq> [] \<and> q_chain (hd qs) = ''solana'' then the (q_maker (hd qs)) else lower mm)"

lemma row_quote_verifies:
  assumes "valid_quote q" "q_chain q = c" "signature_ok env c mm q" "c = ''solana'' \<Longrightarrow> q_maker q = Some i"
    "c \<noteq> ''solana'' \<Longrightarrow> i = lower mm"
  shows "row_verifies env (quote_columns i c q)"
proof -
  have s: "solana_sig_ok env (row_quote (quote_columns i c q)) = solana_sig_ok env q" if "c = ''solana''"
    using that assms(4) by (simp add: solana_sig_ok_def row_quote_def quote_columns_def Let_def cong: sum.case_cong)
  have r: "recovered_signer env (row_quote (quote_columns i c q)) = recovered_signer env q" if "c \<noteq> ''solana''"
    using that assms(1,2) by (simp add: recovered_signer_def row_quote_def quote_columns_def valid_quote_def)
  have c: "qr_chain (quote_columns i c q) = c" "qr_mm (quote_columns i c q) = i" by (simp_all add: quote_columns_def)
  show ?thesis
  proof (cases "c = ''solana''")
    case True
    with assms(3) s show ?thesis unfolding row_verifies_def signature_ok_def c by simp
  next
    case False
    with assms(3) r assms(5) show ?thesis unfolding row_verifies_def signature_ok_def c
      by (auto split: sum.splits)
  qed
qed

lemma same_columns_row:
  assumes "same_columns r n"
  shows "row_quote r = row_quote n" "qr_mm r = qr_mm n" "qr_chain r = qr_chain n" "qr_active r = qr_active n"
    "qr_deadline r = qr_deadline n"
proof -
  let ?z = "\<lambda>r :: quote_row. r\<lparr>qr_id := [], qr_created := 0\<rparr>"
  have z: "row_quote r = row_quote (?z r)" "qr_mm r = qr_mm (?z r)" "qr_chain r = qr_chain (?z r)"
    "qr_active r = qr_active (?z r)" "qr_deadline r = qr_deadline (?z r)" for r
    by (simp_all add: row_quote_def)
  have e: "?z r = ?z n" using assms by (simp only: same_columns_def)
  show "row_quote r = row_quote n" by (subst (1 2) z(1)) (simp only: e)
  show "qr_mm r = qr_mm n" by (subst (1 2) z(2)) (simp only: e)
  show "qr_chain r = qr_chain n" by (subst (1 2) z(3)) (simp only: e)
  show "qr_active r = qr_active n" by (subst (1 2) z(4)) (simp only: e)
  show "qr_deadline r = qr_deadline n" by (subst (1 2) z(5)) (simp only: e)
qed


text \<open>
  The answer of a batch counts every quote, and an accepted quote is live. A response accepts
  exactly the quotes of one chain that have a deadline in the future, the maker's current nonce and a
  valid signature; it rejects the others, with one error for each; and every accepted quote whose
  option has not expired stands in the table with its columns, active.
\<close>

lemma batch_answer:
  "case submit_quotes env mm qs w of
     (Inl _, _) \<Rightarrow> True
   | (Inr resp, v) \<Rightarrow> \<exists>c i n. list_all (\<lambda>q. q_chain q = c) qs \<and> resolved env mm qs (calls w) c i n \<and>
       (let now = me_now env (calls w) div 1000000; ok = accepts env c mm n now qs in
        qb_accepted resp = length ok \<and> qb_accepted resp + qb_rejected resp = length qs \<and>
        length (qb_errors resp) = qb_rejected resp \<and>
        list_all (\<lambda>q. (case q_expiry q of None \<Rightarrow> False | Some e \<Rightarrow> e < now) \<or>
          list_ex (\<lambda>r. same_columns r (quote_columns i c q)) (mw_quotes v)) ok)"
proof -
  have live: "present now (map (quote_columns i c) (accepts env c mm n now qs)) T \<Longrightarrow>
     list_all (\<lambda>q. (case q_expiry q of None \<Rightarrow> False | Some e \<Rightarrow> e < now) \<or>
          list_ex (\<lambda>r. same_columns r (quote_columns i c q)) T) (accepts env c mm n now qs)" for now c i n T
    by (auto simp: present_def list_all_iff accepts_def quote_ok_def stale_quote_def quote_columns_def)
  have "wp (submit_quotes env mm qs) (\<lambda>resp v. \<exists>c i n. list_all (\<lambda>q. q_chain q = c) qs \<and> resolved env mm qs (calls w) c i n \<and>
       (let now = me_now env (calls w) div 1000000; ok = accepts env c mm n now qs in
        qb_accepted resp = length ok \<and> qb_accepted resp + qb_rejected resp = length qs \<and>
        length (qb_errors resp) = qb_rejected resp \<and>
        list_all (\<lambda>q. (case q_expiry q of None \<Rightarrow> False | Some e \<Rightarrow> e < now) \<or>
          list_ex (\<lambda>r. same_columns r (quote_columns i c q)) (mw_quotes v)) ok)) (\<lambda>_ _. True) w"
  proof (rule wp_mono [OF wp_submit_quotes], goal_cases)
    case (1 resp v)
    then obtain c i n where "batch_effect env mm qs w v c i n"
      "qb_accepted resp = length (accepts env c mm n (me_now env (calls w) div 1000000) qs)"
      "qb_accepted resp + qb_rejected resp = length qs" "length (qb_errors resp) = qb_rejected resp"
      "present (me_now env (calls w) div 1000000)
         (map (quote_columns i c) (accepts env c mm n (me_now env (calls w) div 1000000) qs)) (mw_quotes v)" by blast
    then show ?case
      by - (rule exI [of _ c], rule exI [of _ i], rule exI [of _ n], simp add: batch_effect_def Let_def live)
  qed simp
  then show ?thesis by (simp add: wp_def split: prod.splits sum.splits)
qed


section \<open>Cancelling\<close>

text \<open>
  Cancelling takes the quotes down and nothing else. A successful cancellation counts the active
  quotes of the maker and chain, makes them inactive and leaves every other row alone; when no chain
  is given the maker has no quotes afterwards. A failed one changes nothing.
\<close>

lemma cancel_then_get:
  "case cancel_quotes env chain mm w of
     (Inl _, v) \<Rightarrow> mw_quotes v = mw_quotes w
   | (Inr n, v) \<Rightarrow>
       (let c = cancels (normalize_mm_address mm) (map_option lower chain) in
        n = length (filter c (mw_quotes w)) \<and>
        list_all2 (\<lambda>r r'. r' = (if c r then r\<lparr>qr_active := False\<rparr> else r)) (mw_quotes w) (mw_quotes v) \<and>
        (case get_quotes env mm v of
           (Inr rs, _) \<Rightarrow> list_all (\<lambda>r. case chain of None \<Rightarrow> False | Some x \<Rightarrow> qr_chain r \<noteq> lower x) rs
         | _ \<Rightarrow> True))"
proof -
  let ?c = "cancels (normalize_mm_address mm) (map_option lower chain)"
  have l: "list_all2 (\<lambda>r r'. r' = (if ?c r then r\<lparr>qr_active := False\<rparr> else r)) T (tbl_update ?c (\<lambda>r. r\<lparr>qr_active := False\<rparr>) T)" for T
    by (induction T) auto
  have none: "wp (get_quotes env mm) (\<lambda>rs _. list_all (\<lambda>r. case chain of None \<Rightarrow> False | Some x \<Rightarrow> qr_chain r \<noteq> lower x) rs) (\<lambda>_ _. True) v"
    if "mw_quotes v = tbl_update ?c (\<lambda>r. r\<lparr>qr_active := False\<rparr>) T" for v T
    using that by (auto simp: get_quotes_def unix_now_def wps list_all_iff set_tbl_update cancels_def split: option.splits if_splits)
  have "wp (cancel_quotes env chain mm) (\<lambda>n v. n = length (filter ?c (mw_quotes w)) \<and>
      mw_quotes v = tbl_update ?c (\<lambda>r. r\<lparr>qr_active := False\<rparr>) (mw_quotes w)) (\<lambda>_ v. mw_quotes v = mw_quotes w) w"
    by (simp add: cancel_quotes_def Let_def wps split: option.split)
  then show ?thesis using l none
    by (fastforce simp: wp_def Let_def split: prod.splits sum.splits)
qed

section \<open>Concrete runs\<close>

text \<open>
  An environment in which every call succeeds, the time is 1000 s and the monotonic clock advances by
  30 s with every call; a Solana signature is valid when its bytes are the key, and every Base
  signature is by \<open>demo_address\<close>.
\<close>

definition demo_bytes :: "string \<Rightarrow> exn + byte list" where
  "demo_bytes s = Inr (take 32 (map of_char s @ replicate 32 0))"

definition demo_mm_env :: "unit mm_env" where
  "demo_mm_env = \<lparr>me_fails = \<lambda>_. None, me_now = \<lambda>_. 1000000000, me_monotonic = \<lambda>h. 30000000 * int (length h),
     me_nonce = \<lambda>_. 7, me_new_id = \<lambda>_ n. nat_str n,
     me_ed25519 = \<lparr>pubkey_from_string = demo_bytes, signature_from_string = demo_bytes, ed25519_verify = \<lambda>k m s. Inr (k = s)\<rparr>,
     me_eip712 = \<lparr>to_checksum_address = Inr, encode_typed_data = \<lambda>_ _. Inr (), recover_message = \<lambda>_ _. Inr demo_address,
       sign_typed = \<lambda>_ _. Inr []\<rparr>,
     me_eip712_settings = \<lparr>batch_settler_address = ''0x1'', eip712_chain_id = 8453\<rparr>,
     me_usdc_mint = ''U'', me_show_set = concat\<rparr>"

definition demo_mm_world :: mm_world where
  "demo_mm_world = \<lparr>calls = [], mw_quotes = [], mw_keys = [\<lparr>kr_key = ''k'', kr_mm = demo_address, kr_active = False\<rparr>],
     mw_fills = [], mw_capacity = [], mw_key_cache = [(''k'', demo_address)], mw_key_cache_at = 0\<rparr>"

definition demo_base_quote :: quote where
  "demo_base_quote = \<lparr>q_otoken = demo_address, q_bid = 5000000, q_deadline = 2000, q_id = 1, q_max_amount = 100000000,
     q_nonce = 7, q_signature = ''0x'' @ replicate 130 CHR ''a'', q_chain = ''base'', q_maker = None, q_asset = ''eth'',
     q_strike = Some 2000, q_expiry = Some 3000, q_is_put = Some True\<rparr>"

definition demo_maker :: "char \<Rightarrow> string" where
  "demo_maker c = replicate 32 c"

definition demo_solana_quote :: "char \<Rightarrow> int \<Rightarrow> quote" where
  "demo_solana_quote c i = demo_base_quote\<lparr>q_otoken := demo_maker CHR ''T'', q_id := i, q_signature := replicate 80 c,
     q_chain := ''solana'', q_maker := Some (demo_maker c), q_asset := ''sol''\<rparr>"

theorem revoked_key_expires_witness:
  "accepted_at demo_mm_env ''k'' [''k'', ''k'', ''k''] demo_mm_world = [30000000] \<and>
   list_all (\<lambda>t. t - mw_key_cache_at demo_mm_world < API_KEY_TTL)
     (accepted_at demo_mm_env ''k'' [''k'', ''k'', ''k''] demo_mm_world)"
proof
  show "accepted_at demo_mm_env ''k'' [''k'', ''k'', ''k''] demo_mm_world = [30000000]" by code_simp
  show "list_all (\<lambda>t. t - mw_key_cache_at demo_mm_world < API_KEY_TTL)
     (accepted_at demo_mm_env ''k'' [''k'', ''k'', ''k''] demo_mm_world)"
    by (rule revoked_key_expires) (simp add: revoked_def demo_mm_world_def)
qed

lemma demo_quotes_valid: "valid_quote demo_base_quote" "valid_quote (demo_solana_quote CHR ''A'' 1)"
  by code_simp+



lemma demo_env:
  "me_usdc_mint demo_mm_env = ''U''" "me_fails demo_mm_env = (\<lambda>_. None)" "me_now demo_mm_env = (\<lambda>_. 1000000000)"
  "me_nonce demo_mm_env = (\<lambda>_. 7)"
  "me_ed25519 demo_mm_env = \<lparr>pubkey_from_string = demo_bytes, signature_from_string = demo_bytes, ed25519_verify = \<lambda>k m s. Inr (k = s)\<rparr>"
  by (simp_all add: demo_mm_env_def)

lemma demo_sig:
  assumes "q_bid q = 5000000" "q_deadline q = 2000" "q_id q = 1 \<or> q_id q = 2" "q_max_amount q = 100000000" "q_nonce q = 7"
  shows "solana_sig_ok demo_mm_env q = Inr (demo_bytes (the (q_maker q)) = demo_bytes (q_signature q))"
proof -
  obtain om pm where b: "demo_bytes (q_otoken q) = Inr om" "demo_bytes ''U'' = Inr pm" "length om = 32" "length pm = 32"
    by (simp add: demo_bytes_def)
  then obtain m where "build_solana_quote_message om 5000000 2000 (q_id q) 100000000 7 pm = Inr m"
    using assms(3) by (auto simp: build_solana_quote_Inr pack_u64_def pack_i64_def)
  moreover obtain k where "demo_bytes (the (q_maker q)) = Inr k" by (simp add: demo_bytes_def)
  moreover obtain g where "demo_bytes (q_signature q) = Inr g" by (simp add: demo_bytes_def)
  ultimately show ?thesis using b
    by (simp add: solana_sig_ok_def demo_env verify_solana_quote_def assms(1,2,4,5))
qed

lemma demo_bytes_replicate: "32 \<le> n \<Longrightarrow> demo_bytes (replicate n c) = Inr (replicate 32 (of_char c))"
  by (simp add: demo_bytes_def)

lemma demo_fields:
  "q_bid (demo_solana_quote c i) = 5000000" "q_deadline (demo_solana_quote c i) = 2000" "q_id (demo_solana_quote c i) = i"
  "q_max_amount (demo_solana_quote c i) = 100000000" "q_nonce (demo_solana_quote c i) = 7"
  "q_maker (demo_solana_quote c i) = Some (demo_maker c)" "q_signature (demo_solana_quote c i) = replicate 80 c"
  "q_chain (demo_solana_quote c i) = ''solana''"
  by (simp_all add: demo_solana_quote_def demo_base_quote_def)

text \<open>
  A quote that maker B signed is handed to the database as a quote of maker A, when A's quote comes
  first in the batch; the signature does not verify against the stored name.
\<close>

lemma foreign_quote_accepted:
  "case check_quotes demo_mm_env ''solana'' (demo_maker CHR ''A'') demo_address 7 1000 0
          [demo_solana_quote CHR ''A'' 1, demo_solana_quote CHR ''B'' 2] ([], []) of
     (rows, errs) \<Rightarrow> map qr_mm rows = [demo_maker CHR ''A'', demo_maker CHR ''A''] \<and>
       map (row_verifies demo_mm_env) rows = [True, False] \<and> errs = []"
proof -
  let ?A = "demo_solana_quote CHR ''A'' 1" and ?B = "demo_solana_quote CHR ''B'' 2" and ?a = "demo_maker CHR ''A''"
  have ok: "quote_ok demo_mm_env ''solana'' demo_address 7 1000 ?A" "quote_ok demo_mm_env ''solana'' demo_address 7 1000 ?B"
    by (simp_all add: quote_ok_def signature_ok_def demo_sig demo_env demo_fields demo_maker_def demo_bytes_replicate)
  have v: "row_verifies demo_mm_env (quote_columns ?a ''solana'' ?A)" "\<not> row_verifies demo_mm_env (quote_columns ?a ''solana'' ?B)"
    by (simp_all add: row_verifies_def signature_ok_def row_quote_def quote_columns_def demo_sig demo_fields demo_maker_def demo_env demo_bytes_replicate)
  have ch: "check_quotes demo_mm_env ''solana'' ?a demo_address 7 1000 0 [?A, ?B] ([], []) = ([quote_columns ?a ''solana'' ?A, quote_columns ?a ''solana'' ?B], [])"
    using ok by (simp add: check_quote_ok)
  have "qr_mm (quote_columns i c q) = i" for i c q by (simp add: quote_columns_def)
  then show ?thesis unfolding ch by (simp add: v)
qed

text \<open>
  A batch in which two accepted quotes share their id is refused by the database, after the live
  quotes for its tokens were taken down.
\<close>

lemma duplicate_ids_take_quotes_down:
  assumes "\<And>h. me_fails env h = None" and "\<not> distinct (map quote_key rows)"
  shows "case store_quotes env mm chain now rows w of (r, v) \<Rightarrow>
    r = Inl (HTTPException 502 ''Database write failed'') \<and>
    list_all (\<lambda>r. \<not> (qr_mm r = mm \<and> qr_active r \<and> elem (qr_otoken r) (map qr_otoken rows))) (mw_quotes v)"
proof -
  let ?live = "\<lambda>r. qr_mm r = mm \<and> qr_active r \<and> elem (qr_otoken r) (map qr_otoken rows)"
  let ?P = "\<lambda>v. list_all (\<lambda>r. \<not> ?live r) (mw_quotes v)"
  have "list_all (\<lambda>r. \<not> ?live r) (tbl_update ?live (\<lambda>r. r\<lparr>qr_active := False\<rparr>) T)" for T
    by (induction T) auto
  then have d: "wp (deactivate_quotes env mm (map qr_otoken rows)) (\<lambda>_. ?P) (\<lambda>_ _. False) w"
    by (simp only: deactivate_quotes_def wps assms(1) option.case) simp
  have u: "wp (upsert_quotes env rows) (\<lambda>_ _. False) (\<lambda>e v'. e \<noteq> NoReturn \<and> mw_quotes v' = mw_quotes v) v" for v
    using assms by (simp add: upsert_quotes_def wps)
  have "wp (thenE (deactivate_quotes env mm (map qr_otoken rows)) (upsert_quotes env rows)) (\<lambda>_ _. False) (\<lambda>e v. e \<noteq> NoReturn \<and> ?P v) w"
    unfolding wp_then by (rule wp_mono [OF d]) (rule wp_mono [OF u], simp_all)
  then have "wp (store_quotes env mm chain now rows) (\<lambda>_ _. False) (\<lambda>e v. e = HTTPException 502 ''Database write failed'' \<and> ?P v) w"
    unfolding store_quotes_def wp_then [of "catchE _ _"] wp_catch by (rule wp_mono) (simp_all add: wp_raise)
  then show ?thesis by (auto simp: wp_def split: prod.splits sum.splits)
qed

end
