(* ===== verification/Otoken_Publish.thy ===== *)
theory Otoken_Publish
  imports Pricing Py_Tables "HOL-Library.Product_Lexorder"
begin

text \<open>
  What the two option token managers share: the table \<open>available_otokens\<close>, the loop that ensures one
  token for every specification, the lookup of published tokens, the upsert of new rows and the
  cycle over the assets of a chain. The interface to the chain is the locale \<open>otoken_maker\<close>: a
  program that finds or creates the token of a specification, with the evidence that its history
  then holds. \<open>Otoken_Manager\<close> and \<open>Solana_Otoken_Manager\<close> provide it.
\<close>

section \<open>The world\<close>

record avail_row =
  av_id :: string
  av_address :: string
  av_underlying :: "string option"
  av_strike :: rat
  av_expiry :: int
  av_is_put :: bool
  av_collateral :: string
  av_chain :: string

type_synonym pubkey = "byte list"

text \<open>An instruction: program, data, and accounts with their signer and writable flags.\<close>

record instruction =
  ix_program :: pubkey
  ix_data :: "byte list"
  ix_accounts :: "(pubkey \<times> bool \<times> bool) list"

text \<open>The arguments that identify a token at the Base factory.\<close>

record token_args =
  ta_underlying :: string
  ta_usdc :: string
  ta_collateral :: string
  ta_strike :: int
  ta_expiry :: int
  ta_is_put :: bool

datatype otk_call =
    Now | Pause int | Spot asset
  | ReadAvailable | ReadPrunable | DeleteAvailable "string list" | UpsertAvailable
  | GetFactory | GetAccount | TargetAddress token_args | IsOToken string | CreateOToken token_args
  | GetWhitelist | IsWhitelisted string | WhitelistOToken string
  | AccountInfo pubkey | GetOperator | LatestBlockhash | SendInstruction instruction

record otk_world = "otk_call hist" +
  ow_available :: "avail_row list"
  ow_cycle :: int

text \<open>
  The environment: failing calls and, as functions of the history up to and including the call, the
  answers: clock in microseconds, spot price, yes/no answers and addresses of contracts, account data,
  ids of new rows, and responses without data.
\<close>

record otk_env =
  oe_fails :: "otk_call list \<Rightarrow> exn option"
  oe_now :: "otk_call list \<Rightarrow> int"
  oe_spot :: "otk_call list \<Rightarrow> rat"
  oe_yes :: "otk_call list \<Rightarrow> bool"
  oe_address :: "otk_call list \<Rightarrow> string"
  oe_account :: "otk_call list \<Rightarrow> byte list option"
  oe_new_id :: "otk_call list \<Rightarrow> nat \<Rightarrow> string"
  oe_no_data :: "otk_call list \<Rightarrow> bool"
  oe_pricing :: pricing_settings
  oe_addresses :: address_settings
  oe_custom_expiries :: string

type_synonym 'a opy = "(otk_world, 'a) py"

abbreviation ocall :: "otk_env \<Rightarrow> otk_call \<Rightarrow> unit opy" where
  "ocall env c \<equiv> perform (oe_fails env) c"

definition oanswer :: "otk_env \<Rightarrow> otk_call \<Rightarrow> (otk_call list \<Rightarrow> 'a) \<Rightarrow> 'a opy" where
  "oanswer env c f = thenE (ocall env c) (getsE (\<lambda>w. f (calls w)))"

definition otime :: "otk_env \<Rightarrow> int opy" where
  "otime env = (\<lambda>w. (Inr (oe_now env (Now # calls w)), w\<lparr>calls := Now # calls w\<rparr>))"

lemma wp_otime [wps]: "wp (otime env) Q E w = Q (oe_now env (Now # calls w)) (w\<lparr>calls := Now # calls w\<rparr>)"
  by (simp add: wp_def otime_def)

lemma wp_oanswer [wps]:
  "wp (oanswer env c f) Q E w =
   (case oe_fails env (c # calls w) of
      Some e \<Rightarrow> E e (w\<lparr>calls := c # calls w\<rparr>)
    | None \<Rightarrow> Q (f (c # calls w)) (w\<lparr>calls := c # calls w\<rparr>))"
  by (simp add: oanswer_def wps split: option.split)

text \<open>\<open>witnessed P h\<close>: at some point of the history, \<open>P\<close> held of the calls up to that point.\<close>

fun witnessed :: "('c list \<Rightarrow> bool) \<Rightarrow> 'c list \<Rightarrow> bool" where
  "witnessed P [] = False"
| "witnessed P (c # h) = (P (c # h) \<or> witnessed P h)"

lemma witnessed_append: "witnessed P h \<Longrightarrow> witnessed P (cs @ h)"
  by (induction cs) auto

definition did :: "otk_env \<Rightarrow> otk_call \<Rightarrow> otk_call list \<Rightarrow> bool" where
  "did env c = witnessed (\<lambda>h. hd h = c \<and> oe_fails env h = None)"

definition said :: "otk_env \<Rightarrow> otk_call \<Rightarrow> (otk_call list \<Rightarrow> bool) \<Rightarrow> otk_call list \<Rightarrow> bool" where
  "said env c P = witnessed (\<lambda>h. hd h = c \<and> oe_fails env h = None \<and> P h)"

lemma did_Cons [simp]: "did env c (d # h) \<longleftrightarrow> (d = c \<and> oe_fails env (d # h) = None) \<or> did env c h"
  by (simp add: did_def)

lemma said_Cons [simp]: "said env c P (d # h) \<longleftrightarrow> (d = c \<and> oe_fails env (d # h) = None \<and> P (d # h)) \<or> said env c P h"
  by (simp add: said_def)

lemma did_append: "did env c h \<Longrightarrow> did env c (cs @ h)"
  by (simp add: did_def witnessed_append)

lemma said_append: "said env c P h \<Longrightarrow> said env c P (cs @ h)"
  by (simp add: said_def witnessed_append)

section \<open>One token for every specification\<close>

type_synonym otoken_key = "rat \<times> int \<times> bool"

definition spec_is_put :: "otoken_spec \<Rightarrow> bool" where
  "spec_is_put s \<longleftrightarrow> os_option_type s = PUT"

definition spec_key :: "otoken_spec \<Rightarrow> otoken_key" where
  "spec_key s = (os_strike s, os_expiry_ts s, spec_is_put s)"

lemma spec_key_inj: "spec_key s = spec_key t \<Longrightarrow> s = t"
  by (cases s; cases t; cases "os_option_type s"; cases "os_option_type t") (auto simp: spec_key_def spec_is_put_def)

text \<open>
  The loop of \<open>ensure_otokens_exist\<close>. Its variables are \<open>seen\<close>, \<open>results\<close> and whether the objects of
  the chain library are there; \<open>check\<close> runs for every specification, \<open>prepare\<close> once before the first
  token is looked up, both outside the \<open>try\<close>.
\<close>

type_synonym ensure_state = "(otoken_key \<times> string option) list \<times> (string \<times> otoken_spec) list \<times> bool"

definition ensure_step ::
  "(otoken_spec \<Rightarrow> unit opy) \<Rightarrow> unit opy \<Rightarrow> (otoken_spec \<Rightarrow> string option opy) \<Rightarrow> (otoken_key \<times> string) list \<Rightarrow>
   ensure_state \<Rightarrow> otoken_spec \<Rightarrow> ensure_state opy" where
  "ensure_step check prepare obtain_otoken existing st spec =
     (case st of (seen, results, ready) \<Rightarrow>
      thenE (check spec)
      (case map_of seen (spec_key spec) of
         Some (Some addr) \<Rightarrow> ret (seen, results @ [(addr, spec)], ready)
       | Some None \<Rightarrow> ret st
       | None \<Rightarrow>
           (let addr = map_of existing (spec_key spec) in
            if truthy addr then ret (dict_put (spec_key spec) addr seen, results @ [(the addr, spec)], ready)
            else
              thenE (whenE (\<not> ready) prepare)
              (bindE (catchE (obtain_otoken spec) (\<lambda>_. ret None)) (\<lambda>made. case made of
                 None \<Rightarrow> ret (dict_put (spec_key spec) None seen, results, True)
               | Some a \<Rightarrow> ret (dict_put (spec_key spec) (Some a) seen, results @ [(a, spec)], True))))))"

definition ensure_loop ::
  "(otoken_spec \<Rightarrow> unit opy) \<Rightarrow> unit opy \<Rightarrow> (otoken_spec \<Rightarrow> string option opy) \<Rightarrow> (otoken_key \<times> string) list \<Rightarrow>
   otoken_spec list \<Rightarrow> (string \<times> otoken_spec) list opy" where
  "ensure_loop check prepare obtain_otoken existing specs =
     bindE (foldE (ensure_step check prepare obtain_otoken existing) ([], [], False) specs) (\<lambda>(_, results, _). ret results)"

text \<open>Tokens not yet looked up: the number of chain lookups that the rest of the loop can make.\<close>

definition unseen :: "(otoken_key \<times> 'v) list \<Rightarrow> otoken_spec list \<Rightarrow> nat" where
  "unseen seen specs = card (set (map spec_key specs) - fst ` set seen)"

lemma unseen_Cons_seen: "spec_key s \<in> fst ` set seen \<Longrightarrow> unseen seen (s # specs) = unseen seen specs"
  by (simp add: unseen_def insert_Diff_if)

lemma unseen_put:
  assumes "spec_key s \<notin> fst ` set seen"
  shows "unseen seen (s # specs) = Suc (unseen (dict_put (spec_key s) v seen) specs)"
proof -
  let ?K = "set (map spec_key specs)" and ?F = "fst ` set seen"
  have "insert k K - F = insert k (K - insert k F)" if "k \<notin> F" for k and K F :: "otoken_key set"
    using that by blast
  from this [OF assms, of ?K] have "set (map spec_key (s # specs)) - ?F = insert (spec_key s) (?K - insert (spec_key s) ?F)"
    by simp
  then show ?thesis by (simp add: unseen_def set_keys_dict_put)
qed

lemma unseen_empty: "unseen [] specs = card (spec_key ` set specs)"
  by (simp add: unseen_def)

text \<open>Looking at the chain and sending transactions leaves the table alone.\<close>

definition reads_le :: "otk_world \<Rightarrow> otk_world \<Rightarrow> bool" where
  "reads_le w v \<longleftrightarrow> hist_le w v \<and> ow_available v = ow_available w"

interpretation reads: world_order reads_le
  by unfold_locales (auto simp: reads_le_def hist.le_refl intro: hist.le_trans)

lemma reads_call: "grows reads_le (ocall env c)"
  by (rule grows_perform) (simp add: reads_le_def hist_le_def)

lemma reads_answer: "grows reads_le (oanswer env c f)"
  unfolding oanswer_def by (intro reads.grows_then reads_call reads.grows_gets)

lemma reads_time: "grows reads_le (otime env)"
  by (simp add: grows_def otime_def reads_le_def hist_le_def)

lemmas reads_rules = reads.rules reads_call reads_answer reads_time

lemma quiet_answer: "\<not> P c \<Longrightarrow> grows (quiet_le P) (oanswer env c f)"
  unfolding oanswer_def by (intro quiet.grows_then quiet_perform quiet.grows_gets)

locale otoken_maker =
  fixes check :: "otoken_spec \<Rightarrow> unit opy" and prepare :: "unit opy"
    and obtain_otoken :: "otoken_spec \<Rightarrow> string option opy"
    and good :: "string \<Rightarrow> otoken_spec \<Rightarrow> otk_call list \<Rightarrow> bool"
    and costly :: "otk_call \<Rightarrow> bool" and cost :: nat
  assumes make_good: "wp (obtain_otoken s) (\<lambda>r v. case r of None \<Rightarrow> True | Some a \<Rightarrow> good a s (calls v)) (\<lambda>_ _. True) w"
    and good_append: "good a s h \<Longrightarrow> good a s (cs @ h)"
    and reads_check: "grows reads_le (check s)" and reads_prepare: "grows reads_le prepare"
    and reads_make: "grows reads_le (obtain_otoken s)"
    and quiet_check: "grows (quiet_le costly) (check s)" and quiet_prepare: "grows (quiet_le costly) prepare"
    and spends_make: "spends costly cost (obtain_otoken s)"
begin

lemma reads_hist: "grows reads_le m \<Longrightarrow> grows hist_le m"
  by (simp add: grows_def reads_le_def)

lemmas hist_check = reads_hist [OF reads_check] and hist_prepare = reads_hist [OF reads_prepare]
  and hist_make = reads_hist [OF reads_make]

lemma reads_ensure: "grows reads_le (ensure_loop check prepare obtain_otoken existing specs)"
  unfolding ensure_loop_def ensure_step_def
  by (intro reads.rules reads_check reads_prepare reads_make)

lemma good_le: "good a s (calls w) \<Longrightarrow> hist_le w v \<Longrightarrow> good a s (calls v)"
  by (auto simp: hist_le_def good_append)

text \<open>What the loop has found: pairs from the table, or with evidence on the chain.\<close>

definition found :: "(otoken_key \<times> string) list \<Rightarrow> otk_call list \<Rightarrow> string \<times> otoken_spec \<Rightarrow> bool" where
  "found existing h p \<longleftrightarrow> map_of existing (spec_key (snd p)) = Some (fst p) \<or> good (fst p) (snd p) h"

definition loop_inv :: "(otoken_key \<times> string) list \<Rightarrow> otoken_spec list \<Rightarrow> ensure_state \<Rightarrow> otk_call list \<Rightarrow> bool" where
  "loop_inv existing specs st h \<longleftrightarrow> (case st of (seen, results, _) \<Rightarrow>
     (\<forall>a s. (a, s) \<in> set results \<longrightarrow> s \<in> set specs \<and> map_of seen (spec_key s) = Some (Some a)) \<and>
     (\<forall>s a. map_of seen (spec_key s) = Some (Some a) \<longrightarrow> found existing h (a, s)))"

lemma found_le: "found existing (calls w) p \<Longrightarrow> hist_le w v \<Longrightarrow> found existing (calls v) p"
  by (auto simp: found_def good_le)

lemma loop_inv_le: "loop_inv existing specs st (calls w) \<Longrightarrow> hist_le w v \<Longrightarrow> loop_inv existing specs st (calls v)"
  using found_le unfolding loop_inv_def by (cases st) (simp, blast)

lemma loop_inv_found:
  assumes "loop_inv existing specs (seen, results, r) h" "(a, s) \<in> set results"
  shows "s \<in> set specs \<and> found existing h (a, s)"
  using assms unfolding loop_inv_def by simp

lemma loop_inv_put:
  assumes i: "loop_inv existing specs (seen, results, r) h" and n: "map_of seen (spec_key s) = None"
    and s: "s \<in> set specs" and f: "found existing h (a, s)"
  shows "loop_inv existing specs (dict_put (spec_key s) (Some a) seen, results @ [(a, s)], r') h"
  unfolding loop_inv_def prod.case
proof (intro conjI allI impI)
  fix b t assume "(b, t) \<in> set (results @ [(a, s)])"
  then consider "(b, t) \<in> set results" | "b = a" "t = s" by auto
  then show "t \<in> set specs" "map_of (dict_put (spec_key s) (Some a) seen) (spec_key t) = Some (Some b)"
    using i n s unfolding loop_inv_def by (cases; fastforce)+
next
  fix t b assume t: "map_of (dict_put (spec_key s) (Some a) seen) (spec_key t) = Some (Some b)"
  show "found existing h (b, t)"
  proof (cases "spec_key t = spec_key s")
    case True
    with t f spec_key_inj [OF True] show ?thesis by simp
  next
    case False
    with t i show ?thesis unfolding loop_inv_def by simp
  qed
qed

lemma loop_inv_again:
  assumes "loop_inv existing specs (seen, results, r) h" "map_of seen (spec_key s) = Some (Some a)" "s \<in> set specs"
  shows "loop_inv existing specs (seen, results @ [(a, s)], r) h"
  using assms unfolding loop_inv_def by auto

lemma loop_inv_failed:
  assumes i: "loop_inv existing specs (seen, results, r) h" and n: "map_of seen (spec_key s) = None"
  shows "loop_inv existing specs (dict_put (spec_key s) None seen, results, r') h"
  unfolding loop_inv_def prod.case
proof (intro conjI allI impI)
  fix a t assume "(a, t) \<in> set results"
  then have t: "t \<in> set specs" "map_of seen (spec_key t) = Some (Some a)" using i unfolding loop_inv_def by simp_all
  with n have "spec_key t \<noteq> spec_key s" by auto
  with t show "t \<in> set specs" "map_of (dict_put (spec_key s) None seen) (spec_key t) = Some (Some a)" by simp_all
next
  fix t a assume t: "map_of (dict_put (spec_key s) None seen) (spec_key t) = Some (Some a)"
  then have "spec_key t \<noteq> spec_key s" by auto
  with t i show "found existing h (a, t)" unfolding loop_inv_def by simp
qed

lemma wp_keep:
  assumes "grows hist_le m" "loop_inv existing specs st (calls w)"
  shows "wp m (\<lambda>_ v. loop_inv existing specs st (calls v)) (\<lambda>_ v. loop_inv existing specs st (calls v)) w"
  by (rule wp_mono [OF hist.wp_le [OF assms(1) hist.le_refl]]) (auto intro: loop_inv_le [OF assms(2)])

lemma wp_made:
  assumes i: "loop_inv existing specs st (calls w)"
  shows "wp (catchE (obtain_otoken s) (\<lambda>_. ret None))
    (\<lambda>r v. loop_inv existing specs st (calls v) \<and> (case r of None \<Rightarrow> True | Some a \<Rightarrow> good a s (calls v))) (\<lambda>_ _. True) w"
  unfolding wp_catch
  by (rule wp_mono [OF wp_conj [OF wp_keep [OF hist_make i] make_good]]) (simp_all add: wps)

lemma wp_step:
  assumes i: "loop_inv existing specs st (calls w)" and s: "s \<in> set specs"
  shows "wp (ensure_step check prepare obtain_otoken existing st s) (\<lambda>st' v. loop_inv existing specs st' (calls v)) (\<lambda>_ _. True) w"
proof -
  obtain seen results ready where st: "st = (seen, results, ready)" by (cases st)
  define rest where "rest = (case map_of seen (spec_key s) of
         Some (Some addr) \<Rightarrow> ret (seen, results @ [(addr, s)], ready)
       | Some None \<Rightarrow> ret st
       | None \<Rightarrow>
           (let addr = map_of existing (spec_key s) in
            if truthy addr then ret (dict_put (spec_key s) addr seen, results @ [(the addr, s)], ready)
            else
              thenE (whenE (\<not> ready) prepare)
              (bindE (catchE (obtain_otoken s) (\<lambda>_. ret None)) (\<lambda>made. case made of
                 None \<Rightarrow> ret (dict_put (spec_key s) None seen, results, True)
               | Some a \<Rightarrow> ret (dict_put (spec_key s) (Some a) seen, results @ [(a, s)], True)))))"
  have rest: "wp rest (\<lambda>st' v. loop_inv existing specs st' (calls v)) (\<lambda>_ _. True) v" if iv: "loop_inv existing specs st (calls v)" for v
  proof (cases "map_of seen (spec_key s)")
    case None
    note put = loop_inv_put [OF _ None s] and failed = loop_inv_failed [OF _ None]
    show ?thesis
    proof (cases "truthy (map_of existing (spec_key s))")
      case True
      then obtain a where a: "map_of existing (spec_key s) = Some a" "a \<noteq> []" by (rule truthyE)
      with None put [OF iv [unfolded st], of a ready] show ?thesis by (simp add: rest_def wps found_def)
    next
      case False
      have made: "wp (catchE (obtain_otoken s) (\<lambda>_. ret None)) (\<lambda>r u. wp (case r of
             None \<Rightarrow> ret (dict_put (spec_key s) None seen, results, True)
           | Some a \<Rightarrow> ret (dict_put (spec_key s) (Some a) seen, results @ [(a, s)], True))
           (\<lambda>st' v. loop_inv existing specs st' (calls v)) (\<lambda>_ _. True) u) (\<lambda>_ _. True) u"
        if "loop_inv existing specs st (calls u)" for u
        by (rule wp_mono [OF wp_made [OF that]])
          (auto simp: wps st found_def split: option.splits intro: put failed)
      show ?thesis
      proof (cases ready)
        case True
        with None False made [OF iv] show ?thesis by (simp add: rest_def wp_then wp_bind wp_when)
      next
        case False
        have "wp prepare (\<lambda>_ v. loop_inv existing specs st (calls v)) (\<lambda>_ _. True) v"
          by (rule wp_mono [OF wp_keep [OF hist_prepare iv]]) simp_all
        then have "wp prepare (\<lambda>_. wp (bindE (catchE (obtain_otoken s) (\<lambda>_. ret None)) (\<lambda>made. case made of
                 None \<Rightarrow> ret (dict_put (spec_key s) None seen, results, True)
               | Some a \<Rightarrow> ret (dict_put (spec_key s) (Some a) seen, results @ [(a, s)], True)))
            (\<lambda>st' v. loop_inv existing specs st' (calls v)) (\<lambda>_ _. True)) (\<lambda>_ _. True) v"
          by (rule wp_mono) (simp_all add: wp_bind made)
        with None False \<open>\<not> truthy (map_of existing (spec_key s))\<close> show ?thesis
          by (simp add: rest_def wp_then wp_when)
      qed
    qed
  next
    case (Some r)
    with iv s show ?thesis
      by (cases r) (simp_all add: rest_def wps st loop_inv_again)
  qed
  have "wp (check s) (\<lambda>_ v. loop_inv existing specs st (calls v)) (\<lambda>_ _. True) w"
    by (rule wp_mono [OF wp_keep [OF hist_check i]]) simp_all
  then have "wp (thenE (check s) rest) (\<lambda>st' v. loop_inv existing specs st' (calls v)) (\<lambda>_ _. True) w"
    unfolding wp_then by (rule wp_mono) (simp_all add: rest)
  moreover have "ensure_step check prepare obtain_otoken existing st s = thenE (check s) rest"
    by (simp add: ensure_step_def st rest_def cong: option.case_cong)
  ultimately show ?thesis by simp
qed

lemma ensure_found:
  "wp (ensure_loop check prepare obtain_otoken existing specs)
    (\<lambda>results v. \<forall>a s. (a, s) \<in> set results \<longrightarrow> s \<in> set specs \<and> found existing (calls v) (a, s)) (\<lambda>_ _. True) w"
proof -
  have "loop_inv existing specs ([], [], False) (calls w)" by (simp add: loop_inv_def)
  then have "wp (foldE (ensure_step check prepare obtain_otoken existing) ([], [], False) specs)
      (\<lambda>st v. loop_inv existing specs st (calls v)) (\<lambda>_ _. True) w"
    by (rule wp_foldE) (rule wp_step)
  then show ?thesis unfolding ensure_loop_def wp_bind
    by (rule wp_mono) (auto simp: wps dest: loop_inv_found)
qed

text \<open>Each distinct key costs at most one lookup, however the lookups end.\<close>

lemma leaves_step:
  "leaves costly (cost * unseen (fst st) (s # specs)) (\<lambda>st'. cost * unseen (fst st') specs)
     (ensure_step check prepare obtain_otoken existing st s)"
proof -
  obtain seen results ready where st: "st = (seen, results, ready)" by (cases st)
  have make: "spends costly cost (catchE (obtain_otoken s) (\<lambda>_. ret None))"
    by (rule spends_catch_quiet [OF spends_make quiet.grows_ret])
  have in_seen: "spec_key s \<in> fst ` set seen \<longleftrightarrow> map_of seen (spec_key s) \<noteq> None"
    by (simp add: map_of_eq_None_iff)
  show ?thesis
  proof (cases "map_of seen (spec_key s)")
    case (Some r)
    with in_seen have "unseen seen (s # specs) = unseen seen specs" by (simp add: unseen_Cons_seen)
    with Some show ?thesis
      by (cases r) (auto simp: ensure_step_def st intro!: leaves_quiet_then quiet_check leaves_ret)
  next
    case None
    with in_seen have u: "unseen (dict_put (spec_key s) v seen) specs = unseen seen (s # specs) - 1" for v
      by (simp add: unseen_put [of s seen specs v])
    have pos: "0 < unseen seen (s # specs)"
      using None in_seen by (simp add: unseen_put [of s seen specs None])
    then have c: "cost + cost * (unseen seen (s # specs) - 1) \<le> cost * unseen seen (s # specs)"
      by (cases "unseen seen (s # specs)") simp_all
    have "leaves costly (cost * unseen seen (s # specs)) (\<lambda>st'. cost * unseen (fst st') specs)
      (bindE (catchE (obtain_otoken s) (\<lambda>_. ret None)) (\<lambda>made. case made of
         None \<Rightarrow> ret (dict_put (spec_key s) None seen, results, True)
       | Some a \<Rightarrow> ret (dict_put (spec_key s) (Some a) seen, results @ [(a, s)], True)))"
    proof (rule leaves_bind)
      show "leaves costly (cost * unseen seen (s # specs)) (\<lambda>_. cost * (unseen seen (s # specs) - 1)) (catchE (obtain_otoken s) (\<lambda>_. ret None))"
        by (rule leaves_spends [OF make]) (use c pos in simp_all)
    qed (auto simp: u intro!: leaves_ret split: option.split)
    with None show ?thesis
      by (auto simp: ensure_step_def st Let_def u intro!: leaves_quiet_then quiet_check quiet_prepare quiet.grows_when leaves_ret)
  qed
qed

lemma spends_ensure:
  "spends costly (cost * card (spec_key ` set specs)) (ensure_loop check prepare obtain_otoken existing specs)"
proof -
  have "leaves costly (cost * unseen (fst st) specs) (\<lambda>st. cost * unseen (fst st) [])
      (foldE (ensure_step check prepare obtain_otoken existing) st specs)" for st
    by (rule leaves_fold [where pot = "\<lambda>st specs. cost * unseen (fst st) specs"]) (rule leaves_step)
  from this [of "([], [], False)"] have "leaves costly (cost * card (spec_key ` set specs)) (\<lambda>st :: ensure_state. cost * unseen (fst st) [])
      (foldE (ensure_step check prepare obtain_otoken existing) ([], [], False) specs)" by (simp add: unseen_empty)
  moreover have "leaves costly (cost * unseen (fst st) []) (\<lambda>_. 0) (case st of (_, results, _) \<Rightarrow> ret results)" for st :: ensure_state
    by (cases st) (simp add: leaves_ret)
  ultimately have "leaves costly (cost * card (spec_key ` set specs)) (\<lambda>_. 0) (ensure_loop check prepare obtain_otoken existing specs)"
    unfolding ensure_loop_def by (rule leaves_bind)
  then show ?thesis by (simp add: leaves_spends_0)
qed

end

section \<open>Published tokens\<close>

text \<open>
  The rows of \<open>available_otokens\<close> as a dictionary: \<open>canon\<close> is \<open>str.lower\<close> on Base, nothing on Solana; the
  first row of a key wins. A row without an underlying matches every asset.
\<close>

definition row_key :: "avail_row \<Rightarrow> otoken_key" where
  "row_key r = (fl (av_strike r), av_expiry r, av_is_put r)"

definition other_underlying :: "(string \<Rightarrow> string) \<Rightarrow> string \<Rightarrow> avail_row \<Rightarrow> bool" where
  "other_underlying canon underlying r = (case av_underlying r of None \<Rightarrow> False | Some u \<Rightarrow> canon u \<noteq> underlying)"

definition existing_step ::
  "(string \<Rightarrow> string) \<Rightarrow> string \<Rightarrow> otoken_key list \<Rightarrow> avail_row \<Rightarrow> (otoken_key \<times> string) list \<Rightarrow> (otoken_key \<times> string) list" where
  "existing_step canon underlying targets r existing =
     (if other_underlying canon underlying r then existing
      else if elem (row_key r) targets \<and> map_of existing (row_key r) = None
      then dict_put (row_key r) (canon (av_address r)) existing
      else existing)"

definition existing_by_key :: "(string \<Rightarrow> string) \<Rightarrow> string \<Rightarrow> otoken_spec list \<Rightarrow> avail_row list \<Rightarrow> (otoken_key \<times> string) list" where
  "existing_by_key canon underlying specs rows =
     fold (existing_step canon underlying (map spec_key specs)) rows []"

lemma existing_by_key_sound:
  assumes "map_of (existing_by_key canon underlying specs rows) k = Some a"
  obtains r where "r \<in> set rows" "row_key r = k" "a = canon (av_address r)" "\<not> other_underlying canon underlying r"
    "k \<in> spec_key ` set specs"
proof -
  have "map_of (fold (existing_step canon underlying (map spec_key specs)) rs d) k = Some a \<Longrightarrow>
     map_of d k = Some a \<or> (\<exists>r \<in> set rs. row_key r = k \<and> a = canon (av_address r) \<and> \<not> other_underlying canon underlying r \<and> k \<in> spec_key ` set specs)"
    for rs d
  proof (induction rs arbitrary: d)
    case (Cons r rs)
    from Cons.prems Cons.IH [of "existing_step canon underlying (map spec_key specs) r d"] show ?case
      by (auto simp: existing_step_def split: if_splits)
  qed simp
  from this [of rows "[]"] assms that show thesis by (auto simp: existing_by_key_def)
qed

definition read_existing ::
  "otk_env \<Rightarrow> (avail_row \<Rightarrow> bool) \<Rightarrow> (string \<Rightarrow> string) \<Rightarrow> (exn + string) \<Rightarrow> otoken_spec list \<Rightarrow> (otoken_key \<times> string) list opy" where
  "read_existing env chain_ok canon underlying specs =
     (if specs = [] then ret []
      else bindE (otime env) (\<lambda>t.
           bindE (liftE underlying) (\<lambda>u.
           thenE (ocall env ReadAvailable)
           (bindE (getsE (\<lambda>w. (oe_no_data env (calls w),
                 filter (\<lambda>r. chain_ok r \<and> t div 1000000 < av_expiry r) (ow_available w)))) (\<lambda>(no_data, rows).
              if no_data then raise (RuntimeError ''available_otokens query returned data=None'')
              else ret (existing_by_key canon u specs rows))))))"

section \<open>Publishing\<close>

text \<open>The row of a token, the rows of a batch without repeated addresses, and their upsert.\<close>

definition token_row :: "(string \<Rightarrow> string) \<Rightarrow> string \<Rightarrow> string \<Rightarrow> string \<Rightarrow> string \<times> otoken_spec \<Rightarrow> avail_row" where
  "token_row canon underlying usdc chain p =
     (case p of (addr, s) \<Rightarrow>
        \<lparr>av_id = [], av_address = canon addr, av_underlying = Some underlying, av_strike = os_strike s,
         av_expiry = os_expiry_ts s, av_is_put = spec_is_put s,
         av_collateral = (if spec_is_put s then usdc else underlying), av_chain = chain\<rparr>)"

fun distinct_addresses :: "(string \<Rightarrow> string) \<Rightarrow> string list \<Rightarrow> (string \<times> otoken_spec) list \<Rightarrow> (string \<times> otoken_spec) list" where
  "distinct_addresses canon seen [] = []"
| "distinct_addresses canon seen ((addr, s) # ps) =
     (if elem (canon addr) seen then distinct_addresses canon seen ps
      else (addr, s) # distinct_addresses canon (canon addr # seen) ps)"

lemma distinct_addresses_props:
  "set (distinct_addresses canon seen ps) \<subseteq> set ps"
  "distinct (map (canon \<circ> fst) (distinct_addresses canon seen ps)) \<and>
     (\<forall>p \<in> set (distinct_addresses canon seen ps). canon (fst p) \<notin> set seen)"
  by (induction canon seen ps rule: distinct_addresses.induct) (auto, metis fst_conv)

definition put_available :: "avail_row \<Rightarrow> avail_row \<Rightarrow> avail_row" where
  "put_available new r = new\<lparr>av_id := av_id r\<rparr>"

definition number_available :: "(nat \<Rightarrow> string) \<Rightarrow> avail_row list \<Rightarrow> avail_row list" where
  "number_available ids rows = map2 (\<lambda>n r. r\<lparr>av_id := ids n\<rparr>) [0..<length rows] rows"

definition upsert_available :: "otk_env \<Rightarrow> avail_row list \<Rightarrow> unit opy" where
  "upsert_available env rows =
     (if rows = [] then ret ()
      else thenE (ocall env UpsertAvailable) (modifyE (\<lambda>w. w\<lparr>ow_available :=
             upsert_all av_address put_available (number_available (oe_new_id env (calls w)) rows) (ow_available w)\<rparr>)))"

interpretation available: upsert_table av_address put_available
  by unfold_locales (simp add: put_available_def)

text \<open>
  The options of one asset: the clock is read by \<open>generate_otoken_specs\<close> and \<open>get_expiries\<close>. Ten
  rounds of the strike loops are enough for the four strikes per side of the registry.
\<close>

definition STRIKE_ROUNDS :: nat where "STRIKE_ROUNDS = 10"

definition asset_specs :: "otk_env \<Rightarrow> rat \<Rightarrow> asset \<Rightarrow> int list option \<Rightarrow> otoken_spec list opy" where
  "asset_specs env spot a custom =
     bindE (otime env) (\<lambda>t. bindE (otime env) (\<lambda>t'.
       liftE (generate_otoken_specs STRIKE_ROUNDS (oe_pricing env) spot a custom None t (t div 1000000) (t' div 1000000))))"

text \<open>
  One asset of a cycle: a missing price skips the asset; any other exception ends the cycle.
\<close>

definition publish_asset ::
  "otk_env \<Rightarrow> int list option \<Rightarrow> bool \<Rightarrow>
   (otoken_spec list \<Rightarrow> asset \<Rightarrow> (otoken_key \<times> string) list opy) \<Rightarrow>
   (otoken_spec list \<Rightarrow> asset \<Rightarrow> (otoken_key \<times> string) list \<Rightarrow> (string \<times> otoken_spec) list opy) \<Rightarrow>
   ((string \<times> otoken_spec) list \<Rightarrow> asset \<Rightarrow> unit opy) \<Rightarrow> asset \<Rightarrow> unit opy" where
  "publish_asset env custom full load ensure upsert a =
     bindE (tryE (oanswer env (Spot a) (oe_spot env))) (\<lambda>r. case r of
       Inl _ \<Rightarrow> ret ()
     | Inr spot \<Rightarrow>
         bindE (asset_specs env spot a custom) (\<lambda>specs.
         bindE (if full then ret [] else load specs a) (\<lambda>existing.
         bindE (ensure specs a existing) (\<lambda>paired.
           if paired = [] then ret () else upsert paired a))))"

definition next_cycle :: "int opy" where
  "next_cycle = thenE (modifyE (\<lambda>w. w\<lparr>ow_cycle := ow_cycle w + 1\<rparr>)) (getsE ow_cycle)"

text \<open>\<open>[int(t.strip()) for t in raw.split(",") if t.strip()]\<close>; \<open>None\<close> is the \<open>ValueError\<close>.\<close>

fun parse_ints :: "string list \<Rightarrow> int list option" where
  "parse_ints [] = Some []"
| "parse_ints (t # ts) =
     (if strip t = [] then parse_ints ts
      else (case (py_int (strip t), parse_ints ts) of (Some i, Some js) \<Rightarrow> Some (i # js) | _ \<Rightarrow> None))"

section \<open>What a table may hold after a cycle\<close>

text \<open>
  \<open>backed\<close>: a row is one of the rows \<open>T\<close>, or it is the row of a specification that expires at 08:00,
  with a canonical address that is one of \<open>K\<close> or has evidence in the history.
\<close>

definition backed ::
  "(string \<Rightarrow> otk_call list \<Rightarrow> bool) \<Rightarrow> (string \<Rightarrow> string) \<Rightarrow> string \<Rightarrow> avail_row list \<Rightarrow> string list \<Rightarrow> otk_call list \<Rightarrow> avail_row \<Rightarrow> bool" where
  "backed evidence canon chain T K h r \<longleftrightarrow> elem r T \<or>
     (av_expiry r mod 86400 = 28800 \<and> av_chain r = chain \<and> canon (av_address r) = av_address r \<and>
      (elem (av_address r) K \<or> evidence (av_address r) h))"

lemma backed_refl: "list_all (backed ev canon c T K h) T"
  by (simp add: list_all_iff backed_def)

lemma number_available_rows:
  "length (number_available ids rows) = length rows"
  "map av_address (number_available ids rows) = map av_address rows"
  by (auto simp: number_available_def intro!: nth_equalityI)

lemma in_number_available:
  "r \<in> set (number_available ids rows) \<Longrightarrow> \<exists>n \<in> set rows. \<exists>i. r = n\<lparr>av_id := i\<rparr>"
  by (auto simp: number_available_def dest!: set_zip_rightD)

lemma backed_upsert:
  assumes T: "list_all (backed ev canon c T0 K h) T"
    and n: "\<And>r i. r \<in> set rows \<Longrightarrow> backed ev canon c T0 K h (r\<lparr>av_id := i\<rparr>)"
  shows "list_all (backed ev canon c T0 K h) (upsert_all av_address put_available (number_available ids rows) T)"
  unfolding list_all_iff
proof
  fix r assume "r \<in> set (upsert_all av_address put_available (number_available ids rows) T)"
  from available.in_upsert_all [OF this] show "backed ev canon c T0 K h r"
  proof
    assume "r \<in> set T" with T show ?thesis by (simp add: list_all_iff)
  next
    assume "\<exists>n\<in>set (number_available ids rows). r = n \<or> (\<exists>old. r = put_available n old)"
    then obtain m where "m \<in> set (number_available ids rows)" "r = m \<or> (\<exists>old. r = put_available m old)" by blast
    with in_number_available [OF this(1)] show ?thesis by (auto simp: put_available_def intro: n)
  qed
qed

text \<open>Every generated specification expires at 08:00.\<close>

lemma generated_at_0800:
  assumes "generate_otoken_specs fuel st spot a e num now now1 now2 = Inr specs" "s \<in> set specs"
  shows "os_expiry_ts s mod 86400 = 28800"
proof -
  obtain cfg n d es where "map_sum id concat (seq_results (map (specs_for_expiry fuel spot cfg n d now2) es)) = Inr specs"
    using assms(1) by (auto simp: generate_otoken_specs_def Let_def)
  then obtain sss where m: "map (specs_for_expiry fuel spot cfg n d now2) es = map Inr sss" "specs = concat sss"
    by (cases "seq_results (map (specs_for_expiry fuel spot cfg n d now2) es)") (auto simp: seq_results_Inr)
  from assms(2) m(2) obtain ss where ss: "ss \<in> set sss" "s \<in> set ss" by auto
  then have "Inr ss \<in> set (map (specs_for_expiry fuel spot cfg n d now2) es)" unfolding m(1) by simp
  then obtain t where "specs_for_expiry fuel spot cfg n d now2 t = Inr ss" by (auto dest: sym)
  from specs_for_expiry_Inr(1) [OF this] ss(2) show ?thesis by auto
qed

locale otoken_publisher = otoken_maker +
  fixes canon :: "string \<Rightarrow> string" and chain :: string and evidence :: "string \<Rightarrow> otk_call list \<Rightarrow> bool"
  assumes canon_idem: "canon (canon a) = canon a"
    and good_evidence: "good a s h \<Longrightarrow> evidence (canon a) h"
    and evidence_append: "evidence b h \<Longrightarrow> evidence b (cs @ h)"
begin

abbreviation table_ok :: "avail_row list \<Rightarrow> string list \<Rightarrow> otk_world \<Rightarrow> bool" where
  "table_ok T K w \<equiv> list_all (backed evidence canon chain T K (calls w)) (ow_available w)"

lemma table_ok_reads: "table_ok T K w \<Longrightarrow> reads_le w v \<Longrightarrow> table_ok T K v"
  by (auto simp: reads_le_def hist_le_def list_all_iff backed_def evidence_append)

lemma wp_reads:
  assumes "grows reads_le m" "table_ok T K w"
  shows "wp m (\<lambda>_ v. table_ok T K v \<and> reads_le w v) (\<lambda>_ v. table_ok T K v) w"
  by (rule wp_mono [OF reads.wp_le [OF assms(1) reads.le_refl]]) (auto intro: table_ok_reads [OF assms(2)])

text \<open>The addresses that a lookup may return keep a table in order.\<close>

definition known_addresses :: "string list \<Rightarrow> otk_world \<Rightarrow> (otoken_key \<times> string) list \<Rightarrow> bool" where
  "known_addresses K w existing \<longleftrightarrow>
     (\<forall>k a. map_of existing k = Some a \<longrightarrow> canon a = a \<and> (elem a K \<or> evidence a (calls w)))"

lemma known_reads: "known_addresses K w ex \<Longrightarrow> reads_le w v \<Longrightarrow> known_addresses K v ex"
  unfolding known_addresses_def reads_le_def hist_le_def by (metis evidence_append)

text \<open>
  One asset of a cycle, for a lookup that reads the table and an upsert that writes only rows of the
  given pairs.
\<close>

lemma wp_publish_asset:
  assumes ensure: "\<And>specs ex. (\<exists>e. ensure specs a ex = raise e) \<or>
      ensure specs a ex = ensure_loop check prepare obtain_otoken ex specs"
    and load: "\<And>specs v. \<not> full \<Longrightarrow> table_ok T K v \<Longrightarrow>
      wp (load specs a) (\<lambda>ex u. known_addresses K u ex \<and> reads_le v u) (\<lambda>_ u. reads_le v u) v"
    and upsert: "\<And>paired v. table_ok T K v \<Longrightarrow>
      (\<And>b s i. (b, s) \<in> set paired \<Longrightarrow> backed evidence canon chain T K (calls v) ((token_row canon (U a) (C a) chain (b, s))\<lparr>av_id := i\<rparr>)) \<Longrightarrow>
      wp (upsert paired a) (\<lambda>_. table_ok T K) (\<lambda>_. table_ok T K) v"
    and w: "table_ok T K w"
  shows "wp (publish_asset env custom full load ensure upsert a) (\<lambda>_. table_ok T K) (\<lambda>_. table_ok T K) w"
proof -
  have known_Nil: "known_addresses K v []" for v by (simp add: known_addresses_def)
  have row: "backed evidence canon chain T K (calls v) ((token_row canon (U a) (C a) chain (b, s))\<lparr>av_id := i\<rparr>)"
    if "found ex (calls v) (b, s)" "known_addresses K v ex" "os_expiry_ts s mod 86400 = 28800" for ex v b s i
  proof -
    from that(1) have "elem (canon b) K \<or> evidence (canon b) (calls v)"
      unfolding found_def fst_conv snd_conv
    proof
      assume "map_of ex (spec_key s) = Some b"
      with that(2) have "canon b = b" "elem b K \<or> evidence b (calls v)" unfolding known_addresses_def by blast+
      then show ?thesis by simp
    qed (blast intro: good_evidence)
    with that(3) show ?thesis by (simp add: backed_def token_row_def canon_idem)
  qed
  have ens: "wp (bindE (ensure specs a ex) (\<lambda>paired. if paired = [] then ret () else upsert paired a))
      (\<lambda>_. table_ok T K) (\<lambda>_. table_ok T K) v"
    if v: "table_ok T K v" "known_addresses K v ex" and s: "\<And>s. s \<in> set specs \<Longrightarrow> os_expiry_ts s mod 86400 = 28800" for specs ex v
  proof (cases "\<exists>e. ensure specs a ex = raise e")
    case True
    with v(1) show ?thesis by (auto simp: wps)
  next
    case False
    with ensure [of specs ex] have e: "ensure specs a ex = ensure_loop check prepare obtain_otoken ex specs" by blast
    show ?thesis unfolding wp_bind e
  proof (rule wp_mono [OF wp_conj [OF ensure_found wp_reads [OF reads_ensure v(1)]]], goal_cases)
    case (1 paired u)
    then have u: "table_ok T K u" "known_addresses K u ex" using v(2) known_reads by blast+
    have "backed evidence canon chain T K (calls u) ((token_row canon (U a) (C a) chain (b, s))\<lparr>av_id := i\<rparr>)"
      if "(b, s) \<in> set paired" for b s i
      using 1 that s u(2) by (blast intro: row)
    with upsert [OF u(1)] u(1) show ?case by (simp add: wps)
  qed simp
  qed
  have rest: "wp (bindE (if full then ret [] else load specs a) (\<lambda>ex. bindE (ensure specs a ex) (\<lambda>paired. if paired = [] then ret () else upsert paired a)))
      (\<lambda>_. table_ok T K) (\<lambda>_. table_ok T K) v"
    if v: "table_ok T K v" and s: "\<And>s. s \<in> set specs \<Longrightarrow> os_expiry_ts s mod 86400 = 28800" for specs v
  proof (cases full)
    case True
    with ens [OF v known_Nil s] show ?thesis by (simp add: wp_bind [of "ret _"] wp_ret)
  next
    case False
    have "wp (load specs a) (\<lambda>ex. wp (bindE (ensure specs a ex) (\<lambda>paired. if paired = [] then ret () else upsert paired a))
        (\<lambda>_. table_ok T K) (\<lambda>_. table_ok T K)) (\<lambda>_. table_ok T K) v"
      by (rule wp_mono [OF load [OF False v]]) (use s table_ok_reads [OF v] in \<open>auto intro: ens\<close>)
    with False show ?thesis by (simp add: wp_bind [of "load _ _"])
  qed
  have specs: "wp (asset_specs env spot a custom) (\<lambda>specs v. table_ok T K v \<and> (\<forall>s \<in> set specs. os_expiry_ts s mod 86400 = 28800))
      (\<lambda>_. table_ok T K) v" if "table_ok T K v" for spot v
  proof -
    have r: "grows reads_le (asset_specs env spot a custom)"
      unfolding asset_specs_def by (intro reads_rules)
    have "wp (asset_specs env spot a custom) (\<lambda>specs _. \<forall>s \<in> set specs. os_expiry_ts s mod 86400 = 28800) (\<lambda>_ _. True) v"
      by (auto simp: asset_specs_def wps dest: generated_at_0800 split: sum.split)
    from wp_conj [OF wp_reads [OF r that] this] show ?thesis by (rule wp_mono) auto
  qed
  have spot: "wp (tryE (oanswer env (Spot a) (oe_spot env))) (\<lambda>_. table_ok T K) (\<lambda>_. table_ok T K) w"
    by (rule wp_mono [OF wp_reads [OF reads.grows_try [OF reads_answer] w]]) auto
  show ?thesis unfolding publish_asset_def wp_bind [of "tryE _"]
  proof (rule wp_mono [OF spot], goal_cases)
    case (1 r v)
    show ?case
    proof (cases r)
      case (Inr sp)
      have "wp (asset_specs env sp a custom) (\<lambda>specs. wp (bindE (if full then ret [] else load specs a)
          (\<lambda>ex. bindE (ensure specs a ex) (\<lambda>paired. if paired = [] then ret () else upsert paired a)))
          (\<lambda>_. table_ok T K) (\<lambda>_. table_ok T K)) (\<lambda>_. table_ok T K) v"
        by (rule wp_mono [OF specs [OF 1]], rule rest) simp_all
      with Inr show ?thesis by (simp add: wp_bind [of "asset_specs _ _ _ _"])
    qed (use 1 in \<open>simp add: wps\<close>)
  qed
qed

end

end
