(* ===== verification/Otoken_Manager.thy ===== *)
theory Otoken_Manager
  imports Otoken_Publish
begin

text \<open>
  The option token manager of Base, \<open>src/bots/otoken_manager.py\<close>: it finds or creates the token of
  every specification at the factory, has it whitelisted, and publishes it in \<open>available_otokens\<close>,
  from which it also prunes the tokens close to expiry.
\<close>

section \<open>Finding, creating, whitelisting\<close>

record base_settings =
  bs_env :: otk_env
  bs_usdc :: string
  bs_whitelist :: string
  bs_factory :: string
  bs_operator_key :: string
  bs_interval :: int
  bs_checksum :: "string \<Rightarrow> exn + string"

definition ZERO_ADDRESS :: string where
  "ZERO_ADDRESS = ''0x0000000000000000000000000000000000000000''"

definition FULL_RECONCILE_EVERY_CYCLES :: int where "FULL_RECONCILE_EVERY_CYCLES = 3"

definition find_or_create_otoken :: "otk_env \<Rightarrow> token_args \<Rightarrow> string option opy" where
  "find_or_create_otoken env args =
     bindE (oanswer env (TargetAddress args) (oe_address env)) (\<lambda>target.
     bindE (oanswer env (IsOToken target) (oe_yes env)) (\<lambda>exists_already.
       if exists_already then ret (Some target)
       else
         bindE (catchE (thenE (ocall env (CreateOToken args)) (ret None))
                  (\<lambda>_. bindE (oanswer env (IsOToken target) (oe_yes env)) (\<lambda>raced.
                     if raced then ret (Some target) else raise (RuntimeError ''Failed to create oToken''))))
         (\<lambda>found. case found of
            Some a \<Rightarrow> ret (Some a)
          | None \<Rightarrow> bindE (oanswer env (TargetAddress args) (oe_address env)) (\<lambda>a.
              if a = ZERO_ADDRESS then ret None else ret (Some a)))))"

definition whitelist_otoken :: "base_settings \<Rightarrow> string \<Rightarrow> unit opy" where
  "whitelist_otoken bs a =
     (if bs_whitelist bs = [] then ret ()
      else
        thenE (ocall (bs_env bs) GetWhitelist)
        (bindE (oanswer (bs_env bs) (IsWhitelisted a) (oe_yes (bs_env bs))) (\<lambda>listed.
           if listed then ret ()
           else catchE (ocall (bs_env bs) (WhitelistOToken a))
                  (\<lambda>e. bindE (oanswer (bs_env bs) (IsWhitelisted a) (oe_yes (bs_env bs))) (\<lambda>listed.
                     if listed then ret () else raise e)))))"

text \<open>\<open>datetime.fromtimestamp(ts)\<close> raises outside the years 1 to 9999.\<close>

definition fromtimestamp_ok :: "int \<Rightarrow> bool" where
  "fromtimestamp_ok ts \<longleftrightarrow> -62135596800 \<le> ts \<and> ts \<le> 253402300799"

definition check_expiry_date :: "otoken_spec \<Rightarrow> unit opy" where
  "check_expiry_date s =
     (if fromtimestamp_ok (os_expiry_ts s) then ret () else raise (ValueError ''year is out of range''))"

definition token_args_of :: "string \<Rightarrow> string \<Rightarrow> otoken_spec \<Rightarrow> token_args" where
  "token_args_of underlying usdc s =
     \<lparr>ta_underlying = underlying, ta_usdc = usdc, ta_collateral = (if spec_is_put s then usdc else underlying),
      ta_strike = strike_to_8_decimals (os_strike s), ta_expiry = os_expiry_ts s, ta_is_put = spec_is_put s\<rparr>"

text \<open>The two \<open>try\<close> blocks of one specification; an exception of either excludes the token.\<close>

definition obtain_base_otoken :: "base_settings \<Rightarrow> string \<Rightarrow> string \<Rightarrow> otoken_spec \<Rightarrow> string option opy" where
  "obtain_base_otoken bs underlying usdc s =
     bindE (find_or_create_otoken (bs_env bs) (token_args_of underlying usdc s)) (\<lambda>found. case found of
       None \<Rightarrow> ret None
     | Some a \<Rightarrow> thenE (whitelist_otoken bs a) (ret (Some a)))"

definition get_factory_and_account :: "otk_env \<Rightarrow> unit opy" where
  "get_factory_and_account env = thenE (ocall env GetFactory) (ocall env GetAccount)"

definition base_underlying :: "base_settings \<Rightarrow> asset \<Rightarrow> exn + string" where
  "base_underlying bs a = underlying_address (oe_addresses (bs_env bs)) (asset_configs a)"

definition lift_checksum :: "base_settings \<Rightarrow> exn + string \<Rightarrow> string opy" where
  "lift_checksum bs a = bindE (liftE a) (\<lambda>x. liftE (bs_checksum bs x))"

definition ensure_otokens_exist ::
  "base_settings \<Rightarrow> otoken_spec list \<Rightarrow> asset \<Rightarrow> (otoken_key \<times> string) list \<Rightarrow> (string \<times> otoken_spec) list opy" where
  "ensure_otokens_exist bs specs a existing =
     bindE (lift_checksum bs (base_underlying bs a)) (\<lambda>underlying.
     bindE (lift_checksum bs (Inr (bs_usdc bs))) (\<lambda>usdc.
       ensure_loop check_expiry_date (get_factory_and_account (bs_env bs)) (obtain_base_otoken bs underlying usdc)
         existing specs))"

section \<open>The table\<close>

definition load_existing_otokens_for_specs :: "base_settings \<Rightarrow> otoken_spec list \<Rightarrow> asset \<Rightarrow> (otoken_key \<times> string) list opy" where
  "load_existing_otokens_for_specs bs specs a =
     read_existing (bs_env bs) (\<lambda>_. True) lower (map_sum id lower (base_underlying bs a)) specs"

definition is_valid_expiry :: "int \<Rightarrow> bool" where
  "is_valid_expiry ts \<longleftrightarrow> ts mod 86400 div 3600 = 8 \<and> ts mod 3600 div 60 = 0 \<and> ts mod 60 = 0"

definition near_expiry :: "pricing_settings \<Rightarrow> int \<Rightarrow> avail_row \<Rightarrow> bool" where
  "near_expiry st now r \<longleftrightarrow> av_chain r = ''base'' \<and> av_expiry r < now + expiry_cutoff_hours st * 3600 \<and>
     av_expiry r \<le> now + cutoff_hours_for_expiry st (av_expiry r) now * 3600"

definition prune_near_expiry_otokens :: "otk_env \<Rightarrow> unit opy" where
  "prune_near_expiry_otokens env =
     bindE (otime env) (\<lambda>t.
     thenE (ocall env ReadPrunable)
     (bindE (getsE (\<lambda>w. map av_id (filter (near_expiry (oe_pricing env) (t div 1000000)) (ow_available w)))) (\<lambda>ids.
        if ids = [] then ret ()
        else thenE (ocall env (DeleteAvailable ids))
               (modifyE (\<lambda>w. w\<lparr>ow_available := filter (\<lambda>r. \<not> elem (av_id r) ids) (ow_available w)\<rparr>)))))"

definition upsert_available_otokens :: "base_settings \<Rightarrow> (string \<times> otoken_spec) list \<Rightarrow> asset \<Rightarrow> unit opy" where
  "upsert_available_otokens bs paired a =
     bindE (liftE (base_underlying bs a)) (\<lambda>underlying.
       upsert_available (bs_env bs)
         (map (token_row lower (lower underlying) (lower (bs_usdc bs)) ''base'')
            (distinct_addresses lower [] (filter (\<lambda>(_, s). is_valid_expiry (os_expiry_ts s)) paired))))"

definition parse_custom_expiries :: "otk_env \<Rightarrow> int list option" where
  "parse_custom_expiries env =
     (let raw = strip (oe_custom_expiries env) in
      if raw = [] then None
      else (case parse_ints (split_on CHR '','' raw) of
              None \<Rightarrow> None
            | Some ts \<Rightarrow> if ts = [] then None else Some ts))"

section \<open>The cycle\<close>

definition publish_once :: "base_settings \<Rightarrow> unit opy" where
  "publish_once bs =
     bindE next_cycle (\<lambda>cycle.
     thenE (prune_near_expiry_otokens (bs_env bs))
     (for_each (publish_asset (bs_env bs) (parse_custom_expiries (bs_env bs)) (cycle mod FULL_RECONCILE_EVERY_CYCLES = 1)
        (load_existing_otokens_for_specs bs) (ensure_otokens_exist bs) (upsert_available_otokens bs)) get_base_assets))"

text \<open>The start of \<open>run\<close>, and one round of its loop.\<close>

definition otoken_manager_starts :: "base_settings \<Rightarrow> bool" where
  "otoken_manager_starts bs \<longleftrightarrow> bs_factory bs \<noteq> [] \<and> bs_operator_key bs \<noteq> []"

definition otoken_manager_round :: "base_settings \<Rightarrow> unit opy" where
  "otoken_manager_round bs =
     thenE (catchE (publish_once bs) (\<lambda>_. ret ())) (ocall (bs_env bs) (Pause (bs_interval bs)))"

section \<open>Evidence\<close>

text \<open>
  The factory knows the address, and it is whitelisted, as far as the history of calls tells;
  addresses are compared in lower case.
\<close>

definition at_factory :: "otk_env \<Rightarrow> string \<Rightarrow> otk_call list \<Rightarrow> bool" where
  "at_factory env b = witnessed (\<lambda>h. oe_fails env h = None \<and>
     (case hd h of
        IsOToken x \<Rightarrow> lower x = b \<and> oe_yes env h
      | TargetAddress args \<Rightarrow> lower (oe_address env h) = b \<and> did env (CreateOToken args) (tl h)
      | _ \<Rightarrow> False))"

definition whitelisted :: "base_settings \<Rightarrow> string \<Rightarrow> otk_call list \<Rightarrow> bool" where
  "whitelisted bs b h \<longleftrightarrow> bs_whitelist bs = [] \<or>
     witnessed (\<lambda>h. oe_fails (bs_env bs) h = None \<and>
       (case hd h of
          IsWhitelisted x \<Rightarrow> lower x = b \<and> oe_yes (bs_env bs) h
        | WhitelistOToken x \<Rightarrow> lower x = b
        | _ \<Rightarrow> False)) h"

definition usable :: "base_settings \<Rightarrow> string \<Rightarrow> otk_call list \<Rightarrow> bool" where
  "usable bs b h \<longleftrightarrow> at_factory (bs_env bs) b h \<and> whitelisted bs b h"

lemma usable_append: "usable bs b h \<Longrightarrow> usable bs b (cs @ h)"
  by (auto simp: usable_def at_factory_def whitelisted_def witnessed_append)

lemma did_mono: "did env c h \<Longrightarrow> did env c (x # h)"
  by simp

definition derived :: "otk_env \<Rightarrow> token_args \<Rightarrow> string \<Rightarrow> otk_call list \<Rightarrow> bool" where
  "derived env args a = said env (TargetAddress args) (\<lambda>h. oe_address env h = a)"

lemma derived_append: "derived env args a h \<Longrightarrow> derived env args a (cs @ h)"
  by (simp add: derived_def said_append)

lemma find_or_create_at_factory:
  "wp (find_or_create_otoken env args)
     (\<lambda>r v. case r of None \<Rightarrow> True | Some a \<Rightarrow> at_factory env (lower a) (calls v) \<and> derived env args a (calls v)) (\<lambda>_ _. True) w"
  by (auto simp: find_or_create_otoken_def at_factory_def derived_def wps split: option.split)

lemma whitelist_whitelisted:
  "wp (whitelist_otoken bs a) (\<lambda>_ v. whitelisted bs (lower a) (calls v)) (\<lambda>_ _. True) w"
  by (auto simp: whitelist_otoken_def whitelisted_def wps split: option.split)

lemma reads_find: "grows reads_le (find_or_create_otoken env args)"
  unfolding find_or_create_otoken_def by (intro reads_rules)

lemma reads_whitelist: "grows reads_le (whitelist_otoken bs a)"
  unfolding whitelist_otoken_def by (intro reads_rules)

text \<open>What the manager knows of a token it obtained.\<close>

definition obtained :: "base_settings \<Rightarrow> string \<Rightarrow> string \<Rightarrow> string \<Rightarrow> otoken_spec \<Rightarrow> otk_call list \<Rightarrow> bool" where
  "obtained bs u c a s h \<longleftrightarrow> usable bs (lower a) h \<and> derived (bs_env bs) (token_args_of u c s) a h"

lemma obtain_obtained:
  "wp (obtain_base_otoken bs u c s) (\<lambda>r v. case r of None \<Rightarrow> True | Some a \<Rightarrow> obtained bs u c a s (calls v)) (\<lambda>_ _. True) w"
  unfolding obtain_base_otoken_def wp_bind
proof (rule wp_mono [OF find_or_create_at_factory], goal_cases)
  case (1 r v)
  show ?case
  proof (cases r)
    case (Some a)
    have "wp (whitelist_otoken bs a) (\<lambda>_ x. whitelisted bs (lower a) (calls x) \<and> hist_le v x) (\<lambda>_ _. True) v"
    proof -
      have "grows hist_le (whitelist_otoken bs a)"
        using reads_whitelist [of bs a] by (simp add: grows_def reads_le_def)
      from wp_conj [OF whitelist_whitelisted hist.wp_le [OF this hist.le_refl]] show ?thesis by (rule wp_mono) auto
    qed
    then have "wp (whitelist_otoken bs a) (\<lambda>_ x. obtained bs u c a s (calls x)) (\<lambda>_ _. True) v"
      by (rule wp_mono)
        (use 1 Some in \<open>auto simp: obtained_def usable_def hist_le_def at_factory_def witnessed_append derived_append\<close>)
    with Some show ?thesis by (simp add: wps)
  qed (simp add: wps)
qed simp

text \<open>The transactions: at most one creation and one whitelisting for a token.\<close>

definition is_transaction :: "otk_call \<Rightarrow> bool" where
  "is_transaction c = (case c of CreateOToken _ \<Rightarrow> True | WhitelistOToken _ \<Rightarrow> True | SendInstruction _ \<Rightarrow> True | _ \<Rightarrow> False)"

lemma is_transaction_simps [simp]:
  "\<not> is_transaction (TargetAddress x)" "\<not> is_transaction (IsOToken b)" "\<not> is_transaction (IsWhitelisted b)"
  "\<not> is_transaction GetFactory" "\<not> is_transaction GetAccount" "\<not> is_transaction GetWhitelist"
  "\<not> is_transaction (AccountInfo k)" "\<not> is_transaction GetOperator" "\<not> is_transaction LatestBlockhash"
  by (simp_all add: is_transaction_def)

lemmas quiet_rules = quiet.rules quiet_answer quiet_perform

lemma spends_find: "spends is_transaction 1 (find_or_create_otoken env args)"
  unfolding find_or_create_otoken_def
  by (intro spends_quiet_bind spends_if spends_bind_quiet spends_catch_quiet spends_then_quiet spends_perform)
    (intro quiet_rules spends_quiet; simp)+

lemma spends_whitelist: "spends is_transaction 1 (whitelist_otoken bs a)"
  unfolding whitelist_otoken_def
  by (intro spends_if spends_quiet_then spends_quiet_bind spends_catch_quiet spends_perform)
    (intro quiet_rules spends_quiet; simp)+

lemma spends_obtain: "spends is_transaction 2 (obtain_base_otoken bs u c s)"
proof -
  have "spends is_transaction 1 (case r of None \<Rightarrow> ret None | Some a \<Rightarrow> thenE (whitelist_otoken bs a) (ret (Some a)))" for r
    by (cases r) (auto simp del: One_nat_def intro: spends_then_quiet [OF spends_whitelist] spends_quiet quiet.grows_ret)
  from spends_bind [OF spends_find this] show ?thesis
    unfolding obtain_base_otoken_def by (simp add: numeral_2_eq_2)
qed

interpretation base: otoken_publisher check_expiry_date "get_factory_and_account (bs_env bs)" "obtain_base_otoken bs u c"
  "obtained bs u c" is_transaction 2 lower "''base''" "usable bs" for bs u c
proof unfold_locales
  show "grows reads_le (obtain_base_otoken bs u c s)" for s
    unfolding obtain_base_otoken_def by (intro reads.rules reads_find reads_whitelist)
  show "grows reads_le (check_expiry_date s)" "grows (quiet_le is_transaction) (check_expiry_date s)" for s
    unfolding check_expiry_date_def by (intro reads_rules, intro quiet_rules)
  show "grows reads_le (get_factory_and_account (bs_env bs))" "grows (quiet_le is_transaction) (get_factory_and_account (bs_env bs))"
    unfolding get_factory_and_account_def by (intro reads_rules, (intro quiet_rules; simp))
qed (auto simp: obtain_obtained obtained_def spends_obtain intro: usable_append derived_append)

section \<open>Properties\<close>

text \<open>The factory's arguments for a specification of an asset.\<close>

definition base_args :: "base_settings \<Rightarrow> asset \<Rightarrow> otoken_spec \<Rightarrow> token_args" where
  "base_args bs a s = token_args_of (projr (bs_checksum bs (projr (base_underlying bs a)))) (projr (bs_checksum bs (bs_usdc bs))) s"


text \<open>
  What the pruning removes. With unique identifiers and a standard cut-off of at most 48 hours that
  is longer than the short one, a run that returns removes exactly the Base rows that expire within the
  short cut-off: the standard cut-off removes nothing. A run that fails removes nothing.
\<close>

lemma prune_removes_short_cutoff:
  assumes "distinct (map av_id (ow_available w))"
    and "short_expiry_cutoff_hours (oe_pricing env) < expiry_cutoff_hours (oe_pricing env)"
    and "expiry_cutoff_hours (oe_pricing env) \<le> 48"
  shows "case prune_near_expiry_otokens env w of
     (Inl _, v) \<Rightarrow> ow_available v = ow_available w
   | (Inr _, v) \<Rightarrow> ow_available v =
       filter (\<lambda>r. \<not> (av_chain r = ''base'' \<and> av_expiry r \<le> oe_now env (Now # calls w) div 1000000 +
                      short_expiry_cutoff_hours (oe_pricing env) * 3600)) (ow_available w)"
proof -
  let ?now = "oe_now env (Now # calls w) div 1000000" and ?st = "oe_pricing env" and ?T = "ow_available w"
  let ?due = "\<lambda>r. av_chain r = ''base'' \<and> av_expiry r \<le> ?now + short_expiry_cutoff_hours ?st * 3600"
  have near: "near_expiry ?st ?now = ?due"
    using assms(2,3) by (auto simp: near_expiry_def cutoff_hours_for_expiry_def Let_def fun_eq_iff split: if_splits)
  have kept: "filter (\<lambda>r. \<not> elem (av_id r) (map av_id (filter ?due ?T))) ?T = filter (\<lambda>r. \<not> ?due r) ?T"
  proof (rule filter_cong [OF refl])
    fix r assume r: "r \<in> set ?T"
    have "r' = r" if "r' \<in> set ?T" "av_id r' = av_id r" for r'
      using assms(1) that r by (meson distinct_map inj_onD)
    then show "(\<not> elem (av_id r) (map av_id (filter ?due ?T))) = (\<not> ?due r)" using r by auto
  qed
  have none: "filter (\<lambda>r. \<not> ?due r) ?T = ?T" if "map av_id (filter ?due ?T) = []"
    using that by (auto simp: filter_empty_conv intro: filter_True)
  have "wp (prune_near_expiry_otokens env) (\<lambda>_ v. ow_available v = filter (\<lambda>r. \<not> ?due r) ?T) (\<lambda>_ v. ow_available v = ?T) w"
    unfolding prune_near_expiry_otokens_def by (simp only: wps near) (use kept none in \<open>auto split: option.split\<close>)
  then show ?thesis by (auto simp: wp_def split: prod.splits sum.splits)
qed

section \<open>Cycles\<close>

text \<open>The addresses of a table, in lower case.\<close>

definition addresses :: "avail_row list \<Rightarrow> string list" where
  "addresses T = map (\<lambda>r. lower (av_address r)) T"

lemma wp_prune:
  assumes t: "base.table_ok bs T K w"
  shows "wp (prune_near_expiry_otokens env) (\<lambda>_. base.table_ok bs T K) (\<lambda>_. base.table_ok bs T K) w"
proof -
  have ok: "base.table_ok bs T K v" if "hist_le w v" "set (ow_available v) \<subseteq> set (ow_available w)" for v
  proof -
    from that(1) obtain cs where "calls v = cs @ calls w" by (auto simp: hist_le_def)
    with t that(2) show ?thesis by (auto simp: list_all_iff backed_def usable_append dest!: subsetD)
  qed
  have "wp (prune_near_expiry_otokens env) (\<lambda>_ v. hist_le w v \<and> set (ow_available v) \<subseteq> set (ow_available w))
      (\<lambda>_ v. hist_le w v \<and> set (ow_available v) \<subseteq> set (ow_available w)) w"
    by (auto simp: prune_near_expiry_otokens_def wps hist_le_def split: option.split)
  then show ?thesis by (rule wp_mono) (blast intro: ok)+
qed

lemma load_known:
  assumes "base.table_ok bs T (addresses T) v"
  shows "wp (load_existing_otokens_for_specs bs specs a)
    (\<lambda>ex u. base.known_addresses bs (addresses T) u ex \<and> reads_le v u) (\<lambda>_ u. reads_le v u) v"
proof -
  have known: "base.known_addresses bs (addresses T) u (existing_by_key lower x specs (filter P (ow_available v)))"
    if "reads_le v u" for u x P
    unfolding base.known_addresses_def
  proof (intro allI impI)
    fix k b assume "map_of (existing_by_key lower x specs (filter P (ow_available v))) k = Some b"
    then obtain r where r: "r \<in> set (ow_available v)" "b = lower (av_address r)"
      by (rule existing_by_key_sound) (use that in auto)
    with assms that show "lower b = b \<and> (elem b (addresses T) \<or> usable bs b (calls u))"
      by (auto simp: list_all_iff backed_def addresses_def reads_le_def hist_le_def usable_append)
  qed
  have r: "grows reads_le (load_existing_otokens_for_specs bs specs a)"
    unfolding load_existing_otokens_for_specs_def read_existing_def by (intro reads_rules)
  have "wp (load_existing_otokens_for_specs bs specs a) (\<lambda>ex _. ex = [] \<or>
      (\<exists>x P. ex = existing_by_key lower x specs (filter P (ow_available v)))) (\<lambda>_ _. True) v"
    by (auto simp: load_existing_otokens_for_specs_def read_existing_def wps split: option.split sum.split)
  from wp_conj [OF this reads.wp_le [OF r reads.le_refl]] show ?thesis
  proof (rule wp_mono, goal_cases)
    case (1 ex u)
    moreover have "base.known_addresses bs (addresses T) u []" by (simp add: base.known_addresses_def)
    ultimately show ?case by (elim conjE disjE exE) (simp_all add: known)
  qed simp
qed

lemma wp_upsert:
  assumes t: "base.table_ok bs T K v"
    and p: "\<And>b s i. (b, s) \<in> set paired \<Longrightarrow> backed (usable bs) lower ''base'' T K (calls v)
      ((token_row lower (lower (projr (base_underlying bs a))) (lower (bs_usdc bs)) ''base'' (b, s))\<lparr>av_id := i\<rparr>)"
  shows "wp (upsert_available_otokens bs paired a) (\<lambda>_. base.table_ok bs T K) (\<lambda>_. base.table_ok bs T K) v"
proof -
  let ?ps = "distinct_addresses lower [] (filter (\<lambda>(_, s). is_valid_expiry (os_expiry_ts s)) paired)"
  have mono: "backed (usable bs) lower ''base'' T K (c # calls v) r" if "backed (usable bs) lower ''base'' T K (calls v) r" for c r
    using that usable_append [of bs _ "calls v" "[c]"] by (auto simp: backed_def)
  have "list_all (backed (usable bs) lower ''base'' T K (UpsertAvailable # calls v))
      (upsert_all av_address put_available (number_available ids (map (token_row lower (lower (projr (base_underlying bs a)))
        (lower (bs_usdc bs)) ''base'') ?ps)) (ow_available v))" for ids
  proof (rule backed_upsert)
    show "list_all (backed (usable bs) lower ''base'' T K (UpsertAvailable # calls v)) (ow_available v)"
      using t by (auto simp: list_all_iff intro: mono)
    fix r i assume "r \<in> set (map (token_row lower (lower (projr (base_underlying bs a))) (lower (bs_usdc bs)) ''base'') ?ps)"
    then obtain b s where "(b, s) \<in> set paired" "r = token_row lower (lower (projr (base_underlying bs a))) (lower (bs_usdc bs)) ''base'' (b, s)"
      using distinct_addresses_props(1) [of lower "[]"] by fastforce
    then show "backed (usable bs) lower ''base'' T K (UpsertAvailable # calls v) (r\<lparr>av_id := i\<rparr>)"
      by (auto intro: mono p)
  qed
  moreover have "list_all (backed (usable bs) lower ''base'' T K (UpsertAvailable # calls v)) (ow_available v)"
    using t by (auto simp: list_all_iff intro: mono)
  ultimately show ?thesis using t
    by (auto simp: upsert_available_otokens_def upsert_available_def wps split: option.split sum.split)
qed

lemma ensure_form:
  "(\<exists>e. ensure_otokens_exist bs specs a ex = raise e) \<or>
   ensure_otokens_exist bs specs a ex =
     ensure_loop check_expiry_date (get_factory_and_account (bs_env bs))
       (obtain_base_otoken bs (projr (bs_checksum bs (projr (base_underlying bs a)))) (projr (bs_checksum bs (bs_usdc bs)))) ex specs"
proof -
  obtain u where u: "base_underlying bs a = Inr u" using underlying_total by (auto simp: base_underlying_def)
  show ?thesis
    by (cases "bs_checksum bs u"; cases "bs_checksum bs (bs_usdc bs)")
      (auto simp: ensure_otokens_exist_def lift_checksum_def u fun_eq_iff run_defs)
qed

lemma wp_publish:
  assumes t: "base.table_ok bs T K w"
    and k: "K = addresses T \<or> (ow_cycle w + 1) mod FULL_RECONCILE_EVERY_CYCLES = 1"
  shows "wp (publish_once bs) (\<lambda>_. base.table_ok bs T K) (\<lambda>_. base.table_ok bs T K) w"
proof -
  let ?full = "(ow_cycle w + 1) mod FULL_RECONCILE_EVERY_CYCLES = 1"
  let ?body = "publish_asset (bs_env bs) (parse_custom_expiries (bs_env bs)) ?full
        (load_existing_otokens_for_specs bs) (ensure_otokens_exist bs) (upsert_available_otokens bs)"
  have asset: "wp (?body a) (\<lambda>_. base.table_ok bs T K) (\<lambda>_. base.table_ok bs T K) v" if "base.table_ok bs T K v" for a v
  proof (rule base.wp_publish_asset [where U = "\<lambda>a. lower (projr (base_underlying bs a))" and C = "\<lambda>_. lower (bs_usdc bs)", OF ensure_form _ _ that])
    fix specs u assume "\<not> ?full" "base.table_ok bs T K u"
    with k show "wp (load_existing_otokens_for_specs bs specs a) (\<lambda>ex x. base.known_addresses bs K x ex \<and> reads_le u x)
        (\<lambda>_ x. reads_le u x) u"
      using load_known [of bs T u specs a] by blast
  qed (rule wp_upsert)
  have "wp (for_each ?body get_base_assets) (\<lambda>_. base.table_ok bs T K) (\<lambda>_. base.table_ok bs T K) v" if "base.table_ok bs T K v" for v
    by (rule wp_for_each [where I = "base.table_ok bs T K"]) (rule that, rule asset)
  then have "wp (thenE (prune_near_expiry_otokens (bs_env bs)) (for_each ?body get_base_assets))
      (\<lambda>_. base.table_ok bs T K) (\<lambda>_. base.table_ok bs T K) v" if "base.table_ok bs T K v" for v
    unfolding wp_then by (intro wp_mono [OF wp_prune [OF that]]) auto
  moreover have "base.table_ok bs T K (w\<lparr>ow_cycle := ow_cycle w + 1\<rparr>)" using t by simp
  ultimately show ?thesis by (simp add: publish_once_def next_cycle_def wps)
qed

text \<open>\<open>n\<close> rounds of the bot; the cancellation of the sleep ends it.\<close>

fun manager_rounds :: "base_settings \<Rightarrow> nat \<Rightarrow> unit opy" where
  "manager_rounds bs 0 = ret ()"
| "manager_rounds bs (Suc n) = thenE (otoken_manager_round bs) (manager_rounds bs n)"

lemma wp_round:
  assumes "base.table_ok bs T (addresses T) w"
  shows "wp (otoken_manager_round bs) (\<lambda>_. base.table_ok bs T (addresses T)) (\<lambda>_. base.table_ok bs T (addresses T)) w"
proof -
  have p: "wp (ocall (bs_env bs) c) (\<lambda>_. base.table_ok bs T (addresses T)) (\<lambda>_. base.table_ok bs T (addresses T)) v"
    if "base.table_ok bs T (addresses T) v" for c v
    by (rule wp_mono [OF base.wp_reads [OF reads_call that]]) auto
  have "wp (catchE (publish_once bs) (\<lambda>_. ret ())) (\<lambda>_. base.table_ok bs T (addresses T)) (\<lambda>_. base.table_ok bs T (addresses T)) w"
    unfolding wp_catch by (rule wp_mono [OF wp_publish [OF assms]]) (simp_all add: wps)
  then show ?thesis unfolding otoken_manager_round_def wp_then by (rule wp_mono) (simp_all add: p)
qed


section \<open>Concrete runs\<close>

definition demo_row :: "string \<Rightarrow> int \<Rightarrow> avail_row" where
  "demo_row i expiry = \<lparr>av_id = i, av_address = ''0xAb'', av_underlying = Some ''0xe'', av_strike = 2000, av_expiry = expiry,
     av_is_put = True, av_collateral = ''0xc'', av_chain = ''base''\<rparr>"

definition demo_otk_env :: otk_env where
  "demo_otk_env = \<lparr>oe_fails = \<lambda>_. None, oe_now = \<lambda>_. 1000000000000, oe_spot = \<lambda>_. 2000, oe_yes = \<lambda>_. True, oe_address = \<lambda>_. ''0xAb'',
     oe_account = \<lambda>_. None, oe_new_id = \<lambda>_ n. nat_str n, oe_no_data = \<lambda>_. False,
     oe_pricing = \<lparr>expiry_cutoff_hours = 48, short_expiry_cutoff_hours = 4\<rparr>,
     oe_addresses = \<lparr>chainlink_eth_usd_address = [], chainlink_btc_usd_address = [], weth_address = ''0xE'', wbtc_address = ''0xB'',
       usdc_address = ''0xC'', solana_wsol_mint = [], solana_tslax_mint = []\<rparr>, oe_custom_expiries = []\<rparr>"

definition demo_otk_world :: otk_world where
  "demo_otk_world = \<lparr>calls = [], ow_available = [demo_row ''1'' 1010000, demo_row ''2'' 1100000], ow_cycle = 0\<rparr>"

lemma prune_removes_short_cutoff_witness:
  "ow_available (snd (prune_near_expiry_otokens demo_otk_env demo_otk_world)) = [demo_row ''2'' 1100000]"
proof -
  have "returns (prune_near_expiry_otokens demo_otk_env)"
    unfolding prune_near_expiry_otokens_def returns_def by (simp add: run_defs perform_def otime_def demo_otk_env_def split: prod.split)
  then obtain v where "prune_near_expiry_otokens demo_otk_env demo_otk_world = (Inr (), v)"
    by (auto simp: returns_def)
  moreover have "demo_row ''1'' 1010000 \<noteq> demo_row ''2'' 1100000" by (simp add: demo_row_def)
  ultimately show ?thesis
    using prune_removes_short_cutoff [of demo_otk_world demo_otk_env]
    by (simp add: demo_otk_world_def demo_otk_env_def) (simp add: demo_row_def)
qed

end
