(* ===== verification/Solana_Otoken_Manager.thy ===== *)
theory Solana_Otoken_Manager
  imports Otoken_Manager Quote_Crypto
begin

text \<open>
  The option token manager of Solana, \<open>src/bots/solana_otoken_manager.py\<close>: the derived accounts and the
  instructions of a token, its creation, whitelisting and registration, the repair of registered data
  with a wrong expiry, and the cycle. Public keys and byte strings are lists of bytes; address
  derivation and the token library are parameters.
\<close>

section \<open>Settings and library\<close>

record solana_settings =
  so_env :: otk_env
  so_factory_id :: string
  so_controller_id :: string
  so_whitelist_id :: string
  so_settler_id :: string
  so_usdc_mint :: string
  so_configured :: bool
  so_interval :: int

record solana_keys =
  sk_from_string :: "string \<Rightarrow> exn + pubkey"
  sk_to_string :: "pubkey \<Rightarrow> string"
  sk_find_program_address :: "byte list list \<Rightarrow> pubkey \<Rightarrow> pubkey"
  sk_associated_token_address :: "pubkey \<Rightarrow> pubkey \<Rightarrow> pubkey"
  sk_create_ata :: "pubkey \<Rightarrow> pubkey \<Rightarrow> pubkey \<Rightarrow> instruction"
  sk_operator :: pubkey
  sk_token_program :: pubkey

definition CREATE_OTOKEN_DISC :: "byte list" where "CREATE_OTOKEN_DISC = [157, 44, 166, 193, 252, 254, 194, 35]"
definition WHITELIST_OTOKEN_DISC :: "byte list" where "WHITELIST_OTOKEN_DISC = [198, 7, 154, 88, 102, 191, 174, 179]"
definition CREATE_OTOKEN_INFO_DISC :: "byte list" where "CREATE_OTOKEN_INFO_DISC = [63, 20, 21, 23, 167, 15, 1, 125]"
definition CLOSE_OTOKEN_INFO_DISC :: "byte list" where "CLOSE_OTOKEN_INFO_DISC = [110, 129, 226, 76, 224, 3, 121, 255]"

text \<open>The public key of 32 zero bytes.\<close>

definition SYSTEM_PROGRAM :: pubkey where "SYSTEM_PROGRAM = replicate 32 0"

definition SOLANA_FULL_RECONCILE_EVERY_CYCLES :: int where "SOLANA_FULL_RECONCILE_EVERY_CYCLES = 12"

definition ascii :: "string \<Rightarrow> byte list" where "ascii s = map of_char s"

section \<open>Derived accounts\<close>

definition derive_config :: "solana_keys \<Rightarrow> string \<Rightarrow> pubkey \<Rightarrow> pubkey" where
  "derive_config k name program = sk_find_program_address k [ascii name] program"

definition derive_factory_config :: "solana_keys \<Rightarrow> pubkey \<Rightarrow> pubkey" where
  "derive_factory_config k = derive_config k ''factory_config''"

definition derive_factory_operator_config :: "solana_keys \<Rightarrow> pubkey \<Rightarrow> pubkey" where
  "derive_factory_operator_config k = derive_config k ''factory_operator_config''"

definition derive_controller_config :: "solana_keys \<Rightarrow> pubkey \<Rightarrow> pubkey" where
  "derive_controller_config k = derive_config k ''controller_config''"

definition derive_settler_config :: "solana_keys \<Rightarrow> pubkey \<Rightarrow> pubkey" where
  "derive_settler_config k = derive_config k ''settler_config''"

definition derive_whitelist_config :: "solana_keys \<Rightarrow> pubkey \<Rightarrow> pubkey" where
  "derive_whitelist_config k = derive_config k ''whitelist_config''"

definition derive_whitelisted_otoken :: "solana_keys \<Rightarrow> pubkey \<Rightarrow> pubkey \<Rightarrow> pubkey" where
  "derive_whitelisted_otoken k program mint = sk_find_program_address k [ascii ''whitelisted_otoken'', mint] program"

definition derive_otoken_info :: "solana_keys \<Rightarrow> pubkey \<Rightarrow> pubkey \<Rightarrow> pubkey" where
  "derive_otoken_info k program mint = sk_find_program_address k [ascii ''otoken_info'', mint] program"

text \<open>The terms of a token: underlying, strike asset, collateral, strike, expiry and type.\<close>

record solana_terms =
  st_underlying :: pubkey
  st_strike_asset :: pubkey
  st_collateral :: pubkey
  st_strike :: int
  st_expiry :: int
  st_is_put :: bool

definition otoken_seeds :: "solana_terms \<Rightarrow> exn + byte list list" where
  "otoken_seeds t =
     (case pack_u64 (st_strike t) of
        Inl e \<Rightarrow> Inl e
      | Inr strike \<Rightarrow> (case pack_i64 (st_expiry t) of
          Inl e \<Rightarrow> Inl e
        | Inr expiry \<Rightarrow> Inr [st_underlying t, st_strike_asset t, st_collateral t, strike, expiry,
                          [if st_is_put t then 1 else 0]]))"

definition derive_otoken_pda :: "solana_keys \<Rightarrow> pubkey \<Rightarrow> solana_terms \<Rightarrow> exn + pubkey" where
  "derive_otoken_pda k program t =
     map_sum id (\<lambda>seeds. sk_find_program_address k (ascii ''otoken'' # seeds) program) (otoken_seeds t)"

definition derive_otoken_mint_pda :: "solana_keys \<Rightarrow> pubkey \<Rightarrow> solana_terms \<Rightarrow> exn + pubkey" where
  "derive_otoken_mint_pda k program t =
     map_sum id (\<lambda>seeds. sk_find_program_address k (ascii ''otoken_mint'' # seeds) program) (otoken_seeds t)"

section \<open>Instructions\<close>

text \<open>The data of \<open>create_otoken\<close> are the discriminator and the fields in the order of the seeds.\<close>

definition create_otoken_data :: "solana_terms \<Rightarrow> exn + byte list" where
  "create_otoken_data t =
     concat_results [Inr CREATE_OTOKEN_DISC, Inr (st_underlying t), Inr (st_strike_asset t), Inr (st_collateral t),
       pack_u64 (st_strike t), pack_i64 (st_expiry t), Inr [if st_is_put t then 1 else 0]]"

definition build_create_otoken_ix ::
  "solana_keys \<Rightarrow> pubkey \<Rightarrow> pubkey \<Rightarrow> pubkey \<Rightarrow> pubkey \<Rightarrow> pubkey \<Rightarrow> pubkey \<Rightarrow> pubkey \<Rightarrow> solana_terms \<Rightarrow> exn + instruction" where
  "build_create_otoken_ix k factory factory_config operator_config otoken mint controller_authority admin t =
     map_sum id (\<lambda>d. \<lparr>ix_program = factory, ix_data = d, ix_accounts =
       [(factory_config, False, True), (operator_config, False, False), (otoken, False, True), (mint, False, True),
        (controller_authority, False, False), (admin, True, True), (sk_token_program k, False, False),
        (SYSTEM_PROGRAM, False, False)]\<rparr>) (create_otoken_data t)"

definition build_whitelist_otoken_ix ::
  "pubkey \<Rightarrow> pubkey \<Rightarrow> pubkey \<Rightarrow> pubkey \<Rightarrow> pubkey \<Rightarrow> pubkey \<Rightarrow> pubkey \<Rightarrow> pubkey \<Rightarrow> instruction" where
  "build_whitelist_otoken_ix whitelist wl_config otoken operator_config factory wl_otoken mint caller =
     \<lparr>ix_program = whitelist, ix_data = WHITELIST_OTOKEN_DISC @ mint, ix_accounts =
       [(wl_otoken, False, True), (wl_config, False, False), (otoken, False, False), (operator_config, False, False),
        (factory, False, False), (caller, True, True), (SYSTEM_PROGRAM, False, False)]\<rparr>"

definition build_create_otoken_info_ix ::
  "pubkey \<Rightarrow> pubkey \<Rightarrow> pubkey \<Rightarrow> pubkey \<Rightarrow> pubkey \<Rightarrow> pubkey \<Rightarrow> pubkey \<Rightarrow> pubkey \<Rightarrow> pubkey \<Rightarrow> pubkey \<Rightarrow> pubkey \<Rightarrow> instruction" where
  "build_create_otoken_info_ix controller controller_config operator_config info mint otoken collateral wl_otoken
      whitelist factory admin =
     \<lparr>ix_program = controller, ix_data = CREATE_OTOKEN_INFO_DISC, ix_accounts =
       [(controller_config, False, False), (info, False, True), (mint, False, False), (otoken, False, False),
        (collateral, False, False), (wl_otoken, False, False), (whitelist, False, False), (factory, False, False),
        (operator_config, False, False), (admin, True, True), (SYSTEM_PROGRAM, False, False)]\<rparr>"

definition build_close_otoken_info_ix :: "pubkey \<Rightarrow> pubkey \<Rightarrow> pubkey \<Rightarrow> pubkey \<Rightarrow> instruction" where
  "build_close_otoken_info_ix controller controller_config info admin =
     \<lparr>ix_program = controller, ix_data = CLOSE_OTOKEN_INFO_DISC, ix_accounts =
       [(controller_config, False, False), (info, False, True), (admin, True, True)]\<rparr>"

definition send_ix :: "otk_env \<Rightarrow> instruction \<Rightarrow> unit opy" where
  "send_ix env ix =
     thenE (ocall env GetOperator) (thenE (ocall env LatestBlockhash) (ocall env (SendInstruction ix)))"

section \<open>Accounts on the chain\<close>

definition account_exists :: "otk_env \<Rightarrow> pubkey \<Rightarrow> bool opy" where
  "account_exists env k = oanswer env (AccountInfo k) (\<lambda>h. oe_account env h \<noteq> None)"

definition ensure_settler_otoken_account :: "solana_keys \<Rightarrow> solana_settings \<Rightarrow> pubkey \<Rightarrow> unit opy" where
  "ensure_settler_otoken_account k so mint =
     bindE (liftE (sk_from_string k (so_settler_id so))) (\<lambda>settler.
       let settler_config = derive_settler_config k settler;
           ata = sk_associated_token_address k settler_config mint in
       bindE (account_exists (so_env so) ata) (\<lambda>there.
         if there then ret ()
         else thenE (ocall (so_env so) GetOperator)
                (send_ix (so_env so) (sk_create_ata k (sk_operator k) settler_config mint))))"

text \<open>\<open>struct.unpack_from("<q", data, 144)\<close>.\<close>

definition INFO_EXPIRY_OFFSET :: nat where "INFO_EXPIRY_OFFSET = 8 + 32 + 32 + 32 + 32 + 8"

definition info_expiry :: "byte list \<Rightarrow> exn + int" where
  "info_expiry d =
     (if length d < INFO_EXPIRY_OFFSET + 8 then Inl (OtherError ''struct.error: unpack_from requires a buffer of at least 152 bytes'')
      else Inr (read_i64 (slice INFO_EXPIRY_OFFSET (INFO_EXPIRY_OFFSET + 8) d)))"

definition read_on_chain_expiry :: "otk_env \<Rightarrow> pubkey \<Rightarrow> int option opy" where
  "read_on_chain_expiry env info =
     bindE (oanswer env (AccountInfo info) (oe_account env)) (\<lambda>d. case d of
       None \<Rightarrow> ret None
     | Some bs \<Rightarrow> bindE (liftE (info_expiry bs)) (\<lambda>e. ret (Some e)))"

definition verify_otoken_info_expiry :: "solana_keys \<Rightarrow> solana_settings \<Rightarrow> pubkey \<Rightarrow> int \<Rightarrow> bool opy" where
  "verify_otoken_info_expiry k so info expected =
     bindE (read_on_chain_expiry (so_env so) info) (\<lambda>on_chain. case on_chain of
       None \<Rightarrow> ret False
     | Some e \<Rightarrow>
         if e = expected then ret True
         else
           bindE (liftE (sk_from_string k (so_controller_id so))) (\<lambda>controller.
           thenE (ocall (so_env so) GetOperator)
           (thenE (catchE (send_ix (so_env so)
                (build_close_otoken_info_ix controller (derive_controller_config k controller) info (sk_operator k))) (\<lambda>_. ret ()))
            (ret False))))"

section \<open>One token\<close>

text \<open>Create the token when its account is missing; whitelist the mint when its entry is missing.\<close>

definition create_if_missing :: "solana_keys \<Rightarrow> solana_settings \<Rightarrow> pubkey \<Rightarrow> solana_terms \<Rightarrow> pubkey \<Rightarrow> pubkey \<Rightarrow> unit opy" where
  "create_if_missing k so factory t otoken mint =
     bindE (account_exists (so_env so) otoken) (\<lambda>there.
       if there then ret ()
       else thenE (ocall (so_env so) GetOperator)
         (bindE (liftE (sk_from_string k (so_controller_id so))) (\<lambda>controller.
          bindE (liftE (build_create_otoken_ix k factory (derive_factory_config k factory)
              (derive_factory_operator_config k factory) otoken mint (derive_controller_config k controller) (sk_operator k) t))
            (send_ix (so_env so)))))"

definition whitelist_ix :: "solana_keys \<Rightarrow> pubkey \<Rightarrow> pubkey \<Rightarrow> pubkey \<Rightarrow> pubkey \<Rightarrow> instruction" where
  "whitelist_ix k factory whitelist otoken mint =
     build_whitelist_otoken_ix whitelist (derive_whitelist_config k whitelist) otoken
       (derive_factory_operator_config k factory) factory (derive_whitelisted_otoken k whitelist mint) mint (sk_operator k)"

definition whitelist_if_missing :: "solana_keys \<Rightarrow> solana_settings \<Rightarrow> pubkey \<Rightarrow> pubkey \<Rightarrow> pubkey \<Rightarrow> pubkey \<Rightarrow> unit opy" where
  "whitelist_if_missing k so factory whitelist otoken mint =
     bindE (account_exists (so_env so) (derive_whitelisted_otoken k whitelist mint)) (\<lambda>there.
       if there then ret ()
       else thenE (ocall (so_env so) GetOperator)
              (send_ix (so_env so) (whitelist_ix k factory whitelist otoken mint)))"

definition info_ix :: "solana_keys \<Rightarrow> pubkey \<Rightarrow> pubkey \<Rightarrow> pubkey \<Rightarrow> pubkey \<Rightarrow> pubkey \<Rightarrow> pubkey \<Rightarrow> pubkey \<Rightarrow> instruction" where
  "info_ix k controller_prog controller factory whitelist collateral otoken mint =
     build_create_otoken_info_ix controller_prog (derive_controller_config k controller)
       (derive_factory_operator_config k factory) (derive_otoken_info k controller_prog mint) mint otoken collateral
       (derive_whitelisted_otoken k whitelist mint) whitelist factory (sk_operator k)"

text \<open>
  The registration. Registered data are accepted only with the right expiry; otherwise they are closed
  and created again. A failure of the last two transactions excludes the token.
\<close>

definition register_token ::
  "solana_keys \<Rightarrow> solana_settings \<Rightarrow> pubkey \<Rightarrow> pubkey \<Rightarrow> pubkey \<Rightarrow> solana_terms \<Rightarrow> pubkey \<Rightarrow> pubkey \<Rightarrow> string option opy" where
  "register_token k so factory controller whitelist t otoken mint =
     bindE (liftE (sk_from_string k (so_controller_id so))) (\<lambda>controller_prog.
     bindE (account_exists (so_env so) (derive_otoken_info k controller_prog mint)) (\<lambda>there.
     bindE (if there then verify_otoken_info_expiry k so (derive_otoken_info k controller_prog mint) (st_expiry t)
            else ret False) (\<lambda>matches.
       if matches then thenE (ensure_settler_otoken_account k so mint) (ret (Some (sk_to_string k mint)))
       else
         thenE (ocall (so_env so) GetOperator)
         (bindE (tryE (send_ix (so_env so) (info_ix k controller_prog controller factory whitelist (st_collateral t) otoken mint)))
          (\<lambda>sent. case sent of
             Inl _ \<Rightarrow> ret None
           | Inr _ \<Rightarrow> bindE (tryE (ensure_settler_otoken_account k so mint)) (\<lambda>ata. case ata of
               Inl _ \<Rightarrow> ret None
             | Inr _ \<Rightarrow> ret (Some (sk_to_string k mint))))))))"

definition find_or_create_solana_otoken ::
  "solana_keys \<Rightarrow> solana_settings \<Rightarrow> pubkey \<Rightarrow> pubkey \<Rightarrow> pubkey \<Rightarrow> solana_terms \<Rightarrow> string option opy" where
  "find_or_create_solana_otoken k so factory controller whitelist t =
     bindE (liftE (derive_otoken_pda k factory t)) (\<lambda>otoken.
     bindE (liftE (derive_otoken_mint_pda k factory t)) (\<lambda>mint.
     thenE (create_if_missing k so factory t otoken mint)
     (thenE (whitelist_if_missing k so factory whitelist otoken mint)
      (register_token k so factory controller whitelist t otoken mint))))"

section \<open>The loop and the table\<close>

definition get_program_ids :: "solana_keys \<Rightarrow> solana_settings \<Rightarrow> exn + pubkey \<times> pubkey \<times> pubkey" where
  "get_program_ids k so =
     (case sk_from_string k (so_factory_id so) of
        Inl e \<Rightarrow> Inl e
      | Inr f \<Rightarrow> (case sk_from_string k (so_controller_id so) of
          Inl e \<Rightarrow> Inl e
        | Inr c \<Rightarrow> (case sk_from_string k (so_whitelist_id so) of
            Inl e \<Rightarrow> Inl e
          | Inr wl \<Rightarrow> Inr (f, c, wl))))"

definition solana_underlying :: "solana_settings \<Rightarrow> asset \<Rightarrow> exn + string" where
  "solana_underlying so a = underlying_address (oe_addresses (so_env so)) (asset_configs a)"

definition solana_terms_of :: "pubkey \<Rightarrow> pubkey \<Rightarrow> otoken_spec \<Rightarrow> solana_terms" where
  "solana_terms_of underlying usdc s =
     \<lparr>st_underlying = underlying, st_strike_asset = usdc, st_collateral = (if spec_is_put s then usdc else underlying),
      st_strike = strike_to_8_decimals (os_strike s), st_expiry = os_expiry_ts s, st_is_put = spec_is_put s\<rparr>"

definition obtain_solana_otoken ::
  "solana_keys \<Rightarrow> solana_settings \<Rightarrow> pubkey \<times> pubkey \<times> pubkey \<Rightarrow> pubkey \<Rightarrow> pubkey \<Rightarrow> otoken_spec \<Rightarrow> string option opy" where
  "obtain_solana_otoken k so ids underlying usdc s =
     (case ids of (factory, controller, whitelist) \<Rightarrow>
        find_or_create_solana_otoken k so factory controller whitelist (solana_terms_of underlying usdc s))"

definition ensure_solana_otokens_exist ::
  "solana_keys \<Rightarrow> solana_settings \<Rightarrow> otoken_spec list \<Rightarrow> asset \<Rightarrow> (otoken_key \<times> string) list \<Rightarrow> (string \<times> otoken_spec) list opy" where
  "ensure_solana_otokens_exist k so specs a existing =
     bindE (liftE (get_program_ids k so)) (\<lambda>ids.
     bindE (liftE (solana_underlying so a)) (\<lambda>u.
     bindE (liftE (sk_from_string k u)) (\<lambda>underlying.
     bindE (liftE (sk_from_string k (so_usdc_mint so))) (\<lambda>usdc.
       ensure_loop (\<lambda>_. ret ()) (ret ()) (obtain_solana_otoken k so ids underlying usdc) existing specs))))"

definition load_existing_solana_otokens_for_specs ::
  "solana_settings \<Rightarrow> otoken_spec list \<Rightarrow> asset \<Rightarrow> (otoken_key \<times> string) list opy" where
  "load_existing_solana_otokens_for_specs so specs a =
     read_existing (so_env so) (\<lambda>r. av_chain r = ''solana'') (\<lambda>x. x) (solana_underlying so a) specs"

definition upsert_solana_otokens :: "solana_settings \<Rightarrow> (string \<times> otoken_spec) list \<Rightarrow> asset \<Rightarrow> unit opy" where
  "upsert_solana_otokens so paired a =
     bindE (liftE (solana_underlying so a)) (\<lambda>underlying.
       upsert_available (so_env so)
         (map (token_row (\<lambda>x. x) underlying (so_usdc_mint so) ''solana'') (distinct_addresses (\<lambda>x. x) [] paired)))"

definition solana_custom_expiries :: "otk_env \<Rightarrow> int list option" where
  "solana_custom_expiries env =
     (let raw = strip (oe_custom_expiries env) in
      if raw = [] then None else parse_ints (split_on CHR '','' raw))"

definition publish_solana_once :: "solana_keys \<Rightarrow> solana_settings \<Rightarrow> unit opy" where
  "publish_solana_once k so =
     bindE next_cycle (\<lambda>cycle.
       for_each (publish_asset (so_env so) (solana_custom_expiries (so_env so))
          (cycle mod SOLANA_FULL_RECONCILE_EVERY_CYCLES = 1) (load_existing_solana_otokens_for_specs so)
          (ensure_solana_otokens_exist k so) (upsert_solana_otokens so)) get_solana_assets)"

definition solana_manager_starts :: "solana_settings \<Rightarrow> bool" where
  "solana_manager_starts so \<longleftrightarrow> so_configured so \<and> so_usdc_mint so \<noteq> []"

definition solana_manager_round :: "solana_keys \<Rightarrow> solana_settings \<Rightarrow> unit opy" where
  "solana_manager_round k so =
     thenE (catchE (publish_solana_once k so) (\<lambda>_. ret ())) (ocall (so_env so) (Pause (so_interval so)))"

section \<open>Evidence\<close>

definition account_seen :: "otk_env \<Rightarrow> pubkey \<Rightarrow> otk_call list \<Rightarrow> bool" where
  "account_seen env k = said env (AccountInfo k) (\<lambda>h. oe_account env h \<noteq> None)"

definition sent_ix :: "otk_env \<Rightarrow> instruction \<Rightarrow> otk_call list \<Rightarrow> bool" where
  "sent_ix env ix = did env (SendInstruction ix)"

text \<open>
  What is known of a token: its account exists or was created, its mint is whitelisted or was, its
  registered data have its expiry or were written, and the settler's account for it exists or was
  created.
\<close>

definition token_created :: "solana_keys \<Rightarrow> solana_settings \<Rightarrow> pubkey \<Rightarrow> solana_terms \<Rightarrow> pubkey \<Rightarrow> pubkey \<Rightarrow> otk_call list \<Rightarrow> bool" where
  "token_created k so factory t otoken mint h \<longleftrightarrow> account_seen (so_env so) otoken h \<or>
     (case sk_from_string k (so_controller_id so) of
        Inl _ \<Rightarrow> False
      | Inr controller \<Rightarrow>
          (case build_create_otoken_ix k factory (derive_factory_config k factory)
              (derive_factory_operator_config k factory) otoken mint (derive_controller_config k controller) (sk_operator k) t of
             Inl _ \<Rightarrow> False
           | Inr ix \<Rightarrow> sent_ix (so_env so) ix h))"

definition mint_whitelisted :: "solana_keys \<Rightarrow> solana_settings \<Rightarrow> pubkey \<Rightarrow> pubkey \<Rightarrow> pubkey \<Rightarrow> pubkey \<Rightarrow> otk_call list \<Rightarrow> bool" where
  "mint_whitelisted k so factory whitelist otoken mint h \<longleftrightarrow>
     account_seen (so_env so) (derive_whitelisted_otoken k whitelist mint) h \<or>
     sent_ix (so_env so) (whitelist_ix k factory whitelist otoken mint) h"

text \<open>\<open>expiry_seen\<close>: the data of the account were read and hold the expiry.\<close>

definition expiry_seen :: "solana_settings \<Rightarrow> pubkey \<Rightarrow> int \<Rightarrow> otk_call list \<Rightarrow> bool" where
  "expiry_seen so info e = said (so_env so) (AccountInfo info) (\<lambda>h. case oe_account (so_env so) h of
     None \<Rightarrow> False | Some d \<Rightarrow> info_expiry d = Inr e)"

definition info_registered ::
  "solana_keys \<Rightarrow> solana_settings \<Rightarrow> pubkey \<Rightarrow> pubkey \<Rightarrow> pubkey \<Rightarrow> solana_terms \<Rightarrow> pubkey \<Rightarrow> pubkey \<Rightarrow> otk_call list \<Rightarrow> bool" where
  "info_registered k so factory controller whitelist t otoken mint h \<longleftrightarrow>
     (case sk_from_string k (so_controller_id so) of
        Inl _ \<Rightarrow> False
      | Inr cp \<Rightarrow>
          expiry_seen so (derive_otoken_info k cp mint) (st_expiry t) h \<or>
          sent_ix (so_env so) (info_ix k cp controller factory whitelist (st_collateral t) otoken mint) h)"

definition settler_account :: "solana_keys \<Rightarrow> solana_settings \<Rightarrow> pubkey \<Rightarrow> otk_call list \<Rightarrow> bool" where
  "settler_account k so mint h \<longleftrightarrow>
     (case sk_from_string k (so_settler_id so) of
        Inl _ \<Rightarrow> False
      | Inr st \<Rightarrow>
          account_seen (so_env so) (sk_associated_token_address k (derive_settler_config k st) mint) h \<or>
          sent_ix (so_env so) (sk_create_ata k (sk_operator k) (derive_settler_config k st) mint) h)"

definition token_ready ::
  "solana_keys \<Rightarrow> solana_settings \<Rightarrow> pubkey \<times> pubkey \<times> pubkey \<Rightarrow> solana_terms \<Rightarrow> string \<Rightarrow> otk_call list \<Rightarrow> bool" where
  "token_ready k so ids t a h \<longleftrightarrow>
     (case ids of (factory, controller, whitelist) \<Rightarrow>
      case (derive_otoken_pda k factory t, derive_otoken_mint_pda k factory t) of
        (Inr otoken, Inr mint) \<Rightarrow> a = sk_to_string k mint \<and> token_created k so factory t otoken mint h \<and>
          mint_whitelisted k so factory whitelist otoken mint h \<and>
          info_registered k so factory controller whitelist t otoken mint h \<and> settler_account k so mint h
      | _ \<Rightarrow> False)"

lemmas evidence_defs = account_seen_def sent_ix_def expiry_seen_def token_created_def mint_whitelisted_def info_registered_def settler_account_def

lemma ready_parts_append:
  "token_created k so f t otoken mint h \<Longrightarrow> token_created k so f t otoken mint (cs @ h)"
  "mint_whitelisted k so f wl otoken mint h \<Longrightarrow> mint_whitelisted k so f wl otoken mint (cs @ h)"
  "info_registered k so f c wl t otoken mint h \<Longrightarrow> info_registered k so f c wl t otoken mint (cs @ h)"
  "settler_account k so mint h \<Longrightarrow> settler_account k so mint (cs @ h)"
  by (auto simp: evidence_defs did_append said_append split: sum.splits)

lemma token_ready_append: "token_ready k so ids t a h \<Longrightarrow> token_ready k so ids t a (cs @ h)"
  by (auto simp: token_ready_def ready_parts_append split: prod.splits sum.splits)

text \<open>Programs that read the table are tracked as any others.\<close>

lemma grown_hist: "grows reads_le m \<Longrightarrow> grows hist_le m"
  by (auto simp: grows_def reads_le_def)

lemma reads_send: "grows reads_le (send_ix env ix)"
  unfolding send_ix_def by (intro reads_rules)

lemma reads_exists: "grows reads_le (account_exists env a)"
  unfolding account_exists_def by (rule reads_answer)

lemmas reads_solana = reads_rules reads_send reads_exists

lemma reads_create: "grows reads_le (create_if_missing k so f t otoken mint)"
  unfolding create_if_missing_def by (intro reads_solana)

lemma reads_whitelist_missing: "grows reads_le (whitelist_if_missing k so f wl otoken mint)"
  unfolding whitelist_if_missing_def by (intro reads_solana)

lemma reads_settler: "grows reads_le (ensure_settler_otoken_account k so mint)"
  unfolding ensure_settler_otoken_account_def by (intro reads_solana)

lemma reads_verify: "grows reads_le (verify_otoken_info_expiry k so info e)"
  unfolding verify_otoken_info_expiry_def read_on_chain_expiry_def by (intro reads_solana)

lemmas step_defs = send_ix_def account_exists_def evidence_defs wps

lemma tracks_create: "tracks (\<lambda>_. token_created k so f t otoken mint) (create_if_missing k so f t otoken mint)"
  by (rule tracksI [OF _ grown_hist, OF _ reads_create]) (auto simp: create_if_missing_def step_defs split: option.split sum.split)

lemma tracks_whitelist: "tracks (\<lambda>_. mint_whitelisted k so f wl otoken mint) (whitelist_if_missing k so f wl otoken mint)"
  by (rule tracksI [OF _ grown_hist, OF _ reads_whitelist_missing]) (auto simp: whitelist_if_missing_def step_defs split: option.split)

lemma tracks_settler: "tracks (\<lambda>_. settler_account k so mint) (ensure_settler_otoken_account k so mint)"
  by (rule tracksI [OF _ grown_hist, OF _ reads_settler])
    (auto simp: ensure_settler_otoken_account_def step_defs Let_def split: option.split sum.split)

lemma tracks_send: "tracks (\<lambda>_. sent_ix env ix) (send_ix env ix)"
  by (rule tracksI [OF _ grown_hist, OF _ reads_send]) (auto simp: step_defs split: option.split)

lemma tracks_read: "tracks (\<lambda>r h. case r of None \<Rightarrow> True | Some e \<Rightarrow> expiry_seen so info e h) (read_on_chain_expiry (so_env so) info)"
proof (rule tracksI [OF _ grown_hist])
  show "grows reads_le (read_on_chain_expiry (so_env so) info)"
    unfolding read_on_chain_expiry_def by (intro reads_rules)
qed (auto simp: read_on_chain_expiry_def expiry_seen_def wps split: option.split sum.split)

lemma tracks_verify: "tracks (\<lambda>b h. b \<longrightarrow> expiry_seen so info e h) (verify_otoken_info_expiry k so info e)"
proof -
  have repair: "tracks (\<lambda>b _. \<not> b)
      (bindE (liftE (sk_from_string k (so_controller_id so))) (\<lambda>c.
           thenE (ocall (so_env so) GetOperator)
           (thenE (catchE (send_ix (so_env so) (build_close_otoken_info_ix c (derive_controller_config k c) info (sk_operator k))) (\<lambda>_. ret ()))
            (ret False))))"
    by (rule tracks_lift, (rule tracks_then [OF tracks_any [OF grown_hist]]; (intro reads_solana)?)+) (simp_all add: tracks_ret)
  show ?thesis
    unfolding verify_otoken_info_expiry_def
  proof (rule tracks_bind [OF tracks_read [of so info], where R = "\<lambda>r b _. b \<longrightarrow> r = Some e"], goal_cases)
    case (1 r)
    show ?case by (cases r) (auto intro: tracks_ret tracks_weaken [OF repair])
  qed (auto simp: expiry_seen_def said_append split: option.splits)
qed

lemma tracks_register:
  "tracks (\<lambda>r h. case r of None \<Rightarrow> True | Some a \<Rightarrow> a = sk_to_string k mint \<and>
      info_registered k so factory controller whitelist t otoken mint h \<and> settler_account k so mint h)
    (register_token k so factory controller whitelist t otoken mint)"
  unfolding register_token_def
proof (rule tracks_lift, goal_cases)
  case cp: (1 cp)
  let ?Q = "\<lambda>r h. case r of None \<Rightarrow> True | Some a \<Rightarrow> a = sk_to_string k mint \<and>
      info_registered k so factory controller whitelist t otoken mint h \<and> settler_account k so mint h"
  let ?ix = "info_ix k cp controller factory whitelist (st_collateral t) otoken mint"
  let ?seen = "expiry_seen so (derive_otoken_info k cp mint) (st_expiry t)"
  have ok: "tracks (\<lambda>r h. P h \<longrightarrow> ?Q r h) (thenE (ensure_settler_otoken_account k so mint) (ret (Some (sk_to_string k mint))))"
    if "\<And>h. P h \<Longrightarrow> info_registered k so factory controller whitelist t otoken mint h" for P
    by (rule tracks_then [OF tracks_settler, where R = "\<lambda>r _. r = Some (sk_to_string k mint)"])
      (auto simp: that ready_parts_append intro: tracks_ret)
  have settled: "tracks (\<lambda>r h. case r of None \<Rightarrow> True | Some a \<Rightarrow> a = sk_to_string k mint \<and> settler_account k so mint h)
      (bindE (tryE (ensure_settler_otoken_account k so mint)) (\<lambda>ata. case ata of
         Inl _ \<Rightarrow> ret None | Inr _ \<Rightarrow> ret (Some (sk_to_string k mint))))"
    by (rule tracks_bind [OF tracks_try [OF tracks_settler grown_hist, OF reads_settler],
          where R = "\<lambda>a r _. case r of None \<Rightarrow> True | Some x \<Rightarrow> (\<exists>u. a = Inr u) \<and> x = sk_to_string k mint"])
      (auto simp: ready_parts_append intro: tracks_ret split: sum.splits option.splits)
  have create: "tracks ?Q (thenE (ocall (so_env so) GetOperator)
         (bindE (tryE (send_ix (so_env so) ?ix)) (\<lambda>sent. case sent of
             Inl _ \<Rightarrow> ret None
           | Inr _ \<Rightarrow> bindE (tryE (ensure_settler_otoken_account k so mint)) (\<lambda>ata. case ata of
               Inl _ \<Rightarrow> ret None | Inr _ \<Rightarrow> ret (Some (sk_to_string k mint))))))"
  proof (rule tracks_then [OF tracks_any [OF grown_hist, OF reads_call]])
    show "tracks ?Q (bindE (tryE (send_ix (so_env so) ?ix)) (\<lambda>sent. case sent of
             Inl _ \<Rightarrow> ret None
           | Inr _ \<Rightarrow> bindE (tryE (ensure_settler_otoken_account k so mint)) (\<lambda>ata. case ata of
               Inl _ \<Rightarrow> ret None | Inr _ \<Rightarrow> ret (Some (sk_to_string k mint)))))"
    proof (rule tracks_bind [OF tracks_try [OF tracks_send grown_hist, OF reads_send],
          where R = "\<lambda>s r h. case r of None \<Rightarrow> True | Some x \<Rightarrow> (\<exists>u. s = Inr u) \<and> x = sk_to_string k mint \<and> settler_account k so mint h"], goal_cases)
      case (1 x)
      show ?case by (cases x) (auto intro: tracks_ret tracks_weaken [OF settled] split: option.splits)
    qed (auto simp: sent_ix_def did_append info_registered_def cp split: sum.splits option.splits)
  qed simp_all
  have matches: "tracks (\<lambda>m h. m \<longrightarrow> ?seen h) (if there then verify_otoken_info_expiry k so (derive_otoken_info k cp mint) (st_expiry t) else ret False)" for there
    by (auto intro: tracks_verify tracks_ret)
  show ?case
  proof (rule tracks_bind [OF tracks_any [OF grown_hist, OF reads_exists], where R = "\<lambda>_. ?Q"], goal_cases)
    case (1 there)
    show ?case
      by (rule tracks_bind [OF matches, where R = "\<lambda>m r h. if m then ?seen h \<longrightarrow> ?Q r h else ?Q r h"])
        (auto simp: expiry_seen_def said_append info_registered_def cp split: if_splits intro!: create ok)
  qed simp_all
qed

lemma obtain_ready:
  "tracks (\<lambda>r h. case r of None \<Rightarrow> True | Some a \<Rightarrow> token_ready k so ids (solana_terms_of u c s) a h)
    (obtain_solana_otoken k so ids u c s)"
proof -
  obtain f ct wl where ids: "ids = (f, ct, wl)" by (cases ids) auto
  let ?t = "solana_terms_of u c s"
  show ?thesis unfolding obtain_solana_otoken_def find_or_create_solana_otoken_def ids prod.case
  proof (rule tracks_lift, rule tracks_lift, goal_cases)
    case (1 otoken mint)
    show ?case
      by (rule tracks_then [OF tracks_create tracks_then [OF tracks_whitelist tracks_register, where Q =
            "\<lambda>r h. case r of None \<Rightarrow> True | Some a \<Rightarrow> a = sk_to_string k mint \<and> mint_whitelisted k so f wl otoken mint h \<and>
              info_registered k so f ct wl ?t otoken mint h \<and> settler_account k so mint h"]])
        (auto simp: ready_parts_append token_ready_def 1 split: option.splits)
  qed
qed

lemma quiet_send: "grows (quiet_le is_transaction) (account_exists env a)"
  unfolding account_exists_def by (intro quiet_rules) simp

lemma spends_send: "spends is_transaction 1 (send_ix env ix)"
  unfolding send_ix_def by (intro spends_quiet_then spends_perform quiet_perform) simp_all

lemma spends_settler: "spends is_transaction 1 (ensure_settler_otoken_account k so mint)"
  unfolding ensure_settler_otoken_account_def Let_def
  by (intro spends_quiet_bind spends_if spends_quiet_then spends_send quiet_send quiet.rules quiet_perform spends_quiet) simp_all

lemma spends_create: "spends is_transaction 1 (create_if_missing k so f t otoken mint)"
  unfolding create_if_missing_def
  by (intro spends_quiet_bind spends_if spends_quiet_then spends_send quiet_send quiet.rules quiet_perform spends_quiet) simp_all

lemma spends_whitelist_missing: "spends is_transaction 1 (whitelist_if_missing k so f wl otoken mint)"
  unfolding whitelist_if_missing_def
  by (intro spends_quiet_bind spends_if spends_quiet_then spends_send quiet_send quiet.rules quiet_perform spends_quiet) simp_all

lemma spends_option:
  "(x = None \<Longrightarrow> spends P k g) \<Longrightarrow> (\<And>y. x = Some y \<Longrightarrow> spends P k (f y)) \<Longrightarrow>
   spends P k (case x of None \<Rightarrow> g | Some y \<Rightarrow> f y)"
  by (cases x) auto

lemma spends_verify: "spends is_transaction 1 (verify_otoken_info_expiry k so info e)"
proof -
  have r: "grows (quiet_le is_transaction) (read_on_chain_expiry (so_env so) info)"
    unfolding read_on_chain_expiry_def by (intro quiet_rules) simp
  show ?thesis unfolding verify_otoken_info_expiry_def
    by (intro spends_quiet_bind [OF r] spends_option spends_if spends_quiet_bind spends_quiet_then spends_then_quiet
        spends_catch_quiet spends_send quiet.rules quiet_perform spends_quiet) simp_all
qed

lemma spends_register: "spends is_transaction 3 (register_token k so f c wl t otoken mint)"
proof -
  have "spends is_transaction (1 + (1 + 1)) (register_token k so f c wl t otoken mint)"
    unfolding register_token_def
  proof (rule spends_quiet_bind [OF quiet.grows_lift], rule spends_quiet_bind [OF quiet_send], rule spends_bind, goal_cases)
    case (1 cp there)
    show ?case by (intro spends_if spends_verify spends_quiet quiet.rules)
  next
    case (2 cp there matches)
    have "spends is_transaction (1 + 1) (thenE (ocall (so_env so) GetOperator)
         (bindE (tryE (send_ix (so_env so) ix)) (\<lambda>sent. case sent of
             Inl _ \<Rightarrow> ret None
           | Inr _ \<Rightarrow> bindE (tryE (ensure_settler_otoken_account k so mint)) (\<lambda>ata. case ata of
               Inl _ \<Rightarrow> ret None | Inr _ \<Rightarrow> ret (Some (sk_to_string k mint))))))" for ix
    proof (rule spends_quiet_then, simp add: quiet_perform, rule spends_bind [OF spends_try [OF spends_send]], goal_cases)
      case (1 x)
      show ?case by (intro spends_sum spends_bind_quiet spends_try spends_settler spends_quiet quiet.rules)
    qed
    moreover have "spends is_transaction (1 + 1) (thenE (ensure_settler_otoken_account k so mint) (ret (Some (sk_to_string k mint))))"
      by (rule spends_le [OF spends_then_quiet [OF spends_settler]]) (intro quiet.rules, simp)
    ultimately show ?case by (intro spends_if)
  qed
  then show ?thesis by (simp add: numeral_3_eq_3)
qed

lemma spends_obtain_solana: "spends is_transaction 5 (obtain_solana_otoken k so ids u c s)"
proof -
  have "spends is_transaction (1 + (1 + 3)) (obtain_solana_otoken k so ids u c s)"
    unfolding obtain_solana_otoken_def find_or_create_solana_otoken_def
    by (intro spends_prod spends_quiet_bind quiet.rules spends_then spends_create spends_whitelist_missing spends_register)
  then show ?thesis by simp
qed

text \<open>The address is that of a token that the history shows to be ready, under the given programs.\<close>

definition ready_address :: "solana_keys \<Rightarrow> solana_settings \<Rightarrow> pubkey \<times> pubkey \<times> pubkey \<Rightarrow> string \<Rightarrow> otk_call list \<Rightarrow> bool" where
  "ready_address k so ids b h \<longleftrightarrow> (\<exists>t. token_ready k so ids t b h)"

lemma ready_address_append: "ready_address k so ids b h \<Longrightarrow> ready_address k so ids b (cs @ h)"
  unfolding ready_address_def by (blast intro: token_ready_append)

interpretation solana: otoken_publisher "\<lambda>_. ret ()" "ret ()" "obtain_solana_otoken k so ids u c"
  "\<lambda>a s. token_ready k so ids (solana_terms_of u c s) a" is_transaction 5 "\<lambda>x. x" "''solana''"
  "ready_address k so ids" for k so ids u c
proof unfold_locales
  show "wp (obtain_solana_otoken k so ids u c s) (\<lambda>r v. case r of None \<Rightarrow> True
      | Some a \<Rightarrow> token_ready k so ids (solana_terms_of u c s) a (calls v)) (\<lambda>_ _. True) w" for s w
    by (rule wp_mono [OF obtain_ready [unfolded tracks_def, rule_format]]) (auto split: option.splits)
  show "grows reads_le (obtain_solana_otoken k so ids u c s)" for s
    unfolding obtain_solana_otoken_def find_or_create_solana_otoken_def register_token_def
    by (intro reads_solana reads_create reads_whitelist_missing reads_settler reads_verify)
  show "token_ready k so ids (solana_terms_of u c s) a h \<Longrightarrow> ready_address k so ids a h" for a s h
    unfolding ready_address_def by blast
qed (simp_all add: token_ready_append ready_address_append spends_obtain_solana reads.grows_ret quiet.grows_ret)

section \<open>Properties\<close>

lemma ensure_solana_form:
  "(\<exists>e. ensure_solana_otokens_exist k so specs a ex = raise e) \<or>
   (\<exists>ids u x c. get_program_ids k so = Inr ids \<and> solana_underlying so a = Inr x \<and> sk_from_string k x = Inr u \<and>
     sk_from_string k (so_usdc_mint so) = Inr c \<and>
     ensure_solana_otokens_exist k so specs a ex =
       ensure_loop (\<lambda>_. ret ()) (ret ()) (obtain_solana_otoken k so ids u c) ex specs)"
proof -
  obtain x where x: "solana_underlying so a = Inr x" using underlying_total by (auto simp: solana_underlying_def)
  show ?thesis
    by (cases "get_program_ids k so"; cases "sk_from_string k x"; cases "sk_from_string k (so_usdc_mint so)")
      (auto simp: ensure_solana_otokens_exist_def x fun_eq_iff run_defs)
qed

text \<open>
  C20: only ready tokens are returned. Every pair that \<open>ensure_solana_otokens_exist\<close> returns is one of
  the given specifications with the address that was passed in for its terms, or with the mint derived
  from exactly these terms, for which the history shows that the token account exists or was created,
  that the mint is whitelisted, that the registered data have this expiry or were written, and that the
  settler's account exists or was created. However the chain fails on the way, the run sends at most
  five transactions for each distinct combination of strike, expiry and type.
\<close>

theorem ensured_solana_tokens_ready:
  "case ensure_solana_otokens_exist k so specs a existing w of
     (r, v) \<Rightarrow> length (filter is_transaction (new_calls w v)) \<le> 5 * card (spec_key ` set specs) \<and>
       (case (r, get_program_ids k so, solana_underlying so a) of
          (Inr pairs, Inr ids, Inr x) \<Rightarrow>
            (case (sk_from_string k x, sk_from_string k (so_usdc_mint so)) of
               (Inr u, Inr c) \<Rightarrow> list_all (\<lambda>(b, s). elem s specs \<and>
                  (map_of existing (spec_key s) = Some b \<or> token_ready k so ids (solana_terms_of u c s) b (calls v))) pairs
             | _ \<Rightarrow> False)
        | (Inl _, _, _) \<Rightarrow> True
        | _ \<Rightarrow> False)"
  using ensure_solana_form [of k so specs a existing]
proof (elim disjE exE conjE)
  fix e assume "ensure_solana_otokens_exist k so specs a existing = raise e"
  then show ?thesis by (simp add: run_defs new_calls_def)
next
  fix ids u x c
  assume i: "get_program_ids k so = Inr ids" "solana_underlying so a = Inr x" "sk_from_string k x = Inr u"
    "sk_from_string k (so_usdc_mint so) = Inr c"
    and e: "ensure_solana_otokens_exist k so specs a existing =
       ensure_loop (\<lambda>_. ret ()) (ret ()) (obtain_solana_otoken k so ids u c) existing specs"
  have "wp (ensure_loop (\<lambda>_. ret ()) (ret ()) (obtain_solana_otoken k so ids u c) existing specs)
      (\<lambda>pairs v. list_all (\<lambda>(b, s). elem s specs \<and>
         (map_of existing (spec_key s) = Some b \<or> token_ready k so ids (solana_terms_of u c s) b (calls v))) pairs)
      (\<lambda>_ _. True) w"
    by (rule wp_mono [OF solana.ensure_found [where ids = ids and u = u and c = c]])
      (auto simp: list_all_iff solana.found_def)
  then show ?thesis
    using spends_new_calls [OF solana.spends_ensure [where k = k and so = so and ids = ids and u = u and c = c and existing = existing and specs = specs], of w] i
    by (auto simp: e wp_def split: prod.splits sum.splits)
qed

section \<open>Cycles\<close>

abbreviation ready_table :: "solana_keys \<Rightarrow> solana_settings \<Rightarrow> pubkey \<times> pubkey \<times> pubkey \<Rightarrow> avail_row list \<Rightarrow> string list \<Rightarrow> otk_world \<Rightarrow> bool" where
  "ready_table k so ids T K w \<equiv> list_all (backed (ready_address k so ids) (\<lambda>x. x) ''solana'' T K (calls w)) (ow_available w)"

definition solana_addresses :: "avail_row list \<Rightarrow> string list" where
  "solana_addresses T = map av_address T"

lemma load_known_solana:
  assumes "ready_table k so ids T (solana_addresses T) v"
  shows "wp (load_existing_solana_otokens_for_specs so specs a)
    (\<lambda>ex x. solana.known_addresses k so ids (solana_addresses T) x ex \<and> reads_le v x) (\<lambda>_ x. reads_le v x) v"
proof -
  have known: "solana.known_addresses k so ids (solana_addresses T) x (existing_by_key (\<lambda>x. x) y specs (filter P (ow_available v)))"
    if "reads_le v x" for x y P
    unfolding solana.known_addresses_def
  proof (intro allI impI)
    fix q b assume "map_of (existing_by_key (\<lambda>x. x) y specs (filter P (ow_available v))) q = Some b"
    then obtain r where r: "r \<in> set (ow_available v)" "b = av_address r"
      by (rule existing_by_key_sound) (use that in auto)
    with assms that show "b = b \<and> (elem b (solana_addresses T) \<or> ready_address k so ids b (calls x))"
      by (auto simp: list_all_iff backed_def solana_addresses_def reads_le_def hist_le_def ready_address_append)
  qed
  have r: "grows reads_le (load_existing_solana_otokens_for_specs so specs a)"
    unfolding load_existing_solana_otokens_for_specs_def read_existing_def by (intro reads_rules)
  have "wp (load_existing_solana_otokens_for_specs so specs a) (\<lambda>ex _. ex = [] \<or>
      (\<exists>y P. ex = existing_by_key (\<lambda>x. x) y specs (filter P (ow_available v)))) (\<lambda>_ _. True) v"
    by (auto simp: load_existing_solana_otokens_for_specs_def read_existing_def wps split: option.split sum.split)
  from wp_conj [OF this reads.wp_le [OF r reads.le_refl]] show ?thesis
  proof (rule wp_mono, goal_cases)
    case (1 ex x)
    moreover have "solana.known_addresses k so ids (solana_addresses T) x []" by (simp add: solana.known_addresses_def)
    ultimately show ?case by (elim conjE disjE exE) (simp_all add: known)
  qed simp
qed

lemma wp_upsert_solana:
  assumes t: "ready_table k so ids T K v"
    and p: "\<And>b s i. (b, s) \<in> set paired \<Longrightarrow> backed (ready_address k so ids) (\<lambda>x. x) ''solana'' T K (calls v)
      ((token_row (\<lambda>x. x) (projr (solana_underlying so a)) (so_usdc_mint so) ''solana'' (b, s))\<lparr>av_id := i\<rparr>)"
  shows "wp (upsert_solana_otokens so paired a) (\<lambda>_. ready_table k so ids T K) (\<lambda>_. ready_table k so ids T K) v"
proof -
  let ?row = "token_row (\<lambda>x. x) (projr (solana_underlying so a)) (so_usdc_mint so) ''solana''"
  let ?B = "backed (ready_address k so ids) (\<lambda>x. x) ''solana'' T K (UpsertAvailable # calls v)"
  have mono: "?B r" if "backed (ready_address k so ids) (\<lambda>x. x) ''solana'' T K (calls v) r" for r
    using that ready_address_append [of k so ids _ "calls v" "[UpsertAvailable]"] by (auto simp: backed_def)
  have old: "list_all ?B (ow_available v)" using t by (auto simp: list_all_iff intro: mono)
  have "list_all ?B (upsert_all av_address put_available (number_available ns (map ?row (distinct_addresses (\<lambda>x. x) [] paired))) (ow_available v))" for ns
  proof (rule backed_upsert [OF old])
    fix r i assume "r \<in> set (map ?row (distinct_addresses (\<lambda>x. x) [] paired))"
    then obtain b s where "(b, s) \<in> set paired" "r = ?row (b, s)"
      using distinct_addresses_props(1) [of "\<lambda>x. x" "[]"] by fastforce
    then show "?B (r\<lparr>av_id := i\<rparr>)" by (auto intro: mono p)
  qed
  with old t show ?thesis
    by (auto simp: upsert_solana_otokens_def upsert_available_def wps split: option.split sum.split)
qed

lemma wp_publish_solana:
  assumes ids: "get_program_ids k so = Inr ids" and t: "ready_table k so ids T K w"
    and K: "K = solana_addresses T \<or> (ow_cycle w + 1) mod SOLANA_FULL_RECONCILE_EVERY_CYCLES = 1"
  shows "wp (publish_solana_once k so) (\<lambda>_. ready_table k so ids T K) (\<lambda>_. ready_table k so ids T K) w"
proof -
  let ?full = "(ow_cycle w + 1) mod SOLANA_FULL_RECONCILE_EVERY_CYCLES = 1"
  let ?body = "publish_asset (so_env so) (solana_custom_expiries (so_env so)) ?full
        (load_existing_solana_otokens_for_specs so) (ensure_solana_otokens_exist k so) (upsert_solana_otokens so)"
  have asset: "wp (?body a) (\<lambda>_. ready_table k so ids T K) (\<lambda>_. ready_table k so ids T K) v" if "ready_table k so ids T K v" for a v
  proof (rule solana.wp_publish_asset [where U = "\<lambda>a. projr (solana_underlying so a)" and C = "\<lambda>_. so_usdc_mint so"
        and u = "projr (sk_from_string k (projr (solana_underlying so a)))" and c = "projr (sk_from_string k (so_usdc_mint so))",
        OF _ _ _ that])
    show "(\<exists>e. ensure_solana_otokens_exist k so specs a ex = raise e) \<or>
      ensure_solana_otokens_exist k so specs a ex = ensure_loop (\<lambda>_. ret ()) (ret ())
        (obtain_solana_otoken k so ids (projr (sk_from_string k (projr (solana_underlying so a)))) (projr (sk_from_string k (so_usdc_mint so)))) ex specs"
      for specs ex
      using ensure_solana_form [of k so specs a ex] ids by auto
    fix specs u assume "\<not> ?full" "ready_table k so ids T K u"
    with K show "wp (load_existing_solana_otokens_for_specs so specs a) (\<lambda>ex x. solana.known_addresses k so ids K x ex \<and> reads_le u x)
        (\<lambda>_ x. reads_le u x) u"
      using load_known_solana [of k so ids T u specs a] by blast
  qed (rule wp_upsert_solana)
  have "wp (for_each ?body get_solana_assets) (\<lambda>_. ready_table k so ids T K) (\<lambda>_. ready_table k so ids T K) v"
    if "ready_table k so ids T K v" for v
    by (rule wp_for_each [where I = "ready_table k so ids T K"]) (rule that, rule asset)
  moreover have "ready_table k so ids T K (w\<lparr>ow_cycle := ow_cycle w + 1\<rparr>)" using t by simp
  ultimately show ?thesis by (simp add: publish_solana_once_def next_cycle_def wps)
qed

fun solana_manager_rounds :: "solana_keys \<Rightarrow> solana_settings \<Rightarrow> nat \<Rightarrow> unit opy" where
  "solana_manager_rounds k so 0 = ret ()"
| "solana_manager_rounds k so (Suc n) = thenE (solana_manager_round k so) (solana_manager_rounds k so n)"

lemma wp_solana_round:
  assumes "get_program_ids k so = Inr ids" "ready_table k so ids T (solana_addresses T) w"
  shows "wp (solana_manager_round k so) (\<lambda>_. ready_table k so ids T (solana_addresses T)) (\<lambda>_. ready_table k so ids T (solana_addresses T)) w"
proof -
  let ?I = "ready_table k so ids T (solana_addresses T)"
  have p: "wp (ocall (so_env so) c) (\<lambda>_. ?I) (\<lambda>_. ?I) v" if "?I v" for c v
    by (rule wp_mono [OF solana.wp_reads [OF reads_call that]]) auto
  have "wp (catchE (publish_solana_once k so) (\<lambda>_. ret ())) (\<lambda>_. ?I) (\<lambda>_. ?I) w"
    unfolding wp_catch by (rule wp_mono [OF wp_publish_solana [OF assms]]) (simp_all add: wps)
  then show ?thesis unfolding solana_manager_round_def wp_then by (rule wp_mono) (simp_all add: p)
qed

text \<open>
  C19: what the manager publishes is ready. When the three program ids can be parsed, over any number
  of rounds, whatever fails, every row of the table is a row of the beginning or a Solana row that
  expires at 08:00 and whose address was in the table at the beginning or is that of a token that the
  history shows to be created, whitelisted, registered and open to the settler. In every twelfth cycle
  the addresses of the table do not count: every new row has such a token. The bot never prunes.
\<close>

theorem published_solana_tokens_ready:
  "case get_program_ids k so of
     Inl _ \<Rightarrow> True
   | Inr ids \<Rightarrow>
       (case solana_manager_rounds k so n w of (_, v) \<Rightarrow>
          list_all (backed (ready_address k so ids) (\<lambda>x. x) ''solana'' (ow_available w) (solana_addresses (ow_available w)) (calls v)) (ow_available v)) \<and>
       (case publish_solana_once k so w of (_, v) \<Rightarrow>
          list_all (backed (ready_address k so ids) (\<lambda>x. x) ''solana'' (ow_available w)
            (if (ow_cycle w + 1) mod SOLANA_FULL_RECONCILE_EVERY_CYCLES = 1 then [] else solana_addresses (ow_available w))
            (calls v)) (ow_available v))"
proof (cases "get_program_ids k so")
  case (Inr ids)
  let ?T = "ow_available w" and ?A = "solana_addresses (ow_available w)"
  let ?K = "if (ow_cycle w + 1) mod SOLANA_FULL_RECONCILE_EVERY_CYCLES = 1 then [] else ?A"
  have "wp (solana_manager_rounds k so n) (\<lambda>_. ready_table k so ids ?T ?A) (\<lambda>_. ready_table k so ids ?T ?A) v"
    if "ready_table k so ids ?T ?A v" for v
    using that
  proof (induction n arbitrary: v)
    case (Suc n)
    show ?case unfolding solana_manager_rounds.simps wp_then
      by (rule wp_mono [OF wp_solana_round [OF Inr Suc.prems]]) (simp_all add: Suc.IH)
  qed (simp add: wps)
  then have "wp (solana_manager_rounds k so n) (\<lambda>_. ready_table k so ids ?T ?A) (\<lambda>_. ready_table k so ids ?T ?A) w"
    by (simp add: backed_refl)
  moreover have "wp (publish_solana_once k so) (\<lambda>_. ready_table k so ids ?T ?K) (\<lambda>_. ready_table k so ids ?T ?K) w"
    by (rule wp_publish_solana [OF Inr]) (simp_all add: backed_refl)
  ultimately show ?thesis
    by (simp add: Inr wp_def split: prod.splits sum.splits)
qed simp

text \<open>
  A setting of custom expiries that holds only separators is an empty list here, so that nothing is
  published, where the Base manager falls back to the default expiries.
\<close>

lemma separators_publish_nothing_on_solana:
  "solana_custom_expiries (demo_otk_env\<lparr>oe_custom_expiries := '',''\<rparr>) = Some [] \<and>
   parse_custom_expiries (demo_otk_env\<lparr>oe_custom_expiries := '',''\<rparr>) = None"
  by code_simp

end
