(* ===== verification/Solana_Orders.thy ===== *)
theory Solana_Orders
  imports Solana_Otoken_Manager
begin

text \<open>
  The Solana rows of \<open>order_events\<close> and the program logs they come from: \<open>base64.b64decode\<close> of the
  standard library, the two Anchor events that \<open>src/bots/solana_event_indexer.py\<close> decodes, and the
  reading of a transaction's log.
\<close>

section \<open>Base64\<close>

definition b64_alphabet :: string where
  "b64_alphabet = ''ABCDEFGHIJKLMNOPQRSTUVWXYZabcdefghijklmnopqrstuvwxyz0123456789+/''"

definition b64_char :: "nat \<Rightarrow> char" where "b64_char n = b64_alphabet ! n"

definition b64_value :: "char \<Rightarrow> nat option" where
  "b64_value c = (let n = length (takeWhile (\<lambda>x. x \<noteq> c) b64_alphabet) in if n < 64 then Some n else None)"

text \<open>
  The loop of \<open>binascii.a2b_base64\<close>: position in the quadruple, bits left over, padding characters
  seen. Other characters are ignored, a complete padding ends the input; \<open>None\<close> is \<open>binascii.Error\<close>.
\<close>

fun a2b_base64 :: "nat \<Rightarrow> nat \<Rightarrow> nat \<Rightarrow> string \<Rightarrow> byte list option" where
  "a2b_base64 q left_bits pads [] = (if q = 0 then Some [] else None)"
| "a2b_base64 q left_bits pads (c # cs) =
     (if c = CHR ''='' then
        (if 2 \<le> q then
           (if 4 \<le> q + Suc pads then Some [] else a2b_base64 q left_bits (Suc pads) cs)
         else a2b_base64 q left_bits pads cs)
      else (case b64_value c of
              None \<Rightarrow> a2b_base64 q left_bits pads cs
            | Some v \<Rightarrow>
                if q = 0 then a2b_base64 1 v 0 cs
                else if q = 1 then map_option ((#) (of_nat (left_bits * 4 + v div 16))) (a2b_base64 2 (v mod 16) 0 cs)
                else if q = 2 then map_option ((#) (of_nat (left_bits * 16 + v div 4))) (a2b_base64 3 (v mod 4) 0 cs)
                else map_option ((#) (of_nat (left_bits * 64 + v))) (a2b_base64 0 0 0 cs)))"

definition b64decode :: "string \<Rightarrow> exn + byte list" where
  "b64decode s =
     (if \<not> list_all (\<lambda>c. (of_char c :: nat) < 128) s then
        Inl (ValueError ''string argument should contain only ASCII characters'')
      else (case a2b_base64 0 0 0 s of None \<Rightarrow> Inl (ValueError ''Incorrect padding'') | Some bs \<Rightarrow> Inr bs))"

text \<open>The standard encoding, which chains use for log data.\<close>

fun b64encode :: "byte list \<Rightarrow> string" where
  "b64encode [] = []"
| "b64encode [a] = [b64_char (unat a div 4), b64_char (unat a mod 4 * 16), CHR ''='', CHR ''='']"
| "b64encode [a, b] =
     [b64_char (unat a div 4), b64_char (unat a mod 4 * 16 + unat b div 16), b64_char (unat b mod 16 * 4), CHR ''='']"
| "b64encode (a # b # c # bs) =
     [b64_char (unat a div 4), b64_char (unat a mod 4 * 16 + unat b div 16),
      b64_char (unat b mod 16 * 4 + unat c div 64), b64_char (unat c mod 64)] @ b64encode bs"

lemma b64_char_table:
  "list_all (\<lambda>n. b64_value (b64_char n) = Some n \<and> b64_char n \<noteq> CHR ''='' \<and> \<not> is_space (b64_char n) \<and>
     (of_char (b64_char n) :: nat) < 128) [0..<64]"
  by code_simp

lemma b64_char_props [simp]:
  assumes "n < 64"
  shows "b64_value (b64_char n) = Some n" "b64_char n \<noteq> CHR ''=''" "\<not> is_space (b64_char n)"
    "(of_char (b64_char n) :: nat) < 128"
  using b64_char_table assms by (auto simp: list_all_iff)

lemma unat_byte: "unat (a :: byte) < 256"
  using unsigned_less [of a] by simp

lemma b64_digits [simp]:
  fixes a b c :: byte
  shows "unat a div 4 < 64" "unat a mod 4 * 16 < 64" "unat a mod 4 * 16 + unat b div 16 < 64"
    "unat b mod 16 * 4 < 64" "unat b mod 16 * 4 + unat c div 64 < 64" "unat c mod 64 < 64"
  using unat_byte [of a] unat_byte [of b] unat_byte [of c] by (auto simp: less_mult_imp_div_less)

lemma a2b_b64encode: "a2b_base64 0 0 0 (b64encode bs) = Some bs"
proof -
  have small: "unat a div 16 div 16 = 0" "unat a div 16 mod 16 = unat a div 16" "unat a div 64 div 4 = 0"
    "unat a div 64 mod 4 = unat a div 64" for a :: byte
    using unat_byte [of a] by auto
  show ?thesis
    by (induction bs rule: b64encode.induct) (simp_all add: small)
qed

lemma b64encode_chars: "list_all (\<lambda>c. \<not> is_space c \<and> (of_char c :: nat) < 128) (b64encode bs)"
proof -
  have "\<not> is_space CHR ''=''" "(of_char CHR ''='' :: nat) < 128" by code_simp+
  then show ?thesis by (induction bs rule: b64encode.induct) simp_all
qed

lemma b64decode_encode [simp]: "b64decode (b64encode bs) = Inr bs"
  using b64encode_chars [of bs] by (auto simp: b64decode_def a2b_b64encode list_all_iff)

section \<open>Events\<close>

definition EXECUTE_ORDER_DISC :: "byte list" where "EXECUTE_ORDER_DISC = [74, 135, 231, 5, 168, 106, 194, 117]"
definition DEPOSIT_COLLATERAL_DISC :: "byte list" where "DEPOSIT_COLLATERAL_DISC = [244, 62, 77, 11, 135, 112, 61, 96]"

text \<open>\<open>struct.unpack_from("<Q", data, off)\<close> on data that are long enough.\<close>

definition read_u64 :: "byte list \<Rightarrow> nat \<Rightarrow> int" where
  "read_u64 d off = int (from_bytes_le (slice off (off + 8) d))"

record execute_event =
  xe_user :: string
  xe_mm :: string
  xe_otoken :: string
  xe_amount :: int
  xe_gross_premium :: int
  xe_net_premium :: int
  xe_protocol_fee :: int

definition decode_execute_event :: "solana_keys \<Rightarrow> string \<Rightarrow> exn + execute_event option" where
  "decode_execute_event k data_b64 =
     (case b64decode data_b64 of
        Inl e \<Rightarrow> Inl e
      | Inr raw \<Rightarrow>
          if length raw \<noteq> 136 \<or> take 8 raw \<noteq> EXECUTE_ORDER_DISC then Inr None
          else
            (let gross_premium = read_u64 raw 112; protocol_fee = read_u64 raw 120 in
             Inr (Some \<lparr>xe_user = sk_to_string k (slice 8 40 raw), xe_mm = sk_to_string k (slice 40 72 raw),
               xe_otoken = sk_to_string k (slice 72 104 raw), xe_amount = read_u64 raw 104,
               xe_gross_premium = gross_premium, xe_net_premium = max (gross_premium - protocol_fee) 0,
               xe_protocol_fee = protocol_fee\<rparr>)))"

definition decode_deposit_collateral_event :: "string \<Rightarrow> exn + (int \<times> int) option" where
  "decode_deposit_collateral_event data_b64 =
     (case b64decode data_b64 of
        Inl e \<Rightarrow> Inl e
      | Inr raw \<Rightarrow>
          if length raw \<noteq> 88 \<or> take 8 raw \<noteq> DEPOSIT_COLLATERAL_DISC then Inr None
          else Inr (Some (read_u64 raw 40, read_u64 raw 80)))"

text \<open>The loop over the log lines, with the last event of either kind.\<close>

type_synonym log_state = "execute_event option \<times> (int \<times> int) option"

definition PROGRAM_DATA :: string where "PROGRAM_DATA = ''Program data: ''"

fun parse_lines :: "solana_keys \<Rightarrow> log_state \<Rightarrow> string list \<Rightarrow> exn + log_state" where
  "parse_lines k st [] = Inr st"
| "parse_lines k st (line # rest) =
     (if \<not> starts_with line PROGRAM_DATA then parse_lines k st rest
      else
        (let payload = strip (drop (length PROGRAM_DATA) line) in
         case decode_execute_event k payload of
           Inl e \<Rightarrow> Inl e
         | Inr (Some ev) \<Rightarrow> parse_lines k (Some ev, snd st) rest
         | Inr None \<Rightarrow>
             (case decode_deposit_collateral_event payload of
                Inl e \<Rightarrow> Inl e
              | Inr (Some d) \<Rightarrow> parse_lines k (fst st, Some d) rest
              | Inr None \<Rightarrow> parse_lines k st rest)))"

definition parse_log_payloads :: "solana_keys \<Rightarrow> string list \<Rightarrow> exn + (execute_event \<times> int \<times> int) option" where
  "parse_log_payloads k logs =
     (case parse_lines k (None, None) logs of
        Inl e \<Rightarrow> Inl e
      | Inr (Some ev, Some d) \<Rightarrow> Inr (Some (ev, d))
      | Inr _ \<Rightarrow> Inr None)"

section \<open>Rows\<close>

text \<open>
  A row of \<open>order_events\<close>; the settlement columns, from \<open>sr_is_settled\<close> on, belong to the settler. The
  strike is a decimal number, in dollars or in units of 1e-8 dollars.
\<close>

record sol_order =
  sr_tx :: string
  sr_slot :: int
  sr_log_index :: int
  sr_chain :: string
  sr_indexed_at :: int
  sr_user :: string
  sr_mm :: "string option"
  sr_otoken :: string
  sr_amount :: int
  sr_premium :: int
  sr_gross_premium :: int
  sr_net_premium :: int
  sr_protocol_fee :: int
  sr_vault :: int
  sr_collateral :: int
  sr_strike :: "rat option"
  sr_expiry :: "int option"
  sr_is_put :: "bool option"
  sr_asset :: "string option"
  sr_is_settled :: "bool option"
  sr_settled_at :: "int option"
  sr_settlement_tx :: "string option"
  sr_settlement_type :: "string option"
  sr_is_itm :: "bool option"
  sr_expiry_price :: "int option"
  sr_delivered_asset :: "string option"
  sr_delivered_amount :: "int option"
  sr_delivery_tx :: "string option"

section \<open>What a program writes\<close>

text \<open>The log of a transaction as the programs write it: their two events, other events and other lines.\<close>

record order_data =
  od_user :: pubkey
  od_mm :: pubkey
  od_otoken :: pubkey
  od_amount :: nat
  od_gross :: nat
  od_fee :: nat
  od_rest :: "byte list"

record deposit_data =
  dd_owner :: pubkey
  dd_vault :: nat
  dd_mint :: pubkey
  dd_collateral :: nat

datatype log_entry = Line string | OrderExecuted order_data | CollateralDeposited deposit_data | OtherEvent "byte list"

definition order_bytes :: "order_data \<Rightarrow> byte list" where
  "order_bytes d = EXECUTE_ORDER_DISC @ od_user d @ od_mm d @ od_otoken d @ to_bytes_le 8 (od_amount d) @
     to_bytes_le 8 (od_gross d) @ to_bytes_le 8 (od_fee d) @ od_rest d"

definition deposit_bytes :: "deposit_data \<Rightarrow> byte list" where
  "deposit_bytes d = DEPOSIT_COLLATERAL_DISC @ dd_owner d @ to_bytes_le 8 (dd_vault d) @ dd_mint d @
     to_bytes_le 8 (dd_collateral d)"

fun log_line :: "log_entry \<Rightarrow> string" where
  "log_line (Line s) = s"
| "log_line (OrderExecuted d) = PROGRAM_DATA @ b64encode (order_bytes d)"
| "log_line (CollateralDeposited d) = PROGRAM_DATA @ b64encode (deposit_bytes d)"
| "log_line (OtherEvent bs) = PROGRAM_DATA @ b64encode bs"

fun well_formed_entry :: "log_entry \<Rightarrow> bool" where
  "well_formed_entry (Line s) \<longleftrightarrow> \<not> starts_with s PROGRAM_DATA"
| "well_formed_entry (OrderExecuted d) \<longleftrightarrow> length (od_user d) = 32 \<and> length (od_mm d) = 32 \<and> length (od_otoken d) = 32 \<and>
     od_amount d < 2 ^ 64 \<and> od_gross d < 2 ^ 64 \<and> od_fee d < 2 ^ 64 \<and> length (od_rest d) = 8"
| "well_formed_entry (CollateralDeposited d) \<longleftrightarrow> length (dd_owner d) = 32 \<and> length (dd_mint d) = 32 \<and>
     dd_vault d < 2 ^ 64 \<and> dd_collateral d < 2 ^ 64"
| "well_formed_entry (OtherEvent bs) \<longleftrightarrow> take 8 bs \<noteq> EXECUTE_ORDER_DISC \<and> take 8 bs \<noteq> DEPOSIT_COLLATERAL_DISC"

definition order_event_of :: "solana_keys \<Rightarrow> order_data \<Rightarrow> execute_event" where
  "order_event_of k d = \<lparr>xe_user = sk_to_string k (od_user d), xe_mm = sk_to_string k (od_mm d),
     xe_otoken = sk_to_string k (od_otoken d), xe_amount = int (od_amount d), xe_gross_premium = int (od_gross d),
     xe_net_premium = max (int (od_gross d) - int (od_fee d)) 0, xe_protocol_fee = int (od_fee d)\<rparr>"

text \<open>The last order and the last deposit of a log.\<close>

fun last_order :: "solana_keys \<Rightarrow> execute_event option \<Rightarrow> log_entry list \<Rightarrow> execute_event option" where
  "last_order k ev [] = ev"
| "last_order k ev (OrderExecuted d # es) = last_order k (Some (order_event_of k d)) es"
| "last_order k ev (_ # es) = last_order k ev es"

fun last_deposit :: "(int \<times> int) option \<Rightarrow> log_entry list \<Rightarrow> (int \<times> int) option" where
  "last_deposit d [] = d"
| "last_deposit d (CollateralDeposited c # es) = last_deposit (Some (int (dd_vault c), int (dd_collateral c))) es"
| "last_deposit d (_ # es) = last_deposit d es"

lemma strip_unspaced: "list_all (\<lambda>c. \<not> is_space c) s \<Longrightarrow> strip s = s"
proof -
  have dw: "list_all (\<lambda>c. \<not> is_space c) t \<Longrightarrow> dropWhile is_space t = t" for t by (cases t) auto
  then show "list_all (\<lambda>c. \<not> is_space c) s \<Longrightarrow> strip s = s" by (simp add: strip_def)
qed

lemma strip_b64: "strip (b64encode bs) = b64encode bs"
  using b64encode_chars [of bs] by (intro strip_unspaced) (auto simp: list_all_iff)

lemma discs_differ: "EXECUTE_ORDER_DISC \<noteq> DEPOSIT_COLLATERAL_DISC" "length EXECUTE_ORDER_DISC = 8" "length DEPOSIT_COLLATERAL_DISC = 8"
  by (simp_all add: EXECUTE_ORDER_DISC_def DEPOSIT_COLLATERAL_DISC_def)

lemma slice_append:
  "i = length xs \<Longrightarrow> j = i + length ys \<Longrightarrow> slice i j (xs @ ys @ zs) = ys"
  by (simp add: slice_def)

lemma slice_later: "length xs \<le> i \<Longrightarrow> slice i j (xs @ ys) = slice (i - length xs) (j - length xs) ys"
  by (simp add: slice_def)

lemma slice_first: "j = length xs \<Longrightarrow> slice 0 j (xs @ ys) = xs" "j = length xs \<Longrightarrow> slice 0 j xs = xs"
  by (simp_all add: slice_def)

lemma from_to_u64: "n < 2 ^ 64 \<Longrightarrow> from_bytes_le (to_bytes_le 8 n) = n"
  by (rule from_to_bytes_le) simp

lemma decode_order_bytes:
  assumes "well_formed_entry (OrderExecuted d)"
  shows "decode_execute_event k (b64encode (order_bytes d)) = Inr (Some (order_event_of k d))"
  using assms discs_differ(2)
  by (simp add: decode_execute_event_def order_bytes_def order_event_of_def Let_def read_u64_def slice_later slice_first from_to_u64)

lemma decode_deposit_bytes:
  assumes "well_formed_entry (CollateralDeposited d)"
  shows "decode_execute_event k (b64encode (deposit_bytes d)) = Inr None"
    "decode_deposit_collateral_event (b64encode (deposit_bytes d)) = Inr (Some (int (dd_vault d), int (dd_collateral d)))"
  using assms discs_differ
  by (simp_all add: decode_execute_event_def decode_deposit_collateral_event_def deposit_bytes_def read_u64_def slice_later
      slice_first from_to_u64)

lemma decode_other:
  assumes "well_formed_entry (OtherEvent bs)"
  shows "decode_execute_event k (b64encode bs) = Inr None" "decode_deposit_collateral_event (b64encode bs) = Inr None"
  using assms by (simp_all add: decode_execute_event_def decode_deposit_collateral_event_def)

lemma parse_lines_entries:
  "list_all well_formed_entry es \<Longrightarrow> parse_lines k (ev, d) (map log_line es) = Inr (last_order k ev es, last_deposit d es)"
proof (induction es arbitrary: ev d)
  case (Cons e es)
  then have w: "well_formed_entry e" and ih: "parse_lines k (ev, d) (map log_line es) = Inr (last_order k ev es, last_deposit d es)" for ev d
    by simp_all
  show ?case
    using w by (cases e) (simp_all add: ih strip_b64 decode_order_bytes decode_deposit_bytes decode_other del: well_formed_entry.simps(2-4))
qed simp

text \<open>
  C14: reading inverts writing. From the log of a transaction, whatever other lines and events it
  holds, the indexer reads exactly the last order, with its parties, amounts and premiums, and the vault and
  collateral of the last deposit; a log without an order or without a deposit gives nothing.
\<close>

theorem parsed_log_is_written_log:
  assumes "list_all well_formed_entry es"
  shows "parse_log_payloads k (map log_line es) =
    Inr (case (last_order k None es, last_deposit None es) of (Some ev, Some d) \<Rightarrow> Some (ev, d) | _ \<Rightarrow> None)"
  using parse_lines_entries [OF assms, of k None None] by (simp add: parse_log_payloads_def split: option.split)

text \<open>A transaction with two orders: the first one is lost, the second may get the vault of either.\<close>

lemma first_order_of_two_lost:
  assumes "list_all well_formed_entry [OrderExecuted a, CollateralDeposited c, OrderExecuted b]"
  shows "parse_log_payloads k (map log_line [OrderExecuted a, CollateralDeposited c, OrderExecuted b]) =
    Inr (Some (order_event_of k b, int (dd_vault c), int (dd_collateral c)))"
  using parse_lines_entries [OF assms, of k None None] by (simp add: parse_log_payloads_def)

definition demo_order :: "nat \<Rightarrow> order_data" where
  "demo_order n = \<lparr>od_user = replicate 32 1, od_mm = replicate 32 2, od_otoken = replicate 32 3, od_amount = n,
     od_gross = 50, od_fee = 2, od_rest = replicate 8 0\<rparr>"

definition demo_deposit :: "nat \<Rightarrow> deposit_data" where
  "demo_deposit v = \<lparr>dd_owner = replicate 32 4, dd_vault = v, dd_mint = replicate 32 5, dd_collateral = 700\<rparr>"

definition demo_keys :: solana_keys where
  "demo_keys = \<lparr>sk_from_string = \<lambda>s. if length s = 32 then Inr (map of_char s) else Inl (ValueError ''invalid public key''),
     sk_to_string = map (\<lambda>b. char_of (unat b)), sk_find_program_address = \<lambda>seeds program. take 32 (concat seeds @ program @ replicate 32 0),
     sk_associated_token_address = \<lambda>owner mint. take 32 (9 # owner), sk_create_ata = \<lambda>payer owner mint. \<lparr>ix_program = [], ix_data = mint, ix_accounts = []\<rparr>,
     sk_operator = replicate 32 7, sk_token_program = replicate 32 8\<rparr>"

theorem parsed_log_is_written_log_witness:
  "parse_log_payloads demo_keys (map log_line [Line ''Program log: hi'', CollateralDeposited (demo_deposit 5), OrderExecuted (demo_order 9)]) =
     Inr (Some (order_event_of demo_keys (demo_order 9), 5, 700))"
  using parsed_log_is_written_log [of "[Line ''Program log: hi'', CollateralDeposited (demo_deposit 5), OrderExecuted (demo_order 9)]" demo_keys]
  by (simp add: demo_order_def demo_deposit_def PROGRAM_DATA_def)

end
