(* ===== verification/Solana_Indexer.thy ===== *)
theory Solana_Indexer
  imports Solana_Orders "HOL-Library.Sublist"
begin

text \<open>
  \<open>src/bots/solana_event_indexer.py\<close>: the collection of new signatures page by page, the reading of
  their transactions, the metadata of options with their cache, the storage and the cursor.
\<close>

section \<open>World and environment\<close>

record sig_item =
  sg_signature :: string
  sg_slot :: int
  sg_err :: bool
  sg_status :: "string option"
  sg_time :: "int option"

text \<open>A transaction: whether its execution failed, and its log; missing meta data are an empty log.\<close>

record sol_tx =
  stx_err :: bool
  stx_logs :: "string list"

record sol_meta =
  sm_strike :: "rat option"
  sm_expiry :: "int option"
  sm_is_put :: "bool option"
  sm_asset :: string

datatype index_call =
    GetState | SetState | Signatures "string option" "string option" | Transaction string
  | ReadMetadata string | ReadOtokenInfo pubkey | StoreRows | NotifyMm string | Wait int

text \<open>\<open>xw_state\<close> is the row of \<open>solana_indexer_state\<close> of the program: last signature and slot.\<close>

record index_world = "index_call hist" +
  xw_orders :: "sol_order list"
  xw_state :: "(string option \<times> int) option"
  xw_available :: "avail_row list"
  xw_meta :: "(string \<times> sol_meta) list"

record index_env =
  xv_fails :: "index_call list \<Rightarrow> exn option"
  xv_now :: "index_call list \<Rightarrow> int"
  xv_page :: "index_call list \<Rightarrow> sig_item list"
  xv_tx :: "index_call list \<Rightarrow> sol_tx option"
  xv_account :: "index_call list \<Rightarrow> byte list option"
  xv_keys :: solana_keys
  xv_controller :: string
  xv_addresses :: address_settings
  xv_interval :: int

type_synonym 'a ipy = "(index_world, 'a) py"

abbreviation icall :: "index_env \<Rightarrow> index_call \<Rightarrow> unit ipy" where
  "icall env c \<equiv> perform (xv_fails env) c"

definition iread :: "index_env \<Rightarrow> index_call \<Rightarrow> (index_call list \<Rightarrow> 'a) \<Rightarrow> 'a ipy" where
  "iread env c f = thenE (icall env c) (getsE (\<lambda>w. f (calls w)))"

lemma wp_iread [wps]:
  "wp (iread env c f) Q E w =
   (case xv_fails env (c # calls w) of
      Some e \<Rightarrow> E e (w\<lparr>calls := c # calls w\<rparr>)
    | None \<Rightarrow> Q (f (c # calls w)) (w\<lparr>calls := c # calls w\<rparr>))"
  by (simp add: iread_def wps split: option.split)

section \<open>Cursor and signatures\<close>

definition PAGE_LIMIT :: nat where "PAGE_LIMIT = 100"

definition utc_day_start_ts :: "int \<Rightarrow> int" where
  "utc_day_start_ts now = (let t = now div 1000000 in t - t mod 86400)"

definition get_state :: "index_env \<Rightarrow> (string option \<times> int) option ipy" where
  "get_state env = thenE (icall env GetState) (getsE xw_state)"

definition set_state :: "index_env \<Rightarrow> string \<Rightarrow> int \<Rightarrow> unit ipy" where
  "set_state env last_signature last_slot =
     thenE (icall env SetState) (modifyE (\<lambda>w. w\<lparr>xw_state := Some (Some last_signature, last_slot)\<rparr>))"

text \<open>An empty string counts as no signature.\<close>

definition fetch_signatures_page :: "index_env \<Rightarrow> string option \<Rightarrow> string option \<Rightarrow> sig_item list ipy" where
  "fetch_signatures_page env before until =
     iread env (Signatures (if truthy before then before else None) (if truthy until then until else None)) (xv_page env)"

definition accepted_item :: "sig_item \<Rightarrow> bool" where
  "accepted_item i \<longleftrightarrow> \<not> sg_err i \<and> elem (sg_status i) [None, Some ''confirmed'', Some ''finalized'']"

text \<open>The items of a page that are collected, and whether an item is too old.\<close>

fun scan_page :: "int option \<Rightarrow> sig_item list \<Rightarrow> sig_item list \<times> bool" where
  "scan_page min_time [] = ([], False)"
| "scan_page min_time (i # page) =
     (if \<not> accepted_item i then scan_page min_time page
      else if (case (min_time, sg_time i) of (Some m, Some t) \<Rightarrow> t < m | _ \<Rightarrow> False) then ([], True)
      else (case scan_page min_time page of (found, stop) \<Rightarrow> (i # found, stop)))"

text \<open>The loop over the pages; \<open>fuel\<close> bounds their number.\<close>

fun collect_pages :: "nat \<Rightarrow> index_env \<Rightarrow> string option \<Rightarrow> int option \<Rightarrow> string option \<Rightarrow> sig_item list \<Rightarrow> sig_item list ipy" where
  "collect_pages 0 env until min_time before collected = raise NoReturn"
| "collect_pages (Suc fuel) env until min_time before collected =
     bindE (fetch_signatures_page env before until) (\<lambda>page.
       if page = [] then ret collected
       else (case scan_page min_time page of (found, stop) \<Rightarrow>
         if stop \<or> length page < PAGE_LIMIT then ret (collected @ found)
         else collect_pages fuel env until min_time (Some (sg_signature (last page))) (collected @ found)))"

definition collect_candidate_signatures :: "nat \<Rightarrow> index_env \<Rightarrow> sig_item list ipy" where
  "collect_candidate_signatures fuel env =
     bindE (get_state env) (\<lambda>state.
       let until = (case state of None \<Rightarrow> None | Some (last_signature, _) \<Rightarrow> last_signature) in
       bindE (getsE (\<lambda>w. if truthy until then None else Some (utc_day_start_ts (xv_now env (calls w))))) (\<lambda>min_time.
         collect_pages fuel env until min_time None []))"

section \<open>Metadata\<close>

text \<open>The dictionary of the underlying mints of the Solana assets; a later asset wins.\<close>

definition solana_underlying_to_asset :: "index_env \<Rightarrow> string option \<Rightarrow> exn + string" where
  "solana_underlying_to_asset env underlying =
     (if \<not> truthy underlying then Inr ''unknown''
      else (case seq_results (map (\<lambda>a. map_sum id (\<lambda>u. (u, asset_value a))
                   (underlying_address (xv_addresses env) (asset_configs a))) get_solana_assets) of
              Inl e \<Rightarrow> Inl e
            | Inr lookup \<Rightarrow> (case map_of (rev lookup) (the underlying) of
                None \<Rightarrow> Inr ''unknown'' | Some a \<Rightarrow> Inr a)))"

definition load_solana_metadata_from_db :: "index_env \<Rightarrow> string \<Rightarrow> sol_meta option ipy" where
  "load_solana_metadata_from_db env otoken =
     thenE (icall env (ReadMetadata otoken))
     (bindE (getsE (\<lambda>w. filter (\<lambda>r. av_address r = otoken \<and> av_chain r = ''solana'') (xw_available w))) (\<lambda>rows.
        case rows of
          [] \<Rightarrow> ret None
        | r # _ \<Rightarrow> bindE (liftE (solana_underlying_to_asset env (av_underlying r))) (\<lambda>a.
            ret (Some \<lparr>sm_strike = Some (av_strike r), sm_expiry = Some (av_expiry r), sm_is_put = Some (av_is_put r), sm_asset = a\<rparr>))))"

definition derive_otoken_info_pda :: "index_env \<Rightarrow> string \<Rightarrow> exn + pubkey" where
  "derive_otoken_info_pda env otoken =
     (case sk_from_string (xv_keys env) (xv_controller env) of
        Inl e \<Rightarrow> Inl e
      | Inr controller \<Rightarrow> map_sum id (\<lambda>mint. derive_otoken_info (xv_keys env) controller mint) (sk_from_string (xv_keys env) otoken))"

definition load_solana_metadata_from_chain :: "index_env \<Rightarrow> string \<Rightarrow> sol_meta option ipy" where
  "load_solana_metadata_from_chain env otoken =
     bindE (liftE (derive_otoken_info_pda env otoken)) (\<lambda>pda.
     bindE (iread env (ReadOtokenInfo pda) (xv_account env)) (\<lambda>account. case account of
       None \<Rightarrow> ret None
     | Some d \<Rightarrow>
         if length d < 8 + 32 + 32 + 32 + 32 + 8 + 8 + 1 then ret None
         else bindE (liftE (solana_underlying_to_asset env (Some (sk_to_string (xv_keys env) (slice 40 72 d))))) (\<lambda>a.
           ret (Some \<lparr>sm_strike = Some (of_int (read_u64 d 136)), sm_expiry = Some (read_i64 (slice 144 152 d)),
                      sm_is_put = Some (d ! 152 \<noteq> 0), sm_asset = a\<rparr>))))"

definition UNKNOWN_META :: sol_meta where
  "UNKNOWN_META = \<lparr>sm_strike = None, sm_expiry = None, sm_is_put = None, sm_asset = ''unknown''\<rparr>"

definition META_CACHE_SIZE :: nat where "META_CACHE_SIZE = 512"

text \<open>\<open>lru_cache(maxsize=512)\<close>: least recently used first; exceptions are not cached.\<close>

definition lru_used :: "'k \<Rightarrow> 'v \<Rightarrow> ('k \<times> 'v) list \<Rightarrow> ('k \<times> 'v) list" where
  "lru_used k v c = filter (\<lambda>(k', _). k' \<noteq> k) c @ [(k, v)]"

definition lru_add :: "nat \<Rightarrow> 'k \<Rightarrow> 'v \<Rightarrow> ('k \<times> 'v) list \<Rightarrow> ('k \<times> 'v) list" where
  "lru_add limit k v c = (if length c < limit then c else tl c) @ [(k, v)]"

definition lookup_solana_metadata :: "index_env \<Rightarrow> string \<Rightarrow> sol_meta ipy" where
  "lookup_solana_metadata env otoken =
     bindE (load_solana_metadata_from_db env otoken) (\<lambda>db. case db of
       Some m \<Rightarrow> ret m
     | None \<Rightarrow> bindE (load_solana_metadata_from_chain env otoken) (\<lambda>chain. case chain of
         Some m \<Rightarrow> ret m
       | None \<Rightarrow> ret UNKNOWN_META))"

definition load_solana_metadata :: "index_env \<Rightarrow> string \<Rightarrow> sol_meta ipy" where
  "load_solana_metadata env otoken =
     bindE (getsE (\<lambda>w. map_of (xw_meta w) otoken)) (\<lambda>cached. case cached of
       Some m \<Rightarrow> thenE (modifyE (\<lambda>w. w\<lparr>xw_meta := lru_used otoken m (xw_meta w)\<rparr>)) (ret m)
     | None \<Rightarrow> bindE (lookup_solana_metadata env otoken) (\<lambda>m.
         thenE (modifyE (\<lambda>w. w\<lparr>xw_meta := lru_add META_CACHE_SIZE otoken m (xw_meta w)\<rparr>)) (ret m)))"

section \<open>Rows\<close>

definition solana_row :: "string \<Rightarrow> int \<Rightarrow> int \<Rightarrow> execute_event \<Rightarrow> int \<Rightarrow> int \<Rightarrow> sol_meta \<Rightarrow> sol_order" where
  "solana_row signature slot now ev vault collateral m =
     \<lparr>sr_tx = signature, sr_slot = slot, sr_log_index = 0, sr_chain = ''solana'', sr_indexed_at = now,
      sr_user = xe_user ev, sr_mm = Some (xe_mm ev), sr_otoken = xe_otoken ev, sr_amount = xe_amount ev,
      sr_premium = xe_gross_premium ev, sr_gross_premium = xe_gross_premium ev, sr_net_premium = xe_net_premium ev,
      sr_protocol_fee = xe_protocol_fee ev, sr_vault = vault, sr_collateral = collateral,
      sr_strike = sm_strike m, sr_expiry = sm_expiry m, sr_is_put = sm_is_put m, sr_asset = Some (sm_asset m),
      sr_is_settled = Some False, sr_settled_at = None, sr_settlement_tx = None, sr_settlement_type = None,
      sr_is_itm = None, sr_expiry_price = None, sr_delivered_asset = None, sr_delivered_amount = None,
      sr_delivery_tx = None\<rparr>"

definition build_order_row :: "index_env \<Rightarrow> string \<Rightarrow> int \<Rightarrow> sol_tx \<Rightarrow> sol_order option ipy" where
  "build_order_row env signature slot tx =
     (if stx_err tx then ret None
      else bindE (liftE (parse_log_payloads (xv_keys env) (stx_logs tx))) (\<lambda>event. case event of
        None \<Rightarrow> ret None
      | Some (ev, vault, collateral) \<Rightarrow>
          bindE (getsE (\<lambda>w. xv_now env (calls w))) (\<lambda>now.
          bindE (load_solana_metadata env (xe_otoken ev)) (\<lambda>m.
            ret (Some (solana_row signature slot now ev vault collateral m))))))"

text \<open>The upsert leaves the columns of the settler alone.\<close>

definition put_order :: "sol_order \<Rightarrow> sol_order \<Rightarrow> sol_order" where
  "put_order new r = new\<lparr>sr_is_settled := sr_is_settled r, sr_settled_at := sr_settled_at r,
     sr_settlement_tx := sr_settlement_tx r, sr_settlement_type := sr_settlement_type r, sr_is_itm := sr_is_itm r,
     sr_expiry_price := sr_expiry_price r, sr_delivered_asset := sr_delivered_asset r,
     sr_delivered_amount := sr_delivered_amount r, sr_delivery_tx := sr_delivery_tx r\<rparr>"

interpretation orders: upsert_table sr_tx put_order
  by unfold_locales (simp add: put_order_def)

definition store_rows :: "index_env \<Rightarrow> sol_order list \<Rightarrow> nat ipy" where
  "store_rows env rows =
     (if rows = [] then ret 0
      else thenE (icall env StoreRows)
        (if \<not> distinct (map sr_tx rows) then
           raise (OtherError ''ON CONFLICT DO UPDATE command cannot affect row a second time'')
         else thenE (modifyE (\<lambda>w. w\<lparr>xw_orders := upsert_all sr_tx put_order rows (xw_orders w)\<rparr>)) (ret (length rows))))"

definition notify_mms :: "index_env \<Rightarrow> sol_order list \<Rightarrow> unit ipy" where
  "notify_mms env rows = for_each (\<lambda>r. catchE (icall env (NotifyMm (the (sr_mm r)))) (\<lambda>_. ret ())) rows"

section \<open>The cycle\<close>

text \<open>One transaction: its row, if it has one, joins the rows of the run.\<close>

definition read_order :: "index_env \<Rightarrow> sol_order list \<Rightarrow> sig_item \<Rightarrow> sol_order list ipy" where
  "read_order env rows i =
     bindE (iread env (Transaction (sg_signature i)) (xv_tx env)) (\<lambda>tx. case tx of
       None \<Rightarrow> raise (RuntimeError (''Transaction missing for signature='' @ sg_signature i @ '' slot='' @ int_str (sg_slot i)))
     | Some t \<Rightarrow> bindE (build_order_row env (sg_signature i) (sg_slot i) t) (\<lambda>row. case row of
         None \<Rightarrow> ret rows
       | Some r \<Rightarrow> ret (rows @ [r])))"

definition index_solana_once :: "nat \<Rightarrow> index_env \<Rightarrow> nat ipy" where
  "index_solana_once fuel env =
     bindE (collect_candidate_signatures fuel env) (\<lambda>signatures.
       if signatures = [] then ret 0
       else
         bindE (foldE (read_order env) [] (rev signatures)) (\<lambda>rows.
         bindE (store_rows env rows) (\<lambda>stored.
         thenE (whenE (rows \<noteq> []) (notify_mms env rows))
         (thenE (set_state env (sg_signature (hd signatures)) (sg_slot (hd signatures)))
          (ret stored)))))"

definition index_solana_round :: "nat \<Rightarrow> index_env \<Rightarrow> unit ipy" where
  "index_solana_round fuel env =
     thenE (catchE (thenE (index_solana_once fuel env) (ret ())) (\<lambda>_. ret ())) (icall env (Wait (xv_interval env)))"

fun index_solana_rounds :: "nat \<Rightarrow> nat \<Rightarrow> index_env \<Rightarrow> unit ipy" where
  "index_solana_rounds fuel 0 env = ret ()"
| "index_solana_rounds fuel (Suc n) env = thenE (index_solana_round fuel env) (index_solana_rounds fuel n env)"

end
