(* ===== verification/Solana_Index_Safety.thy ===== *)
theory Solana_Index_Safety
  imports Solana_Indexer
begin

text \<open>
  The Solana event indexer against a ledger: an RPC node that serves the pages of a growing list of
  signatures, latest first, and the transactions behind them.
\<close>

section \<open>The ledger\<close>

definition newer :: "string \<Rightarrow> sig_item list \<Rightarrow> sig_item list" where
  "newer s l = takeWhile (\<lambda>i. sg_signature i \<noteq> s) l"

definition older :: "string \<Rightarrow> sig_item list \<Rightarrow> sig_item list" where
  "older s l = tl (dropWhile (\<lambda>i. sg_signature i \<noteq> s) l)"

definition page_of :: "string option \<Rightarrow> string option \<Rightarrow> sig_item list \<Rightarrow> sig_item list" where
  "page_of before until l =
     take PAGE_LIMIT (let rest = (case before of None \<Rightarrow> l | Some b \<Rightarrow> older b l) in
       case until of None \<Rightarrow> rest | Some u \<Rightarrow> newer u rest)"

text \<open>
  \<open>serves_ledger env L T\<close>: the ledger \<open>L\<close>, a function of the history, only grows at its head, its signatures are
  distinct and not empty, every page is one of the ledger at that moment, and a transaction that is delivered is \<open>T\<close> of its signature.
\<close>

definition serves_ledger :: "index_env \<Rightarrow> (index_call list \<Rightarrow> sig_item list) \<Rightarrow> (string \<Rightarrow> sol_tx) \<Rightarrow> bool" where
  "serves_ledger env L T \<longleftrightarrow>
     (\<forall>c h. suffix (L h) (L (c # h))) \<and>
     (\<forall>h. distinct (map sg_signature (L h)) \<and> [] \<notin> sg_signature ` set (L h)) \<and>
     (\<forall>b u h. xv_page env (Signatures b u # h) = page_of b u (L (Signatures b u # h))) \<and>
     (\<forall>s h. xv_tx env (Transaction s # h) \<in> {None, Some (T s)})"

lemma serves_suffix: "serves_ledger env L T \<Longrightarrow> suffix (L h) (L (cs @ h))"
proof (induction cs)
  case (Cons c cs)
  then have "suffix (L (cs @ h)) (L ((c # cs) @ h))" by (simp add: serves_ledger_def)
  with Cons show ?case using suffix_order.trans by blast
qed simp

lemma newer_append: "s \<notin> sg_signature ` set a \<Longrightarrow> newer s (a @ b) = a @ newer s b"
  by (induction a) (auto simp: newer_def)

lemma older_split: "s \<notin> sg_signature ` set a \<Longrightarrow> older s (a @ i # b) = (if sg_signature i = s then b else older s (i # b))"
  by (induction a) (auto simp: older_def)

lemma newer_split: "s \<in> sg_signature ` set l \<Longrightarrow> \<exists>i b. l = newer s l @ i # b \<and> sg_signature i = s"
proof (induction l)
  case (Cons x l)
  show ?case
  proof (cases "sg_signature x = s")
    case False
    with Cons obtain i b where "l = newer s l @ i # b" "sg_signature i = s" by auto
    with False show ?thesis by (auto simp: newer_def)
  qed (simp add: newer_def)
qed simp

lemma newer_not: "s \<notin> sg_signature ` set (newer s l)"
  by (auto simp: newer_def dest: set_takeWhileD)

text \<open>A later page continues where the one before ended, although the ledger has grown.\<close>

lemma later_page:
  assumes l: "suffix l (L h)" "distinct (map sg_signature (L h))" and u: "u \<in> sg_signature ` set l"
    and d: "newer u l = d @ rest" "d \<noteq> []"
  shows "page_of (Some (sg_signature (last d))) (Some u) (L h) = take PAGE_LIMIT rest"
proof -
  obtain n where n: "L h = n @ l" using l(1) by (auto simp: suffix_def)
  obtain i b where i: "l = newer u l @ i # b" "sg_signature i = u" using newer_split [OF u] by blast
  obtain d' x where x: "d = d' @ [x]" using d(2) by (cases d rule: rev_cases) auto
  have L: "L h = (n @ d') @ x # rest @ i # b" using n i(1) d(1) x by simp
  then have "sg_signature x \<notin> sg_signature ` set (n @ d')" using l(2) by auto
  then have o: "older (sg_signature (last d)) (L h) = rest @ i # b"
    using older_split [of "sg_signature x" "n @ d'" x "rest @ i # b"] by (simp add: L x)
  have "u \<notin> sg_signature ` set rest" using newer_not [of u l] d(1) by auto
  then have "newer u (rest @ i # b) = rest" using i(2) by (simp add: newer_append) (simp add: newer_def)
  with o show ?thesis by (simp add: page_of_def)
qed

lemma first_page: "page_of None (Some u) l = take PAGE_LIMIT (newer u l)"
  by (simp add: page_of_def)

lemma scan_page_all: "scan_page None page = (filter accepted_item page, False)"
  by (induction page) auto

section \<open>Collection\<close>

text \<open>Everything but the storage and the cursor leaves the tables alone.\<close>

definition tables_le :: "index_world \<Rightarrow> index_world \<Rightarrow> bool" where
  "tables_le w v \<longleftrightarrow> hist_le w v \<and> xw_orders v = xw_orders w \<and> xw_state v = xw_state w"

interpretation tables: world_order tables_le
  by unfold_locales (auto simp: tables_le_def hist.le_refl intro: hist.le_trans)

lemma stored_call: "grows tables_le (icall env c)"
  by (rule grows_perform) (simp add: tables_le_def hist_le_def)

lemma tables_read: "grows tables_le (iread env c f)"
  unfolding iread_def by (intro tables.grows_then stored_call tables.grows_gets)

lemma tables_fetch: "grows tables_le (fetch_signatures_page env b u)"
  unfolding fetch_signatures_page_def by (rule tables_read)

lemmas tables_rules = tables.rules stored_call tables_read tables_fetch

lemma tables_pages: "grows tables_le (collect_pages fuel env u m b acc)"
  by (induction fuel arbitrary: b acc) (simp_all, (intro tables_rules | assumption)+)

lemma tables_collect: "grows tables_le (collect_candidate_signatures fuel env)"
  unfolding collect_candidate_signatures_def get_state_def by (intro tables_rules tables_pages)

lemma collect_rest:
  assumes s: "serves_ledger env L T" and u: "u \<noteq> []" "u \<in> sg_signature ` set l"
  shows "suffix l (L (calls w)) \<Longrightarrow> newer u l = d @ rest \<Longrightarrow> d \<noteq> [] \<Longrightarrow>
    wp (collect_pages fuel env (Some u) None (Some (sg_signature (last d))) (filter accepted_item d))
      (\<lambda>r _. r = filter accepted_item (newer u l))
      (\<lambda>e _. e = NoReturn \<longrightarrow> PAGE_LIMIT * fuel \<le> length rest \<or> (\<exists>h. xv_fails env h = Some NoReturn)) w"
proof (induction fuel arbitrary: w d rest)
  case (Suc fuel)
  let ?b = "sg_signature (last d)"
  let ?c = "Signatures (Some ?b) (Some u)"
  let ?h = "?c # calls w"
  have suf: "suffix l (L ?h)" using Suc.prems(1) serves_suffix [OF s, of "calls w" "[?c]"] suffix_order.trans by auto
  have dist: "distinct (map sg_signature (L ?h))" "[] \<notin> sg_signature ` set (L ?h)" using s by (simp_all add: serves_ledger_def)
  have "last d \<in> set l" using Suc.prems(2,3) by (metis UnCI last_in_set newer_def set_append set_takeWhileD)
  then have "?b \<noteq> []" using dist(2) suf by (metis image_eqI set_mono_suffix subsetD)
  then have fetch: "fetch_signatures_page env (Some ?b) (Some u) = iread env ?c (xv_page env)"
    using u(1) by (simp add: fetch_signatures_page_def)
  have page: "xv_page env ?h = take PAGE_LIMIT rest"
    using s later_page [where L = L and h = ?h, OF suf dist(1) u(2) Suc.prems(2,3)] by (simp add: serves_ledger_def)
  show ?case
  proof (cases "xv_fails env ?h")
    case None
    show ?thesis
    proof (cases "length (take PAGE_LIMIT rest) < PAGE_LIMIT")
      case True
      then have "take PAGE_LIMIT rest = rest" by (simp add: min_def split: if_splits)
      with None page Suc.prems(2) True show ?thesis
        by (simp add: fetch wps scan_page_all)
    next
      case False
      let ?p = "take PAGE_LIMIT rest"
      have "?p \<noteq> []" using False by (auto simp: PAGE_LIMIT_def)
      moreover have "wp (collect_pages fuel env (Some u) None (Some (sg_signature (last (d @ ?p)))) (filter accepted_item (d @ ?p)))
          (\<lambda>r _. r = filter accepted_item (newer u l))
          (\<lambda>e _. e = NoReturn \<longrightarrow> PAGE_LIMIT * Suc fuel \<le> length rest \<or> (\<exists>h. xv_fails env h = Some NoReturn)) (w\<lparr>calls := ?h\<rparr>)"
        using suf Suc.prems(2,3) False by (intro wp_mono [OF Suc.IH [where rest = "drop PAGE_LIMIT rest"]]) (auto simp: min_def split: if_splits)
      ultimately show ?thesis using None page False
        by (simp add: fetch wps scan_page_all)
    qed
  qed (auto simp: fetch wps)
qed (simp add: wps)

text \<open>What the loop does with a page.\<close>

definition use_page :: "nat \<Rightarrow> index_env \<Rightarrow> string option \<Rightarrow> int option \<Rightarrow> sig_item list \<Rightarrow> sig_item list \<Rightarrow> sig_item list ipy" where
  "use_page fuel env until min_time collected page =
     (if page = [] then ret collected
      else (case scan_page min_time page of (found, stop) \<Rightarrow>
        if stop \<or> length page < PAGE_LIMIT then ret (collected @ found)
        else collect_pages fuel env until min_time (Some (sg_signature (last page))) (collected @ found)))"

lemma collect_pages_Suc:
  "collect_pages (Suc fuel) env until m b acc = bindE (fetch_signatures_page env b until) (use_page fuel env until m acc)"
  by (simp add: use_page_def [abs_def])

lemma tables_use_page: "grows tables_le (use_page fuel env u m acc page)"
  unfolding use_page_def by (intro tables_rules tables_pages)

text \<open>The ledger at the first page, and the collection that it leads to.\<close>

definition ledger_at_start :: "(index_call list \<Rightarrow> sig_item list) \<Rightarrow> string \<Rightarrow> index_world \<Rightarrow> sig_item list" where
  "ledger_at_start L u w = L (Signatures None (Some u) # GetState # calls w)"

lemma collect_found:
  assumes s: "serves_ledger env L T" and st: "xw_state w = Some (Some u, slot)" and u: "u \<in> sg_signature ` set (L (calls w))"
  shows "wp (collect_candidate_signatures fuel env)
    (\<lambda>r v. suffix (L (calls w)) (ledger_at_start L u w) \<and> suffix (ledger_at_start L u w) (L (calls v)) \<and>
      r = filter accepted_item (newer u (ledger_at_start L u w)))
    (\<lambda>e _. e = NoReturn \<longrightarrow> PAGE_LIMIT * fuel \<le> length (newer u (ledger_at_start L u w)) \<or> (\<exists>h. xv_fails env h = Some NoReturn)) w"
proof -
  have "[] \<notin> sg_signature ` set (L (calls w))" using s by (simp add: serves_ledger_def)
  then have une: "u \<noteq> []" using u by blast
  let ?c = "Signatures None (Some u)"
  let ?h = "?c # GetState # calls w" and ?w = "w\<lparr>calls := GetState # calls w\<rparr>"
  let ?l = "L ?h"
  let ?E = "\<lambda>n e. e = NoReturn \<longrightarrow> PAGE_LIMIT * n \<le> length (newer u ?l) \<or> (\<exists>h. xv_fails env h = Some NoReturn)"
  have suf: "suffix (L (calls w)) ?l" using serves_suffix [OF s, of "calls w" "[?c, GetState]"] by simp
  then have ul: "u \<in> sg_signature ` set ?l" using u by (auto dest: set_mono_suffix)
  have fetch: "fetch_signatures_page env None (Some u) = iread env ?c (xv_page env)"
    using une by (simp add: fetch_signatures_page_def)
  have page: "xv_page env ?h = take PAGE_LIMIT (newer u ?l)"
    using s by (simp add: serves_ledger_def first_page)
  have use: "wp (use_page n env (Some u) None [] (take PAGE_LIMIT (newer u ?l)))
      (\<lambda>r _. r = filter accepted_item (newer u ?l)) (\<lambda>e _. ?E (Suc n) e) (?w\<lparr>calls := ?h\<rparr>)" for n
  proof (cases "length (newer u ?l) < PAGE_LIMIT")
    case True
    then show ?thesis by (simp add: use_page_def wps scan_page_all)
  next
    case False
    let ?p = "take PAGE_LIMIT (newer u ?l)"
    have "?p \<noteq> []" using False by (auto simp: PAGE_LIMIT_def)
    moreover have "wp (collect_pages n env (Some u) None (Some (sg_signature (last ?p))) (filter accepted_item ?p))
        (\<lambda>r _. r = filter accepted_item (newer u ?l)) (\<lambda>e _. ?E (Suc n) e) (?w\<lparr>calls := ?h\<rparr>)"
      using \<open>?p \<noteq> []\<close> False
      by (intro wp_mono [OF collect_rest [OF s une ul, where rest = "drop PAGE_LIMIT (newer u ?l)"]]) auto
    ultimately show ?thesis using False by (simp add: use_page_def wps scan_page_all)
  qed
  have later: "suffix ?l (L (calls v))" if "tables_le (?w\<lparr>calls := ?h\<rparr>) v" for v
    using that serves_suffix [OF s, of ?h] by (auto simp: tables_le_def hist_le_def)
  have "wp (use_page n env (Some u) None [] (take PAGE_LIMIT (newer u ?l)))
      (\<lambda>r v. suffix ?l (L (calls v)) \<and> r = filter accepted_item (newer u ?l)) (\<lambda>e _. ?E (Suc n) e) (?w\<lparr>calls := ?h\<rparr>)" for n
    by (rule wp_mono [OF wp_conj [OF use tables.wp_le [OF tables_use_page tables.le_refl]]]) (use later in auto)
  then have "wp (collect_pages fuel env (Some u) None None [])
      (\<lambda>r v. suffix ?l (L (calls v)) \<and> r = filter accepted_item (newer u ?l)) (\<lambda>e _. ?E fuel e) ?w"
    by (cases fuel) (auto simp: collect_pages_Suc fetch wps page split: option.split simp del: collect_pages.simps(2))
  with st une suf show ?thesis
    by (auto simp: collect_candidate_signatures_def get_state_def ledger_at_start_def wps split: option.split)
qed

section \<open>Rows of a run\<close>

text \<open>The order of a signature, and a row that shows it.\<close>

definition order_of :: "solana_keys \<Rightarrow> (string \<Rightarrow> sol_tx) \<Rightarrow> string \<Rightarrow> (execute_event \<times> int \<times> int) option" where
  "order_of k T s =
     (if stx_err (T s) then None
      else (case parse_log_payloads k (stx_logs (T s)) of Inl _ \<Rightarrow> None | Inr x \<Rightarrow> x))"

definition shows_order :: "sol_order \<Rightarrow> execute_event \<times> int \<times> int \<Rightarrow> bool" where
  "shows_order r x \<longleftrightarrow> (case x of (ev, vault, collateral) \<Rightarrow>
     sr_chain r = ''solana'' \<and> sr_user r = xe_user ev \<and> sr_mm r = Some (xe_mm ev) \<and> sr_otoken r = xe_otoken ev \<and>
     sr_amount r = xe_amount ev \<and> sr_premium r = xe_gross_premium ev \<and> sr_gross_premium r = xe_gross_premium ev \<and>
     sr_net_premium r = xe_net_premium ev \<and> sr_protocol_fee r = xe_protocol_fee ev \<and> sr_vault r = vault \<and>
     sr_collateral r = collateral)"

definition recorded :: "solana_keys \<Rightarrow> (string \<Rightarrow> sol_tx) \<Rightarrow> sol_order list \<Rightarrow> string \<Rightarrow> bool" where
  "recorded k T rows s \<longleftrightarrow>
     (case order_of k T s of None \<Rightarrow> True | Some x \<Rightarrow> list_ex (\<lambda>r. sr_tx r = s \<and> shows_order r x) rows)"

definition own_order :: "solana_keys \<Rightarrow> (string \<Rightarrow> sol_tx) \<Rightarrow> sol_order \<Rightarrow> bool" where
  "own_order k T r \<longleftrightarrow> (case order_of k T (sr_tx r) of None \<Rightarrow> False | Some x \<Rightarrow> shows_order r x)"

lemma shows_row: "shows_order (solana_row s slot now ev v c m) (ev, v, c)"
  by (simp add: shows_order_def solana_row_def)

lemma shows_put: "shows_order (put_order new r) x = shows_order new x"
  by (simp add: shows_order_def put_order_def)

lemma yields_weaken: "yields U m \<Longrightarrow> (\<And>x. U x \<Longrightarrow> V x) \<Longrightarrow> yields V m"
  unfolding yields_def by blast

lemma yields_build:
  "yields (\<lambda>r. case r of None \<Rightarrow> order_of (xv_keys env) T s = None | Some r \<Rightarrow> sr_tx r = s \<and> own_order (xv_keys env) T r)
     (build_order_row env s slot (T s))"
proof -
  have *: "yields (\<lambda>r. case r of None \<Rightarrow> False | Some r \<Rightarrow> sr_tx r = s \<and> shows_order r (ev, v, c))
      (bindE (getsE (\<lambda>w. xv_now env (calls w))) (\<lambda>now. bindE (load_solana_metadata env (xe_otoken ev)) (\<lambda>m.
        ret (Some (solana_row s slot now ev v c m)))))" for ev v c
    by (intro yields_bind_any yields_ret) (simp add: shows_row, simp add: solana_row_def)
  have got: "yields (\<lambda>r. case r of None \<Rightarrow> order_of (xv_keys env) T s = None | Some r \<Rightarrow> sr_tx r = s \<and> own_order (xv_keys env) T r)
      (bindE (getsE (\<lambda>w. xv_now env (calls w))) (\<lambda>now. bindE (load_solana_metadata env (xe_otoken ev)) (\<lambda>m.
        ret (Some (solana_row s slot now ev v c m)))))" if "order_of (xv_keys env) T s = Some (ev, v, c)" for ev v c
    by (rule yields_weaken [OF *]) (use that in \<open>auto simp: own_order_def split: option.splits\<close>)
  show ?thesis unfolding build_order_row_def
    by (intro yields_rules yields_bind_lift got) (auto simp: order_of_def)
qed

text \<open>The run over the new signatures reads the order of each of them.\<close>

definition rows_of :: "index_env \<Rightarrow> (string \<Rightarrow> sol_tx) \<Rightarrow> sig_item list \<Rightarrow> sol_order list \<Rightarrow> bool" where
  "rows_of env T items rows \<longleftrightarrow> list_all (own_order (xv_keys env) T) rows \<and> distinct (map sr_tx rows) \<and>
     sr_tx ` set rows \<subseteq> sg_signature ` set items \<and>
     (\<forall>i \<in> set items. order_of (xv_keys env) T (sg_signature i) = None \<or> sg_signature i \<in> sr_tx ` set rows)"

lemma yields_rows:
  assumes s: "serves_ledger env L T" and d: "distinct (map sg_signature items)"
  shows "yields (rows_of env T items) (foldE (read_order env) [] items)"
proof (rule yields_fold)
  fix seen i rest rows assume i: "items = seen @ i # rest" and r: "rows_of env T seen rows"
  have fresh: "sg_signature i \<notin> sr_tx ` set rows" using i r d by (auto simp: rows_of_def)
  have keep: "rows_of env T (seen @ [i]) rows" if "order_of (xv_keys env) T (sg_signature i) = None"
    using r that by (auto simp: rows_of_def)
  have add: "rows_of env T (seen @ [i]) (rows @ [x])" if "sr_tx x = sg_signature i" "own_order (xv_keys env) T x" for x
    using r that fresh by (auto simp: rows_of_def)
  have tx: "yields (\<lambda>t. t \<in> {None, Some (T (sg_signature i))}) (iread env (Transaction (sg_signature i)) (xv_tx env))"
    using s by (intro yields_wp) (auto simp: wps serves_ledger_def split: option.split)
  show "yields (rows_of env T (seen @ [i])) (read_order env rows i)"
    unfolding read_order_def
  proof (rule yields_bind [OF tx], goal_cases)
    case (1 t)
    show ?case
    proof (cases t)
      case (Some t')
      then have "t' = T (sg_signature i)" using 1 by simp
      moreover have "yields (rows_of env T (seen @ [i])) (bindE (build_order_row env (sg_signature i) (sg_slot i) (T (sg_signature i)))
          (\<lambda>row. case row of None \<Rightarrow> ret rows | Some r \<Rightarrow> ret (rows @ [r])))"
        by (rule yields_bind [OF yields_build]) (auto intro!: yields_ret keep add split: option.splits)
      ultimately show ?thesis using Some by simp
    qed (simp add: yields_raise)
  qed
qed (simp add: rows_of_def)

lemma tables_metadata: "grows tables_le (load_solana_metadata env o')"
proof -
  have m: "grows tables_le (modifyE (\<lambda>w. w\<lparr>xw_meta := f (xw_meta w)\<rparr>))" for f
    by (rule tables.grows_modify) (simp add: tables_le_def hist_le_def)
  show ?thesis
    unfolding load_solana_metadata_def lookup_solana_metadata_def load_solana_metadata_from_db_def load_solana_metadata_from_chain_def
    by (intro tables_rules m)
qed

lemma tables_rows: "grows tables_le (foldE (read_order env) [] items)"
  unfolding read_order_def build_order_row_def by (intro tables_rules tables_metadata)

lemma tables_notify: "grows tables_le (notify_mms env rows)"
  unfolding notify_mms_def by (intro tables_rules)

section \<open>Storage\<close>

lemma recorded_upsert:
  assumes "recorded k T rows s" "own_order k T new"
  shows "recorded k T (tbl_upsert sr_tx (put_order new) new rows) s"
proof (cases "order_of k T s")
  case (Some x)
  with assms(1) obtain r where r: "r \<in> set rows" "sr_tx r = s" "shows_order r x" by (auto simp: recorded_def list_ex_iff)
  have "\<exists>r' \<in> set (tbl_upsert sr_tx (put_order new) new rows). sr_tx r' = s \<and> shows_order r' x"
  proof (cases "sr_tx new = s")
    case True
    then have "shows_order new x" using assms(2) Some by (simp add: own_order_def)
    moreover from True r have "put_order new r \<in> set (tbl_upsert sr_tx (put_order new) new rows)"
      by (force simp: tbl_upsert_def set_tbl_update list_ex_iff)
    ultimately show ?thesis using True by (intro bexI [of _ "put_order new r"]) (simp_all add: shows_put, simp add: put_order_def)
  next
    case False
    then have "r \<in> set (tbl_upsert sr_tx (put_order new) new rows)"
      using r by (auto simp: tbl_upsert_def set_tbl_update image_iff)
    with r show ?thesis by blast
  qed
  with Some show ?thesis by (auto simp: recorded_def list_ex_iff)
qed (simp add: recorded_def)

lemma recorded_upsert_all:
  "list_all (own_order k T) news \<Longrightarrow> recorded k T rows s \<Longrightarrow> recorded k T (upsert_all sr_tx put_order news rows) s"
  by (induction news arbitrary: rows) (simp_all add: recorded_upsert)

lemma recorded_new:
  assumes "list_all (own_order k T) news" "distinct (map sr_tx news)" "s \<in> sr_tx ` set news"
  shows "recorded k T (upsert_all sr_tx put_order news rows) s"
proof -
  obtain n where n: "n \<in> set news" "sr_tx n = s" using assms(3) by blast
  then obtain x where x: "order_of k T s = Some x" "shows_order n x"
    using assms(1) by (auto simp: list_all_iff own_order_def split: option.splits)
  from orders.upserted_present [OF assms(2) n(1)] obtain r where "r \<in> set (upsert_all sr_tx put_order news rows)"
    "r = n \<or> (\<exists>old. sr_tx old = sr_tx n \<and> r = put_order n old)" by blast
  moreover from this(2) have "sr_tx r = s \<and> shows_order r x" using n(2) x(2) by (auto simp: shows_put) (simp add: put_order_def)
  ultimately show ?thesis using x(1) by (auto simp: recorded_def list_ex_iff)
qed

section \<open>The cursor\<close>

text \<open>The items that the cursor passed: newer than \<open>s0\<close>, and at or older than the cursor.\<close>

definition passed :: "string \<Rightarrow> string \<Rightarrow> sig_item list \<Rightarrow> sig_item list" where
  "passed s0 cur l = dropWhile (\<lambda>i. sg_signature i \<noteq> cur) (newer s0 l)"

definition at_or_newer :: "string \<Rightarrow> string \<Rightarrow> sig_item list \<Rightarrow> bool" where
  "at_or_newer s0 cur l \<longleftrightarrow> cur \<in> insert s0 (sg_signature ` set (newer s0 l))"

lemma takeWhile_within: "set (takeWhile P (takeWhile Q l)) \<subseteq> set (takeWhile P l)"
  by (induction l) auto

lemma fresh_part: "distinct (map sg_signature (m @ l)) \<Longrightarrow> s \<in> sg_signature ` set l \<Longrightarrow> s \<notin> sg_signature ` set m"
  by auto

lemma at_or_newer_mem: "at_or_newer s0 cur l \<Longrightarrow> s0 \<in> sg_signature ` set l \<Longrightarrow> cur \<in> sg_signature ` set l"
  unfolding at_or_newer_def newer_def by (auto dest: set_takeWhileD)

lemma passed_grows:
  assumes "suffix l l'" "distinct (map sg_signature l')" "s0 \<in> sg_signature ` set l" "at_or_newer s0 cur l"
  shows "passed s0 cur l' = passed s0 cur l" "at_or_newer s0 cur l'"
proof -
  obtain m where m: "l' = m @ l" using assms(1) by (auto simp: suffix_def)
  with assms(2) have n: "newer s0 l' = m @ newer s0 l" using fresh_part [of m l, OF _ assms(3)] by (simp add: newer_append)
  have "cur \<notin> sg_signature ` set m"
    using fresh_part [of m l] assms(2) m at_or_newer_mem [OF assms(4,3)] by simp
  then have "\<And>i. i \<in> set m \<Longrightarrow> sg_signature i \<noteq> cur" by blast
  then show "passed s0 cur l' = passed s0 cur l" by (simp add: passed_def n dropWhile_append2)
  show "at_or_newer s0 cur l'" using assms(4) by (auto simp: at_or_newer_def n)
qed

text \<open>When the cursor moves, what it passes is new or was passed before.\<close>

lemma newer_mono:
  assumes "at_or_newer s0 cur l" "s0 \<in> sg_signature ` set l"
  shows "set (newer cur l) \<subseteq> set (newer s0 l)"
proof (cases "cur = s0")
  case False
  with assms(1) have c: "\<exists>i \<in> set (newer s0 l). sg_signature i = cur" by (auto simp: at_or_newer_def)
  obtain i b where "l = newer s0 l @ i # b" using newer_split [OF assms(2)] by blast
  then have "newer cur l = takeWhile (\<lambda>j. sg_signature j \<noteq> cur) (newer s0 l @ i # b)" by (metis newer_def)
  with c have "newer cur l = takeWhile (\<lambda>j. sg_signature j \<noteq> cur) (newer s0 l)"
    by (simp add: takeWhile_append) (metis (mono_tags, lifting))
  then show ?thesis by (auto dest: set_takeWhileD)
qed simp

lemma passed_step:
  assumes a: "at_or_newer s0 cur l" "s0 \<in> sg_signature ` set l" and n: "n \<in> sg_signature ` set (newer cur l)"
  shows "at_or_newer s0 n l" "set (passed s0 n l) \<subseteq> set (newer cur l) \<union> set (passed s0 cur l)"
proof -
  show "at_or_newer s0 n l" using newer_mono [OF a] n by (auto simp: at_or_newer_def)
  have "set (passed s0 n l) \<subseteq> set (newer s0 l)" unfolding passed_def by (auto dest: set_dropWhileD)
  also have "\<dots> \<subseteq> set (newer cur l) \<union> set (passed s0 cur l)"
  proof
    fix i assume "i \<in> set (newer s0 l)"
    then have "i \<in> set (takeWhile (\<lambda>i. sg_signature i \<noteq> cur) (newer s0 l)) \<union> set (passed s0 cur l)"
      unfolding passed_def by (metis set_append takeWhile_dropWhile_id)
    then show "i \<in> set (newer cur l) \<union> set (passed s0 cur l)"
      using takeWhile_within [of "\<lambda>i. sg_signature i \<noteq> cur" "\<lambda>i. sg_signature i \<noteq> s0" l] unfolding newer_def by blast
  qed
  finally show "set (passed s0 n l) \<subseteq> set (newer cur l) \<union> set (passed s0 cur l)" .
qed

definition caught_up :: "index_env \<Rightarrow> (index_call list \<Rightarrow> sig_item list) \<Rightarrow> (string \<Rightarrow> sol_tx) \<Rightarrow> string \<Rightarrow> index_world \<Rightarrow> bool" where
  "caught_up env L T s0 w \<longleftrightarrow>
     (case xw_state w of
        Some (Some cur, _) \<Rightarrow> at_or_newer s0 cur (L (calls w)) \<and>
          list_all (\<lambda>i. recorded (xv_keys env) T (xw_orders w) (sg_signature i))
            (filter accepted_item (passed s0 cur (L (calls w))))
      | _ \<Rightarrow> False)"

lemma ledger_grows: "serves_ledger env L T \<Longrightarrow> hist_le w v \<Longrightarrow> suffix (L (calls w)) (L (calls v))"
  by (auto simp: hist_le_def intro: serves_suffix)

lemma ledger_distinct: "serves_ledger env L T \<Longrightarrow> distinct (map sg_signature (L h))"
  by (simp add: serves_ledger_def)

lemma known_start: "serves_ledger env L T \<Longrightarrow> hist_le w v \<Longrightarrow> s0 \<in> sg_signature ` set (L (calls w)) \<Longrightarrow> s0 \<in> sg_signature ` set (L (calls v))"
  using ledger_grows [of env L T w v] by (auto dest: set_mono_suffix)

lemma caught_up_later:
  assumes s: "serves_ledger env L T" and c: "caught_up env L T s0 w" and k: "s0 \<in> sg_signature ` set (L (calls w))" and h: "hist_le w v" and st: "xw_state v = xw_state w"
    and r: "\<And>t. recorded (xv_keys env) T (xw_orders w) t \<Longrightarrow> recorded (xv_keys env) T (xw_orders v) t"
  shows "caught_up env L T s0 v"
proof -
  obtain cur slot where cur: "xw_state w = Some (Some cur, slot)" "at_or_newer s0 cur (L (calls w))"
    using c by (auto simp: caught_up_def split: option.splits prod.splits)
  from passed_grows [OF ledger_grows [OF s h] ledger_distinct [OF s] k cur(2)] c r cur(1) st show ?thesis
    by (auto simp: caught_up_def list_all_iff)
qed

lemma wp_store_rows:
  assumes s: "serves_ledger env L T" and c: "caught_up env L T s0 w" and k: "s0 \<in> sg_signature ` set (L (calls w))" and r: "list_all (own_order (xv_keys env) T) rows"
  shows "wp (store_rows env rows) (\<lambda>_ v. caught_up env L T s0 v \<and> hist_le w v \<and>
      (\<forall>t \<in> sr_tx ` set rows. recorded (xv_keys env) T (xw_orders v) t)) (\<lambda>_ v. caught_up env L T s0 v \<and> hist_le w v) w"
proof -
  have called: "caught_up env L T s0 (w\<lparr>calls := StoreRows # calls w\<rparr>)"
    by (rule caught_up_later [OF s c k]) (simp_all add: hist_le_def)
  have "caught_up env L T s0 (w\<lparr>calls := StoreRows # calls w, xw_orders := upsert_all sr_tx put_order rows (xw_orders w)\<rparr>)"
    by (rule caught_up_later [OF s c k]) (simp_all add: hist_le_def recorded_upsert_all [OF r])
  then show ?thesis using c r called
    by (auto simp: store_rows_def wps hist.le_refl hist_le_def recorded_new split: option.split)
qed

lemma caught_up_keep:
  assumes "serves_ledger env L T" "s0 \<in> sg_signature ` set (L (calls w))" "caught_up env L T s0 u" "hist_le w u" "tables_le u v"
  shows "caught_up env L T s0 v" "hist_le w v"
  using assms caught_up_later [OF assms(1,3) known_start [OF assms(1,4,2)], of v]
  by (auto simp: tables_le_def intro: hist.le_trans)

text \<open>The cursor may move to a signature of a former ledger when all that is newer than its old place is recorded.\<close>

lemma caught_up_moves:
  assumes s: "serves_ledger env L T" and k: "s0 \<in> sg_signature ` set (L (calls w))"
    and cur: "xw_state w = Some (Some cur, slot)" "at_or_newer s0 cur (L (calls w))"
    and l: "suffix (L (calls w)) l" "suffix l (L (calls x))" and n: "n \<in> sg_signature ` set (newer cur l)"
    and x: "caught_up env L T s0 x" "hist_le w x" "xw_state x = xw_state w"
      "\<forall>i \<in> set (filter accepted_item (newer cur l)). recorded (xv_keys env) T (xw_orders x) (sg_signature i)"
  shows "caught_up env L T s0 (x\<lparr>xw_state := Some (Some n, slot')\<rparr>)"
proof -
  have dl: "distinct (map sg_signature l)" using l(2) ledger_distinct [OF s, of "calls x"] by (auto simp: suffix_def)
  have sl: "s0 \<in> sg_signature ` set l" using k l(1) by (auto dest: set_mono_suffix)
  note cl = passed_grows [OF l(1) dl k cur(2)]
  note st = passed_step [OF cl(2) sl n]
  note p = passed_grows [OF l(2) ledger_distinct [OF s] sl st(1)]
  have "recorded (xv_keys env) T (xw_orders x) (sg_signature i)" if i: "i \<in> set (passed s0 n l)" "accepted_item i" for i
  proof (cases "i \<in> set (newer cur l)")
    case True
    with i x(4) show ?thesis by simp
  next
    case False
    with i st(2) have "i \<in> set (passed s0 cur (L (calls w)))" using cl(1) by auto
    moreover have "passed s0 cur (L (calls x)) = passed s0 cur (L (calls w))"
      by (rule passed_grows(1) [OF ledger_grows [OF s x(2)] ledger_distinct [OF s] k cur(2)])
    ultimately show ?thesis using x(1,3) cur(1) i(2) by (auto simp: caught_up_def list_all_iff)
  qed
  with p show ?thesis by (auto simp: caught_up_def list_all_iff)
qed

lemma store_all:
  assumes s: "serves_ledger env L T" and c: "caught_up env L T s0 w" and k: "s0 \<in> sg_signature ` set (L (calls w))"
    and r: "rows_of env T (rev items) rows"
  shows "wp (store_rows env rows) (\<lambda>_ v. caught_up env L T s0 v \<and> hist_le w v \<and> xw_state v = xw_state w \<and>
      (\<forall>i \<in> set items. recorded (xv_keys env) T (xw_orders v) (sg_signature i))) (\<lambda>_ v. caught_up env L T s0 v \<and> hist_le w v) w"
proof -
  have st: "wp (store_rows env rows) (\<lambda>_ v. xw_state v = xw_state w) (\<lambda>_ _. True) w"
    by (auto simp: store_rows_def wps split: option.split)
  have rec: "recorded (xv_keys env) T rs (sg_signature i)"
    if "i \<in> set items" "\<forall>t \<in> sr_tx ` set rows. recorded (xv_keys env) T rs t" for i rs
  proof (cases "order_of (xv_keys env) T (sg_signature i)")
    case (Some x)
    with r that(1) have "sg_signature i \<in> sr_tx ` set rows" by (auto simp: rows_of_def)
    with that(2) show ?thesis by blast
  qed (simp add: recorded_def)
  have own: "list_all (own_order (xv_keys env) T) rows" using r by (simp add: rows_of_def)
  show ?thesis
    by (rule wp_mono [OF wp_conj [OF st wp_store_rows [OF s c k own]]]) (use rec in blast)+
qed

lemma distinct_found: "distinct (map sg_signature l) \<Longrightarrow> distinct (map sg_signature (rev (filter P (newer c l))))"
  by (simp add: newer_def rev_map [symmetric] distinct_map_filter) (simp add: distinct_map inj_on_def, metis set_takeWhileD)

lemma wp_index_solana_once:
  assumes s: "serves_ledger env L T" and c: "caught_up env L T s0 w" and k: "s0 \<in> sg_signature ` set (L (calls w))"
  shows "wp (index_solana_once fuel env) (\<lambda>_ v. caught_up env L T s0 v \<and> hist_le w v) (\<lambda>_ v. caught_up env L T s0 v \<and> hist_le w v) w"
proof -
  let ?R = "\<lambda>v. caught_up env L T s0 v \<and> hist_le w v"
  obtain cur slot where cur: "xw_state w = Some (Some cur, slot)" "at_or_newer s0 cur (L (calls w))"
    using c by (auto simp: caught_up_def split: option.splits prod.splits)
  note keep = caught_up_keep [OF s k]
  show ?thesis unfolding index_solana_once_def wp_bind [of "collect_candidate_signatures _ _"]
  proof (rule wp_mono [OF wp_conj [OF collect_found [OF s cur(1) at_or_newer_mem [OF cur(2) k]] tables.wp_le [OF tables_collect tables.le_refl]]], goal_cases)
    case (1 items u)
    let ?l = "ledger_at_start L cur w"
    from 1 have l: "suffix (L (calls w)) ?l" "suffix ?l (L (calls u))" "items = filter accepted_item (newer cur ?l)" by blast+
    have u: "?R u" "xw_state u = xw_state w" using keep [OF c hist.le_refl] 1 by (simp_all add: tables_le_def)
    have d: "distinct (map sg_signature (rev items))"
      unfolding l(3) using l(2) ledger_distinct [OF s, of "calls u"] by (intro distinct_found) (auto simp: suffix_def)
    show ?case
    proof (cases "items = []")
      case False
      then have "hd items \<in> set (newer cur ?l)" using hd_in_set [OF False] unfolding l(3) by auto
      then have n: "sg_signature (hd items) \<in> sg_signature ` set (newer cur ?l)" by blast
      let ?finish = "\<lambda>stored :: nat. thenE (set_state env (sg_signature (hd items)) (sg_slot (hd items))) (ret stored)"
      let ?all = "\<lambda>x. ?R x \<and> hist_le u x \<and> xw_state x = xw_state w \<and>
          (\<forall>i \<in> set items. recorded (xv_keys env) T (xw_orders x) (sg_signature i))"
      have finish: "wp (?finish m) (\<lambda>_. ?R) (\<lambda>_. ?R) x" if x: "?all x" for x m
      proof -
        let ?x = "x\<lparr>calls := SetState # calls x\<rparr>"
        have "tables_le x ?x" by (simp add: tables_le_def hist_le_def)
        with x have x': "?R ?x" using keep by blast
        have "hist_le x ?x" by (simp add: hist_le_def)
        with x have "hist_le u ?x" using hist.le_trans by blast
        then have "suffix ?l (L (calls ?x))" using ledger_grows [OF s] l(2) suffix_order.trans by blast
        with x x' have "caught_up env L T s0 (?x\<lparr>xw_state := Some (Some (sg_signature (hd items)), sg_slot (hd items))\<rparr>)"
          by (intro caught_up_moves [OF s k cur l(1) _ n]) (simp_all add: l(3))
        with x' show ?thesis by (auto simp: set_state_def wps hist_le_def split: option.split)
      qed
      have notify: "wp (thenE (whenE (rows \<noteq> []) (notify_mms env rows)) (?finish m)) (\<lambda>_. ?R) (\<lambda>_. ?R) x" if x: "?all x" for x m rows
        unfolding wp_then [of "whenE _ _"]
      proof (rule wp_mono [OF tables.wp_le [OF tables.grows_when [OF tables_notify] tables.le_refl]], goal_cases)
        case (1 _ y)
        with x have "?all y" using keep [of x y] by (auto simp: tables_le_def intro: hist.le_trans)
        then show ?case by (rule finish)
      qed (use x keep in blast)
      have "wp (foldE (read_order env) [] (rev items)) (\<lambda>rows v. rows_of env T (rev items) rows \<and> tables_le u v) (\<lambda>_. tables_le u) u"
        by (rule wp_mono [OF wp_conj [OF wp_yields [OF yields_rows [OF s d]] tables.wp_le [OF tables_rows tables.le_refl]]]) simp_all
      then have "wp (foldE (read_order env) [] (rev items)) (\<lambda>rows. wp (bindE (store_rows env rows) (\<lambda>stored.
          thenE (whenE (rows \<noteq> []) (notify_mms env rows)) (?finish stored))) (\<lambda>_. ?R) (\<lambda>_. ?R)) (\<lambda>_. ?R) u"
      proof (rule wp_mono, goal_cases)
        case (1 rows v)
        with u have v: "?R v" "hist_le u v" "xw_state v = xw_state w" using keep [of u v] by (auto simp: tables_le_def)
        have k': "s0 \<in> sg_signature ` set (L (calls v))" using v(1) known_start [OF s _ k] by blast
        show ?case unfolding wp_bind
        proof (rule wp_mono [OF store_all [OF s conjunct1 [OF v(1)] k' conjunct1 [OF 1]]], goal_cases)
          case (1 m x)
          with v have "?all x" by (auto intro: hist.le_trans)
          then show ?case by (rule notify)
        qed (use v in \<open>auto intro: hist.le_trans\<close>)
      qed (use u keep in blast)
      with False show ?thesis by (simp add: wp_bind)
    qed (use u in \<open>simp add: wps\<close>)
  next
    case (2 e u)
    with keep [OF c hist.le_refl] show ?case by simp
  qed
qed

lemma wp_index_rounds:
  assumes s: "serves_ledger env L T"
  shows "caught_up env L T s0 w \<Longrightarrow> s0 \<in> sg_signature ` set (L (calls w)) \<Longrightarrow>
    wp (index_solana_rounds fuel n env) (\<lambda>_. caught_up env L T s0) (\<lambda>_. caught_up env L T s0) w"
proof (induction n arbitrary: w)
  case (Suc n)
  let ?R = "\<lambda>v. caught_up env L T s0 v \<and> hist_le w v"
  have wait: "wp (icall env c) (\<lambda>_. ?R) (\<lambda>_. ?R) v" if "?R v" for c v
    by (rule wp_mono [OF tables.wp_le [OF stored_call tables.le_refl]]) (use that caught_up_keep [OF s Suc.prems(2)] in blast)+
  have "wp (thenE (index_solana_once fuel env) (ret ())) (\<lambda>_. ?R) (\<lambda>_. ?R) w"
    unfolding wp_then by (rule wp_mono [OF wp_index_solana_once [OF s Suc.prems]]) (simp_all add: wps)
  then have "wp (catchE (thenE (index_solana_once fuel env) (ret ())) (\<lambda>_. ret ())) (\<lambda>_. ?R) (\<lambda>_. ?R) w"
    unfolding wp_catch by (rule wp_mono) (simp_all add: wps)
  then have round: "wp (index_solana_round fuel env) (\<lambda>_. ?R) (\<lambda>_. ?R) w"
    unfolding index_solana_round_def wp_then by (rule wp_mono) (simp_all add: wait)
  show ?case unfolding index_solana_rounds.simps wp_then
    by (rule wp_mono [OF round]) (use Suc.IH known_start [OF s _ Suc.prems(2)] in auto)
qed (simp add: wps)

section \<open>Properties\<close>


text \<open>
  C13: the collection ends. When the ledger at the first page has fewer items than the given number of full pages, the loop over
  the pages ends, unless a call fails with exactly the accepted items newer than the cursor, latest first, although the
  ledger grows between the pages.
\<close>

theorem collection_ends:
  assumes "serves_ledger env L T" and "xw_state w = Some (Some u, slot)" and "u \<in> sg_signature ` set (L (calls w))"
    and "\<And>h. xv_fails env h \<noteq> Some NoReturn" and "length (ledger_at_start L u w) < PAGE_LIMIT * fuel"
  shows "case collect_candidate_signatures fuel env w of
     (Inl e, _) \<Rightarrow> e \<noteq> NoReturn
   | (Inr items, _) \<Rightarrow> items = filter accepted_item (newer u (ledger_at_start L u w))"
proof -
  have "length (newer u (ledger_at_start L u w)) \<le> length (ledger_at_start L u w)"
    by (simp add: newer_def length_takeWhile_le)
  with collect_found [OF assms(1-3), of fuel] assms(4,5) show ?thesis
    by (auto simp: wp_def split: prod.splits sum.splits)
qed

text \<open>
  Metadata that are unknown once stay unknown: they are cached like any other answer, so that
  a token that is published or registered later keeps an order without strike and expiry, which the settler never selects.
\<close>

lemma unknown_metadata_stick:
  assumes "map_of (xw_meta w) otoken = Some UNKNOWN_META"
  shows "\<exists>v. load_solana_metadata env otoken w = (Inr UNKNOWN_META, v) \<and> calls v = calls w \<and>
    map_of (xw_meta v) otoken = Some UNKNOWN_META"
proof -
  have "map_of (filter (\<lambda>(k', _). k' \<noteq> otoken) (xw_meta w)) otoken = None" by (auto simp: map_of_eq_None_iff)
  then have "map_of (lru_used otoken UNKNOWN_META (xw_meta w)) otoken = Some UNKNOWN_META"
    by (simp add: lru_used_def map_add_def)
  with assms show ?thesis by (simp add: load_solana_metadata_def run_defs)
qed

section \<open>A concrete node\<close>

definition demo_item :: "string \<Rightarrow> int \<Rightarrow> sig_item" where
  "demo_item s n = \<lparr>sg_signature = s, sg_slot = n, sg_err = False, sg_status = Some ''finalized'', sg_time = Some n\<rparr>"

text \<open>The ledger has three transactions at first, and a fourth once it has been asked.\<close>

definition demo_ledger :: "index_call list \<Rightarrow> sig_item list" where
  "demo_ledger h = (if h = [] then [] else [demo_item ''d'' 14]) @ [demo_item ''c'' 13, demo_item ''b'' 12, demo_item ''a'' 11]"

definition demo_tx :: "string \<Rightarrow> sol_tx" where
  "demo_tx s = \<lparr>stx_err = False, stx_logs =
     (if s = ''c'' then map log_line [CollateralDeposited (demo_deposit 5), OrderExecuted (demo_order 9)] else [])\<rparr>"

definition demo_index_env :: index_env where
  "demo_index_env = \<lparr>xv_fails = \<lambda>_. None, xv_now = \<lambda>_. 0,
     xv_page = \<lambda>h. (case h of Signatures b u # _ \<Rightarrow> page_of b u (demo_ledger h) | _ \<Rightarrow> []),
     xv_tx = \<lambda>h. (case h of Transaction s # _ \<Rightarrow> Some (demo_tx s) | _ \<Rightarrow> None), xv_account = \<lambda>_. None,
     xv_keys = demo_keys, xv_controller = replicate 32 CHR ''k'', xv_addresses = oe_addresses demo_otk_env, xv_interval = 5\<rparr>"

definition demo_index_world :: index_world where
  "demo_index_world = \<lparr>calls = [], xw_orders = [], xw_state = Some (Some ''a'', 11), xw_available = [], xw_meta = []\<rparr>"

lemma demo_serves_ledger: "serves_ledger demo_index_env demo_ledger demo_tx"
  by (auto simp: serves_ledger_def demo_index_env_def demo_ledger_def demo_item_def suffix_def)

lemma demo_start:
  "xw_state demo_index_world = Some (Some ''a'', 11)" "''a'' \<in> sg_signature ` set (demo_ledger (calls demo_index_world))"
  "xv_keys demo_index_env = demo_keys" "\<And>h. xv_fails demo_index_env h \<noteq> Some NoReturn"
  by (simp_all add: demo_index_world_def demo_ledger_def demo_item_def demo_index_env_def)


theorem collection_ends_witness:
  "case collect_candidate_signatures 1 demo_index_env demo_index_world of
     (Inl e, _) \<Rightarrow> e \<noteq> NoReturn
   | (Inr items, _) \<Rightarrow> items = [demo_item ''d'' 14, demo_item ''c'' 13, demo_item ''b'' 12]"
proof -
  have l: "ledger_at_start demo_ledger ''a'' demo_index_world = [demo_item ''d'' 14, demo_item ''c'' 13, demo_item ''b'' 12, demo_item ''a'' 11]"
    by (simp add: ledger_at_start_def demo_ledger_def)
  have "filter accepted_item (newer ''a'' [demo_item ''d'' 14, demo_item ''c'' 13, demo_item ''b'' 12, demo_item ''a'' 11]) =
      [demo_item ''d'' 14, demo_item ''c'' 13, demo_item ''b'' 12]"
    by (simp add: newer_def demo_item_def accepted_item_def)
  with collection_ends [OF demo_serves_ledger demo_start(1,2,4), of 1] show ?thesis
    unfolding l by (auto simp: PAGE_LIMIT_def split: prod.splits sum.splits)
qed

end
