(* ===== verification/Solana_Chain.thy ===== *)
theory Solana_Chain
  imports Solana_Orders
begin

text \<open>
  The world of the Solana expiry settler, \<open>src/bots/solana_expiry_settler.py\<close>: its calls to the
  chain, the oracle services and the swap service, and its helpers for accounts, associated token
  accounts and transactions.
\<close>

section \<open>World and environment\<close>

record account =
  ac_owner :: pubkey
  ac_data :: "byte list"

text \<open>A Hermes answer: the update in base64 and the parsed price. \<open>None\<close> is an answer of another shape.\<close>

record hermes_update =
  hu_data :: string
  hu_price :: int
  hu_conf :: int
  hu_expo :: int
  hu_publish :: int

text \<open>
  A Jupiter quote with its error and the two amounts that the code reads, and the swap instructions as the
  service gives them: program, accounts and data as strings. \<open>None\<close> stands for an absent field.
\<close>

record jup_quote =
  jq_error :: "string option"
  jq_threshold :: "string option"
  jq_out :: "string option"

record raw_instruction =
  ri_program :: string
  ri_accounts :: "(string \<times> bool \<times> bool) list"
  ri_data :: string

record jup_swap =
  js_error :: "string option"
  js_swap :: "raw_instruction option"
  js_budget :: "raw_instruction list"
  js_setup :: "raw_instruction list"
  js_other :: "raw_instruction list"
  js_tables :: "string list"

datatype chain_call =
    QueryExpired | QueryRecovery | UpdateRow string int
  | ReadAccount pubkey | ProgramAccounts pubkey "byte list" | TokenAccounts pubkey pubkey
  | LoadOperator | Blockhash | SendTx "instruction list" "(pubkey \<times> pubkey list) list"
  | MonotonicTime | FetchPrice string | FetchUpdate string
  | FetchQuote pubkey pubkey int string int | FetchSwap jup_quote pubkey pubkey
  | Pausing int

text \<open>\<open>zw_prices\<close> is the price cache of \<open>chains/solana/oracle.py\<close>: price, publish time, time of the entry.\<close>

record chain_world = "chain_call hist" +
  zw_orders :: "sol_order list"
  zw_prices :: "(string \<times> rat \<times> int \<times> int) list"

record settler_settings =
  zs_settler_id :: string
  zs_controller_id :: string
  zs_oracle_id :: string
  zs_pyth_receiver :: string
  zs_slippage :: rat
  zs_sweep_cycles :: nat
  zs_sweep_interval :: int
  zs_settle_hour :: int

text \<open>
  The environment: failing calls and the answers, as functions of the history up to and including the
  call; the key library with the programs' addresses; which exceptions of libraries are RPC, HTTP or system errors.
\<close>

record chain_env =
  ze_fails :: "chain_call list \<Rightarrow> exn option"
  ze_now :: "chain_call list \<Rightarrow> int"
  ze_account :: "chain_call list \<Rightarrow> account option"
  ze_program_accounts :: "chain_call list \<Rightarrow> (pubkey \<times> byte list) list"
  ze_token_accounts :: "chain_call list \<Rightarrow> pubkey list"
  ze_signature :: "chain_call list \<Rightarrow> string"
  ze_monotonic :: "chain_call list \<Rightarrow> int"
  ze_price :: "chain_call list \<Rightarrow> hermes_update option"
  ze_update :: "chain_call list \<Rightarrow> hermes_update option"
  ze_keypair :: "chain_call list \<Rightarrow> pubkey"
  ze_quote :: "chain_call list \<Rightarrow> jup_quote"
  ze_swap :: "chain_call list \<Rightarrow> jup_swap"
  ze_keys :: solana_keys
  ze_token_2022 :: pubkey
  ze_ata_program :: pubkey
  ze_wormhole :: pubkey
  ze_create_ata :: "pubkey \<Rightarrow> pubkey \<Rightarrow> pubkey \<Rightarrow> pubkey \<Rightarrow> instruction"
  ze_lookup_table :: "byte list \<Rightarrow> exn + pubkey list"
  ze_sha256_first :: "string \<Rightarrow> byte"
  ze_rpc_error :: "string \<Rightarrow> bool"
  ze_settings :: settler_settings

type_synonym 'a zpy = "(chain_world, 'a) py"

abbreviation zcall :: "chain_env \<Rightarrow> chain_call \<Rightarrow> unit zpy" where
  "zcall env c \<equiv> perform (ze_fails env) c"

definition zread :: "chain_env \<Rightarrow> chain_call \<Rightarrow> (chain_call list \<Rightarrow> 'a) \<Rightarrow> 'a zpy" where
  "zread env c f = thenE (zcall env c) (getsE (\<lambda>w. f (calls w)))"

lemma wp_zread [wps]:
  "wp (zread env c f) Q E w =
   (case ze_fails env (c # calls w) of
      Some e \<Rightarrow> E e (w\<lparr>calls := c # calls w\<rparr>)
    | None \<Rightarrow> Q (f (c # calls w)) (w\<lparr>calls := c # calls w\<rparr>))"
  by (simp add: zread_def wps split: option.split)

definition unix_time :: "chain_env \<Rightarrow> int zpy" where
  "unix_time env = getsE (\<lambda>w. ze_now env (calls w) div 1000000)"

text \<open>\<open>except (...)\<close>: only the given exceptions are handled.\<close>

definition catch_those :: "(exn \<Rightarrow> bool) \<Rightarrow> ('w, 'a) py \<Rightarrow> ('w, 'a) py \<Rightarrow> ('w, 'a) py" where
  "catch_those p m h = catchE m (\<lambda>e. if p e then h else raise e)"

definition chain_error :: "chain_env \<Rightarrow> exn \<Rightarrow> bool" where
  "chain_error env e \<longleftrightarrow> (case e of RuntimeError _ \<Rightarrow> True | OtherError m \<Rightarrow> ze_rpc_error env m | _ \<Rightarrow> False)"

definition price_error :: "chain_env \<Rightarrow> exn \<Rightarrow> bool" where
  "price_error env e \<longleftrightarrow> (case e of ValueError _ \<Rightarrow> True | _ \<Rightarrow> chain_error env e)"

section \<open>Addresses\<close>

definition settler_program_ids :: "chain_env \<Rightarrow> exn + pubkey \<times> pubkey" where
  "settler_program_ids env =
     (case sk_from_string (ze_keys env) (zs_settler_id (ze_settings env)) of
        Inl e \<Rightarrow> Inl e
      | Inr s \<Rightarrow> map_sum id (\<lambda>c. (s, c)) (sk_from_string (ze_keys env) (zs_controller_id (ze_settings env))))"

definition key_of :: "chain_env \<Rightarrow> string \<Rightarrow> exn + pubkey" where
  "key_of env s = sk_from_string (ze_keys env) s"

definition derive_pda :: "chain_env \<Rightarrow> byte list list \<Rightarrow> pubkey \<Rightarrow> pubkey" where
  "derive_pda env seeds program = sk_find_program_address (ze_keys env) seeds program"

definition operator_key :: "chain_env \<Rightarrow> pubkey" where
  "operator_key env = sk_operator (ze_keys env)"

definition load_operator :: "chain_env \<Rightarrow> pubkey zpy" where
  "load_operator env = thenE (zcall env LoadOperator) (ret (operator_key env))"

definition key_text :: "chain_env \<Rightarrow> pubkey \<Rightarrow> string" where
  "key_text env k = sk_to_string (ze_keys env) k"

section \<open>Accounts\<close>

definition token_program_for_mint :: "chain_env \<Rightarrow> pubkey \<Rightarrow> pubkey zpy" where
  "token_program_for_mint env mint =
     bindE (zread env (ReadAccount mint) (ze_account env)) (\<lambda>acc. case acc of
       None \<Rightarrow> raise (RuntimeError (''Mint account not found: '' @ key_text env mint))
     | Some a \<Rightarrow>
         if \<not> elem (ac_owner a) [sk_token_program (ze_keys env), ze_token_2022 env]
         then raise (RuntimeError (''Unsupported token program for mint '' @ key_text env mint @ '': '' @ key_text env (ac_owner a)))
         else ret (ac_owner a))"

definition ata_of :: "chain_env \<Rightarrow> pubkey \<Rightarrow> pubkey \<Rightarrow> pubkey \<Rightarrow> pubkey" where
  "ata_of env owner mint token_program = derive_pda env [owner, token_program, mint] (ze_ata_program env)"

text \<open>\<open>_derive_ata\<close>; without a program it is read from the mint.\<close>

definition derive_ata :: "chain_env \<Rightarrow> pubkey \<Rightarrow> pubkey \<Rightarrow> pubkey option \<Rightarrow> pubkey zpy" where
  "derive_ata env owner mint token_program =
     bindE (case token_program of None \<Rightarrow> token_program_for_mint env mint | Some p \<Rightarrow> ret p) (\<lambda>p.
       ret (ata_of env owner mint p))"

definition send_ixs :: "chain_env \<Rightarrow> instruction list \<Rightarrow> (pubkey \<times> pubkey list) list \<Rightarrow> string zpy" where
  "send_ixs env ixs tables =
     thenE (zcall env LoadOperator) (thenE (zcall env Blockhash) (zread env (SendTx ixs tables) (ze_signature env)))"

definition send_one :: "chain_env \<Rightarrow> instruction \<Rightarrow> string zpy" where
  "send_one env ix = send_ixs env [ix] []"

definition read_account_data :: "chain_env \<Rightarrow> pubkey \<Rightarrow> byte list option zpy" where
  "read_account_data env k = bindE (zread env (ReadAccount k) (ze_account env)) (\<lambda>a. ret (map_option ac_data a))"

definition read_address_lookup_table :: "chain_env \<Rightarrow> pubkey \<Rightarrow> (pubkey \<times> pubkey list) zpy" where
  "read_address_lookup_table env k =
     bindE (read_account_data env k) (\<lambda>d. case d of
       None \<Rightarrow> raise (RuntimeError (''Address lookup table not found: '' @ key_text env k))
     | Some bs \<Rightarrow> bindE (liftE (ze_lookup_table env bs)) (\<lambda>addresses. ret (k, addresses)))"

definition has_account :: "chain_env \<Rightarrow> pubkey \<Rightarrow> bool zpy" where
  "has_account env k = bindE (read_account_data env k) (\<lambda>d. ret (d \<noteq> None))"

definition ensure_ata_exists :: "chain_env \<Rightarrow> pubkey \<Rightarrow> pubkey \<Rightarrow> pubkey zpy" where
  "ensure_ata_exists env owner mint =
     bindE (token_program_for_mint env mint) (\<lambda>token_program.
     bindE (derive_ata env owner mint (Some token_program)) (\<lambda>ata.
     bindE (has_account env ata) (\<lambda>there.
       if there then ret ata
       else bindE (load_operator env) (\<lambda>operator.
              thenE (bindE (send_one env (ze_create_ata env operator owner mint token_program)) (\<lambda>_. ret ())) (ret ata)))))"

definition find_pool_token_account :: "chain_env \<Rightarrow> pubkey \<Rightarrow> pubkey \<Rightarrow> pubkey zpy" where
  "find_pool_token_account env authority mint =
     bindE (token_program_for_mint env mint) (\<lambda>token_program.
     bindE (zread env (TokenAccounts authority mint) (ze_token_accounts env)) (\<lambda>found. case found of
       k # _ \<Rightarrow> ret k
     | [] \<Rightarrow> derive_ata env authority mint (Some token_program)))"

section \<open>Looking and sending leave the tables alone\<close>

definition orders_le :: "chain_world \<Rightarrow> chain_world \<Rightarrow> bool" where
  "orders_le w v \<longleftrightarrow> hist_le w v \<and> zw_orders v = zw_orders w"

interpretation olds: world_order orders_le
  by unfold_locales (auto simp: orders_le_def hist.le_refl intro: hist.le_trans)

lemma olds_call: "grows orders_le (zcall env c)"
  by (rule grows_perform) (simp add: orders_le_def hist_le_def)

lemma olds_read: "grows orders_le (zread env c f)"
  unfolding zread_def by (intro olds.grows_then olds_call olds.grows_gets)

lemma olds_time: "grows orders_le (unix_time env)"
  unfolding unix_time_def by (rule olds.grows_gets)

lemma olds_operator: "grows orders_le (load_operator env)"
  unfolding load_operator_def by (intro olds.rules olds_call)

lemma olds_those: "grows orders_le m \<Longrightarrow> grows orders_le h \<Longrightarrow> grows orders_le (catch_those p m h)"
  unfolding catch_those_def by (intro olds.rules)

lemma olds_account: "grows orders_le (read_account_data env k)"
  unfolding read_account_data_def by (intro olds.rules olds_read)

named_theorems olds_rules "programs that leave the orders alone"

lemmas [olds_rules] = olds.rules olds_call olds_read olds_time olds_operator olds_those olds_account

lemma olds_program [olds_rules]: "grows orders_le (token_program_for_mint env mint)"
  unfolding token_program_for_mint_def by (intro olds_rules)

lemma olds_ata [olds_rules]: "grows orders_le (derive_ata env owner mint p)"
  unfolding derive_ata_def by (intro olds_rules)

lemma olds_send [olds_rules]: "grows orders_le (send_ixs env ixs tables)" "grows orders_le (send_one env ix)"
  unfolding send_one_def send_ixs_def by (intro olds_rules)+

lemma olds_has [olds_rules]: "grows orders_le (has_account env k)"
  unfolding has_account_def by (intro olds_rules)

lemma olds_table [olds_rules]: "grows orders_le (read_address_lookup_table env k)"
  unfolding read_address_lookup_table_def by (intro olds_rules)

lemma olds_ensure [olds_rules]: "grows orders_le (ensure_ata_exists env owner mint)"
  unfolding ensure_ata_exists_def by (intro olds_rules)

lemma olds_pool [olds_rules]: "grows orders_le (find_pool_token_account env a m)"
  unfolding find_pool_token_account_def by (intro olds_rules)

end
