(* ===== verification/Solana_Pyth.thy ===== *)
theory Solana_Pyth
  imports Solana_Chain
begin

text \<open>
  Prices of the Solana assets: \<open>get_pyth_price\<close> of \<open>src/chains/solana/oracle.py\<close>, and the Pyth part of
  \<open>src/bots/solana_expiry_settler.py\<close>: price accounts, accumulator updates, reduced guardian signatures, and the
  posting of a fresh update.
\<close>

section \<open>Bytes\<close>

definition INDEX_ERROR :: exn where "INDEX_ERROR = OtherError ''IndexError: index out of range''"

text \<open>\<open>b[i]\<close>, with the exception when the index is out of range; \<open>struct.unpack_from("<i", d, off)\<close>; \<open>int.from_bytes(b, "big", signed=True)\<close>.\<close>

definition byte_at :: "byte list \<Rightarrow> nat \<Rightarrow> exn + nat" where
  "byte_at d i = (if i < length d then Inr (unat (d ! i)) else Inl INDEX_ERROR)"

definition read_i32 :: "byte list \<Rightarrow> nat \<Rightarrow> int" where
  "read_i32 d off = (let n = int (from_bytes_le (slice off (off + 4) d)) in if n < 2 ^ 31 then n else n - 2 ^ 32)"

definition signed_be :: "byte list \<Rightarrow> int" where
  "signed_be b = (let n = int (from_bytes_be b) in if n < 2 ^ (8 * length b - 1) then n else n - 2 ^ (8 * length b))"

section \<open>The price of an asset\<close>

definition PRICE_TTL :: int where "PRICE_TTL = 5 * 1000000"

text \<open>\<open>price_raw * (10**exponent)\<close>: an integer for a natural exponent, otherwise a product of floats.\<close>

definition pyth_float :: "int \<Rightarrow> int \<Rightarrow> rat" where
  "pyth_float raw exponent =
     (if 0 \<le> exponent then of_int (raw * 10 ^ nat exponent)
      else fl (fl (of_int raw) * fl (1 / 10 ^ nat (- exponent))))"

definition get_pyth_price :: "chain_env \<Rightarrow> asset \<Rightarrow> (rat \<times> int) zpy" where
  "get_pyth_price env a =
     (let cfg = asset_configs a in
      if ac_chain cfg \<noteq> SOLANA then raise (ValueError (asset_value a @ '' is not a Solana asset. Use Chainlink.''))
      else
        bindE (liftE (pyth_feed_id cfg)) (\<lambda>feed.
        bindE (zread env MonotonicTime (ze_monotonic env)) (\<lambda>now.
        bindE (getsE (\<lambda>w. map_of (zw_prices w) (ac_symbol cfg))) (\<lambda>cached.
          case (case cached of None \<Rightarrow> None | Some (p, t, at_time) \<Rightarrow> if now - at_time < PRICE_TTL then Some (p, t) else None) of
            Some r \<Rightarrow> ret r
          | None \<Rightarrow>
              bindE (catchE (zread env (FetchPrice feed) (ze_price env)) (\<lambda>e. case e of
                  OtherError m \<Rightarrow> if ze_rpc_error env m then raise (RuntimeError (''Pyth Hermes API request failed for '' @ asset_value a)) else raise e
                | _ \<Rightarrow> raise e)) (\<lambda>answer. case answer of
                None \<Rightarrow> raise (ValueError (''Unexpected Pyth response format for '' @ asset_value a))
              | Some u \<Rightarrow>
                  if hu_price u \<le> 0 then raise (ValueError (''Pyth returned non-positive price for '' @ asset_value a @ '': '' @ int_str (hu_price u)))
                  else
                    (let p = pyth_float (hu_price u) (hu_expo u) in
                     thenE (modifyE (\<lambda>w. w\<lparr>zw_prices := dict_put (ac_symbol cfg) (p, hu_publish u, now) (zw_prices w)\<rparr>))
                       (ret (p, hu_publish u))))))))"

definition normalize_pyth_price_to_8dec :: "chain_env \<Rightarrow> asset \<Rightarrow> int zpy" where
  "normalize_pyth_price_to_8dec env a =
     bindE (get_pyth_price env a) (\<lambda>(price_float, _).
       let price_8dec = py_trunc (fl (fl price_float * 100000000)) in
       if price_8dec \<le> 0 then raise (ValueError (''Pyth price for '' @ asset_value a @ '' normalized to '' @ int_str price_8dec))
       else ret price_8dec)"

section \<open>The oracle program's configuration\<close>

definition PYTH_RECEIVER_OFFSET :: nat where "PYTH_RECEIVER_OFFSET = 104"
definition MAX_STALENESS_OFFSET :: nat where "MAX_STALENESS_OFFSET = 136"

definition oracle_config_data :: "chain_env \<Rightarrow> byte list option zpy" where
  "oracle_config_data env =
     bindE (liftE (key_of env (zs_oracle_id (ze_settings env)))) (\<lambda>oracle.
       read_account_data env (derive_pda env [ascii ''oracle_config''] oracle))"

definition read_oracle_pyth_receiver_program :: "chain_env \<Rightarrow> pubkey zpy" where
  "read_oracle_pyth_receiver_program env =
     (if zs_pyth_receiver (ze_settings env) \<noteq> [] then liftE (key_of env (zs_pyth_receiver (ze_settings env)))
      else bindE (oracle_config_data env) (\<lambda>d. case d of
        None \<Rightarrow> raise (RuntimeError ''Cannot read oracle_config.pyth_receiver_program'')
      | Some bs \<Rightarrow>
          if length bs < PYTH_RECEIVER_OFFSET + 32 then raise (RuntimeError ''Cannot read oracle_config.pyth_receiver_program'')
          else ret (slice PYTH_RECEIVER_OFFSET (PYTH_RECEIVER_OFFSET + 32) bs)))"

definition read_oracle_max_staleness :: "chain_env \<Rightarrow> int zpy" where
  "read_oracle_max_staleness env =
     bindE (oracle_config_data env) (\<lambda>d. case d of
       None \<Rightarrow> raise (RuntimeError ''Cannot read oracle_config.max_staleness'')
     | Some bs \<Rightarrow>
         if length bs < MAX_STALENESS_OFFSET + 8 then raise (RuntimeError ''Cannot read oracle_config.max_staleness'')
         else ret (read_u64 bs MAX_STALENESS_OFFSET))"

section \<open>Price accounts\<close>

definition PRICE_UPDATE_V2_DISC :: "byte list" where "PRICE_UPDATE_V2_DISC = [34, 241, 35, 99, 157, 126, 244, 205]"
definition PYTH_FEED_ID_OFFSET :: nat where "PYTH_FEED_ID_OFFSET = 41"
definition PYTH_PRICE_OFFSET :: nat where "PYTH_PRICE_OFFSET = 73"
definition PYTH_CONF_OFFSET :: nat where "PYTH_CONF_OFFSET = 81"
definition PYTH_EXPO_OFFSET :: nat where "PYTH_EXPO_OFFSET = 89"
definition PYTH_PUBLISH_TIME_OFFSET :: nat where "PYTH_PUBLISH_TIME_OFFSET = 93"

lemmas pyth_offsets = PYTH_FEED_ID_OFFSET_def PYTH_PRICE_OFFSET_def PYTH_CONF_OFFSET_def PYTH_EXPO_OFFSET_def PYTH_PUBLISH_TIME_OFFSET_def

record price_update =
  pu_price :: int
  pu_conf :: int
  pu_exponent :: int
  pu_publish_time :: int

definition parse_pyth_price_update :: "byte list \<Rightarrow> string \<Rightarrow> price_update option" where
  "parse_pyth_price_update d expected_feed_id =
     (if length d < PYTH_PUBLISH_TIME_OFFSET + 8 then None
      else if take 8 d \<noteq> PRICE_UPDATE_V2_DISC then None
      else if to_hex (slice PYTH_FEED_ID_OFFSET (PYTH_FEED_ID_OFFSET + 32) d) \<noteq> expected_feed_id then None
      else
        (let price = read_i64 (slice PYTH_PRICE_OFFSET (PYTH_PRICE_OFFSET + 8) d); exponent = read_i32 d PYTH_EXPO_OFFSET in
         if price \<le> 0 \<or> exponent > 0 then None
         else Some \<lparr>pu_price = price, pu_conf = read_u64 d PYTH_CONF_OFFSET, pu_exponent = exponent,
                    pu_publish_time = read_i64 (slice PYTH_PUBLISH_TIME_OFFSET (PYTH_PUBLISH_TIME_OFFSET + 8) d)\<rparr>))"

text \<open>The loop over the accounts: the first one with the latest publish time.\<close>

definition better_entry :: "string \<Rightarrow> pubkey \<times> byte list \<Rightarrow> (int \<times> pubkey) option \<Rightarrow> (int \<times> pubkey) option" where
  "better_entry feed acc best =
     (case parse_pyth_price_update (snd acc) feed of
        None \<Rightarrow> best
      | Some u \<Rightarrow> if (case best of None \<Rightarrow> True | Some (t, _) \<Rightarrow> pu_publish_time u > t) then Some (pu_publish_time u, fst acc) else best)"

definition hex_bytes :: "string \<Rightarrow> exn + byte list" where
  "hex_bytes s = (case fromhex s of None \<Rightarrow> Inl (ValueError ''non-hexadecimal number found in fromhex()'') | Some b \<Rightarrow> Inr b)"

definition find_latest_pyth_price_update_entry :: "chain_env \<Rightarrow> asset \<Rightarrow> (pubkey \<times> int) option zpy" where
  "find_latest_pyth_price_update_entry env a =
     bindE (read_oracle_pyth_receiver_program env) (\<lambda>receiver.
     bindE (liftE (pyth_feed_id (asset_configs a))) (\<lambda>feed.
     bindE (liftE (hex_bytes feed)) (\<lambda>feed_bytes.
     bindE (zread env (ProgramAccounts receiver feed_bytes) (ze_program_accounts env)) (\<lambda>found.
       ret (map_option (\<lambda>(t, k). (k, t)) (fold (better_entry feed) found None))))))"

definition find_latest_pyth_price_update :: "chain_env \<Rightarrow> asset \<Rightarrow> pubkey zpy" where
  "find_latest_pyth_price_update env a =
     bindE (find_latest_pyth_price_update_entry env a) (\<lambda>best. case best of
       None \<Rightarrow> raise (RuntimeError (''No Pyth PriceUpdateV2 account found for '' @ asset_value a))
     | Some (k, _) \<Rightarrow> ret k)"

section \<open>Accumulator updates\<close>

text \<open>Little-endian length prefixes of Borsh.\<close>

definition pack_u32 :: "nat \<Rightarrow> exn + byte list" where
  "pack_u32 n = (if n < 2 ^ 32 then Inr (to_bytes_le 4 n) else Inl (OtherError ''struct.error: argument out of range''))"

definition borsh_bytes :: "byte list \<Rightarrow> exn + byte list" where
  "borsh_bytes raw = concat_results [pack_u32 (length raw), Inr raw]"

definition KECCAK160_HASH_SIZE :: nat where "KECCAK160_HASH_SIZE = 20"

definition borsh_vec_fixed_20 :: "byte list list \<Rightarrow> exn + byte list" where
  "borsh_vec_fixed_20 items =
     concat_results (pack_u32 (length items) #
       map (\<lambda>i. if length i \<noteq> KECCAK160_HASH_SIZE then Inl (ValueError ''Invalid Pyth proof item length'') else Inr i) items)"

definition ACCUMULATOR_MAGIC :: "byte list" where "ACCUMULATOR_MAGIC = [80, 78, 65, 85]"

record pyth_message =
  pm_message :: "byte list"
  pm_proof :: "byte list list"

text \<open>The two inner loops, with the cursor; slices beyond the end are shorter, indices beyond the end raise.\<close>

fun take_proofs :: "nat \<Rightarrow> nat \<Rightarrow> byte list \<Rightarrow> byte list list \<times> nat" where
  "take_proofs 0 cursor d = ([], cursor)"
| "take_proofs (Suc n) cursor d =
     (case take_proofs n (cursor + KECCAK160_HASH_SIZE) d of
        (ps, c) \<Rightarrow> (slice cursor (cursor + KECCAK160_HASH_SIZE) d # ps, c))"

fun take_updates :: "nat \<Rightarrow> nat \<Rightarrow> byte list \<Rightarrow> exn + pyth_message list \<times> nat" where
  "take_updates 0 cursor d = Inr ([], cursor)"
| "take_updates (Suc n) cursor d =
     (let message_size = from_bytes_be (slice cursor (cursor + 2) d);
          message = slice (cursor + 2) (cursor + 2 + message_size) d;
          c = cursor + 2 + message_size in
      case byte_at d c of
        Inl e \<Rightarrow> Inl e
      | Inr num_proofs \<Rightarrow>
          (case take_proofs num_proofs (c + 1) d of
             (proof_items, c') \<Rightarrow>
               (case take_updates n c' d of
                  Inl e \<Rightarrow> Inl e
                | Inr (us, c'') \<Rightarrow> Inr (\<lparr>pm_message = message, pm_proof = proof_items\<rparr> # us, c''))))"

definition parse_pyth_accumulator_update :: "byte list \<Rightarrow> exn + byte list \<times> pyth_message list" where
  "parse_pyth_accumulator_update d =
     (if length d < 11 \<or> take 4 d \<noteq> ACCUMULATOR_MAGIC \<or> d ! 4 \<noteq> 1 \<or> d ! 5 \<noteq> 0
      then Inl (ValueError ''Invalid Pyth accumulator update'')
      else
        (let cursor = 6 + 1 + unat (d ! 6) + 1;
             vaa_size = from_bytes_be (slice cursor (cursor + 2) d);
             vaa = slice (cursor + 2) (cursor + 2 + vaa_size) d;
             c = cursor + 2 + vaa_size in
         if length d \<le> c then Inl (ValueError ''Pyth accumulator missing updates'')
         else
           (case take_updates (unat (d ! c)) (c + 1) d of
              Inl e \<Rightarrow> Inl e
            | Inr (updates, c') \<Rightarrow>
                if c' \<noteq> length d then Inl (ValueError ''Trailing bytes in Pyth accumulator update'') else Inr (vaa, updates))))"

record feed_message =
  fm_feed_id :: string
  fm_price :: int
  fm_conf :: int
  fm_exponent :: int
  fm_publish_time :: int

definition parse_price_feed_message :: "byte list \<Rightarrow> exn + feed_message" where
  "parse_price_feed_message m =
     (if length m < 85 then Inl (ValueError ''Pyth price feed message too short'')
      else if m ! 0 \<noteq> 0 then Inl (ValueError ''Pyth message is not a price feed update'')
      else Inr \<lparr>fm_feed_id = to_hex (slice 1 33 m), fm_price = signed_be (slice 33 41 m),
                fm_conf = int (from_bytes_be (slice 41 49 m)), fm_exponent = signed_be (slice 49 53 m),
                fm_publish_time = int (from_bytes_be (slice 53 61 m))\<rparr>)"

section \<open>Guardian signatures\<close>

definition REDUCED_GUARDIAN_SIGNATURES :: nat where "REDUCED_GUARDIAN_SIGNATURES = 5"
definition VAA_SIGNATURE_SIZE :: nat where "VAA_SIGNATURE_SIZE = 66"

definition trim_pyth_vaa_signatures :: "byte list \<Rightarrow> nat \<Rightarrow> exn + byte list" where
  "trim_pyth_vaa_signatures vaa max_signatures =
     (if length vaa < 6 then Inl (ValueError ''Pyth VAA too short'')
      else
        (let current = unat (vaa ! 5) in
         if current < max_signatures then Inl (ValueError ''Pyth VAA has fewer guardian signatures than required'')
         else if current = max_signatures then Inr vaa
         else
           (let keep_end = 6 + max_signatures * VAA_SIGNATURE_SIZE; original_end = 6 + current * VAA_SIGNATURE_SIZE in
            Inr ((take keep_end vaa @ drop original_end vaa)[5 := of_nat max_signatures]))))"

definition pyth_guardian_set_index :: "byte list \<Rightarrow> exn + nat" where
  "pyth_guardian_set_index vaa =
     (if length vaa < 5 then Inl (ValueError ''Pyth VAA too short for guardian set index'') else Inr (from_bytes_be (slice 1 5 vaa)))"

section \<open>Posting an update\<close>

definition PYTH_POST_UPDATE_ATOMIC_DISC :: "byte list" where
  "PYTH_POST_UPDATE_ATOMIC_DISC = [49, 172, 84, 192, 175, 180, 52, 234]"

fun find_update :: "string \<Rightarrow> pyth_message list \<Rightarrow> exn + pyth_message option" where
  "find_update feed [] = Inr None"
| "find_update feed (u # us) =
     (case parse_price_feed_message (pm_message u) of
        Inl e \<Rightarrow> Inl e
      | Inr m \<Rightarrow> if fm_feed_id m = feed then Inr (Some u) else find_update feed us)"

definition post_update_data :: "byte list \<Rightarrow> pyth_message \<Rightarrow> byte \<Rightarrow> exn + byte list" where
  "post_update_data trimmed_vaa u treasury_id =
     concat_results [Inr PYTH_POST_UPDATE_ATOMIC_DISC, borsh_bytes trimmed_vaa, borsh_bytes (pm_message u),
       borsh_vec_fixed_20 (pm_proof u), Inr [treasury_id]]"

definition build_pyth_post_update_atomic_ix ::
  "chain_env \<Rightarrow> pubkey \<Rightarrow> byte list \<Rightarrow> string \<Rightarrow> byte \<Rightarrow> pubkey \<Rightarrow> instruction zpy" where
  "build_pyth_post_update_atomic_ix env receiver accumulator feed treasury_id price_account =
     bindE (liftE (parse_pyth_accumulator_update accumulator)) (\<lambda>(vaa, updates).
     bindE (liftE (trim_pyth_vaa_signatures vaa REDUCED_GUARDIAN_SIGNATURES)) (\<lambda>trimmed.
     bindE (liftE (find_update feed updates)) (\<lambda>found. case found of
       None \<Rightarrow> raise (ValueError ''Pyth accumulator does not contain expected feed'')
     | Some u \<Rightarrow>
         bindE (liftE (pyth_guardian_set_index vaa)) (\<lambda>index.
         bindE (load_operator env) (\<lambda>operator.
         bindE (liftE (post_update_data trimmed u treasury_id)) (\<lambda>d.
           ret \<lparr>ix_program = receiver, ix_data = d, ix_accounts =
             [(operator, True, True),
              (derive_pda env [ascii ''GuardianSet'', to_bytes_be 4 index] (ze_wormhole env), False, False),
              (derive_pda env [ascii ''config''] receiver, False, False),
              (derive_pda env [ascii ''treasury'', [treasury_id]] receiver, False, True),
              (price_account, True, True), (SYSTEM_PROGRAM, False, False), (operator, True, False)]\<rparr>))))))"

definition fetch_pyth_accumulator_update :: "chain_env \<Rightarrow> asset \<Rightarrow> (byte list \<times> hermes_update) zpy" where
  "fetch_pyth_accumulator_update env a =
     bindE (liftE (pyth_feed_id (asset_configs a))) (\<lambda>feed.
     bindE (zread env (FetchUpdate feed) (ze_update env)) (\<lambda>answer. case answer of
       None \<Rightarrow> raise (ValueError (''Unexpected Pyth Hermes update for '' @ asset_value a))
     | Some u \<Rightarrow> bindE (liftE (b64decode (hu_data u))) (\<lambda>bs. ret (bs, u))))"

text \<open>The index is never negative, so that its check has no branch here.\<close>

definition post_fresh_pyth_price_update :: "chain_env \<Rightarrow> asset \<Rightarrow> (pubkey \<times> int) zpy" where
  "post_fresh_pyth_price_update env a =
     bindE (liftE (pyth_feed_id (asset_configs a))) (\<lambda>feed.
     bindE (fetch_pyth_accumulator_update env a) (\<lambda>(accumulator, hermes).
     bindE (liftE (parse_pyth_accumulator_update accumulator)) (\<lambda>(vaa, updates).
       if updates = [] then raise (ValueError (''Pyth accumulator has no updates for '' @ asset_value a))
       else
         bindE (liftE (pyth_guardian_set_index vaa)) (\<lambda>_.
         bindE (getsE (\<lambda>w. ze_keypair env (calls w))) (\<lambda>price_account.
         bindE (read_oracle_pyth_receiver_program env) (\<lambda>receiver.
         bindE (build_pyth_post_update_atomic_ix env receiver accumulator feed (ze_sha256_first env feed) price_account) (\<lambda>ix.
         thenE (bindE (send_ixs env [ix] []) (\<lambda>_. ret ()))
           (ret (price_account, hu_publish hermes)))))))))"

definition ensure_fresh_pyth_price_update :: "chain_env \<Rightarrow> asset \<Rightarrow> pubkey zpy" where
  "ensure_fresh_pyth_price_update env a =
     bindE (read_oracle_max_staleness env) (\<lambda>max_staleness.
       if max_staleness = 0 then find_latest_pyth_price_update env a
       else
         bindE (unix_time env) (\<lambda>now.
         bindE (find_latest_pyth_price_update_entry env a) (\<lambda>best.
           case (case best of None \<Rightarrow> None | Some (k, t) \<Rightarrow> if now - t \<le> max_staleness then Some k else None) of
             Some k \<Rightarrow> ret k
           | None \<Rightarrow>
               bindE (post_fresh_pyth_price_update env a) (\<lambda>(k, t).
               bindE (unix_time env) (\<lambda>now'.
                 if max_staleness < now' - t then
                   raise (RuntimeError (''Hermes returned stale Pyth update for '' @ asset_value a))
                 else ret k)))))"

end
