(* ===== verification/Solana_Vaults.thy ===== *)
theory Solana_Vaults
  imports Solana_Pyth
begin

text \<open>
  The first half of \<open>src/bots/solana_expiry_settler.py\<close>: the queues and the marks in the database, the
  expiry prices (phase 0) and the settlement of vaults (phase 1).
\<close>

section \<open>Strikes\<close>

text \<open>Amounts below a million are dollars, others units of 1e-8 dollars. \<open>int\<close> truncates; the strike is positive.\<close>

definition strike_price_to_8dec :: "rat \<Rightarrow> exn + int" where
  "strike_price_to_8dec strike =
     (if strike \<le> 0 then Inl (ValueError ''Invalid strike_price'')
      else if strike < 1000000 then Inr \<lfloor>strike * 100000000\<rfloor>
      else Inr \<lfloor>strike\<rfloor>)"

section \<open>Queues\<close>

definition expired_columns :: "int \<Rightarrow> sol_order \<Rightarrow> bool" where
  "expired_columns now r \<longleftrightarrow> sr_chain r = ''solana'' \<and> (case sr_expiry r of None \<Rightarrow> False | Some e \<Rightarrow> e \<le> now) \<and>
     sr_strike r \<noteq> None \<and> sr_is_put r \<noteq> None"

definition due_solana :: "int \<Rightarrow> sol_order \<Rightarrow> bool" where
  "due_solana now r \<longleftrightarrow> expired_columns now r \<and> elem (sr_is_settled r) [Some False, None]"

definition pending_solana :: "int \<Rightarrow> sol_order \<Rightarrow> bool" where
  "pending_solana now r \<longleftrightarrow> expired_columns now r \<and> sr_is_settled r = Some True \<and> sr_delivery_tx r = None \<and>
     elem (sr_is_itm r) [None, Some True] \<and> sr_mm r \<noteq> None"

definition get_expired_unsettled_solana :: "chain_env \<Rightarrow> sol_order list zpy" where
  "get_expired_unsettled_solana env =
     bindE (unix_time env) (\<lambda>now.
       thenE (zcall env QueryExpired) (getsE (\<lambda>w. filter (due_solana now) (zw_orders w))))"

definition get_pending_phase2_solana :: "chain_env \<Rightarrow> sol_order list zpy" where
  "get_pending_phase2_solana env =
     bindE (unix_time env) (\<lambda>now.
       thenE (zcall env QueryRecovery) (getsE (\<lambda>w. filter (pending_solana now) (zw_orders w))))"

section \<open>Marks\<close>

definition is_position :: "string \<Rightarrow> int \<Rightarrow> sol_order \<Rightarrow> bool" where
  "is_position user vault r \<longleftrightarrow> sr_user r = user \<and> sr_vault r = vault \<and> sr_chain r = ''solana''"

definition db_update_solana :: "chain_env \<Rightarrow> string \<Rightarrow> int \<Rightarrow> (sol_order \<Rightarrow> sol_order) \<Rightarrow> unit zpy" where
  "db_update_solana env user vault f =
     thenE (zcall env (UpdateRow user vault))
       (modifyE (\<lambda>w. w\<lparr>zw_orders := tbl_update (is_position user vault) f (zw_orders w)\<rparr>))"

definition settled_mark :: "string \<Rightarrow> int \<Rightarrow> sol_order \<Rightarrow> sol_order" where
  "settled_mark tx now r = r\<lparr>sr_is_settled := Some True, sr_settled_at := Some now, sr_settlement_tx := Some tx,
     sr_settlement_type := Some ''cash''\<rparr>"

definition reconciled_mark :: "int \<Rightarrow> sol_order \<Rightarrow> sol_order" where
  "reconciled_mark now r = r\<lparr>sr_is_settled := Some True, sr_settled_at := Some now, sr_settlement_type := Some ''cash''\<rparr>"

definition redeemed_mark :: "string \<Rightarrow> int \<Rightarrow> sol_order \<Rightarrow> sol_order" where
  "redeemed_mark tx price r = r\<lparr>sr_settlement_type := Some ''physical'', sr_is_itm := Some True,
     sr_expiry_price := Some price, sr_delivery_tx := Some tx\<rparr>"

definition failed_mark :: "int \<Rightarrow> sol_order \<Rightarrow> sol_order" where
  "failed_mark price r = r\<lparr>sr_settlement_type := Some ''physical_failed'', sr_is_itm := Some True, sr_expiry_price := Some price\<rparr>"

definition otm_mark :: "int \<Rightarrow> sol_order \<Rightarrow> sol_order" where
  "otm_mark price r = r\<lparr>sr_is_itm := Some False, sr_expiry_price := Some price\<rparr>"

definition amount_mark :: "string \<Rightarrow> int \<Rightarrow> sol_order \<Rightarrow> sol_order" where
  "amount_mark contra amount r = r\<lparr>sr_delivered_asset := Some contra, sr_delivered_amount := Some amount\<rparr>"

lemmas mark_defs = settled_mark_def reconciled_mark_def redeemed_mark_def failed_mark_def otm_mark_def amount_mark_def

definition mark_settled :: "chain_env \<Rightarrow> string \<Rightarrow> int \<Rightarrow> string \<Rightarrow> unit zpy" where
  "mark_settled env user vault tx =
     bindE (getsE (\<lambda>w. ze_now env (calls w))) (\<lambda>now. db_update_solana env user vault (settled_mark tx now))"

definition mark_reconciled :: "chain_env \<Rightarrow> string \<Rightarrow> int \<Rightarrow> unit zpy" where
  "mark_reconciled env user vault =
     bindE (getsE (\<lambda>w. ze_now env (calls w))) (\<lambda>now. db_update_solana env user vault (reconciled_mark now))"

definition mark_itm_redeemed :: "chain_env \<Rightarrow> string \<Rightarrow> int \<Rightarrow> string \<Rightarrow> int \<Rightarrow> unit zpy" where
  "mark_itm_redeemed env user vault tx price = db_update_solana env user vault (redeemed_mark tx price)"

definition mark_itm_failed :: "chain_env \<Rightarrow> string \<Rightarrow> int \<Rightarrow> int \<Rightarrow> unit zpy" where
  "mark_itm_failed env user vault price = db_update_solana env user vault (failed_mark price)"

definition mark_solana_otm :: "chain_env \<Rightarrow> string \<Rightarrow> int \<Rightarrow> int \<Rightarrow> unit zpy" where
  "mark_solana_otm env user vault price = db_update_solana env user vault (otm_mark price)"

section \<open>Registered option data\<close>

definition OTOKEN_INFO_EXPIRY_PRICE_OFFSET :: nat where "OTOKEN_INFO_EXPIRY_PRICE_OFFSET = 154"
definition OTOKEN_INFO_UNDERLYING_OFFSET :: nat where "OTOKEN_INFO_UNDERLYING_OFFSET = 40"
definition OTOKEN_INFO_STRIKE_ASSET_OFFSET :: nat where "OTOKEN_INFO_STRIKE_ASSET_OFFSET = 72"
definition OTOKEN_INFO_COLLATERAL_OFFSET :: nat where "OTOKEN_INFO_COLLATERAL_OFFSET = 104"
definition OTOKEN_INFO_STRIKE_OFFSET :: nat where "OTOKEN_INFO_STRIKE_OFFSET = 136"
definition OTOKEN_INFO_EXPIRY_OFFSET :: nat where "OTOKEN_INFO_EXPIRY_OFFSET = 144"
definition OTOKEN_INFO_IS_PUT_OFFSET :: nat where "OTOKEN_INFO_IS_PUT_OFFSET = 152"

lemmas otoken_info_offsets = OTOKEN_INFO_EXPIRY_PRICE_OFFSET_def OTOKEN_INFO_UNDERLYING_OFFSET_def
  OTOKEN_INFO_STRIKE_ASSET_OFFSET_def OTOKEN_INFO_COLLATERAL_OFFSET_def OTOKEN_INFO_STRIKE_OFFSET_def
  OTOKEN_INFO_EXPIRY_OFFSET_def OTOKEN_INFO_IS_PUT_OFFSET_def

record otoken_info =
  oi_pda :: pubkey
  oi_underlying :: pubkey
  oi_strike_asset :: pubkey
  oi_collateral :: pubkey
  oi_strike :: int
  oi_expiry :: int
  oi_is_put :: bool
  oi_expiry_price :: int

definition otoken_info_at :: "pubkey \<Rightarrow> byte list \<Rightarrow> otoken_info" where
  "otoken_info_at pda d =
     \<lparr>oi_pda = pda,
      oi_underlying = slice OTOKEN_INFO_UNDERLYING_OFFSET (OTOKEN_INFO_UNDERLYING_OFFSET + 32) d,
      oi_strike_asset = slice OTOKEN_INFO_STRIKE_ASSET_OFFSET (OTOKEN_INFO_STRIKE_ASSET_OFFSET + 32) d,
      oi_collateral = slice OTOKEN_INFO_COLLATERAL_OFFSET (OTOKEN_INFO_COLLATERAL_OFFSET + 32) d,
      oi_strike = read_u64 d OTOKEN_INFO_STRIKE_OFFSET,
      oi_expiry = read_i64 (slice OTOKEN_INFO_EXPIRY_OFFSET (OTOKEN_INFO_EXPIRY_OFFSET + 8) d),
      oi_is_put = d ! OTOKEN_INFO_IS_PUT_OFFSET \<noteq> 0,
      oi_expiry_price = read_u64 d OTOKEN_INFO_EXPIRY_PRICE_OFFSET\<rparr>"

definition settler_info_pda :: "chain_env \<Rightarrow> pubkey \<Rightarrow> pubkey \<Rightarrow> pubkey" where
  "settler_info_pda env mint controller = derive_pda env [ascii ''otoken_info'', mint] controller"

definition read_otoken_info :: "chain_env \<Rightarrow> string \<Rightarrow> otoken_info option zpy" where
  "read_otoken_info env otoken =
     bindE (liftE (settler_program_ids env)) (\<lambda>(_, controller).
     bindE (liftE (key_of env otoken)) (\<lambda>mint.
     let pda = settler_info_pda env mint controller in
     bindE (read_account_data env pda) (\<lambda>d. case d of
       None \<Rightarrow> ret None
     | Some bs \<Rightarrow> ret (if length bs < OTOKEN_INFO_EXPIRY_PRICE_OFFSET + 8 then None else Some (otoken_info_at pda bs)))))"

definition read_otoken_info_expiry_price :: "chain_env \<Rightarrow> pubkey \<Rightarrow> int zpy" where
  "read_otoken_info_expiry_price env mint =
     bindE (liftE (settler_program_ids env)) (\<lambda>(_, controller).
     bindE (read_account_data env (settler_info_pda env mint controller)) (\<lambda>d. case d of
       None \<Rightarrow> ret 0
     | Some bs \<Rightarrow>
         ret (if length bs < OTOKEN_INFO_EXPIRY_PRICE_OFFSET + 8 then 0 else read_u64 bs OTOKEN_INFO_EXPIRY_PRICE_OFFSET)))"

section \<open>Phase 0: expiry prices\<close>

definition SET_EXPIRY_PRICE_DISC :: "byte list" where "SET_EXPIRY_PRICE_DISC = [202, 62, 212, 237, 124, 144, 28, 5]"

definition derive_oracle_expiry_price :: "chain_env \<Rightarrow> pubkey \<Rightarrow> int \<Rightarrow> exn + pubkey" where
  "derive_oracle_expiry_price env underlying expiry =
     (case key_of env (zs_oracle_id (ze_settings env)) of
        Inl e \<Rightarrow> Inl e
      | Inr oracle \<Rightarrow> map_sum id (\<lambda>t. derive_pda env [ascii ''expiry_price'', underlying, t] oracle) (pack_i64 expiry))"

text \<open>Discriminator, underlying, expiry, price, and whether it is final.\<close>

definition final_price_at :: "byte list \<Rightarrow> int" where
  "final_price_at d = (if length d < 58 then 0 else if d ! 56 \<noteq> 0 then read_u64 d 48 else 0)"

definition read_oracle_expiry_price :: "chain_env \<Rightarrow> pubkey \<Rightarrow> int \<Rightarrow> int zpy" where
  "read_oracle_expiry_price env underlying expiry =
     bindE (liftE (derive_oracle_expiry_price env underlying expiry)) (\<lambda>pda.
     bindE (read_account_data env pda) (\<lambda>d. ret (case d of None \<Rightarrow> 0 | Some bs \<Rightarrow> final_price_at bs)))"

text \<open>The attempts of the loop; the pause of a second is not made after the last.\<close>

definition ORACLE_ATTEMPTS :: nat where "ORACLE_ATTEMPTS = 6"

fun wait_attempts :: "chain_env \<Rightarrow> pubkey \<Rightarrow> int \<Rightarrow> nat \<Rightarrow> int zpy" where
  "wait_attempts env underlying expiry 0 = ret 0"
| "wait_attempts env underlying expiry (Suc attempts) =
     bindE (read_oracle_expiry_price env underlying expiry) (\<lambda>price.
       if price > 0 then ret price
       else thenE (whenE (attempts \<noteq> 0) (zcall env (Pausing 1000000))) (wait_attempts env underlying expiry attempts))"

definition wait_for_oracle_expiry_price :: "chain_env \<Rightarrow> pubkey \<Rightarrow> int \<Rightarrow> int zpy" where
  "wait_for_oracle_expiry_price env underlying expiry = wait_attempts env underlying expiry ORACLE_ATTEMPTS"

definition build_set_expiry_price_ix :: "chain_env \<Rightarrow> pubkey \<Rightarrow> instruction zpy" where
  "build_set_expiry_price_ix env mint =
     bindE (liftE (settler_program_ids env)) (\<lambda>(_, controller).
     bindE (liftE (key_of env (zs_oracle_id (ze_settings env)))) (\<lambda>oracle.
     bindE (read_otoken_info env (key_text env mint)) (\<lambda>info. case info of
       None \<Rightarrow> raise (RuntimeError (''Cannot read otoken_info for '' @ key_text env mint))
     | Some i \<Rightarrow>
         bindE (liftE (derive_oracle_expiry_price env (oi_underlying i) (oi_expiry i))) (\<lambda>price_account.
           ret \<lparr>ix_program = controller, ix_data = SET_EXPIRY_PRICE_DISC, ix_accounts =
             [(derive_pda env [ascii ''controller_config''] controller, False, False),
              (settler_info_pda env mint controller, False, True), (price_account, False, False),
              (oracle, False, False)]\<rparr>))))"

definition oracle_price_data :: "pubkey \<Rightarrow> int \<Rightarrow> int \<Rightarrow> exn + byte list" where
  "oracle_price_data underlying expiry price =
     concat_results [Inr SET_EXPIRY_PRICE_DISC, Inr underlying, pack_i64 expiry, pack_u64 price]"

definition build_oracle_set_expiry_price_ix :: "chain_env \<Rightarrow> pubkey \<Rightarrow> int \<Rightarrow> int \<Rightarrow> pubkey \<Rightarrow> instruction zpy" where
  "build_oracle_set_expiry_price_ix env underlying expiry price price_update =
     bindE (liftE (key_of env (zs_oracle_id (ze_settings env)))) (\<lambda>oracle.
     bindE (liftE (derive_oracle_expiry_price env underlying expiry)) (\<lambda>expiry_price.
     bindE (load_operator env) (\<lambda>operator.
     bindE (liftE (oracle_price_data underlying expiry price)) (\<lambda>d.
       ret \<lparr>ix_program = oracle, ix_data = d, ix_accounts =
         [(expiry_price, False, True), (derive_pda env [ascii ''oracle_config''] oracle, False, False),
          (derive_pda env [ascii ''feed'', underlying] oracle, False, False), (price_update, False, False),
          (operator, True, True), (SYSTEM_PROGRAM, False, False)]\<rparr>))))"

definition asset_map :: "(string \<times> asset) list" where "asset_map = [(''sol'', SOL), (''tslax'', TSLAX)]"

text \<open>Write the price of now to the oracle, and wait for it.\<close>

definition finalize_oracle_price :: "chain_env \<Rightarrow> asset \<Rightarrow> otoken_info \<Rightarrow> int zpy" where
  "finalize_oracle_price env a info =
     bindE (normalize_pyth_price_to_8dec env a) (\<lambda>price.
     bindE (ensure_fresh_pyth_price_update env a) (\<lambda>price_update.
     bindE (build_oracle_set_expiry_price_ix env (oi_underlying info) (oi_expiry info) price price_update) (\<lambda>ix.
     bindE (send_one env ix) (\<lambda>_. wait_for_oracle_expiry_price env (oi_underlying info) (oi_expiry info)))))"

text \<open>Copy the oracle's price into the option's data; \<open>_build_set_expiry_price_ix\<close> is inside or outside the handler.\<close>

definition try_set_expiry_price :: "chain_env \<Rightarrow> instruction zpy \<Rightarrow> unit zpy" where
  "try_set_expiry_price env build = catch_those (chain_error env) (bindE build (\<lambda>ix. bindE (send_one env ix) (\<lambda>_. ret ()))) (ret ())"

text \<open>The oracle's price, written when it is missing; 0 when that fails.\<close>

definition obtain_oracle_price :: "chain_env \<Rightarrow> asset \<Rightarrow> otoken_info \<Rightarrow> int zpy" where
  "obtain_oracle_price env a info =
     bindE (read_oracle_expiry_price env (oi_underlying info) (oi_expiry info)) (\<lambda>price.
       if price \<noteq> 0 then ret price
       else catch_those (price_error env) (finalize_oracle_price env a info)
              (wait_for_oracle_expiry_price env (oi_underlying info) (oi_expiry info)))"

definition set_option_price :: "chain_env \<Rightarrow> sol_order \<Rightarrow> unit zpy" where
  "set_option_price env pos =
     bindE (liftE (key_of env (sr_otoken pos))) (\<lambda>mint.
     bindE (read_otoken_info_expiry_price env mint) (\<lambda>existing.
       if existing > 0 then ret ()
       else (case (if truthy (sr_asset pos) then map_of asset_map (the (sr_asset pos)) else None) of
         None \<Rightarrow> ret ()
       | Some a \<Rightarrow>
           bindE (read_otoken_info env (sr_otoken pos)) (\<lambda>info. case info of
             None \<Rightarrow> ret ()
           | Some i \<Rightarrow>
               bindE (obtain_oracle_price env a i) (\<lambda>oracle_price.
                 if oracle_price = 0 then ret ()
                 else bindE (build_set_expiry_price_ix env mint) (\<lambda>ix. try_set_expiry_price env (ret ix)))))))"

definition retry_option_price :: "chain_env \<Rightarrow> sol_order \<Rightarrow> unit zpy" where
  "retry_option_price env pos =
     bindE (liftE (key_of env (sr_otoken pos))) (\<lambda>mint.
     bindE (read_otoken_info_expiry_price env mint) (\<lambda>existing.
       if existing > 0 then ret ()
       else
         bindE (read_otoken_info env (sr_otoken pos)) (\<lambda>info. case info of
           None \<Rightarrow> ret ()
         | Some i \<Rightarrow>
             bindE (read_oracle_expiry_price env (oi_underlying i) (oi_expiry i)) (\<lambda>oracle_price.
               if oracle_price = 0 then ret () else try_set_expiry_price env (build_set_expiry_price_ix env mint)))))"

text \<open>The positions with the first occurrence of each token: the \<open>seen\<close> set of both loops.\<close>

fun first_of_tokens :: "string list \<Rightarrow> sol_order list \<Rightarrow> sol_order list" where
  "first_of_tokens seen [] = []"
| "first_of_tokens seen (p # ps) =
     (if elem (sr_otoken p) seen then first_of_tokens seen ps else p # first_of_tokens (sr_otoken p # seen) ps)"

definition retry_missing_controller_expiry_prices :: "chain_env \<Rightarrow> sol_order list \<Rightarrow> unit zpy" where
  "retry_missing_controller_expiry_prices env positions = for_each (retry_option_price env) (first_of_tokens [] positions)"

definition ensure_solana_expiry_prices_set :: "chain_env \<Rightarrow> sol_order list \<Rightarrow> unit zpy" where
  "ensure_solana_expiry_prices_set env positions =
     thenE (for_each (set_option_price env) (first_of_tokens [] positions))
       (retry_missing_controller_expiry_prices env positions)"

section \<open>Phase 1: vaults\<close>

definition SETTLE_VAULT_DISC :: "byte list" where "SETTLE_VAULT_DISC = [43, 37, 36, 63, 170, 246, 191, 230]"
definition VAULT_SETTLED_OFFSET :: nat where "VAULT_SETTLED_OFFSET = 128"
definition VAULT_COLLATERAL_MINT_OFFSET :: nat where "VAULT_COLLATERAL_MINT_OFFSET = 48"
definition VAULT_BENEFICIARY_OFFSET :: nat where "VAULT_BENEFICIARY_OFFSET = 129"
definition VAULT_MIN_READ_LEN :: nat where "VAULT_MIN_READ_LEN = VAULT_BENEFICIARY_OFFSET + 32"

definition get_vault_owner :: "chain_env \<Rightarrow> exn + pubkey" where
  "get_vault_owner env = map_sum id (\<lambda>(settler, _). derive_pda env [ascii ''settler_config''] settler) (settler_program_ids env)"

definition vault_pda_of :: "chain_env \<Rightarrow> int \<Rightarrow> exn + pubkey" where
  "vault_pda_of env vault =
     (case settler_program_ids env of
        Inl e \<Rightarrow> Inl e
      | Inr (_, controller) \<Rightarrow> (case get_vault_owner env of
          Inl e \<Rightarrow> Inl e
        | Inr owner \<Rightarrow> map_sum id (\<lambda>n. derive_pda env [ascii ''vault'', owner, n] controller) (pack_u64 vault)))"

definition vault_settled_at :: "byte list \<Rightarrow> bool" where
  "vault_settled_at d \<longleftrightarrow> VAULT_SETTLED_OFFSET < length d \<and> d ! VAULT_SETTLED_OFFSET \<noteq> 0"

definition is_vault_settled_on_chain :: "chain_env \<Rightarrow> int \<Rightarrow> bool zpy" where
  "is_vault_settled_on_chain env vault =
     bindE (liftE (vault_pda_of env vault)) (\<lambda>pda.
     bindE (read_account_data env pda) (\<lambda>d. ret (case d of None \<Rightarrow> False | Some bs \<Rightarrow> vault_settled_at bs)))"

record vault_data =
  vd_pda :: pubkey
  vd_collateral :: pubkey
  vd_beneficiary :: pubkey

definition read_vault_data :: "chain_env \<Rightarrow> int \<Rightarrow> vault_data option zpy" where
  "read_vault_data env vault =
     bindE (liftE (vault_pda_of env vault)) (\<lambda>pda.
     bindE (read_account_data env pda) (\<lambda>d. ret (case d of
       None \<Rightarrow> None
     | Some bs \<Rightarrow>
         if length bs < VAULT_MIN_READ_LEN then None
         else Some \<lparr>vd_pda = pda,
           vd_collateral = slice VAULT_COLLATERAL_MINT_OFFSET (VAULT_COLLATERAL_MINT_OFFSET + 32) bs,
           vd_beneficiary = slice VAULT_BENEFICIARY_OFFSET (VAULT_BENEFICIARY_OFFSET + 32) bs\<rparr>)))"

definition build_settle_vault_ix :: "chain_env \<Rightarrow> pubkey \<Rightarrow> pubkey \<Rightarrow> pubkey \<Rightarrow> pubkey \<Rightarrow> instruction zpy" where
  "build_settle_vault_ix env vault_pda mint collateral beneficiary =
     bindE (liftE (settler_program_ids env)) (\<lambda>(settler, controller).
     bindE (load_operator env) (\<lambda>operator.
     let authority = derive_pda env [ascii ''pool_vault_auth'', collateral] controller in
     bindE (find_pool_token_account env authority collateral) (\<lambda>pool.
     bindE (token_program_for_mint env collateral) (\<lambda>token_program.
     bindE (derive_ata env beneficiary collateral (Some token_program)) (\<lambda>beneficiary_account.
       ret \<lparr>ix_program = settler, ix_data = SETTLE_VAULT_DISC, ix_accounts =
         [(derive_pda env [ascii ''settler_config''] settler, False, False), (operator, True, False),
          (derive_pda env [ascii ''controller_config''] controller, False, False), (vault_pda, False, True),
          (settler_info_pda env mint controller, False, False), (pool, False, True), (collateral, False, False),
          (beneficiary_account, False, True), (authority, False, False), (controller, False, False),
          (token_program, False, False)]\<rparr>)))))"

text \<open>The \<open>try\<close> block: \<open>None\<close> when the price is missing, which ends the turn without a transaction.\<close>

definition settle_vault :: "chain_env \<Rightarrow> string \<Rightarrow> vault_data \<Rightarrow> string option zpy" where
  "settle_vault env otoken vault =
     bindE (ensure_ata_exists env (vd_beneficiary vault) (vd_collateral vault)) (\<lambda>_.
     bindE (liftE (key_of env otoken)) (\<lambda>mint.
     bindE (read_otoken_info_expiry_price env mint) (\<lambda>price.
       if price = 0 then ret None
       else
         bindE (build_settle_vault_ix env (vd_pda vault) mint (vd_collateral vault) (vd_beneficiary vault)) (\<lambda>ix.
         bindE (send_one env ix) (\<lambda>tx. ret (Some tx))))))"

definition settle_step :: "chain_env \<Rightarrow> sol_order list \<Rightarrow> sol_order \<Rightarrow> sol_order list zpy" where
  "settle_step env settled pos =
     bindE (is_vault_settled_on_chain env (sr_vault pos)) (\<lambda>already.
       if already then thenE (mark_reconciled env (sr_user pos) (sr_vault pos)) (ret (settled @ [pos]))
       else
         bindE (read_vault_data env (sr_vault pos)) (\<lambda>vault. case vault of
           None \<Rightarrow> ret settled
         | Some vd \<Rightarrow>
             bindE (tryE (settle_vault env (sr_otoken pos) vd)) (\<lambda>sent. case sent of
               Inl _ \<Rightarrow> ret settled
             | Inr None \<Rightarrow> ret settled
             | Inr (Some tx) \<Rightarrow>
                 thenE (catchE (mark_settled env (sr_user pos) (sr_vault pos) tx) (\<lambda>_. ret ())) (ret (settled @ [pos])))))"

definition settle_vaults :: "chain_env \<Rightarrow> sol_order list \<Rightarrow> sol_order list zpy" where
  "settle_vaults env positions = foldE (settle_step env) [] positions"

end
