(* ===== verification/Solana_Delivery.thy ===== *)
theory Solana_Delivery
  imports Solana_Vaults
begin

text \<open>
  The second half of \<open>src/bots/solana_expiry_settler.py\<close>: the positions in the money, the physical
  delivery through the swap service (phase 2), the cycle, the sweep and the main loop.
\<close>

section \<open>Positions in the money\<close>

definition solana_in_the_money :: "bool \<Rightarrow> int \<Rightarrow> int \<Rightarrow> bool" where
  "solana_in_the_money is_put price strike \<longleftrightarrow> (is_put \<and> price < strike) \<or> (\<not> is_put \<and> price > strike)"

text \<open>The controller's price of an option, or else the oracle's; 0 when there is none.\<close>

definition option_price :: "chain_env \<Rightarrow> string \<Rightarrow> int zpy" where
  "option_price env otoken =
     bindE (liftE (key_of env otoken)) (\<lambda>mint.
     bindE (read_otoken_info_expiry_price env mint) (\<lambda>price.
       if price \<noteq> 0 then ret price
       else
         bindE (read_otoken_info env otoken) (\<lambda>info. case info of
           None \<Rightarrow> ret price
         | Some i \<Rightarrow> read_oracle_expiry_price env (oi_underlying i) (oi_expiry i))))"

definition cached_option_price :: "chain_env \<Rightarrow> (string \<times> int) list \<Rightarrow> string \<Rightarrow> ((string \<times> int) list \<times> int) zpy" where
  "cached_option_price env cache otoken =
     (case map_of cache otoken of
        Some p \<Rightarrow> ret (cache, p)
      | None \<Rightarrow> bindE (option_price env otoken) (\<lambda>p. ret (dict_put otoken p cache, p)))"

text \<open>A missing strike is not a number, and a missing type counts as a call.\<close>

definition position_strike :: "sol_order \<Rightarrow> exn + int" where
  "position_strike pos =
     (case sr_strike pos of None \<Rightarrow> Inl (ValueError ''Invalid strike_price: None'') | Some k \<Rightarrow> strike_price_to_8dec k)"

definition position_itm :: "sol_order \<Rightarrow> int \<Rightarrow> int \<Rightarrow> bool" where
  "position_itm pos price strike = solana_in_the_money (sr_is_put pos = Some True) price strike"

definition identify_solana_step ::
  "chain_env \<Rightarrow> sol_order list \<times> (string \<times> int) list \<Rightarrow> sol_order \<Rightarrow> (sol_order list \<times> (string \<times> int) list) zpy" where
  "identify_solana_step env = (\<lambda>(itm, cache) pos.
     bindE (cached_option_price env cache (sr_otoken pos)) (\<lambda>(cache, price).
       if price = 0 then ret (itm, cache)
       else (case position_strike pos of
         Inl _ \<Rightarrow> ret (itm, cache)
       | Inr strike \<Rightarrow>
           if position_itm pos price strike then ret (itm @ [pos], cache)
           else thenE (mark_solana_otm env (sr_user pos) (sr_vault pos) price) (ret (itm, cache)))))"

definition identify_solana_itm :: "chain_env \<Rightarrow> sol_order list \<Rightarrow> (sol_order list \<times> (string \<times> int) list) zpy" where
  "identify_solana_itm env positions =
     bindE (liftE (settler_program_ids env)) (\<lambda>_. foldE (identify_solana_step env) ([], []) positions)"

section \<open>Redeeming for the market maker\<close>

definition REDEEM_FOR_MM_DISC :: "byte list" where "REDEEM_FOR_MM_DISC = [10, 143, 246, 98, 99, 150, 210, 124]"

definition build_redeem_for_mm_ix :: "chain_env \<Rightarrow> pubkey \<Rightarrow> pubkey \<Rightarrow> int \<Rightarrow> pubkey \<Rightarrow> instruction zpy" where
  "build_redeem_for_mm_ix env mint mm amount collateral =
     bindE (liftE (settler_program_ids env)) (\<lambda>(settler, controller).
     bindE (load_operator env) (\<lambda>operator.
     let settler_config = derive_pda env [ascii ''settler_config''] settler;
         authority = derive_pda env [ascii ''pool_vault_auth'', collateral] controller in
     bindE (find_pool_token_account env authority collateral) (\<lambda>pool.
     bindE (token_program_for_mint env mint) (\<lambda>otoken_program.
     bindE (token_program_for_mint env collateral) (\<lambda>collateral_program.
     bindE (liftE (concat_results [Inr REDEEM_FOR_MM_DISC, pack_u64 amount])) (\<lambda>d.
       ret \<lparr>ix_program = settler, ix_data = d, ix_accounts =
         [(settler_config, False, False), (operator, True, False),
          (derive_pda env [ascii ''mm_balance'', mm, mint] settler, False, True),
          (derive_pda env [ascii ''controller_config''] controller, False, False),
          (settler_info_pda env mint controller, False, False), (mint, False, True), (collateral, False, False),
          (ata_of env settler_config mint otoken_program, False, True),
          (ata_of env settler_config collateral collateral_program, False, True),
          (ata_of env mm collateral collateral_program, False, True), (pool, False, True), (authority, False, False),
          (controller, False, False), (otoken_program, False, False), (collateral_program, False, False)]\<rparr>))))))"

section \<open>The swap service\<close>

definition jupiter_slippage_bps :: "chain_env \<Rightarrow> int" where
  "jupiter_slippage_bps env = py_trunc (fl (zs_slippage (ze_settings env) * 10000))"

definition fetch_jupiter_quote :: "chain_env \<Rightarrow> pubkey \<Rightarrow> pubkey \<Rightarrow> int \<Rightarrow> string \<Rightarrow> jup_quote zpy" where
  "fetch_jupiter_quote env input_mint output_mint amount swap_mode =
     bindE (zread env (FetchQuote input_mint output_mint amount swap_mode (jupiter_slippage_bps env)) (ze_quote env)) (\<lambda>q.
       case jq_error q of
         Some e \<Rightarrow> raise (RuntimeError (''Jupiter quote error: '' @ e))
       | None \<Rightarrow> ret q)"

definition fetch_jupiter_swap_instructions :: "chain_env \<Rightarrow> jup_quote \<Rightarrow> pubkey \<Rightarrow> pubkey \<Rightarrow> (raw_instruction \<times> jup_swap) zpy" where
  "fetch_jupiter_swap_instructions env q user destination =
     bindE (load_operator env) (\<lambda>_.
     bindE (zread env (FetchSwap q user destination) (ze_swap env)) (\<lambda>p.
       case js_error p of
         Some e \<Rightarrow> raise (RuntimeError (''Jupiter swap-instructions error: '' @ e))
       | None \<Rightarrow> (case js_swap p of
           None \<Rightarrow> raise (RuntimeError ''Jupiter response missing swapInstruction'')
         | Some i \<Rightarrow> ret (i, p))))"

definition decode_jupiter_instruction :: "chain_env \<Rightarrow> raw_instruction \<Rightarrow> exn + instruction" where
  "decode_jupiter_instruction env raw =
     (case seq_results (map (\<lambda>(k, signer, writable). map_sum id (\<lambda>p. (p, signer, writable)) (key_of env k)) (ri_accounts raw)) of
        Inl e \<Rightarrow> Inl e
      | Inr accounts \<Rightarrow> (case b64decode (ri_data raw) of
          Inl e \<Rightarrow> Inl e
        | Inr d \<Rightarrow> map_sum id (\<lambda>p. \<lparr>ix_program = p, ix_data = d, ix_accounts = accounts\<rparr>) (key_of env (ri_program raw))))"

definition decode_jupiter_pre_instructions :: "chain_env \<Rightarrow> jup_swap \<Rightarrow> exn + instruction list" where
  "decode_jupiter_pre_instructions env p = seq_results (map (decode_jupiter_instruction env) (js_budget p @ js_setup p @ js_other p))"

fun decode_jupiter_alts :: "chain_env \<Rightarrow> string list \<Rightarrow> (pubkey \<times> pubkey list) list zpy" where
  "decode_jupiter_alts env [] = ret []"
| "decode_jupiter_alts env (a # as) =
     bindE (liftE (key_of env a)) (\<lambda>k.
     bindE (read_address_lookup_table env k) (\<lambda>t.
     bindE (decode_jupiter_alts env as) (\<lambda>ts. ret (t # ts))))"

section \<open>Amounts\<close>

definition MINT_DECIMALS_OFFSET :: nat where "MINT_DECIMALS_OFFSET = 44"
definition SETTLER_CONFIG_JUPITER_OFFSET :: nat where "SETTLER_CONFIG_JUPITER_OFFSET = 115"

definition get_collateral_mint_for_otoken :: "chain_env \<Rightarrow> string \<Rightarrow> pubkey option zpy" where
  "get_collateral_mint_for_otoken env otoken =
     bindE (liftE (settler_program_ids env)) (\<lambda>(_, controller).
     bindE (liftE (key_of env otoken)) (\<lambda>mint.
     bindE (read_account_data env (settler_info_pda env mint controller)) (\<lambda>d. ret (case d of
       None \<Rightarrow> None
     | Some bs \<Rightarrow> if length bs < 136 then None else Some (slice 104 136 bs)))))"

definition read_mint_decimals :: "chain_env \<Rightarrow> pubkey \<Rightarrow> nat zpy" where
  "read_mint_decimals env mint =
     bindE (read_account_data env mint) (\<lambda>d. case d of
       None \<Rightarrow> raise (RuntimeError (''Cannot read mint decimals for '' @ key_text env mint))
     | Some bs \<Rightarrow>
         if length bs \<le> MINT_DECIMALS_OFFSET then raise (RuntimeError (''Cannot read mint decimals for '' @ key_text env mint))
         else ret (unat (bs ! MINT_DECIMALS_OFFSET)))"

definition read_settler_jupiter_program :: "chain_env \<Rightarrow> pubkey zpy" where
  "read_settler_jupiter_program env =
     bindE (liftE (settler_program_ids env)) (\<lambda>(settler, _).
     bindE (read_account_data env (derive_pda env [ascii ''settler_config''] settler)) (\<lambda>d. case d of
       None \<Rightarrow> raise (RuntimeError ''Cannot read settler_config.jupiter_program'')
     | Some bs \<Rightarrow>
         if length bs < SETTLER_CONFIG_JUPITER_OFFSET + 32 then raise (RuntimeError ''Cannot read settler_config.jupiter_program'')
         else ret (slice SETTLER_CONFIG_JUPITER_OFFSET (SETTLER_CONFIG_JUPITER_OFFSET + 32) bs)))"

definition compute_solana_contra_amount :: "int \<Rightarrow> int \<Rightarrow> bool \<Rightarrow> nat \<Rightarrow> exn + int" where
  "compute_solana_contra_amount amount strike is_put decimals =
     (if amount \<le> 0 then Inl (ValueError ''amount must be positive'')
      else if strike \<le> 0 then Inl (ValueError ''strike_price must be positive'')
      else
        (let out_of_range = (if is_put then decimals < 8 \<or> decimals > 18 else decimals < 6 \<or> decimals > 16);
             result = (if is_put then amount * 10 ^ (decimals - 8) else (amount * strike) div 10 ^ (16 - decimals)) in
         if out_of_range then Inl (ValueError (''unsupported '' @ (if is_put then ''PUT'' else ''CALL'') @ '' contra decimals: '' @ nat_str decimals))
         else if result \<le> 0 then Inl (ValueError ''contra amount computed to zero'')
         else Inr result))"

text \<open>For a put whose collateral has more than 16 decimals Python computes a float, which nothing reads: \<open>None\<close>.\<close>

definition compute_solana_collateral_amount :: "int \<Rightarrow> int \<Rightarrow> bool \<Rightarrow> nat \<Rightarrow> exn + int option" where
  "compute_solana_collateral_amount amount strike is_put decimals =
     (if is_put then Inr (if decimals \<le> 16 then Some ((amount * strike) div 10 ^ (16 - decimals)) else None)
      else if decimals < 8 then Inl (ValueError (''unsupported CALL collateral decimals: '' @ nat_str decimals))
      else Inr (Some (amount * 10 ^ (decimals - 8))))"

section \<open>Physical delivery\<close>

definition PHYSICAL_REDEEM_DISC :: "byte list" where "PHYSICAL_REDEEM_DISC = [75, 248, 139, 255, 157, 170, 130, 39]"

definition contra_of :: "otoken_info \<Rightarrow> pubkey" where
  "contra_of info = (if oi_is_put info then oi_underlying info else oi_strike_asset info)"

definition surplus_of :: "otoken_info \<Rightarrow> pubkey" where
  "surplus_of info = (if oi_is_put info then oi_collateral info else contra_of info)"

definition physical_redeem_data :: "int \<Rightarrow> int \<Rightarrow> byte list \<Rightarrow> exn + byte list" where
  "physical_redeem_data amount max_spent swap_data =
     concat_results [Inr PHYSICAL_REDEEM_DISC, pack_u64 amount, pack_u64 max_spent, pack_u32 (length swap_data), Inr swap_data]"

text \<open>The accounts of the swap follow without their signatures.\<close>

definition build_physical_redeem_ix ::
  "chain_env \<Rightarrow> pubkey \<Rightarrow> pubkey \<Rightarrow> pubkey \<Rightarrow> pubkey \<Rightarrow> int \<Rightarrow> int \<Rightarrow> otoken_info \<Rightarrow> instruction \<Rightarrow> instruction zpy" where
  "build_physical_redeem_ix env mint user mm vault_pda amount max_spent info swap =
     bindE (liftE (settler_program_ids env)) (\<lambda>(settler, controller).
     bindE (load_operator env) (\<lambda>operator.
     let settler_config = derive_pda env [ascii ''settler_config''] settler;
         collateral = oi_collateral info; contra = contra_of info; surplus = surplus_of info;
         authority = derive_pda env [ascii ''pool_vault_auth'', collateral] controller in
     bindE (find_pool_token_account env authority collateral) (\<lambda>pool.
     bindE (read_settler_jupiter_program env) (\<lambda>jupiter.
     bindE (token_program_for_mint env mint) (\<lambda>otoken_program.
     bindE (token_program_for_mint env collateral) (\<lambda>collateral_program.
     bindE (token_program_for_mint env contra) (\<lambda>contra_program.
     let surplus_program = (if oi_is_put info then collateral_program else contra_program) in
     bindE (liftE (physical_redeem_data amount max_spent (ix_data swap))) (\<lambda>d.
       ret \<lparr>ix_program = settler, ix_data = d, ix_accounts =
         [(settler_config, False, False), (operator, True, False),
          (derive_pda env [ascii ''mm_balance'', mm, mint] settler, False, True),
          (derive_pda env [ascii ''controller_config''] controller, False, False), (oi_pda info, False, False),
          (mint, False, True), (collateral, False, False), (ata_of env settler_config mint otoken_program, False, True),
          (ata_of env settler_config collateral collateral_program, False, True), (contra, False, False),
          (ata_of env settler_config contra contra_program, False, True), (user, False, False), (vault_pda, False, False),
          (derive_pda env [ascii ''vault_mm'', vault_pda] settler, False, True),
          (ata_of env user contra contra_program, False, True), (ata_of env mm surplus surplus_program, False, True),
          (pool, False, True), (authority, False, False), (jupiter, False, False), (controller, False, False),
          (otoken_program, False, False), (collateral_program, False, False), (contra_program, False, False)]
         @ map (\<lambda>(k, _, writable). (k, False, writable)) (ix_accounts swap)\<rparr>))))))))"

definition KEY_ERROR :: "string \<Rightarrow> exn" where "KEY_ERROR k = OtherError (''KeyError: '' @ k)"

text \<open>The quote of a delivery: the most collateral to be spent, and where the swap delivers.\<close>

definition delivery_quote ::
  "chain_env \<Rightarrow> otoken_info \<Rightarrow> pubkey \<Rightarrow> pubkey \<Rightarrow> int \<Rightarrow> int option \<Rightarrow> (jup_quote \<times> int \<times> pubkey) zpy" where
  "delivery_quote env info user settler_config contra_amount collateral_amount =
     (if oi_is_put info then
        bindE (fetch_jupiter_quote env (oi_collateral info) (contra_of info) contra_amount ''ExactOut'') (\<lambda>q.
        case jq_threshold q of
          None \<Rightarrow> raise (KEY_ERROR ''otherAmountThreshold'')
        | Some t \<Rightarrow>
            bindE (liftE (int_or_raise t)) (\<lambda>max_spent.
            bindE (derive_ata env user (contra_of info) None) (\<lambda>destination. ret (q, max_spent, destination))))
      else
        bindE (fetch_jupiter_quote env (oi_collateral info) (contra_of info) (the collateral_amount) ''ExactIn'') (\<lambda>q.
        bindE (liftE (int_or_raise (case jq_out q of None \<Rightarrow> ''0'' | Some t \<Rightarrow> t))) (\<lambda>quoted_out.
          if quoted_out < contra_amount then raise (RuntimeError ''Jupiter CALL quote below required contra amount'')
          else
            bindE (derive_ata env settler_config (contra_of info) None) (\<lambda>destination.
              ret (q, the collateral_amount, destination)))))"

text \<open>The first \<open>try\<close> block: the instructions before the delivery, the delivery, the tables and the contra amount.\<close>

definition prepare_delivery ::
  "chain_env \<Rightarrow> int \<Rightarrow> otoken_info \<Rightarrow> pubkey \<Rightarrow> pubkey \<Rightarrow> pubkey \<Rightarrow> pubkey \<Rightarrow> pubkey \<Rightarrow>
   (instruction list \<times> instruction \<times> (pubkey \<times> pubkey list) list \<times> int) zpy" where
  "prepare_delivery env amount info mint user mm settler_config vault_pda =
     bindE (read_mint_decimals env (contra_of info)) (\<lambda>contra_decimals.
     bindE (read_mint_decimals env (oi_collateral info)) (\<lambda>collateral_decimals.
     bindE (liftE (compute_solana_contra_amount amount (oi_strike info) (oi_is_put info) contra_decimals)) (\<lambda>contra_amount.
     bindE (liftE (compute_solana_collateral_amount amount (oi_strike info) (oi_is_put info) collateral_decimals)) (\<lambda>collateral_amount.
     bindE (delivery_quote env info user settler_config contra_amount collateral_amount) (\<lambda>(q, max_spent, destination).
     bindE (fetch_jupiter_swap_instructions env q settler_config destination) (\<lambda>(raw_swap, payload).
     bindE (liftE (decode_jupiter_pre_instructions env payload)) (\<lambda>pre_ixs.
     bindE (liftE (decode_jupiter_instruction env raw_swap)) (\<lambda>swap.
     bindE (decode_jupiter_alts env (js_tables payload)) (\<lambda>tables.
     bindE (build_physical_redeem_ix env mint user mm vault_pda amount max_spent info swap) (\<lambda>ix.
       ret (pre_ixs, ix, tables, contra_amount)))))))))))"

text \<open>The second \<open>try\<close> block: send, and mark.\<close>

definition send_delivery ::
  "chain_env \<Rightarrow> sol_order \<Rightarrow> int \<Rightarrow> pubkey \<Rightarrow> instruction list \<times> instruction \<times> (pubkey \<times> pubkey list) list \<times> int \<Rightarrow> unit zpy" where
  "send_delivery env pos price contra = (\<lambda>(pre_ixs, ix, tables, contra_amount).
     bindE (send_ixs env (pre_ixs @ [ix]) tables) (\<lambda>tx.
     thenE (mark_itm_redeemed env (sr_user pos) (sr_vault pos) tx price)
       (db_update_solana env (sr_user pos) (sr_vault pos) (amount_mark (key_text env contra) contra_amount))))"

definition ensure_delivery_accounts :: "chain_env \<Rightarrow> pubkey \<Rightarrow> pubkey \<Rightarrow> pubkey \<Rightarrow> pubkey \<Rightarrow> otoken_info \<Rightarrow> unit zpy" where
  "ensure_delivery_accounts env settler_config mint user mm info =
     bindE (ensure_ata_exists env settler_config mint) (\<lambda>_.
     bindE (ensure_ata_exists env settler_config (oi_collateral info)) (\<lambda>_.
     bindE (ensure_ata_exists env settler_config (contra_of info)) (\<lambda>_.
     bindE (ensure_ata_exists env user (contra_of info)) (\<lambda>_.
     bindE (ensure_ata_exists env mm (surplus_of info)) (\<lambda>_. ret ())))))"

definition deliver_position :: "chain_env \<Rightarrow> sol_order \<Rightarrow> int \<Rightarrow> otoken_info \<Rightarrow> vault_data \<Rightarrow> unit zpy" where
  "deliver_position env pos price info vault =
     bindE (liftE (key_of env (sr_otoken pos))) (\<lambda>mint.
     bindE (liftE (key_of env (sr_user pos))) (\<lambda>user.
     bindE (liftE (key_of env (the (sr_mm pos)))) (\<lambda>mm.
     bindE (liftE (get_vault_owner env)) (\<lambda>settler_config.
     thenE (ensure_delivery_accounts env settler_config mint user mm info)
     (bindE (tryE (prepare_delivery env (sr_amount pos) info mint user mm settler_config (vd_pda vault))) (\<lambda>prepared.
        case prepared of
          Inl _ \<Rightarrow> mark_itm_failed env (sr_user pos) (sr_vault pos) price
        | Inr d \<Rightarrow> catchE (send_delivery env pos price (contra_of info) d)
                    (\<lambda>_. mark_itm_failed env (sr_user pos) (sr_vault pos) price)))))))"

definition redeem_position :: "chain_env \<Rightarrow> (string \<times> int) list \<Rightarrow> sol_order \<Rightarrow> unit zpy" where
  "redeem_position env cache pos =
     (let price = (case map_of cache (sr_otoken pos) of None \<Rightarrow> 0 | Some p \<Rightarrow> p);
          failed = mark_itm_failed env (sr_user pos) (sr_vault pos) price in
      if \<not> truthy (sr_mm pos) then failed
      else
        bindE (read_otoken_info env (sr_otoken pos)) (\<lambda>info. case info of
          None \<Rightarrow> failed
        | Some i \<Rightarrow>
            bindE (read_vault_data env (sr_vault pos)) (\<lambda>vault. case vault of
              None \<Rightarrow> failed
            | Some vd \<Rightarrow> deliver_position env pos price i vd)))"

definition redeem_itm_positions :: "chain_env \<Rightarrow> sol_order list \<Rightarrow> (string \<times> int) list \<Rightarrow> unit zpy" where
  "redeem_itm_positions env itm cache = for_each (redeem_position env cache) itm"

section \<open>The cycle\<close>

definition position_key :: "sol_order \<Rightarrow> string \<times> int" where "position_key p = (sr_user p, sr_vault p)"

text \<open>The positions of the recovery queue join the settled ones, without repetition.\<close>

fun join_recovery :: "sol_order list \<Rightarrow> sol_order list \<Rightarrow> sol_order list" where
  "join_recovery settled [] = settled"
| "join_recovery settled (p # ps) =
     (if elem (position_key p) (map position_key settled) then join_recovery settled ps else join_recovery (settled @ [p]) ps)"

definition solana_phase2 :: "chain_env \<Rightarrow> sol_order list \<Rightarrow> int zpy" where
  "solana_phase2 env settled =
     (if settled = [] then ret 0
      else
        thenE (zcall env (Pausing (10 * us_second)))
        (bindE (identify_solana_itm env settled) (\<lambda>(itm, cache).
           thenE (whenE (itm \<noteq> []) (redeem_itm_positions env itm cache)) (ret (int (length settled))))))"

definition settle_solana_once :: "chain_env \<Rightarrow> int zpy" where
  "settle_solana_once env =
     bindE (get_expired_unsettled_solana env) (\<lambda>positions.
     bindE (get_pending_phase2_solana env) (\<lambda>recovery.
       if positions = [] \<and> recovery = [] then ret 0
       else
         thenE (whenE (positions \<noteq> []) (ensure_solana_expiry_prices_set env positions))
         (bindE (if positions \<noteq> [] then settle_vaults env positions else ret []) (\<lambda>settled.
            solana_phase2 env (join_recovery settled recovery)))))"

fun post_solana_sweep :: "chain_env \<Rightarrow> nat \<Rightarrow> unit zpy" where
  "post_solana_sweep env 0 = ret ()"
| "post_solana_sweep env (Suc cycles) =
     thenE (zcall env (Pausing (zs_sweep_interval (ze_settings env) * us_second)))
     (bindE (tryE (get_expired_unsettled_solana env)) (\<lambda>remaining. case remaining of
        Inl _ \<Rightarrow> post_solana_sweep env cycles
      | Inr rows \<Rightarrow>
          if rows = [] then ret ()
          else thenE (catchE (thenE (settle_solana_once env) (ret ())) (\<lambda>_. ret ())) (post_solana_sweep env cycles)))"

definition settle_solana_and_sweep :: "chain_env \<Rightarrow> unit zpy" where
  "settle_solana_and_sweep env =
     thenE (catchE (thenE (settle_solana_once env) (ret ())) (\<lambda>_. ret ()))
       (catchE (post_solana_sweep env (zs_sweep_cycles (ze_settings env))) (\<lambda>_. ret ()))"

definition solana_wait_time :: "int \<Rightarrow> int \<Rightarrow> int" where
  "solana_wait_time hour now =
     (let target = replace_hour hour now in (if target \<le> now then target + us_day else target) - now)"

definition solana_settler_day :: "chain_env \<Rightarrow> unit zpy" where
  "solana_settler_day env =
     bindE (getsE (\<lambda>w. ze_now env (calls w))) (\<lambda>now.
       thenE (zcall env (Pausing (solana_wait_time (zs_settle_hour (ze_settings env)) now))) (settle_solana_and_sweep env))"

text \<open>The start with its catch-up, and any number of days.\<close>

fun solana_settler_days :: "chain_env \<Rightarrow> nat \<Rightarrow> unit zpy" where
  "solana_settler_days env 0 = settle_solana_and_sweep env"
| "solana_settler_days env (Suc n) = thenE (solana_settler_days env n) (solana_settler_day env)"

end
