(* ===== verification/Solana_Marks.thy ===== *)
theory Solana_Marks
  imports Solana_Delivery
begin

text \<open>
  What the Solana settler writes is backed by the history of its calls: a settled mark by a vault that was read as
  settled or by its settlement, a price and its in-the-money mark by account data that held it, a delivery by the transaction that
  was sent for exactly this position.
\<close>

section \<open>Evidence\<close>

text \<open>The account was read with such data; a transaction with such instructions and signature was sent.\<close>

definition account_said :: "chain_env \<Rightarrow> pubkey \<Rightarrow> (byte list \<Rightarrow> bool) \<Rightarrow> chain_call list \<Rightarrow> bool" where
  "account_said env k P = witnessed (\<lambda>h. hd h = ReadAccount k \<and> ze_fails env h = None \<and>
     (case ze_account env h of None \<Rightarrow> False | Some a \<Rightarrow> P (ac_data a)))"

definition sent_tx :: "chain_env \<Rightarrow> (instruction list \<Rightarrow> string \<Rightarrow> bool) \<Rightarrow> chain_call list \<Rightarrow> bool" where
  "sent_tx env P = witnessed (\<lambda>h. ze_fails env h = None \<and>
     (case hd h of SendTx ixs _ \<Rightarrow> P ixs (ze_signature env h) | _ \<Rightarrow> False))"

lemma account_said_Cons [simp]:
  "account_said env k P (c # h) \<longleftrightarrow> (c = ReadAccount k \<and> ze_fails env (c # h) = None \<and>
     (case ze_account env (c # h) of None \<Rightarrow> False | Some a \<Rightarrow> P (ac_data a))) \<or> account_said env k P h"
  by (simp add: account_said_def)

lemma sent_tx_Cons [simp]:
  "sent_tx env P (c # h) \<longleftrightarrow> (ze_fails env (c # h) = None \<and>
     (case c of SendTx ixs _ \<Rightarrow> P ixs (ze_signature env (c # h)) | _ \<Rightarrow> False)) \<or> sent_tx env P h"
  by (simp add: sent_tx_def)

lemma account_said_append: "account_said env k P h \<Longrightarrow> account_said env k P (cs @ h)"
  unfolding account_said_def by (rule witnessed_append)

lemma sent_tx_append: "sent_tx env P h \<Longrightarrow> sent_tx env P (cs @ h)"
  unfolding sent_tx_def by (rule witnessed_append)

lemma witnessed_mono: "witnessed P h \<Longrightarrow> (\<And>h. P h \<Longrightarrow> Q h) \<Longrightarrow> witnessed Q h"
  by (induction h) auto

lemma account_said_mono: "account_said env k P h \<Longrightarrow> (\<And>d. P d \<Longrightarrow> Q d) \<Longrightarrow> account_said env k Q h"
  unfolding account_said_def by (erule witnessed_mono) (auto split: option.splits)

lemma sent_tx_mono: "sent_tx env P h \<Longrightarrow> (\<And>ixs tx. P ixs tx \<Longrightarrow> Q ixs tx) \<Longrightarrow> sent_tx env Q h"
  unfolding sent_tx_def by (erule witnessed_mono) (auto split: chain_call.splits)

text \<open>A vault is done: it was read as settled, or its settlement was sent, for the position's option.\<close>

definition settles :: "chain_env \<Rightarrow> sol_order \<Rightarrow> pubkey \<Rightarrow> instruction \<Rightarrow> bool" where
  "settles env r pda ix \<longleftrightarrow>
     (case (settler_program_ids env, key_of env (sr_otoken r)) of
        (Inr (settler, controller), Inr mint) \<Rightarrow> ix_program ix = settler \<and> ix_data ix = SETTLE_VAULT_DISC \<and>
          ix_accounts ix ! 3 = (pda, False, True) \<and> ix_accounts ix ! 4 = (settler_info_pda env mint controller, False, False)
      | _ \<Rightarrow> False)"

definition vault_done :: "chain_env \<Rightarrow> sol_order \<Rightarrow> chain_call list \<Rightarrow> bool" where
  "vault_done env r h \<longleftrightarrow>
     (case vault_pda_of env (sr_vault r) of
        Inl _ \<Rightarrow> False
      | Inr pda \<Rightarrow> account_said env pda vault_settled_at h \<or> sent_tx env (\<lambda>ixs _. list_ex (settles env r pda) ixs) h)"

text \<open>
  The price of an option was read: from the data registered for it, or from the oracle's account for
  its underlying and expiry.
\<close>

definition registered_data :: "byte list \<Rightarrow> bool" where
  "registered_data d \<longleftrightarrow> OTOKEN_INFO_EXPIRY_PRICE_OFFSET + 8 \<le> length d"

definition oracle_said :: "chain_env \<Rightarrow> pubkey \<Rightarrow> int \<Rightarrow> int \<Rightarrow> chain_call list \<Rightarrow> bool" where
  "oracle_said env underlying expiry p h \<longleftrightarrow>
     (case derive_oracle_expiry_price env underlying expiry of
        Inl _ \<Rightarrow> False
      | Inr pda \<Rightarrow> account_said env pda (\<lambda>d. final_price_at d = p) h)"

definition price_seen :: "chain_env \<Rightarrow> string \<Rightarrow> int \<Rightarrow> chain_call list \<Rightarrow> bool" where
  "price_seen env otoken p h \<longleftrightarrow>
     (case (settler_program_ids env, key_of env otoken) of
        (Inr (_, controller), Inr mint) \<Rightarrow>
          account_said env (settler_info_pda env mint controller)
            (\<lambda>d. registered_data d \<and> (read_u64 d OTOKEN_INFO_EXPIRY_PRICE_OFFSET = p \<or>
               (let i = otoken_info_at (settler_info_pda env mint controller) d in
                oracle_said env (oi_underlying i) (oi_expiry i) p h))) h
      | _ \<Rightarrow> False)"

text \<open>
  An instruction delivers a position: the settler's \<open>physical_redeem\<close> of its amount, with its option, its user,
  its market maker's balance and its vault.
\<close>

definition delivers :: "chain_env \<Rightarrow> sol_order \<Rightarrow> instruction \<Rightarrow> bool" where
  "delivers env r ix \<longleftrightarrow>
     (case (settler_program_ids env, key_of env (sr_otoken r), key_of env (sr_user r), key_of env (the (sr_mm r)),
            vault_pda_of env (sr_vault r), pack_u64 (sr_amount r)) of
        (Inr (settler, _), Inr mint, Inr user, Inr mm, Inr pda, Inr amount) \<Rightarrow>
          ix_program ix = settler \<and> take (8 + length amount) (ix_data ix) = PHYSICAL_REDEEM_DISC @ amount \<and>
          ix_accounts ix ! 2 = (derive_pda env [ascii ''mm_balance'', mm, mint] settler, False, True) \<and>
          ix_accounts ix ! 5 = (mint, False, True) \<and> ix_accounts ix ! 11 = (user, False, False) \<and>
          ix_accounts ix ! 12 = (pda, False, False)
      | _ \<Rightarrow> False)"

definition delivery_sent :: "chain_env \<Rightarrow> sol_order \<Rightarrow> string \<Rightarrow> chain_call list \<Rightarrow> bool" where
  "delivery_sent env r tx h \<longleftrightarrow> sent_tx env (\<lambda>ixs sig. sig = tx \<and> ixs \<noteq> [] \<and> delivers env r (last ixs)) h"

lemma oracle_said_append: "oracle_said env u e p h \<Longrightarrow> oracle_said env u e p (cs @ h)"
  by (auto simp: oracle_said_def account_said_append split: sum.splits)

lemma evidence_append:
  "vault_done env r h \<Longrightarrow> vault_done env r (cs @ h)"
  "price_seen env otoken p h \<Longrightarrow> price_seen env otoken p (cs @ h)"
  "delivery_sent env r tx h \<Longrightarrow> delivery_sent env r tx (cs @ h)"
proof -
  show "vault_done env r h \<Longrightarrow> vault_done env r (cs @ h)"
    by (auto simp: vault_done_def account_said_append sent_tx_append split: sum.splits)
  show "delivery_sent env r tx h \<Longrightarrow> delivery_sent env r tx (cs @ h)"
    by (auto simp: delivery_sent_def sent_tx_append)
  show "price_seen env otoken p h \<Longrightarrow> price_seen env otoken p (cs @ h)"
    unfolding price_seen_def Let_def
    by (auto split: sum.splits elim!: account_said_mono [OF account_said_append] intro: oracle_said_append)
qed

section \<open>What the reading programs say\<close>

lemma olds_hist: "grows orders_le m \<Longrightarrow> grows hist_le m"
  by (auto simp: grows_def orders_le_def)

lemma tracks_account: "tracks (\<lambda>d h. case d of None \<Rightarrow> True | Some bs \<Rightarrow> account_said env k (\<lambda>d. d = bs) h) (read_account_data env k)"
  by (rule tracksI [OF _ olds_hist, OF _ olds_account]) (auto simp: read_account_data_def wps split: option.split)

text \<open>The controller of the configured programs.\<close>

definition with_controller :: "chain_env \<Rightarrow> (pubkey \<Rightarrow> bool) \<Rightarrow> bool" where
  "with_controller env P \<longleftrightarrow> (case settler_program_ids env of Inl _ \<Rightarrow> False | Inr (_, c) \<Rightarrow> P c)"

lemma tracks_option_price_read:
  "tracks (\<lambda>p h. p \<noteq> 0 \<longrightarrow> with_controller env (\<lambda>c. account_said env (settler_info_pda env mint c)
     (\<lambda>d. registered_data d \<and> read_u64 d OTOKEN_INFO_EXPIRY_PRICE_OFFSET = p) h)) (read_otoken_info_expiry_price env mint)"
proof (rule tracksI [OF _ olds_hist])
  show "grows orders_le (read_otoken_info_expiry_price env mint)"
    unfolding read_otoken_info_expiry_price_def by (intro olds_rules)
qed (auto simp: read_otoken_info_expiry_price_def read_account_data_def with_controller_def registered_data_def wps
    split: option.split sum.split)

lemma tracks_info:
  "tracks (\<lambda>i h. case i of None \<Rightarrow> True | Some i \<Rightarrow> (case key_of env otoken of Inl _ \<Rightarrow> False | Inr mint \<Rightarrow>
     with_controller env (\<lambda>c. account_said env (settler_info_pda env mint c)
       (\<lambda>d. registered_data d \<and> otoken_info_at (settler_info_pda env mint c) d = i) h))) (read_otoken_info env otoken)"
proof (rule tracksI [OF _ olds_hist])
  show "grows orders_le (read_otoken_info env otoken)"
    unfolding read_otoken_info_def by (intro olds_rules)
qed (auto simp: read_otoken_info_def read_account_data_def with_controller_def registered_data_def wps Let_def
    split: option.split sum.split)

lemma tracks_oracle: "tracks (\<lambda>p h. p \<noteq> 0 \<longrightarrow> oracle_said env u e p h) (read_oracle_expiry_price env u e)"
proof (rule tracksI [OF _ olds_hist])
  show "grows orders_le (read_oracle_expiry_price env u e)"
    unfolding read_oracle_expiry_price_def by (intro olds_rules)
qed (auto simp: read_oracle_expiry_price_def read_account_data_def oracle_said_def wps split: option.split sum.split)

lemma olds_prices:
  "grows orders_le (read_otoken_info_expiry_price env mint)" "grows orders_le (read_otoken_info env otoken)"
  "grows orders_le (read_oracle_expiry_price env u e)" "grows orders_le (read_vault_data env vault)"
  "grows orders_le (is_vault_settled_on_chain env vault)"
  unfolding read_otoken_info_expiry_price_def read_otoken_info_def read_oracle_expiry_price_def read_vault_data_def
    is_vault_settled_on_chain_def
  by (intro olds_rules)+

lemma price_seen_cases:
  assumes "key_of env otoken = Inr mint"
  shows "with_controller env (\<lambda>c. account_said env (settler_info_pda env mint c)
      (\<lambda>d. registered_data d \<and> read_u64 d OTOKEN_INFO_EXPIRY_PRICE_OFFSET = p) h) \<Longrightarrow> price_seen env otoken p h"
    and "with_controller env (\<lambda>c. account_said env (settler_info_pda env mint c)
      (\<lambda>d. registered_data d \<and> otoken_info_at (settler_info_pda env mint c) d = i) h) \<Longrightarrow>
     oracle_said env (oi_underlying i) (oi_expiry i) p h \<Longrightarrow> price_seen env otoken p h"
  using assms unfolding with_controller_def price_seen_def Let_def
  by (auto split: sum.splits elim: account_said_mono)

lemma tracks_option_price: "tracks (\<lambda>p h. p \<noteq> 0 \<longrightarrow> price_seen env otoken p h) (option_price env otoken)"
  unfolding option_price_def
proof (rule tracks_lift)
  fix mint assume mint: "key_of env otoken = Inr mint"
  let ?info = "\<lambda>i h. case i of None \<Rightarrow> True | Some i \<Rightarrow> with_controller env (\<lambda>c. account_said env (settler_info_pda env mint c)
       (\<lambda>d. registered_data d \<and> otoken_info_at (settler_info_pda env mint c) d = i) h)"
  have info: "tracks ?info (read_otoken_info env otoken)"
    using tracks_info [of env otoken] by (simp add: mint cong: option.case_cong)
  have fallback: "tracks (\<lambda>p h. p \<noteq> 0 \<longrightarrow> price_seen env otoken p h) (bindE (read_otoken_info env otoken) (\<lambda>info. case info of
           None \<Rightarrow> ret 0 | Some i \<Rightarrow> read_oracle_expiry_price env (oi_underlying i) (oi_expiry i)))"
  proof (rule tracks_bind [OF info, where R = "\<lambda>i p h. p \<noteq> 0 \<longrightarrow> (case i of None \<Rightarrow> False | Some i \<Rightarrow> oracle_said env (oi_underlying i) (oi_expiry i) p h)"], goal_cases)
    case (1 i)
    show ?case using tracks_oracle by (cases i) (auto intro: tracks_ret)
  qed (auto simp: with_controller_def account_said_append price_seen_cases(2) [OF mint] split: option.splits sum.splits)
  show "tracks (\<lambda>p h. p \<noteq> 0 \<longrightarrow> price_seen env otoken p h) (bindE (read_otoken_info_expiry_price env mint) (\<lambda>price.
       if price \<noteq> 0 then ret price
       else bindE (read_otoken_info env otoken) (\<lambda>info. case info of
           None \<Rightarrow> ret price | Some i \<Rightarrow> read_oracle_expiry_price env (oi_underlying i) (oi_expiry i))))"
  proof (rule tracks_bind [OF tracks_option_price_read, where R = "\<lambda>q p h. if q \<noteq> 0 then p = q else p \<noteq> 0 \<longrightarrow> price_seen env otoken p h"], goal_cases)
    case (1 q)
    show ?case using fallback by (auto intro: tracks_ret)
  qed (auto simp: with_controller_def account_said_append intro!: price_seen_cases(1) [OF mint] split: if_splits sum.splits)
qed

lemma olds_option_price: "grows orders_le (cached_option_price env cache otoken)"
  unfolding cached_option_price_def option_price_def by (intro olds_rules olds_prices)

text \<open>A cache of prices that were read.\<close>

definition cache_seen :: "chain_env \<Rightarrow> (string \<times> int) list \<Rightarrow> chain_call list \<Rightarrow> bool" where
  "cache_seen env cache h \<longleftrightarrow> (\<forall>otoken p. map_of cache otoken = Some p \<longrightarrow> p \<noteq> 0 \<longrightarrow> price_seen env otoken p h)"

lemma cache_seen_append: "cache_seen env cache h \<Longrightarrow> cache_seen env cache (cs @ h)"
  unfolding cache_seen_def using evidence_append(2) by blast

lemma tracks_cached:
  "tracks (\<lambda>(cache', p) h. map_of cache' otoken = Some p \<and> (p \<noteq> 0 \<longrightarrow> cache' = cache \<or> price_seen env otoken p h) \<and>
      (map_of cache otoken = None \<longrightarrow> cache' = dict_put otoken p cache) \<and> (map_of cache otoken \<noteq> None \<longrightarrow> cache' = cache))
    (cached_option_price env cache otoken)"
proof (cases "map_of cache otoken")
  case None
  then show ?thesis unfolding cached_option_price_def
    by (auto intro!: tracks_bind [OF tracks_option_price, where R = "\<lambda>p r h. r = (dict_put otoken p cache, p)"] tracks_ret
        simp: evidence_append)
qed (simp add: cached_option_price_def tracks_ret)

section \<open>Rows and their marks\<close>

definition sol_terms :: "sol_order \<Rightarrow> sol_order" where
  "sol_terms r = r\<lparr>sr_is_settled := None, sr_settled_at := None, sr_settlement_tx := None, sr_settlement_type := None,
     sr_is_itm := None, sr_expiry_price := None, sr_delivered_asset := None, sr_delivered_amount := None, sr_delivery_tx := None\<rparr>"

lemma sol_terms_same:
  assumes "sol_terms r = sol_terms s"
  shows "sr_chain r = sr_chain s" "position_key r = position_key s" "sr_otoken r = sr_otoken s"
    "position_strike r = position_strike s" "position_itm r = position_itm s"
    "vault_done env r = vault_done env s" "delivery_sent env r = delivery_sent env s"
proof -
  have f: "f r = f s" if "\<And>r. f (sol_terms r) = f r" for f :: "sol_order \<Rightarrow> 'b" using that assms by metis
  show "sr_chain r = sr_chain s" "position_key r = position_key s" "sr_otoken r = sr_otoken s"
    "position_strike r = position_strike s" "position_itm r = position_itm s"
    by (rule f, simp add: sol_terms_def position_key_def position_strike_def position_itm_def [abs_def])+
  show "vault_done env r = vault_done env s"
    by (rule f) (unfold sol_terms_def vault_done_def [abs_def] settles_def, simp cong: sum.case_cong)
  show "delivery_sent env r = delivery_sent env s"
    by (rule f) (unfold sol_terms_def delivery_sent_def [abs_def] delivers_def, simp cong: sum.case_cong)
qed

lemma terms_marks [simp]:
  "sol_terms (settled_mark tx n r) = sol_terms r" "sol_terms (reconciled_mark n r) = sol_terms r"
  "sol_terms (redeemed_mark tx p r) = sol_terms r" "sol_terms (failed_mark p r) = sol_terms r"
  "sol_terms (otm_mark p r) = sol_terms r" "sol_terms (amount_mark c a r) = sol_terms r"
  by (simp_all add: sol_terms_def mark_defs)

text \<open>What may have become of a row by the end of a history.\<close>

definition settled_backed :: "chain_env \<Rightarrow> chain_call list \<Rightarrow> sol_order \<Rightarrow> bool" where
  "settled_backed env h r \<longleftrightarrow> sr_is_settled r = Some True \<and> vault_done env r h"

definition price_backed :: "chain_env \<Rightarrow> chain_call list \<Rightarrow> sol_order \<Rightarrow> bool" where
  "price_backed env h r \<longleftrightarrow> (case (sr_expiry_price r, position_strike r) of
     (Some p, Inr k) \<Rightarrow> p \<noteq> 0 \<and> price_seen env (sr_otoken r) p h \<and> sr_is_itm r = Some (position_itm r p k)
   | _ \<Rightarrow> False)"

text \<open>A delivery is new when the row has one that it had not before; its vault was settled before, or is done.\<close>

definition delivery_backed :: "chain_env \<Rightarrow> chain_call list \<Rightarrow> sol_order \<Rightarrow> sol_order \<Rightarrow> bool" where
  "delivery_backed env h r r' \<longleftrightarrow> (case sr_delivery_tx r' of None \<Rightarrow> False | Some tx \<Rightarrow> delivery_sent env r' tx h) \<and>
     (sr_is_settled r = Some True \<or> vault_done env r' h)"

definition row_marked :: "chain_env \<Rightarrow> chain_call list \<Rightarrow> sol_order \<Rightarrow> sol_order \<Rightarrow> bool" where
  "row_marked env h r r' \<longleftrightarrow>
     (if sr_chain r \<noteq> ''solana'' then r' = r
      else sol_terms r' = sol_terms r \<and>
        (sr_is_settled r' = sr_is_settled r \<or> settled_backed env h r') \<and>
        (sr_is_itm r' = sr_is_itm r \<and> sr_expiry_price r' = sr_expiry_price r \<or> price_backed env h r') \<and>
        (sr_delivery_tx r' = sr_delivery_tx r \<or> delivery_backed env h r r'))"

definition marks_le :: "chain_env \<Rightarrow> chain_world \<Rightarrow> chain_world \<Rightarrow> bool" where
  "marks_le env w v \<longleftrightarrow> hist_le w v \<and> list_all2 (row_marked env (calls v)) (zw_orders w) (zw_orders v)"

lemma backed_append:
  "settled_backed env h r \<Longrightarrow> settled_backed env (cs @ h) r"
  "price_backed env h r \<Longrightarrow> price_backed env (cs @ h) r"
  "delivery_backed env h r r' \<Longrightarrow> delivery_backed env (cs @ h) r r'"
  by (auto simp: settled_backed_def price_backed_def delivery_backed_def evidence_append split: option.splits sum.splits)

lemma row_marked_append: "row_marked env h r r' \<Longrightarrow> row_marked env (cs @ h) r r'"
  using backed_append [of env h] by (auto simp: row_marked_def)

lemma backed_same:
  assumes "sol_terms r = sol_terms s"
  shows "sr_is_settled r = sr_is_settled s \<Longrightarrow> settled_backed env h r = settled_backed env h s"
    "sr_is_itm r = sr_is_itm s \<Longrightarrow> sr_expiry_price r = sr_expiry_price s \<Longrightarrow> price_backed env h r = price_backed env h s"
    "sr_delivery_tx r = sr_delivery_tx s \<Longrightarrow> delivery_backed env h q r = delivery_backed env h q s"
  using sol_terms_same [OF assms] by (simp_all add: settled_backed_def price_backed_def delivery_backed_def cong: option.case_cong sum.case_cong)

lemma row_marked_refl: "row_marked env h r r"
  by (simp add: row_marked_def)

lemma row_marked_trans:
  assumes rs: "row_marked env h r s" and st: "row_marked env h s t"
  shows "row_marked env h r t"
proof (cases "sr_chain r = ''solana''")
  case True
  with rs have a: "sol_terms s = sol_terms r" by (simp add: row_marked_def)
  with True have c: "sr_chain s = ''solana''" using sol_terms_same(1) by metis
  with st have b: "sol_terms t = sol_terms s" by (simp add: row_marked_def)
  have settled: "sr_is_settled t = sr_is_settled r \<or> settled_backed env h t"
    using rs st True c backed_same(1) [OF b] by (auto simp: row_marked_def)
  have price: "sr_is_itm t = sr_is_itm r \<and> sr_expiry_price t = sr_expiry_price r \<or> price_backed env h t"
    using rs st True c backed_same(2) [OF b] by (auto simp: row_marked_def)
  have "delivery_backed env h s t \<Longrightarrow> delivery_backed env h r t"
    using rs True sol_terms_same(6) [OF b] by (auto simp: row_marked_def delivery_backed_def settled_backed_def)
  then have "sr_delivery_tx t = sr_delivery_tx r \<or> delivery_backed env h r t"
    using rs st True c backed_same(3) [OF b] by (auto simp: row_marked_def)
  with a b True settled price show ?thesis by (simp add: row_marked_def)
qed (use assms in \<open>auto simp: row_marked_def\<close>)

interpretation marks: world_order "marks_le env" for env
proof unfold_locales
  show "marks_le env w w" for w by (simp add: marks_le_def hist.le_refl list_all2_refl row_marked_refl)
  fix u v w assume uv: "marks_le env u v" and vw: "marks_le env v w"
  then obtain cs where cs: "calls w = cs @ calls v" by (auto simp: marks_le_def hist_le_def)
  with uv have "list_all2 (row_marked env (calls w)) (zw_orders u) (zw_orders v)"
    by (auto simp: marks_le_def intro: list_all2_mono row_marked_append)
  moreover have "list_all2 (row_marked env (calls w)) (zw_orders v) (zw_orders w)" using vw by (simp add: marks_le_def)
  ultimately have "list_all2 (row_marked env (calls w)) (zw_orders u) (zw_orders w)"
    by (rule list_all2_trans [rotated]) (rule row_marked_trans)
  with uv vw show "marks_le env u w" by (auto simp: marks_le_def intro: hist.le_trans)
qed

lemma olds_marks: "grows orders_le m \<Longrightarrow> grows (marks_le env) m"
  by (auto simp: grows_def orders_le_def marks_le_def list_all2_refl row_marked_refl)

section \<open>Sound programs\<close>

text \<open>
  \<open>sound env w0 H Q m\<close>: from a world reached from \<open>w0\<close> by backed marks, with \<open>H\<close> of its history, \<open>m\<close> makes
  only backed marks, and \<open>Q\<close> holds of its value and history when it returns.
\<close>

definition lasting :: "(chain_call list \<Rightarrow> bool) \<Rightarrow> bool" where
  "lasting H \<longleftrightarrow> (\<forall>h cs. H h \<longrightarrow> H (cs @ h))"

definition sound :: "chain_env \<Rightarrow> chain_world \<Rightarrow> (chain_call list \<Rightarrow> bool) \<Rightarrow> ('a \<Rightarrow> chain_call list \<Rightarrow> bool) \<Rightarrow> 'a zpy \<Rightarrow> bool" where
  "sound env w0 H Q m \<longleftrightarrow> (\<forall>w. marks_le env w0 w \<longrightarrow> H (calls w) \<longrightarrow>
     wp m (\<lambda>x v. Q x (calls v) \<and> marks_le env w0 v \<and> hist_le w v) (\<lambda>_ v. marks_le env w0 v \<and> hist_le w v) w)"

lemma lasting_hist: "lasting H \<Longrightarrow> H (calls w) \<Longrightarrow> hist_le w v \<Longrightarrow> H (calls v)"
  by (auto simp: lasting_def hist_le_def)

lemma lasting_Cons: "lasting H \<Longrightarrow> H h \<Longrightarrow> H (c # h)"
  unfolding lasting_def by (metis append_Cons append_Nil)

lemma sound_weaken: "sound env w0 H P m \<Longrightarrow> (\<And>h. H' h \<Longrightarrow> H h) \<Longrightarrow> (\<And>x h. P x h \<Longrightarrow> Q x h) \<Longrightarrow> sound env w0 H' Q m"
  unfolding sound_def by (blast intro: wp_mono)

lemma sound_bind:
  assumes "sound env w0 H P m" "\<And>x. sound env w0 (\<lambda>h. H h \<and> P x h) Q (f x)" "lasting H"
  shows "sound env w0 H Q (bindE m f)"
  unfolding sound_def wp_bind
proof (intro allI impI)
  fix w assume w: "marks_le env w0 w" "H (calls w)"
  show "wp m (\<lambda>x. wp (f x) (\<lambda>y v. Q y (calls v) \<and> marks_le env w0 v \<and> hist_le w v) (\<lambda>_ v. marks_le env w0 v \<and> hist_le w v))
      (\<lambda>_ v. marks_le env w0 v \<and> hist_le w v) w"
  proof (rule wp_mono [OF assms(1) [unfolded sound_def, rule_format, OF w]], goal_cases)
    case (1 x u)
    then have "marks_le env w0 u" "H (calls u) \<and> P x (calls u)" using lasting_hist [OF assms(3) w(2)] by auto
    from assms(2) [unfolded sound_def, rule_format, OF this] show ?case
      by (rule wp_mono) (use 1 in \<open>auto intro: hist.le_trans\<close>)
  qed simp
qed

lemma sound_ret: "(\<And>h. H h \<Longrightarrow> Q x h) \<Longrightarrow> sound env w0 H Q (ret x)"
  by (simp add: sound_def wps hist.le_refl)

lemma sound_raise: "sound env w0 H Q (raise e)"
  by (simp add: sound_def wps hist.le_refl)

lemma sound_lift: "(\<And>x. r = Inr x \<Longrightarrow> sound env w0 H Q (f x)) \<Longrightarrow> sound env w0 H Q (bindE (liftE r) f)"
  by (cases r) (simp_all add: sound_def wps hist.le_refl)

lemma sound_then: "sound env w0 H (\<lambda>_. P) m \<Longrightarrow> sound env w0 (\<lambda>h. H h \<and> P h) Q n \<Longrightarrow> lasting H \<Longrightarrow> sound env w0 H Q (thenE m n)"
  unfolding thenE_def by (rule sound_bind)

lemma sound_catch:
  assumes "sound env w0 H Q m" "\<And>e. sound env w0 H Q (f e)" "lasting H"
  shows "sound env w0 H Q (catchE m f)"
  unfolding sound_def wp_catch
proof (intro allI impI)
  fix w assume w: "marks_le env w0 w" "H (calls w)"
  show "wp m (\<lambda>x v. Q x (calls v) \<and> marks_le env w0 v \<and> hist_le w v)
     (\<lambda>e u. if e = NoReturn then marks_le env w0 u \<and> hist_le w u
        else wp (f e) (\<lambda>x v. Q x (calls v) \<and> marks_le env w0 v \<and> hist_le w v) (\<lambda>_ v. marks_le env w0 v \<and> hist_le w v) u) w"
  proof (rule wp_mono [OF assms(1) [unfolded sound_def, rule_format, OF w]], goal_cases)
    case (2 e u)
    then have "marks_le env w0 u" "H (calls u)" using lasting_hist [OF assms(3) w(2)] by auto
    from assms(2) [unfolded sound_def, rule_format, OF this]
    have "wp (f e) (\<lambda>x v. Q x (calls v) \<and> marks_le env w0 v \<and> hist_le w v) (\<lambda>_ v. marks_le env w0 v \<and> hist_le w v) u"
      by (rule wp_mono) (use 2 in \<open>auto intro: hist.le_trans\<close>)
    with 2 show ?case by simp
  qed simp
qed

lemma sound_try: "sound env w0 H Q m \<Longrightarrow> lasting H \<Longrightarrow> sound env w0 H (\<lambda>r h. case r of Inl _ \<Rightarrow> True | Inr x \<Rightarrow> Q x h) (tryE m)"
  unfolding tryE_def by (intro sound_catch sound_bind [where P = Q] sound_ret) auto

lemma sound_read:
  assumes "grows orders_le m" "tracks Q m"
  shows "sound env w0 H Q m"
  unfolding sound_def
proof (intro allI impI)
  fix w assume "marks_le env w0 w"
  from wp_conj [OF marks.wp_le [OF olds_marks [OF assms(1)] this] wp_conj [OF hist.wp_le [OF olds_hist [OF assms(1)] hist.le_refl]
        assms(2) [unfolded tracks_def, rule_format]]]
  show "wp m (\<lambda>x v. Q x (calls v) \<and> marks_le env w0 v \<and> hist_le w v) (\<lambda>_ v. marks_le env w0 v \<and> hist_le w v) w"
    by (rule wp_mono) auto
qed

lemma sound_quiet: "grows orders_le m \<Longrightarrow> sound env w0 H (\<lambda>_ _. True) m"
  by (rule sound_read [OF _ tracks_any [OF olds_hist]])

lemma sound_fold:
  assumes "\<And>s x. x \<in> set xs \<Longrightarrow> sound env w0 (\<lambda>h. H h \<and> I s h) I (f s x)" "lasting H"
  shows "sound env w0 (\<lambda>h. H h \<and> I s h) I (foldE f s xs)"
  using assms(1)
proof (induction xs arbitrary: s)
  case Nil
  show ?case unfolding foldE.simps by (rule sound_ret) simp
next
  case (Cons x xs)
  show ?case unfolding sound_def foldE.simps wp_bind
  proof (intro allI impI)
    fix w assume w: "marks_le env w0 w" "H (calls w) \<and> I s (calls w)"
    show "wp (f s x) (\<lambda>y. wp (foldE f y xs) (\<lambda>z v. I z (calls v) \<and> marks_le env w0 v \<and> hist_le w v) (\<lambda>_ v. marks_le env w0 v \<and> hist_le w v))
      (\<lambda>_ v. marks_le env w0 v \<and> hist_le w v) w"
    proof (rule wp_mono [OF Cons.prems [of x s, unfolded sound_def, rule_format, OF _ w]], goal_cases)
      case (2 y u)
      then have "marks_le env w0 u" "H (calls u) \<and> I y (calls u)" using lasting_hist [OF assms(2)] w by auto
      moreover have "sound env w0 (\<lambda>h. H h \<and> I y h) I (foldE f y xs)" by (rule Cons.IH) (use Cons.prems in simp)
      ultimately have "wp (foldE f y xs) (\<lambda>z v. I z (calls v) \<and> marks_le env w0 v \<and> hist_le u v) (\<lambda>_ v. marks_le env w0 v \<and> hist_le u v) u"
        unfolding sound_def by blast
      then show ?case by (rule wp_mono) (use 2 in \<open>auto intro: hist.le_trans\<close>)
    qed simp_all
  qed
qed

lemma sound_for_each:
  "(\<And>x. x \<in> set xs \<Longrightarrow> sound env w0 H (\<lambda>_ _. True) (f x)) \<Longrightarrow> lasting H \<Longrightarrow> sound env w0 H (\<lambda>_ _. True) (for_each f xs)"
  unfolding for_each_def by (rule sound_weaken [OF sound_fold [where I = "\<lambda>_ _. True" and H = H]]) auto

section \<open>Programs that write no rows\<close>

lemmas olds_more = olds_rules olds_prices olds.grows_modify

lemma olds_pyth: "grows orders_le (ensure_fresh_pyth_price_update env a)"
proof -
  have config: "grows orders_le (oracle_config_data env)"
    unfolding oracle_config_data_def by (intro olds_rules)
  have receiver: "grows orders_le (read_oracle_pyth_receiver_program env)"
    unfolding read_oracle_pyth_receiver_program_def by (intro olds_rules config)
  have latest: "grows orders_le (find_latest_pyth_price_update_entry env a)"
    unfolding find_latest_pyth_price_update_entry_def by (intro olds_rules receiver)
  have build: "grows orders_le (build_pyth_post_update_atomic_ix env r acc feed t k)" for r acc feed t k
    unfolding build_pyth_post_update_atomic_ix_def by (intro olds_rules)
  have post: "grows orders_le (post_fresh_pyth_price_update env a)"
    unfolding post_fresh_pyth_price_update_def fetch_pyth_accumulator_update_def by (intro olds_rules receiver build)
  show ?thesis
    unfolding ensure_fresh_pyth_price_update_def read_oracle_max_staleness_def find_latest_pyth_price_update_def
    by (intro olds_rules config latest post)
qed

lemma olds_wait: "grows orders_le (wait_for_oracle_expiry_price env u e)"
proof -
  have "grows orders_le (wait_attempts env u e n)" for n
  proof (induction n)
    case (Suc n)
    then show ?case unfolding wait_attempts.simps by (intro olds_more)
  qed (simp add: olds.grows_ret)
  then show ?thesis by (simp add: wait_for_oracle_expiry_price_def)
qed

lemma olds_phase0: "grows orders_le (ensure_solana_expiry_prices_set env positions)"
proof -
  have price: "grows orders_le (normalize_pyth_price_to_8dec env a)" for a
    unfolding normalize_pyth_price_to_8dec_def get_pyth_price_def Let_def
    by (intro olds_more) (auto simp: orders_le_def hist_le_def olds.grows_raise split: exn.split)
  have build: "grows orders_le (build_set_expiry_price_ix env mint)" for mint
    unfolding build_set_expiry_price_ix_def by (intro olds_more)
  have attempt: "grows orders_le m \<Longrightarrow> grows orders_le (try_set_expiry_price env m)" for m
    unfolding try_set_expiry_price_def by (intro olds_more)
  have obtain_price: "grows orders_le (obtain_oracle_price env a i)" for a i
    unfolding obtain_oracle_price_def finalize_oracle_price_def build_oracle_set_expiry_price_ix_def
    by (intro olds_more price olds_pyth olds_wait)
  have "grows orders_le (set_option_price env pos)" "grows orders_le (retry_option_price env pos)" for pos
    unfolding set_option_price_def retry_option_price_def by (intro olds_more obtain_price build attempt)+
  then show ?thesis
    unfolding ensure_solana_expiry_prices_set_def retry_missing_controller_expiry_prices_def by (intro olds_rules)
qed

lemma olds_settle: "grows orders_le (settle_vault env otoken vd)"
  unfolding settle_vault_def build_settle_vault_ix_def Let_def by (intro olds_more)

lemma olds_accounts: "grows orders_le (ensure_delivery_accounts env c m u mm i)"
  unfolding ensure_delivery_accounts_def by (intro olds_more)

lemma olds_build_redeem: "grows orders_le (build_physical_redeem_ix env mint user mm pda a m i swap)"
  unfolding build_physical_redeem_ix_def read_settler_jupiter_program_def Let_def by (intro olds_more)

lemma olds_prepare: "grows orders_le (prepare_delivery env amount i mint user mm c pda)"
proof -
  have alts: "grows orders_le (decode_jupiter_alts env as)" for as
  proof (induction as)
    case (Cons a as)
    then show ?case unfolding decode_jupiter_alts.simps by (intro olds_more)
  qed (simp add: olds.grows_ret)
  show ?thesis
    unfolding prepare_delivery_def read_mint_decimals_def delivery_quote_def fetch_jupiter_quote_def fetch_jupiter_swap_instructions_def
    by (intro olds_more alts olds_build_redeem)
qed

lemma olds_queues: "grows orders_le (get_expired_unsettled_solana env)" "grows orders_le (get_pending_phase2_solana env)"
  unfolding get_expired_unsettled_solana_def get_pending_phase2_solana_def by (intro olds_rules)+

section \<open>What transactions say\<close>

lemma tracks_yields: "grows orders_le m \<Longrightarrow> yields V m \<Longrightarrow> tracks (\<lambda>x _. V x) m"
  by (rule tracksI [OF wp_yields olds_hist])

lemma tracks_after:
  assumes "grows orders_le m" "yields V m" "\<And>x. V x \<Longrightarrow> tracks Q (f x)"
  shows "tracks Q (bindE m f)"
  unfolding tracks_def wp_bind
proof
  fix w
  show "wp m (\<lambda>x. wp (f x) (\<lambda>y v. Q y (calls v) \<and> hist_le w v) (\<lambda>_ _. True)) (\<lambda>_ _. True) w"
  proof (rule wp_mono [OF wp_conj [OF wp_yields [OF assms(2)] hist.wp_le [OF olds_hist [OF assms(1)] hist.le_refl]]], goal_cases)
    case (1 x u)
    then have "tracks Q (f x)" by (intro assms(3)) simp
    then have "wp (f x) (\<lambda>y v. Q y (calls v) \<and> hist_le u v) (\<lambda>_ _. True) u" by (simp add: tracks_def)
    then show ?case by (rule wp_mono) (use 1 in \<open>auto intro: hist.le_trans\<close>)
  qed simp
qed

lemma tracks_sent: "tracks (\<lambda>tx. sent_tx env (\<lambda>ixs' sig. ixs' = ixs \<and> sig = tx)) (send_ixs env ixs tables)"
  by (rule tracksI [OF _ olds_hist, OF _ olds_send(1)]) (auto simp: send_ixs_def wps split: option.split)

lemma tracks_vault_settled:
  "tracks (\<lambda>b h. b \<longrightarrow> (case vault_pda_of env vault of Inl _ \<Rightarrow> False | Inr pda \<Rightarrow> account_said env pda vault_settled_at h))
    (is_vault_settled_on_chain env vault)"
  by (rule tracksI [OF _ olds_hist, OF _ olds_prices(5)])
    (auto simp: is_vault_settled_on_chain_def read_account_data_def wps split: option.split sum.split)

lemma yields_vault:
  "yields (\<lambda>vd. case vd of None \<Rightarrow> True | Some v \<Rightarrow> vault_pda_of env vault = Inr (vd_pda v)) (read_vault_data env vault)"
  unfolding read_vault_data_def
  by (intro yields_bind_lift yields_bind_any yields_ret) (auto split: option.split)

lemma yields_settle_ix:
  assumes "key_of env (sr_otoken r) = Inr mint"
  shows "yields (settles env r pda) (build_settle_vault_ix env pda mint collateral beneficiary)"
  unfolding build_settle_vault_ix_def
  by (intro yields_bind_lift yields_prod yields_let yields_bind_any yields_ret) (simp add: settles_def assms)

lemma tracks_settle:
  assumes "vault_pda_of env (sr_vault r) = Inr (vd_pda vd)"
  shows "tracks (\<lambda>tx h. tx \<noteq> None \<longrightarrow> vault_done env r h) (settle_vault env (sr_otoken r) vd)"
proof -
  let ?Q = "\<lambda>tx h. tx \<noteq> None \<longrightarrow> vault_done env r h"
  have olds_ix: "grows orders_le (build_settle_vault_ix env p m c b)" for p m c b
    unfolding build_settle_vault_ix_def Let_def by (intro olds_more)
  have sent: "tracks ?Q (bindE (send_one env ix) (\<lambda>tx. ret (Some tx)))" if "settles env r (vd_pda vd) ix" for ix
  proof (unfold send_one_def, rule tracks_bind [OF tracks_sent, where R = "\<lambda>_ _ _. True"], goal_cases)
    case (3 tx y h)
    then have "sent_tx env (\<lambda>ixs _. list_ex (settles env r (vd_pda vd)) ixs) h"
      using that by (auto elim: sent_tx_mono)
    then show ?case using assms by (simp add: vault_done_def)
  qed (auto simp: sent_tx_append tracks_ret)
  have "tracks ?Q (bindE (build_settle_vault_ix env (vd_pda vd) mint (vd_collateral vd) (vd_beneficiary vd)) (\<lambda>ix.
         bindE (send_one env ix) (\<lambda>tx. ret (Some tx))))" if "key_of env (sr_otoken r) = Inr mint" for mint
    by (rule tracks_after [OF olds_ix yields_settle_ix [OF that] sent])
  then show ?thesis
    unfolding settle_vault_def
    by (intro tracks_bind [OF tracks_any [OF olds_hist], where R = "\<lambda>_. ?Q"] tracks_lift olds_more)
      (auto intro: tracks_ret)
qed

lemma redeem_data:
  assumes "physical_redeem_data amount m swap = Inr d"
  shows "\<exists>a. pack_u64 amount = Inr a \<and> take (8 + length a) d = PHYSICAL_REDEEM_DISC @ a"
proof -
  have "length PHYSICAL_REDEEM_DISC = 8" by (simp add: PHYSICAL_REDEEM_DISC_def)
  with assms show ?thesis
    by (auto simp: physical_redeem_data_def concat_results_Cons simp del: concat_results.simps(2,3))
qed

lemma yields_redeem_ix:
  assumes "key_of env (sr_otoken r) = Inr mint" "key_of env (sr_user r) = Inr user" "key_of env (the (sr_mm r)) = Inr mm"
    and "vault_pda_of env (sr_vault r) = Inr pda"
  shows "yields (delivers env r) (build_physical_redeem_ix env mint user mm pda (sr_amount r) m i swap)"
  unfolding build_physical_redeem_ix_def
  by (intro yields_bind_lift yields_prod yields_let yields_bind_any yields_ret)
    (auto simp: delivers_def assms dest!: redeem_data)

lemma yields_prepare:
  assumes "key_of env (sr_otoken r) = Inr mint" "key_of env (sr_user r) = Inr user" "key_of env (the (sr_mm r)) = Inr mm"
    and "vault_pda_of env (sr_vault r) = Inr pda"
  shows "yields (\<lambda>(_, ix, _, _). delivers env r ix) (prepare_delivery env (sr_amount r) i mint user mm c pda)"
  unfolding prepare_delivery_def
  by (intro yields_bind_any yields_prod yields_bind [OF yields_redeem_ix [OF assms]] yields_ret) simp

section \<open>Marks with their evidence\<close>

text \<open>The updates address rows by user and vault, which must therefore be the key of the Solana rows.\<close>

definition vaults_ok :: "sol_order list \<Rightarrow> bool" where
  "vaults_ok rows \<longleftrightarrow> distinct (map position_key (filter (\<lambda>r. sr_chain r = ''solana'') rows))"

definition open_position :: "chain_world \<Rightarrow> sol_order \<Rightarrow> bool" where
  "open_position w p \<longleftrightarrow> p \<in> set (zw_orders w) \<and> sr_chain p = ''solana''"

definition position_done :: "chain_env \<Rightarrow> chain_world \<Rightarrow> chain_call list \<Rightarrow> sol_order \<Rightarrow> bool" where
  "position_done env w h p \<longleftrightarrow> open_position w p \<and> (sr_is_settled p = Some True \<or> vault_done env p h)"

definition itm_seen :: "chain_env \<Rightarrow> sol_order \<Rightarrow> int \<Rightarrow> chain_call list \<Rightarrow> bool" where
  "itm_seen env p price h \<longleftrightarrow> price \<noteq> 0 \<and> price_seen env (sr_otoken p) price h \<and>
     (case position_strike p of Inl _ \<Rightarrow> False | Inr k \<Rightarrow> position_itm p price k)"

named_theorems lasting_rules "properties of a history that last"

lemma lasting_basic [lasting_rules]:
  "lasting (\<lambda>_. b)" "lasting G \<Longrightarrow> lasting H \<Longrightarrow> lasting (\<lambda>h. G h \<and> H h)" "(\<And>x. lasting (K x)) \<Longrightarrow> lasting (\<lambda>h. \<forall>x \<in> A. K x h)"
  by (simp_all add: lasting_def)

lemma lasting_evidence [lasting_rules]:
  "lasting (vault_done env p)" "lasting (delivery_sent env p tx)" "lasting (cache_seen env cache)" "lasting (itm_seen env p price)"
  "lasting (\<lambda>h. position_done env w h p)"
  by (auto simp: lasting_def evidence_append cache_seen_append itm_seen_def position_done_def split: sum.split)

lemma origin_of:
  assumes "vaults_ok (zw_orders w0)" "open_position w0 p" "marks_le env w0 w" "r \<in> set (zw_orders w)"
    and "is_position (sr_user p) (sr_vault p) r"
  shows "row_marked env (calls w) p r"
proof -
  from assms(3,4) obtain r0 where r0: "r0 \<in> set (zw_orders w0)" "row_marked env (calls w) r0 r"
    by (auto simp: marks_le_def list_all2_conv_all_nth in_set_conv_nth) metis
  then have t: "sol_terms r = sol_terms r0" by (auto simp: row_marked_def split: if_splits)
  with assms(5) have "sr_chain r0 = ''solana''" "position_key r0 = position_key p"
    using sol_terms_same(1,2) [OF t] by (auto simp: is_position_def position_key_def)
  with r0(1) assms(1,2) have "r0 = p"
    by (auto simp: vaults_ok_def open_position_def distinct_map dest: inj_onD)
  with r0(2) show ?thesis by simp
qed

lemma sound_update:
  assumes "vaults_ok (zw_orders w0)" "open_position w0 p" "lasting H"
    and f: "\<And>r h. row_marked env h p r \<Longrightarrow> H h \<Longrightarrow> row_marked env h r (f r)"
  shows "sound env w0 H (\<lambda>_ _. True) (db_update_solana env (sr_user p) (sr_vault p) f)"
proof -
  let ?c = "UpdateRow (sr_user p) (sr_vault p)" and ?P = "is_position (sr_user p) (sr_vault p)"
  have call: "marks_le env w0 (w\<lparr>calls := ?c # calls w\<rparr>)" if "marks_le env w0 w" for w
    by (rule marks.le_trans [OF that]) (simp add: marks_le_def hist_le_def list_all2_refl row_marked_refl)
  have table: "marks_le env w0 (w\<lparr>zw_orders := tbl_update ?P f (zw_orders w)\<rparr>)" if w: "marks_le env w0 w" "H (calls w)" for w
  proof -
    have "row_marked env (calls w) r (if ?P r then f r else r)" if "r \<in> set (zw_orders w)" for r
      using f [OF origin_of [OF assms(1,2) w(1) that]] w(2) by (simp add: row_marked_refl)
    then have "marks_le env w (w\<lparr>zw_orders := tbl_update ?P f (zw_orders w)\<rparr>)"
      by (simp add: marks_le_def hist_le_def tbl_update_def list_all2_conv_all_nth)
    with w(1) show ?thesis by (rule marks.le_trans)
  qed
  show ?thesis unfolding sound_def
  proof (intro allI impI)
    fix w assume w: "marks_le env w0 w" "H (calls w)"
    have "H (?c # calls w)" using assms(3) w(2) by (rule lasting_Cons)
    with table [OF call [OF w(1)]] call [OF w(1)]
    show "wp (db_update_solana env (sr_user p) (sr_vault p) f) (\<lambda>x v. True \<and> marks_le env w0 v \<and> hist_le w v)
        (\<lambda>_ v. marks_le env w0 v \<and> hist_le w v) w"
      by (simp add: db_update_solana_def wps hist_le_def split: option.split)
  qed
qed

lemma marked_terms: "row_marked env h p r \<Longrightarrow> sr_chain p = ''solana'' \<Longrightarrow> sol_terms r = sol_terms p \<and> sr_chain r = ''solana''"
  using sol_terms_same(1) [of r p] by (simp add: row_marked_def)

lemma settled_marked:
  assumes "row_marked env h p r" "sr_chain p = ''solana''" "vault_done env p h"
  shows "row_marked env h r (settled_mark tx n r)" "row_marked env h r (reconciled_mark n r)"
proof -
  have t: "sol_terms r = sol_terms p" "sr_chain r = ''solana''" using marked_terms [OF assms(1,2)] by auto
  have "vault_done env (settled_mark tx n r) h" "vault_done env (reconciled_mark n r) h"
    using assms(3) sol_terms_same(6) [of "settled_mark tx n r" p] sol_terms_same(6) [of "reconciled_mark n r" p] t(1) by simp_all
  then show "row_marked env h r (settled_mark tx n r)" "row_marked env h r (reconciled_mark n r)"
    using t by (simp_all add: row_marked_def settled_backed_def) (simp_all add: mark_defs)
qed

lemma price_marked:
  assumes "sol_terms r' = sol_terms p" "sr_expiry_price r' = Some price" "price \<noteq> 0" "price_seen env (sr_otoken p) price h"
    and "position_strike p = Inr k" "sr_is_itm r' = Some (position_itm p price k)"
  shows "price_backed env h r'"
  using assms sol_terms_same(3-5) [OF assms(1)] by (simp add: price_backed_def)

lemma otm_marked:
  assumes "row_marked env h p r" "sr_chain p = ''solana''" "price \<noteq> 0" "price_seen env (sr_otoken p) price h"
    and "position_strike p = Inr k" "\<not> position_itm p price k"
  shows "row_marked env h r (otm_mark price r)"
proof -
  have t: "sol_terms r = sol_terms p" "sr_chain r = ''solana''" using marked_terms [OF assms(1,2)] by auto
  have "price_backed env h (otm_mark price r)"
    by (rule price_marked [OF _ _ assms(3-5)]) (use t assms(6) in \<open>simp_all add: mark_defs sol_terms_def\<close>)
  with t show ?thesis by (simp add: row_marked_def) (simp add: mark_defs)
qed

lemma itm_marked:
  assumes "row_marked env h p r" "sr_chain p = ''solana''" "itm_seen env p price h"
  shows "row_marked env h r (failed_mark price r)"
    and "delivery_sent env p tx h \<Longrightarrow> sr_is_settled p = Some True \<or> vault_done env p h \<Longrightarrow> row_marked env h r (redeemed_mark tx price r)"
proof -
  obtain k where k: "price \<noteq> 0" "price_seen env (sr_otoken p) price h" "position_strike p = Inr k" "position_itm p price k"
    using assms(3) by (auto simp: itm_seen_def split: sum.splits)
  have t: "sol_terms r = sol_terms p" "sr_chain r = ''solana''" using marked_terms [OF assms(1,2)] by auto
  have "price_backed env h (failed_mark price r)"
    by (rule price_marked [OF _ _ k(1-3)]) (use t k(4) in \<open>simp_all add: mark_defs sol_terms_def\<close>)
  with t show "row_marked env h r (failed_mark price r)" by (simp add: row_marked_def) (simp add: mark_defs)
  assume d: "delivery_sent env p tx h" "sr_is_settled p = Some True \<or> vault_done env p h"
  let ?r = "redeemed_mark tx price r"
  have e: "sol_terms ?r = sol_terms p" using t by simp
  have "price_backed env h ?r"
    by (rule price_marked [OF e _ k(1-3)]) (use k(4) in \<open>simp_all add: mark_defs\<close>)
  moreover have "sr_is_settled r = Some True \<or> vault_done env r h"
    using d(2) assms(1,2) sol_terms_same(6) [OF t(1)] by (auto simp: row_marked_def settled_backed_def)
  with d(1) have "delivery_backed env h r ?r"
    using sol_terms_same(6,7) [OF e] sol_terms_same(6) [OF t(1)]
    by (simp add: delivery_backed_def) (simp add: mark_defs)
  ultimately show "row_marked env h r ?r" using t by (simp add: row_marked_def) (simp add: mark_defs)
qed

section \<open>The phases\<close>

lemma sound_now: "(\<And>n. sound env w0 H Q (f n)) \<Longrightarrow> sound env w0 H Q (bindE (getsE (\<lambda>w. ze_now env (calls w))) f)"
  by (simp add: sound_def wps)

lemma position_open: "open_position w p \<Longrightarrow> sr_chain p = ''solana''"
  by (simp add: open_position_def)

lemma sound_settled_marks:
  assumes "vaults_ok (zw_orders w0)" "open_position w0 p"
  shows "sound env w0 (vault_done env p) (\<lambda>_ _. True) (mark_settled env (sr_user p) (sr_vault p) tx)"
    "sound env w0 (vault_done env p) (\<lambda>_ _. True) (mark_reconciled env (sr_user p) (sr_vault p))"
  unfolding mark_settled_def mark_reconciled_def
  by (intro sound_now sound_update [OF assms] lasting_rules; auto intro: settled_marked position_open [OF assms(2)])+

lemma sound_otm:
  assumes "vaults_ok (zw_orders w0)" "open_position w0 p" "price \<noteq> 0" "position_strike p = Inr k" "\<not> position_itm p price k"
  shows "sound env w0 (price_seen env (sr_otoken p) price) (\<lambda>_ _. True) (mark_solana_otm env (sr_user p) (sr_vault p) price)"
  unfolding mark_solana_otm_def
  by (rule sound_update [OF assms(1,2)]) (auto simp: lasting_def evidence_append intro: otm_marked [OF _ position_open [OF assms(2)] assms(3) _ assms(4,5)])

lemma sound_failed:
  assumes "vaults_ok (zw_orders w0)" "open_position w0 p"
  shows "sound env w0 (itm_seen env p price) (\<lambda>_ _. True) (mark_itm_failed env (sr_user p) (sr_vault p) price)"
  unfolding mark_itm_failed_def
  by (intro sound_update [OF assms] lasting_rules) (auto intro: itm_marked(1) position_open [OF assms(2)])

lemma sound_redeemed:
  assumes "vaults_ok (zw_orders w0)" "open_position w0 p"
  shows "sound env w0 (\<lambda>h. itm_seen env p price h \<and> position_done env w0 h p \<and> delivery_sent env p tx h) (\<lambda>_ _. True)
    (mark_itm_redeemed env (sr_user p) (sr_vault p) tx price)"
  unfolding mark_itm_redeemed_def
  by (intro sound_update [OF assms] lasting_rules) (auto simp: position_done_def intro: itm_marked(2) position_open [OF assms(2)])

lemma sound_amount:
  assumes "vaults_ok (zw_orders w0)" "open_position w0 p"
  shows "sound env w0 (\<lambda>_. True) (\<lambda>_ _. True) (db_update_solana env (sr_user p) (sr_vault p) (amount_mark c a))"
proof (rule sound_update [OF assms])
  show "row_marked env h p r \<Longrightarrow> row_marked env h r (amount_mark c a r)" for r h
    using marked_terms [OF _ position_open [OF assms(2)], of env h r] by (simp add: row_marked_def) (simp add: mark_defs)
qed (rule lasting_rules)

text \<open>Phase 1: the settled positions have their evidence.\<close>

lemma sound_settle_step:
  assumes "vaults_ok (zw_orders w0)" "open_position w0 pos"
  shows "sound env w0 (\<lambda>h. True \<and> (\<forall>p \<in> set settled. position_done env w0 h p)) (\<lambda>settled h. \<forall>p \<in> set settled. position_done env w0 h p)
    (settle_step env settled pos)"
proof -
  let ?I = "\<lambda>settled h. \<forall>p \<in> set settled. position_done env w0 h p"
  let ?D = "vault_done env pos"
  have l: "lasting (?I settled)" "lasting (\<lambda>h. ?I settled h \<and> b)" "lasting (\<lambda>h. ?I settled h \<and> ?D h)" for b
    by (intro lasting_rules)+
  have "?I settled h \<Longrightarrow> ?D h \<Longrightarrow> ?I (settled @ [pos]) h" for h using assms(2) by (auto simp: position_done_def)
  then have joined: "sound env w0 (\<lambda>h. ?I settled h \<and> ?D h) ?I (ret (settled @ [pos]))" by (intro sound_ret) simp
  have marks: "sound env w0 (\<lambda>h. ?I settled h \<and> ?D h) (\<lambda>_ _. True) (mark_reconciled env (sr_user pos) (sr_vault pos))"
     "sound env w0 (\<lambda>h. ?I settled h \<and> ?D h) (\<lambda>_ _. True) (catchE (mark_settled env (sr_user pos) (sr_vault pos) tx) (\<lambda>_. ret ()))" for tx
    by (intro sound_catch sound_ret sound_weaken [OF sound_settled_marks(1) [OF assms]] sound_weaken [OF sound_settled_marks(2) [OF assms]] l; simp)+
  have marked: "sound env w0 (\<lambda>h. ?I settled h \<and> ?D h) ?I (thenE m (ret (settled @ [pos])))"
    if "sound env w0 (\<lambda>h. ?I settled h \<and> ?D h) (\<lambda>_ _. True) m" for m
    by (rule sound_then [OF that]) (auto intro: sound_weaken [OF joined] l)
  have sent: "sound env w0 (?I settled) ?I (bindE (tryE (settle_vault env (sr_otoken pos) vd)) (\<lambda>sent. case sent of
               Inl _ \<Rightarrow> ret settled | Inr None \<Rightarrow> ret settled
             | Inr (Some tx) \<Rightarrow> thenE (catchE (mark_settled env (sr_user pos) (sr_vault pos) tx) (\<lambda>_. ret ())) (ret (settled @ [pos]))))"
    if "vault_pda_of env (sr_vault pos) = Inr (vd_pda vd)" for vd
  proof (rule sound_bind [OF sound_try [OF sound_read [OF olds_settle tracks_settle [OF that]]]], goal_cases)
    case (2 x)
    show ?case
    proof (cases x)
      case (Inr y)
      then show ?thesis using marked [OF marks(2)] by (cases y) (auto intro: sound_weaken sound_ret)
    qed (auto intro: sound_ret)
  qed (intro l)+
  have vault: "sound env w0 (?I settled) ?I (bindE (read_vault_data env (sr_vault pos)) (\<lambda>vault. case vault of
           None \<Rightarrow> ret settled | Some vd \<Rightarrow> bindE (tryE (settle_vault env (sr_otoken pos) vd)) (\<lambda>sent. case sent of
               Inl _ \<Rightarrow> ret settled | Inr None \<Rightarrow> ret settled
             | Inr (Some tx) \<Rightarrow> thenE (catchE (mark_settled env (sr_user pos) (sr_vault pos) tx) (\<lambda>_. ret ())) (ret (settled @ [pos])))))"
  proof (rule sound_bind [OF sound_read [OF olds_prices(4) tracks_yields [OF olds_prices(4) yields_vault]]], goal_cases)
    case (1 x)
    show ?case
    proof (cases x)
      case (Some vd)
      show ?thesis
      proof (cases "vault_pda_of env (sr_vault pos) = Inr (vd_pda vd)")
        case True
        show ?thesis unfolding Some option.case by (rule sound_weaken [OF sent [OF True]]) auto
      qed (simp add: Some sound_def)
    qed (auto intro: sound_ret)
  qed (rule l)
  show ?thesis unfolding settle_step_def simp_thms
  proof (rule sound_bind [OF sound_read [OF olds_prices(5) tracks_vault_settled]], goal_cases)
    case (1 already)
    show ?case
    proof (cases already)
      case True
      then show ?thesis
        by (cases "vault_pda_of env (sr_vault pos)") (auto intro!: sound_weaken [OF marked [OF marks(1)]] simp: vault_done_def)
    qed (auto intro: sound_weaken [OF vault])
  qed (rule l)
qed

lemma sound_settle_vaults:
  assumes "vaults_ok (zw_orders w0)" "\<forall>p \<in> set positions. open_position w0 p"
  shows "sound env w0 (\<lambda>_. True) (\<lambda>settled h. \<forall>p \<in> set settled. position_done env w0 h p) (settle_vaults env positions)"
proof -
  let ?I = "\<lambda>settled h. \<forall>p \<in> set settled. position_done env w0 h p"
  have "sound env w0 (\<lambda>h. True \<and> ?I [] h) ?I (settle_vaults env positions)"
    unfolding settle_vaults_def
    by (rule sound_fold [OF sound_settle_step [OF assms(1)]]) (use assms(2) in \<open>auto intro: lasting_rules\<close>)
  then show ?thesis by simp
qed

text \<open>Phase 2, identification.\<close>

definition identified_solana :: "chain_env \<Rightarrow> sol_order list \<Rightarrow> sol_order list \<times> (string \<times> int) list \<Rightarrow> chain_call list \<Rightarrow> bool" where
  "identified_solana env positions = (\<lambda>(itm, cache) h. cache_seen env cache h \<and>
     (\<forall>p \<in> set itm. p \<in> set positions \<and> itm_seen env p (case map_of cache (sr_otoken p) of None \<Rightarrow> 0 | Some q \<Rightarrow> q) h))"

lemma lasting_identified: "lasting (identified_solana env positions s)"
  by (cases s) (auto simp: identified_solana_def intro!: lasting_rules)

lemma identified_append: "identified_solana env positions s h \<Longrightarrow> identified_solana env positions s (cs @ h)"
  using lasting_identified by (auto simp: lasting_def)

lemma sound_identify_step:
  assumes "vaults_ok (zw_orders w0)" "open_position w0 pos" "pos \<in> set positions"
  shows "sound env w0 (\<lambda>h. True \<and> identified_solana env positions s h) (identified_solana env positions) (identify_solana_step env s pos)"
proof -
  obtain itm cache where s: "s = (itm, cache)" by (cases s) auto
  let ?I = "identified_solana env positions"
  let ?C = "\<lambda>(cache', p) h. map_of cache' (sr_otoken pos) = Some p \<and> (p \<noteq> 0 \<longrightarrow> cache' = cache \<or> price_seen env (sr_otoken pos) p h) \<and>
      (map_of cache (sr_otoken pos) = None \<longrightarrow> cache' = dict_put (sr_otoken pos) p cache) \<and> (map_of cache (sr_otoken pos) \<noteq> None \<longrightarrow> cache' = cache)"
  have known: "?I (itm, cache') h \<and> (price \<noteq> 0 \<longrightarrow> price_seen env (sr_otoken pos) price h)"
    if i: "?I (itm, cache) h" and c: "?C (cache', price) h" for cache' price h
  proof (cases "map_of cache (sr_otoken pos)")
    case None
    have new: "price \<noteq> 0 \<longrightarrow> price_seen env (sr_otoken pos) price h"
      using c None by auto
    moreover have "cache_seen env cache' h"
      using i c None new by (auto simp: identified_solana_def cache_seen_def)
    moreover have "sr_otoken p \<noteq> sr_otoken pos" if "p \<in> set itm" for p
      using i that None by (auto simp: identified_solana_def itm_seen_def)
    ultimately show ?thesis using i c None by (auto simp: identified_solana_def)
  next
    case (Some q)
    with i c show ?thesis by (auto simp: identified_solana_def cache_seen_def)
  qed
  have mark: "sound env w0 (\<lambda>h. ?I (itm, cache') h \<and> price_seen env (sr_otoken pos) price h) ?I
      (thenE (mark_solana_otm env (sr_user pos) (sr_vault pos) price) (ret (itm, cache')))"
    if "price \<noteq> 0" "position_strike pos = Inr k" "\<not> position_itm pos price k" for cache' price k
    by (rule sound_then [OF sound_weaken [OF sound_otm [OF assms(1,2) that]]])
      (auto intro: sound_ret simp: lasting_def evidence_append identified_append)
  have judge: "sound env w0 (\<lambda>h. ?I (itm, cache') h \<and> (price \<noteq> 0 \<longrightarrow> price_seen env (sr_otoken pos) price h \<and> map_of cache' (sr_otoken pos) = Some price)) ?I
      (if price = 0 then ret (itm, cache')
       else (case position_strike pos of Inl _ \<Rightarrow> ret (itm, cache')
       | Inr strike \<Rightarrow>
           if position_itm pos price strike then ret (itm @ [pos], cache')
           else thenE (mark_solana_otm env (sr_user pos) (sr_vault pos) price) (ret (itm, cache'))))" for cache' price
  proof (cases "price = 0 \<or> (\<exists>e. position_strike pos = Inl e)")
    case False
    then obtain k where k: "price \<noteq> 0" "position_strike pos = Inr k" by (cases "position_strike pos") auto
    then show ?thesis
    proof (cases "position_itm pos price k")
      case True
      with k show ?thesis
        by (auto intro!: sound_ret simp: identified_solana_def itm_seen_def assms(3))
    next
      case False
      then show ?thesis using k by (simp, intro sound_weaken [OF mark [OF k False]]) auto
    qed
  qed (auto intro: sound_ret)
  show ?thesis unfolding s identify_solana_step_def prod.case simp_thms
  proof (rule sound_bind [OF sound_read [OF olds_option_price tracks_cached]], goal_cases)
    case (1 x)
    obtain cache' price where x: "x = (cache', price)" by (cases x) auto
    show ?case unfolding x prod.case
      by (rule sound_weaken [OF judge]) (use known in auto)
  qed (rule lasting_identified)
qed

lemma sound_identify:
  assumes "vaults_ok (zw_orders w0)" "\<forall>p \<in> set positions. open_position w0 p"
  shows "sound env w0 (\<lambda>_. True) (identified_solana env positions) (identify_solana_itm env positions)"
  unfolding identify_solana_itm_def
proof (rule sound_lift)
  have "sound env w0 (\<lambda>h. True \<and> identified_solana env positions ([], []) h) (identified_solana env positions)
      (foldE (identify_solana_step env) ([], []) positions)"
    by (rule sound_fold [OF sound_identify_step [OF assms(1)]]) (use assms(2) in \<open>auto intro: lasting_rules\<close>)
  then show "sound env w0 (\<lambda>_. True) (identified_solana env positions) (foldE (identify_solana_step env) ([], []) positions)"
    by (simp add: identified_solana_def cache_seen_def)
qed

text \<open>Phase 2, delivery.\<close>

lemma sound_send_delivery:
  assumes ok: "vaults_ok (zw_orders w0)" "open_position w0 pos" and d: "delivers env pos ix"
  shows "sound env w0 (\<lambda>h. itm_seen env pos price h \<and> position_done env w0 h pos) (\<lambda>_ _. True)
    (send_delivery env pos price contra (pre, ix, tables, amount))"
  unfolding send_delivery_def prod.case
proof (rule sound_bind [OF sound_read [OF olds_send(1) tracks_sent]], goal_cases)
  case (1 tx)
  let ?H = "\<lambda>h. itm_seen env pos price h \<and> position_done env w0 h pos \<and> delivery_sent env pos tx h"
  have amount: "sound env w0 (\<lambda>h. ?H h \<and> True) (\<lambda>_ _. True)
      (db_update_solana env (sr_user pos) (sr_vault pos) (amount_mark (key_text env contra) amount))"
    by (rule sound_weaken [OF sound_amount [OF ok]]) simp_all
  have l: "lasting ?H" by (intro lasting_rules)
  have "sound env w0 ?H (\<lambda>_ _. True) (thenE (mark_itm_redeemed env (sr_user pos) (sr_vault pos) tx price)
       (db_update_solana env (sr_user pos) (sr_vault pos) (amount_mark (key_text env contra) amount)))"
    by (rule sound_then [OF sound_redeemed [OF ok] amount l])
  then show ?case
    by (rule sound_weaken) (auto simp: delivery_sent_def d elim!: sent_tx_mono)
qed (intro lasting_rules)

lemma sound_deliver:
  assumes ok: "vaults_ok (zw_orders w0)" "open_position w0 pos" and v: "vault_pda_of env (sr_vault pos) = Inr (vd_pda vd)"
  shows "sound env w0 (\<lambda>h. itm_seen env pos price h \<and> position_done env w0 h pos) (\<lambda>_ _. True) (deliver_position env pos price i vd)"
  unfolding deliver_position_def
proof (intro sound_lift sound_then [OF sound_quiet [OF olds_accounts]], goal_cases)
  case (1 mint user mm c)
  let ?H = "\<lambda>h. itm_seen env pos price h \<and> position_done env w0 h pos"
  have p: "tracks (\<lambda>(_, ix, _, _) _. delivers env pos ix) (prepare_delivery env (sr_amount pos) i mint user mm c (vd_pda vd))"
    using tracks_yields [OF olds_prepare yields_prepare [OF 1(1-3) v]] by (simp add: case_prod_beta')
  have failed: "sound env w0 ?H (\<lambda>_ _. True) (mark_itm_failed env (sr_user pos) (sr_vault pos) price)"
    by (rule sound_weaken [OF sound_failed [OF ok]]) auto
  have "sound env w0 ?H (\<lambda>_ _. True) (bindE (tryE (prepare_delivery env (sr_amount pos) i mint user mm c (vd_pda vd))) (\<lambda>prepared.
        case prepared of
          Inl _ \<Rightarrow> mark_itm_failed env (sr_user pos) (sr_vault pos) price
        | Inr d \<Rightarrow> catchE (send_delivery env pos price (contra_of i) d) (\<lambda>_. mark_itm_failed env (sr_user pos) (sr_vault pos) price)))"
  proof (rule sound_bind [OF sound_try [OF sound_read [OF olds_prepare p]]], goal_cases)
    case (2 x)
    show ?case
    proof (cases x)
      case (Inl e)
      then show ?thesis by (auto intro: sound_weaken [OF failed])
    next
      case (Inr d)
      obtain pre ix tables a where d: "d = (pre, ix, tables, a)" by (cases d) auto
      show ?thesis
      proof (cases "delivers env pos ix")
        case True
        then show ?thesis unfolding Inr d sum.case
          by (intro sound_catch sound_weaken [OF sound_send_delivery [OF ok True]] sound_weaken [OF failed] lasting_rules) (auto simp: lasting_def)
      qed (simp add: Inr d sound_def)
    qed
  qed (intro lasting_rules)+
  then show ?case by (rule sound_weaken) auto
qed (intro lasting_rules)

lemma sound_redeem:
  assumes ok: "vaults_ok (zw_orders w0)" "open_position w0 pos"
  shows "sound env w0 (\<lambda>h. itm_seen env pos (case map_of cache (sr_otoken pos) of None \<Rightarrow> 0 | Some q \<Rightarrow> q) h \<and> position_done env w0 h pos)
    (\<lambda>_ _. True) (redeem_position env cache pos)"
proof -
  let ?price = "case map_of cache (sr_otoken pos) of None \<Rightarrow> 0 | Some q \<Rightarrow> q"
  let ?H = "\<lambda>h. itm_seen env pos ?price h \<and> position_done env w0 h pos"
  have failed: "sound env w0 ?H (\<lambda>_ _. True) (mark_itm_failed env (sr_user pos) (sr_vault pos) ?price)"
    by (rule sound_weaken [OF sound_failed [OF ok]]) auto
  have vault: "sound env w0 ?H (\<lambda>_ _. True) (bindE (read_vault_data env (sr_vault pos)) (\<lambda>vault. case vault of
      None \<Rightarrow> mark_itm_failed env (sr_user pos) (sr_vault pos) ?price | Some vd \<Rightarrow> deliver_position env pos ?price i vd))" for i
  proof (rule sound_bind [OF sound_read [OF olds_prices(4) tracks_yields [OF olds_prices(4) yields_vault]]], goal_cases)
    case (1 x)
    show ?case
    proof (cases x)
      case (Some vd)
      show ?thesis
      proof (cases "vault_pda_of env (sr_vault pos) = Inr (vd_pda vd)")
        case True
        show ?thesis unfolding Some option.case by (rule sound_weaken [OF sound_deliver [OF ok True]]) auto
      qed (simp add: Some sound_def)
    qed (auto intro: sound_weaken [OF failed])
  qed (intro lasting_rules)
  have "sound env w0 ?H (\<lambda>_ _. True) (bindE (read_otoken_info env (sr_otoken pos)) (\<lambda>info. case info of
      None \<Rightarrow> mark_itm_failed env (sr_user pos) (sr_vault pos) ?price
    | Some i \<Rightarrow> bindE (read_vault_data env (sr_vault pos)) (\<lambda>vault. case vault of
        None \<Rightarrow> mark_itm_failed env (sr_user pos) (sr_vault pos) ?price | Some vd \<Rightarrow> deliver_position env pos ?price i vd)))"
  proof (rule sound_bind [OF sound_quiet [OF olds_prices(2)]], goal_cases)
    case (1 x)
    show ?case by (cases x) (auto intro: sound_weaken [OF failed] sound_weaken [OF vault])
  qed (intro lasting_rules)
  with failed show ?thesis by (simp add: redeem_position_def Let_def)
qed

text \<open>The cycle.\<close>

lemma sound_phase2:
  assumes ok: "vaults_ok (zw_orders w0)"
  shows "sound env w0 (\<lambda>h. \<forall>p \<in> set settled. position_done env w0 h p) (\<lambda>_ _. True) (solana_phase2 env settled)"
proof (cases "settled = [] \<or> \<not> (\<forall>p \<in> set settled. open_position w0 p)")
  case True
  then show ?thesis
    by (cases "settled = []") (auto simp: solana_phase2_def sound_ret, auto simp: sound_def position_done_def)
next
  case False
  let ?H = "\<lambda>h. \<forall>p \<in> set settled. position_done env w0 h p"
  have l: "lasting ?H" by (intro lasting_rules)
  have redeem: "sound env w0 (\<lambda>h. ?H h \<and> identified_solana env settled (itm, cache) h) (\<lambda>_ _. True) (redeem_itm_positions env itm cache)" for itm cache
    unfolding redeem_itm_positions_def
  proof (rule sound_for_each)
    fix p assume "p \<in> set itm"
    show "sound env w0 (\<lambda>h. ?H h \<and> identified_solana env settled (itm, cache) h) (\<lambda>_ _. True) (redeem_position env cache p)"
    proof (cases "open_position w0 p")
      case True
      show ?thesis
        by (rule sound_weaken [OF sound_redeem [OF ok True]]) (use \<open>p \<in> set itm\<close> in \<open>auto simp: identified_solana_def\<close>)
    qed (use \<open>p \<in> set itm\<close> in \<open>auto simp: sound_def identified_solana_def position_done_def\<close>)
  qed (intro lasting_rules l lasting_identified)
  have identify: "sound env w0 ?H (identified_solana env settled) (identify_solana_itm env settled)"
    by (rule sound_weaken [OF sound_identify [OF ok]]) (use False in auto)
  have "sound env w0 ?H (\<lambda>_ _. True) (bindE (identify_solana_itm env settled) (\<lambda>(itm, cache).
         thenE (whenE (itm \<noteq> []) (redeem_itm_positions env itm cache)) (ret (int (length settled)))))"
  proof (rule sound_bind [OF identify], goal_cases)
    case (1 x)
    obtain itm cache where x: "x = (itm, cache)" by (cases x) auto
    show ?case unfolding x prod.case
      by (intro sound_then sound_ret lasting_rules l lasting_identified) (auto simp: whenE_def intro: sound_ret redeem)
  qed (rule l)
  then have "sound env w0 ?H (\<lambda>_ _. True) (thenE (zcall env (Pausing (10 * us_second))) (bindE (identify_solana_itm env settled) (\<lambda>(itm, cache).
         thenE (whenE (itm \<noteq> []) (redeem_itm_positions env itm cache)) (ret (int (length settled))))))"
    by (intro sound_then [OF sound_quiet [OF olds_call]] l) (auto intro: sound_weaken)
  with False show ?thesis by (simp add: solana_phase2_def)
qed

lemma join_recovery_set: "set (join_recovery settled ps) \<subseteq> set settled \<union> set ps"
  by (induction settled ps rule: join_recovery.induct) auto

lemma orders_marks: "orders_le w v \<Longrightarrow> marks_le env w v"
  by (simp add: orders_le_def marks_le_def list_all2_refl row_marked_refl)

lemma queue_open:
  "wp (get_expired_unsettled_solana env) (\<lambda>ps v. orders_le w v \<and> (\<forall>p \<in> set ps. open_position w p)) (\<lambda>_. orders_le w) w"
  "orders_le w u \<Longrightarrow> wp (get_pending_phase2_solana env) (\<lambda>ps v. orders_le w v \<and> (\<forall>p \<in> set ps. position_done env w h p)) (\<lambda>_. orders_le w) u"
  by (auto simp: get_expired_unsettled_solana_def get_pending_phase2_solana_def unix_time_def wps orders_le_def hist_le_def
      due_solana_def pending_solana_def expired_columns_def open_position_def position_done_def split: option.split)

lemma sound_after_queues:
  assumes ok: "vaults_ok (zw_orders w0)" and ps: "\<forall>p \<in> set positions. open_position w0 p"
    and rs: "\<And>h. \<forall>p \<in> set recovery. position_done env w0 h p"
  shows "sound env w0 (\<lambda>_. True) (\<lambda>_ _. True) (if positions = [] \<and> recovery = [] then ret 0
       else
         thenE (whenE (positions \<noteq> []) (ensure_solana_expiry_prices_set env positions))
         (bindE (if positions \<noteq> [] then settle_vaults env positions else ret []) (\<lambda>settled.
            solana_phase2 env (join_recovery settled recovery))))"
proof -
  let ?I = "\<lambda>settled h. \<forall>p \<in> set settled. position_done env w0 h p"
  have "sound env w0 (\<lambda>h. True \<and> True) ?I (if positions \<noteq> [] then settle_vaults env positions else ret [])"
    using sound_settle_vaults [OF ok ps] by (auto intro: sound_ret)
  moreover have "sound env w0 (\<lambda>h. (True \<and> True) \<and> ?I settled h) (\<lambda>_ _. True) (solana_phase2 env (join_recovery settled recovery))" for settled
    by (rule sound_weaken [OF sound_phase2 [OF ok]]) (use join_recovery_set [of settled recovery] rs in blast)+
  ultimately have rest: "sound env w0 (\<lambda>h. True \<and> True) (\<lambda>_ _. True) (bindE (if positions \<noteq> [] then settle_vaults env positions else ret [])
      (\<lambda>settled. solana_phase2 env (join_recovery settled recovery)))"
    by (rule sound_bind) (intro lasting_rules)
  have "sound env w0 (\<lambda>_. True) (\<lambda>_ _. True) (whenE (positions \<noteq> []) (ensure_solana_expiry_prices_set env positions))"
    by (intro sound_quiet olds.grows_when olds_phase0)
  from sound_then [OF this rest] show ?thesis by (auto simp: lasting_def intro: sound_ret)
qed

lemma wp_settle_solana:
  assumes "vaults_ok (zw_orders w)"
  shows "wp (settle_solana_once env) (\<lambda>_. marks_le env w) (\<lambda>_. marks_le env w) w"
  unfolding settle_solana_once_def wp_bind
proof (rule wp_mono [OF queue_open(1)], goal_cases)
  case (1 positions u)
  then have u: "orders_le w u" and ps: "\<forall>p \<in> set positions. open_position w p" by auto
  have "wp (get_pending_phase2_solana env) (\<lambda>rs v. orders_le w v \<and> (\<forall>h. \<forall>p \<in> set rs. position_done env w h p)) (\<lambda>_. orders_le w) u"
    using queue_open(2) [OF u, of env] by (auto simp: wp_def split: prod.splits sum.splits)
  then show ?case
  proof (rule wp_mono, goal_cases)
    case (1 recovery v)
    then have v: "marks_le env w v" and rs: "\<And>h. \<forall>p \<in> set recovery. position_done env w h p"
      by (auto intro: orders_marks)
    from sound_after_queues [OF assms ps rs, unfolded sound_def, rule_format, OF v TrueI]
    show ?case by (rule wp_mono) auto
  qed (rule orders_marks)
qed (rule orders_marks)

lemma marked_rows_ok:
  assumes "vaults_ok rows" "list_all2 (row_marked env h) rows rows'"
  shows "vaults_ok rows'"
proof -
  have same: "sr_chain r' = sr_chain r \<and> position_key r' = position_key r" if "row_marked env h r r'" for r r'
    using that sol_terms_same(1,2) [of r' r] by (auto simp: row_marked_def split: if_splits)
  have "map position_key (filter (\<lambda>r. sr_chain r = ''solana'') rows') = map position_key (filter (\<lambda>r. sr_chain r = ''solana'') rows)"
    using assms(2) by induction (auto dest: same)
  with assms(1) show ?thesis by (simp add: vaults_ok_def)
qed

text \<open>Programs that make only backed marks from any table with distinct vaults.\<close>

definition backs :: "chain_env \<Rightarrow> 'a zpy \<Rightarrow> bool" where
  "backs env m \<longleftrightarrow> (\<forall>w. vaults_ok (zw_orders w) \<longrightarrow> wp m (\<lambda>_. marks_le env w) (\<lambda>_. marks_le env w) w)"

lemma backs_bind:
  assumes "backs env m" "\<And>x. backs env (f x)"
  shows "backs env (bindE m f)"
  unfolding backs_def wp_bind
proof (intro allI impI)
  fix w :: chain_world assume w: "vaults_ok (zw_orders w)"
  with assms(1) have "wp m (\<lambda>_. marks_le env w) (\<lambda>_. marks_le env w) w" by (simp add: backs_def)
  then show "wp m (\<lambda>x. wp (f x) (\<lambda>_. marks_le env w) (\<lambda>_. marks_le env w)) (\<lambda>_. marks_le env w) w"
  proof (rule wp_mono, goal_cases)
    case (1 x u)
    with w have "vaults_ok (zw_orders u)" by (auto simp: marks_le_def intro: marked_rows_ok)
    then have "wp (f x) (\<lambda>_. marks_le env u) (\<lambda>_. marks_le env u) u" using assms(2) by (simp add: backs_def)
    then show ?case by (rule wp_mono) (use 1 marks.le_trans in blast)+
  qed simp
qed

lemma backs_catch:
  assumes "backs env m" "\<And>e. backs env (f e)"
  shows "backs env (catchE m f)"
  unfolding backs_def wp_catch
proof (intro allI impI)
  fix w :: chain_world assume w: "vaults_ok (zw_orders w)"
  with assms(1) have "wp m (\<lambda>_. marks_le env w) (\<lambda>_. marks_le env w) w" by (simp add: backs_def)
  then show "wp m (\<lambda>_. marks_le env w) (\<lambda>e u. if e = NoReturn then marks_le env w u else wp (f e) (\<lambda>_. marks_le env w) (\<lambda>_. marks_le env w) u) w"
  proof (rule wp_mono, goal_cases)
    case (2 e u)
    with w have "vaults_ok (zw_orders u)" by (auto simp: marks_le_def intro: marked_rows_ok)
    then have "wp (f e) (\<lambda>_. marks_le env u) (\<lambda>_. marks_le env u) u" using assms(2) by (simp add: backs_def)
    then have "wp (f e) (\<lambda>_. marks_le env w) (\<lambda>_. marks_le env w) u" by (rule wp_mono) (use 2 marks.le_trans in blast)+
    with 2 show ?case by simp
  qed simp
qed

lemma backs_then: "backs env m \<Longrightarrow> backs env n \<Longrightarrow> backs env (thenE m n)"
  unfolding thenE_def by (rule backs_bind)

lemma backs_quiet: "grows orders_le m \<Longrightarrow> backs env m"
  unfolding backs_def by (intro allI impI marks.wp_le [OF olds_marks]) (simp_all add: marks.le_refl)

lemmas backs_basic = backs_quiet [OF olds.grows_ret] backs_quiet [OF olds_call] backs_quiet [OF olds.grows_gets]

lemma backs_try: "backs env m \<Longrightarrow> backs env (tryE m)"
  unfolding tryE_def by (intro backs_catch backs_bind backs_basic)

lemma backs_settle: "backs env (settle_solana_once env)"
  unfolding backs_def using wp_settle_solana by blast

lemma backs_sweep: "backs env (post_solana_sweep env n)"
proof (induction n)
  case (Suc n)
  have "backs env (case r of Inl _ \<Rightarrow> post_solana_sweep env n
      | Inr rows \<Rightarrow> if rows = [] then ret ()
          else thenE (catchE (thenE (settle_solana_once env) (ret ())) (\<lambda>_. ret ())) (post_solana_sweep env n))" for r
    by (cases r) (auto intro!: Suc.IH backs_then backs_catch backs_settle backs_basic)
  then show ?case unfolding post_solana_sweep.simps
    by (intro backs_then backs_bind backs_try backs_quiet [OF olds_queues(1)] backs_basic)
qed (simp add: backs_basic)

lemma backs_days: "backs env (solana_settler_days env n)"
proof -
  have sweep: "backs env (settle_solana_and_sweep env)"
    unfolding settle_solana_and_sweep_def
    by (intro backs_then backs_catch backs_settle backs_sweep backs_basic)
  have "backs env (solana_settler_day env)"
    unfolding solana_settler_day_def by (intro backs_bind backs_then sweep backs_basic)
  with sweep show ?thesis by (induction n) (simp_all add: backs_then)
qed

section \<open>Properties\<close>

text \<open>
  C9: every mark of the Solana settler is backed. When user and vault identify the Solana rows, then over any number of days, whatever
  fails, rows of other chains are untouched, and a Solana row keeps its terms; it is newly settled only
  if its vault was read as settled or its settlement, for its option, was sent; its price was read from the
  option's account or from the oracle's account for it, and the in-the-money mark is the comparison
  with its strike; and a new delivery hash is the signature of a transaction that was sent to deliver exactly this
  position, whose vault was settled before or is by then.
\<close>

theorem solana_marks_backed:
  fixes w :: chain_world
  assumes "vaults_ok (zw_orders w)"
  shows "case solana_settler_days env n w of (_, v) \<Rightarrow> list_all2 (row_marked env (calls v)) (zw_orders w) (zw_orders v)"
proof -
  have "wp (solana_settler_days env n) (\<lambda>_. marks_le env w) (\<lambda>_. marks_le env w) w"
    using backs_days assms by (simp add: backs_def)
  then show ?thesis by (auto simp: wp_def marks_le_def split: prod.splits sum.splits)
qed

section \<open>A concrete chain\<close>

text \<open>
  One put, due, whose vault the chain says to be settled; its option has the price 90, below the strike. The
  swap service cannot be reached.
\<close>

definition demo_info_data :: "byte list" where
  "demo_info_data = replicate 136 0 @ to_bytes_le 8 100 @ to_bytes_le 8 50 @ [1, 0] @ to_bytes_le 8 90"

definition demo_chain_account :: "chain_call list \<Rightarrow> account option" where
  "demo_chain_account h = (case h of
     ReadAccount k # _ \<Rightarrow>
       if take 5 k = ascii ''vault'' then Some \<lparr>ac_owner = replicate 32 8, ac_data = replicate 128 0 @ replicate 40 1\<rparr>
       else if take 11 k = ascii ''otoken_info'' then Some \<lparr>ac_owner = replicate 32 8, ac_data = demo_info_data\<rparr>
       else Some \<lparr>ac_owner = replicate 32 8, ac_data = replicate 60 6\<rparr>
   | _ \<Rightarrow> None)"

definition demo_chain_env :: chain_env where
  "demo_chain_env = \<lparr>ze_fails = \<lambda>h. (case h of FetchQuote _ _ _ _ _ # _ \<Rightarrow> Some (OtherError ''ConnectError'') | _ \<Rightarrow> None),
     ze_now = \<lambda>_. 100000000, ze_account = demo_chain_account, ze_program_accounts = \<lambda>_. [], ze_token_accounts = \<lambda>_. [],
     ze_signature = \<lambda>_. ''sig'', ze_monotonic = \<lambda>_. 0, ze_price = \<lambda>_. None, ze_update = \<lambda>_. None, ze_keypair = \<lambda>_. [],
     ze_quote = \<lambda>_. \<lparr>jq_error = None, jq_threshold = None, jq_out = None\<rparr>,
     ze_swap = \<lambda>_. \<lparr>js_error = None, js_swap = None, js_budget = [], js_setup = [], js_other = [], js_tables = []\<rparr>,
     ze_keys = demo_keys, ze_token_2022 = replicate 32 9, ze_ata_program = replicate 32 10, ze_wormhole = replicate 32 11,
     ze_create_ata = \<lambda>_ _ m _. \<lparr>ix_program = [], ix_data = m, ix_accounts = []\<rparr>, ze_lookup_table = \<lambda>_. Inr [],
     ze_sha256_first = \<lambda>_. 0, ze_rpc_error = \<lambda>_. False,
     ze_settings = \<lparr>zs_settler_id = replicate 32 CHR ''s'', zs_controller_id = replicate 32 CHR ''c'',
       zs_oracle_id = replicate 32 CHR ''o'', zs_pyth_receiver = [], zs_slippage = 1 / 100, zs_sweep_cycles = 1,
       zs_sweep_interval = 300, zs_settle_hour = 8\<rparr>\<rparr>"

definition demo_position :: sol_order where
  "demo_position = \<lparr>sr_tx = ''t'', sr_slot = 1, sr_log_index = 0, sr_chain = ''solana'', sr_indexed_at = 0,
     sr_user = replicate 32 CHR ''u'', sr_mm = Some (replicate 32 CHR ''m''), sr_otoken = replicate 32 CHR ''t'',
     sr_amount = 100000000, sr_premium = 5, sr_gross_premium = 5, sr_net_premium = 5, sr_protocol_fee = 0, sr_vault = 5,
     sr_collateral = 7, sr_strike = Some 100, sr_expiry = Some 50, sr_is_put = Some True, sr_asset = Some ''sol'',
     sr_is_settled = None, sr_settled_at = None, sr_settlement_tx = None, sr_settlement_type = None, sr_is_itm = None,
     sr_expiry_price = None, sr_delivered_asset = None, sr_delivered_amount = None, sr_delivery_tx = None\<rparr>"

definition demo_chain_world :: chain_world where
  "demo_chain_world = \<lparr>calls = [], zw_orders = [demo_position], zw_prices = []\<rparr>"

lemma demo_chain_world_ok: "vaults_ok (zw_orders demo_chain_world)"
  by (simp add: vaults_ok_def demo_chain_world_def)

theorem solana_marks_backed_witness:
  "case solana_settler_days demo_chain_env 1 demo_chain_world of (_, v) \<Rightarrow>
     list_all2 (row_marked demo_chain_env (calls v)) [demo_position] (zw_orders v)"
  using solana_marks_backed [OF demo_chain_world_ok, where env = demo_chain_env and n = 1]
  by (simp add: demo_chain_world_def)

end
