(* ===== verification/Solana_Settler_Safety.thy ===== *)
theory Solana_Settler_Safety
  imports Solana_Marks
begin

text \<open>
  Bounds and edge cases of the Solana settler: the number of transactions of a cycle, the two
  notations of strikes, and a delivery whose mark cannot be written.
\<close>

section \<open>Transactions\<close>

definition is_send :: "chain_call \<Rightarrow> bool" where
  "is_send c \<longleftrightarrow> (case c of SendTx _ _ \<Rightarrow> True | _ \<Rightarrow> False)"

named_theorems unsent_rules "programs that send nothing"

lemma unsent_call: "\<not> is_send c \<Longrightarrow> grows (quiet_le is_send) (zcall env c)"
  by (rule quiet_perform)

lemma unsent_read: "\<not> is_send c \<Longrightarrow> grows (quiet_le is_send) (zread env c f)"
  unfolding zread_def by (intro quiet.rules unsent_call)

lemma unsent_basic [unsent_rules]:
  "grows (quiet_le is_send) (unix_time env)" "grows (quiet_le is_send) (load_operator env)"
  "grows (quiet_le is_send) (read_account_data env k)" "grows (quiet_le is_send) (token_program_for_mint env k)"
  unfolding unix_time_def load_operator_def read_account_data_def token_program_for_mint_def
  by (intro quiet.rules unsent_call unsent_read; simp add: is_send_def)+

lemmas [unsent_rules] = quiet.rules unsent_basic

lemma unsent_accounts [unsent_rules]:
  "grows (quiet_le is_send) (derive_ata env owner mint p)" "grows (quiet_le is_send) (has_account env k)"
  "grows (quiet_le is_send) (read_address_lookup_table env k)" "grows (quiet_le is_send) (find_pool_token_account env a m)"
  unfolding derive_ata_def has_account_def read_address_lookup_table_def find_pool_token_account_def
  by (intro unsent_rules unsent_read; simp add: is_send_def)+

lemma unsent_prices [unsent_rules]:
  "grows (quiet_le is_send) (read_otoken_info_expiry_price env mint)" "grows (quiet_le is_send) (read_otoken_info env otoken)"
  "grows (quiet_le is_send) (read_oracle_expiry_price env u e)" "grows (quiet_le is_send) (read_vault_data env vault)"
  "grows (quiet_le is_send) (is_vault_settled_on_chain env vault)"
  unfolding read_otoken_info_expiry_price_def read_otoken_info_def read_oracle_expiry_price_def read_vault_data_def
    is_vault_settled_on_chain_def
  by (intro unsent_rules)+

lemma unsent_update [unsent_rules]: "grows (quiet_le is_send) (db_update_solana env u v f)"
  unfolding db_update_solana_def
  by (intro quiet.rules quiet.grows_modify unsent_call) (simp_all add: is_send_def quiet_le_def)

lemma spends_ixs: "spends is_send 1 (send_ixs env ixs tables)" "spends is_send 1 (send_one env ix)"
proof -
  show "spends is_send 1 (send_ixs env ixs tables)" for ixs tables
    unfolding send_ixs_def zread_def
    by (intro spends_quiet_then spends_then_quiet spends_perform unsent_call quiet.grows_gets) (simp_all add: is_send_def)
  then show "spends is_send 1 (send_one env ix)" by (simp add: send_one_def)
qed

lemma spends_let: "(\<And>x. x = t \<Longrightarrow> spends P k (f x)) \<Longrightarrow> spends P k (let x = t in f x)"
  by simp

lemma spends_bind_value:
  assumes "spends P k m" "yields V m" "\<And>x. V x \<Longrightarrow> spends P l (f x)"
  shows "spends P (k + l) (bindE m f)"
proof (rule spendsI)
  fix w r w' assume run: "bindE m f w = (r, w')"
  obtain x u where m: "m w = (x, u)" by (cases "m w") auto
  with assms(1) obtain cs where cs: "calls u = cs @ calls w" "length (filter P cs) \<le> k" by (rule spendsD)
  show "\<exists>cs. calls w' = cs @ calls w \<and> length (filter P cs) \<le> k + l"
  proof (cases x)
    case (Inl e)
    with run m have "w' = u" by (simp add: bindE_def)
    with cs show ?thesis by auto
  next
    case (Inr y)
    with assms(2) m have "V y" by (auto simp: yields_def)
    moreover have "f y u = (r, w')" using run m Inr by (simp add: bindE_def)
    ultimately obtain ds where "calls w' = ds @ calls u" "length (filter P ds) \<le> l"
      using assms(3) spendsD by metis
    with cs show ?thesis by auto
  qed
qed

lemma spends_fold: "(\<And>s x. x \<in> set xs \<Longrightarrow> spends P k (f s x)) \<Longrightarrow> spends P (k * length xs) (foldE f s xs)"
proof (induction xs arbitrary: s)
  case (Cons x xs)
  have "spends P (k + k * length xs) (foldE f s (x # xs))"
    unfolding foldE.simps by (rule spends_bind) (use Cons in auto)
  then show ?case by simp
qed (simp add: spends_quiet quiet.grows_ret)

lemma spends_for_each: "(\<And>x. x \<in> set xs \<Longrightarrow> spends P k (f x)) \<Longrightarrow> spends P (k * length xs) (for_each f xs)"
  unfolding for_each_def by (rule spends_fold)

lemma spends_ata: "spends is_send 1 (ensure_ata_exists env owner mint)"
  unfolding ensure_ata_exists_def
  by (intro spends_quiet_bind unsent_rules spends_if spends_quiet spends_then_quiet spends_bind_quiet spends_ixs)

lemma unsent_pyth:
  "grows (quiet_le is_send) (read_oracle_pyth_receiver_program env)" "grows (quiet_le is_send) (read_oracle_max_staleness env)"
  "grows (quiet_le is_send) (find_latest_pyth_price_update_entry env a)"
  "grows (quiet_le is_send) (build_pyth_post_update_atomic_ix env r acc feed t k)"
  "grows (quiet_le is_send) (fetch_pyth_accumulator_update env a)"
proof -
  have config: "grows (quiet_le is_send) (oracle_config_data env)"
    unfolding oracle_config_data_def by (intro unsent_rules)
  show receiver: "grows (quiet_le is_send) (read_oracle_pyth_receiver_program env)"
    unfolding read_oracle_pyth_receiver_program_def by (intro unsent_rules config)
  show "grows (quiet_le is_send) (read_oracle_max_staleness env)"
    unfolding read_oracle_max_staleness_def by (intro unsent_rules config)
  show "grows (quiet_le is_send) (find_latest_pyth_price_update_entry env a)"
    unfolding find_latest_pyth_price_update_entry_def by (intro unsent_rules receiver unsent_read) (simp add: is_send_def)
  show "grows (quiet_le is_send) (build_pyth_post_update_atomic_ix env r acc feed t k)"
    unfolding build_pyth_post_update_atomic_ix_def by (intro unsent_rules)
  show "grows (quiet_le is_send) (fetch_pyth_accumulator_update env a)"
    unfolding fetch_pyth_accumulator_update_def by (intro unsent_rules unsent_read) (simp add: is_send_def)
qed

lemma spends_pyth: "spends is_send 1 (ensure_fresh_pyth_price_update env a)"
proof -
  have post: "spends is_send 1 (post_fresh_pyth_price_update env a)"
    unfolding post_fresh_pyth_price_update_def
    by (intro spends_quiet_bind unsent_rules unsent_pyth spends_prod spends_if spends_quiet spends_then_quiet spends_bind_quiet spends_ixs)
  show ?thesis
    unfolding ensure_fresh_pyth_price_update_def find_latest_pyth_price_update_def
    by (intro spends_quiet_bind unsent_rules unsent_pyth spends_if spends_option spends_bind_quiet post spends_quiet)
qed

lemma unsent_wait: "grows (quiet_le is_send) (wait_for_oracle_expiry_price env u e)"
proof -
  have "grows (quiet_le is_send) (wait_attempts env u e n)" for n
  proof (induction n)
    case (Suc n)
    then show ?case unfolding wait_attempts.simps by (intro unsent_rules unsent_call) (simp_all add: is_send_def)
  qed (simp add: quiet.grows_ret)
  then show ?thesis by (simp add: wait_for_oracle_expiry_price_def)
qed

lemma spends_option_price: "spends is_send 3 (set_option_price env pos)" "spends is_send 1 (retry_option_price env pos)"
proof -
  have price: "grows (quiet_le is_send) (normalize_pyth_price_to_8dec env a)" for a
    unfolding normalize_pyth_price_to_8dec_def get_pyth_price_def Let_def
    by (intro unsent_rules quiet.grows_modify unsent_read) (auto simp: is_send_def quiet_le_def intro: quiet.grows_raise split: exn.split)
  have build: "grows (quiet_le is_send) (build_set_expiry_price_ix env mint)" for mint
    unfolding build_set_expiry_price_ix_def by (intro unsent_rules)
  have those: "grows (quiet_le is_send) h \<Longrightarrow> spends is_send k m \<Longrightarrow> spends is_send k (catch_those p m h)" for p k m h
    unfolding catch_those_def by (intro spends_catch_quiet unsent_rules)
  have attempt: "grows (quiet_le is_send) m \<Longrightarrow> spends is_send 1 (try_set_expiry_price env m)" for m
    unfolding try_set_expiry_price_def by (intro those spends_quiet_bind spends_bind_quiet spends_ixs unsent_rules)
  have finalize: "spends is_send (1 + 1) (finalize_oracle_price env a i)" for a i
    unfolding finalize_oracle_price_def build_oracle_set_expiry_price_ix_def
    by (rule spends_quiet_bind [OF price], rule spends_bind [OF spends_pyth])
      (intro spends_quiet_bind spends_bind_quiet spends_ixs unsent_rules unsent_wait)
  have obtain_price: "spends is_send (1 + 1) (obtain_oracle_price env a i)" for a i
    unfolding obtain_oracle_price_def
    by (intro spends_quiet_bind unsent_rules spends_if those unsent_wait finalize spends_quiet)
  have "spends is_send (1 + 1 + 1) (set_option_price env pos)"
    unfolding set_option_price_def
    by (intro spends_quiet_bind unsent_rules spends_if spends_option spends_quiet spends_bind [OF obtain_price] build attempt)
  then show "spends is_send 3 (set_option_price env pos)" by (simp add: numeral_3_eq_3)
  show "spends is_send 1 (retry_option_price env pos)"
    unfolding retry_option_price_def
    by (intro spends_quiet_bind unsent_rules spends_if spends_option spends_quiet build attempt)
qed

lemma first_of_tokens_length: "length (first_of_tokens seen ps) \<le> length ps"
  by (induction seen ps rule: first_of_tokens.induct) auto

lemma spends_phase0: "spends is_send (4 * length positions) (ensure_solana_expiry_prices_set env positions)"
proof -
  have "spends is_send (3 * length (first_of_tokens [] positions) + 1 * length (first_of_tokens [] positions))
      (ensure_solana_expiry_prices_set env positions)"
    unfolding ensure_solana_expiry_prices_set_def retry_missing_controller_expiry_prices_def
    by (intro spends_then spends_for_each spends_option_price)
  then show ?thesis by (rule spends_le) (use first_of_tokens_length [of "[]" positions] in simp)
qed

lemma spends_settle_step: "spends is_send 2 (settle_step env settled pos)"
proof -
  have unsent: "grows (quiet_le is_send) (mark_reconciled env u v)" "grows (quiet_le is_send) (mark_settled env u v tx)"
    "grows (quiet_le is_send) (build_settle_vault_ix env a b c d)" for u v tx a b c d
    unfolding mark_reconciled_def mark_settled_def build_settle_vault_ix_def by (intro unsent_rules)+
  have "spends is_send (1 + 1) (settle_vault env otoken vd)" for otoken vd
    unfolding settle_vault_def
    by (rule spends_bind [OF spends_ata], intro spends_quiet_bind unsent_rules spends_if spends_quiet unsent spends_bind_quiet spends_ixs)
  then have vault: "spends is_send 2 (settle_vault env otoken vd)" for otoken vd by (simp add: numeral_2_eq_2)
  have rest: "grows (quiet_le is_send) (case x of Inl _ \<Rightarrow> ret settled | Inr None \<Rightarrow> ret settled
             | Inr (Some tx) \<Rightarrow> thenE (catchE (mark_settled env u v tx) (\<lambda>_. ret ())) (ret more))" for x u v more
    by (intro unsent_rules unsent)
  show ?thesis
    unfolding settle_step_def
    by (intro spends_quiet_bind unsent_rules spends_if spends_option spends_quiet unsent spends_bind_quiet [OF spends_try [OF vault] rest])
qed

lemma settle_vaults_length: "yields (\<lambda>settled. length settled \<le> length positions) (settle_vaults env positions)"
  unfolding settle_vaults_def
proof (rule yields_fold [where I = "\<lambda>seen settled. length settled \<le> length seen"])
  fix seen :: "sol_order list" and settled :: "sol_order list"
  fix pos :: sol_order assume "length settled \<le> length seen"
  then show "yields (\<lambda>settled. length settled \<le> length (seen @ [pos])) (settle_step env settled pos)"
    unfolding settle_step_def by (intro yields_bind_any yields_rules) simp_all
qed simp

lemma spends_redeem: "spends is_send 6 (redeem_position env cache pos)"
proof -
  have unsent: "grows (quiet_le is_send) (mark_itm_failed env u v p)" "grows (quiet_le is_send) (mark_itm_redeemed env u v tx p)" for u v tx p
    unfolding mark_itm_failed_def mark_itm_redeemed_def by (intro unsent_rules)+
  have alts: "grows (quiet_le is_send) (decode_jupiter_alts env as)" for as
  proof (induction as)
    case (Cons a as)
    then show ?case unfolding decode_jupiter_alts.simps by (intro unsent_rules)
  qed (simp add: quiet.grows_ret)
  have ix: "grows (quiet_le is_send) (build_physical_redeem_ix env mint user mm pda a m i swap)" for mint user mm pda a m i swap
    unfolding build_physical_redeem_ix_def read_settler_jupiter_program_def by (intro unsent_rules)
  have prepare: "grows (quiet_le is_send) (prepare_delivery env a i mint user mm c pda)" for a i mint user mm c pda
    unfolding prepare_delivery_def read_mint_decimals_def delivery_quote_def fetch_jupiter_quote_def fetch_jupiter_swap_instructions_def
    by (intro unsent_rules alts ix unsent_read) (simp_all add: is_send_def)
  have "spends is_send (1 + (1 + (1 + (1 + (1 + 0))))) (ensure_delivery_accounts env c m u mm i)" for c m u mm i
    unfolding ensure_delivery_accounts_def by (intro spends_bind spends_ata spends_quiet unsent_rules)
  then have accounts: "spends is_send 5 (ensure_delivery_accounts env c m u mm i)" for c m u mm i by (simp add: eval_nat_numeral)
  have send: "spends is_send 1 (send_delivery env pos price contra d)" for price contra d
    unfolding send_delivery_def by (cases d) (simp only: prod.case, intro spends_bind_quiet spends_ixs unsent_rules unsent)
  have rest: "spends is_send 1 (case x of
      Inl _ \<Rightarrow> mark_itm_failed env u v p | Inr d \<Rightarrow> catchE (send_delivery env pos p c d) (\<lambda>_. mark_itm_failed env u v p))" for x u v p c
    by (intro spends_sum spends_catch_quiet send spends_quiet unsent)
  have "spends is_send (5 + 1) (deliver_position env pos p i vd)" for p i vd
    unfolding deliver_position_def
    by (intro spends_quiet_bind [OF quiet.grows_lift] spends_then [OF accounts] spends_quiet_bind [OF quiet.grows_try [OF prepare] rest])
  then show ?thesis
    unfolding redeem_position_def
    by (intro spends_let spends_if spends_quiet_bind unsent_rules spends_option) (auto intro!: spends_quiet unsent)
qed

lemma unsent_identify: "grows (quiet_le is_send) (identify_solana_itm env positions)"
proof -
  have "grows (quiet_le is_send) (identify_solana_step env s pos)" for s pos
    unfolding identify_solana_step_def cached_option_price_def option_price_def mark_solana_otm_def
    by (cases s) (simp only: prod.case, intro unsent_rules)
  then show ?thesis unfolding identify_solana_itm_def by (intro unsent_rules)
qed

lemma identify_length: "yields (\<lambda>(itm, _). length itm \<le> length positions) (identify_solana_itm env positions)"
  unfolding identify_solana_itm_def
proof (rule yields_bind_any, rule yields_fold [where I = "\<lambda>seen (itm, _). length itm \<le> length seen"])
  fix seen :: "sol_order list" and pos and s :: "sol_order list \<times> (string \<times> int) list" assume "case s of (itm, _) \<Rightarrow> length itm \<le> length seen"
  then show "yields (\<lambda>(itm, _). length itm \<le> length (seen @ [pos])) (identify_solana_step env s pos)"
    unfolding identify_solana_step_def
    by (cases s) (simp only: prod.case, intro yields_bind_any yields_prod yields_if yields_sum yields_then yields_ret, simp_all)
qed simp

lemma spends_phase2: "spends is_send (6 * length settled) (solana_phase2 env settled)"
proof -
  have "spends is_send (0 + 6 * length settled) (bindE (identify_solana_itm env settled) (\<lambda>(itm, cache).
           thenE (whenE (itm \<noteq> []) (redeem_itm_positions env itm cache)) (ret (int (length settled)))))"
  proof (rule spends_bind_value [OF spends_quiet [OF unsent_identify] identify_length])
    fix x :: "sol_order list \<times> (string \<times> int) list" assume x: "case x of (itm, _) \<Rightarrow> length itm \<le> length settled"
    obtain itm cache where [simp]: "x = (itm, cache)" by (cases x) auto
    have "spends is_send (6 * length itm) (redeem_itm_positions env itm cache)"
      unfolding redeem_itm_positions_def by (intro spends_for_each spends_redeem)
    then have "spends is_send (6 * length settled) (whenE (itm \<noteq> []) (redeem_itm_positions env itm cache))"
      using x by (auto simp: whenE_def intro: spends_le spends_quiet quiet.grows_ret)
    then show "spends is_send (6 * length settled) (case x of (itm, cache) \<Rightarrow>
           thenE (whenE (itm \<noteq> []) (redeem_itm_positions env itm cache)) (ret (int (length settled))))"
      by (simp add: spends_then_quiet quiet.grows_ret)
  qed
  then show ?thesis
    unfolding solana_phase2_def
    by (intro spends_if spends_quiet_then unsent_call) (auto simp: is_send_def intro: spends_quiet quiet.grows_ret)
qed

lemma join_recovery_length: "length (join_recovery settled ps) \<le> length settled + length ps"
  by (induction settled ps rule: join_recovery.induct) auto

lemma spends_after_queues:
  "spends is_send (12 * length positions + 6 * length recovery) (if positions = [] \<and> recovery = [] then ret 0
     else
       thenE (whenE (positions \<noteq> []) (ensure_solana_expiry_prices_set env positions))
       (bindE (if positions \<noteq> [] then settle_vaults env positions else ret []) (\<lambda>settled.
          solana_phase2 env (join_recovery settled recovery))))"
proof -
  let ?n = "length positions" and ?m = "length recovery"
  have "spends is_send (2 * ?n) (settle_vaults env positions)"
    unfolding settle_vaults_def by (intro spends_fold spends_settle_step)
  then have vaults: "spends is_send (2 * ?n) (if positions \<noteq> [] then settle_vaults env positions else ret [])"
    by (auto intro: spends_quiet quiet.grows_ret)
  have settled: "yields (\<lambda>settled. length settled \<le> ?n) (if positions \<noteq> [] then settle_vaults env positions else ret [])"
    using settle_vaults_length by (auto intro: yields_ret)
  have "spends is_send (6 * (?n + ?m)) (solana_phase2 env (join_recovery settled recovery))" if "length settled \<le> ?n" for settled
    by (rule spends_le [OF spends_phase2]) (use that join_recovery_length [of settled recovery] in simp)
  from spends_bind_value [OF vaults settled this]
  have "spends is_send (4 * ?n + (2 * ?n + 6 * (?n + ?m)))
      (thenE (whenE (positions \<noteq> []) (ensure_solana_expiry_prices_set env positions))
       (bindE (if positions \<noteq> [] then settle_vaults env positions else ret []) (\<lambda>settled.
          solana_phase2 env (join_recovery settled recovery))))"
    by (intro spends_then) (auto simp: whenE_def intro: spends_phase0 spends_quiet quiet.grows_ret)
  then show ?thesis by (auto simp: algebra_simps intro: spends_quiet quiet.grows_ret spends_le)
qed

lemma queues_run:
  "bindE (get_expired_unsettled_solana env) (\<lambda>ps. bindE (get_pending_phase2_solana env) (f ps)) w =
    (case ze_fails env (QueryExpired # calls w) of
       Some e \<Rightarrow> (Inl e, w\<lparr>calls := QueryExpired # calls w\<rparr>)
     | None \<Rightarrow> (case ze_fails env (QueryRecovery # QueryExpired # calls w) of
         Some e \<Rightarrow> (Inl e, w\<lparr>calls := QueryRecovery # QueryExpired # calls w\<rparr>)
       | None \<Rightarrow> f (filter (due_solana (ze_now env (calls w) div 1000000)) (zw_orders w))
                  (filter (pending_solana (ze_now env (QueryExpired # calls w) div 1000000)) (zw_orders w))
                  (w\<lparr>calls := QueryRecovery # QueryExpired # calls w\<rparr>)))"
  by (simp add: get_expired_unsettled_solana_def get_pending_phase2_solana_def unix_time_def perform_def run_defs split: option.split)

lemma sends_after_queues:
  assumes "\<And>ps rs. spends is_send (12 * length ps + 6 * length rs) (f ps rs)"
  shows "length (filter is_send (new_calls w (snd (bindE (get_expired_unsettled_solana env) (\<lambda>ps.
        bindE (get_pending_phase2_solana env) (f ps)) w)))) \<le>
     12 * length (filter (due_solana (ze_now env (calls w) div 1000000)) (zw_orders w)) +
     6 * length (filter (pending_solana (ze_now env (QueryExpired # calls w) div 1000000)) (zw_orders w))"
proof -
  let ?ps = "filter (due_solana (ze_now env (calls w) div 1000000)) (zw_orders w)"
  let ?rs = "filter (pending_solana (ze_now env (QueryExpired # calls w) div 1000000)) (zw_orders w)"
  let ?u = "w\<lparr>calls := QueryRecovery # QueryExpired # calls w\<rparr>"
  obtain r v where rest: "f ?ps ?rs ?u = (r, v)" by (rule prod.exhaust)
  obtain cs where "calls v = cs @ calls ?u" "length (filter is_send cs) \<le> 12 * length ?ps + 6 * length ?rs"
    by (rule spendsD [OF assms rest])
  then show ?thesis
    unfolding queues_run rest by (simp add: new_calls_def is_send_def split: option.split)
qed

section \<open>Strikes\<close>

text \<open>A strike below a million is an amount of dollars, rounded down to 1e-8; the same strike in units of 1e-8 dollars means the same.\<close>

lemma strike_dollars: "0 < k \<Longrightarrow> k < 1000000 \<Longrightarrow> strike_price_to_8dec k = Inr \<lfloor>k * 100000000\<rfloor>"
  by (simp add: strike_price_to_8dec_def)

lemma strike_units: "1000000 \<le> n \<Longrightarrow> strike_price_to_8dec (of_int n) = Inr n"
  by (simp add: strike_price_to_8dec_def)

section \<open>Properties\<close>

text \<open>
  C10: a cycle of the Solana settler sends a bounded number of transactions: at most twelve for each position that
  is due and six for each that waits for its delivery, whatever fails.
\<close>

theorem solana_sends_bounded:
  "length (filter is_send (new_calls w (snd (settle_solana_once env w)))) \<le>
     12 * length (filter (due_solana (ze_now env (calls w) div 1000000)) (zw_orders w)) +
     6 * length (filter (pending_solana (ze_now env (QueryExpired # calls w) div 1000000)) (zw_orders w))"
  unfolding settle_solana_once_def by (rule sends_after_queues) (rule spends_after_queues)

text \<open>
  C23: both notations of a strike in the table mean the same. An amount of dollars below a million with at most eight decimals and
  its number of units of 1e-8 dollars, when that is a million or more, are normalised to the same number, which is
  the strike on the chain; and the position's in-the-money test agrees with the comparison of exact dollar amounts.
\<close>

theorem strike_notations_agree:
  assumes "0 < k" "k < 1000000" "k * 100000000 = of_int n" "1000000 \<le> n"
  shows "strike_price_to_8dec k = Inr n \<and> strike_price_to_8dec (of_int n) = Inr n \<and>
    (solana_in_the_money True p n \<longleftrightarrow> of_int p / 100000000 < k) \<and> (solana_in_the_money False p n \<longleftrightarrow> k < of_int p / 100000000)"
proof -
  have "k = of_int n / 100000000" using assms(3) by (simp add: field_simps)
  then have "of_int p / 100000000 < k \<longleftrightarrow> p < n" "k < of_int p / 100000000 \<longleftrightarrow> n < p"
    by (simp_all add: divide_less_cancel)
  with assms strike_dollars [of k] strike_units [of n] show ?thesis by (simp add: solana_in_the_money_def)
qed

theorem strike_notations_agree_witness:
  "strike_price_to_8dec (175 / 2) = Inr 8750000000 \<and> strike_price_to_8dec 8750000000 = Inr 8750000000 \<and>
    (solana_in_the_money True 8700000000 8750000000 \<longleftrightarrow> 8700000000 / 100000000 < (175 / 2 :: rat)) \<and>
    (solana_in_the_money False 8700000000 8750000000 \<longleftrightarrow> (175 / 2 :: rat) < 8700000000 / 100000000)"
  using strike_notations_agree [of "175 / 2" 8750000000 8700000000] by simp

section \<open>Deliveries without a mark\<close>

text \<open>
  The mark of a delivery is inside the \<open>try\<close> block of its transaction: when the transaction succeeds and the first update fails, the
  position is labelled as a failed delivery without its transaction, and is selected for delivery again.
\<close>

lemma unrecorded_delivery_pending:
  assumes "ze_fails env (LoadOperator # h) = None" "ze_fails env (Blockhash # LoadOperator # h) = None"
    and "ze_fails env (SendTx ixs tables # Blockhash # LoadOperator # h) = None"
    and "ze_fails env (UpdateRow (sr_user p) (sr_vault p) # SendTx ixs tables # Blockhash # LoadOperator # h) = Some (OtherError m)"
    and "ze_fails env (UpdateRow (sr_user p) (sr_vault p) # UpdateRow (sr_user p) (sr_vault p) # SendTx ixs tables # Blockhash # LoadOperator # h) = None"
    and "calls w = h" "ixs = pre @ [ix]" "zw_orders w = [p]" "pending_solana now p"
  shows "case catchE (send_delivery env p price contra (pre, ix, tables, amount))
           (\<lambda>_. mark_itm_failed env (sr_user p) (sr_vault p) price) w of
     (_, v) \<Rightarrow> elem (SendTx ixs tables) (calls v) \<and> zw_orders v = [failed_mark price p] \<and> pending_solana now (failed_mark price p)"
  using assms
  by (auto simp: send_delivery_def send_ixs_def zread_def mark_itm_redeemed_def mark_itm_failed_def db_update_solana_def run_defs perform_def
      is_position_def pending_solana_def expired_columns_def failed_mark_def)

end
