(* ===== verification/Solana_Pyth_Layout.thy ===== *)
theory Solana_Pyth_Layout
  imports Solana_Pyth
begin

text \<open>
  The binary layouts of Pyth that the Solana settler reads, against writers of the documented formats: the accumulator
  update with its messages and proofs, and the guardian signatures of its VAA.
\<close>

section \<open>Reading at a position\<close>

lemma slice_front: "drop i d = x @ rest \<Longrightarrow> j = i + length x \<Longrightarrow> slice i j d = x"
  by (simp add: slice_def)

lemma drop_front: "drop i d = x @ rest \<Longrightarrow> j = i + length x \<Longrightarrow> drop j d = rest"
  by (metis append_eq_conv_conj drop_drop add.commute)

lemma byte_front: "drop i d = b # rest \<Longrightarrow> byte_at d i = Inr (unat b)"
  by (metis byte_at_def drop_eq_Nil2 leI list.distinct(1) nth_via_drop)

lemma drop_prefix: "length h = n \<Longrightarrow> drop n (h @ xs) = xs"
  by simp

lemma drop_past_prefix: "length h = n \<Longrightarrow> drop (n + k) (h @ xs) = drop k xs"
  by simp

lemma take_past_prefix: "length h = n \<Longrightarrow> take (n + k) (h @ xs) = h @ take k xs"
  by simp

section \<open>The accumulator update\<close>

definition update_bytes :: "pyth_message \<Rightarrow> byte list" where
  "update_bytes u = to_bytes_be 2 (length (pm_message u)) @ pm_message u @ [of_nat (length (pm_proof u))] @ concat (pm_proof u)"

definition accumulator_bytes :: "byte list \<Rightarrow> byte \<Rightarrow> byte list \<Rightarrow> pyth_message list \<Rightarrow> byte list" where
  "accumulator_bytes trailing proof_type vaa us =
     ACCUMULATOR_MAGIC @ [1, 0, of_nat (length trailing)] @ trailing @ [proof_type] @
     to_bytes_be 2 (length vaa) @ vaa @ [of_nat (length us)] @ concat (map update_bytes us)"

definition update_fits :: "pyth_message \<Rightarrow> bool" where
  "update_fits u \<longleftrightarrow> length (pm_message u) < 2 ^ 16 \<and> length (pm_proof u) < 256 \<and>
     list_all (\<lambda>p. length p = KECCAK160_HASH_SIZE) (pm_proof u)"

definition accumulator_fits :: "byte list \<Rightarrow> byte list \<Rightarrow> pyth_message list \<Rightarrow> bool" where
  "accumulator_fits trailing vaa us \<longleftrightarrow> length trailing < 256 \<and> length vaa < 2 ^ 16 \<and> length us < 256 \<and> list_all update_fits us"

lemma unat_small: "n < 256 \<Longrightarrow> unat (of_nat n :: byte) = n"
  by (simp add: unat_of_nat take_bit_nat_eq_self_iff)

lemma take_proofs_front:
  assumes "drop c d = concat ps @ rest" "list_all (\<lambda>p. length p = KECCAK160_HASH_SIZE) ps"
  shows "take_proofs (length ps) c d = (ps, c + length (concat ps))"
  using assms
proof (induction ps arbitrary: c)
  case (Cons p ps)
  then have p: "drop c d = p @ concat ps @ rest" "length p = KECCAK160_HASH_SIZE" by simp_all
  from Cons.IH [OF drop_front [OF p(1)], of "c + KECCAK160_HASH_SIZE"] Cons.prems(2) p(2)
  show ?case by (simp add: slice_front [OF p(1)])
qed simp

lemma length_update_bytes: "length (update_bytes u) = 2 + length (pm_message u) + 1 + length (concat (pm_proof u))"
  by (simp add: update_bytes_def)

lemma take_updates_front:
  assumes "drop c d = concat (map update_bytes us) @ rest" "list_all update_fits us"
  shows "take_updates (length us) c d = Inr (us, c + length (concat (map update_bytes us)))"
  using assms
proof (induction us arbitrary: c)
  case (Cons u us)
  let ?n = "length (pm_message u)" and ?more = "concat (map update_bytes us) @ rest"
  have fits: "?n < 2 ^ 16" "length (pm_proof u) < 256" "list_all (\<lambda>p. length p = KECCAK160_HASH_SIZE) (pm_proof u)"
    using Cons.prems(2) by (simp_all add: update_fits_def)
  have l: "length (to_bytes_be 2 ?n) = 2" by simp
  have a: "drop c d = to_bytes_be 2 ?n @ pm_message u @ [of_nat (length (pm_proof u))] @ concat (pm_proof u) @ ?more"
    using Cons.prems(1) update_bytes_def [of u] by simp
  have b: "drop (c + 2) d = pm_message u @ [of_nat (length (pm_proof u))] @ concat (pm_proof u) @ ?more"
    by (rule drop_front [OF a]) (simp add: l)
  have e: "drop (c + 2 + ?n) d = of_nat (length (pm_proof u)) # concat (pm_proof u) @ ?more"
    using drop_front [OF b, of "c + 2 + ?n"] by simp
  have f: "drop (c + 2 + ?n + 1) d = concat (pm_proof u) @ ?more"
    using drop_front [of "c + 2 + ?n" d "[of_nat (length (pm_proof u))]" "concat (pm_proof u) @ ?more" "c + 2 + ?n + 1"] e by simp
  have g: "drop (c + 2 + ?n + 1 + length (concat (pm_proof u))) d = ?more"
    by (rule drop_front [OF f]) simp
  have size: "from_bytes_be (slice c (c + 2) d) = ?n"
    using slice_front [OF a, of "c + 2"] fits(1) by (simp add: l from_to_bytes_be)
  show ?case
    using Cons.IH [OF g] Cons.prems(2) take_proofs_front [OF f fits(3)] byte_front [OF e] slice_front [OF b, of "c + 2 + ?n"]
    by (simp add: size unat_small [OF fits(2)] Let_def length_update_bytes del: add_2_eq_Suc add_2_eq_Suc')
qed simp

lemma parse_at:
  assumes "11 \<le> length d" "take 4 d = ACCUMULATOR_MAGIC" "d ! 4 = 1" "d ! 5 = 0" "6 + 1 + unat (d ! 6) + 1 = c"
    and "from_bytes_be (slice c (c + 2) d) = n" "slice (c + 2) (c + 2 + n) d = vaa" "c + 2 + n < length d"
    and "take_updates (unat (d ! (c + 2 + n))) (c + 2 + n + 1) d = Inr (us, length d)"
  shows "parse_pyth_accumulator_update d = Inr (vaa, us)"
  using assms(1-4,8)
  by (simp only: parse_pyth_accumulator_update_def Let_def assms(5-7,9)) simp

section \<open>Guardian signatures\<close>

definition vaa_bytes :: "byte \<Rightarrow> byte list \<Rightarrow> byte list list \<Rightarrow> byte list \<Rightarrow> byte list" where
  "vaa_bytes version guardian_set signatures body =
     [version] @ guardian_set @ [of_nat (length signatures)] @ concat signatures @ body"

lemma length_concat_fixed: "list_all (\<lambda>p. length p = n) ps \<Longrightarrow> length (concat ps) = length ps * n"
  by (induction ps) auto

lemma take_concat_fixed: "list_all (\<lambda>p. length p = n) ps \<Longrightarrow> take (k * n) (concat ps) = concat (take k ps)"
proof (induction ps arbitrary: k)
  case (Cons p ps)
  then show ?case by (cases k) auto
qed simp

section \<open>Properties\<close>

text \<open>
  C22: an accumulator update is parsed into what it was written from: the VAA and the messages with their proofs, in order,
  whatever trailing payload and proof type it carries, for all sizes that the format can hold.
\<close>

theorem accumulator_roundtrip:
  assumes "accumulator_fits trailing vaa us"
  shows "parse_pyth_accumulator_update (accumulator_bytes trailing proof_type vaa us) = Inr (vaa, us)"
proof -
  let ?d = "accumulator_bytes trailing proof_type vaa us" and ?us = "concat (map update_bytes us)"
  let ?c = "6 + 1 + length trailing + 1"
  note fits = assms [unfolded accumulator_fits_def]
  have start: "take 4 ?d = ACCUMULATOR_MAGIC" "?d ! 4 = 1" "?d ! 5 = 0" "?d ! 6 = of_nat (length trailing)" "11 \<le> length ?d"
    by (simp_all add: accumulator_bytes_def ACCUMULATOR_MAGIC_def nth_Cons')
  have t: "unat (?d ! 6) = length trailing" using fits by (simp add: start unat_small)
  let ?h = "ACCUMULATOR_MAGIC @ [1, 0, of_nat (length trailing)] @ trailing @ [proof_type]"
  have d: "?d = ?h @ (to_bytes_be 2 (length vaa) @ vaa @ [of_nat (length us)] @ ?us)"
    by (simp only: accumulator_bytes_def append_assoc)
  have h: "length ?h = ?c" by (simp add: ACCUMULATOR_MAGIC_def)
  have a: "drop ?c ?d = to_bytes_be 2 (length vaa) @ vaa @ [of_nat (length us)] @ ?us"
    unfolding d by (rule drop_prefix [OF h])
  have b: "drop (?c + 2) ?d = vaa @ [of_nat (length us)] @ ?us" by (rule drop_front [OF a]) simp
  have c: "drop (?c + 2 + length vaa) ?d = [of_nat (length us)] @ ?us" by (rule drop_front [OF b]) simp
  have e: "drop (?c + 2 + length vaa + 1) ?d = ?us @ []" using drop_front [OF c, of "?c + 2 + length vaa + 1"] by simp
  have size: "from_bytes_be (slice ?c (?c + 2) ?d) = length vaa"
    using slice_front [OF a, of "?c + 2"] fits by (simp add: from_to_bytes_be)
  have vaa: "slice (?c + 2) (?c + 2 + length vaa) ?d = vaa" by (rule slice_front [OF b]) simp
  have len: "length ?d = ?c + 2 + length vaa + 1 + length ?us"
    by (simp add: accumulator_bytes_def ACCUMULATOR_MAGIC_def)
  have n: "unat (?d ! (?c + 2 + length vaa)) = length us"
    using nth_via_drop [of "?c + 2 + length vaa" ?d] c fits by (simp add: unat_small)
  have us: "take_updates (unat (?d ! (?c + 2 + length vaa))) (?c + 2 + length vaa + 1) ?d = Inr (us, length ?d)"
    unfolding n using take_updates_front [OF e] fits by (simp add: len)
  show ?thesis
    by (rule parse_at [OF start(5,1-3) _ size vaa _ us]) (simp_all add: t len)
qed

theorem accumulator_roundtrip_witness:
  "accumulator_fits [7] [1, 2, 3] [\<lparr>pm_message = [5, 6], pm_proof = [replicate 20 9]\<rparr>] \<and>
   parse_pyth_accumulator_update (accumulator_bytes [7] 0 [1, 2, 3] [\<lparr>pm_message = [5, 6], pm_proof = [replicate 20 9]\<rparr>]) =
     Inr ([1, 2, 3], [\<lparr>pm_message = [5, 6], pm_proof = [replicate 20 9]\<rparr>])"
proof -
  have "accumulator_fits [7] [1, 2, 3] [\<lparr>pm_message = [5, 6], pm_proof = [replicate 20 9]\<rparr>]"
    by (simp add: accumulator_fits_def update_fits_def KECCAK160_HASH_SIZE_def)
  then show ?thesis using accumulator_roundtrip by blast
qed

text \<open>
  The reduction to five guardian signatures keeps the version, the guardian set, the first five signatures and the
  body, and nothing else; it is refused exactly when there are fewer, and reducing again changes nothing.
\<close>

lemma trimmed_vaa_layout:
  assumes "length guardian_set = 4" "length signatures < 256" "list_all (\<lambda>s. length s = VAA_SIGNATURE_SIZE) signatures"
  shows "trim_pyth_vaa_signatures (vaa_bytes version guardian_set signatures body) REDUCED_GUARDIAN_SIGNATURES =
     (if length signatures < REDUCED_GUARDIAN_SIGNATURES then Inl (ValueError ''Pyth VAA has fewer guardian signatures than required'')
      else Inr (vaa_bytes version guardian_set (take REDUCED_GUARDIAN_SIGNATURES signatures) body)) \<and>
   pyth_guardian_set_index (vaa_bytes version guardian_set signatures body) = Inr (from_bytes_be guardian_set)"
proof -
  let ?v = "vaa_bytes version guardian_set signatures body" and ?n = REDUCED_GUARDIAN_SIGNATURES
  have v: "?v = (version # guardian_set @ [of_nat (length signatures)]) @ concat signatures @ body"
    by (simp add: vaa_bytes_def)
  have head: "length (version # guardian_set @ [of_nat (length signatures)]) = 6" using assms(1) by simp
  have count: "unat (?v ! 5) = length signatures"
    using assms(1,2) by (simp add: vaa_bytes_def nth_append unat_small)
  have long: "6 \<le> length ?v" using head by (simp add: v)
  have keep: "take (6 + ?n * VAA_SIGNATURE_SIZE) ?v = version # guardian_set @ of_nat (length signatures) # concat (take ?n signatures)"
    if "?n \<le> length signatures"
  proof -
    have "take (?n * VAA_SIGNATURE_SIZE) (concat signatures @ body) = concat (take ?n signatures)"
      using that assms(3) length_concat_fixed [OF assms(3)] take_concat_fixed [OF assms(3), of ?n] by simp
    then show ?thesis unfolding v by (simp only: take_past_prefix [OF head]) simp
  qed
  have drop: "drop (6 + length signatures * VAA_SIGNATURE_SIZE) ?v = body"
    unfolding v by (simp only: drop_past_prefix [OF head]) (simp add: length_concat_fixed [OF assms(3)])
  have index: "pyth_guardian_set_index ?v = Inr (from_bytes_be guardian_set)"
    using long assms(1) by (simp add: pyth_guardian_set_index_def vaa_bytes_def slice_def)
  have "trim_pyth_vaa_signatures ?v ?n = Inr (vaa_bytes version guardian_set (take ?n signatures) body)" if "?n \<le> length signatures"
  proof (cases "length signatures = ?n")
    case True
    then show ?thesis using long count by (simp add: trim_pyth_vaa_signatures_def)
  next
    case False
    have "(version # guardian_set @ of_nat (length signatures) # concat (take ?n signatures) @ body)[5 := of_nat ?n] =
        vaa_bytes version guardian_set (take ?n signatures) body"
      using that assms(1) by (simp add: vaa_bytes_def list_update_append eval_nat_numeral REDUCED_GUARDIAN_SIGNATURES_def)
    then show ?thesis
      using False that long count by (simp add: trim_pyth_vaa_signatures_def keep [OF that] drop)
  qed
  with index long count show ?thesis by (auto simp: trim_pyth_vaa_signatures_def)
qed

lemma trimmed_vaa_layout_witness:
  "trim_pyth_vaa_signatures (vaa_bytes 1 [0, 0, 0, 4] (replicate 7 (replicate 66 1)) [9, 8]) REDUCED_GUARDIAN_SIGNATURES =
     Inr (vaa_bytes 1 [0, 0, 0, 4] (replicate 5 (replicate 66 1)) [9, 8]) \<and>
   pyth_guardian_set_index (vaa_bytes 1 [0, 0, 0, 4] (replicate 7 (replicate 66 1)) [9, 8]) = Inr (from_bytes_be [0, 0, 0, 4])"
  using trimmed_vaa_layout [of "[0, 0, 0, 4]" "replicate 7 (replicate 66 1)" 1 "[9, 8]"]
  by (simp add: VAA_SIGNATURE_SIZE_def REDUCED_GUARDIAN_SIGNATURES_def list_all_iff)

end
