(* ===== verification/Py_Sum.thy ===== *)
theory Py_Sum
  imports Py_Float
begin

text \<open>
  \<open>sum\<close> of floats: from Python 3.12 on (the service runs on 3.13) the built-in function carries a compensation for the rounding errors along and
  adds it at the end; and \<open>round(x, n)\<close> of a float.
\<close>

definition sum_step :: "rat \<times> rat \<Rightarrow> rat \<Rightarrow> rat \<times> rat" where
  "sum_step = (\<lambda>(f, c) x. let t = fl (f + x) in
     (t, fl (c + (if \<bar>x\<bar> \<le> \<bar>f\<bar> then fl (fl (f - t) + x) else fl (fl (x - t) + f)))))"

definition py_fsum :: "rat list \<Rightarrow> rat" where
  "py_fsum xs = (case foldl sum_step (0, 0) xs of (f, c) \<Rightarrow> fl (f + c))"

text \<open>\<open>round(x, n)\<close>: the decimal of \<open>n\<close> digits that is next to the float, ties to even, as a float.\<close>

definition round_digits :: "nat \<Rightarrow> rat \<Rightarrow> rat" where
  "round_digits n x = fl (of_int (py_round (x * 10 ^ n)) / 10 ^ n)"

text \<open>While all partial sums are representable there is nothing to compensate, and the sum is exact.\<close>

fun representable_sums :: "rat \<Rightarrow> rat list \<Rightarrow> bool" where
  "representable_sums f [] = True"
| "representable_sums f (x # xs) = (fl (f + x) = f + x \<and> fl x = x \<and> fl f = f \<and> representable_sums (f + x) xs)"

end
