(* ===== verification/Mm_Monitor.thy ===== *)
theory Mm_Monitor
  imports Py_Sum Mm_Safety Otoken_Manager Circuit_Breaker "HOL-Library.Multiset"
begin

text \<open>
  The monitoring endpoints of \<open>src/api/mm_routes.py\<close>: fills, open positions by option, exposure, market data
  and capacity reports, with what relates the positions to the exposure.
\<close>

section \<open>Decimal sums\<close>

text \<open>
  \<open>decimal.Decimal\<close> sums of integers: the default context keeps 28 significant digits and rounds half to even.
\<close>

definition DECIMAL_PRECISION :: nat where "DECIMAL_PRECISION = 28"

definition dec_digits :: "int \<Rightarrow> nat" where
  "dec_digits n = length (nat_str (nat \<bar>n\<bar>))"

definition dec_round :: "int \<Rightarrow> int" where
  "dec_round n =
     (if \<bar>n\<bar> < 10 ^ DECIMAL_PRECISION then n
      else (let k = dec_digits n - DECIMAL_PRECISION in py_round (of_int n / 10 ^ k) * 10 ^ k))"

definition dec_add :: "int \<Rightarrow> int \<Rightarrow> int" where
  "dec_add a b = dec_round (a + b)"

definition dec_sum :: "int list \<Rightarrow> int" where
  "dec_sum xs = foldl dec_add 0 xs"

lemma dec_add_exact: "0 \<le> a \<Longrightarrow> 0 \<le> b \<Longrightarrow> a + b < 10 ^ DECIMAL_PRECISION \<Longrightarrow> dec_add a b = a + b"
  by (simp add: dec_add_def dec_round_def)

lemma foldl_dec_add:
  assumes "0 \<le> a" "\<forall>x \<in> set xs. 0 \<le> x" "a + sum_list xs < 10 ^ DECIMAL_PRECISION"
  shows "foldl dec_add a xs = a + sum_list xs"
  using assms
proof (induction xs arbitrary: a)
  case (Cons x xs)
  have "0 \<le> sum_list xs" using Cons.prems(2) by (intro sum_list_nonneg) simp
  with Cons show ?case by (simp add: dec_add_exact algebra_simps)
qed simp

lemma dec_sum_exact: "\<forall>x \<in> set xs. 0 \<le> x \<Longrightarrow> sum_list xs < 10 ^ DECIMAL_PRECISION \<Longrightarrow> dec_sum xs = sum_list xs"
  using foldl_dec_add [of 0 xs] by (simp add: dec_sum_def)

section \<open>Fills\<close>

text \<open>\<open>datetime.fromtimestamp(ts, tz=utc).isoformat()\<close>: the years 1 to 9999.\<close>

definition ts_to_iso :: "int \<Rightarrow> exn + int" where
  "ts_to_iso ts =
     (if -62135596800 \<le> ts \<and> ts < 253402300800 then Inr (ts * 1000000) else Inl (ValueError ''year is out of range''))"

definition fill_of :: "string \<Rightarrow> mm_fill \<Rightarrow> bool" where
  "fill_of mm r \<longleftrightarrow> mf_mm r = Some (normalize_mm_address mm)"

record fill_response =
  fr_fill :: mm_fill
  fr_tx_url :: "string option"

text \<open>The response has the columns of the row, and the link of its transaction.\<close>

definition get_fills ::
  "'d mm_env \<Rightarrow> app_settings \<Rightarrow> bridge_settings \<Rightarrow> string \<Rightarrow> int option \<Rightarrow> string option \<Rightarrow> nat \<Rightarrow> fill_response list mpy" where
  "get_fills env s b mm since otoken limit =
     (if \<not> (1 \<le> limit \<and> limit \<le> 1000) then raise (HTTPException 422 ''limit'')
      else
        bindE (catchE
          (bindE (liftE (case since of None \<Rightarrow> Inr None | Some t \<Rightarrow> map_sum id Some (ts_to_iso t))) (\<lambda>from.
           thenE (mcall env ReadFills)
             (getsE (\<lambda>w. take limit (sort_key (\<lambda>r. - mf_indexed_at r)
                (filter (\<lambda>r. fill_of mm r \<and> (case from of None \<Rightarrow> True | Some t \<Rightarrow> t \<le> mf_indexed_at r) \<and>
                   (case otoken of None \<Rightarrow> True | Some o' \<Rightarrow> mf_otoken r = lower o')) (mw_fills w)))))))
          (\<lambda>_. raise (HTTPException 502 ''Could not fetch fills'')))
        (\<lambda>rows. ret (map (\<lambda>r. \<lparr>fr_fill = r, fr_tx_url = tx_explorer_url s b (Some (mf_tx r)) (Some (mf_chain r))\<rparr>) rows)))"

section \<open>Open positions\<close>

record position_group =
  pg_otoken :: string
  pg_strike :: rat
  pg_expiry :: int
  pg_is_put :: "bool option"
  pg_amount :: int
  pg_premium :: int
  pg_count :: nat

definition new_group :: "mm_fill \<Rightarrow> position_group" where
  "new_group r =
     \<lparr>pg_otoken = mf_otoken r, pg_strike = (case mf_strike r of None \<Rightarrow> 0 | Some k \<Rightarrow> k),
      pg_expiry = (case mf_expiry r of None \<Rightarrow> 0 | Some e \<Rightarrow> e), pg_is_put = mf_is_put r,
      pg_amount = 0, pg_premium = 0, pg_count = 0\<rparr>"

definition add_fill :: "position_group \<Rightarrow> mm_fill \<Rightarrow> position_group" where
  "add_fill g r = g\<lparr>pg_amount := dec_add (pg_amount g) (mf_amount r),
     pg_premium := dec_add (pg_premium g) (case mf_gross r of None \<Rightarrow> 0 | Some p \<Rightarrow> p), pg_count := pg_count g + 1\<rparr>"

text \<open>\<open>Decimal("None")\<close>: the column is there with the value null, so that the default is not taken.\<close>

definition group_fill :: "(string \<times> position_group) list \<Rightarrow> mm_fill \<Rightarrow> (string \<times> position_group) list mpy" where
  "group_fill groups r =
     (if mf_gross r = None then raise (OtherError ''InvalidOperation'')
      else ret (group_step mf_otoken new_group add_fill r groups))"

text \<open>The response model requires the option type.\<close>

definition check_group :: "position_group \<Rightarrow> exn + position_group" where
  "check_group g = (if pg_is_put g = None then Inl (OtherError ''ValidationError'') else Inr g)"

definition open_fill :: "string \<Rightarrow> int \<Rightarrow> mm_fill \<Rightarrow> bool" where
  "open_fill mm now r \<longleftrightarrow> fill_of mm r \<and> (case mf_expiry r of None \<Rightarrow> False | Some e \<Rightarrow> now < e)"

definition get_positions :: "'d mm_env \<Rightarrow> string \<Rightarrow> position_group list mpy" where
  "get_positions env mm =
     bindE (unix_now env) (\<lambda>now.
     bindE (catchE (thenE (mcall env ReadOpenFills)
              (getsE (\<lambda>w. sort_key (\<lambda>r. the (mf_expiry r)) (filter (open_fill mm now) (mw_fills w)))))
            (\<lambda>_. raise (HTTPException 502 ''Could not fetch positions''))) (\<lambda>rows.
     bindE (foldE group_fill [] rows) (\<lambda>groups.
       liftE (seq_results (map (\<lambda>(_, g). check_group g) groups)))))"

section \<open>Exposure\<close>

record expiry_bucket =
  eb_expiry :: int
  eb_count :: nat
  eb_amount :: int

record exposure =
  ex_quotes :: nat
  ex_notional :: int
  ex_buckets :: "expiry_bucket list"
  ex_premium :: int
  ex_pending :: nat

definition new_bucket :: "mm_fill \<Rightarrow> expiry_bucket" where
  "new_bucket r = \<lparr>eb_expiry = the (mf_expiry r), eb_count = 0, eb_amount = 0\<rparr>"

definition add_to_bucket :: "expiry_bucket \<Rightarrow> mm_fill \<Rightarrow> expiry_bucket" where
  "add_to_bucket b r = b\<lparr>eb_count := eb_count b + 1, eb_amount := dec_add (eb_amount b) (mf_amount r)\<rparr>"

text \<open>\<open>f.get("gross_premium") or f.get("premium", "0")\<close>: a gross premium of zero gives way as well.\<close>

definition fill_premium :: "mm_fill \<Rightarrow> int" where
  "fill_premium r = (case mf_gross r of None \<Rightarrow> mf_premium r | Some p \<Rightarrow> if p = 0 then mf_premium r else p)"

text \<open>\<open>expiry and expiry > now\<close>: an expiry of zero counts as none.\<close>

definition expires_after :: "int \<Rightarrow> mm_fill \<Rightarrow> bool" where
  "expires_after now r \<longleftrightarrow> (case mf_expiry r of None \<Rightarrow> False | Some e \<Rightarrow> e \<noteq> 0 \<and> now < e)"

definition pending_settlement :: "int \<Rightarrow> mm_fill \<Rightarrow> bool" where
  "pending_settlement now r \<longleftrightarrow> (case mf_expiry r of None \<Rightarrow> False | Some e \<Rightarrow> e \<noteq> 0 \<and> e \<le> now) \<and> \<not> mf_settled r"

definition expiry_buckets :: "int \<Rightarrow> mm_fill list \<Rightarrow> expiry_bucket list" where
  "expiry_buckets now fills =
     map snd (sort_key fst (group_rows (\<lambda>r. the (mf_expiry r)) new_bucket add_to_bucket (filter (expires_after now) fills)))"

definition exposure_of :: "int \<Rightarrow> int list \<Rightarrow> mm_fill list \<Rightarrow> exposure" where
  "exposure_of now amounts fills =
     \<lparr>ex_quotes = length amounts, ex_notional = dec_sum amounts, ex_buckets = expiry_buckets now fills,
      ex_premium = dec_sum (map fill_premium fills), ex_pending = length (filter (pending_settlement now) fills)\<rparr>"

definition live_quote_of :: "string \<Rightarrow> int \<Rightarrow> quote_row \<Rightarrow> bool" where
  "live_quote_of mm now q \<longleftrightarrow> qr_mm q = normalize_mm_address mm \<and> qr_active q \<and> now < qr_deadline q"

definition get_exposure :: "'d mm_env \<Rightarrow> string \<Rightarrow> exposure mpy" where
  "get_exposure env mm =
     bindE (unix_now env) (\<lambda>now.
     bindE (catchE
       (thenE (mcall env ReadQuotes)
       (bindE (getsE (\<lambda>w. map qr_max_amount (filter (live_quote_of mm now) (mw_quotes w)))) (\<lambda>amounts.
        thenE (mcall env ReadAllFills) (getsE (\<lambda>w. (amounts, filter (fill_of mm) (mw_fills w)))))))
       (\<lambda>_. raise (HTTPException 502 ''Could not fetch exposure'')))
     (\<lambda>(amounts, fills). ret (exposure_of now amounts fills)))"

section \<open>Market data\<close>

text \<open>
  The answers of the price sources and of the table \<open>available_otokens\<close>, the settings, and the settings of
  the option token manager, whose custom expiries are read.
\<close>

record market_env =
  ke_spot :: "mm_call list \<Rightarrow> rat"
  ke_iv :: "mm_call list \<Rightarrow> rat \<times> string"
  ke_gas_price :: "mm_call list \<Rightarrow> int"
  ke_available :: "mm_call list \<Rightarrow> avail_row list"
  ke_otk :: otk_env
  ke_fee_bps :: int

record otoken_item =
  oti_address :: string
  oti_strike :: rat
  oti_expiry :: int
  oti_is_put :: bool

record market_data =
  md_asset :: asset
  md_spot :: rat
  md_iv :: rat
  md_iv_source :: string
  md_fee_bps :: int
  md_gas_gwei :: rat
  md_otokens :: "otoken_item list"

definition active_expiries :: "market_env \<Rightarrow> int \<Rightarrow> int list" where
  "active_expiries ke now =
     (case parse_custom_expiries (ke_otk ke) of
        None \<Rightarrow> get_expiries (oe_pricing (ke_otk ke)) now
      | Some es \<Rightarrow> if es = [] then get_expiries (oe_pricing (ke_otk ke)) now else es)"

definition read_gas_gwei :: "'d mm_env \<Rightarrow> market_env \<Rightarrow> asset \<Rightarrow> rat mpy" where
  "read_gas_gwei env ke a =
     (if get_chain_for_asset a = BASE then
        catchE (thenE (mcall env ReadGasPrice) (getsE (\<lambda>w. fl (of_int (ke_gas_price ke (calls w)) / 10 ^ 9)))) (\<lambda>_. ret 0)
      else ret 0)"

definition read_available :: "'d mm_env \<Rightarrow> market_env \<Rightarrow> string \<Rightarrow> int list \<Rightarrow> otoken_item list mpy" where
  "read_available env ke underlying expiries =
     thenE (mcall env ReadAvailableOtokens)
       (getsE (\<lambda>w. map (\<lambda>r. \<lparr>oti_address = av_address r, oti_strike = av_strike r, oti_expiry = av_expiry r, oti_is_put = av_is_put r\<rparr>)
          (filter (\<lambda>r. av_underlying r = Some underlying \<and> elem (av_expiry r) expiries) (ke_available ke (calls w)))))"

definition get_market :: "'d mm_env \<Rightarrow> market_env \<Rightarrow> asset \<Rightarrow> market_data mpy" where
  "get_market env ke a =
     bindE (catchE (thenE (mcall env (ReadSpot a)) (getsE (\<lambda>w. ke_spot ke (calls w))))
              (\<lambda>_. raise (HTTPException 502 (''Could not fetch '' @ map upper_char (asset_value a) @ '' spot'')))) (\<lambda>spot.
     bindE (catchE (thenE (mcall env (ReadIv a)) (getsE (\<lambda>w. ke_iv ke (calls w))))
              (\<lambda>_. raise (HTTPException 502 ''Could not fetch IV''))) (\<lambda>(iv, source).
     bindE (read_gas_gwei env ke a) (\<lambda>gas.
     bindE (liftE (underlying_address (oe_addresses (ke_otk ke)) (asset_configs a))) (\<lambda>address.
     bindE (unix_now env) (\<lambda>now.
     bindE (catchE (read_available env ke (if get_chain_for_asset a = SOLANA then address else lower address) (active_expiries ke now))
              (\<lambda>_. raise (HTTPException 502 ''Could not fetch available oTokens''))) (\<lambda>otokens.
       ret \<lparr>md_asset = a, md_spot = spot, md_iv = iv, md_iv_source = source, md_fee_bps = ke_fee_bps ke,
            md_gas_gwei = round_digits 4 gas, md_otokens = otokens\<rparr>))))))"

section \<open>Capacity reports\<close>

definition capacity_key :: "capacity_row \<Rightarrow> string \<times> string" where
  "capacity_key r = (cap_mm r, cap_asset r)"

definition given_or :: "'a option \<Rightarrow> 'a option \<Rightarrow> 'a option" where
  "given_or new old = (case new of None \<Rightarrow> old | Some _ \<Rightarrow> new)"

text \<open>Optional columns that the report leaves out keep their values.\<close>

definition put_capacity :: "capacity_row \<Rightarrow> capacity_row \<Rightarrow> capacity_row" where
  "put_capacity new old = new\<lparr>cap_premium_pool := given_or (cap_premium_pool new) (cap_premium_pool old),
     cap_hedge_pool := given_or (cap_hedge_pool new) (cap_hedge_pool old),
     cap_hedge_withdrawable := given_or (cap_hedge_withdrawable new) (cap_hedge_withdrawable old),
     cap_leverage := given_or (cap_leverage new) (cap_leverage old),
     cap_positions := given_or (cap_positions new) (cap_positions old),
     cap_notional := given_or (cap_notional new) (cap_notional old)\<rparr>"

interpretation capacity: upsert_table capacity_key put_capacity
  by unfold_locales (simp add: capacity_key_def put_capacity_def)

text \<open>The validators of the request.\<close>

definition valid_capacity :: "capacity_row \<Rightarrow> bool" where
  "valid_capacity r \<longleftrightarrow> elem (lower (cap_asset r)) VALID_ASSETS \<and> elem (cap_status r) [''active'', ''degraded'', ''full''] \<and>
     0 \<le> cap_native r \<and> 0 \<le> cap_usd r"

text \<open>The body's fields are those of the row; address, chain and time are the server's.\<close>

definition capacity_columns :: "string \<Rightarrow> asset \<Rightarrow> int \<Rightarrow> capacity_row \<Rightarrow> capacity_row" where
  "capacity_columns mm a now r = r\<lparr>cap_mm := normalize_mm_address mm, cap_asset := asset_value a,
     cap_chain := chain_value (get_chain_for_asset a), cap_reported_at := now\<rparr>"

definition report_capacity :: "'d mm_env \<Rightarrow> string \<Rightarrow> capacity_row \<Rightarrow> unit mpy" where
  "report_capacity env mm body =
     (if \<not> valid_capacity body then raise (HTTPException 422 ''body'')
      else (case asset_of_value (lower (cap_asset body)) of
        None \<Rightarrow> raise (ValueError (cap_asset body @ '' is not a valid Asset''))
      | Some a \<Rightarrow>
          bindE (getsE (\<lambda>w. me_now env (calls w))) (\<lambda>now.
          catchE (thenE (mcall env UpsertCapacity)
                   (modifyE (\<lambda>w. w\<lparr>mw_capacity := tbl_upsert capacity_key (put_capacity (capacity_columns mm a now body))
                      (capacity_columns mm a now body) (mw_capacity w)\<rparr>)))
            (\<lambda>_. raise (HTTPException 502 ''Could not save capacity'')))))"

section \<open>Positions and exposure\<close>

lemma foldl_add_fill:
  "foldl add_fill g rs =
     g\<lparr>pg_amount := foldl dec_add (pg_amount g) (map mf_amount rs),
        pg_premium := foldl dec_add (pg_premium g) (map (\<lambda>r. case mf_gross r of None \<Rightarrow> 0 | Some p \<Rightarrow> p) rs),
        pg_count := pg_count g + length rs\<rparr>"
  by (induction rs arbitrary: g) (simp_all add: add_fill_def)

lemma foldl_add_to_bucket:
  "foldl add_to_bucket b rs = b\<lparr>eb_count := eb_count b + length rs, eb_amount := foldl dec_add (eb_amount b) (map mf_amount rs)\<rparr>"
  by (induction rs arbitrary: b) (simp_all add: add_to_bucket_def)

definition position_groups :: "mm_fill list \<Rightarrow> (string \<times> position_group) list" where
  "position_groups = group_rows mf_otoken new_group add_fill"

text \<open>Amounts that a sum in the default context adds exactly.\<close>

definition exact_amounts :: "mm_fill list \<Rightarrow> bool" where
  "exact_amounts rs \<longleftrightarrow> list_all (\<lambda>r. 0 \<le> mf_amount r) rs \<and> sum_list (map mf_amount rs) < 10 ^ DECIMAL_PRECISION"

lemma exact_filter: "exact_amounts rs \<Longrightarrow> exact_amounts (filter P rs)"
proof -
  have "list_all (\<lambda>r. 0 \<le> mf_amount r) rs \<Longrightarrow> sum_list (map mf_amount (filter P rs)) \<le> sum_list (map mf_amount rs)"
    by (induction rs) auto
  then show "exact_amounts rs \<Longrightarrow> exact_amounts (filter P rs)" by (auto simp: exact_amounts_def list_all_iff)
qed

lemma exact_sum: "exact_amounts rs \<Longrightarrow> foldl dec_add 0 (map mf_amount rs) = sum_list (map mf_amount rs)"
  by (subst foldl_dec_add) (auto simp: exact_amounts_def list_all_iff)

lemma group_amount:
  assumes "exact_amounts rs" "(k, g) \<in> set (position_groups rs)"
  shows "pg_amount g = sum_list (map mf_amount (filter (\<lambda>r. mf_otoken r = k) rs))"
    and "int (pg_count g) = sum_list (map (\<lambda>_. 1) (filter (\<lambda>r. mf_otoken r = k) rs))" and "pg_otoken g = k"
proof -
  obtain y ys where g: "filter (\<lambda>r. mf_otoken r = k) rs = y # ys" "g = foldl add_fill (new_group y) (y # ys)"
    using assms(2) unfolding position_groups_def by (rule group_rows_entry)
  then have "mf_otoken y = k" by (auto dest: filter_eq_ConsD)
  with g exact_sum [OF exact_filter [OF assms(1)], of "\<lambda>r. mf_otoken r = k"]
  show "pg_amount g = sum_list (map mf_amount (filter (\<lambda>r. mf_otoken r = k) rs))"
    "int (pg_count g) = sum_list (map (\<lambda>_. 1) (filter (\<lambda>r. mf_otoken r = k) rs))" "pg_otoken g = k"
    unfolding foldl_add_fill by (simp_all add: new_group_def sum_list_triv)
qed

definition bucket_groups :: "mm_fill list \<Rightarrow> (int \<times> expiry_bucket) list" where
  "bucket_groups = group_rows (\<lambda>r. the (mf_expiry r)) new_bucket add_to_bucket"

lemma bucket_amount:
  assumes "exact_amounts rs" "(k, b) \<in> set (bucket_groups rs)"
  shows "eb_amount b = sum_list (map mf_amount (filter (\<lambda>r. the (mf_expiry r) = k) rs))"
    and "int (eb_count b) = sum_list (map (\<lambda>_. 1) (filter (\<lambda>r. the (mf_expiry r) = k) rs))" and "eb_expiry b = k"
proof -
  obtain y ys where g: "filter (\<lambda>r. the (mf_expiry r) = k) rs = y # ys" "b = foldl add_to_bucket (new_bucket y) (y # ys)"
    using assms(2) unfolding bucket_groups_def by (rule group_rows_entry)
  then have "the (mf_expiry y) = k" by (auto dest: filter_eq_ConsD)
  with g exact_sum [OF exact_filter [OF assms(1)], of "\<lambda>r. the (mf_expiry r) = k"]
  show "eb_amount b = sum_list (map mf_amount (filter (\<lambda>r. the (mf_expiry r) = k) rs))"
    "int (eb_count b) = sum_list (map (\<lambda>_. 1) (filter (\<lambda>r. the (mf_expiry r) = k) rs))" "eb_expiry b = k"
    unfolding foldl_add_to_bucket by (simp_all add: new_bucket_def sum_list_triv)
qed

lemma groups_total:
  assumes "exact_amounts rs"
  shows "sum_list (map (\<lambda>(_, g). pg_amount g) (position_groups rs)) = sum_list (map mf_amount rs)"
    and "sum_list (map (\<lambda>(_, g). int (pg_count g)) (position_groups rs)) = int (length rs)"
  using sum_group_values [of mf_otoken new_group add_fill rs pg_amount mf_amount]
    sum_group_values [of mf_otoken new_group add_fill rs "\<lambda>g. int (pg_count g)" "\<lambda>_. 1"]
    group_amount [OF assms] by (simp_all add: position_groups_def sum_list_triv)

lemma buckets_total:
  assumes "exact_amounts rs"
  shows "sum_list (map (\<lambda>(_, b). eb_amount b) (bucket_groups rs)) = sum_list (map mf_amount rs)"
    and "sum_list (map (\<lambda>(_, b). int (eb_count b)) (bucket_groups rs)) = int (length rs)"
  using sum_group_values [of "\<lambda>r. the (mf_expiry r)" new_bucket add_to_bucket rs eb_amount mf_amount]
    sum_group_values [of "\<lambda>r. the (mf_expiry r)" new_bucket add_to_bucket rs "\<lambda>b. int (eb_count b)" "\<lambda>_. 1"]
    bucket_amount [OF assms] by (simp_all add: bucket_groups_def sum_list_triv)

lemma sum_list_sort: "sum_list (map f (sort_key k xs)) = (sum_list (map f xs) :: 'a :: comm_monoid_add)"
  by (metis mset_map mset_sort sum_mset_sum_list)

lemma exact_sort: "exact_amounts (sort_key k rs) = exact_amounts rs"
  by (simp add: exact_amounts_def sum_list_sort list_all_iff)

lemma run_group_fill: "foldE group_fill d rs w = (Inr x, v) \<Longrightarrow> x = fold (group_step mf_otoken new_group add_fill) rs d"
  by (induction rs arbitrary: d w) (auto simp: group_fill_def run_defs split: if_splits)

lemma checked_groups: "seq_results (map (\<lambda>(_, g). check_group g) d) = Inr gs \<Longrightarrow> gs = map snd d"
proof (induction d arbitrary: gs)
  case (Cons kg d)
  then show ?case by (cases kg) (auto simp: check_group_def split: if_splits sum.splits)
qed simp

lemma positions_are_groups:
  assumes "get_positions env mm w = (Inr gs, v)" "me_now env (calls w) div 1000000 = now"
  shows "gs = map snd (position_groups (sort_key (\<lambda>r. the (mf_expiry r)) (filter (open_fill mm now) (mw_fills w))))"
proof -
  let ?rows = "sort_key (\<lambda>r. the (mf_expiry r)) (filter (open_fill mm now) (mw_fills w))"
  obtain u where u: "bindE (foldE group_fill [] ?rows) (\<lambda>d. liftE (seq_results (map (\<lambda>(_, g). check_group g) d))) u = (Inr gs, v)"
    using assms by (auto simp: get_positions_def unix_now_def run_defs perform_def Let_def split: option.splits if_splits)
  then obtain d u' where d: "foldE group_fill [] ?rows u = (Inr d, u')" "liftE (seq_results (map (\<lambda>(_, g). check_group g) d)) u' = (Inr gs, v)"
    by (auto simp: bindE_def split: prod.splits sum.splits)
  from d(2) have "seq_results (map (\<lambda>(_, g). check_group g) d) = Inr gs"
    by (auto simp: run_defs split: sum.splits)
  with d(1) show ?thesis by (auto simp: position_groups_def group_rows_def dest!: checked_groups run_group_fill)
qed

lemma exposure_buckets:
  assumes "get_exposure env mm w = (Inr ex, v)" "me_now env (calls w) div 1000000 = now"
  shows "ex_buckets ex = map snd (sort_key fst (bucket_groups (filter (expires_after now) (filter (fill_of mm) (mw_fills w)))))"
  using assms by (auto simp: get_exposure_def exposure_of_def expiry_buckets_def bucket_groups_def unix_now_def run_defs perform_def Let_def
      split: option.splits if_splits)

lemma open_rows: "0 \<le> now \<Longrightarrow> filter (expires_after now) (filter (fill_of mm) rs) = filter (open_fill mm now) rs"
  by (auto simp: expires_after_def open_fill_def split: option.splits intro!: filter_cong)

section \<open>Fills without a gross premium\<close>

text \<open>
  Rows from before the premium columns have a null gross premium: a single open one makes the positions
  unavailable, although the exposure counts it with its premium.
\<close>

lemma group_fill_fails: "list_ex (\<lambda>r. mf_gross r = None) rs \<Longrightarrow> fst (foldE group_fill d rs w) = Inl (OtherError ''InvalidOperation'')"
  by (induction rs arbitrary: d w) (auto simp: group_fill_def run_defs)

lemma run_bind: "m w = (Inr x, w') \<Longrightarrow> bindE m f w = f x w'"
  by (simp add: bindE_def)

lemma fst_bind_fails: "fst (m w) = Inl e \<Longrightarrow> fst (bindE m f w) = Inl e"
  by (auto simp: bindE_def split: prod.split sum.split)

lemma legacy_fill_breaks_positions:
  assumes "r \<in> set (mw_fills w)" "open_fill mm (me_now env (calls w) div 1000000) r" "mf_gross r = None"
    and "me_fails env (ReadOpenFills # calls w) = None"
  shows "fst (get_positions env mm w) = Inl (OtherError ''InvalidOperation'')"
proof -
  let ?rows = "sort_key (\<lambda>r. the (mf_expiry r)) (filter (open_fill mm (me_now env (calls w) div 1000000)) (mw_fills w))"
  have "list_ex (\<lambda>r. mf_gross r = None) ?rows" using assms(1-3) by (auto simp: list_ex_iff)
  from group_fill_fails [OF this] have "fst (foldE group_fill [] ?rows u) = Inl (OtherError ''InvalidOperation'')" for u .
  then have "fst (bindE (foldE group_fill [] ?rows) (\<lambda>d. liftE (seq_results (map (\<lambda>(_, g). check_group g) d))) u) = Inl (OtherError ''InvalidOperation'')" for u
    by (rule fst_bind_fails)
  moreover have "catchE (thenE (mcall env ReadOpenFills)
      (getsE (\<lambda>w. sort_key (\<lambda>r. the (mf_expiry r)) (filter (open_fill mm (me_now env (calls w') div 1000000)) (mw_fills w))))) h w' =
      (Inr (sort_key (\<lambda>r. the (mf_expiry r)) (filter (open_fill mm (me_now env (calls w') div 1000000)) (mw_fills w'))), w'\<lparr>calls := ReadOpenFills # calls w'\<rparr>)"
    if "w' = w" for w' h
    using assms(4) that by (simp add: run_defs perform_def)
  ultimately show ?thesis
    unfolding get_positions_def unix_now_def by (simp add: run_bind [OF run_gets] run_bind)
qed

section \<open>Reported capacity\<close>

lemma capacity_kept: "distinct (map capacity_key (mw_capacity w)) \<Longrightarrow> distinct (map capacity_key (mw_capacity (snd (report_capacity env mm body w))))"
  by (auto simp: report_capacity_def run_defs perform_def Let_def capacity.distinct_upsert split: option.splits if_splits)

lemma capacity_reported:
  assumes "report_capacity env mm body w = (Inr x, v)"
  obtains a r where "asset_of_value (lower (cap_asset body)) = Some a" "r \<in> set (mw_capacity v)"
    "capacity_key r = (normalize_mm_address mm, asset_value a)" "cap_native r = cap_native body" "cap_status r = cap_status body"
    "cap_chain r = chain_value (get_chain_for_asset a)" "cap_reported_at r = me_now env (calls w)"
proof -
  obtain a where a: "asset_of_value (lower (cap_asset body)) = Some a"
    using assms by (auto simp: report_capacity_def run_defs split: option.splits if_splits)
  let ?new = "capacity_columns mm a (me_now env (calls w)) body"
  have v: "mw_capacity v = upsert_all capacity_key put_capacity [?new] (mw_capacity w)"
    using assms a by (auto simp: report_capacity_def run_defs perform_def Let_def split: option.splits if_splits)
  obtain r where r: "r \<in> set (mw_capacity v)" "r = ?new \<or> (\<exists>old. capacity_key old = capacity_key ?new \<and> r = put_capacity ?new old)"
    using capacity.upserted_present [of "[?new]" ?new "mw_capacity w"] unfolding v by auto
  show thesis
    by (rule that [OF a r(1)]) (use r(2) in \<open>auto simp: capacity_key_def capacity_columns_def put_capacity_def\<close>)
qed

section \<open>Properties\<close>

text \<open>
  C24: positions and exposure tell the same story. Asked at the same second about the same table, the open
  positions by option and the open positions by expiry cover exactly the maker's open fills: their numbers and
  their amounts have the same totals, no option and no expiry is listed twice, and expiries ascend.
\<close>

theorem positions_exposure_agree:
  assumes "get_positions env mm w = (Inr gs, v)" "get_exposure env mm w' = (Inr ex, v')" "mw_fills w' = mw_fills w"
    and "me_now env (calls w) div 1000000 = now" "me_now env (calls w') div 1000000 = now" "0 \<le> now"
    and "exact_amounts (filter (open_fill mm now) (mw_fills w))"
  shows "sum_list (map (\<lambda>g. int (pg_count g)) gs) = int (length (filter (open_fill mm now) (mw_fills w))) \<and>
    sum_list (map (\<lambda>b. int (eb_count b)) (ex_buckets ex)) = int (length (filter (open_fill mm now) (mw_fills w))) \<and>
    sum_list (map pg_amount gs) = sum_list (map mf_amount (filter (open_fill mm now) (mw_fills w))) \<and>
    sum_list (map eb_amount (ex_buckets ex)) = sum_list (map mf_amount (filter (open_fill mm now) (mw_fills w))) \<and>
    distinct (map pg_otoken gs) \<and> sorted_wrt (<) (map eb_expiry (ex_buckets ex))"
proof -
  let ?open = "filter (open_fill mm now) (mw_fills w)"
  let ?rows = "sort_key (\<lambda>r. the (mf_expiry r)) ?open"
  have gs: "gs = map snd (position_groups ?rows)" by (rule positions_are_groups [OF assms(1,4)])
  have bs: "ex_buckets ex = map snd (sort_key fst (bucket_groups ?open))"
    using exposure_buckets [OF assms(2,5)] by (simp only: open_rows [OF assms(6)] assms(3))
  have exact: "exact_amounts ?rows" using assms(7) by (simp add: exact_sort)
  have otokens: "map pg_otoken gs = map fst (position_groups ?rows)"
    unfolding gs using group_amount(3) [OF exact] by (auto simp: comp_def)
  have "map eb_expiry (ex_buckets ex) = map fst (sort_key fst (bucket_groups ?open))"
    unfolding bs using bucket_amount(3) [OF assms(7)] by (auto simp: comp_def)
  moreover have "distinct (map fst (sort_key fst (bucket_groups ?open)))"
    by (metis bucket_groups_def distinct_group_rows mset_eq_imp_distinct_iff mset_map mset_sort)
  ultimately have "sorted_wrt (<) (map eb_expiry (ex_buckets ex))"
    by (simp add: strict_sorted_iff)
  moreover have "distinct (map pg_otoken gs)"
    unfolding otokens position_groups_def by (rule distinct_group_rows)
  ultimately show ?thesis
    using groups_total [OF exact] buckets_total [OF assms(7)]
    by (simp add: gs bs sum_list_sort comp_def case_prod_unfold)
qed

definition demo_fill :: "string \<Rightarrow> int \<Rightarrow> int \<Rightarrow> mm_fill" where
  "demo_fill o' e n = \<lparr>mf_tx = ''t'', mf_chain = ''base'', mf_block = 1, mf_mm = Some demo_address, mf_otoken = o', mf_amount = n,
     mf_premium = 3, mf_gross = Some 4, mf_net = None, mf_fee = None, mf_collateral = 9, mf_user = ''u'', mf_vault = 1,
     mf_strike = Some 100, mf_expiry = Some e, mf_is_put = Some True, mf_settled = False, mf_indexed_at = 5\<rparr>"

definition demo_fills_world :: mm_world where
  "demo_fills_world = demo_mm_world\<lparr>mw_fills := [demo_fill ''a'' 3000 7, demo_fill ''b'' 2000 5, demo_fill ''a'' 3000 1, demo_fill ''c'' 900 8]\<rparr>"

lemma demo_address_lower: "normalize_mm_address demo_address = demo_address"
  by code_simp

theorem positions_exposure_agree_witness:
  "case (get_positions demo_mm_env demo_address demo_fills_world, get_exposure demo_mm_env demo_address demo_fills_world) of
     ((Inr gs, _), (Inr ex, _)) \<Rightarrow>
       sum_list (map (\<lambda>g. int (pg_count g)) gs) = 3 \<and> sum_list (map (\<lambda>b. int (eb_count b)) (ex_buckets ex)) = 3 \<and>
       sum_list (map pg_amount gs) = 13 \<and> sum_list (map eb_amount (ex_buckets ex)) = 13 \<and>
       distinct (map pg_otoken gs) \<and> sorted_wrt (<) (map eb_expiry (ex_buckets ex))
   | _ \<Rightarrow> False"
proof -
  let ?w = demo_fills_world
  have now: "me_now demo_mm_env (calls ?w) div 1000000 = 1000" by (simp add: demo_mm_env_def)
  note fills = demo_fills_world_def demo_mm_world_def demo_fill_def open_fill_def fill_of_def demo_address_lower
  have opens: "map mf_amount (filter (open_fill demo_address 1000) (mw_fills ?w)) = [7, 5, 1]"
      "length (filter (open_fill demo_address 1000) (mw_fills ?w)) = 3"
    by (simp_all add: fills)
  have exact: "exact_amounts (filter (open_fill demo_address 1000) (mw_fills ?w))"
    by (simp add: fills exact_amounts_def DECIMAL_PRECISION_def)
  have "case get_exposure demo_mm_env demo_address ?w of (Inr _, _) \<Rightarrow> True | _ \<Rightarrow> False"
    by (simp add: get_exposure_def unix_now_def run_defs perform_def demo_mm_env_def)
  moreover have "case get_positions demo_mm_env demo_address ?w of (Inr _, _) \<Rightarrow> True | _ \<Rightarrow> False"
    by (simp add: get_positions_def unix_now_def run_defs perform_def demo_fills_world_def demo_mm_world_def demo_fill_def
        demo_mm_env_def open_fill_def fill_of_def group_fill_def group_step_def new_group_def add_fill_def check_group_def demo_address_lower)
  ultimately obtain gs v ex v' where "get_positions demo_mm_env demo_address ?w = (Inr gs, v)" "get_exposure demo_mm_env demo_address ?w = (Inr ex, v')"
    by (auto split: prod.splits sum.splits)
  with positions_exposure_agree [OF this refl now now _ exact] opens show ?thesis by simp
qed

end
