(* ===== verification/Public_Market.thy ===== *)
theory Public_Market
  imports Mm_Monitor Circuit_Breaker
begin

text \<open>
  The market half of \<open>src/api/routes.py\<close>: the rate limiters, the capacity of the market, the spot price and the
  price menu with its cache, its circuit breaker and its position counts.
\<close>

section \<open>The world\<close>

text \<open>A row of \<open>order_events\<close> with the columns that users see; strikes are numbers of the database.\<close>

record pub_order =
  po_id :: string
  po_tx :: string
  po_chain :: string
  po_user :: string
  po_otoken :: string
  po_amount :: "int option"
  po_premium :: int
  po_net_premium :: "int option"
  po_strike :: "rat option"
  po_expiry :: "int option"
  po_is_put :: "bool option"
  po_asset :: string
  po_settled :: "bool option"
  po_settlement_tx :: "string option"
  po_settlement_type :: "string option"
  po_is_itm :: "bool option"
  po_delivery_tx :: "string option"
  po_group :: "string option"
  po_indexed_at :: int

datatype option_kind = CALL | PUT

record price_response =
  pr_kind :: option_kind
  pr_strike :: rat
  pr_days :: int
  pr_date :: "int option"
  pr_premium :: rat
  pr_spot :: rat
  pr_ttl :: int
  pr_expires_at :: rat
  pr_available :: rat
  pr_otoken :: "string option"
  pr_signature :: "string option"
  pr_mm :: "string option"
  pr_bid :: "int option"
  pr_deadline :: "int option"
  pr_quote_id :: "int option"
  pr_max_amount :: "int option"
  pr_nonce :: "int option"
  pr_chain :: string
  pr_count :: nat

datatype pub_call =
    PubClock | FetchCapacity asset | FetchPyth asset | FetchChainlink asset | FetchIndex asset
  | FetchQuotes asset | FetchOtokens asset | FetchCounts asset
  | FindEmail string | SaveEmail string | CountEmails | FetchPositions string string | GroupRows string

type_synonym hits = "(string \<times> int list) list"

record pub_world = "pub_call hist" +
  pw_capacity :: "capacity_row list"
  pw_quotes :: "quote_row list"
  pw_available :: "avail_row list"
  pw_orders :: "pub_order list"
  pw_emails :: "string list"
  pw_breaker :: breaker
  pw_prices :: "(string \<times> int \<times> price_response list) list"
  pw_waitlist_hits :: hits
  pw_read_hits :: hits

text \<open>
  The environment: failing calls, the clocks in microseconds, the answers of the price sources, and the settings. Every reading of the
  monotonic clock is in the history.
\<close>

record pub_env =
  pe_fails :: "pub_call list \<Rightarrow> exn option"
  pe_now :: "pub_call list \<Rightarrow> int"
  pe_monotonic :: "pub_call list \<Rightarrow> int"
  pe_price :: "pub_call list \<Rightarrow> rat \<times> int"
  pe_index :: "pub_call list \<Rightarrow> rat"
  pe_app :: app_settings
  pe_bridge :: bridge_settings
  pe_pricing :: pricing_settings
  pe_fee_bps :: int
  pe_threshold :: rat

type_synonym 'a ppy = "(pub_world, 'a) py"

abbreviation pcall :: "pub_env \<Rightarrow> pub_call \<Rightarrow> unit ppy" where
  "pcall env c \<equiv> perform (pe_fails env) c"

definition pub_now :: "pub_env \<Rightarrow> int ppy" where
  "pub_now env = getsE (\<lambda>w. pe_now env (calls w))"

definition pub_unix :: "pub_env \<Rightarrow> int ppy" where
  "pub_unix env = getsE (\<lambda>w. pe_now env (calls w) div us_second)"

definition pub_clock :: "pub_env \<Rightarrow> int ppy" where
  "pub_clock env = (\<lambda>w. (Inr (pe_monotonic env (PubClock # calls w)), w\<lparr>calls := PubClock # calls w\<rparr>))"

lemma wp_pub_clock [wps]:
  "wp (pub_clock env) Q E w = Q (pe_monotonic env (PubClock # calls w)) (w\<lparr>calls := PubClock # calls w\<rparr>)"
  by (simp add: wp_def pub_clock_def)

section \<open>Rate limits\<close>

definition MAX_TRACKED_IPS :: nat where "MAX_TRACKED_IPS = 10000"
definition WAITLIST_WINDOW :: int where "WAITLIST_WINDOW = 60 * us_second"
definition WAITLIST_MAX_REQUESTS :: nat where "WAITLIST_MAX_REQUESTS = 5"
definition READ_WINDOW :: int where "READ_WINDOW = 60 * us_second"
definition READ_MAX_REQUESTS :: nat where "READ_MAX_REQUESTS = 30"

text \<open>The proxy's header, if it is not empty, names the client; otherwise the connection does.\<close>

definition get_client_ip :: "string option \<Rightarrow> string option \<Rightarrow> string" where
  "get_client_ip forwarded host =
     (if truthy forwarded then strip (hd (split_on CHR '','' (the forwarded)))
      else case host of Some h \<Rightarrow> h | None \<Rightarrow> ''unknown'')"

text \<open>The two limiters run the same code on their own tables: whether the request may go on, and the new table.\<close>

definition evict_stale :: "int \<Rightarrow> int \<Rightarrow> hits \<Rightarrow> hits" where
  "evict_stale window now d =
     (if MAX_TRACKED_IPS < length d then filter (\<lambda>(_, v). \<not> (v = [] \<or> window \<le> now - last v)) d else d)"

definition recent_hits :: "int \<Rightarrow> int \<Rightarrow> string \<Rightarrow> hits \<Rightarrow> int list" where
  "recent_hits window now ip d = filter (\<lambda>t. now - t < window) (case map_of d ip of None \<Rightarrow> [] | Some v \<Rightarrow> v)"

definition rate_limit :: "int \<Rightarrow> nat \<Rightarrow> int \<Rightarrow> string \<Rightarrow> hits \<Rightarrow> bool \<times> hits" where
  "rate_limit window max_requests now ip d =
     (let d = evict_stale window now d; recent = recent_hits window now ip d in
      if max_requests \<le> length recent then (False, dict_put ip recent d) else (True, dict_put ip (recent @ [now]) d))"

definition TOO_MANY :: exn where "TOO_MANY = HTTPException 429 ''Too many requests, try again later''"

definition check_rate_limit :: "pub_env \<Rightarrow> string \<Rightarrow> unit ppy" where
  "check_rate_limit env ip =
     bindE (pub_clock env) (\<lambda>now.
     bindE (getsE (\<lambda>w. rate_limit WAITLIST_WINDOW WAITLIST_MAX_REQUESTS now ip (pw_waitlist_hits w))) (\<lambda>(ok, d).
     thenE (modifyE (\<lambda>w. w\<lparr>pw_waitlist_hits := d\<rparr>)) (if ok then ret () else raise TOO_MANY)))"

definition check_read_rate_limit :: "pub_env \<Rightarrow> string \<Rightarrow> unit ppy" where
  "check_read_rate_limit env ip =
     bindE (pub_clock env) (\<lambda>now.
     bindE (getsE (\<lambda>w. rate_limit READ_WINDOW READ_MAX_REQUESTS now ip (pw_read_hits w))) (\<lambda>(ok, d).
     thenE (modifyE (\<lambda>w. w\<lparr>pw_read_hits := d\<rparr>)) (if ok then ret () else raise TOO_MANY)))"

section \<open>Capacity\<close>

definition CAPACITY_STALE_SECONDS :: int where "CAPACITY_STALE_SECONDS = 120"

definition fresh_capacity :: "asset \<Rightarrow> int \<Rightarrow> capacity_row \<Rightarrow> bool" where
  "fresh_capacity a now r \<longleftrightarrow> cap_asset r = asset_value a \<and> cap_chain r = chain_value (get_chain_for_asset a) \<and>
     now - CAPACITY_STALE_SECONDS * us_second \<le> cap_reported_at r"

definition fetch_capacity_rows :: "pub_env \<Rightarrow> asset \<Rightarrow> capacity_row list ppy" where
  "fetch_capacity_rows env a =
     bindE (pub_now env) (\<lambda>now. thenE (pcall env (FetchCapacity a)) (getsE (\<lambda>w. filter (fresh_capacity a now) (pw_capacity w))))"

definition ensure_asset_visible :: "pub_env \<Rightarrow> asset \<Rightarrow> unit ppy" where
  "ensure_asset_visible env a =
     (if is_asset_visible (pe_app env) (asset_value a) then ret ()
      else raise (HTTPException 404 (map upper_char (asset_value a) @ '' market data is not available in this environment'')))"

record capacity_view =
  cv_native :: rat
  cv_usd :: rat
  cv_open :: bool
  cv_status :: string
  cv_max :: rat
  cv_count :: nat
  cv_updated :: int

text \<open>The totals and the largest single capacity; a market maker that is full adds nothing.\<close>

definition capacity_step :: "rat \<times> rat \<times> rat \<Rightarrow> capacity_row \<Rightarrow> rat \<times> rat \<times> rat" where
  "capacity_step = (\<lambda>(native, usd, largest) r.
     if cap_status r = ''full'' then (native, usd, largest)
     else (fl (native + cap_native r), fl (usd + cap_usd r), max largest (cap_native r)))"

definition market_status :: "capacity_row list \<Rightarrow> string" where
  "market_status rows =
     (if list_ex (\<lambda>r. cap_status r = ''active'') rows then ''active''
      else if list_ex (\<lambda>r. cap_status r = ''degraded'') rows then ''degraded''
      else ''full'')"

definition aggregate_capacity :: "int \<Rightarrow> capacity_row list \<Rightarrow> capacity_view" where
  "aggregate_capacity now rows =
     (if rows = [] then
        \<lparr>cv_native = 0, cv_usd = 0, cv_open = False, cv_status = ''full'', cv_max = 0, cv_count = 0, cv_updated = now\<rparr>
      else (case foldl capacity_step (0, 0, 0) rows of (native, usd, largest) \<Rightarrow>
        \<lparr>cv_native = native, cv_usd = usd, cv_open = market_status rows \<noteq> ''full'', cv_status = market_status rows,
         cv_max = largest, cv_count = length rows, cv_updated = fold max (map cap_reported_at rows) (cap_reported_at (hd rows))\<rparr>))"

definition get_capacity :: "pub_env \<Rightarrow> asset \<Rightarrow> capacity_view ppy" where
  "get_capacity env a =
     thenE (ensure_asset_visible env a)
     (bindE (catchE (fetch_capacity_rows env a) (\<lambda>_. raise (HTTPException 502 ''Capacity data unavailable''))) (\<lambda>rows.
      bindE (pub_now env) (\<lambda>now. ret (aggregate_capacity now rows))))"

section \<open>Spot prices\<close>

definition read_spot_price :: "pub_env \<Rightarrow> asset \<Rightarrow> (rat \<times> int) ppy" where
  "read_spot_price env a =
     (if get_chain_for_asset a = SOLANA then thenE (pcall env (FetchPyth a)) (getsE (\<lambda>w. pe_price env (calls w)))
      else catchE (thenE (pcall env (FetchChainlink a)) (getsE (\<lambda>w. pe_price env (calls w)))) (\<lambda>e.
        if \<not> has_deribit (asset_configs a) then raise e
        else thenE (pcall env (FetchIndex a)) (getsE (\<lambda>w. (pe_index env (calls w), pe_now env (calls w) div us_second)))))"

definition get_spot :: "pub_env \<Rightarrow> asset \<Rightarrow> (rat \<times> int) ppy" where
  "get_spot env a =
     thenE (ensure_asset_visible env a)
       (catchE (read_spot_price env a)
         (\<lambda>_. raise (HTTPException 502 (''Could not fetch '' @ map upper_char (asset_value a) @ '' spot''))))"

section \<open>Quotes\<close>

definition PRICES_TTL :: int where "PRICES_TTL = 15"
definition MIN_QUOTE_TTL :: int where "MIN_QUOTE_TTL = PRICES_TTL"

definition fetch_valid_otoken_addresses :: "pub_env \<Rightarrow> asset \<Rightarrow> string list ppy" where
  "fetch_valid_otoken_addresses env a =
     catchE (thenE (pcall env (FetchOtokens a))
       (getsE (\<lambda>w. map av_address (filter (\<lambda>r. av_chain r = chain_value (get_chain_for_asset a)) (pw_available w)))))
     (\<lambda>_. raise (HTTPException 502 ''Quote validation data unavailable''))"

text \<open>The query with the smallest cut-off, and the cut-off of each quote's own expiry.\<close>

definition queried_quote :: "pricing_settings \<Rightarrow> asset \<Rightarrow> int \<Rightarrow> quote_row \<Rightarrow> bool" where
  "queried_quote st a now q \<longleftrightarrow> qr_active q \<and> qr_asset q = asset_value a \<and> qr_chain q = chain_value (get_chain_for_asset a) \<and>
     now + MIN_QUOTE_TTL < qr_deadline q \<and>
     (case qr_expiry q of None \<Rightarrow> False | Some e \<Rightarrow> now + short_expiry_cutoff_hours st * 3600 < e)"

definition beyond_cutoff :: "pricing_settings \<Rightarrow> int \<Rightarrow> quote_row \<Rightarrow> bool" where
  "beyond_cutoff st now q \<longleftrightarrow> (let e = the (qr_expiry q) in now + cutoff_hours_for_expiry st e now * 3600 < e)"

definition fetch_active_quotes :: "pub_env \<Rightarrow> asset \<Rightarrow> quote_row list ppy" where
  "fetch_active_quotes env a =
     bindE (pub_unix env) (\<lambda>now.
     thenE (pcall env (FetchQuotes a))
       (getsE (\<lambda>w. filter (beyond_cutoff (pe_pricing env) now) (filter (queried_quote (pe_pricing env) a now) (pw_quotes w)))))"

type_synonym option_key = "rat option \<times> int option \<times> bool option"

definition option_of :: "quote_row \<Rightarrow> option_key" where
  "option_of q = (qr_strike q, qr_expiry q, qr_is_put q)"

definition bid_of :: "quote_row \<Rightarrow> rat" where
  "bid_of q = float_of (qr_bid q)"

definition best_step :: "(option_key \<times> quote_row) list \<Rightarrow> quote_row \<Rightarrow> (option_key \<times> quote_row) list" where
  "best_step d q =
     (case map_of d (option_of q) of
        None \<Rightarrow> dict_put (option_of q) q d
      | Some b \<Rightarrow> if bid_of b < bid_of q then dict_put (option_of q) q d else d)"

definition best_quotes_by_otoken :: "quote_row list \<Rightarrow> quote_row list" where
  "best_quotes_by_otoken qs = map snd (foldl best_step [] qs)"

section \<open>Position counts\<close>

type_synonym count_key = "rat \<times> bool option \<times> int"

definition counted_order :: "asset \<Rightarrow> int \<Rightarrow> pub_order \<Rightarrow> bool" where
  "counted_order a now r \<longleftrightarrow> po_asset r = asset_value a \<and> po_chain r = chain_value (get_chain_for_asset a) \<and>
     elem (po_settled r) [Some False, None] \<and> (case po_expiry r of None \<Rightarrow> False | Some e \<Rightarrow> now < e)"

text \<open>Rows without a strike are skipped.\<close>

definition count_key :: "pub_order \<Rightarrow> count_key option" where
  "count_key r = map_option (\<lambda>k. (fl (fl k / 10 ^ 8), po_is_put r, the (po_expiry r))) (po_strike r)"

definition position_counts :: "pub_order list \<Rightarrow> (count_key \<times> nat) list" where
  "position_counts rows = group_rows (\<lambda>k. k) (\<lambda>_. 0) (\<lambda>n _. n + 1) (List.map_filter count_key rows)"

definition fetch_position_counts :: "pub_env \<Rightarrow> asset \<Rightarrow> (count_key \<times> nat) list ppy" where
  "fetch_position_counts env a =
     bindE (pub_unix env) (\<lambda>now.
     catchE (thenE (pcall env (FetchCounts a)) (getsE (\<lambda>w. position_counts (filter (counted_order a now) (pw_orders w)))))
       (\<lambda>_. ret []))"

section \<open>The price menu\<close>

definition price_days :: "int \<Rightarrow> int option \<Rightarrow> int" where
  "price_days now expiry = (case expiry of None \<Rightarrow> 0 | Some e \<Rightarrow> if e = 0 then 0 else max 1 \<lceil>fl (of_int (e - now) / 86400)\<rceil>)"

text \<open>\<open>None\<close> when the expiry is no date, which the handler of the conversion turns into no price.\<close>

definition quote_to_price_response :: "int \<Rightarrow> int \<Rightarrow> quote_row \<Rightarrow> price_response option" where
  "quote_to_price_response fee_bps now q =
     (let premium = fl (fl (of_int (qr_bid q) / 10 ^ 6) * fl (of_int (10000 - fee_bps) / 10000));
          e = (case qr_expiry q of None \<Rightarrow> 0 | Some e \<Rightarrow> e) in
      if (case ts_to_iso e of Inl _ \<Rightarrow> True | Inr _ \<Rightarrow> False) then None
      else Some \<lparr>pr_kind = (if qr_is_put q = Some True then PUT else CALL),
        pr_strike = (case qr_strike q of None \<Rightarrow> 0 | Some k \<Rightarrow> k), pr_days = price_days now (qr_expiry q),
        pr_date = (if e = 0 then None else Some (e div 86400)), pr_premium = premium, pr_spot = 0, pr_ttl = max 0 (qr_deadline q - now),
        pr_expires_at = float_of (qr_deadline q), pr_available = fl (of_int (qr_max_amount q) / 10 ^ 8),
        pr_otoken = Some (qr_otoken q), pr_signature = Some (qr_signature q), pr_mm = Some (qr_mm q), pr_bid = Some (qr_bid q),
        pr_deadline = Some (qr_deadline q), pr_quote_id = Some (qr_quote_id q), pr_max_amount = Some (qr_max_amount q),
        pr_nonce = Some (qr_nonce q), pr_chain = qr_chain q, pr_count = 0\<rparr>)"

definition strip_trade_fields :: "price_response \<Rightarrow> price_response" where
  "strip_trade_fields p = p\<lparr>pr_otoken := None, pr_signature := None, pr_mm := None, pr_bid := None, pr_deadline := None,
     pr_quote_id := None, pr_max_amount := None, pr_nonce := None\<rparr>"

definition decorate_price :: "rat \<Rightarrow> bool \<Rightarrow> price_response \<Rightarrow> price_response" where
  "decorate_price spot tradable p =
     (let p = (if 0 < spot then p\<lparr>pr_spot := spot\<rparr> else p) in if tradable then p else strip_trade_fields p)"

text \<open>The prices, and under the key of each the index at which it stands.\<close>

definition visible_key :: "price_response \<Rightarrow> quote_row \<Rightarrow> count_key" where
  "visible_key p q = (pr_strike p, Some (pr_kind p = PUT), the (qr_expiry q))"

definition menu_step ::
  "int \<Rightarrow> int \<Rightarrow> rat \<Rightarrow> bool \<Rightarrow> price_response list \<times> (count_key \<times> nat) list \<Rightarrow> quote_row \<Rightarrow> price_response list \<times> (count_key \<times> nat) list" where
  "menu_step fee_bps now spot tradable = (\<lambda>(menu, visible) q.
     case quote_to_price_response fee_bps now q of
       None \<Rightarrow> (menu, visible)
     | Some p \<Rightarrow> (menu @ [decorate_price spot tradable p], dict_put (visible_key p q) (length menu) visible))"

definition price_menu :: "int \<Rightarrow> int \<Rightarrow> rat \<Rightarrow> bool \<Rightarrow> quote_row list \<Rightarrow> price_response list \<times> (count_key \<times> nat) list" where
  "price_menu fee_bps now spot tradable qs = foldl (menu_step fee_bps now spot tradable) ([], []) qs"

text \<open>\<open>min(xs, key=f)\<close>: the first of the smallest.\<close>

fun min_by :: "('a \<Rightarrow> int) \<Rightarrow> 'a \<Rightarrow> 'a list \<Rightarrow> 'a" where
  "min_by f x [] = x"
| "min_by f x (y # ys) = min_by f (if f y < f x then y else x) ys"

text \<open>The index that a group of positions is counted at: its own, or that of the nearest expiry of the same strike and type.\<close>

definition rollup_index :: "(count_key \<times> nat) list \<Rightarrow> count_key \<Rightarrow> nat option" where
  "rollup_index visible = (\<lambda>(strike, is_put, expiry).
     (case map_of visible (strike, is_put, expiry) of
        Some i \<Rightarrow> Some i
      | None \<Rightarrow>
          (case filter (\<lambda>((s, p, _), _). s = strike \<and> p = is_put) visible of
             [] \<Rightarrow> None
           | c # cs \<Rightarrow> Some (snd (min_by (\<lambda>((_, _, e), _). \<bar>e - expiry\<bar>) c cs)))))"

definition roll_up :: "(count_key \<times> nat) list \<Rightarrow> nat list \<Rightarrow> count_key \<times> nat \<Rightarrow> nat list" where
  "roll_up visible merged = (\<lambda>(k, n). case rollup_index visible k of None \<Rightarrow> merged | Some i \<Rightarrow> merged[i := merged ! i + n])"

definition merged_counts :: "(count_key \<times> nat) list \<Rightarrow> (count_key \<times> nat) list \<Rightarrow> nat \<Rightarrow> nat list" where
  "merged_counts visible counts n = foldl (roll_up visible) (replicate n 0) counts"

definition ACTIVITY_MULTIPLIER :: nat where "ACTIVITY_MULTIPLIER = 1"

definition counted_menu :: "price_response list \<times> (count_key \<times> nat) list \<Rightarrow> (count_key \<times> nat) list \<Rightarrow> price_response list" where
  "counted_menu = (\<lambda>(menu, visible) counts.
     map2 (\<lambda>p n. p\<lparr>pr_count := n * ACTIVITY_MULTIPLIER\<rparr>) menu (merged_counts visible counts (length menu)))"

definition cache_key :: "asset \<Rightarrow> bool \<Rightarrow> string" where
  "cache_key a tradable = asset_value a @ (if tradable then '':tradable'' else '':readonly'')"

definition paused_error :: "asset \<Rightarrow> breaker \<Rightarrow> exn" where
  "paused_error a b = HTTPException 503 (''Pricing paused: '' @ (case pause_reason_for (asset_value a) b of None \<Rightarrow> ''None'' | Some r \<Rightarrow> r))"

text \<open>A paused breaker is resumed at the spot price; without one the request ends.\<close>

definition heal_breaker :: "pub_env \<Rightarrow> asset \<Rightarrow> rat option \<Rightarrow> unit ppy" where
  "heal_breaker env a spot =
     bindE (getsE pw_breaker) (\<lambda>b.
     bindE (pub_now env) (\<lambda>now.
       if \<not> is_paused_for (asset_value a) b then ret ()
       else case spot of
         None \<Rightarrow> raise (paused_error a b)
       | Some s \<Rightarrow> modifyE (\<lambda>w. w\<lparr>pw_breaker := resume now s (asset_value a) b\<rparr>)))"

definition run_breaker :: "pub_env \<Rightarrow> asset \<Rightarrow> rat \<Rightarrow> unit ppy" where
  "run_breaker env a spot =
     bindE (getsE pw_breaker) (\<lambda>b.
     bindE (pub_now env) (\<lambda>now.
       case check (pe_threshold env) now spot (asset_value a) b of
         (r, b') \<Rightarrow> thenE (modifyE (\<lambda>w. w\<lparr>pw_breaker := b'\<rparr>))
           (bindE (liftE r) (\<lambda>tripped.
              if tripped then raise (paused_error a b')
              else modifyE (\<lambda>w. w\<lparr>pw_breaker := update_reference now spot (asset_value a) b'\<rparr>)))))"

definition cached_menu :: "string \<Rightarrow> int \<Rightarrow> pub_world \<Rightarrow> price_response list option" where
  "cached_menu key now w =
     (case map_of (pw_prices w) key of
        None \<Rightarrow> None
      | Some (at_time, menu) \<Rightarrow> if now - at_time < PRICES_TTL * us_second then Some menu else None)"

text \<open>The menu built from the quotes whose token is published, stored in the cache with the time after it was built.\<close>

definition build_menu :: "pub_env \<Rightarrow> asset \<Rightarrow> bool \<Rightarrow> rat \<Rightarrow> quote_row list \<Rightarrow> price_response list ppy" where
  "build_menu env a tradable spot quotes =
     thenE (run_breaker env a spot)
     (bindE (fetch_position_counts env a) (\<lambda>counts.
      bindE (pub_unix env) (\<lambda>now.
      let menu = counted_menu (price_menu (pe_fee_bps env) now spot tradable (best_quotes_by_otoken quotes)) counts in
      bindE (pub_clock env) (\<lambda>t.
      thenE (modifyE (\<lambda>w. w\<lparr>pw_prices := dict_put (cache_key a tradable) (t, menu) (pw_prices w)\<rparr>))
        (ret menu)))))"

definition fresh_menu :: "pub_env \<Rightarrow> asset \<Rightarrow> bool \<Rightarrow> rat \<Rightarrow> price_response list ppy" where
  "fresh_menu env a tradable spot =
     bindE (catchE (fetch_active_quotes env a) (\<lambda>_. raise (HTTPException 502 ''Quote data unavailable''))) (\<lambda>quotes.
       if quotes = [] then ret []
       else
         bindE (fetch_valid_otoken_addresses env a) (\<lambda>valid.
         let known = filter (\<lambda>q. elem (qr_otoken q) valid) quotes in
           if known = [] then ret [] else build_menu env a tradable spot known))"

definition cached_or_fresh :: "pub_env \<Rightarrow> asset \<Rightarrow> bool \<Rightarrow> rat option \<Rightarrow> price_response list ppy" where
  "cached_or_fresh env a tradable spot =
     bindE (pub_clock env) (\<lambda>now.
     bindE (getsE (cached_menu (cache_key a tradable) now)) (\<lambda>cached. case cached of
       Some menu \<Rightarrow> ret menu
     | None \<Rightarrow> (case spot of
         None \<Rightarrow> raise (HTTPException 503 ''Spot price unavailable'')
       | Some s \<Rightarrow> fresh_menu env a tradable s)))"

definition spot_read :: "exn + rat \<times> int \<Rightarrow> rat option" where
  "spot_read r = (case r of Inl _ \<Rightarrow> None | Inr (s, _) \<Rightarrow> Some s)"

definition get_prices :: "pub_env \<Rightarrow> asset \<Rightarrow> price_response list ppy" where
  "get_prices env a =
     thenE (ensure_asset_visible env a)
     (bindE (tryE (read_spot_price env a)) (\<lambda>read.
      thenE (heal_breaker env a (spot_read read))
        (cached_or_fresh env a (is_asset_tradable (pe_app env) (asset_value a)) (spot_read read))))"

end
