(* ===== verification/Public_Positions.thy ===== *)
theory Public_Positions
  imports Public_Market
begin

text \<open>
  The user half of \<open>src/api/routes.py\<close>: the waiting list, the outcome of a position, the positions of a wallet and of a user
  on both chains, the grouping of positions, and balances.
\<close>

section \<open>The waiting list\<close>

text \<open>
  The request's validator has put the address in lower case. The table is the list of its addresses; an upsert of a
  known one changes nothing.
\<close>

record waitlist_response =
  wr_ok :: bool
  wr_new :: bool

definition join_waitlist :: "pub_env \<Rightarrow> string \<Rightarrow> string \<Rightarrow> waitlist_response ppy" where
  "join_waitlist env ip email =
     (let e = lower email in
      thenE (check_rate_limit env ip)
      (bindE (catchE (thenE (pcall env (FindEmail e)) (getsE (\<lambda>w. \<not> elem e (pw_emails w))))
                (\<lambda>_. raise (HTTPException 502 ''Could not save to waitlist''))) (\<lambda>is_new.
       thenE (catchE (thenE (pcall env (SaveEmail e)) (modifyE (\<lambda>w. if elem e (pw_emails w) then w else w\<lparr>pw_emails := pw_emails w @ [e]\<rparr>)))
                (\<lambda>_. raise (HTTPException 502 ''Could not save to waitlist'')))
         (ret \<lparr>wr_ok = True, wr_new = is_new\<rparr>))))"

definition get_waitlist_count :: "pub_env \<Rightarrow> string \<Rightarrow> nat ppy" where
  "get_waitlist_count env ip =
     thenE (check_read_rate_limit env ip)
       (catchE (thenE (pcall env CountEmails) (getsE (\<lambda>w. length (pw_emails w))))
         (\<lambda>_. raise (HTTPException 502 ''Could not fetch waitlist count'')))"

section \<open>Outcomes\<close>

text \<open>\<open>f"{x:.4f}"\<close> and \<open>f"{x:,.0f}"\<close>.\<close>

fun pad_digits :: "nat \<Rightarrow> nat \<Rightarrow> string" where
  "pad_digits 0 n = []"
| "pad_digits (Suc k) n = pad_digits k (n div 10) @ [digit_char (n mod 10)]"

definition fixed4 :: "rat \<Rightarrow> string" where
  "fixed4 x = (let n = nat (py_round (\<bar>x\<bar> * 10000)) in (if x < 0 then ''-'' else []) @ nat_str (n div 10000) @ ''.'' @ pad_digits 4 (n mod 10000))"

fun group_thousands :: "string \<Rightarrow> string" where
  "group_thousands (a # b # c # d # ds) = a # b # c # CHR '','' # group_thousands (d # ds)"
| "group_thousands ds = ds"

definition comma0 :: "rat \<Rightarrow> string" where
  "comma0 x = (let n = nat (py_round \<bar>x\<bar>) in (if x < 0 then ''-'' else []) @ rev (group_thousands (rev (nat_str n))))"

definition PHYSICAL_UNKNOWN :: string where "PHYSICAL_UNKNOWN = ''Settled (physical) - details unavailable''"

text \<open>The dash of the messages is written as a hyphen.\<close>

definition compute_outcome :: "pub_order \<Rightarrow> string option" where
  "compute_outcome r =
     (if po_settled r \<noteq> Some True then None
      else if po_is_itm r = Some True then
        (if po_settlement_type r = Some ''physical'' then
           (case (po_strike r, po_amount r, po_is_put r) of
              (Some strike, Some amount, Some is_put) \<Rightarrow>
                (let amount_human = fl (float_of amount / 10 ^ 8); strike_human = fl (float_of (py_trunc strike) / 10 ^ 8) in
                 Some ((if is_put then ''Bought '' else ''Sold '') @ fixed4 amount_human @ '' '' @ map upper_char (po_asset r) @ '' @ $'' @ comma0 strike_human))
            | _ \<Rightarrow> Some PHYSICAL_UNKNOWN)
         else if po_settlement_type r = Some ''physical_failed'' then Some ''Expired ITM - delivery failed, pending review''
         else Some ''Expired ITM - cash settled'')
      else Some ''Expired OTM - collateral returned'')"

section \<open>Positions\<close>

record position_view =
  pv_row :: pub_order
  pv_outcome :: "string option"
  pv_premium :: int
  pv_tx_url :: "string option"
  pv_settlement_url :: "string option"
  pv_delivery_url :: "string option"

definition enrich_position :: "pub_env \<Rightarrow> pub_order \<Rightarrow> position_view" where
  "enrich_position env r =
     (let url = (\<lambda>tx. tx_explorer_url (pe_app env) (pe_bridge env) tx (Some (po_chain r))) in
      \<lparr>pv_row = r, pv_outcome = compute_outcome r,
       pv_premium = (case po_net_premium r of None \<Rightarrow> po_premium r | Some p \<Rightarrow> p),
       pv_tx_url = url (Some (po_tx r)), pv_settlement_url = url (po_settlement_tx r), pv_delivery_url = url (po_delivery_tx r)\<rparr>)"

text \<open>The rows of a wallet on a chain, the latest first.\<close>

definition positions_of :: "string \<Rightarrow> string \<Rightarrow> pub_order list \<Rightarrow> pub_order list" where
  "positions_of user chain rows = sort_key (\<lambda>r. - po_indexed_at r) (filter (\<lambda>r. po_user r = user \<and> po_chain r = chain) rows)"

definition fetch_positions :: "pub_env \<Rightarrow> string \<Rightarrow> string \<Rightarrow> pub_order list ppy" where
  "fetch_positions env user chain = thenE (pcall env (FetchPositions user chain)) (getsE (\<lambda>w. positions_of user chain (pw_orders w)))"

definition wallet_positions :: "pub_env \<Rightarrow> string \<Rightarrow> string \<Rightarrow> position_view list ppy" where
  "wallet_positions env ip address =
     thenE (check_read_rate_limit env ip)
       (case detect_chain address of
          Inl _ \<Rightarrow> raise (HTTPException 400 ''Invalid address. Expected 0x hex (Base) or base58 (Solana).'')
        | Inr chain \<Rightarrow>
            bindE (catchE (fetch_positions env (if chain = BASE then lower address else address) (chain_value chain))
                     (\<lambda>_. raise (HTTPException 502 ''Could not fetch positions''))) (\<lambda>rows. ret (map (enrich_position env) rows)))"

text \<open>
  The positions of a user on both chains: an answer, and the chains that failed. An invalid Solana address ends the request even after
  the Base positions have been read.
\<close>

definition chain_positions ::
  "pub_env \<Rightarrow> string \<Rightarrow> string option \<Rightarrow> (string \<Rightarrow> bool) \<Rightarrow> (string \<Rightarrow> string) \<Rightarrow> string \<Rightarrow>
   position_view list \<times> string list \<Rightarrow> (position_view list \<times> string list) ppy" where
  "chain_positions env chain address valid normal field = (\<lambda>(positions, errs).
     if \<not> truthy address then ret (positions, errs)
     else if \<not> valid (the address) then raise (HTTPException 400 (''Invalid '' @ field))
     else bindE (tryE (fetch_positions env (normal (the address)) chain)) (\<lambda>r. case r of
       Inl _ \<Rightarrow> ret (positions, errs @ [chain])
     | Inr rows \<Rightarrow> ret (positions @ map (enrich_position env) rows, errs)))"

definition get_positions_by_user ::
  "pub_env \<Rightarrow> string \<Rightarrow> string option \<Rightarrow> string option \<Rightarrow> (position_view list \<times> string list) ppy" where
  "get_positions_by_user env ip base_address solana_address =
     thenE (check_read_rate_limit env ip)
       (if \<not> truthy base_address \<and> \<not> truthy solana_address
        then raise (HTTPException 400 ''At least one of base_address or solana_address is required'')
        else
          bindE (chain_positions env ''base'' base_address eth_address_re lower ''base_address'' ([], [])) (\<lambda>found.
          bindE (chain_positions env ''solana'' solana_address is_valid_solana_address id ''solana_address'' found) (\<lambda>(positions, errs).
            if positions = [] \<and> errs \<noteq> [] then raise (HTTPException 502 ''Could not fetch positions from any chain'')
            else ret (positions, errs))))"

section \<open>Groups of positions\<close>

text \<open>
  \<open>uuid.UUID(s)\<close>: the prefixes \<open>urn:\<close> and \<open>uuid:\<close>, braces and hyphens are removed; 32 characters must remain, which \<open>int(h, 16)\<close>
  reads as a number that is not negative.
\<close>

fun remove_all :: "string \<Rightarrow> nat \<Rightarrow> string \<Rightarrow> string" where
  "remove_all p (Suc skip) (c # cs) = remove_all p skip cs"
| "remove_all p 0 (c # cs) = (if starts_with (c # cs) p then remove_all p (length p - 1) cs else c # remove_all p 0 cs)"
| "remove_all p n [] = []"

fun hex_digits :: "nat \<Rightarrow> string \<Rightarrow> nat option" where
  "hex_digits acc [] = Some acc"
| "hex_digits acc (c # cs) =
     (if c = CHR ''_'' then
        (case cs of [] \<Rightarrow> None | d # ds \<Rightarrow> (case hex_val d of None \<Rightarrow> None | Some v \<Rightarrow> hex_digits (16 * acc + v) ds))
      else (case hex_val c of None \<Rightarrow> None | Some v \<Rightarrow> hex_digits (16 * acc + v) cs))"

definition hex_nat :: "string \<Rightarrow> nat option" where
  "hex_nat s =
     (let t = (if starts_with s ''0x'' \<or> starts_with s ''0X'' then drop 2 s else s);
          t = (if t \<noteq> s \<and> starts_with t ''_'' then drop 1 t else t) in
      if t = [] \<or> starts_with t ''_'' then None else hex_digits 0 t)"

definition valid_uuid :: "string \<Rightarrow> bool" where
  "valid_uuid s \<longleftrightarrow>
     (let brace = (\<lambda>c. c = CHR ''{'' \<or> c = CHR ''}''); t = remove_all ''uuid:'' 0 (remove_all ''urn:'' 0 s);
          h = filter (\<lambda>c. c \<noteq> CHR ''-'') (rev (dropWhile brace (rev (dropWhile brace t)))) in
      length h = 32 \<and>
      (case strip h of
         [] \<Rightarrow> False
       | c # cs \<Rightarrow> if c = CHR ''-'' then hex_nat cs = Some 0 else if c = CHR ''+'' then hex_nat cs \<noteq> None else hex_nat (c # cs) \<noteq> None))"

record group_request =
  gr_group :: string
  gr_txs :: "string list"
  gr_user :: string

definition groupable :: "group_request \<Rightarrow> pub_order \<Rightarrow> bool" where
  "groupable body r \<longleftrightarrow> po_user r = lower (gr_user body) \<and> po_group r = None \<and> elem (po_tx r) (map lower (gr_txs body))"

definition check_group_request :: "group_request \<Rightarrow> exn + unit" where
  "check_group_request body =
     (if length (gr_txs body) < 2 \<or> 10 < length (gr_txs body) then Inl (HTTPException 400 ''tx_hashes must contain 2-10 entries'')
      else if \<not> valid_uuid (gr_group body) then Inl (HTTPException 400 ''group_id must be a valid UUID'')
      else if \<not> eth_address_re (gr_user body) then
        Inl (HTTPException 400 (if is_valid_solana_address (gr_user body) then ''Position grouping is not yet supported for Solana'' else ''Invalid user_address''))
      else (case find (\<lambda>tx. \<not> hex_re 64 tx) (gr_txs body) of
        Some tx \<Rightarrow> Inl (HTTPException 400 (''Invalid tx hash: '' @ tx))
      | None \<Rightarrow> Inr ()))"

definition group_positions :: "pub_env \<Rightarrow> string \<Rightarrow> group_request \<Rightarrow> nat ppy" where
  "group_positions env ip body =
     thenE (check_read_rate_limit env ip)
     (thenE (liftE (check_group_request body))
     (bindE (catchE
        (thenE (pcall env (GroupRows (gr_group body)))
        (bindE (getsE (\<lambda>w. length (filter (groupable body) (pw_orders w)))) (\<lambda>n.
         thenE (modifyE (\<lambda>w. w\<lparr>pw_orders := tbl_update (groupable body) (\<lambda>r. r\<lparr>po_group := Some (gr_group body)\<rparr>) (pw_orders w)\<rparr>)) (ret n))))
        (\<lambda>_. raise (HTTPException 502 ''Could not update positions''))) (\<lambda>updated.
        if updated = 0 then raise (HTTPException 404 ''No matching ungrouped positions found'')
        else if updated \<noteq> length (gr_txs body) then
          raise (HTTPException 409 (''Expected '' @ nat_str (length (gr_txs body)) @ '' positions but found '' @ nat_str updated @
            ''. Some tx hashes may not be indexed yet.''))
        else ret updated)))"

section \<open>Balances\<close>

text \<open>The token accounts that are read on each chain, with the answers of the chain clients.\<close>

record balance_env =
  ba_fails :: "pub_call list \<Rightarrow> string \<Rightarrow> string \<Rightarrow> bool"
  ba_amount :: "pub_call list \<Rightarrow> string \<Rightarrow> string \<Rightarrow> int"
  ba_usdc_mint :: string
  ba_wsol_mint :: string
  ba_tslax_mint :: string

definition solana_tokens :: "pub_env \<Rightarrow> balance_env \<Rightarrow> string list" where
  "solana_tokens env be =
     ''sol'' # (if ba_usdc_mint be \<noteq> [] then [''usdc''] else []) @ (if ba_wsol_mint be \<noteq> [] then [''wsol''] else []) @
     (if ba_tslax_mint be \<noteq> [] \<and> is_asset_visible (pe_app env) ''tslax'' then [''tslax''] else [])"

definition chain_balances ::
  "balance_env \<Rightarrow> string \<Rightarrow> string option \<Rightarrow> (string \<Rightarrow> bool) \<Rightarrow> string \<Rightarrow> string list \<Rightarrow>
   (string \<times> (string \<times> int) list) list \<times> string list \<Rightarrow> ((string \<times> (string \<times> int) list) list \<times> string list) ppy" where
  "chain_balances be chain address valid field tokens = (\<lambda>(balances, errs).
     if \<not> truthy address then ret (balances, errs)
     else if \<not> valid (the address) then raise (HTTPException 400 (''Invalid '' @ field))
     else bindE (getsE calls) (\<lambda>h.
       if list_ex (ba_fails be h (the address)) tokens then ret (balances, errs @ [chain])
       else ret (balances @ [(chain, map (\<lambda>t. (t, ba_amount be h (the address) t)) tokens)], errs)))"

definition get_balances ::
  "pub_env \<Rightarrow> balance_env \<Rightarrow> string \<Rightarrow> string option \<Rightarrow> string option \<Rightarrow> ((string \<times> (string \<times> int) list) list \<times> string list) ppy" where
  "get_balances env be ip base_address solana_address =
     thenE (check_read_rate_limit env ip)
       (if \<not> truthy base_address \<and> \<not> truthy solana_address
        then raise (HTTPException 400 ''At least one of base_address or solana_address is required'')
        else
          bindE (chain_balances be ''base'' base_address eth_address_re ''base_address'' [''usdc'', ''weth'', ''eth''] ([], [])) (\<lambda>found.
          bindE (chain_balances be ''solana'' solana_address is_valid_solana_address ''solana_address'' (solana_tokens env be) found) (\<lambda>(balances, errs).
            if balances = [] \<and> errs \<noteq> [] then raise (HTTPException 502 ''Could not read balances from any chain'')
            else ret (balances, errs))))"

end
