(* ===== verification/Public_Safety.thy ===== *)
theory Public_Safety
  imports Public_Positions
begin

text \<open>
  What the public API guarantees: the rate limits are exact, the price menu shows live quotes and the best bids, every counted position is
  shown once, and positions belong to who asks; and three ways in which it fails its users.
\<close>

section \<open>Rate limits\<close>

text \<open>The requests accepted so far, in their order, and the limiter's table.\<close>

definition serve :: "int \<Rightarrow> nat \<Rightarrow> string \<times> int \<Rightarrow> (string \<times> int) list \<times> hits \<Rightarrow> (string \<times> int) list \<times> hits" where
  "serve window m = (\<lambda>(ip, t) (accepted, d).
     case rate_limit window m t ip d of (ok, d') \<Rightarrow> (if ok then accepted @ [(ip, t)] else accepted, d'))"

definition served :: "int \<Rightarrow> nat \<Rightarrow> (string \<times> int) list \<Rightarrow> (string \<times> int) list \<times> hits" where
  "served window m requests = fold (serve window m) requests ([], [])"

definition times_of :: "string \<Rightarrow> (string \<times> int) list \<Rightarrow> int list" where
  "times_of ip xs = map snd (filter (\<lambda>(k, _). k = ip) xs)"

definition hits_ok :: "int \<Rightarrow> hits \<Rightarrow> bool" where
  "hits_ok now d \<longleftrightarrow> distinct (map fst d) \<and> (\<forall>(k, v) \<in> set d. sorted v \<and> (\<forall>t \<in> set v. t \<le> now))"

definition hits_agree :: "int \<Rightarrow> int \<Rightarrow> (string \<times> int) list \<Rightarrow> hits \<Rightarrow> bool" where
  "hits_agree window now xs d \<longleftrightarrow>
     (\<forall>later ip. now \<le> later \<longrightarrow> recent_hits window later ip d = filter (\<lambda>t. later - t < window) (times_of ip xs))"

lemma map_of_filter_keys:
  "distinct (map fst d) \<Longrightarrow>
   map_of (filter P d) k = (case map_of d k of None \<Rightarrow> None | Some v \<Rightarrow> if P (k, v) then Some v else None)"
proof (induction d)
  case (Cons e d)
  obtain j u where e: "e = (j, u)" by fastforce
  from Cons.prems have "map_of d j = None" by (simp add: e map_of_eq_None_iff)
  with Cons show ?case by (auto simp: e split: option.split)
qed simp

lemma le_last: "sorted v \<Longrightarrow> t \<in> set v \<Longrightarrow> t \<le> (last v :: int)"
  by (cases v rule: rev_cases) (auto simp: sorted_append)

lemma stale_last: "sorted (v :: int list) \<Longrightarrow> v = [] \<or> window \<le> now - last v \<Longrightarrow> filter (\<lambda>t. now - t < window) v = []"
  using le_last [of v] by (fastforce simp: filter_empty_conv)

lemma recent_evicted:
  assumes "hits_ok now d"
  shows "recent_hits window now ip (evict_stale window now d) = recent_hits window now ip d"
proof (cases "map_of d ip")
  case (Some v)
  then have "sorted v" using assms by (auto simp: hits_ok_def dest!: map_of_SomeD)
  with Some assms show ?thesis
    using stale_last [of v window now] by (auto simp: evict_stale_def recent_hits_def hits_ok_def map_of_filter_keys)
qed (use assms in \<open>auto simp: evict_stale_def recent_hits_def hits_ok_def map_of_filter_keys\<close>)

lemma hits_ok_evict: "hits_ok now d \<Longrightarrow> hits_ok now (evict_stale window now d)"
  by (auto simp: hits_ok_def evict_stale_def distinct_map_filter)

lemma hits_ok_later: "hits_ok now d \<Longrightarrow> now \<le> later \<Longrightarrow> hits_ok later d"
  by (fastforce simp: hits_ok_def)

lemma recent_later: "now \<le> later \<Longrightarrow> filter (\<lambda>t. later - t < window) (recent_hits window now ip d) = recent_hits window later ip d"
  by (auto simp: recent_hits_def intro!: filter_cong)

lemma set_dict_put: "distinct (map fst d) \<Longrightarrow> set (dict_put k v d) = insert (k, v) {e \<in> set d. fst e \<noteq> k}"
proof (induction d)
  case (Cons e d)
  then show ?case by (cases e) (auto simp: image_iff)
qed simp

lemma hits_ok_put:
  "hits_ok now d \<Longrightarrow> sorted v \<Longrightarrow> (\<forall>t \<in> set v. t \<le> now) \<Longrightarrow> hits_ok now (dict_put ip v d)"
  by (auto simp: hits_ok_def set_dict_put distinct_dict_put)

lemma recent_sorted: "hits_ok now d \<Longrightarrow> sorted (recent_hits window now ip d) \<and> (\<forall>t \<in> set (recent_hits window now ip d). t \<le> now)"
  by (auto simp: recent_hits_def hits_ok_def dest!: map_of_SomeD split: option.split intro!: sorted_wrt_filter)

lemma agree_put:
  assumes "hits_agree window now xs d"
    and "\<And>later. now \<le> later \<Longrightarrow> filter (\<lambda>t. later - t < window) v = filter (\<lambda>t. later - t < window) (times_of ip ys)"
    and "\<And>k. k \<noteq> ip \<Longrightarrow> times_of k ys = times_of k xs"
  shows "hits_agree window now ys (dict_put ip v d)"
  using assms by (auto simp: hits_agree_def recent_hits_def)

lemma agree_evicted:
  assumes "hits_agree window now xs d" "hits_ok now d"
  shows "hits_agree window now xs (evict_stale window now d)"
  unfolding hits_agree_def
proof (intro allI impI)
  fix later ip assume l: "now \<le> later"
  have "recent_hits window later ip (evict_stale window now d) = recent_hits window later ip d"
    using recent_later [OF l, of window ip "evict_stale window now d"] recent_later [OF l, of window ip d] recent_evicted [OF assms(2)]
    by simp
  with assms(1) l show "recent_hits window later ip (evict_stale window now d) = filter (\<lambda>t. later - t < window) (times_of ip xs)"
    by (simp add: hits_agree_def)
qed

definition limited :: "int \<Rightarrow> nat \<Rightarrow> (string \<times> int) list \<Rightarrow> bool" where
  "limited window m xs \<longleftrightarrow> (\<forall>ip u. length (filter (\<lambda>t. u - t < window \<and> t \<le> u) (times_of ip xs)) \<le> m)"

lemma limited_snoc:
  assumes "limited window m xs" "\<forall>(_, t) \<in> set xs. t \<le> now"
    and "length (filter (\<lambda>t. now - t < window) (times_of ip xs)) < m"
  shows "limited window m (xs @ [(ip, now)])"
  unfolding limited_def
proof (intro allI)
  fix k u
  let ?in = "\<lambda>t. u - t < window \<and> t \<le> u"
  show "length (filter ?in (times_of k (xs @ [(ip, now)]))) \<le> m"
  proof (cases "k = ip \<and> ?in now")
    case True
    have "length (filter ?in (times_of ip xs)) \<le> length (filter (\<lambda>t. now - t < window) (times_of ip xs))"
      using True by (induction xs) (auto simp: times_of_def)
    with True assms(3) show ?thesis by (simp add: times_of_def)
  next
    case False
    then have "filter ?in (times_of k (xs @ [(ip, now)])) = filter ?in (times_of k xs)" by (auto simp: times_of_def)
    with assms(1) show ?thesis by (simp add: limited_def)
  qed
qed

definition limiter_inv :: "int \<Rightarrow> nat \<Rightarrow> int \<Rightarrow> (string \<times> int) list \<times> hits \<Rightarrow> bool" where
  "limiter_inv window m now = (\<lambda>(xs, d). hits_ok now d \<and> hits_agree window now xs d \<and> limited window m xs \<and> (\<forall>(_, t) \<in> set xs. t \<le> now))"

lemma limiter_later: "limiter_inv window m now s \<Longrightarrow> now \<le> later \<Longrightarrow> limiter_inv window m later s"
  by (cases s) (auto simp: limiter_inv_def hits_agree_def elim: hits_ok_later)

lemma rate_limit_decides:
  assumes "limiter_inv window m now (xs, d)"
  shows "fst (rate_limit window m now ip d) \<longleftrightarrow> length (filter (\<lambda>t. now - t < window) (times_of ip xs)) < m"
  using assms recent_evicted [of now d window ip] by (auto simp: limiter_inv_def rate_limit_def Let_def hits_agree_def)

lemma serve_inv:
  assumes inv: "limiter_inv window m now (xs, d)"
  shows "limiter_inv window m now (serve window m (ip, now) (xs, d))"
proof -
  let ?e = "evict_stale window now d" and ?recent = "recent_hits window now ip d"
  have ok: "hits_ok now ?e" and agree: "hits_agree window now xs ?e"
    using inv by (auto simp: limiter_inv_def intro: hits_ok_evict agree_evicted)
  have recent: "recent_hits window now ip ?e = ?recent" "?recent = filter (\<lambda>t. now - t < window) (times_of ip xs)"
    using inv recent_evicted [of now d window ip] by (auto simp: limiter_inv_def hits_agree_def)
  have sorted: "sorted ?recent" "\<forall>t \<in> set ?recent. t \<le> now"
    using inv recent_sorted [of now d window ip] by (auto simp: limiter_inv_def)
  have keep: "filter (\<lambda>t. later - t < window) ?recent = filter (\<lambda>t. later - t < window) (times_of ip xs)" if "now \<le> later" for later
    unfolding recent(2) using that by (auto intro!: filter_cong)
  show ?thesis
  proof (cases "m \<le> length ?recent")
    case True
    have "hits_agree window now xs (dict_put ip ?recent ?e)" by (rule agree_put [OF agree keep]) simp_all
    with True inv ok sorted show ?thesis
      by (simp add: limiter_inv_def serve_def rate_limit_def Let_def recent(1) hits_ok_put)
  next
    case False
    have "hits_agree window now (xs @ [(ip, now)]) (dict_put ip (?recent @ [now]) ?e)"
      by (rule agree_put [OF agree]) (auto simp: keep times_of_def)
    moreover have "limited window m (xs @ [(ip, now)])"
      by (rule limited_snoc) (use inv False recent(2) in \<open>auto simp: limiter_inv_def\<close>)
    moreover have "hits_ok now (dict_put ip (?recent @ [now]) ?e)"
      by (rule hits_ok_put [OF ok]) (use sorted in \<open>auto simp: sorted_append\<close>)
    ultimately show ?thesis
      using False inv by (simp add: limiter_inv_def serve_def rate_limit_def Let_def recent(1))
  qed
qed

lemma served_inv: "sorted (map snd (requests @ [(ip, now)])) \<Longrightarrow> limiter_inv window m now (served window m requests)"
proof (induction requests arbitrary: ip now rule: rev_induct)
  case Nil
  show ?case
    by (simp add: served_def limiter_inv_def hits_ok_def hits_agree_def limited_def times_of_def recent_hits_def)
next
  case (snoc r requests)
  obtain k t where r: "r = (k, t)" by fastforce
  have t: "t \<le> now" "sorted (map snd (requests @ [(k, t)]))" using snoc.prems by (auto simp: r sorted_append)
  obtain xs d where s: "served window m requests = (xs, d)" by fastforce
  have "served window m (requests @ [r]) = serve window m (k, t) (xs, d)" using s by (simp add: r served_def)
  with serve_inv [of window m t xs d k] snoc.IH [OF t(2)] s t(1) show ?case by (simp add: limiter_later)
qed

section \<open>Capacity\<close>

lemma status_open: "market_status rows \<noteq> ''full'' \<longleftrightarrow> list_ex (\<lambda>r. elem (cap_status r) [''active'', ''degraded'']) rows"
  by (auto simp: market_status_def list_ex_iff)

text \<open>
  What a market maker reports is what users see: after an accepted report the maker's capacity is in the table, and for two
  minutes the market of a visible asset is open unless the maker said that it is full.
\<close>

lemma reported_capacity_opens_market:
  assumes "report_capacity menv mm body u = (Inr x, v)" "cap_status body \<noteq> ''full''" "asset_of_value (lower (cap_asset body)) = Some a"
    and "pw_capacity w = mw_capacity v" "pe_fails env (FetchCapacity a # calls w) = None" "is_asset_visible (pe_app env) (asset_value a)"
    and "pe_now env (calls w) \<le> me_now menv (calls u) + CAPACITY_STALE_SECONDS * us_second"
  shows "case get_capacity env a w of (Inr view, _) \<Rightarrow> cv_open view | (Inl _, _) \<Rightarrow> False"
proof -
  obtain b r where r: "asset_of_value (lower (cap_asset body)) = Some b" "r \<in> set (mw_capacity v)"
    "capacity_key r = (normalize_mm_address mm, asset_value b)" "cap_status r = cap_status body"
    "cap_chain r = chain_value (get_chain_for_asset b)" "cap_reported_at r = me_now menv (calls u)"
    using capacity_reported [OF assms(1)] by metis
  have "valid_capacity body" using assms(1) by (auto simp: report_capacity_def run_defs split: if_splits)
  with assms(2) have status: "elem (cap_status body) [''active'', ''degraded'']" by (auto simp: valid_capacity_def)
  let ?rows = "filter (fresh_capacity a (pe_now env (calls w))) (pw_capacity w)"
  have "r \<in> set ?rows"
    using r assms(3,4,7) by (auto simp: fresh_capacity_def capacity_key_def)
  then have "?rows \<noteq> []" by (metis empty_iff list.set(1))
  moreover have "market_status ?rows \<noteq> ''full''"
    unfolding status_open list_ex_iff using \<open>r \<in> set ?rows\<close> status r(4) by auto
  ultimately show ?thesis using assms(5,6)
    by (auto simp: get_capacity_def ensure_asset_visible_def fetch_capacity_rows_def pub_now_def run_defs perform_def
        aggregate_capacity_def Let_def split: prod.splits)
qed

section \<open>The best quotes\<close>

definition best_inv :: "quote_row list \<Rightarrow> (option_key \<times> quote_row) list \<Rightarrow> bool" where
  "best_inv qs d \<longleftrightarrow> distinct (map fst d) \<and> (\<forall>k b. map_of d k = Some b \<longrightarrow> b \<in> set qs \<and> option_of b = k) \<and>
     (\<forall>q \<in> set qs. \<exists>b. map_of d (option_of q) = Some b \<and> bid_of q \<le> bid_of b)"

lemma best_step_inv:
  assumes "best_inv qs d"
  shows "best_inv (qs @ [q]) (best_step d q)"
proof -
  note inv = assms [unfolded best_inv_def]
  show ?thesis
  proof (cases "\<exists>b. map_of d (option_of q) = Some b \<and> bid_of q \<le> bid_of b")
    case True
    then have "best_step d q = d" by (auto simp: best_step_def)
    with inv True show ?thesis by (auto simp: best_inv_def)
  next
    case False
    then have put: "best_step d q = dict_put (option_of q) q d" by (auto simp: best_step_def split: option.split)
    have "\<exists>b. map_of (dict_put (option_of q) q d) (option_of p) = Some b \<and> bid_of p \<le> bid_of b" if p: "p \<in> set qs" for p
    proof (cases "option_of p = option_of q")
      case True
      with inv p obtain c where "map_of d (option_of q) = Some c" "bid_of p \<le> bid_of c" by metis
      with False True show ?thesis by force
    next
      case False
      then have "map_of (dict_put (option_of q) q d) (option_of p) = map_of d (option_of p)" by simp
      with inv p show ?thesis by metis
    qed
    then show ?thesis unfolding put best_inv_def using inv by (auto simp: distinct_dict_put)
  qed
qed

lemma best_quotes_inv: "best_inv qs (foldl best_step [] qs)"
  by (induction qs rule: rev_induct) (simp add: best_inv_def, simp add: best_step_inv)

lemma best_quotes:
  shows "set (best_quotes_by_otoken qs) \<subseteq> set qs" and "distinct (map option_of (best_quotes_by_otoken qs))"
    and "q \<in> set qs \<Longrightarrow> \<exists>b \<in> set (best_quotes_by_otoken qs). option_of b = option_of q \<and> bid_of q \<le> bid_of b"
proof -
  let ?d = "foldl best_step [] qs"
  note inv = best_quotes_inv [of qs, unfolded best_inv_def]
  have entry: "b \<in> set qs \<and> option_of b = k" if "(k, b) \<in> set ?d" for k b
    using inv that by (metis map_of_is_SomeI)
  then have "map option_of (best_quotes_by_otoken qs) = map fst ?d"
    by (auto simp: best_quotes_by_otoken_def)
  with inv show "distinct (map option_of (best_quotes_by_otoken qs))" by simp
  show "set (best_quotes_by_otoken qs) \<subseteq> set qs" using entry by (auto simp: best_quotes_by_otoken_def)
  assume "q \<in> set qs"
  then obtain b where b: "map_of ?d (option_of q) = Some b" "bid_of q \<le> bid_of b" using inv by blast
  then have "(option_of q, b) \<in> set ?d" by (simp add: map_of_SomeD)
  then have "b \<in> set (best_quotes_by_otoken qs)" "option_of b = option_of q"
    using entry by (force simp: best_quotes_by_otoken_def, blast)
  with b(2) show "\<exists>b \<in> set (best_quotes_by_otoken qs). option_of b = option_of q \<and> bid_of q \<le> bid_of b" by blast
qed

section \<open>The price menu\<close>

text \<open>What a request leaves alone: the tables and the cache.\<close>

definition reads_only :: "pub_world \<Rightarrow> pub_world \<Rightarrow> bool" where
  "reads_only w v \<longleftrightarrow> pw_quotes v = pw_quotes w \<and> pw_available v = pw_available w \<and> pw_orders v = pw_orders w \<and>
     pw_prices v = pw_prices w \<and> hist_le w v"

interpretation reads: world_order reads_only
  by unfold_locales (auto simp: reads_only_def intro: hist.le_refl hist.le_trans)

lemma viewer_call: "grows reads_only (pcall env c)"
  by (rule grows_perform) (simp add: reads_only_def hist_le_def)

lemma reads_clock: "grows reads_only (pub_clock env)"
  by (simp add: grows_def pub_clock_def reads_only_def hist_le_def)

lemma reads_breaker: "grows reads_only (modifyE (\<lambda>w. w\<lparr>pw_breaker := b\<rparr>))"
  by (rule reads.grows_modify) (simp add: reads_only_def hist_le_def)

lemma reads_spot: "grows reads_only (read_spot_price env a)"
  unfolding read_spot_price_def by (intro reads.rules viewer_call)

lemma reads_heal: "grows reads_only (heal_breaker env a spot)"
  unfolding heal_breaker_def pub_now_def by (intro reads.rules reads_breaker)

lemma reads_check: "grows reads_only (run_breaker env a spot)"
  unfolding run_breaker_def pub_now_def by (intro reads.rules reads_breaker)

lemma reads_counts: "grows reads_only (fetch_position_counts env a)"
  unfolding fetch_position_counts_def pub_unix_def by (intro reads.rules viewer_call)

text \<open>A quote that may be shown, and the best of its option; a price that shows a quote.\<close>

definition live_for :: "pub_env \<Rightarrow> asset \<Rightarrow> int \<Rightarrow> pub_world \<Rightarrow> quote_row \<Rightarrow> bool" where
  "live_for env a now w q \<longleftrightarrow> queried_quote (pe_pricing env) a now q \<and> beyond_cutoff (pe_pricing env) now q \<and>
     elem (qr_otoken q) (map av_address (filter (\<lambda>r. av_chain r = chain_value (get_chain_for_asset a)) (pw_available w)))"

definition live_rows :: "pub_env \<Rightarrow> asset \<Rightarrow> int \<Rightarrow> pub_world \<Rightarrow> quote_row list" where
  "live_rows env a now w = filter (live_for env a now w) (pw_quotes w)"

definition shows_quote :: "pub_env \<Rightarrow> asset \<Rightarrow> int \<Rightarrow> price_response \<Rightarrow> quote_row \<Rightarrow> bool" where
  "shows_quote env a now p q \<longleftrightarrow>
     (case quote_to_price_response (pe_fee_bps env) now q of
        None \<Rightarrow> False
      | Some p0 \<Rightarrow> p = (if is_asset_tradable (pe_app env) (asset_value a) then p0 else strip_trade_fields p0)
                         \<lparr>pr_spot := pr_spot p, pr_count := pr_count p\<rparr>)"

definition menu_exact :: "pub_env \<Rightarrow> asset \<Rightarrow> int \<Rightarrow> quote_row list \<Rightarrow> price_response list \<Rightarrow> bool" where
  "menu_exact env a now live menu \<longleftrightarrow>
     list_all (\<lambda>p. list_ex (\<lambda>q. shows_quote env a now p q \<and>
       list_all (\<lambda>q'. option_of q' = option_of q \<longrightarrow> bid_of q' \<le> bid_of q) live) live) menu \<and>
     list_all (\<lambda>q. list_ex (\<lambda>q'. option_of q' = option_of q \<and> (quote_to_price_response (pe_fee_bps env) now q' = None \<or>
       list_ex (\<lambda>p. shows_quote env a now p q') menu)) live) live"

lemma decorate_shows:
  "quote_to_price_response (pe_fee_bps env) now q = Some p0 \<Longrightarrow> tradable = is_asset_tradable (pe_app env) (asset_value a) \<Longrightarrow>
   shows_quote env a now ((decorate_price spot tradable p0)\<lparr>pr_count := n\<rparr>) q"
  by (simp add: shows_quote_def decorate_price_def strip_trade_fields_def Let_def)

lemma price_menu_prices:
  "fst (price_menu fee now spot tradable qs) =
     map (decorate_price spot tradable) (List.map_filter (quote_to_price_response fee now) qs)"
proof -
  have "fst (foldl (menu_step fee now spot tradable) s qs) =
      fst s @ map (decorate_price spot tradable) (List.map_filter (quote_to_price_response fee now) qs)" for s
    by (induction qs arbitrary: s) (auto simp: menu_step_def map_filter_simps split: option.split prod.split)
  then show ?thesis by (simp add: price_menu_def)
qed

lemma length_merged: "length (merged_counts visible counts n) = n"
proof -
  have "length (foldl (roll_up visible) m counts) = length m" for m
    by (induction counts arbitrary: m) (auto simp: roll_up_def split: prod.split option.split)
  then show ?thesis by (simp add: merged_counts_def)
qed

lemma counted_menu_prices:
  "\<exists>ns. length ns = length (fst m) \<and> counted_menu m counts = map2 (\<lambda>p n. p\<lparr>pr_count := n\<rparr>) (fst m) ns"
  by (cases m) (auto simp: counted_menu_def ACTIVITY_MULTIPLIER_def length_merged intro!: exI [of _ "merged_counts (snd m) counts (length (fst m))"])

lemma in_counted:
  assumes "p \<in> set (counted_menu (price_menu fee now spot tradable qs) counts)"
  obtains q p0 n where "q \<in> set qs" "quote_to_price_response fee now q = Some p0" "p = (decorate_price spot tradable p0)\<lparr>pr_count := n\<rparr>"
proof -
  obtain ns where "counted_menu (price_menu fee now spot tradable qs) counts =
      map2 (\<lambda>p n. p\<lparr>pr_count := n\<rparr>) (map (decorate_price spot tradable) (List.map_filter (quote_to_price_response fee now) qs)) ns"
    using counted_menu_prices [of "price_menu fee now spot tradable qs" counts] by (auto simp: price_menu_prices)
  with assms obtain x n where x: "(x, n) \<in> set (zip (map (decorate_price spot tradable) (List.map_filter (quote_to_price_response fee now) qs)) ns)"
    "p = x\<lparr>pr_count := n\<rparr>" by auto
  then have "x \<in> set (map (decorate_price spot tradable) (List.map_filter (quote_to_price_response fee now) qs))" by (metis set_zip_leftD)
  then obtain p0 q where "q \<in> set qs" "quote_to_price_response fee now q = Some p0" "x = decorate_price spot tradable p0"
    by (auto simp: List.map_filter_def)
  with x(2) show thesis using that by blast
qed

lemma counted_covers:
  assumes "q \<in> set qs" "quote_to_price_response fee now q = Some p0"
  shows "\<exists>n. (decorate_price spot tradable p0)\<lparr>pr_count := n\<rparr> \<in> set (counted_menu (price_menu fee now spot tradable qs) counts)"
proof -
  let ?ps = "map (decorate_price spot tradable) (List.map_filter (quote_to_price_response fee now) qs)"
  obtain ns where ns: "length ns = length ?ps" "counted_menu (price_menu fee now spot tradable qs) counts = map2 (\<lambda>p n. p\<lparr>pr_count := n\<rparr>) ?ps ns"
    using counted_menu_prices [of "price_menu fee now spot tradable qs" counts] by (auto simp: price_menu_prices)
  have "decorate_price spot tradable p0 \<in> set ?ps" using assms by (force simp: List.map_filter_def)
  then obtain i where i: "i < length ?ps" "?ps ! i = decorate_price spot tradable p0" by (metis in_set_conv_nth)
  with ns have "(decorate_price spot tradable p0, ns ! i) \<in> set (zip ?ps ns)" by (metis in_set_zip fst_conv snd_conv)
  with ns(2) show ?thesis by force
qed

lemma counted_exact:
  assumes "tradable = is_asset_tradable (pe_app env) (asset_value a)"
  shows "menu_exact env a now qs (counted_menu (price_menu (pe_fee_bps env) now spot tradable (best_quotes_by_otoken qs)) counts)"
    (is "menu_exact _ _ _ _ ?menu")
proof -
  have best: "bid_of q' \<le> bid_of q" if "q \<in> set (best_quotes_by_otoken qs)" "q' \<in> set qs" "option_of q' = option_of q" for q q'
    using best_quotes(3) [OF that(2)] best_quotes(2) [of qs] that(1,3) by (metis distinct_map inj_onD)
  have "\<exists>q \<in> set qs. shows_quote env a now p q \<and> (\<forall>q' \<in> set qs. option_of q' = option_of q \<longrightarrow> bid_of q' \<le> bid_of q)"
    if "p \<in> set ?menu" for p
    using in_counted [OF that] best best_quotes(1) [of qs] decorate_shows [OF _ assms] by (metis subsetD)
  moreover have "\<exists>q' \<in> set qs. option_of q' = option_of q \<and>
      (quote_to_price_response (pe_fee_bps env) now q' = None \<or> (\<exists>p \<in> set ?menu. shows_quote env a now p q'))"
    if q: "q \<in> set qs" for q
  proof -
    obtain b where b: "b \<in> set (best_quotes_by_otoken qs)" "option_of b = option_of q" using best_quotes(3) [OF q] by blast
    show ?thesis
    proof (cases "quote_to_price_response (pe_fee_bps env) now b")
      case None
      with b best_quotes(1) [of qs] show ?thesis by blast
    next
      case (Some p0)
      from counted_covers [OF b(1) Some, where spot = spot and tradable = tradable and counts = counts]
        decorate_shows [OF Some assms, where spot = spot] b best_quotes(1) [of qs]
      show ?thesis by blast
    qed
  qed
  ultimately show ?thesis by (simp add: menu_exact_def list_all_iff list_ex_iff)
qed

text \<open>The wall clock as it was read at some moment of a request.\<close>

definition clock_reading :: "pub_env \<Rightarrow> pub_world \<Rightarrow> pub_world \<Rightarrow> int \<Rightarrow> bool" where
  "clock_reading env w v t \<longleftrightarrow> (\<exists>u :: pub_world. hist_le w u \<and> hist_le u v \<and> t = pe_now env (calls u) div us_second)"

lemma clock_wider: "clock_reading env u v t \<Longrightarrow> hist_le w u \<Longrightarrow> hist_le v x \<Longrightarrow> clock_reading env w x t"
  by (auto simp: clock_reading_def) (metis hist.le_trans)

lemma wp_build_menu:
  assumes "tradable = is_asset_tradable (pe_app env) (asset_value a)"
  shows "wp (build_menu env a tradable spot qs)
    (\<lambda>menu v. \<exists>t. clock_reading env w v t \<and> menu_exact env a t qs menu \<and> hist_le w v) (\<lambda>_ _. True) w"
proof -
  have last: "wp (bindE (pub_unix env) (\<lambda>now.
      let menu = counted_menu (price_menu (pe_fee_bps env) now spot tradable (best_quotes_by_otoken qs)) counts in
      bindE (pub_clock env) (\<lambda>t. thenE (modifyE (\<lambda>w. w\<lparr>pw_prices := dict_put (cache_key a tradable) (t, menu) (pw_prices w)\<rparr>)) (ret menu))))
      (\<lambda>menu v. \<exists>t. clock_reading env w v t \<and> menu_exact env a t qs menu \<and> hist_le w v) (\<lambda>_ _. True) u"
    if "hist_le w u" for u counts
  proof -
    have "hist_le u v" if "calls v = PubClock # calls u" for v :: pub_world using that by (simp add: hist_le_def)
    then show ?thesis
      using that counted_exact [OF assms, of "pe_now env (calls u) div us_second" qs spot counts]
      by (auto simp: pub_unix_def wps Let_def clock_reading_def intro!: exI [of _ "pe_now env (calls u) div us_second"] exI [of _ u] elim: hist.le_trans)
  qed
  show ?thesis
    unfolding build_menu_def wp_then wp_bind [of "fetch_position_counts env a"]
    by (rule wp_mono [OF reads.wp_le [OF reads_check reads.le_refl]], rule wp_mono [OF reads.wp_le [OF reads_counts]], assumption)
      (auto simp: reads_only_def intro: last)
qed

text \<open>A menu that was made in a request: exact for the quotes that were live at a moment of it.\<close>

definition fresh_for :: "pub_env \<Rightarrow> asset \<Rightarrow> pub_world \<Rightarrow> pub_world \<Rightarrow> price_response list \<Rightarrow> bool" where
  "fresh_for env a w v menu \<longleftrightarrow>
     (\<exists>t t'. clock_reading env w v t \<and> clock_reading env w v t' \<and> menu_exact env a t' (live_rows env a t w) menu)"

lemma fresh_empty: "hist_le w v \<Longrightarrow> live_rows env a (pe_now env (calls w) div us_second) w = [] \<Longrightarrow> fresh_for env a w v []"
  unfolding fresh_for_def clock_reading_def
  by (intro exI [of _ "pe_now env (calls w) div us_second"] conjI exI [of _ w]; simp add: menu_exact_def hist.le_refl)

lemma wp_fresh_menu:
  assumes "tradable = is_asset_tradable (pe_app env) (asset_value a)"
  shows "wp (fresh_menu env a tradable spot) (\<lambda>menu v. fresh_for env a w v menu) (\<lambda>_ _. True) w"
proof -
  let ?t = "pe_now env (calls w) div us_second"
  let ?quotes = "filter (beyond_cutoff (pe_pricing env) ?t) (filter (queried_quote (pe_pricing env) a ?t) (pw_quotes w))"
  let ?valid = "map av_address (filter (\<lambda>r. av_chain r = chain_value (get_chain_for_asset a)) (pw_available w))"
  have live: "filter (\<lambda>q. elem (qr_otoken q) ?valid) ?quotes = live_rows env a ?t w"
    by (auto simp: live_rows_def live_for_def intro!: filter_cong)
  have build: "wp (build_menu env a tradable spot (live_rows env a ?t w)) (\<lambda>menu v. fresh_for env a w v menu) (\<lambda>_ _. True) u"
    if u: "hist_le w u" for u
  proof (rule wp_mono [OF wp_build_menu [OF assms, where w = u]], goal_cases)
    case (1 menu v)
    then obtain t' where "clock_reading env u v t'" "menu_exact env a t' (live_rows env a ?t w) menu" "hist_le u v" by blast
    moreover have "clock_reading env w v ?t"
      unfolding clock_reading_def using u \<open>hist_le u v\<close> by (intro exI [of _ w]) (auto intro: hist.le_refl hist.le_trans)
    ultimately show ?case
      unfolding fresh_for_def using clock_wider [OF _ u hist.le_refl] by blast
  qed simp
  have known: "wp (fetch_valid_otoken_addresses env a)
      (\<lambda>valid u. valid = ?valid \<and> hist_le w u) (\<lambda>_ _. True) u"
    if "hist_le w u" "pw_available u = pw_available w" for u
    using that by (auto simp: fetch_valid_otoken_addresses_def wps hist_le_def split: option.split)
  have quotes: "wp (catchE (fetch_active_quotes env a) (\<lambda>_. raise (HTTPException 502 ''Quote data unavailable'')))
      (\<lambda>quotes u. quotes = ?quotes \<and> hist_le w u \<and> pw_available u = pw_available w) (\<lambda>_ _. True) w"
    by (auto simp: fetch_active_quotes_def pub_unix_def wps hist_le_def split: option.split)
  show ?thesis
    unfolding fresh_menu_def wp_bind
  proof (rule wp_mono [OF quotes], goal_cases)
    case (1 quotes u)
    then have u: "quotes = ?quotes" "hist_le w u" "pw_available u = pw_available w" by simp_all
    show ?case
    proof (cases "quotes = []")
      case True
      then have "live_rows env a ?t w = []" using live u(1) by (metis filter.simps(1))
      with True fresh_empty [OF u(2)] show ?thesis by (simp add: wps)
    next
      case False
      have "wp (fetch_valid_otoken_addresses env a)
          (\<lambda>valid. wp (let known = filter (\<lambda>q. elem (qr_otoken q) valid) quotes in
             if known = [] then ret [] else build_menu env a tradable spot known) (\<lambda>menu v. fresh_for env a w v menu) (\<lambda>_ _. True))
          (\<lambda>_ _. True) u"
      proof (rule wp_mono [OF known [OF u(2,3)]], goal_cases)
        case (1 valid x)
        then have eq: "filter (\<lambda>q. elem (qr_otoken q) valid) quotes = live_rows env a ?t w" using live u(1) by metis
        from 1 build [of x] fresh_empty [of w x env a] show ?case
          unfolding Let_def eq by (simp add: wps)
      qed simp
      with False show ?thesis by (simp add: wps)
    qed
  qed simp
qed

lemma fresh_wider:
  assumes "fresh_for env a u v menu" "reads_only w u"
  shows "fresh_for env a w v menu"
proof -
  have "live_for env a t u = live_for env a t w" for t
    using assms(2) by (intro ext) (simp add: live_for_def reads_only_def)
  then have "live_rows env a t u = live_rows env a t w" for t
    using assms(2) by (simp add: live_rows_def reads_only_def)
  with assms show ?thesis
    unfolding fresh_for_def using clock_wider [OF _ _ hist.le_refl, of env u v _ w] by (auto simp: reads_only_def)
qed

section \<open>Position counts\<close>

definition count_sum :: "(count_key \<Rightarrow> bool) \<Rightarrow> (count_key \<times> nat) list \<Rightarrow> nat" where
  "count_sum P d = sum_list (map snd (filter (\<lambda>(k, _). P k) d))"

lemma count_sum_put:
  "distinct (map fst d) \<Longrightarrow>
   count_sum P (dict_put k ((case map_of d k of None \<Rightarrow> 0 | Some n \<Rightarrow> n) + 1) d) = count_sum P d + (if P k then 1 else 0)"
proof (induction d)
  case (Cons e d)
  obtain j n where e: "e = (j, n)" by fastforce
  from Cons show ?case by (cases "j = k") (auto simp: e count_sum_def split: option.splits)
qed (simp add: count_sum_def)

lemma count_sum_counts: "count_sum P (position_counts rows) = length (filter P (List.map_filter count_key rows))"
proof -
  have "count_sum P (group_rows (\<lambda>k. k) (\<lambda>_. 0) (\<lambda>n _. n + 1) ks) = length (filter P ks)" for ks
  proof (induction ks rule: rev_induct)
    case (snoc k ks)
    have "count_sum P (group_rows (\<lambda>k. k) (\<lambda>_. 0) (\<lambda>n _. n + 1) (ks @ [k])) =
        count_sum P (group_rows (\<lambda>k. k) (\<lambda>_. 0) (\<lambda>n _. n + 1) ks) + (if P k then 1 else 0)"
      unfolding group_rows_snoc group_step_def by (rule count_sum_put) (rule distinct_group_rows)
    with snoc show ?case by simp
  qed (simp add: count_sum_def)
  then show ?thesis by (simp add: position_counts_def)
qed

lemma sum_list_add_at: "i < length xs \<Longrightarrow> sum_list (xs[i := xs ! i + n]) = sum_list xs + (n :: nat)"
  by (induction xs arbitrary: i) (auto split: nat.split)

definition indices_ok :: "nat \<Rightarrow> (count_key \<times> nat) list \<Rightarrow> bool" where
  "indices_ok n visible \<longleftrightarrow> (\<forall>(_, i) \<in> set visible. i < n)"

lemma set_put_subset: "set (dict_put k v d) \<subseteq> insert (k, v) (set d)"
  by (induction d) (auto split: if_splits)

lemma min_by_in: "min_by f x xs \<in> set (x # xs)"
proof (induction xs arbitrary: x)
  case (Cons y ys)
  from this [of "if f y < f x then y else x"] show ?case by (auto split: if_splits)
qed simp

lemma rollup_index_ok: "indices_ok n visible \<Longrightarrow> rollup_index visible k = Some i \<Longrightarrow> i < n"
proof -
  assume ok: "indices_ok n visible" and r: "rollup_index visible k = Some i"
  obtain strike is_put e where k: "k = (strike, is_put, e)" by (cases k) auto
  have "\<exists>key. (key, i) \<in> set visible"
  proof (cases "map_of visible (strike, is_put, e)")
    case (Some j)
    with r have "j = i" by (simp add: rollup_index_def k)
    with Some show ?thesis by (blast dest: map_of_SomeD)
  next
    case None
    show ?thesis
    proof (cases "filter (\<lambda>((s, p, _), _). s = strike \<and> p = is_put) visible")
      case Nil
      with None r show ?thesis by (simp add: rollup_index_def k)
    next
      case (Cons c cs)
      let ?m = "min_by (\<lambda>((_, _, x), _). \<bar>x - e\<bar>) c cs"
      from None r Cons have "i = snd ?m" by (simp add: rollup_index_def k)
      moreover have "?m \<in> set (filter (\<lambda>((s, p, _), _). s = strike \<and> p = is_put) visible)" unfolding Cons by (rule min_by_in)
      then have "?m \<in> set visible" by (rule subsetD [OF filter_is_subset])
      ultimately show ?thesis by (metis prod.collapse)
    qed
  qed
  with ok show "i < n" by (auto simp: indices_ok_def)
qed

lemma roll_up_sum:
  "indices_ok (length m) visible \<Longrightarrow>
   sum_list (foldl (roll_up visible) m counts) = sum_list m + count_sum (\<lambda>k. rollup_index visible k \<noteq> None) counts"
proof (induction counts arbitrary: m)
  case (Cons c counts)
  obtain k n where c: "c = (k, n)" by fastforce
  show ?case
  proof (cases "rollup_index visible k")
    case None
    with Cons show ?thesis by (simp add: c roll_up_def count_sum_def)
  next
    case (Some i)
    with Cons.prems have "i < length m" by (rule rollup_index_ok)
    with Some Cons.IH [of "m[i := m ! i + n]"] Cons.prems show ?thesis
      by (simp add: c roll_up_def count_sum_def sum_list_add_at)
  qed
qed (simp add: count_sum_def)

lemma menu_indices:
  "case foldl (menu_step fee now spot tradable) s qs of (menu, visible) \<Rightarrow>
     indices_ok (length (fst s)) (snd s) \<longrightarrow> indices_ok (length menu) visible"
proof (induction qs arbitrary: s)
  case (Cons q qs)
  obtain menu visible where s: "s = (menu, visible)" by fastforce
  have "indices_ok (length (fst (menu_step fee now spot tradable s q))) (snd (menu_step fee now spot tradable s q))"
    if "indices_ok (length menu) visible"
  proof (cases "quote_to_price_response fee now q")
    case (Some p)
    have "i < Suc (length menu)" if "(k, i) \<in> set (dict_put (visible_key p q) (length menu) visible)" for k i
      using that \<open>indices_ok (length menu) visible\<close> set_put_subset [of "visible_key p q" "length menu" visible]
      by (fastforce simp: indices_ok_def)
    with Some show ?thesis by (auto simp: s menu_step_def indices_ok_def)
  qed (use that in \<open>simp add: s menu_step_def\<close>)
  with Cons.IH [of "menu_step fee now spot tradable s q"] show ?case by (auto simp: s)
qed (simp split: prod.split)

lemma counts_of_menu: "length ns = length ps \<Longrightarrow> map pr_count (map2 (\<lambda>p n. p\<lparr>pr_count := n\<rparr>) ps ns) = ns"
  by (induction ps ns rule: list_induct2') auto

lemma rollup_defined: "rollup_index visible (k, p, e) \<noteq> None \<longleftrightarrow> list_ex (\<lambda>((k', p', _), _). k' = k \<and> p' = p) visible"
proof -
  have "list_ex (\<lambda>((k', p', _), _). k' = k \<and> p' = p) visible \<longleftrightarrow> filter (\<lambda>((k', p', _), _). k' = k \<and> p' = p) visible \<noteq> []"
    by (induction visible) auto
  moreover have "map_of visible (k, p, e) = Some i \<Longrightarrow> list_ex (\<lambda>((k', p', _), _). k' = k \<and> p' = p) visible" for i
    by (force simp: list_ex_iff dest: map_of_SomeD)
  ultimately show ?thesis by (auto simp: rollup_index_def split: option.split list.split)
qed

text \<open>
  Every open position of an option that is shown, or of the same strike and type at an expiry that is not shown any more,
  is counted at exactly one price; the others are not counted.
\<close>

lemma positions_counted_once:
  "case price_menu fee now spot tradable qs of (menu, visible) \<Rightarrow>
     sum_list (map pr_count (counted_menu (menu, visible) (position_counts rows))) =
     length (filter (\<lambda>(k, p, _). list_ex (\<lambda>((k', p', _), _). k' = k \<and> p' = p) visible) (List.map_filter count_key rows))"
proof -
  obtain menu visible where m: "price_menu fee now spot tradable qs = (menu, visible)" by fastforce
  have "indices_ok (length menu) visible"
    using menu_indices [where fee = fee and now = now and spot = spot and tradable = tradable and s = "([], [])" and qs = qs] m by (simp add: price_menu_def indices_ok_def)
  then have "sum_list (merged_counts visible (position_counts rows) (length menu)) =
      count_sum (\<lambda>k. rollup_index visible k \<noteq> None) (position_counts rows)"
    using roll_up_sum [of "replicate (length menu) 0" visible "position_counts rows"] by (simp add: merged_counts_def)
  moreover have "(\<lambda>k. rollup_index visible k \<noteq> None) = (\<lambda>(k, p, _). list_ex (\<lambda>((k', p', _), _). k' = k \<and> p' = p) visible)"
  proof (rule ext)
    fix x :: count_key
    obtain k p e where x: "x = (k, p, e)" by (cases x) auto
    show "(rollup_index visible x \<noteq> None) = (case x of (k, p, _) \<Rightarrow> list_ex (\<lambda>((k', p', _), _). k' = k \<and> p' = p) visible)"
      unfolding x prod.case by (rule rollup_defined)
  qed
  moreover have "map pr_count (counted_menu (menu, visible) (position_counts rows)) = merged_counts visible (position_counts rows) (length menu)"
    unfolding counted_menu_def prod.case ACTIVITY_MULTIPLIER_def mult_1_right by (rule counts_of_menu [OF length_merged])
  ultimately show ?thesis by (simp only: m prod.case count_sum_counts)
qed

section \<open>The breaker\<close>

text \<open>
  A pause of the market does not outlast the next request for its prices: when the spot price can be read, the
  request resumes the breaker at that price, however far it has moved.
\<close>

lemma request_resumes_breaker:
  "is_paused_for (asset_value a) (pw_breaker w) \<Longrightarrow>
   case heal_breaker env a (Some s) w of (r, v) \<Rightarrow>
     r = Inr () \<and> \<not> is_paused_for (asset_value a) (pw_breaker v) \<and> reference_price (get_state (asset_value a) (pw_breaker v)) = Some s"
  by (simp add: heal_breaker_def pub_now_def run_defs resume_def is_paused_for_def)

section \<open>Whose positions\<close>

text \<open>The positions of a wallet are its own, on the chain that its address tells, the latest first.\<close>

lemma positions_owned: "yields (list_all (\<lambda>p. detect_chain address = Inr SOLANA \<and> po_user (pv_row p) = address \<and> po_chain (pv_row p) = ''solana'' \<or>
    detect_chain address = Inr BASE \<and> po_user (pv_row p) = lower address \<and> po_chain (pv_row p) = ''base'')) (wallet_positions env ip address)"
proof (rule yields_wp)
  fix w
  have arc: "detect_chain address \<noteq> Inr ARC" by (auto simp: detect_chain_def)
  show "wp (wallet_positions env ip address) (\<lambda>ps _. list_all (\<lambda>p. detect_chain address = Inr SOLANA \<and> po_user (pv_row p) = address \<and> po_chain (pv_row p) = ''solana'' \<or>
    detect_chain address = Inr BASE \<and> po_user (pv_row p) = lower address \<and> po_chain (pv_row p) = ''base'') ps) (\<lambda>_ _. True) w"
    unfolding wallet_positions_def check_read_rate_limit_def
    using arc by (auto simp: wps fetch_positions_def positions_of_def enrich_position_def list_all_iff TOO_MANY_def Let_def
        split: prod.splits sum.split option.split) (metis chain.exhaust chain_value.simps(2,3))+
qed

section \<open>Strikes in dollars\<close>

text \<open>
  The outcome and the position counts divide every strike by 1e8. Rows whose strike is in dollars, as the Solana indexer
  takes it from \<open>available_otokens\<close>, are shown at a strike of zero and never counted at their price.
\<close>

lemma dollar_strike_misread:
  assumes "po_settled r = Some True" "po_is_itm r = Some True" "po_settlement_type r = Some ''physical''"
    and "po_strike r = Some (175 / 2)" "po_amount r = Some 100000000" "po_is_put r = Some True" "po_asset r = ''sol''"
  shows "compute_outcome r = Some ''Bought 1.0000 SOL @ $0''"
proof -
  have "fixed4 (fl (float_of 100000000 / 10 ^ 8)) = ''1.0000''" "comma0 (fl (float_of (py_trunc (175 / 2)) / 10 ^ 8)) = ''0''"
      "map upper_char ''sol'' = ''SOL''"
    by code_simp+
  with assms show ?thesis by (simp add: compute_outcome_def Let_def)
qed

section \<open>Groups\<close>

text \<open>
  A group request that finds only some of its positions fails with 409 but keeps what it wrote. Repeated, it can never
  succeed, whatever is indexed meanwhile: the rows that it marked are not found again.
\<close>

lemma partial_group_sticks:
  assumes "group_positions env ip body w = (Inl (HTTPException 409 m), v)" "check_group_request body = Inr ()"
    and "distinct (map po_tx (pw_orders v @ new))"
  shows "fst (group_positions env' ip' body (v\<lparr>pw_orders := pw_orders v @ new\<rparr>)) \<noteq> Inr n"
proof -
  let ?mark = "\<lambda>r. r\<lparr>po_group := Some (gr_group body)\<rparr>"
  let ?T = "set (map lower (gr_txs body))" and ?rows = "pw_orders v @ new"
  have "wp (group_positions env ip body) (\<lambda>_ _. True) (\<lambda>e u. (\<exists>m. e = HTTPException 409 m) \<longrightarrow>
      length (filter (groupable body) (pw_orders w)) \<noteq> 0 \<and> pw_orders u = tbl_update (groupable body) ?mark (pw_orders w)) w"
    unfolding group_positions_def check_read_rate_limit_def
    by (auto simp: wps assms(2) TOO_MANY_def split: prod.splits option.splits)
  with assms(1) have "length (filter (groupable body) (pw_orders w)) \<noteq> 0 \<and> pw_orders v = tbl_update (groupable body) ?mark (pw_orders w)"
    by (auto simp: wp_def)
  then obtain r where r: "r \<in> set (pw_orders w)" "groupable body r" and v: "pw_orders v = tbl_update (groupable body) ?mark (pw_orders w)"
    by (auto simp: filter_empty_conv)
  have marked: "?mark r \<in> set ?rows" "po_tx r \<in> ?T"
    using r by (force simp: v set_tbl_update, simp add: groupable_def)
  let ?found = "filter (groupable body) ?rows"
  have "po_tx r \<notin> set (map po_tx ?found)"
  proof
    assume "po_tx r \<in> set (map po_tx ?found)"
    then obtain q where q: "q \<in> set ?rows" "groupable body q" "po_tx r = po_tx q" by auto
    then have "po_tx q = po_tx (?mark r)" by simp
    with q(1) marked(1) assms(3) have "q = ?mark r" by (meson distinct_map inj_onD)
    with q(2) show False by (simp add: groupable_def)
  qed
  moreover have "set (map po_tx ?found) \<subseteq> ?T" by (auto simp: groupable_def)
  ultimately have "set (map po_tx ?found) \<subset> ?T" using marked(2) by blast
  then have "card (set (map po_tx ?found)) < card ?T" by (rule psubset_card_mono [rotated]) simp
  moreover have "distinct (map po_tx ?found)" using assms(3) by (metis distinct_map_filter)
  ultimately have "length ?found < length (gr_txs body)"
    using card_length [of "map lower (gr_txs body)"] distinct_card [of "map po_tx ?found"] by simp
  then have "wp (group_positions env' ip' body) (\<lambda>_ _. False) (\<lambda>_ _. True) (v\<lparr>pw_orders := ?rows\<rparr>)"
    unfolding group_positions_def check_read_rate_limit_def
    by (auto simp: wps assms(2) TOO_MANY_def split: prod.splits option.splits)
  then show ?thesis by (auto simp: wp_def split: prod.splits sum.splits)
qed

section \<open>Properties\<close>

text \<open>
  C26: the rate limits are exact. Of any requests in the order of the clock, no client ever has more than the allowed number
  accepted in any window; and the next request is refused precisely when its client has already had that number accepted in the window before it,
  however the table of clients was cleaned up meanwhile.
\<close>

theorem rate_limit_exact:
  assumes "sorted (map snd (requests @ [(ip, now)]))"
  shows "case served window m requests of (accepted, d) \<Rightarrow>
    (fst (rate_limit window m now ip d) \<longleftrightarrow> length (filter (\<lambda>t. now - t < window) (times_of ip accepted)) < m) \<and>
    length (filter (\<lambda>t. u - t < window \<and> t \<le> u) (times_of client accepted)) \<le> m"
  using served_inv [OF assms, of window m] rate_limit_decides [of window m now _ _ ip]
  by (auto simp: limiter_inv_def limited_def split: prod.splits)

theorem rate_limit_exact_witness:
  "case served READ_WINDOW 2 [(''a'', 0), (''a'', 1000000), (''a'', 2000000), (''b'', 3000000)] of (accepted, d) \<Rightarrow>
     (fst (rate_limit READ_WINDOW 2 4000000 ''a'' d) \<longleftrightarrow> length (filter (\<lambda>t. 4000000 - t < READ_WINDOW) (times_of ''a'' accepted)) < 2) \<and>
     length (filter (\<lambda>t. 2000000 - t < READ_WINDOW \<and> t \<le> 2000000) (times_of ''a'' accepted)) \<le> 2"
  by (rule rate_limit_exact) simp

text \<open>
  C16: the price menu is exact. A menu that a request answers with is one from the cache, or it shows exactly the best
  live quotes at a moment of the request: every price is that of a signed quote that is active, of this asset and chain, has at least the minimal time to
  live, expires beyond its cut-off, is for a published token and has the highest bid for its option; and every option with such a quote is
  shown, unless its expiry is no date.
\<close>

theorem prices_show_best_live_quotes:
  assumes "get_prices env a w = (Inr menu, v)"
  shows "list_ex (\<lambda>(k, _, m). k = cache_key a (is_asset_tradable (pe_app env) (asset_value a)) \<and> m = menu) (pw_prices w) \<or>
    fresh_for env a w v menu"
proof -
  let ?tr = "is_asset_tradable (pe_app env) (asset_value a)"
  let ?Q = "\<lambda>menu v. list_ex (\<lambda>(k, _, m). k = cache_key a ?tr \<and> m = menu) (pw_prices w) \<or> fresh_for env a w v menu"
  let ?E = "\<lambda>_ _. True"
  have answer: "wp (case cached of Some menu \<Rightarrow> ret menu | None \<Rightarrow> (case spot of None \<Rightarrow> raise (HTTPException 503 ''Spot price unavailable'')
      | Some s \<Rightarrow> fresh_menu env a ?tr s)) ?Q ?E u"
    if u: "reads_only w u" and cached: "cached = cached_menu (cache_key a ?tr) now u" for cached now spot u
  proof (cases cached)
    case None
    have "wp (fresh_menu env a ?tr s) ?Q ?E u" for s
      by (rule wp_mono [OF wp_fresh_menu [OF refl]]) (use u in \<open>auto intro: fresh_wider\<close>)
    with None show ?thesis by (simp add: wps split: option.split)
  next
    case (Some m)
    then obtain t where "map_of (pw_prices w) (cache_key a ?tr) = Some (t, m)"
      using cached u by (auto simp: cached_menu_def reads_only_def split: option.splits prod.splits if_splits)
    then have "list_ex (\<lambda>(k, _, m'). k = cache_key a ?tr \<and> m' = m) (pw_prices w)"
      unfolding list_ex_iff by (intro bexI [of _ "(cache_key a ?tr, t, m)"]) (auto dest: map_of_SomeD)
    with Some show ?thesis by (simp add: wps)
  qed
  have lookup: "wp (cached_or_fresh env a ?tr spot) ?Q ?E u" if "reads_only w u" for u spot
  proof -
    have "reads_only w (u\<lparr>calls := PubClock # calls u\<rparr>)"
      using that by (auto simp: reads_only_def hist_le_def)
    from answer [OF this refl] show ?thesis unfolding cached_or_fresh_def by (simp add: wps)
  qed
  have healed: "wp (thenE (heal_breaker env a spot) (cached_or_fresh env a ?tr spot)) ?Q ?E u" if "reads_only w u" for u spot
    unfolding wp_then by (rule wp_mono [OF reads.wp_le [OF reads_heal that]], rule lookup) simp_all
  have "wp (bindE (tryE (read_spot_price env a)) (\<lambda>read. thenE (heal_breaker env a (spot_read read)) (cached_or_fresh env a ?tr (spot_read read)))) ?Q ?E w"
    unfolding wp_bind by (rule wp_mono [OF reads.wp_le [OF reads.grows_try [OF reads_spot] reads.le_refl]], rule healed) simp_all
  then have "wp (get_prices env a) ?Q ?E w"
    unfolding get_prices_def ensure_asset_visible_def by (simp add: wps)
  with assms show ?thesis by (simp add: wp_def)
qed

definition demo_pub_app :: app_settings where
  "demo_pub_app = \<lparr>app_env = ''production'', visible_assets = ''eth,btc'', tradable_assets = None, tradable_chains = None,
     solana_bots_enabled = None, solana_circuit_breaker_bot_enabled = None, solana_event_indexer_enabled = None,
     solana_expiry_settler_enabled = None, solana_otoken_manager_enabled = None, solana_rpc_url = [], solana_operator_keypair = [],
     solana_batch_settler_program_id = [], solana_otoken_factory_program_id = [], solana_cluster = []\<rparr>"

definition demo_pub_env :: "bridge_settings \<Rightarrow> pub_env" where
  "demo_pub_env b = \<lparr>pe_fails = \<lambda>_. None, pe_now = \<lambda>_. 1000000000, pe_monotonic = \<lambda>_. 5, pe_price = \<lambda>_. (2500, 1000), pe_index = \<lambda>_. 2500,
     pe_app = demo_pub_app, pe_bridge = b, pe_pricing = \<lparr>expiry_cutoff_hours = 48, short_expiry_cutoff_hours = 4\<rparr>, pe_fee_bps = 400,
     pe_threshold = 1 / 50\<rparr>"

definition demo_live_quote :: quote_row where
  "demo_live_quote = \<lparr>qr_id = ''1'', qr_created = 0, qr_mm = demo_address, qr_otoken = ''0xa'', qr_bid = 5000000, qr_deadline = 2000,
     qr_quote_id = 1, qr_max_amount = 100000000, qr_nonce = 7, qr_signature = ''s'', qr_chain = ''base'', qr_asset = ''eth'',
     qr_strike = Some 2400, qr_expiry = Some 1000000, qr_is_put = Some True, qr_active = True\<rparr>"

definition demo_pub_world :: pub_world where
  "demo_pub_world = \<lparr>calls = [], pw_capacity = [], pw_quotes = [demo_live_quote],
     pw_available = [\<lparr>av_id = ''1'', av_address = ''0xa'', av_underlying = None, av_strike = 2400, av_expiry = 1000000, av_is_put = True,
       av_collateral = [], av_chain = ''base''\<rparr>],
     pw_orders = [], pw_emails = [], pw_breaker = [], pw_prices = [], pw_waitlist_hits = [], pw_read_hits = []\<rparr>"

lemma demo_eth: "is_asset_visible demo_pub_app ''eth''" "is_asset_tradable demo_pub_app ''eth''"
  by code_simp+

theorem prices_show_best_live_quotes_witness:
  "\<forall>b. case get_prices (demo_pub_env b) ETH demo_pub_world of
     (Inl _, _) \<Rightarrow> False
   | (Inr menu, v) \<Rightarrow>
       list_ex (\<lambda>(k, _, m). k = cache_key ETH (is_asset_tradable (pe_app (demo_pub_env b)) (asset_value ETH)) \<and> m = menu) (pw_prices demo_pub_world) \<or>
       fresh_for (demo_pub_env b) ETH demo_pub_world v menu"
    (is "\<forall>b. ?P b")
proof
  fix b
  have "case get_prices (demo_pub_env b) ETH demo_pub_world of (Inl _, _) \<Rightarrow> False | (Inr _, _) \<Rightarrow> True"
    by (simp add: get_prices_def ensure_asset_visible_def read_spot_price_def tryE_def run_defs perform_def demo_pub_env_def demo_pub_world_def demo_eth
        get_chain_for_asset_def spot_read_def heal_breaker_def pub_now_def is_paused_for_def get_state_def new_asset_state_def cached_or_fresh_def
        pub_clock_def cached_menu_def fresh_menu_def fetch_active_quotes_def pub_unix_def queried_quote_def beyond_cutoff_def us_defs
        MIN_QUOTE_TTL_def PRICES_TTL_def cutoff_hours_for_expiry_def demo_live_quote_def fetch_valid_otoken_addresses_def build_menu_def
        run_breaker_def check_def fetch_position_counts_def Let_def touch_def update_reference_def split: prod.split)
  with prices_show_best_live_quotes [of "demo_pub_env b" ETH demo_pub_world] show "?P b"
    by (auto split: prod.splits sum.splits)
qed

end
