(* ===== verification/Accounts.thy ===== *)
theory Accounts
  imports Public_Positions
begin

text \<open>
  Accounts with their members and wallets, \<open>src/api/b1nary_accounts.py\<close>: creation, the messages by which a wallet is linked, linking
  with and without a signature, members, and the positions of an account.
\<close>

section \<open>The world\<close>

record account_row =
  bac_id :: string
  bac_username :: string
  bac_normalized :: string

record member_row =
  bm_account :: string
  bm_user :: string
  bm_role :: string
  bm_verified :: int

record wallet_row =
  bw_account :: string
  bw_user :: string
  bw_chain :: string
  bw_address :: string
  bw_norm :: string
  bw_type :: string
  bw_role :: string
  bw_client :: "string option"
  bw_message :: "string option"
  bw_signature :: "string option"
  bw_verified :: "int option"

record nonce_row =
  bn_nonce :: string
  bn_account :: string
  bn_user :: string
  bn_chain :: string
  bn_address :: string
  bn_norm :: string
  bn_role :: string
  bn_message :: string
  bn_expires :: int
  bn_used :: "int option"

datatype acct_call =
    ReadMembers | ReadAccounts | ReadWallets | ReadNonces
  | InsertAccount | InsertMember | InsertNonce | UpsertWallet | MarkNonce | ReadWalletOrders string

text \<open>The rate limiter is the one of the public API, whose world is a part of this one.\<close>

record acct_world = "acct_call hist" +
  aw_public :: pub_world
  aw_accounts :: "account_row list"
  aw_members :: "member_row list"
  aw_wallets :: "wallet_row list"
  aw_nonces :: "nonce_row list"

text \<open>The environment adds new identifiers and tokens, and the signature libraries of the two chains.\<close>

record acct_env =
  ae_fails :: "acct_call list \<Rightarrow> exn option"
  ae_now :: "acct_call list \<Rightarrow> int"
  ae_new_id :: "acct_call list \<Rightarrow> string"
  ae_token :: "acct_call list \<Rightarrow> string"
  ae_recover :: "string \<Rightarrow> byte list \<Rightarrow> exn + string"
  ae_ed25519 :: ed25519_lib
  ae_encode :: "string \<Rightarrow> byte list"
  ae_public :: pub_env

type_synonym 'a apy = "(acct_world, 'a) py"

abbreviation acall :: "acct_env \<Rightarrow> acct_call \<Rightarrow> unit apy" where
  "acall env c \<equiv> perform (ae_fails env) c"

definition acct_now :: "acct_env \<Rightarrow> int apy" where
  "acct_now env = getsE (\<lambda>w. ae_now env (calls w))"

definition on_public :: "'a ppy \<Rightarrow> 'a apy" where
  "on_public m = (\<lambda>w. case m (aw_public w) of (r, p) \<Rightarrow> (r, w\<lparr>aw_public := p\<rparr>))"

definition acct_limit :: "acct_env \<Rightarrow> string \<Rightarrow> unit apy" where
  "acct_limit env ip = on_public (check_read_rate_limit (ae_public env) ip)"

text \<open>The unique constraints of the tables.\<close>

definition DUPLICATE :: exn where
  "DUPLICATE = OtherError ''duplicate key value violates unique constraint''"

section \<open>Dates\<close>

text \<open>The civil date of a day, counted from 1970-01-01, and \<open>isoformat\<close> of a time in UTC.\<close>

definition civil :: "int \<Rightarrow> int \<times> int \<times> int" where
  "civil days =
     (let z = days + 719468; era = z div 146097; doe = z mod 146097;
          yoe = (doe - doe div 1460 + doe div 36524 - doe div 146096) div 365;
          doy = doe - (365 * yoe + yoe div 4 - yoe div 100); mp = (5 * doy + 2) div 153;
          m = (if mp < 10 then mp + 3 else mp - 9) in
      (yoe + era * 400 + (if m \<le> 2 then 1 else 0), m, doy - (153 * mp + 2) div 5 + 1))"

definition iso_utc :: "int \<Rightarrow> string" where
  "iso_utc t =
     (case civil (t div us_day) of (y, m, d) \<Rightarrow>
      let s = t mod us_day div us_second; us = t mod us_second; two = (\<lambda>n. pad_digits 2 (nat n)) in
      pad_digits 4 (nat y) @ ''-'' @ two m @ ''-'' @ two d @ ''T'' @ two (s div 3600) @ '':'' @ two (s div 60 mod 60) @ '':'' @ two (s mod 60) @
      (if us = 0 then [] else ''.'' @ pad_digits 6 (nat us)) @ ''+00:00'')"

section \<open>Wallets and signatures\<close>

definition LINK_MESSAGE_TTL_MINUTES :: int where "LINK_MESSAGE_TTL_MINUTES = 10"

definition normalize_username :: "string \<Rightarrow> exn + string" where
  "normalize_username s = (let n = lower (strip s) in if n = [] then Inl (HTTPException 400 ''username is required'') else Inr n)"

definition normalize_wallet_address :: "string \<Rightarrow> string \<Rightarrow> exn + string" where
  "normalize_wallet_address chain a =
     (if chain = ''base'' then (if eth_address_re a then Inr (lower a) else Inl (HTTPException 400 ''Invalid Base wallet address''))
      else if is_valid_solana_address a then Inr a else Inl (HTTPException 400 ''Invalid Solana wallet address''))"

fun join_lines :: "string list \<Rightarrow> string" where
  "join_lines [] = []"
| "join_lines [l] = l"
| "join_lines (l # m # ls) = l @ [CHR 0x0A] @ join_lines (m # ls)"

definition build_link_message :: "string \<Rightarrow> string \<Rightarrow> string \<Rightarrow> string \<Rightarrow> string \<Rightarrow> string \<Rightarrow> int \<Rightarrow> int \<Rightarrow> string" where
  "build_link_message account user chain naddr role nonce issued expires =
     join_lines [''Link wallet to b1nary account'', [], ''Account: '' @ account, ''Privy user: '' @ user, ''Wallet: '' @ chain @ '':'' @ naddr,
       ''Role: '' @ role, ''Nonce: '' @ nonce, ''Issued at: '' @ iso_utc issued, ''Expires at: '' @ iso_utc expires]"

definition verify_base_signature :: "acct_env \<Rightarrow> string \<Rightarrow> string \<Rightarrow> string \<Rightarrow> bool" where
  "verify_base_signature env naddr message sg =
     (case fromhex (if starts_with sg ''0x'' then drop 2 sg else sg) of
        None \<Rightarrow> False
      | Some bs \<Rightarrow> (case ae_recover env message bs of Inl _ \<Rightarrow> False | Inr a \<Rightarrow> lower a = naddr))"

definition verify_solana_signature :: "acct_env \<Rightarrow> string \<Rightarrow> string \<Rightarrow> string \<Rightarrow> bool" where
  "verify_solana_signature env address message sg =
     (case pubkey_from_string (ae_ed25519 env) address of
        Inl _ \<Rightarrow> False
      | Inr k \<Rightarrow> (case signature_from_string (ae_ed25519 env) sg of
          Inl _ \<Rightarrow> False
        | Inr s \<Rightarrow> ed25519_verify (ae_ed25519 env) k (ae_encode env message) s = Inr True))"

definition verify_wallet_signature :: "acct_env \<Rightarrow> string \<Rightarrow> string \<Rightarrow> string \<Rightarrow> string \<Rightarrow> bool" where
  "verify_wallet_signature env chain naddr message sg =
     (if chain = ''base'' then verify_base_signature env naddr message sg else verify_solana_signature env naddr message sg)"

section \<open>Reading accounts\<close>

record account_bundle =
  ab_account :: "account_row option"
  ab_members :: "member_row list"
  ab_wallets :: "wallet_row list"

definition no_bundle :: account_bundle where
  "no_bundle = \<lparr>ab_account = None, ab_members = [], ab_wallets = []\<rparr>"

definition or_empty :: "account_bundle option \<Rightarrow> account_bundle" where
  "or_empty b = (case b of None \<Rightarrow> no_bundle | Some x \<Rightarrow> x)"

definition find_account :: "acct_env \<Rightarrow> string \<Rightarrow> account_row option apy" where
  "find_account env aid = thenE (acall env ReadAccounts) (getsE (\<lambda>w. tbl_get bac_id aid (aw_accounts w)))"

definition fetch_account_bundle :: "acct_env \<Rightarrow> string \<Rightarrow> account_bundle option apy" where
  "fetch_account_bundle env aid =
     bindE (find_account env aid) (\<lambda>found. case found of
       None \<Rightarrow> ret None
     | Some a \<Rightarrow>
         bindE (thenE (acall env ReadMembers) (getsE (\<lambda>w. filter (\<lambda>m. bm_account m = aid) (aw_members w)))) (\<lambda>members.
         bindE (thenE (acall env ReadWallets) (getsE (\<lambda>w. filter (\<lambda>x. bw_account x = aid) (aw_wallets w)))) (\<lambda>wallets.
           ret (Some \<lparr>ab_account = Some a, ab_members = members, ab_wallets = wallets\<rparr>))))"

definition find_member :: "acct_env \<Rightarrow> string \<Rightarrow> member_row option apy" where
  "find_member env user = thenE (acall env ReadMembers) (getsE (\<lambda>w. tbl_get bm_user user (aw_members w)))"

definition fetch_account_by_privy_user_id :: "acct_env \<Rightarrow> string \<Rightarrow> account_bundle option apy" where
  "fetch_account_by_privy_user_id env user =
     bindE (find_member env user) (\<lambda>m. case m of None \<Rightarrow> ret None | Some r \<Rightarrow> fetch_account_bundle env (bm_account r))"

definition wallet_key :: "wallet_row \<Rightarrow> string \<times> string" where
  "wallet_key r = (bw_chain r, bw_norm r)"

definition find_wallet :: "acct_env \<Rightarrow> string \<Rightarrow> string \<Rightarrow> wallet_row option apy" where
  "find_wallet env chain naddr = thenE (acall env ReadWallets) (getsE (\<lambda>w. tbl_get wallet_key (chain, naddr) (aw_wallets w)))"

definition fetch_account_by_wallet :: "acct_env \<Rightarrow> string \<Rightarrow> string \<Rightarrow> account_bundle option apy" where
  "fetch_account_by_wallet env chain naddr =
     bindE (find_wallet env chain naddr) (\<lambda>found. case found of
       None \<Rightarrow> ret None
     | Some r \<Rightarrow>
         if bw_verified r = None \<or> \<not> elem (bw_role r) [''trading'', ''funding'', ''login''] then ret None
         else fetch_account_bundle env (bw_account r))"

definition fetch_account :: "acct_env \<Rightarrow> string \<Rightarrow> account_row apy" where
  "fetch_account env aid =
     bindE (find_account env aid) (\<lambda>a. case a of None \<Rightarrow> raise (HTTPException 404 ''b1nary account not found'') | Some r \<Rightarrow> ret r)"

text \<open>\<open>except HTTPException: raise\<close>, and any other exception becomes a 502.\<close>

definition as_502 :: "string \<Rightarrow> exn \<Rightarrow> 'a apy" where
  "as_502 m e = (case e of HTTPException c d \<Rightarrow> raise e | _ \<Rightarrow> raise (HTTPException 502 m))"

definition get_b1nary_account :: "acct_env \<Rightarrow> string \<Rightarrow> string \<Rightarrow> account_bundle apy" where
  "get_b1nary_account env ip user =
     thenE (acct_limit env ip)
       (bindE (catchE (fetch_account_by_privy_user_id env user) (\<lambda>_. raise (HTTPException 502 ''Could not fetch b1nary account'')))
          (\<lambda>b. ret (or_empty b)))"

definition get_b1nary_account_by_wallet :: "acct_env \<Rightarrow> string \<Rightarrow> string \<Rightarrow> string \<Rightarrow> account_bundle apy" where
  "get_b1nary_account_by_wallet env ip chain a =
     thenE (acct_limit env ip)
     (bindE (liftE (normalize_wallet_address chain a)) (\<lambda>naddr.
      bindE (catchE (fetch_account_by_wallet env chain naddr) (\<lambda>_. raise (HTTPException 502 ''Could not fetch b1nary account'')))
        (\<lambda>b. ret (or_empty b))))"

section \<open>Creating an account\<close>

definition insert_account :: "acct_env \<Rightarrow> string \<Rightarrow> string \<Rightarrow> account_row apy" where
  "insert_account env username normalized =
     thenE (acall env InsertAccount)
     (bindE (getsE (\<lambda>w. (list_ex (\<lambda>r. bac_normalized r = normalized) (aw_accounts w), ae_new_id env (calls w)))) (\<lambda>(taken, aid).
        if taken then raise DUPLICATE
        else (let r = \<lparr>bac_id = aid, bac_username = username, bac_normalized = normalized\<rparr> in
              thenE (modifyE (\<lambda>w. w\<lparr>aw_accounts := aw_accounts w @ [r]\<rparr>)) (ret r))))"

definition insert_member :: "acct_env \<Rightarrow> string \<Rightarrow> string \<Rightarrow> member_row apy" where
  "insert_member env aid user =
     bindE (acct_now env) (\<lambda>now.
     thenE (acall env InsertMember)
     (bindE (getsE (\<lambda>w. list_ex (\<lambda>m. bm_user m = user) (aw_members w))) (\<lambda>taken.
        if taken then raise DUPLICATE
        else (let r = \<lparr>bm_account = aid, bm_user = user, bm_role = ''owner'', bm_verified = now\<rparr> in
              thenE (modifyE (\<lambda>w. w\<lparr>aw_members := aw_members w @ [r]\<rparr>)) (ret r)))))"

text \<open>\<open>needle in s\<close>.\<close>

fun contains :: "string \<Rightarrow> string \<Rightarrow> bool" where
  "contains [] p = (p = [])"
| "contains (c # cs) p = (starts_with (c # cs) p \<or> contains cs p)"

definition creation_error :: "exn \<Rightarrow> 'a apy" where
  "creation_error e =
     (case e of
        HTTPException c d \<Rightarrow> raise e
      | _ \<Rightarrow>
          if contains (lower (exn_str e)) ''duplicate'' \<or> contains (lower (exn_str e)) ''unique''
          then raise (HTTPException 409 ''Username or Privy user already exists'')
          else raise (HTTPException 502 ''Could not create b1nary account''))"

definition create_b1nary_account :: "acct_env \<Rightarrow> string \<Rightarrow> string \<Rightarrow> string \<Rightarrow> account_bundle apy" where
  "create_b1nary_account env ip username user =
     thenE (acct_limit env ip)
     (bindE (liftE (normalize_username (strip username))) (\<lambda>normalized.
      catchE
        (bindE (find_member env user) (\<lambda>m.
           if m \<noteq> None then raise (HTTPException 409 ''Privy user already belongs to a b1nary account'')
           else
             bindE (insert_account env (strip username) normalized) (\<lambda>a.
             bindE (insert_member env (bac_id a) user) (\<lambda>r.
               ret \<lparr>ab_account = Some a, ab_members = [r], ab_wallets = []\<rparr>))))
        creation_error))"

section \<open>Linking wallets\<close>

definition wallet_of_other :: "acct_env \<Rightarrow> string \<Rightarrow> string \<Rightarrow> string \<Rightarrow> unit apy" where
  "wallet_of_other env aid chain naddr =
     bindE (find_wallet env chain naddr) (\<lambda>found.
       if (case found of None \<Rightarrow> False | Some r \<Rightarrow> bw_account r \<noteq> aid)
       then raise (HTTPException 409 ''Wallet already belongs to another b1nary account'') else ret ())"

record link_message =
  lm_nonce :: string
  lm_message :: string
  lm_expires :: int

definition insert_nonce :: "acct_env \<Rightarrow> nonce_row \<Rightarrow> unit apy" where
  "insert_nonce env r =
     thenE (acall env InsertNonce)
     (bindE (getsE (\<lambda>w. list_ex (\<lambda>x. bn_nonce x = bn_nonce r) (aw_nonces w))) (\<lambda>taken.
        if taken then raise DUPLICATE else modifyE (\<lambda>w. w\<lparr>aw_nonces := aw_nonces w @ [r]\<rparr>)))"

definition create_wallet_link_message ::
  "acct_env \<Rightarrow> string \<Rightarrow> string \<Rightarrow> string \<Rightarrow> string \<Rightarrow> string \<Rightarrow> string \<Rightarrow> link_message apy" where
  "create_wallet_link_message env ip aid user chain address role =
     thenE (acct_limit env ip)
     (bindE (liftE (normalize_wallet_address chain address)) (\<lambda>naddr.
      bindE (acct_now env) (\<lambda>issued.
      bindE (getsE (\<lambda>w. ae_token env (calls w))) (\<lambda>nonce.
      let expires = issued + LINK_MESSAGE_TTL_MINUTES * 60 * us_second;
          message = build_link_message aid user chain naddr role nonce issued expires in
      thenE (catchE
        (bindE (fetch_account env aid) (\<lambda>_.
         thenE (wallet_of_other env aid chain naddr)
           (insert_nonce env \<lparr>bn_nonce = nonce, bn_account = aid, bn_user = user, bn_chain = chain, bn_address = address, bn_norm = naddr,
              bn_role = role, bn_message = message, bn_expires = expires, bn_used = None\<rparr>)))
        (as_502 ''Could not create wallet link message''))
      (ret \<lparr>lm_nonce = nonce, lm_message = message, lm_expires = expires\<rparr>)))))"

record link_request =
  lr_user :: string
  lr_chain :: string
  lr_address :: string
  lr_type :: string
  lr_role :: string
  lr_client :: "string option"
  lr_nonce :: string
  lr_message :: string
  lr_signature :: string

definition nonce_matches :: "string \<Rightarrow> string \<Rightarrow> link_request \<Rightarrow> nonce_row \<Rightarrow> bool" where
  "nonce_matches aid naddr body r \<longleftrightarrow> bn_nonce r = lr_nonce body \<and> bn_account r = aid \<and> bn_chain r = lr_chain body \<and> bn_norm r = naddr"

definition check_nonce :: "int \<Rightarrow> link_request \<Rightarrow> nonce_row option \<Rightarrow> exn + nonce_row" where
  "check_nonce now body found =
     (case found of
        None \<Rightarrow> Inl (HTTPException 400 ''Invalid wallet link nonce'')
      | Some r \<Rightarrow>
          if bn_used r \<noteq> None then Inl (HTTPException 400 ''Wallet link nonce has already been used'')
          else if bn_expires r \<le> now then Inl (HTTPException 400 ''Wallet link nonce has expired'')
          else if bn_message r \<noteq> lr_message body then Inl (HTTPException 400 ''Wallet link message does not match nonce'')
          else if bn_user r \<noteq> lr_user body then Inl (HTTPException 400 ''Privy user does not match wallet link nonce'')
          else if bn_role r \<noteq> lr_role body then Inl (HTTPException 400 ''Wallet role does not match wallet link nonce'')
          else Inr r)"

text \<open>The upsert on chain and address gives every column.\<close>

definition upsert_wallet :: "acct_env \<Rightarrow> wallet_row \<Rightarrow> unit apy" where
  "upsert_wallet env r =
     thenE (acall env UpsertWallet) (modifyE (\<lambda>w. w\<lparr>aw_wallets := tbl_upsert wallet_key (\<lambda>_. r) r (aw_wallets w)\<rparr>))"

definition linked_wallet :: "string \<Rightarrow> string \<Rightarrow> int \<Rightarrow> link_request \<Rightarrow> wallet_row" where
  "linked_wallet aid naddr now body =
     \<lparr>bw_account = aid, bw_user = lr_user body, bw_chain = lr_chain body, bw_address = lr_address body, bw_norm = naddr,
      bw_type = lr_type body, bw_role = lr_role body, bw_client = lr_client body, bw_message = Some (lr_message body),
      bw_signature = Some (lr_signature body), bw_verified = Some now\<rparr>"

definition prove_wallet :: "acct_env \<Rightarrow> string \<Rightarrow> string \<Rightarrow> link_request \<Rightarrow> wallet_row apy" where
  "prove_wallet env aid naddr body =
     bindE (fetch_account env aid) (\<lambda>_.
     bindE (thenE (acall env ReadNonces) (getsE (\<lambda>w. find (nonce_matches aid naddr body) (aw_nonces w)))) (\<lambda>found.
     bindE (acct_now env) (\<lambda>now.
     bindE (liftE (check_nonce now body found)) (\<lambda>_.
     thenE (wallet_of_other env aid (lr_chain body) naddr)
       (if \<not> verify_wallet_signature env (lr_chain body) naddr (lr_message body) (lr_signature body)
        then raise (HTTPException 400 ''Invalid wallet signature'')
        else bindE (acct_now env) (\<lambda>now. ret (linked_wallet aid naddr now body)))))))"

definition link_wallet :: "acct_env \<Rightarrow> string \<Rightarrow> string \<Rightarrow> link_request \<Rightarrow> wallet_row apy" where
  "link_wallet env ip aid body =
     thenE (acct_limit env ip)
     (bindE (liftE (normalize_wallet_address (lr_chain body) (lr_address body))) (\<lambda>naddr.
      catchE
        (bindE (prove_wallet env aid naddr body) (\<lambda>r.
         thenE (upsert_wallet env r)
         (thenE (acall env MarkNonce)
         (thenE (modifyE (\<lambda>w. w\<lparr>aw_nonces := tbl_update (\<lambda>x. bn_nonce x = lr_nonce body) (\<lambda>x. x\<lparr>bn_used := bw_verified r\<rparr>) (aw_nonces w)\<rparr>))
           (ret r)))))
        (as_502 ''Could not link wallet'')))"

record trusted_request =
  tr_user :: string
  tr_chain :: string
  tr_address :: string
  tr_type :: string
  tr_role :: string
  tr_client :: "string option"

definition trusted_wallet :: "string \<Rightarrow> string \<Rightarrow> int \<Rightarrow> trusted_request \<Rightarrow> wallet_row" where
  "trusted_wallet aid naddr now body =
     \<lparr>bw_account = aid, bw_user = tr_user body, bw_chain = tr_chain body, bw_address = tr_address body, bw_norm = naddr,
      bw_type = tr_type body, bw_role = tr_role body, bw_client = tr_client body, bw_message = None, bw_signature = None,
      bw_verified = Some now\<rparr>"

text \<open>The request's type admits smart and embedded wallets only.\<close>

definition link_trusted_wallet :: "acct_env \<Rightarrow> string \<Rightarrow> string \<Rightarrow> trusted_request \<Rightarrow> wallet_row apy" where
  "link_trusted_wallet env ip aid body =
     (if \<not> elem (tr_type body) [''smart'', ''embedded''] then raise (HTTPException 422 ''wallet_type'')
      else
        thenE (acct_limit env ip)
        (bindE (liftE (normalize_wallet_address (tr_chain body) (tr_address body))) (\<lambda>naddr.
         catchE
           (bindE (fetch_account env aid) (\<lambda>_.
            thenE (wallet_of_other env aid (tr_chain body) naddr)
            (bindE (acct_now env) (\<lambda>now.
             thenE (upsert_wallet env (trusted_wallet aid naddr now body)) (ret (trusted_wallet aid naddr now body))))))
           (as_502 ''Could not link trusted wallet''))))"

definition link_trusted_member :: "acct_env \<Rightarrow> string \<Rightarrow> string \<Rightarrow> string \<Rightarrow> account_bundle apy" where
  "link_trusted_member env ip aid user =
     thenE (acct_limit env ip)
     (bindE (catchE
        (bindE (fetch_account env aid) (\<lambda>_.
         bindE (find_member env user) (\<lambda>m. case m of
           Some r \<Rightarrow>
             if bm_account r \<noteq> aid then raise (HTTPException 409 ''Privy user already belongs to another b1nary account'')
             else fetch_account_bundle env aid
         | None \<Rightarrow> bindE (insert_member env aid user) (\<lambda>_. fetch_account_bundle env aid))))
        (as_502 ''Could not link b1nary account member''))
      (\<lambda>b. ret (or_empty b)))"

section \<open>Positions of an account\<close>

definition trading_wallet :: "string \<Rightarrow> wallet_row \<Rightarrow> bool" where
  "trading_wallet aid r \<longleftrightarrow> bw_account r = aid \<and> bw_role r = ''trading'' \<and> bw_verified r \<noteq> None"

definition wallet_orders :: "acct_env \<Rightarrow> position_view list \<Rightarrow> wallet_row \<Rightarrow> position_view list apy" where
  "wallet_orders env found r =
     thenE (acall env (ReadWalletOrders (bw_norm r)))
       (getsE (\<lambda>w. found @ map (enrich_position (ae_public env)) (positions_of (bw_norm r) (bw_chain r) (pw_orders (aw_public w)))))"

definition fetch_account_positions :: "acct_env \<Rightarrow> string \<Rightarrow> position_view list apy" where
  "fetch_account_positions env aid =
     bindE (thenE (acall env ReadWallets) (getsE (\<lambda>w. filter (trading_wallet aid) (aw_wallets w)))) (foldE (wallet_orders env) [])"

definition get_account_positions :: "acct_env \<Rightarrow> string \<Rightarrow> string \<Rightarrow> position_view list apy" where
  "get_account_positions env ip aid =
     thenE (acct_limit env ip)
       (catchE (bindE (fetch_account env aid) (\<lambda>_. fetch_account_positions env aid)) (as_502 ''Could not fetch account positions''))"

definition get_account_positions_by_privy_user_id :: "acct_env \<Rightarrow> string \<Rightarrow> string \<Rightarrow> position_view list apy" where
  "get_account_positions_by_privy_user_id env ip user =
     thenE (acct_limit env ip)
       (catchE
         (bindE (fetch_account_by_privy_user_id env user) (\<lambda>b.
            case (case b of None \<Rightarrow> None | Some x \<Rightarrow> ab_account x) of
              None \<Rightarrow> ret []
            | Some a \<Rightarrow> fetch_account_positions env (bac_id a)))
         (\<lambda>_. raise (HTTPException 502 ''Could not fetch account positions'')))"

section \<open>Requests\<close>

datatype acct_request =
    CreateAccount string string string
  | LinkMessage string string string string string string
  | LinkWallet string string link_request
  | TrustedWallet string string trusted_request
  | TrustedMember string string string

definition serve_request :: "acct_env \<Rightarrow> acct_request \<Rightarrow> unit apy" where
  "serve_request env q =
     (case q of
        CreateAccount ip username user \<Rightarrow> thenE (create_b1nary_account env ip username user) (ret ())
      | LinkMessage ip aid user chain address role \<Rightarrow> thenE (create_wallet_link_message env ip aid user chain address role) (ret ())
      | LinkWallet ip aid body \<Rightarrow> thenE (link_wallet env ip aid body) (ret ())
      | TrustedWallet ip aid body \<Rightarrow> thenE (link_trusted_wallet env ip aid body) (ret ())
      | TrustedMember ip aid user \<Rightarrow> thenE (link_trusted_member env ip aid user) (ret ()))"

text \<open>Requests one after the other; a failed one does not stop the server.\<close>

definition serve_requests :: "acct_env \<Rightarrow> acct_request list \<Rightarrow> unit apy" where
  "serve_requests env = for_each (\<lambda>q. catchE (serve_request env q) (\<lambda>_. ret ()))"

end
