(* ===== verification/Accounts_Safety.thy ===== *)
theory Accounts_Safety
  imports Accounts Public_Safety
begin

text \<open>
  What the account API guarantees: wallets never move between accounts and each is proved or trusted; and what it does not: trusted requests
  prove nothing, and a failed creation keeps the user name.
\<close>

section \<open>Evidence for wallets\<close>

definition LINK_TTL :: int where "LINK_TTL = LINK_MESSAGE_TTL_MINUTES * 60 * us_second"

text \<open>The message of a nonce is the one built from its columns, issued ten minutes before it expires.\<close>

definition nonce_ok :: "nonce_row \<Rightarrow> bool" where
  "nonce_ok r \<longleftrightarrow> bn_message r =
     build_link_message (bn_account r) (bn_user r) (bn_chain r) (bn_norm r) (bn_role r) (bn_nonce r) (bn_expires r - LINK_TTL) (bn_expires r)"

definition trusted_evidence :: "wallet_row \<Rightarrow> bool" where
  "trusted_evidence r \<longleftrightarrow> elem (bw_type r) [''smart'', ''embedded''] \<and> bw_message r = None \<and> bw_signature r = None"

text \<open>
  The wallet's key has signed a text that names this account, this user, this wallet and this role.
\<close>

definition signed_evidence :: "acct_env \<Rightarrow> wallet_row \<Rightarrow> bool" where
  "signed_evidence env r \<longleftrightarrow>
     (\<exists>nonce expires sg. bw_signature r = Some sg \<and>
        bw_message r = Some (build_link_message (bw_account r) (bw_user r) (bw_chain r) (bw_norm r) (bw_role r) nonce (expires - LINK_TTL) expires) \<and>
        verify_wallet_signature env (bw_chain r) (bw_norm r) (the (bw_message r)) sg)"

definition evidence :: "acct_env \<Rightarrow> wallet_row \<Rightarrow> bool" where
  "evidence env r \<longleftrightarrow> trusted_evidence r \<or> signed_evidence env r"

definition tables_ok :: "acct_world \<Rightarrow> bool" where
  "tables_ok w \<longleftrightarrow> distinct (map wallet_key (aw_wallets w)) \<and> list_all nonce_ok (aw_nonces w)"

definition wallets_kept :: "acct_world \<Rightarrow> acct_world \<Rightarrow> bool" where
  "wallets_kept w v \<longleftrightarrow>
     list_all (\<lambda>r. list_ex (\<lambda>s. wallet_key s = wallet_key r \<and> bw_account s = bw_account r) (aw_wallets v)) (aw_wallets w)"

definition wallets_evidenced :: "acct_env \<Rightarrow> acct_world \<Rightarrow> acct_world \<Rightarrow> bool" where
  "wallets_evidenced env w v \<longleftrightarrow> list_all (\<lambda>s. s \<in> set (aw_wallets w) \<or> evidence env s) (aw_wallets v)"

definition acct_le :: "acct_env \<Rightarrow> acct_world \<Rightarrow> acct_world \<Rightarrow> bool" where
  "acct_le env w v \<longleftrightarrow> (tables_ok w \<longrightarrow> tables_ok v \<and> wallets_kept w v \<and> wallets_evidenced env w v)"

lemma kept_refl: "wallets_kept w w"
  by (auto simp: wallets_kept_def list_all_iff list_ex_iff)

lemma evidenced_refl: "wallets_evidenced env w w"
  by (simp add: wallets_evidenced_def list_all_iff)

interpretation accts: world_order "acct_le env" for env
proof unfold_locales
  show "acct_le env w w" for w by (simp add: acct_le_def kept_refl evidenced_refl)
  fix u v w assume a: "acct_le env u v" "acct_le env v w"
  then show "acct_le env u w"
    unfolding acct_le_def wallets_kept_def wallets_evidenced_def list_all_iff list_ex_iff by metis
qed

text \<open>Worlds with the same wallets and nonces.\<close>

definition same_wallets :: "acct_world \<Rightarrow> acct_world \<Rightarrow> bool" where
  "same_wallets w v \<longleftrightarrow> aw_wallets v = aw_wallets w \<and> aw_nonces v = aw_nonces w"

interpretation same: world_order same_wallets
  by unfold_locales (auto simp: same_wallets_def)

lemma same_le: "same_wallets w v \<Longrightarrow> acct_le env w v"
  by (auto simp: same_wallets_def acct_le_def tables_ok_def wallets_kept_def wallets_evidenced_def list_all_iff list_ex_iff)

lemma same_grows: "grows same_wallets m \<Longrightarrow> grows (acct_le env) m"
  by (simp add: grows_def same_le)

lemma same_call: "grows same_wallets (acall env c)"
  by (rule grows_perform) (simp add: same_wallets_def)

lemma same_limit: "grows same_wallets (acct_limit env ip)"
  by (simp add: grows_def acct_limit_def on_public_def same_wallets_def split: prod.split)

lemma same_reads: "grows same_wallets (acct_now env)" "grows same_wallets (find_account env aid)" "grows same_wallets (find_member env user)"
  "grows same_wallets (find_wallet env chain naddr)"
  unfolding acct_now_def find_account_def find_member_def find_wallet_def by (intro same.rules same_call)+

lemma same_account: "grows same_wallets (fetch_account env aid)"
  unfolding fetch_account_def by (intro same.rules same_reads)

lemma same_bundle: "grows same_wallets (fetch_account_bundle env aid)"
  unfolding fetch_account_bundle_def by (intro same.rules same_reads same_call)

lemma same_insert: "grows same_wallets (insert_account env username normalized)" "grows same_wallets (insert_member env aid user)"
  unfolding insert_account_def insert_member_def Let_def
  by (intro same.rules same_reads same_call same.grows_modify; simp add: same_wallets_def)+

lemma same_create: "grows same_wallets (create_b1nary_account env ip username user)"
proof -
  have "grows same_wallets (creation_error e)" for e by (cases e) (simp_all add: creation_error_def same.rules)
  then show ?thesis unfolding create_b1nary_account_def by (intro same.rules same_limit same_reads same_insert)
qed

lemma same_502: "grows same_wallets (as_502 m e)"
  by (cases e) (simp_all add: as_502_def same.rules)

lemma same_trusted_member: "grows same_wallets (link_trusted_member env ip aid user)"
  unfolding link_trusted_member_def by (intro same.rules same_limit same_account same_reads same_insert same_bundle same_502)

lemma same_other: "grows same_wallets (wallet_of_other env aid chain naddr)"
  unfolding wallet_of_other_def by (intro same.rules same_reads)

section \<open>The three ways of changing wallets and nonces\<close>

lemma le_insert_nonce: "nonce_ok r \<Longrightarrow> grows (acct_le env') (insert_nonce env r)"
  unfolding insert_nonce_def
  by (intro accts.rules same_grows [OF same_call] accts.grows_modify)
    (simp add: acct_le_def tables_ok_def wallets_kept_def wallets_evidenced_def list_all_iff list_ex_iff, blast)

lemma le_link_message: "grows (acct_le env') (create_wallet_link_message env ip aid user chain address role)"
  unfolding create_wallet_link_message_def Let_def
  by (intro accts.rules same_grows [OF same_limit] same_grows [OF same_reads(1)] same_grows [OF same_account] same_grows [OF same_other]
      same_grows [OF same_502] le_insert_nonce) (simp add: nonce_ok_def LINK_TTL_def)

text \<open>An upsert keeps the order when the row has evidence and the rows with its key belong to its account.\<close>

definition may_link :: "acct_env \<Rightarrow> acct_world \<Rightarrow> wallet_row \<Rightarrow> bool" where
  "may_link env w r \<longleftrightarrow> evidence env r \<and> list_all (\<lambda>s. wallet_key s = wallet_key r \<longrightarrow> bw_account s = bw_account r) (aw_wallets w)"

interpretation wallets: upsert_table wallet_key "\<lambda>new _. new"
  by unfold_locales simp

lemma le_upsert:
  assumes "tables_ok w \<Longrightarrow> may_link env w r"
  shows "acct_le env w (w\<lparr>aw_wallets := tbl_upsert wallet_key (\<lambda>_. r) r (aw_wallets w)\<rparr>)"
  unfolding acct_le_def
proof (intro impI conjI)
  let ?rows = "tbl_upsert wallet_key (\<lambda>_. r) r (aw_wallets w)"
  assume ok: "tables_ok w"
  then have r: "evidence env r" "\<And>s. s \<in> set (aw_wallets w) \<Longrightarrow> wallet_key s = wallet_key r \<Longrightarrow> bw_account s = bw_account r"
    using assms by (auto simp: may_link_def list_all_iff)
  show "tables_ok (w\<lparr>aw_wallets := ?rows\<rparr>)"
    using ok wallets.distinct_upsert [of "aw_wallets w" r] by (simp add: tables_ok_def)
  show "wallets_evidenced env w (w\<lparr>aw_wallets := ?rows\<rparr>)"
    using r(1) by (auto simp: wallets_evidenced_def list_all_iff elim!: wallets.in_upsertE)
  have "\<exists>t \<in> set ?rows. wallet_key t = wallet_key s \<and> bw_account t = bw_account s" if s: "s \<in> set (aw_wallets w)" for s
  proof (cases "wallet_key s = wallet_key r")
    case True
    have "r \<in> set ?rows" using True s by (force simp: tbl_upsert_def set_tbl_update list_ex_iff)
    with True r(2) [OF s] show ?thesis by metis
  next
    case False
    then have "s \<in> set ?rows" using s by (force simp: tbl_upsert_def set_tbl_update)
    then show ?thesis by blast
  qed
  then show "wallets_kept w (w\<lparr>aw_wallets := ?rows\<rparr>)" by (simp add: wallets_kept_def list_all_iff list_ex_iff)
qed

lemma owner_of_key:
  assumes "distinct (map wallet_key rows)" "case tbl_get wallet_key k rows of None \<Rightarrow> True | Some r \<Rightarrow> bw_account r = aid"
  shows "list_all (\<lambda>s. wallet_key s = k \<longrightarrow> bw_account s = aid) rows"
  using assms by (induction rows) (auto simp: list_all_iff image_iff)

lemma wp_other:
  "wp (wallet_of_other env aid chain naddr)
    (\<lambda>_ v. same_wallets w v \<and> (tables_ok w \<longrightarrow> list_all (\<lambda>s. wallet_key s = (chain, naddr) \<longrightarrow> bw_account s = aid) (aw_wallets w)))
    (\<lambda>_ v. same_wallets w v) u" if "same_wallets w u"
  using that owner_of_key [where rows = "aw_wallets w" and k = "(chain, naddr)" and aid = aid]
  by (auto simp: wallet_of_other_def find_wallet_def wps same_wallets_def tables_ok_def split: option.splits)

lemma wp_upsert_wallet:
  assumes "same_wallets w v" "tables_ok w \<Longrightarrow> may_link env w r"
  shows "wp (upsert_wallet env r) (\<lambda>_. acct_le env w) (\<lambda>_. acct_le env w) v"
proof -
  have u: "same_wallets w (v\<lparr>calls := h\<rparr>)" for h using assms(1) by (simp add: same_wallets_def)
  have "acct_le env w ((v\<lparr>calls := h\<rparr>)\<lparr>aw_wallets := tbl_upsert wallet_key (\<lambda>_. r) r (aw_wallets (v\<lparr>calls := h\<rparr>))\<rparr>)" for h
  proof (rule accts.le_trans [OF same_le [OF u] le_upsert])
    assume "tables_ok (v\<lparr>calls := h\<rparr>)"
    then have "tables_ok w" using assms(1) by (simp add: same_wallets_def tables_ok_def)
    from assms(2) [OF this] assms(1) show "may_link env (v\<lparr>calls := h\<rparr>) r" by (simp add: may_link_def same_wallets_def)
  qed
  with u show ?thesis by (auto simp: upsert_wallet_def wps split: option.split intro: same_le)
qed

lemma le_trusted_steps:
  assumes "elem (tr_type body) [''smart'', ''embedded'']"
  shows "grows (acct_le env) (bindE (fetch_account env aid) (\<lambda>_. thenE (wallet_of_other env aid (tr_chain body) naddr)
    (bindE (acct_now env) (\<lambda>now. thenE (upsert_wallet env (trusted_wallet aid naddr now body)) (ret (trusted_wallet aid naddr now body))))))"
    (is "grows _ (bindE _ (\<lambda>_. thenE ?other ?link))")
proof (rule growsI)
  fix w
  have link: "wp ?link (\<lambda>_. acct_le env w) (\<lambda>_. acct_le env w) v"
    if "same_wallets w v" "tables_ok w \<longrightarrow> list_all (\<lambda>s. wallet_key s = (tr_chain body, naddr) \<longrightarrow> bw_account s = aid) (aw_wallets w)" for v
  proof -
    have "tables_ok w \<Longrightarrow> may_link env w (trusted_wallet aid naddr now body)" for now
      using that(2) assms by (simp add: may_link_def evidence_def trusted_evidence_def trusted_wallet_def wallet_key_def)
    from wp_upsert_wallet [OF that(1) this] show ?thesis by (simp add: acct_now_def wps)
  qed
  show "wp (bindE (fetch_account env aid) (\<lambda>_. thenE ?other ?link)) (\<lambda>_. acct_le env w) (\<lambda>_. acct_le env w) w"
    unfolding wp_bind [of "fetch_account _ _"] wp_then [of "wallet_of_other _ _ _ _"]
  proof (rule wp_mono [OF same.wp_le [OF same_account same.le_refl]], goal_cases)
    case (1 a u)
    show ?case
    proof (rule wp_mono [OF wp_other [OF 1]], goal_cases)
      case (1 b v)
      then show ?case by (elim conjE) (rule link)
    qed (rule same_le)
  qed (rule same_le)
qed

lemma le_trusted: "grows (acct_le env) (link_trusted_wallet env ip aid body)"
  unfolding link_trusted_wallet_def
  by (intro accts.rules same_grows [OF same_limit] same_grows [OF same_502] le_trusted_steps) simp_all

text \<open>Linking with a signature: what is proved before the upsert.\<close>

lemma wp_prove:
  "wp (prove_wallet env aid naddr body)
    (\<lambda>r v. same_wallets w v \<and> (tables_ok w \<longrightarrow> may_link env w r)) (\<lambda>_ v. same_wallets w v) w"
proof -
  have signed: "may_link env w (linked_wallet aid naddr now' body)"
    if "tables_ok w" "find (nonce_matches aid naddr body) (aw_nonces w) = Some n" "check_nonce now body (Some n) = Inr n'"
      "list_all (\<lambda>s. wallet_key s = (lr_chain body, naddr) \<longrightarrow> bw_account s = aid) (aw_wallets w)"
      "verify_wallet_signature env (lr_chain body) naddr (lr_message body) (lr_signature body)" for n n' now now'
  proof -
    have "n \<in> set (aw_nonces w)" "nonce_matches aid naddr body n"
      using that(2) by (auto simp: find_Some_iff)
    with that(1,3) have n: "nonce_ok n" "bn_message n = lr_message body" "bn_user n = lr_user body" "bn_role n = lr_role body"
        "bn_account n = aid" "bn_chain n = lr_chain body" "bn_norm n = naddr"
      by (auto simp: tables_ok_def list_all_iff nonce_matches_def check_nonce_def split: if_splits)
    then have "lr_message body = build_link_message aid (lr_user body) (lr_chain body) naddr (lr_role body) (bn_nonce n) (bn_expires n - LINK_TTL) (bn_expires n)"
      by (simp add: nonce_ok_def)
    with that(5) have "signed_evidence env (linked_wallet aid naddr now' body)"
      unfolding signed_evidence_def by (auto simp: linked_wallet_def)
    with that(4) show ?thesis by (simp add: may_link_def evidence_def linked_wallet_def wallet_key_def)
  qed
  have found: "wp (thenE (acall env ReadNonces) (getsE (\<lambda>w. find (nonce_matches aid naddr body) (aw_nonces w))))
      (\<lambda>x v. same_wallets w v \<and> x = find (nonce_matches aid naddr body) (aw_nonces w)) (\<lambda>_ v. same_wallets w v) u"
    if "same_wallets w u" for u
    using that by (auto simp: wps same_wallets_def split: option.split)
  show ?thesis
    unfolding prove_wallet_def wp_bind [of "fetch_account _ _"]
  proof (rule wp_mono [OF same.wp_le [OF same_account same.le_refl]], goal_cases)
    case (1 a u)
    show ?case
      unfolding wp_bind [of "thenE _ _"]
    proof (rule wp_mono [OF found [OF 1]], goal_cases)
      case (1 x v)
      show ?case
      proof (cases "check_nonce (ae_now env (calls v)) body x")
        case (Inr n')
        then obtain n where n: "x = Some n" "check_nonce (ae_now env (calls v)) body (Some n) = Inr n'" by (cases x) (auto simp: check_nonce_def)
        have proved: "tables_ok w \<Longrightarrow> list_all (\<lambda>s. wallet_key s = (lr_chain body, naddr) \<longrightarrow> bw_account s = aid) (aw_wallets w) \<Longrightarrow>
            verify_wallet_signature env (lr_chain body) naddr (lr_message body) (lr_signature body) \<Longrightarrow>
            may_link env w (linked_wallet aid naddr now' body)" for now'
          by (rule signed [OF _ _ n(2)]) (use 1 n(1) in auto)
        have other: "wp (wallet_of_other env aid (lr_chain body) naddr) Q (\<lambda>_. same_wallets w) v"
          if "\<And>u v. same_wallets w v \<Longrightarrow>
            tables_ok w \<longrightarrow> list_all (\<lambda>s. wallet_key s = (lr_chain body, naddr) \<longrightarrow> bw_account s = aid) (aw_wallets w) \<Longrightarrow> Q u v" for Q
          using 1 that by (intro wp_mono [OF wp_other [where w = w]]) blast+
        from Inr show ?thesis
          by (simp add: acct_now_def wps) (auto intro!: other simp: wps proved)
      qed (use 1 in \<open>simp add: acct_now_def wps\<close>)
    qed simp
  qed simp
qed

lemma le_mark_nonce: "acct_le env w (w\<lparr>aw_nonces := tbl_update p (\<lambda>x. x\<lparr>bn_used := t\<rparr>) (aw_nonces w)\<rparr>)"
  by (auto simp: acct_le_def tables_ok_def wallets_kept_def wallets_evidenced_def list_all_iff list_ex_iff set_tbl_update nonce_ok_def)

lemma le_link: "grows (acct_le env) (link_wallet env ip aid body)"
proof -
  have mark: "grows (acct_le env) (thenE (acall env MarkNonce)
      (thenE (modifyE (\<lambda>w. w\<lparr>aw_nonces := tbl_update (\<lambda>x. bn_nonce x = lr_nonce body) (\<lambda>x. x\<lparr>bn_used := bw_verified r\<rparr>) (aw_nonces w)\<rparr>)) (ret r)))"
    (is "grows _ (?mark r)") for r
    by (intro accts.rules same_grows [OF same_call] accts.grows_modify le_mark_nonce)
  have steps: "grows (acct_le env) (bindE (prove_wallet env aid naddr body) (\<lambda>r. thenE (upsert_wallet env r) (?mark r)))" for naddr
  proof (rule growsI)
    fix w
    show "wp (bindE (prove_wallet env aid naddr body) (\<lambda>r. thenE (upsert_wallet env r) (?mark r))) (\<lambda>_. acct_le env w) (\<lambda>_. acct_le env w) w"
      unfolding wp_bind wp_then [of "upsert_wallet _ _"]
    proof (rule wp_mono [OF wp_prove], goal_cases)
      case (1 r v)
      then have "wp (upsert_wallet env r) (\<lambda>_. acct_le env w) (\<lambda>_. acct_le env w) v" by (intro wp_upsert_wallet) blast+
      then show ?case by (rule wp_mono) (auto intro: accts.wp_le [OF mark])
    qed (rule same_le)
  qed
  show ?thesis
    unfolding link_wallet_def
    by (intro accts.grows_then accts.grows_bind [OF accts.grows_lift] accts.grows_catch [OF steps] same_grows [OF same_limit]
        same_grows [OF same_502])
qed

lemma le_requests: "grows (acct_le env) (serve_requests env qs)"
proof -
  have "grows (acct_le env) (serve_request env q)" for q
    unfolding serve_request_def
    by (cases q; simp; intro accts.rules same_grows [OF same_create] le_link_message le_link le_trusted same_grows [OF same_trusted_member])
  then show ?thesis unfolding serve_requests_def by (intro accts.rules)
qed

section \<open>Properties\<close>

text \<open>
  C12: a wallet never moves and is never unproved. Over any requests, whatever fails, every wallet stays in its account, no
  wallet is listed twice, and every new or changed row is that of a smart or embedded wallet linked on trust, or its key
  has signed a text that names this account, user, wallet and role.
\<close>

theorem wallets_stay_and_are_proved:
  assumes "tables_ok w"
  shows "case serve_requests env qs w of (_, v) \<Rightarrow>
    tables_ok v \<and> wallets_kept w v \<and> wallets_evidenced env w v"
proof -
  have "acct_le env w (snd (serve_requests env qs w))" using le_requests [of env qs] by (simp add: grows_def)
  with assms show ?thesis by (simp add: acct_le_def split_beta)
qed

definition demo_acct_env :: "bridge_settings \<Rightarrow> (acct_call list \<Rightarrow> exn option) \<Rightarrow> acct_env" where
  "demo_acct_env b fails = \<lparr>ae_fails = fails, ae_now = \<lambda>_. 1000000000, ae_new_id = \<lambda>h. ''id'', ae_token = \<lambda>_. ''token'',
     ae_recover = \<lambda>_ _. Inl (ValueError ''recover''),
     ae_ed25519 = \<lparr>pubkey_from_string = \<lambda>_. Inr [], signature_from_string = \<lambda>_. Inr [], ed25519_verify = \<lambda>_ _ _. Inr True\<rparr>,
     ae_encode = map (\<lambda>c. of_nat (of_char c)), ae_public = demo_pub_env b\<rparr>"

definition demo_acct_world :: acct_world where
  "demo_acct_world = \<lparr>calls = [], aw_public = demo_pub_world, aw_accounts = [\<lparr>bac_id = ''a'', bac_username = ''Ann'', bac_normalized = ''ann''\<rparr>],
     aw_members = [], aw_wallets = [], aw_nonces = []\<rparr>"

definition demo_trusted :: trusted_request where
  "demo_trusted = \<lparr>tr_user = ''mallory'', tr_chain = ''base'', tr_address = demo_address, tr_type = ''smart'', tr_role = ''trading'', tr_client = None\<rparr>"

lemmas acct_demo = demo_acct_env_def demo_acct_world_def demo_pub_env_def demo_pub_world_def acct_limit_def on_public_def
  check_read_rate_limit_def pub_clock_def rate_limit_def evict_stale_def recent_hits_def READ_MAX_REQUESTS_def perform_def run_defs Let_def

theorem wallets_stay_and_are_proved_witness:
  "\<forall>b. case serve_requests (demo_acct_env b (\<lambda>_. None)) [TrustedWallet ''1.2.3.4'' ''a'' demo_trusted] demo_acct_world of (_, v) \<Rightarrow>
     map bw_account (aw_wallets v) = [''a''] \<and> wallets_evidenced (demo_acct_env b (\<lambda>_. None)) demo_acct_world v"
    (is "\<forall>b. ?P b")
proof
  fix b
  have valid: "eth_address_re demo_address" by code_simp
  have "case serve_requests (demo_acct_env b (\<lambda>_. None)) [TrustedWallet ''1.2.3.4'' ''a'' demo_trusted] demo_acct_world of (_, v) \<Rightarrow>
     map bw_account (aw_wallets v) = [''a'']"
    by (simp add: acct_demo serve_requests_def for_each_def serve_request_def link_trusted_wallet_def demo_trusted_def normalize_wallet_address_def
        valid fetch_account_def find_account_def wallet_of_other_def find_wallet_def acct_now_def upsert_wallet_def trusted_wallet_def tbl_upsert_def)
  moreover have "tables_ok demo_acct_world" by (simp add: tables_ok_def demo_acct_world_def)
  ultimately show "?P b"
    using wallets_stay_and_are_proved [of demo_acct_world "demo_acct_env b (\<lambda>_. None)" "[TrustedWallet ''1.2.3.4'' ''a'' demo_trusted]"]
    by (simp add: split_beta)
qed

section \<open>Requests that prove nothing, and a failed creation\<close>

text \<open>
  The trusted request does not show that the caller owns the account or the wallet: any free address, whoever names it, becomes a verified
  wallet of any account.
\<close>

lemma trusted_links_anything:
  assumes "\<And>h. ae_fails env h = None" "fst (acct_limit env ip w) = Inr ()" "elem (tr_type body) [''smart'', ''embedded'']"
    "normalize_wallet_address (tr_chain body) (tr_address body) = Inr naddr"
    "tbl_get bac_id aid (aw_accounts w) = Some a" "tbl_get wallet_key (tr_chain body, naddr) (aw_wallets w) = None"
  shows "case link_trusted_wallet env ip aid body w of
      (Inl _, _) \<Rightarrow> False
    | (Inr r, v) \<Rightarrow> bw_account r = aid \<and> bw_norm r = naddr \<and> bw_verified r \<noteq> None \<and> bw_signature r = None"
proof -
  obtain p where p: "acct_limit env ip w = (Inr (), w\<lparr>aw_public := p\<rparr>)"
    using assms(2) by (auto simp: acct_limit_def on_public_def split: prod.splits)
  show ?thesis
    using assms
    by (simp add: link_trusted_wallet_def p perform_def run_defs Let_def fetch_account_def find_account_def wallet_of_other_def find_wallet_def
        acct_now_def upsert_wallet_def trusted_wallet_def)
qed

text \<open>A creation that fails between its two insertions keeps the name: the retry of the same user is refused with 409.\<close>

definition member_times_out :: "acct_call list \<Rightarrow> exn option" where
  "member_times_out h = (if h = [InsertMember, InsertAccount, ReadMembers] then Some (OtherError ''timeout'') else None)"

lemma failed_creation_keeps_username:
  "case create_b1nary_account (demo_acct_env b member_times_out) ''1.2.3.4'' ''bob'' ''u'' demo_acct_world of (r, v) \<Rightarrow>
     r = Inl (HTTPException 502 ''Could not create b1nary account'') \<and> aw_members v = [] \<and>
     fst (create_b1nary_account (demo_acct_env b member_times_out) ''1.2.3.4'' ''bob'' ''u'' v) =
       Inl (HTTPException 409 ''Username or Privy user already exists'')"
proof -
  define env where "env = demo_acct_env b member_times_out"
  have env: "ae_fails env = member_times_out" "ae_new_id env h = ''id''" for h by (simp_all add: env_def demo_acct_env_def)
  define p where "p = demo_pub_world\<lparr>calls := [PubClock], pw_read_hits := [(''1.2.3.4'', [5])]\<rparr>"
  have limit: "check_read_rate_limit (ae_public env) ''1.2.3.4'' demo_pub_world = (Inr (), p)"
    "check_read_rate_limit (ae_public env) ''1.2.3.4'' p = (Inr (), p\<lparr>calls := [PubClock, PubClock], pw_read_hits := [(''1.2.3.4'', [5, 5])]\<rparr>)"
    by (simp_all add: env_def demo_acct_env_def p_def check_read_rate_limit_def pub_clock_def rate_limit_def evict_stale_def recent_hits_def
        MAX_TRACKED_IPS_def READ_MAX_REQUESTS_def READ_WINDOW_def us_defs demo_pub_env_def demo_pub_world_def run_defs Let_def)
  then have first: "acct_limit env ''1.2.3.4'' demo_acct_world = (Inr (), demo_acct_world\<lparr>aw_public := p\<rparr>)"
    and again: "aw_public w = p \<Longrightarrow> \<exists>q. acct_limit env ''1.2.3.4'' w = (Inr (), w\<lparr>aw_public := q\<rparr>)" for w
    by (auto simp: acct_limit_def on_public_def demo_acct_world_def)
  have name: "normalize_username ''bob'' = Inr ''bob''" "strip ''bob'' = ''bob''" by code_simp+
  have wording: "\<not> contains (lower ''timeout'') ''duplicate''" "\<not> contains (lower ''timeout'') ''unique''"
    "contains (lower ''duplicate key value violates unique constraint'') ''duplicate''"
    by code_simp+
  define v where "v = demo_acct_world\<lparr>aw_public := p, calls := [InsertMember, InsertAccount, ReadMembers],
    aw_accounts := aw_accounts demo_acct_world @ [\<lparr>bac_id = ''id'', bac_username = ''bob'', bac_normalized = ''bob''\<rparr>]\<rparr>"
  have v_public: "aw_public v = p" by (simp add: v_def demo_acct_world_def)
  have "create_b1nary_account env ''1.2.3.4'' ''bob'' ''u'' demo_acct_world = (Inl (HTTPException 502 ''Could not create b1nary account''), v)"
    unfolding create_b1nary_account_def thenE_def [of "acct_limit _ _"] bindE_def [of "acct_limit _ _"] first
    by (simp add: name find_member_def insert_account_def insert_member_def acct_now_def perform_def env run_defs Let_def demo_acct_world_def
        member_times_out_def creation_error_def wording v_def)
  moreover obtain q where q: "acct_limit env ''1.2.3.4'' v = (Inr (), v\<lparr>aw_public := q\<rparr>)"
    using again [of v, OF v_public] by blast
  then have "fst (create_b1nary_account env ''1.2.3.4'' ''bob'' ''u'' v) = Inl (HTTPException 409 ''Username or Privy user already exists'')"
    unfolding create_b1nary_account_def thenE_def [of "acct_limit _ _"] bindE_def [of "acct_limit _ _"] q
    by (simp add: name find_member_def insert_account_def perform_def env run_defs Let_def v_def demo_acct_world_def
        member_times_out_def creation_error_def wording DUPLICATE_def)
  moreover have "aw_members v = []" by (simp add: v_def demo_acct_world_def)
  ultimately show ?thesis by (simp add: env_def)
qed

end
