(* ===== verification/Spec2Isabelle.thy ===== *)
theory Spec2Isabelle
  imports Capital_Intents Circuit_Breaker Yield_API Event_Progress Expiry_Marks Mm_Safety Solana_Index_Safety Solana_Settler_Safety Solana_Pyth_Layout
    Public_Safety Accounts_Safety
begin

text \<open>
  A verification library of the backend of an options protocol: a Python service that keeps tables about an option
  protocol on Base and Solana, and bots that index the chains, settle expired options, distribute yield and
  move capital between chains. Paths below are relative to \<open>src/src\<close>.

  \<^bold>\<open>The program and its parts.\<close> The parts meet in the database. \<open>order_events\<close> is filled by the event indexer and
  settled by the expiry settler; the yield tables are filled by the yield indexer, paid by the weekly airdrop and read by
  the yield endpoints; \<open>bridge_jobs\<close> and \<open>capital_movement_intents\<close> are written by the two APIs, worked off by
  the relayer and turned into rotations by the reconciliation. Prices and expiries come from the pricing modules, which
  the circuit breaker watches. \<open>available_otokens\<close> is published by the two option token managers, \<open>mm_quotes\<close> is
  filled by market makers and emptied by the circuit breaker.

  \<^bold>\<open>How it is modelled.\<close> A program is a function of type \<open>('w, 'a) py\<close> (theory Py_Monad): it takes the world and
  returns an exception or a value, and the new world. A world is a record of the tables and module variables of a part,
  together with the history of its calls to the outside. A call may fail at any time: the environment decides
  from the history of calls, so that two identical calls may end differently, and it gives the answers of chains, services and
  libraries in the same way. \<open>try\<close> blocks, early returns and raises are the branches of the source. Loops over lists are
  folds, the other loops recursive functions. Python's integers are \<open>int\<close>, floats are rationals rounded to
  binary64 by \<open>fl\<close> (Py_Float), dictionaries are association lists where their order matters, timestamps are microseconds.

  \<^bold>\<open>Shared theories.\<close>
  Py_Prelude: exceptions, truthiness, strings, numerals, bytes.
  Py_Monad: the monad; weakest preconditions (\<open>wps\<close>); programs that never raise (\<open>returns_rules\<close>); what programs return
  (\<open>yields_rules\<close>); the locale \<open>world_order\<close>, which lifts a relation on worlds from single operations to whole
  programs and is interpreted for histories, frames of tables, cursors and row relations throughout; counting of calls (\<open>spends\<close>);
  its amortised form for loops (\<open>leaves\<close>); tables with the locale \<open>keyed_table\<close>.
  Py_Tables: upserts with the locale \<open>upsert_table\<close>, dictionaries and grouping of rows.
  Py_Float: rounding to binary64, \<open>round\<close> and \<open>int\<close>.
  Config: \<open>config.py\<close> and \<open>chains/\<close>.

  \<^bold>\<open>Pricing and circuit breaker.\<close>
  Assets: \<open>pricing/assets.py\<close>. Pricing: \<open>pricing/utils.py\<close> and \<open>pricing/price_sheet.py\<close>, with the schedule of expiries
  and the exact grid of generated strikes. Circuit_Breaker: \<open>pricing/circuit_breaker.py\<close> and \<open>bots/circuit_breaker_bot.py\<close>.

  \<^bold>\<open>Bridge and capital intents.\<close>
  Cctp (\<open>bridge/cctp.py\<close>: byte layouts, submission checks, attestation polling), Solana_Trade (\<open>bridge/solana_trade.py\<close> over
  an abstract transaction library), Bridge_World (the rows), Capital_Sync (\<open>capital_intents/sync.py\<close>, a refinement of
  a pure mapping), Relayer (\<open>bridge/relayer.py\<close>: the job reaches a final state, bounded numbers of transactions, no effect on other jobs),
  Bridge_Routes (\<open>bridge/routes.py\<close>: all or nothing, a burn is sent once), Capital_Intents (\<open>capital_intents/routes.py\<close> and
  \<open>capital_intents/reconcile.py\<close>).

  \<^bold>\<open>Yield distribution.\<close>
  Yield_World (rows and environment), Yield_Calculator (\<open>yield_tracking/calculator.py\<close>: each allocation is within
  explicit rounding bounds of its exact share; the bound below which nothing is over-allocated, and an over-allocation above it),
  Yield_Indexer (\<open>bots/yield_indexer.py\<close>: the catch-up ends and covers every block), Yield_Airdrop (\<open>bots/yield_airdrop.py\<close>:
  no more is paid than was harvested), Yield_API (\<open>api/yield_routes.py\<close>).

  \<^bold>\<open>Base event indexer.\<close>
  Order_Events (the rows), Event_Indexer (\<open>bots/event_indexer.py\<close> and the metadata cache), Event_Safety (one
  indexing cycle against a chain of events), Event_Progress (the poll loop: no event is lost whatever fails, the head is
  reached when nothing fails; two ways to lose events; deliveries).

  \<^bold>\<open>Base expiry settler.\<close>
  Expiry_Settler (\<open>bots/expiry_settler.py\<close> and the raw price of \<open>pricing/chainlink.py\<close>), Expiry_Safety (slippage bounds,
  bounded deliveries, no position is lost, a delivery that cannot be marked), Expiry_Marks (the in-the-money marks follow the oracle).

  \<^bold>\<open>Option token managers.\<close>
  Otoken_Publish (what the two share: the table, the loop over specifications, lookup, upsert and the cycle; the locale
  \<open>otoken_maker\<close> is the contract with a chain, \<open>otoken_publisher\<close> extends it to the published table), Otoken_Manager
  (\<open>bots/otoken_manager.py\<close>) and Solana_Otoken_Manager (\<open>bots/solana_otoken_manager.py\<close>), which interpret both
  locales: returned tokens have their evidence in the history, published rows are backed by it, and the number of transactions is bounded.

  \<^bold>\<open>Solana event indexer.\<close>
  Solana_Orders (base64, the two events of the programs, the reading of a log against a writer of logs), Solana_Indexer
  (\<open>bots/solana_event_indexer.py\<close>: pages of signatures, metadata cache, rows, cursor), Solana_Index_Safety (the collection ends, and
  no order is lost, for a node that serves the pages of a growing ledger).

  \<^bold>\<open>Solana expiry settler.\<close>
  Solana_Chain (the world and the helpers for accounts and transactions of \<open>bots/solana_expiry_settler.py\<close>), Solana_Pyth (its prices:
  \<open>chains/solana/oracle.py\<close>, price accounts, accumulator updates and their posting), Solana_Vaults (queues, marks, expiry prices and
  the settlement of vaults), Solana_Delivery (redemption, delivery, the cycle, the sweep and the main loop), Solana_Marks (every mark has its
  evidence), Solana_Settler_Safety (bounded numbers of transactions, both notations of strikes, a delivery that cannot be marked),
  Solana_Pyth_Layout (the binary layouts of updates and their reduction).

  \<^bold>\<open>Market maker API.\<close>
  Quote_Crypto (\<open>models/mm.py\<close>, \<open>crypto/ed25519.py\<close>, \<open>crypto/eip712.py\<close>: validation and signed messages over abstract
  signature schemes), Mm_Quotes (\<open>api/deps.py\<close> and the quote endpoints of \<open>api/mm_routes.py\<close>), Mm_Safety (stored quotes
  verify, the answer of a batch, the life of a revoked key, and what a Solana batch is not checked for), Mm_Monitor (fills, positions,
  exposure, market data and capacity of \<open>api/mm_routes.py\<close>: positions and exposure agree).

  \<^bold>\<open>Public API.\<close>
  Public_Market (\<open>api/routes.py\<close>: rate limiters, capacity, spot price, price menu with its cache, breaker and position counts), Public_Positions
  (\<open>api/routes.py\<close>: waiting list, outcomes, positions, groups, balances), Public_Safety (the limits are exact, the menu shows the best live
  quotes, counted positions are shown once, and three defects). The dash in the texts of outcomes is written as a hyphen.

  \<^bold>\<open>Accounts.\<close>
  Accounts (\<open>api/b1nary_accounts.py\<close>: creation, members, link messages, wallets, positions of an account), Accounts_Safety
  (wallets stay in their accounts and are proved or trusted; what trusted requests do not prove).

  \<^bold>\<open>Fuel and bounds.\<close> Attestation polling, the yield catch-up and the extension of strikes recurse on a number computed from
  their arguments (time-out and interval, number of blocks, distance and step), and the theorems about them state
  that this number suffices: \<open>NoReturn\<close>, the outcome of a loop that does not end, is excluded. Retries, sweeps and batches recurse
  structurally. The readiness of a Solana price
  account is awaited \<open>ORACLE_ATTEMPTS\<close> times, as in the code. The endless main loops are modelled by their rounds, and theorems speak of any number of rounds.

  \<^bold>\<open>Hypotheses about the outside.\<close> They are named where they are used: \<open>serves\<close> (a node answers a log query with the events of
  the range), \<open>oracle_serves\<close> (a final price does not change), \<open>reliable\<close> (no call fails), \<open>table_ok\<close> (distinct vault keys,
  lower-case users), \<open>vaults_ok\<close> (distinct vaults of the Solana table), \<open>tables_ok\<close> (distinct wallets, messages of nonces as they are
  built), \<open>exact_amounts\<close> (amounts that a decimal of 28 digits holds). Each has an example environment that satisfies it.

  \<^bold>\<open>Not modelled.\<close> The leaderboard, results and activity pages, the agent's endpoints and the weekly aggregation. HTML and delivery of emails, HTTP and RPC clients, signing,
  start-up wiring and demonstration endpoints are input and output around the modelled logic; the option formula and the
  volatility models are transcendental floating point. Logging is left out everywhere. Bots run one at a time in the model: where two
  of them meet in a table, a theorem states what one finds after the other.
\<close>

end
